(* ===== verification/Prelude.thy ===== *)
theory Prelude
  imports Main "HOL-Library.AList" "HOL-Library.Char_ord" "HOL-Library.List_Lexorder"
    "HOL-Library.Product_Lexorder"
begin

text \<open>
  Shared vocabulary of the development: the collections of rewrite rules the component
  theories fill and use, the result type of fallible Go functions, and generic facts about
  lists and association lists.

  A Go map is an association list with distinct keys. The order of the list stands for the
  iteration order the Go runtime happens to choose, so a statement about every association
  list holds for every iteration order.
\<close>

named_theorems go_string "equations of the Go string library model"
named_theorems authz_defs "definitions of the authorization model"
named_theorems grant_defs "definitions of the grant lifecycle"
named_theorems gate_defs "definitions of the policy gate"
named_theorems exec_defs "definitions of the executor"

type_synonym ('e, 'a) result = "'e + 'a"

text \<open>The error-propagating sequence \<open>x, err := f(); if err != nil { return err }\<close>.\<close>

definition bind_res :: "('e, 'a) result \<Rightarrow> ('a \<Rightarrow> ('e, 'b) result) \<Rightarrow> ('e, 'b) result" where
  "bind_res r f = (case r of Inl e \<Rightarrow> Inl e | Inr x \<Rightarrow> f x)"

lemma bind_res_simps [simp]:
  "bind_res (Inl e) f = Inl e" "bind_res (Inr x) f = f x"
  by (simp_all add: bind_res_def)

lemma bind_res_Inr_iff: "bind_res r f = Inr y \<longleftrightarrow> (\<exists>x. r = Inr x \<and> f x = Inr y)"
  by (cases r) simp_all

text \<open>The first element of a list that satisfies a predicate (\<open>slices.IndexFunc\<close>).\<close>

fun find_first :: "('a \<Rightarrow> bool) \<Rightarrow> 'a list \<Rightarrow> 'a option" where
  "find_first P [] = None"
| "find_first P (x # xs) = (if P x then Some x else find_first P xs)"

lemma find_first_Some: "find_first P xs = Some x \<Longrightarrow> x \<in> set xs \<and> P x"
  by (induction xs) (auto split: if_splits)

lemma find_first_None: "find_first P xs = None \<longleftrightarrow> (\<forall>x \<in> set xs. \<not> P x)"
  by (induction xs) auto

lemma find_first_unique:
  assumes "x \<in> set xs" and "P x" and "\<And>y. y \<in> set xs \<Longrightarrow> P y \<Longrightarrow> y = x"
  shows "find_first P xs = Some x"
proof (cases "find_first P xs")
  case None
  with assms(1,2) show ?thesis by (simp add: find_first_None)
next
  case (Some y)
  with assms(3) show ?thesis by (auto dest: find_first_Some)
qed

text \<open>Association lists: the entry a key is bound to, and the effect of filtering.\<close>

lemma map_of_filter_distinct:
  "distinct (map fst m) \<Longrightarrow>
   map_of (filter (\<lambda>(k, v). P v) m) k = (case map_of m k of None \<Rightarrow> None | Some v \<Rightarrow> if P v then Some v else None)"
proof (induction m)
  case Nil
  then show ?case by simp
next
  case (Cons kv m)
  obtain k' v' where kv: "kv = (k', v')" by (cases kv)
  have "k' = k \<Longrightarrow> map_of m k = None"
    using Cons.prems kv by (auto simp: map_of_eq_None_iff)
  then show ?case using Cons kv by auto
qed

lemma distinct_filter_keys: "distinct (map fst m) \<Longrightarrow> distinct (map fst (filter P m))"
  by (simp add: distinct_map_filter)

lemma set_update_distinct:
  "distinct (map fst m) \<Longrightarrow>
   set (AList.update k v m) = insert (k, v) {p \<in> set m. fst p \<noteq> k}"
proof (induction m)
  case Nil
  then show ?case by simp
next
  case (Cons p m)
  then show ?case by (cases p) (auto simp: image_iff)
qed

lemma update_fresh: "k \<notin> fst ` set m \<Longrightarrow> AList.update k v m = m @ [(k, v)]"
  by (induction m) auto

lemma set_delete_alist: "set (AList.delete k m) = {p \<in> set m. fst p \<noteq> k}"
  by (auto simp: AList.delete_eq)

lemma distinct_delete_keys: "distinct (map fst m) \<Longrightarrow> distinct (map fst (AList.delete k m))"
  by (simp add: AList.delete_eq distinct_filter_keys)

text \<open>\<open>slices.Compact(slices.Sorted(xs))\<close>: the sorted list without repetitions.\<close>

definition sorted_compact :: "'a::linorder list \<Rightarrow> 'a list" where
  "sorted_compact xs = remdups_adj (sort xs)"

lemma set_sorted_compact [simp]: "set (sorted_compact xs) = set xs"
  by (simp add: sorted_compact_def)

lemma sorted_sorted_compact: "sorted (sorted_compact xs)"
  by (simp add: sorted_compact_def)

lemma distinct_remdups_adj_sorted: "sorted xs \<Longrightarrow> distinct (remdups_adj xs)"
  by (induction xs rule: remdups_adj.induct) (auto simp: order_antisym)

lemma distinct_sorted_compact: "distinct (sorted_compact xs)"
  by (simp add: sorted_compact_def distinct_remdups_adj_sorted)

lemma sorted_compact_eq_iff: "sorted_compact xs = sorted_compact ys \<longleftrightarrow> set xs = set ys"
  by (metis set_sorted_compact sorted_distinct_set_unique sorted_sorted_compact
      distinct_sorted_compact)

end
