(* ===== verification/GoStrings.thy ===== *)
theory GoStrings
  imports Prelude
begin

text \<open>
  The part of Go's string library the program uses. A Go string is a sequence of bytes and is
  modelled as one: a HOL \<^typ>\<open>string\<close> whose characters are bytes. Iterating over a string
  decodes UTF-8 rune by rune, and a byte that does not start a well-formed sequence decodes to
  U+FFFD with width one, as the language defines.
\<close>

section \<open>UTF-8\<close>

type_synonym rune = nat

definition rune_error :: rune where
  "rune_error = 65533"

abbreviation byte_of :: "char \<Rightarrow> nat" where
  "byte_of \<equiv> of_char"

definition is_cont :: "nat \<Rightarrow> bool" where
  "is_cont b \<longleftrightarrow> 128 \<le> b \<and> b \<le> 191"

text \<open>The range of second bytes a leading byte accepts: no overlong forms, no surrogates.\<close>

definition accept_second :: "nat \<Rightarrow> nat \<Rightarrow> bool" where
  "accept_second b0 b1 \<longleftrightarrow>
     (if b0 = 224 then 160 else if b0 = 240 then 144 else 128) \<le> b1 \<and>
     b1 \<le> (if b0 = 237 then 159 else if b0 = 244 then 143 else 191)"

fun decode_rune :: "string \<Rightarrow> rune \<times> nat" where
  "decode_rune [] = (rune_error, 0)"
| "decode_rune (c0 # s) =
     (let b0 = byte_of c0 in
      if b0 < 128 then (b0, 1)
      else if b0 < 194 \<or> 244 < b0 then (rune_error, 1)
      else case s of
        [] \<Rightarrow> (rune_error, 1)
      | c1 # s1 \<Rightarrow>
          (let b1 = byte_of c1 in
           if \<not> accept_second b0 b1 then (rune_error, 1)
           else if b0 < 224 then ((b0 - 192) * 64 + (b1 - 128), 2)
           else case s1 of
             [] \<Rightarrow> (rune_error, 1)
           | c2 # s2 \<Rightarrow>
               (let b2 = byte_of c2 in
                if \<not> is_cont b2 then (rune_error, 1)
                else if b0 < 240 then ((b0 - 224) * 4096 + (b1 - 128) * 64 + (b2 - 128), 3)
                else case s2 of
                  [] \<Rightarrow> (rune_error, 1)
                | c3 # _ \<Rightarrow>
                    (let b3 = byte_of c3 in
                     if \<not> is_cont b3 then (rune_error, 1)
                     else ((b0 - 240) * 262144 + (b1 - 128) * 4096 + (b2 - 128) * 64 + (b3 - 128), 4)))))"

definition valid_rune :: "rune \<Rightarrow> bool" where
  "valid_rune r \<longleftrightarrow> r < 55296 \<or> (57344 \<le> r \<and> r < 1114112)"

definition encode_valid :: "rune \<Rightarrow> string" where
  "encode_valid r =
     (if r < 128 then [char_of r]
      else if r < 2048 then [char_of (192 + r div 64), char_of (128 + r mod 64)]
      else if r < 65536 then
        [char_of (224 + r div 4096), char_of (128 + r div 64 mod 64), char_of (128 + r mod 64)]
      else [char_of (240 + r div 262144), char_of (128 + r div 4096 mod 64),
            char_of (128 + r div 64 mod 64), char_of (128 + r mod 64)])"

text \<open>\<open>utf8.AppendRune\<close>, \<open>strings.Builder.WriteRune\<close> and \<open>string(r)\<close>: a value that is no
  rune is written as U+FFFD.\<close>

definition encode_rune :: "rune \<Rightarrow> string" where
  "encode_rune r = encode_valid (if valid_rune r then r else rune_error)"

lemma decode_rune_size: "s \<noteq> [] \<Longrightarrow> 0 < snd (decode_rune s) \<and> snd (decode_rune s) \<le> length s"
  by (cases s) (auto simp: Let_def split: list.splits)

text \<open>The iteration \<open>for _, r := range s\<close>: each rune with the bytes it was decoded from.\<close>

function runes_of :: "string \<Rightarrow> (rune \<times> string) list" where
  "runes_of s =
     (if s = [] then []
      else (let (r, n) = decode_rune s in (r, take n s) # runes_of (drop n s)))"
  by pat_completeness auto
termination
proof (relation "measure length")
  fix s :: string and x :: "rune \<times> nat" and r :: rune and n :: nat
  assume "s \<noteq> []" and "x = decode_rune s" and "(r, n) = x"
  then have "0 < n \<and> n \<le> length s"
    using decode_rune_size [of s] by (metis snd_conv)
  then show "(drop n s, s) \<in> measure length" by auto
qed simp

declare runes_of.simps [simp del]

lemma runes_of_Nil [simp]: "runes_of [] = []"
  by (simp add: runes_of.simps)

lemma runes_of_nonempty:
  "s \<noteq> [] \<Longrightarrow> decode_rune s = (r, n) \<Longrightarrow> runes_of s = (r, take n s) # runes_of (drop n s)"
  by (subst runes_of.simps) simp

text \<open>Nothing of the string is lost: the pieces concatenate to it.\<close>

lemma concat_runes_of: "concat (map snd (runes_of s)) = s"
proof (induction s rule: runes_of.induct)
  case (1 s)
  show ?case
  proof (cases "s = []")
    case False
    obtain r n where d: "decode_rune s = (r, n)" by (cases "decode_rune s")
    with 1 False have "concat (map snd (runes_of (drop n s))) = drop n s" by simp
    with False d show ?thesis by (simp add: runes_of_nonempty)
  qed simp
qed

lemma byte_less_256: "byte_of c < (256::nat)"
  by (metis of_char_mod_256 mod_less_divisor zero_less_numeral)

lemma decode_rune_valid: "valid_rune (fst (decode_rune s))"
proof (cases s)
  case (Cons c0 s0)
  then show ?thesis using byte_less_256 [of c0]
    by (auto simp: Let_def valid_rune_def rune_error_def accept_second_def is_cont_def
        split: list.splits)
qed (simp add: valid_rune_def rune_error_def)

lemma decode_encode_valid:
  assumes "valid_rune r"
  shows "decode_rune (encode_valid r @ s) = (r, length (encode_valid r))"
proof -
  consider "r < 128" | "128 \<le> r" "r < 2048" | "2048 \<le> r" "r < 65536" | "65536 \<le> r" "r < 1114112"
    using assms by (force simp: valid_rune_def)
  then show ?thesis
  proof cases
    case 1
    then show ?thesis by (simp add: encode_valid_def)
  next
    case 2
    then have "(192 + r div 64) mod 256 = 192 + r div 64" "192 + r div 64 < 224" "194 \<le> 192 + r div 64"
      "(128 + r mod 64) mod 256 = 128 + r mod 64" by auto
    with 2 show ?thesis by (simp add: encode_valid_def Let_def accept_second_def)
  next
    case 3
    define a q m l where "a = r div 64" and "q = a div 64" and "m = a mod 64" and "l = r mod 64"
    have d: "r div 64 = a" "r div 4096 = q" "a mod 64 = m" "r mod 64 = l"
      by (simp_all add: a_def q_def m_def l_def flip: div_mult2_eq)
    have r: "r = 64 * a + l" "a = 64 * q + m" by (simp_all add: a_def q_def m_def l_def)
    have b: "m \<le> 63" "l \<le> 63" by (simp_all add: m_def l_def flip: less_Suc_eq_le)
    have a: "32 \<le> a" "a < 1024" "a < 864 \<or> 896 \<le> a"
      using 3 assms by (auto simp: a_def valid_rune_def)
    have "q = 0 \<longrightarrow> 32 \<le> m" "q = 13 \<longrightarrow> m \<le> 31" "q < 16" "q * 4096 + m * 64 + l = r"
      using a r b by linarith+
    with 3 b show ?thesis
      by (simp add: encode_valid_def Let_def accept_second_def is_cont_def d)
  next
    case 4
    define a b q m n l where "a = r div 64" and "b = a div 64" and "q = b div 64"
      and "m = b mod 64" and "n = a mod 64" and "l = r mod 64"
    have d: "r div 64 = a" "r div 4096 = b" "r div 262144 = q" "b mod 64 = m" "a mod 64 = n" "r mod 64 = l"
      by (simp_all add: a_def b_def q_def m_def n_def l_def flip: div_mult2_eq)
    have r: "r = 64 * a + l" "a = 64 * b + n" "b = 64 * q + m"
      by (simp_all add: a_def b_def q_def m_def n_def l_def)
    have u: "m \<le> 63" "n \<le> 63" "l \<le> 63" by (simp_all add: m_def n_def l_def flip: less_Suc_eq_le)
    have "q = 0 \<longrightarrow> 16 \<le> m" "q = 4 \<longrightarrow> m \<le> 15" "q \<le> 4"
      "q * 262144 + m * 4096 + n * 64 + l = r"
      using 4 r u by linarith+
    with 4 u show ?thesis
      by (simp add: encode_valid_def Let_def accept_second_def is_cont_def d)
  qed
qed

text \<open>A string is valid UTF-8 when every piece is the encoding of its rune.\<close>

definition valid_utf8 :: "string \<Rightarrow> bool" where
  "valid_utf8 s \<longleftrightarrow> list_all (\<lambda>(r, b). b = encode_rune r) (runes_of s)"

definition runes :: "string \<Rightarrow> rune list" where
  "runes s = map fst (runes_of s)"

definition of_runes :: "rune list \<Rightarrow> string" where
  "of_runes rs = concat (map encode_rune rs)"

lemma encode_rune_nonempty [simp]: "encode_rune r \<noteq> []"
  by (simp add: encode_rune_def encode_valid_def)

lemma decode_encode_rune:
  "valid_rune r \<Longrightarrow> decode_rune (encode_rune r @ s) = (r, length (encode_rune r))"
  by (simp add: encode_rune_def decode_encode_valid)

lemma runes_of_encode:
  "valid_rune r \<Longrightarrow> runes_of (encode_rune r @ s) = (r, encode_rune r) # runes_of s"
  by (subst runes_of_nonempty [OF _ decode_encode_rune]) auto

lemma runes_of_of_runes:
  "list_all valid_rune rs \<Longrightarrow> runes_of (of_runes rs) = map (\<lambda>r. (r, encode_rune r)) rs"
  by (induction rs) (auto simp: of_runes_def runes_of_encode)

lemma runes_valid: "list_all valid_rune (runes s)"
proof (induction s rule: runes_of.induct)
  case (1 s)
  show ?case
  proof (cases "s = []")
    case False
    obtain r n where d: "decode_rune s = (r, n)" by (cases "decode_rune s")
    with 1 False have "list_all valid_rune (runes (drop n s))" by simp
    moreover have "valid_rune r" using decode_rune_valid [of s] d by simp
    ultimately show ?thesis using False d by (simp add: runes_def runes_of_nonempty)
  qed (simp add: runes_def)
qed

lemma runes_of_runes [simp]: "list_all valid_rune rs \<Longrightarrow> runes (of_runes rs) = rs"
  by (simp add: runes_def runes_of_of_runes comp_def)

lemma valid_utf8_of_runes: "list_all valid_rune rs \<Longrightarrow> valid_utf8 (of_runes rs)"
  by (simp add: valid_utf8_def runes_of_of_runes list.pred_map comp_def list_all_iff)

text \<open>On valid UTF-8, decoding and encoding are inverse.\<close>

lemma of_runes_runes:
  assumes "valid_utf8 s"
  shows "of_runes (runes s) = s"
proof -
  have "of_runes (runes s) = concat (map (\<lambda>p. encode_rune (fst p)) (runes_of s))"
    by (simp add: of_runes_def runes_def comp_def)
  also have "\<dots> = concat (map snd (runes_of s))"
    using assms by (intro arg_cong [where f = concat] map_cong)
      (auto simp: valid_utf8_def list_all_iff)
  finally show ?thesis by (simp add: concat_runes_of)
qed

section \<open>Character classes\<close>

text \<open>\<open>unicode.IsSpace\<close>, \<open>unicode.IsControl\<close> (category Cc) and the category Cf of format
  characters, as the Unicode tables of Go's standard library list them.\<close>

definition is_space :: "rune \<Rightarrow> bool" where
  "is_space r \<longleftrightarrow> (9 \<le> r \<and> r \<le> 13) \<or> r = 32 \<or> r = 133 \<or> r = 160 \<or> r = 5760 \<or>
     (8192 \<le> r \<and> r \<le> 8202) \<or> r = 8232 \<or> r = 8233 \<or> r = 8239 \<or> r = 8287 \<or> r = 12288"

definition is_control :: "rune \<Rightarrow> bool" where
  "is_control r \<longleftrightarrow> r < 32 \<or> (127 \<le> r \<and> r < 160)"

definition is_format :: "rune \<Rightarrow> bool" where
  "is_format r \<longleftrightarrow> r = 173 \<or> (1536 \<le> r \<and> r \<le> 1541) \<or> r = 1564 \<or> r = 1757 \<or> r = 1807 \<or>
     (2192 \<le> r \<and> r \<le> 2193) \<or> r = 2274 \<or> r = 6158 \<or> (8203 \<le> r \<and> r \<le> 8207) \<or>
     (8234 \<le> r \<and> r \<le> 8238) \<or> (8288 \<le> r \<and> r \<le> 8292) \<or> (8294 \<le> r \<and> r \<le> 8303) \<or>
     r = 65279 \<or> (65529 \<le> r \<and> r \<le> 65531) \<or> r = 69821 \<or> r = 69837 \<or>
     (78896 \<le> r \<and> r \<le> 78911) \<or> (113824 \<le> r \<and> r \<le> 113827) \<or>
     (119155 \<le> r \<and> r \<le> 119162) \<or> r = 917505 \<or> (917536 \<le> r \<and> r \<le> 917631)"

section \<open>Functions of the strings package\<close>

definition trim_list :: "('a \<Rightarrow> bool) \<Rightarrow> 'a list \<Rightarrow> 'a list" where
  "trim_list P xs = rev (dropWhile P (rev (dropWhile P xs)))"

lemma trim_list_none: "(\<And>x. x \<in> set xs \<Longrightarrow> \<not> P x) \<Longrightarrow> trim_list P xs = xs"
  by (metis trim_list_def dropWhile_eq_self_iff hd_in_set rev_rev_ident set_rev)

text \<open>\<open>strings.TrimSpace\<close>.\<close>

definition trim_space :: "string \<Rightarrow> string" where
  "trim_space s = concat (map snd (trim_list (\<lambda>p. is_space (fst p)) (runes_of s)))"

definition has_prefix :: "string \<Rightarrow> string \<Rightarrow> bool" where
  "has_prefix s p \<longleftrightarrow> take (length p) s = p"

definition trim_prefix :: "string \<Rightarrow> string \<Rightarrow> string" where
  "trim_prefix s p = (if has_prefix s p then drop (length p) s else s)"

definition cut_prefix :: "string \<Rightarrow> string \<Rightarrow> string \<times> bool" where
  "cut_prefix s p = (if has_prefix s p then (drop (length p) s, True) else (s, False))"

definition trim_suffix :: "string \<Rightarrow> string \<Rightarrow> string" where
  "trim_suffix s p = (if has_prefix (rev s) (rev p) then take (length s - length p) s else s)"

text \<open>\<open>strings.Index\<close> for a non-empty separator, and \<open>strings.Cut\<close>.\<close>

fun index_of :: "string \<Rightarrow> string \<Rightarrow> nat option" where
  "index_of [] sep = None"
| "index_of (c # s) sep = (if has_prefix (c # s) sep then Some 0 else map_option Suc (index_of s sep))"

definition cut :: "string \<Rightarrow> string \<Rightarrow> string \<times> string \<times> bool" where
  "cut s sep = (case index_of s sep of
     None \<Rightarrow> (s, [], False)
   | Some i \<Rightarrow> (take i s, drop (i + length sep) s, True))"

definition contains :: "string \<Rightarrow> string \<Rightarrow> bool" where
  "contains s sub \<longleftrightarrow> index_of s sub \<noteq> None"

fun join :: "string list \<Rightarrow> string \<Rightarrow> string" where
  "join [] sep = []"
| "join [x] sep = x"
| "join (x # y # xs) sep = x @ sep @ join (y # xs) sep"

text \<open>\<open>strings.FieldsFunc\<close>: the maximal runs of elements that are no separators, on any list.\<close>

fun runs_acc :: "('a \<Rightarrow> bool) \<Rightarrow> 'a list \<Rightarrow> 'a list \<Rightarrow> 'a list list" where
  "runs_acc P acc [] = (if acc = [] then [] else [rev acc])"
| "runs_acc P acc (x # xs) =
     (if P x then (if acc = [] then runs_acc P [] xs else rev acc # runs_acc P [] xs)
      else runs_acc P (x # acc) xs)"

definition fields_func :: "(rune \<Rightarrow> bool) \<Rightarrow> string \<Rightarrow> string list" where
  "fields_func P s = map (\<lambda>ps. concat (map snd ps)) (runs_acc (\<lambda>p. P (fst p)) [] (runes_of s))"

definition str_fields :: "string \<Rightarrow> string list" where
  "str_fields s = fields_func is_space s"

text \<open>\<open>strings.Split(s, sep)\<close> for a separator of one byte.\<close>

fun split_char :: "char \<Rightarrow> string \<Rightarrow> string list" where
  "split_char c [] = [[]]"
| "split_char c (x # xs) =
     (if x = c then [] # split_char c xs
      else case split_char c xs of [] \<Rightarrow> [[x]] | l # ls \<Rightarrow> (x # l) # ls)"

definition nl :: char where "nl = CHR 0x0A"

lemma split_line: "c \<notin> set l \<Longrightarrow> split_char c (l @ c # rest) = l # split_char c rest"
  by (induction l) auto

section \<open>Numbers and escapes\<close>

definition digit_char :: "nat \<Rightarrow> char" where
  "digit_char d = char_of (48 + d)"

text \<open>\<open>strconv.Itoa\<close> of a non-negative number.\<close>

fun itoa :: "nat \<Rightarrow> string" where
  "itoa n = (if n < 10 then [digit_char n] else itoa (n div 10) @ [digit_char (n mod 10)])"

declare itoa.simps [simp del]

definition hex_upper :: "nat \<Rightarrow> char" where
  "hex_upper d = (if d < 10 then char_of (48 + d) else char_of (55 + d))"

definition percent_byte :: "char \<Rightarrow> string" where
  "percent_byte c = [CHR ''%'', hex_upper (byte_of c div 16), hex_upper (byte_of c mod 16)]"

text \<open>\<open>url.QueryEscape\<close>.\<close>

definition query_unreserved :: "char \<Rightarrow> bool" where
  "query_unreserved c \<longleftrightarrow>
     (let b = byte_of c :: nat in
      (97 \<le> b \<and> b \<le> 122) \<or> (65 \<le> b \<and> b \<le> 90) \<or> (48 \<le> b \<and> b \<le> 57)
      \<or> c = CHR ''-'' \<or> c = CHR ''_'' \<or> c = CHR ''.'' \<or> c = CHR ''~'')"

definition query_escape :: "string \<Rightarrow> string" where
  "query_escape s = concat (map (\<lambda>c. if query_unreserved c then [c]
       else if c = CHR '' '' then [CHR ''+''] else percent_byte c) s)"

end
