(* ===== verification/Names.thy ===== *)
theory Names
  imports GoStrings
begin

text \<open>
  Identifiers of the authorization engine (\<open>internal/authz/authz.go\<close>): the percent-encoding of
  names into OpenFGA ids, and the id of the object that stands for one backend and one access
  classification (\<open>internal/authz/kits.go\<close>).
\<close>

text \<open>The runes \<open>escapeID\<close> encodes: \<open>%\<close>, \<open>:\<close>, \<open>#\<close>, \<open>*\<close>, white space and control characters.\<close>

definition must_escape :: "rune \<Rightarrow> bool" where
  "must_escape r \<longleftrightarrow> r = 37 \<or> r = 58 \<or> r = 35 \<or> r = 42 \<or> is_space r \<or> is_control r"

definition escape_rune :: "rune \<Rightarrow> string" where
  "escape_rune r = (if must_escape r then concat (map percent_byte (encode_rune r)) else encode_rune r)"

definition escapeID :: "string \<Rightarrow> string" where
  "escapeID s = concat (map escape_rune (runes s))"

definition backendAccessID :: "string \<Rightarrow> string \<Rightarrow> string" where
  "backendAccessID backend access = escapeID (escapeID backend @ '':'' @ escapeID access)"

section \<open>Decoding\<close>

text \<open>The inverse, used to state what an id determines: it is not part of the program.\<close>

definition hex_value :: "char \<Rightarrow> nat" where
  "hex_value c = (if byte_of c < (58::nat) then byte_of c - 48 else byte_of c - 55)"

fun unescape :: "string \<Rightarrow> string" where
  "unescape (c # h # l # s) =
     (if c = CHR ''%'' then char_of (hex_value h * 16 + hex_value l) # unescape s
      else c # unescape (h # l # s))"
| "unescape (c # s) = c # unescape s"
| "unescape [] = []"

lemma hex_value_hex_upper [simp]: "d < 16 \<Longrightarrow> hex_value (hex_upper d) = d"
  by (auto simp: hex_value_def hex_upper_def)

lemma unescape_percent_byte: "unescape (percent_byte c @ s) = c # unescape s"
proof -
  have "byte_of c div 16 < (16::nat)" using byte_less_256 [of c] by (simp add: less_mult_imp_div_less)
  then show ?thesis by (simp add: percent_byte_def)
qed

lemma unescape_plain: "c \<noteq> CHR ''%'' \<Longrightarrow> unescape (c # s) = c # unescape s"
  by (cases "c # s" rule: unescape.cases) auto

lemma unescape_percent_bytes: "unescape (concat (map percent_byte t) @ s) = t @ unescape s"
  by (induction t) (auto simp: unescape_percent_byte)

lemma unescape_plains: "CHR ''%'' \<notin> set t \<Longrightarrow> unescape (t @ s) = t @ unescape s"
  by (induction t) (auto simp: unescape_plain)

text \<open>Only the rune \<open>%\<close> has the byte \<open>%\<close> in its encoding.\<close>

lemma ascii_in_encode_rune: "c \<in> set (encode_rune r) \<Longrightarrow> byte_of c < (128::nat) \<Longrightarrow> r = byte_of c"
  by (auto simp: encode_rune_def encode_valid_def valid_rune_def rune_error_def split: if_splits)

lemma percent_in_encode_rune: "CHR ''%'' \<in> set (encode_rune r) \<Longrightarrow> r = 37"
  by (drule ascii_in_encode_rune) simp_all

lemma unescape_escape_rune: "unescape (escape_rune r @ s) = encode_rune r @ unescape s"
  by (auto simp: escape_rune_def unescape_percent_bytes must_escape_def
      intro: unescape_plains dest: percent_in_encode_rune)

lemma unescape_escapeID: "unescape (escapeID s) = of_runes (runes s)"
proof -
  have "unescape (concat (map escape_rune rs)) = of_runes rs" for rs
    by (induction rs) (auto simp: of_runes_def unescape_escape_rune)
  then show ?thesis by (simp add: escapeID_def)
qed

lemma escapeID_inj: "valid_utf8 a \<Longrightarrow> valid_utf8 b \<Longrightarrow> escapeID a = escapeID b \<longleftrightarrow> a = b"
  by (metis of_runes_runes unescape_escapeID)

section \<open>The alphabet of ids\<close>

lemma encode_rune_ascii: "r < 128 \<Longrightarrow> encode_rune r = [char_of r]"
  by (simp add: encode_rune_def encode_valid_def valid_rune_def)

lemma ascii_of_runes: "list_all (\<lambda>c. byte_of c < 128) t \<Longrightarrow> of_runes (map byte_of t) = t"
  by (induction t) (auto simp: of_runes_def encode_rune_ascii)

lemma hex_upper_byte:
  "d < 16 \<Longrightarrow> byte_of (hex_upper d) < (128::nat) \<and> \<not> must_escape (byte_of (hex_upper d))"
  by (auto simp: hex_upper_def must_escape_def is_space_def is_control_def)

lemma percent_byte_hex:
  assumes "c' \<in> set (percent_byte c)"
  shows "c' = CHR ''%'' \<or> (\<exists>d < 16. c' = hex_upper d)"
proof -
  have "byte_of c div 16 < (16::nat)" "byte_of c mod 16 < (16::nat)"
    using byte_less_256 [of c] by (simp_all add: less_mult_imp_div_less)
  moreover have "c' = CHR ''%'' \<or> c' = hex_upper (byte_of c div 16) \<or> c' = hex_upper (byte_of c mod 16)"
    using assms by (simp add: percent_byte_def)
  ultimately show ?thesis by blast
qed

lemma percent_byte_plain:
  "c' \<in> set (percent_byte c) \<Longrightarrow> c' = CHR ''%'' \<or> \<not> must_escape (byte_of c')"
  using percent_byte_hex hex_upper_byte by blast

lemma percent_byte_set: "c' \<in> set (percent_byte c) \<Longrightarrow> byte_of c' < (128::nat)"
  using percent_byte_hex hex_upper_byte by fastforce

lemma percent_byte_ascii: "list_all (\<lambda>c. byte_of c < 128) (percent_byte c)"
  using percent_byte_set by (auto simp: list_all_iff)

text \<open>An id is valid UTF-8 again and holds no colon, so a colon separates two ids.\<close>

definition escaped_runes :: "rune \<Rightarrow> rune list" where
  "escaped_runes r = (if must_escape r then map byte_of (concat (map percent_byte (encode_rune r))) else [r])"

lemma escape_rune_of_runes: "escape_rune r = of_runes (escaped_runes r)"
proof (cases "must_escape r")
  case True
  have "list_all (\<lambda>c. byte_of c < 128) (concat (map percent_byte t))" for t
    by (induction t) (use percent_byte_ascii in auto)
  with True show ?thesis by (simp add: escape_rune_def escaped_runes_def ascii_of_runes)
next
  case False
  then show ?thesis by (simp add: escape_rune_def escaped_runes_def of_runes_def)
qed

lemma of_runes_append: "of_runes (xs @ ys) = of_runes xs @ of_runes ys"
  by (simp add: of_runes_def)

lemma escapeID_of_runes: "escapeID s = of_runes (concat (map escaped_runes (runes s)))"
proof -
  have "concat (map escape_rune rs) = of_runes (concat (map escaped_runes rs))" for rs
    by (induction rs) (simp_all add: escape_rune_of_runes of_runes_append, simp add: of_runes_def)
  then show ?thesis by (simp add: escapeID_def)
qed

lemma byte_valid_rune: "valid_rune (byte_of c)"
  by (simp add: valid_rune_def less_trans [OF byte_less_256])

lemma escaped_runes_valid: "valid_rune r \<Longrightarrow> list_all valid_rune (escaped_runes r)"
  by (auto simp: escaped_runes_def list_all_iff byte_valid_rune)

lemma escapeID_valid_runes: "list_all valid_rune (concat (map escaped_runes (runes s)))"
  using runes_valid [of s] escaped_runes_valid by (fastforce simp: list_all_iff)

lemma valid_utf8_escapeID: "valid_utf8 (escapeID s)"
  by (metis escapeID_of_runes escapeID_valid_runes valid_utf8_of_runes)

lemma escapeID_excludes:
  assumes "byte_of c < (128::nat)" and "must_escape (byte_of c)" and "c \<noteq> CHR ''%''"
  shows "c \<notin> set (escapeID s)"
proof
  assume "c \<in> set (escapeID s)"
  then obtain r where r: "c \<in> set (escape_rune r)" by (auto simp: escapeID_def)
  show False
  proof (cases "must_escape r")
    case True
    with r obtain c' where "c \<in> set (percent_byte c')" by (auto simp: escape_rune_def)
    with assms show False using percent_byte_plain by blast
  next
    case False
    with r assms have "r = byte_of c" by (auto simp: escape_rune_def dest: ascii_in_encode_rune)
    with False assms show False by simp
  qed
qed

lemma escapeID_no_special [simp]:
  "CHR '':'' \<notin> set (escapeID s)" "CHR ''#'' \<notin> set (escapeID s)" "CHR ''*'' \<notin> set (escapeID s)"
  by (rule escapeID_excludes; simp add: must_escape_def)+

lemmas escapeID_no_colon = escapeID_no_special(1)

lemma runes_of_append_valid:
  assumes "valid_utf8 a" shows "runes (a @ b) = runes a @ runes b"
proof -
  have "list_all valid_rune rs \<Longrightarrow> runes (of_runes rs @ b) = rs @ runes b" for rs
    by (induction rs) (auto simp: runes_def of_runes_def runes_of_encode)
  then show ?thesis by (metis assms of_runes_runes runes_valid)
qed

lemma valid_utf8_append: "valid_utf8 a \<Longrightarrow> valid_utf8 b \<Longrightarrow> valid_utf8 (a @ b)"
  by (metis list_all_append of_runes_append of_runes_runes runes_valid valid_utf8_of_runes)

lemma valid_utf8_ascii: "list_all (\<lambda>c. byte_of c < 128) t \<Longrightarrow> valid_utf8 t"
  by (metis (no_types, lifting) ascii_of_runes byte_valid_rune list_all_length length_map nth_map
      valid_utf8_of_runes)

text \<open>Cutting a valid string at an ASCII byte, and trimming it, leaves valid strings.\<close>

lemma of_runes_Cons: "of_runes (r # rs) = encode_rune r @ of_runes rs"
  by (simp add: of_runes_def)

lemma valid_utf8_iff: "valid_utf8 s \<longleftrightarrow> (\<exists>rs. list_all valid_rune rs \<and> s = of_runes rs)"
  by (metis of_runes_runes runes_valid valid_utf8_of_runes)

lemma encode_rune_single:
  assumes "c \<in> set (encode_rune r)" "byte_of c < (128::nat)"
  shows "encode_rune r = [c]"
  using ascii_in_encode_rune [OF assms] assms by (simp add: encode_rune_ascii)

lemma of_runes_split:
  assumes "of_runes rs = a @ c # b" "byte_of c < (128::nat)"
  shows "\<exists>xs ys. rs = xs @ byte_of c # ys \<and> a = of_runes xs \<and> b = of_runes ys"
  using assms
proof (induction rs arbitrary: a)
  case Nil
  then show ?case by (simp add: of_runes_def)
next
  case (Cons r rs)
  show ?case
  proof (cases "c \<in> set (encode_rune r) \<and> length a < length (encode_rune r)")
    case True
    then have e: "encode_rune r = [c]" using Cons.prems(2) encode_rune_single by blast
    then have "a = []" "b = of_runes rs" using True Cons.prems(1) by (auto simp: of_runes_Cons)
    moreover have "r = byte_of c" using ascii_in_encode_rune Cons.prems(2) True by blast
    ultimately show ?thesis by (intro exI [of _ "[]"] exI [of _ rs]) (auto simp: of_runes_def)
  next
    case False
    have eq: "encode_rune r @ of_runes rs = a @ c # b" using Cons.prems(1) by (simp add: of_runes_Cons)
    have "\<not> length a < length (encode_rune r)"
    proof
      assume l: "length a < length (encode_rune r)"
      then have "encode_rune r ! length a = c"
        using arg_cong [OF eq, of "\<lambda>xs. xs ! length a"] by (simp add: nth_append)
      with l False show False by (metis nth_mem)
    qed
    then obtain a' where "a = encode_rune r @ a'"
      by (metis eq append_eq_append_conv_if append_take_drop_id not_less)
    with eq Cons.IH Cons.prems(2) obtain xs ys where "rs = xs @ byte_of c # ys" "a' = of_runes xs" "b = of_runes ys"
      by auto
    with \<open>a = _\<close> show ?thesis by (intro exI [of _ "r # xs"] exI [of _ ys]) (auto simp: of_runes_Cons)
  qed
qed

lemma valid_utf8_split:
  "valid_utf8 (a @ c # b) \<Longrightarrow> byte_of c < (128::nat) \<Longrightarrow> valid_utf8 a \<and> valid_utf8 b"
  unfolding valid_utf8_iff by (metis list.pred_inject(2) list_all_append of_runes_split)

lemma dropWhile_set: "set (dropWhile P xs) \<subseteq> set xs"
  using set_dropWhileD by fast

lemma set_trim_list: "set (trim_list P xs) \<subseteq> set xs"
  unfolding trim_list_def using dropWhile_set by (metis set_rev subset_trans)

lemma valid_utf8_trim_space: "valid_utf8 s \<Longrightarrow> valid_utf8 (trim_space s)"
proof -
  assume v: "valid_utf8 s"
  let ?ps = "trim_list (\<lambda>p. is_space (fst p)) (runes_of s)"
  have "set ?ps \<subseteq> set (runes_of s)" by (rule set_trim_list)
  then have "\<forall>p \<in> set ?ps. snd p = encode_rune (fst p) \<and> valid_rune (fst p)"
    using v runes_valid [of s] by (fastforce simp: valid_utf8_def list_all_iff runes_def)
  then have "concat (map snd ?ps) = of_runes (map fst ?ps) \<and> list_all valid_rune (map fst ?ps)"
    by (induction ?ps) (auto simp: of_runes_def list_all_iff intro!: arg_cong [where f = concat])
  then show ?thesis by (metis trim_space_def valid_utf8_of_runes)
qed

lemma append_sep_inj:
  "c \<notin> set a \<Longrightarrow> c \<notin> set a' \<Longrightarrow> a @ c # b = a' @ c # b' \<longleftrightarrow> a = a' \<and> b = b'"
proof (induction a arbitrary: a')
  case Nil
  then show ?case by (cases a') auto
next
  case (Cons x a)
  then show ?case by (cases a') auto
qed

lemma backendAccessID_inj:
  assumes "valid_utf8 b" "valid_utf8 a" "valid_utf8 b'" "valid_utf8 a'"
  shows "backendAccessID b a = backendAccessID b' a' \<longleftrightarrow> b = b' \<and> a = a'"
proof -
  have v: "valid_utf8 (escapeID x @ '':'' @ escapeID y)" for x y
    by (intro valid_utf8_append valid_utf8_escapeID valid_utf8_ascii) simp
  have "backendAccessID b a = backendAccessID b' a' \<longleftrightarrow>
      escapeID b @ '':'' @ escapeID a = escapeID b' @ '':'' @ escapeID a'"
    by (simp only: backendAccessID_def escapeID_inj [OF v v])
  also have "\<dots> \<longleftrightarrow> escapeID b = escapeID b' \<and> escapeID a = escapeID a'"
    using append_sep_inj [OF escapeID_no_colon escapeID_no_colon] by simp
  finally show ?thesis using assms by (simp add: escapeID_inj)
qed

section \<open>Properties\<close>

text \<open>C34: distinct names yield distinct ids. On valid UTF-8, \<open>escapeID\<close> and
  \<open>backendAccessID\<close> are injective, so no two subjects, backends, tools or pairs of backend and
  access classification share an OpenFGA object.\<close>

theorem escapeID_distinct:
  assumes "valid_utf8 b" "valid_utf8 a" "valid_utf8 b'" "valid_utf8 a'"
  shows "(escapeID b = escapeID b' \<longleftrightarrow> b = b') \<and>
    (backendAccessID b a = backendAccessID b' a' \<longleftrightarrow> b = b' \<and> a = a')"
  using assms by (simp add: escapeID_inj backendAccessID_inj)

theorem escapeID_distinct_witness:
  "valid_utf8 ''a:b'' \<and> escapeID ''a:b'' \<noteq> escapeID ''a%3Ab''
    \<and> backendAccessID ''a:b'' ''c'' \<noteq> backendAccessID ''a%3Ab'' ''c''"
proof -
  have "valid_utf8 ''a:b''" "valid_utf8 ''a%3Ab''" "valid_utf8 ''c''" by (rule valid_utf8_ascii, simp)+
  then show ?thesis using escapeID_distinct [of "''a:b''" "''c''" "''a%3Ab''" "''c''"] by simp
qed

section \<open>Plain names\<close>

text \<open>Names of letters, digits and a few signs are their own ids; the lemmas evaluate literals.\<close>

definition name_chars :: string where
  "name_chars = ''abcdefghijklmnopqrstuvwxyzABCDEFGHIJKLMNOPQRSTUVWXYZ0123456789_-.@/''"

lemma name_char_byte: "c \<in> set name_chars \<Longrightarrow> byte_of c < (128::nat) \<and> \<not> must_escape (byte_of c)"
  unfolding name_chars_def
  by (elim set_ConsD [elim_format] disjE) (auto simp: must_escape_def is_space_def is_control_def)

lemma runes_of_ascii: "list_all (\<lambda>c. byte_of c < (128::nat)) s \<Longrightarrow> runes_of s = map (\<lambda>c. (byte_of c, [c])) s"
proof (induction s)
  case (Cons c s)
  then have "decode_rune (c # s) = (byte_of c, 1)" by simp
  then have "runes_of (c # s) = (byte_of c, take 1 (c # s)) # runes_of (drop 1 (c # s))"
    by (rule runes_of_nonempty [rotated]) simp
  with Cons show ?case by simp
qed simp

lemma escapeID_name: "list_all (\<lambda>c. c \<in> set name_chars) s \<Longrightarrow> escapeID s = s"
proof -
  assume a: "list_all (\<lambda>c. c \<in> set name_chars) s"
  then have "list_all (\<lambda>c. byte_of c < (128::nat)) s" using name_char_byte by (auto simp: list_all_iff)
  then have "runes s = map byte_of s" by (simp add: runes_def runes_of_ascii comp_def)
  moreover have "escape_rune (byte_of c) = [c]" if "c \<in> set s" for c
  proof -
    have "byte_of c < (128::nat) \<and> \<not> must_escape (byte_of c)" using a that name_char_byte by (auto simp: list_all_iff)
    then show ?thesis by (simp add: escape_rune_def encode_rune_def encode_valid_def valid_rune_def)
  qed
  ultimately have "escapeID s = concat (map (\<lambda>c. [c]) s)" by (simp add: escapeID_def comp_def cong: map_cong)
  then show ?thesis by simp
qed

lemma valid_utf8_name: "list_all (\<lambda>c. c \<in> set name_chars) s \<Longrightarrow> valid_utf8 s"
  by (rule valid_utf8_ascii) (use name_char_byte in \<open>auto simp: list_all_iff\<close>)

lemma trim_space_name: "list_all (\<lambda>c. c \<in> set name_chars) s \<Longrightarrow> trim_space s = s"
proof -
  assume a: "list_all (\<lambda>c. c \<in> set name_chars) s"
  then have "list_all (\<lambda>c. byte_of c < (128::nat)) s" using name_char_byte by (auto simp: list_all_iff)
  moreover have "c \<in> set s \<Longrightarrow> \<not> is_space (byte_of c)" for c
    using a name_char_byte by (auto simp: list_all_iff must_escape_def)
  ultimately show ?thesis
    by (subst trim_space_def, subst trim_list_none) (auto simp: runes_of_ascii comp_def)
qed

end
