(* ===== verification/Kits.thy ===== *)
theory Kits
  imports Names "HOL-Library.Multiset"
begin

text \<open>
  Kits (\<open>internal/authz/kits.go\<close>): named bundles of tools that a caller is granted as a whole or
  in part. A kit lists scopes and single tools; a part names some of these entries. The theory
  models the scope language, what a kit and a part of it cover, validation, and the stored
  tuples a kit stands for (the type of tuples is that of \<open>internal/authz/embedded.go\<close>).
\<close>

section \<open>Relationship tuples\<close>

datatype tuple_key = TupleKey (tk_user: string) (tk_relation: string) (tk_object: string)

text \<open>\<open>compareTuples\<close> orders tuples by object, then relation, then user; it is the order of the
  type.\<close>

definition tuple_rank :: "tuple_key \<Rightarrow> string \<times> string \<times> string" where
  "tuple_rank t = (tk_object t, tk_relation t, tk_user t)"

lemma tuple_rank_inj: "tuple_rank a = tuple_rank b \<longleftrightarrow> a = b"
  by (cases a; cases b) (auto simp: tuple_rank_def)

instantiation tuple_key :: linorder
begin

definition less_eq_tuple_key :: "tuple_key \<Rightarrow> tuple_key \<Rightarrow> bool" where
  "less_eq_tuple_key a b \<longleftrightarrow> tuple_rank a \<le> tuple_rank b"

definition less_tuple_key :: "tuple_key \<Rightarrow> tuple_key \<Rightarrow> bool" where
  "less_tuple_key a b \<longleftrightarrow> tuple_rank a < tuple_rank b"

instance
  by standard (auto simp: less_eq_tuple_key_def less_tuple_key_def less_le_not_le
      tuple_rank_inj dest: antisym)

end

definition relExecutor :: string where "relExecutor = ''executor''"
definition relBlocked :: string where "relBlocked = ''blocked''"
definition relHolder :: string where "relHolder = ''holder''"
definition objInstance :: string where "objInstance = ''instance:toolmesh''"

text \<open>Ids of the objects and users of the model, and the userset \<open>object#relation\<close>.\<close>

definition user_object :: "string \<Rightarrow> string" where "user_object x = ''user:'' @ escapeID x"
definition company_object :: "string \<Rightarrow> string" where "company_object x = ''company:'' @ escapeID x"
definition role_object :: "string \<Rightarrow> string" where "role_object x = ''role:'' @ escapeID x"
definition plan_object :: "string \<Rightarrow> string" where "plan_object x = ''plan:'' @ escapeID x"
definition kit_object :: "string \<Rightarrow> string" where "kit_object x = ''kit:'' @ escapeID x"
definition backend_object :: "string \<Rightarrow> string" where "backend_object x = ''backend:'' @ escapeID x"
definition access_object :: "string \<Rightarrow> string" where "access_object x = ''access_class:'' @ escapeID x"
definition backend_access_object :: "string \<Rightarrow> string \<Rightarrow> string" where
  "backend_access_object b a = ''backend_access:'' @ backendAccessID b a"
definition tool_object :: "string \<Rightarrow> string" where "tool_object x = ''tool:'' @ escapeID x"
definition userset :: "string \<Rightarrow> string \<Rightarrow> string" where "userset obj rel = obj @ ''#'' @ rel"

section \<open>Data\<close>

type_synonym duration = int

definition hour :: duration where "hour = 3600000000000"
definition minute :: duration where "minute = 60000000000"

record kit =
  kit_name :: string
  kit_description :: string
  kit_warning :: string
  kit_grants :: "string list"
  kit_tools :: "string list"
  kit_ttl_default :: duration
  kit_ttl_max :: duration

record kit_part =
  part_kit :: string
  part_grants :: "string list"
  part_tools :: "string list"

record kit_scope =
  scope_backend :: string
  scope_access :: string

definition scopeAny :: string where "scopeAny = ''*''"

definition KitTTLLimit :: duration where "KitTTLLimit = 24 * hour"

datatype kit_error =
    PartEmpty
  | PartUnknownGrant string string
  | PartUnknownTool string string
  | ScopeNoBackend string
  | ScopeNoAccess string
  | ScopeManyColons string
  | KitBadName string
  | KitNoDescription
  | KitNoEntries
  | KitEmptyTool
  | KitNegativeTTL
  | KitDefaultOverMax duration duration
  | KitDefaultOverLimit duration
  | KitInvalid string kit_error
  | KitDefinedTwice string

section \<open>Scopes\<close>

definition parseKitScope :: "string \<Rightarrow> (kit_error, kit_scope) result" where
  "parseKitScope s0 =
     (let s = trim_space s0;
          (b0, a0, hasAccess) = cut s '':'';
          b = trim_space b0;
          a = trim_space a0
      in if b = [] then Inl (ScopeNoBackend s)
         else if hasAccess \<and> a = [] then Inl (ScopeNoAccess s)
         else if contains a '':'' then Inl (ScopeManyColons s)
         else Inr \<lparr>scope_backend = (if b = scopeAny then [] else b),
                   scope_access = (if a = scopeAny then [] else a)\<rparr>)"

definition scope_covers :: "kit_scope \<Rightarrow> string \<Rightarrow> string \<Rightarrow> bool" where
  "scope_covers s backend access \<longleftrightarrow>
     \<not> (scope_backend s \<noteq> [] \<and> scope_backend s \<noteq> backend) \<and>
     \<not> (scope_access s \<noteq> [] \<and> scope_access s \<noteq> access)"

definition scope_object :: "kit_scope \<Rightarrow> string" where
  "scope_object s =
     (if scope_backend s = [] \<and> scope_access s = [] then objInstance
      else if scope_access s = [] then backend_object (scope_backend s)
      else if scope_backend s = [] then access_object (scope_access s)
      else backend_access_object (scope_backend s) (scope_access s))"

definition ScopeCovers :: "string \<Rightarrow> string \<Rightarrow> string \<Rightarrow> bool" where
  "ScopeCovers scope backend access \<longleftrightarrow>
     (case parseKitScope scope of Inl _ \<Rightarrow> False | Inr s \<Rightarrow> scope_covers s backend access)"

section \<open>What a kit and a part of it cover\<close>

fun first_missing :: "string list \<Rightarrow> string list \<Rightarrow> string option" where
  "first_missing all xs = find_first (\<lambda>x. x \<notin> set all) xs"

definition Part :: "kit \<Rightarrow> string list \<Rightarrow> string list \<Rightarrow> (kit_error, kit_part) result" where
  "Part k grants tools =
     (if grants = [] \<and> tools = [] then Inl PartEmpty
      else case first_missing (kit_grants k) grants of
        Some g \<Rightarrow> Inl (PartUnknownGrant (kit_name k) g)
      | None \<Rightarrow>
          (case first_missing (kit_tools k) tools of
             Some t \<Rightarrow> Inl (PartUnknownTool (kit_name k) t)
           | None \<Rightarrow> Inr \<lparr>part_kit = kit_name k, part_grants = sorted_compact grants,
                           part_tools = sorted_compact tools\<rparr>))"

definition IsWhole :: "kit \<Rightarrow> kit_part \<Rightarrow> bool" where
  "IsWhole k p \<longleftrightarrow> list_all (\<lambda>g. g \<in> set (part_grants p)) (kit_grants k) \<and>
                  list_all (\<lambda>t. t \<in> set (part_tools p)) (kit_tools k)"

definition PartCovers :: "kit \<Rightarrow> kit_part \<Rightarrow> string \<Rightarrow> string \<Rightarrow> string \<Rightarrow> bool" where
  "PartCovers k p tool backend access \<longleftrightarrow>
     list_ex (\<lambda>g. g \<in> set (kit_grants k) \<and> ScopeCovers g backend access) (part_grants p) \<or>
     list_ex (\<lambda>t. t = tool \<and> t \<in> set (kit_tools k)) (part_tools p)"

definition Covers :: "kit \<Rightarrow> string \<Rightarrow> string \<Rightarrow> string \<Rightarrow> bool" where
  "Covers k tool backend access \<longleftrightarrow>
     tool \<in> set (kit_tools k) \<or>
     list_ex (\<lambda>g. case parseKitScope g of Inl _ \<Rightarrow> False | Inr s \<Rightarrow> scope_covers s backend access)
       (kit_grants k)"

fun scope_objects :: "string list \<Rightarrow> string list" where
  "scope_objects [] = []"
| "scope_objects (g # gs) =
     (case parseKitScope g of Inl _ \<Rightarrow> scope_objects gs | Inr s \<Rightarrow> scope_object s # scope_objects gs)"

definition partObjects :: "kit \<Rightarrow> kit_part \<Rightarrow> string list" where
  "partObjects k p =
     scope_objects (filter (\<lambda>g. g \<in> set (kit_grants k)) (part_grants p)) @
     map tool_object (filter (\<lambda>t. t \<in> set (kit_tools k)) (part_tools p))"

definition kit_holder :: "kit \<Rightarrow> string" where
  "kit_holder k = userset (kit_object (kit_name k)) relHolder"

definition kit_tuples :: "kit \<Rightarrow> tuple_key list" where
  "kit_tuples k = map (TupleKey (kit_holder k) relExecutor)
     (scope_objects (kit_grants k) @ map tool_object (kit_tools k))"

section \<open>Validation\<close>

definition is_alnum :: "char \<Rightarrow> bool" where
  "is_alnum c \<longleftrightarrow> (let b = byte_of c :: nat in
     (65 \<le> b \<and> b \<le> 90) \<or> (97 \<le> b \<and> b \<le> 122) \<or> (48 \<le> b \<and> b \<le> 57))"

text \<open>A name pattern of the configuration: an alphanumeric first character and at most 63 more,
  each alphanumeric or one of the given extra characters.\<close>

definition slug_match :: "string \<Rightarrow> string \<Rightarrow> bool" where
  "slug_match extra s = (case s of [] \<Rightarrow> False
     | c # cs \<Rightarrow> is_alnum c \<and> length cs \<le> 63 \<and> list_all (\<lambda>d. is_alnum d \<or> d \<in> set extra) cs)"

definition kitNamePattern :: "string \<Rightarrow> bool" where
  "kitNamePattern = slug_match ''._-''"

fun first_scope_error :: "string list \<Rightarrow> kit_error option" where
  "first_scope_error [] = None"
| "first_scope_error (g # gs) =
     (case parseKitScope g of Inl e \<Rightarrow> Some e | Inr _ \<Rightarrow> first_scope_error gs)"

definition kit_Validate :: "kit \<Rightarrow> kit_error option" where
  "kit_Validate k =
     (if \<not> kitNamePattern (kit_name k) then Some (KitBadName (kit_name k))
      else if trim_space (kit_description k) = [] then Some KitNoDescription
      else if kit_grants k = [] \<and> kit_tools k = [] then Some KitNoEntries
      else case first_scope_error (kit_grants k) of
        Some e \<Rightarrow> Some e
      | None \<Rightarrow>
          if list_ex (\<lambda>t. trim_space t = []) (kit_tools k) then Some KitEmptyTool
          else if kit_ttl_default k < 0 \<or> kit_ttl_max k < 0 then Some KitNegativeTTL
          else if 0 < kit_ttl_default k \<and> 0 < kit_ttl_max k \<and> kit_ttl_max k < kit_ttl_default k
            then Some (KitDefaultOverMax (kit_ttl_default k) (kit_ttl_max k))
          else if kit_ttl_max k = 0 \<and> KitTTLLimit < kit_ttl_default k
            then Some (KitDefaultOverLimit (kit_ttl_default k))
          else None)"

fun validateKits_from :: "string list \<Rightarrow> kit list \<Rightarrow> kit_error option" where
  "validateKits_from seen [] = None"
| "validateKits_from seen (k # ks) =
     (case kit_Validate k of
        Some e \<Rightarrow> Some (KitInvalid (kit_name k) e)
      | None \<Rightarrow> if kit_name k \<in> set seen then Some (KitDefinedTwice (kit_name k))
                else validateKits_from (kit_name k # seen) ks)"

definition validateKits :: "kit list \<Rightarrow> kit_error option" where
  "validateKits ks = validateKits_from [] ks"

text \<open>The kits of a config file, keyed by name there, sorted by name.\<close>

definition kitsFromFile :: "(string \<times> kit) list \<Rightarrow> kit list" where
  "kitsFromFile m = sort_key kit_name (map (\<lambda>(name, k). k\<lparr>kit_name := name\<rparr>) m)"

section \<open>Facts\<close>

lemma Covers_iff:
  "Covers k t b a \<longleftrightarrow> t \<in> set (kit_tools k) \<or> (\<exists>g \<in> set (kit_grants k). ScopeCovers g b a)"
  by (auto simp: Covers_def ScopeCovers_def list_ex_iff)

lemma PartCovers_iff:
  "PartCovers k p t b a \<longleftrightarrow>
     (t \<in> set (part_tools p) \<and> t \<in> set (kit_tools k)) \<or>
     (\<exists>g \<in> set (part_grants p). g \<in> set (kit_grants k) \<and> ScopeCovers g b a)"
  by (auto simp: PartCovers_def list_ex_iff)

lemma PartCovers_imp_Covers: "PartCovers k p t b a \<Longrightarrow> Covers k t b a"
  by (auto simp: PartCovers_iff Covers_iff)

lemma IsWhole_iff:
  "IsWhole k p \<longleftrightarrow> set (kit_grants k) \<subseteq> set (part_grants p) \<and> set (kit_tools k) \<subseteq> set (part_tools p)"
  by (auto simp: IsWhole_def list_all_iff)

lemma IsWhole_PartCovers: "IsWhole k p \<Longrightarrow> PartCovers k p t b a = Covers k t b a"
  by (auto simp: IsWhole_iff PartCovers_iff Covers_iff)

lemma first_missing_None: "first_missing all xs = None \<longleftrightarrow> set xs \<subseteq> set all"
  by (auto simp: find_first_None)

lemma Part_Inr_iff:
  "Part k gs ts = Inr p \<longleftrightarrow> (gs \<noteq> [] \<or> ts \<noteq> []) \<and> set gs \<subseteq> set (kit_grants k) \<and> set ts \<subseteq> set (kit_tools k) \<and>
     p = \<lparr>part_kit = kit_name k, part_grants = sorted_compact gs, part_tools = sorted_compact ts\<rparr>"
  unfolding Part_def first_missing_None [symmetric]
  by (auto simp del: first_missing.simps split: option.splits)

lemma set_scope_objects:
  "set (scope_objects gs) = {scope_object s | g s. g \<in> set gs \<and> parseKitScope g = Inr s}"
  by (induction gs) (auto split: sum.splits)

lemma first_scope_error_None:
  "first_scope_error gs = None \<longleftrightarrow> (\<forall>g \<in> set gs. \<exists>s. parseKitScope g = Inr s)"
  by (induction gs) (auto split: sum.splits)

lemma kit_Validate_scopes:
  "kit_Validate k = None \<Longrightarrow> g \<in> set (kit_grants k) \<Longrightarrow> \<exists>s. parseKitScope g = Inr s"
  by (auto simp: kit_Validate_def first_scope_error_None split: if_splits option.splits)

lemma kit_Validate_entries: "kit_Validate k = None \<Longrightarrow> kit_grants k \<noteq> [] \<or> kit_tools k \<noteq> []"
  by (auto simp: kit_Validate_def split: if_splits)

lemma kit_Validate_ttl:
  "kit_Validate k = None \<Longrightarrow> 0 \<le> kit_ttl_default k \<and> 0 \<le> kit_ttl_max k \<and>
     (0 < kit_ttl_max k \<longrightarrow> kit_ttl_default k \<le> kit_ttl_max k) \<and>
     (kit_ttl_max k = 0 \<longrightarrow> kit_ttl_default k \<le> KitTTLLimit)"
  by (auto simp: kit_Validate_def split: if_splits option.splits)

lemma validateKits_from_None:
  "validateKits_from seen ks = None \<longleftrightarrow>
     (\<forall>k \<in> set ks. kit_Validate k = None) \<and> distinct (map kit_name ks) \<and>
     set seen \<inter> kit_name ` set ks = {}"
  by (induction ks arbitrary: seen) (auto split: option.splits)

lemma validateKits_None:
  "validateKits ks = None \<longleftrightarrow> (\<forall>k \<in> set ks. kit_Validate k = None) \<and> distinct (map kit_name ks)"
  by (simp add: validateKits_def validateKits_from_None)

lemma kitsFromFile_names: "set (map kit_name (kitsFromFile m)) = set (map fst m)"
  by (auto simp: kitsFromFile_def image_iff split: prod.splits) force+

lemma kitsFromFile_sorted: "sorted (map kit_name (kitsFromFile m))"
  by (simp add: kitsFromFile_def)

lemma kitsFromFile_distinct: "distinct (map fst m) \<Longrightarrow> distinct (map kit_name (kitsFromFile m))"
proof -
  assume "distinct (map fst m)"
  moreover have "map kit_name (map (\<lambda>(name, k). k\<lparr>kit_name := name\<rparr>) m) = map fst m" by auto
  moreover have "mset (map kit_name (kitsFromFile m)) = mset (map kit_name (map (\<lambda>(name, k). k\<lparr>kit_name := name\<rparr>) m))"
    by (simp add: kitsFromFile_def multiset.map_comp)
  ultimately show ?thesis by (metis mset_eq_imp_distinct_iff)
qed

text \<open>A scope that parses names no empty backend or access and is covered exactly where its fields
  agree with the tool's.\<close>

lemma scope_covers_iff:
  "scope_covers s b a \<longleftrightarrow> (scope_backend s = [] \<or> scope_backend s = b) \<and> (scope_access s = [] \<or> scope_access s = a)"
  by (auto simp: scope_covers_def)

section \<open>Properties\<close>

text \<open>What a part of a kit covers. A part that \<open>Part\<close> returned covers a tool only if the kit it
  was taken from covers it; if it has every entry of the kit it covers exactly what the kit
  covers; and whatever the kit's definition is changed to, the part never covers more than at
  the time it was taken.\<close>

theorem kit_part_coverage:
  assumes "Part k gs ts = Inr p"
  shows "(PartCovers k p tool backend access \<longrightarrow> Covers k tool backend access) \<and>
    (IsWhole k p \<longrightarrow> PartCovers k p tool backend access = Covers k tool backend access) \<and>
    (PartCovers k' p tool backend access \<longrightarrow> PartCovers k p tool backend access)"
proof -
  have "set (part_grants p) \<subseteq> set (kit_grants k)" "set (part_tools p) \<subseteq> set (kit_tools k)"
    using assms by (auto simp: Part_Inr_iff)
  then show ?thesis using PartCovers_imp_Covers IsWhole_PartCovers
    by (auto simp: PartCovers_iff)
qed

definition demo_kit :: kit where
  "demo_kit = \<lparr>kit_name = ''ops'', kit_description = ''Operate the mail server'', kit_warning = [],
     kit_grants = [''mail:read'', ''dns''], kit_tools = [''git_push''],
     kit_ttl_default = hour, kit_ttl_max = 4 * hour\<rparr>"

theorem kit_part_coverage_witness:
  "\<exists>p. Part demo_kit [''dns''] [] = Inr p \<and> PartCovers demo_kit p ''dns_add'' ''dns'' ''write'' \<and>
     Covers demo_kit ''dns_add'' ''dns'' ''write''"
proof -
  let ?p = "\<lparr>part_kit = ''ops'', part_grants = [''dns''], part_tools = []\<rparr> :: kit_part"
  have p: "Part demo_kit [''dns''] [] = Inr ?p"
    by (simp add: Part_def demo_kit_def sorted_compact_def)
  moreover have "PartCovers demo_kit ?p ''dns_add'' ''dns'' ''write''"
    by (simp add: PartCovers_def demo_kit_def ScopeCovers_def parseKitScope_def trim_space_name name_chars_def cut_def
        has_prefix_def contains_def scopeAny_def scope_covers_def)
  ultimately show ?thesis using kit_part_coverage [OF p] by blast
qed

end
