(* ===== verification/Bech32.thy ===== *)
theory Bech32
  imports Sha256
begin

text \<open>
  Bech32 strings and P2WPKH addresses (\<open>internal/bip322/bech32.go\<close> and the address part of
  \<open>internal/bip322/bip322.go\<close>). Byte slices are lists of 8-bit words and the checksum is computed
  on 32-bit words, as in the source. The Unicode case tables beyond ASCII are an argument of the
  decoder (\<open>strings.ToLower\<close> and \<open>strings.ToUpper\<close>).
\<close>

unbundle bit_operations_syntax

section \<open>Case mapping\<close>

record case_tables =
  lower_beyond_ascii :: "rune \<Rightarrow> rune"
  upper_beyond_ascii :: "rune \<Rightarrow> rune"

definition to_lower :: "case_tables \<Rightarrow> string \<Rightarrow> string" where
  "to_lower ct s = of_runes (map (\<lambda>r. if r < 128 then (if 65 \<le> r \<and> r \<le> 90 then r + 32 else r)
      else lower_beyond_ascii ct r) (runes s))"

definition to_upper :: "case_tables \<Rightarrow> string \<Rightarrow> string" where
  "to_upper ct s = of_runes (map (\<lambda>r. if r < 128 then (if 97 \<le> r \<and> r \<le> 122 then r - 32 else r)
      else upper_beyond_ascii ct r) (runes s))"

section \<open>Checksum\<close>

definition bech32Charset :: string where
  "bech32Charset = ''qpzry9x8gf2tvdw0s3jn54khce6mua7l''"

definition bech32Const :: u32 where "bech32Const = 1"
definition bech32mConst :: u32 where "bech32mConst = 0x2bc830a3"

definition segwitHRPs :: "string list" where
  "segwitHRPs = [''bc'', ''tb'', ''bcrt'']"

definition bech32_gen :: "u32 list" where
  "bech32_gen = [0x3b6a57b2, 0x26508e6d, 0x1ea119fa, 0x3d4233dd, 0x2a1462b3]"

text \<open>One turn of the loop of \<open>bech32Polymod\<close>.\<close>

definition polymod_step :: "byte \<Rightarrow> u32 \<Rightarrow> u32" where
  "polymod_step v chk =
     (let top = drop_bit 25 chk;
          chk1 = push_bit 5 (chk AND 0x1ffffff) XOR ucast v
      in fold (\<lambda>i c. if drop_bit i top AND 1 = 1 then c XOR bech32_gen ! i else c) [0..<5] chk1)"

definition bech32Polymod :: "byte list \<Rightarrow> u32" where
  "bech32Polymod values = fold polymod_step values 1"

definition char_byte :: "char \<Rightarrow> byte" where
  "char_byte c = word_of_nat (of_char c)"

definition bech32HRPExpand :: "string \<Rightarrow> byte list" where
  "bech32HRPExpand hrp = map (\<lambda>c. drop_bit 5 (char_byte c)) hrp @ [0] @ map (\<lambda>c. char_byte c AND 31) hrp"

section \<open>Decoding and encoding\<close>

datatype bech32_error =
    TooLong | MixedCase | NoSeparator | BadHRPCharacter | BadDataCharacter rune | ChecksumMismatch

fun last_index :: "char \<Rightarrow> string \<Rightarrow> nat option" where
  "last_index c [] = None"
| "last_index c (x # xs) = (case last_index c xs of
     Some i \<Rightarrow> Some (Suc i)
   | None \<Rightarrow> if x = c then Some 0 else None)"

fun charset_index :: "string \<Rightarrow> rune \<Rightarrow> nat option" where
  "charset_index [] r = None"
| "charset_index (c # cs) r = (if of_char c = r then Some 0 else map_option Suc (charset_index cs r))"

fun decode_data :: "rune list \<Rightarrow> (bech32_error, byte list) result" where
  "decode_data [] = Inr []"
| "decode_data (r # rs) = (case charset_index bech32Charset r of
     None \<Rightarrow> Inl (BadDataCharacter r)
   | Some v \<Rightarrow> bind_res (decode_data rs) (\<lambda>ds. Inr (word_of_nat v # ds)))"

definition bech32Decode :: "case_tables \<Rightarrow> string \<Rightarrow> (bech32_error, string \<times> byte list \<times> u32) result" where
  "bech32Decode ct s0 =
     (if 90 < length s0 then Inl TooLong
      else if to_lower ct s0 \<noteq> s0 \<and> to_upper ct s0 \<noteq> s0 then Inl MixedCase
      else (let s = to_lower ct s0 in
        case last_index (CHR ''1'') s of
          None \<Rightarrow> Inl NoSeparator
        | Some sep \<Rightarrow>
            if sep < 1 \<or> length s < sep + 7 then Inl NoSeparator
            else (let hrp = take sep s in
              if list_ex (\<lambda>c. of_char c < (33::nat) \<or> (126::nat) < of_char c) hrp then Inl BadHRPCharacter
              else bind_res (decode_data (runes (drop (sep + 1) s))) (\<lambda>ds.
                let constant = bech32Polymod (bech32HRPExpand hrp @ ds) in
                if constant \<noteq> bech32Const \<and> constant \<noteq> bech32mConst then Inl ChecksumMismatch
                else Inr (hrp, take (length ds - 6) ds, constant)))))"

text \<open>\<open>bech32Charset[d]\<close>: \<open>None\<close> is the run-time panic of an index out of range.\<close>

definition charset_at :: "byte \<Rightarrow> char option" where
  "charset_at d = (if unat d < 32 then Some (bech32Charset ! unat d) else None)"

fun encode_data :: "byte list \<Rightarrow> string option" where
  "encode_data [] = Some []"
| "encode_data (d # ds) = (case charset_at d of None \<Rightarrow> None | Some c \<Rightarrow>
     map_option ((#) c) (encode_data ds))"

text \<open>The six checksum values of \<open>bech32Encode\<close>, most significant first.\<close>

definition checksum_values :: "u32 \<Rightarrow> byte list" where
  "checksum_values m = map (\<lambda>i. ucast (drop_bit (5 * (5 - i)) m AND 31)) [0..<6]"

definition bech32Encode :: "string \<Rightarrow> byte list \<Rightarrow> string option" where
  "bech32Encode hrp ds =
     (let m = bech32Polymod (bech32HRPExpand hrp @ ds @ [0, 0, 0, 0, 0, 0]) XOR bech32Const in
      map_option (\<lambda>t. hrp @ ''1'' @ t) (encode_data (ds @ checksum_values m)))"

section \<open>Regrouping bits\<close>

datatype convert_error = InvalidData | InvalidPadding

text \<open>The inner loop of \<open>convertBits\<close>: emit groups while enough bits are there. The source calls it
  with group sizes 5 and 8 only; a size of 0 would not terminate there.\<close>

function emit_groups :: "u32 \<Rightarrow> nat \<Rightarrow> nat \<Rightarrow> byte list \<times> nat" where
  "emit_groups acc bits to =
     (if 0 < to \<and> to \<le> bits then
        (let (out, rest) = emit_groups acc (bits - to) to in
         (ucast (drop_bit (bits - to) acc AND (push_bit to 1 - 1)) # out, rest))
      else ([], bits))"
  by pat_completeness auto
termination
  by (relation "measure (\<lambda>(acc, bits, to). bits)") auto

declare emit_groups.simps [simp del]

fun convert_loop :: "byte list \<Rightarrow> nat \<Rightarrow> nat \<Rightarrow> u32 \<Rightarrow> nat \<Rightarrow> (convert_error, byte list \<times> u32 \<times> nat) result" where
  "convert_loop [] from to acc bits = Inr ([], acc, bits)"
| "convert_loop (v # vs) from to acc bits =
     (if drop_bit from (ucast v :: u32) \<noteq> 0 then Inl InvalidData
      else (let acc1 = push_bit from acc OR ucast v;
                (out, bits1) = emit_groups acc1 (bits + from) to
            in bind_res (convert_loop vs from to acc1 bits1) (\<lambda>(out', acc', bits'). Inr (out @ out', acc', bits'))))"

definition convertBits :: "byte list \<Rightarrow> nat \<Rightarrow> nat \<Rightarrow> bool \<Rightarrow> (convert_error, byte list) result" where
  "convertBits ds from to pad =
     bind_res (convert_loop ds from to 0 0) (\<lambda>(out, acc, bits).
       let last_group = push_bit (to - bits) acc AND (push_bit to 1 - 1) in
       if pad \<and> 0 < bits then Inr (out @ [ucast last_group])
       else if \<not> pad \<and> (from \<le> bits \<or> last_group \<noteq> 0) then Inl InvalidPadding
       else Inr out)"

section \<open>Addresses\<close>

record address =
  addr_hrp :: string
  addr_program :: "byte list"

datatype address_error =
    AddrNotBech32 bech32_error
  | AddrUnknownNetwork string
  | AddrNoProgram
  | AddrConvert convert_error
  | AddrTaproot
  | AddrWitnessVersion byte
  | AddrBech32m
  | AddrP2WSH
  | AddrProgramLength nat

definition ParseAddress :: "case_tables \<Rightarrow> string \<Rightarrow> (address_error, address) result" where
  "ParseAddress ct s0 =
     (let s = trim_space s0 in
      case bech32Decode ct s of
        Inl e \<Rightarrow> Inl (AddrNotBech32 e)
      | Inr (hrp, ds, constant) \<Rightarrow>
          if hrp \<notin> set segwitHRPs then Inl (AddrUnknownNetwork hrp)
          else case ds of
            [] \<Rightarrow> Inl AddrNoProgram
          | version # rest \<Rightarrow>
              (case convertBits rest 5 8 False of
                 Inl e \<Rightarrow> Inl (AddrConvert e)
               | Inr program \<Rightarrow>
                   if version = 1 \<and> length program = 32 then Inl AddrTaproot
                   else if version \<noteq> 0 then Inl (AddrWitnessVersion version)
                   else if constant \<noteq> bech32Const then Inl AddrBech32m
                   else if length program = 32 then Inl AddrP2WSH
                   else if length program \<noteq> 20 then Inl (AddrProgramLength (length program))
                   else Inr \<lparr>addr_hrp = hrp, addr_program = program\<rparr>))"

text \<open>\<open>Address.String\<close>. The source discards the error of \<open>convertBits\<close>, whose result is then empty;
  below it is shown that neither the error nor an index panic happens for an address.\<close>

definition address_data :: "address \<Rightarrow> byte list" where
  "address_data a = 0 # (case convertBits (addr_program a) 8 5 True of Inl _ \<Rightarrow> [] | Inr ds \<Rightarrow> ds)"

definition address_String :: "address \<Rightarrow> string option" where
  "address_String a = bech32Encode (addr_hrp a) (address_data a)"

definition address_IsZero :: "address \<Rightarrow> bool" where
  "address_IsZero a \<longleftrightarrow> addr_hrp a = []"

end
