(* ===== verification/Approvers.thy ===== *)
theory Approvers
  imports Kits Bech32
begin

text \<open>
  Approvers of kit requests (\<open>internal/authz/approvers.go\<close>): validation, the kits an approver may
  approve, the normal form of keys and addresses, and the check that no approver key is also a
  credential callers connect with.
\<close>

record approver =
  ap_name :: string
  ap_key_sha256 :: string
  ap_address :: string
  ap_kits :: "string list"

datatype approver_error =
    ApBadName string
  | ApNoCredential string
  | ApBadKey string
  | ApBadAddress string address_error
  | ApEmptyKit string
  | ApDefinedTwice string
  | ApUnknownKit string string
  | ApSameKey string string
  | ApSameAddress string string
  | ApKeyReserved string string

definition approverNamePattern :: "string \<Rightarrow> bool" where
  "approverNamePattern = slug_match ''._@-''"

definition is_hex :: "char \<Rightarrow> bool" where
  "is_hex c \<longleftrightarrow> (let b = byte_of c :: nat in
     (48 \<le> b \<and> b \<le> 57) \<or> (97 \<le> b \<and> b \<le> 102) \<or> (65 \<le> b \<and> b \<le> 70))"

text \<open>\<open>hex.DecodeString\<close> succeeds with 32 bytes.\<close>

definition hex32 :: "string \<Rightarrow> bool" where
  "hex32 s \<longleftrightarrow> length s = 64 \<and> list_all is_hex s"

definition approver_Validate :: "case_tables \<Rightarrow> approver \<Rightarrow> approver_error option" where
  "approver_Validate ct a =
     (if \<not> approverNamePattern (ap_name a) then Some (ApBadName (ap_name a))
      else if ap_key_sha256 a = [] \<and> ap_address a = [] then Some (ApNoCredential (ap_name a))
      else if ap_key_sha256 a \<noteq> [] \<and> \<not> hex32 (ap_key_sha256 a) then Some (ApBadKey (ap_name a))
      else case (if ap_address a = [] then None
                 else case ParseAddress ct (ap_address a) of Inl e \<Rightarrow> Some e | Inr _ \<Rightarrow> None) of
        Some e \<Rightarrow> Some (ApBadAddress (ap_name a) e)
      | None \<Rightarrow> if list_ex (\<lambda>k. trim_space k = []) (ap_kits a) then Some (ApEmptyKit (ap_name a)) else None)"

definition MayApprove :: "approver \<Rightarrow> string \<Rightarrow> bool" where
  "MayApprove a kit \<longleftrightarrow> ap_kits a = [] \<or> kit \<in> set (ap_kits a)"

definition SigningAddress :: "case_tables \<Rightarrow> approver \<Rightarrow> address option" where
  "SigningAddress ct a =
     (if ap_address a = [] then None
      else case ParseAddress ct (ap_address a) of Inl _ \<Rightarrow> None | Inr addr \<Rightarrow> Some addr)"

text \<open>The text of a parsed address (\<open>Address.String\<close>, which panics when the program does not encode).\<close>

definition address_text :: "address \<Rightarrow> string" where
  "address_text addr = the (address_String addr)"

fun validate_approvers_from ::
  "case_tables \<Rightarrow> kit list \<Rightarrow> string list \<Rightarrow> (string \<times> string) list \<Rightarrow> (string \<times> string) list
    \<Rightarrow> approver list \<Rightarrow> approver_error option" where
  "validate_approvers_from ct kits names keys addresses [] = None"
| "validate_approvers_from ct kits names keys addresses (a # as) =
     (case approver_Validate ct a of
        Some e \<Rightarrow> Some e
      | None \<Rightarrow>
        if ap_name a \<in> set names then Some (ApDefinedTwice (ap_name a))
        else case find_first (\<lambda>n. n \<notin> set (map kit_name kits)) (ap_kits a) of
          Some n \<Rightarrow> Some (ApUnknownKit (ap_name a) n)
        | None \<Rightarrow>
          (let sum = to_lower ct (ap_key_sha256 a) in
           case (if ap_key_sha256 a = [] then None else map_of keys sum) of
             Some other \<Rightarrow> Some (ApSameKey other (ap_name a))
           | None \<Rightarrow>
             (let keys' = (if ap_key_sha256 a = [] then keys else AList.update sum (ap_name a) keys) in
              case SigningAddress ct a of
                None \<Rightarrow> validate_approvers_from ct kits (ap_name a # names) keys' addresses as
              | Some addr \<Rightarrow>
                 (case map_of addresses (address_text addr) of
                    Some other \<Rightarrow> Some (ApSameAddress other (ap_name a))
                  | None \<Rightarrow> validate_approvers_from ct kits (ap_name a # names) keys'
                              (AList.update (address_text addr) (ap_name a) addresses) as))))"

definition validateApprovers :: "case_tables \<Rightarrow> approver list \<Rightarrow> kit list \<Rightarrow> approver_error option" where
  "validateApprovers ct as kits = validate_approvers_from ct kits [] [] [] as"

fun CheckApproverKeys :: "case_tables \<Rightarrow> approver list \<Rightarrow> (string \<times> string) list \<Rightarrow> approver_error option" where
  "CheckApproverKeys ct [] reserved = None"
| "CheckApproverKeys ct (a # as) reserved =
     (if ap_key_sha256 a = [] then CheckApproverKeys ct as reserved
      else case map_of reserved (to_lower ct (ap_key_sha256 a)) of
        Some w \<Rightarrow> Some (ApKeyReserved (ap_name a) w)
      | None \<Rightarrow> CheckApproverKeys ct as reserved)"

definition normalizeApprover :: "case_tables \<Rightarrow> approver \<Rightarrow> approver" where
  "normalizeApprover ct a =
     (let a1 = a\<lparr>ap_key_sha256 := to_lower ct (ap_key_sha256 a)\<rparr> in
      case SigningAddress ct a1 of
        None \<Rightarrow> a1
      | Some addr \<Rightarrow> a1\<lparr>ap_address := address_text addr\<rparr>)"

definition normalizeApprovers :: "case_tables \<Rightarrow> approver list \<Rightarrow> approver list" where
  "normalizeApprovers ct as = map (normalizeApprover ct) as"

section \<open>Facts\<close>

text \<open>A list of approvers that passes validation: every approver is valid on its own, names are
  distinct, no two approvers share a key (up to case) or a signing address, and each is limited
  to kits that exist.\<close>

definition key_of :: "case_tables \<Rightarrow> approver \<Rightarrow> string option" where
  "key_of ct a = (if ap_key_sha256 a = [] then None else Some (to_lower ct (ap_key_sha256 a)))"

definition address_of :: "case_tables \<Rightarrow> approver \<Rightarrow> string option" where
  "address_of ct a = map_option address_text (SigningAddress ct a)"

lemma validate_approvers_from_sound:
  assumes "validate_approvers_from ct kits names keys addresses as = None"
  shows "(\<forall>a \<in> set as. approver_Validate ct a = None \<and> set (ap_kits a) \<subseteq> set (map kit_name kits)) \<and>
    distinct (map ap_name as) \<and> set names \<inter> ap_name ` set as = {} \<and>
    distinct (List.map_filter (key_of ct) as) \<and>
    fst ` set keys \<inter> set (List.map_filter (key_of ct) as) = {} \<and>
    distinct (List.map_filter (address_of ct) as) \<and>
    fst ` set addresses \<inter> set (List.map_filter (address_of ct) as) = {}"
  using assms
proof (induction as arbitrary: names keys addresses)
  case Nil
  then show ?case by (simp add: List.map_filter_simps)
next
  case (Cons a as)
  define keys' where "keys' = (if ap_key_sha256 a = [] then keys
      else AList.update (to_lower ct (ap_key_sha256 a)) (ap_name a) keys)"
  define addresses' where "addresses' = (case SigningAddress ct a of None \<Rightarrow> addresses
      | Some addr \<Rightarrow> AList.update (address_text addr) (ap_name a) addresses)"
  have v: "approver_Validate ct a = None" "ap_name a \<notin> set names"
      "set (ap_kits a) \<subseteq> set (map kit_name kits)"
      "\<forall>k. key_of ct a = Some k \<longrightarrow> k \<notin> fst ` set keys"
      "\<forall>d. address_of ct a = Some d \<longrightarrow> d \<notin> fst ` set addresses"
      and rest: "validate_approvers_from ct kits (ap_name a # names) keys' addresses' as = None"
    using Cons.prems
    by (auto simp: Let_def keys'_def addresses'_def key_of_def address_of_def find_first_None
        map_of_eq_None_iff split: option.splits if_splits)
  have k: "fst ` set keys' = (case key_of ct a of None \<Rightarrow> {} | Some k \<Rightarrow> {k}) \<union> fst ` set keys"
    by (auto simp: keys'_def key_of_def AList.dom_update)
  have d: "fst ` set addresses' = (case address_of ct a of None \<Rightarrow> {} | Some k \<Rightarrow> {k}) \<union> fst ` set addresses"
    by (auto simp: addresses'_def address_of_def AList.dom_update split: option.splits)
  note IH = Cons.IH [OF rest, unfolded k d]
  show ?case using v IH
    by (auto simp: List.map_filter_simps split: option.splits)
qed

lemma normalizeApprover_fields [simp]:
  "ap_name (normalizeApprover ct a) = ap_name a"
  "ap_kits (normalizeApprover ct a) = ap_kits a"
  "ap_key_sha256 (normalizeApprover ct a) = to_lower ct (ap_key_sha256 a)"
  by (simp_all add: normalizeApprover_def Let_def split: option.splits)

lemma MayApprove_normalize [simp]: "MayApprove (normalizeApprover ct a) kit = MayApprove a kit"
  by (simp add: MayApprove_def)

end
