(* ===== verification/Policy.thy ===== *)
theory Policy
  imports Approvers
begin

text \<open>
  The rules in effect (\<open>internal/authz/grants.go\<close>): grants and denies, presets, the authz config
  file after YAML decoding, and which of file, environment, upgrade record and default decides.
  The YAML decoder is third-party code and an argument of \<open>ParseFile\<close>.
\<close>

section \<open>Data\<close>

record authz_grant =
  ag_user :: string
  ag_role :: string
  ag_plan :: string
  ag_company :: string
  ag_everyone :: bool
  ag_all_tools :: bool
  ag_backends :: "string list"
  ag_tools :: "string list"
  ag_access :: "string list"

definition zero_grant :: authz_grant where
  "zero_grant = \<lparr>ag_user = [], ag_role = [], ag_plan = [], ag_company = [], ag_everyone = False,
     ag_all_tools = False, ag_backends = [], ag_tools = [], ag_access = []\<rparr>"

record authz_file =
  af_preset :: string
  af_grants :: "authz_grant list"
  af_denies :: "authz_grant list"
  af_kits :: "(string \<times> kit) list"
  af_approvers :: "approver list"

datatype policy_source = SourceFile | SourceEnv | SourceUpgrade | SourceDefault

record policy =
  pol_preset :: string
  pol_source :: policy_source
  pol_grants :: "authz_grant list"
  pol_denies :: "authz_grant list"
  pol_kits :: "kit list"
  pol_approvers :: "approver list"

record policy_input =
  in_file :: "authz_file option"
  in_env_preset :: string
  in_upgrade_preset :: string
  in_default_preset :: string
  in_owner :: string

datatype grant_error = GrantSubjects | GrantNoTarget | GrantEmptyName

datatype 'y policy_error =
    UnknownPreset string
  | ParseFailed 'y
  | GrantInvalid nat grant_error
  | DenyInvalid nat grant_error
  | KitsInvalid kit_error
  | ApproversInvalid approver_error

definition PresetSingleUser :: string where "PresetSingleUser = ''single-user''"
definition PresetTeam :: string where "PresetTeam = ''team''"
definition PresetOpen :: string where "PresetOpen = ''open''"

section \<open>Presets\<close>

definition ValidPreset :: "string \<Rightarrow> bool" where
  "ValidPreset name \<longleftrightarrow> name = PresetSingleUser \<or> name = PresetTeam \<or> name = PresetOpen"

definition single_user_grants :: "string \<Rightarrow> authz_grant list" where
  "single_user_grants owner =
     [zero_grant\<lparr>ag_role := ''admin'', ag_all_tools := True\<rparr>] @
     (if owner \<noteq> [] then [zero_grant\<lparr>ag_user := owner, ag_all_tools := True\<rparr>] else [])"

definition PresetGrants :: "string \<Rightarrow> string \<Rightarrow> ('y policy_error, authz_grant list) result" where
  "PresetGrants name owner =
     (if name = PresetOpen then Inr [zero_grant\<lparr>ag_everyone := True, ag_all_tools := True\<rparr>]
      else if name = PresetTeam then
        Inr ([zero_grant\<lparr>ag_plan := ''pro'', ag_all_tools := True\<rparr>,
              zero_grant\<lparr>ag_plan := ''free'', ag_access := [''read'']\<rparr>] @ single_user_grants owner)
      else if name = PresetSingleUser then Inr (single_user_grants owner)
      else Inl (UnknownPreset name))"

definition ResolvePolicy :: "case_tables \<Rightarrow> policy_input \<Rightarrow> ('y policy_error, policy) result" where
  "ResolvePolicy ct inp =
     (case in_file inp of
        Some f \<Rightarrow>
          bind_res (if af_preset f \<noteq> [] then PresetGrants (af_preset f) (in_owner inp) else Inr []) (\<lambda>base.
            Inr \<lparr>pol_preset = af_preset f, pol_source = SourceFile, pol_grants = base @ af_grants f,
                 pol_denies = af_denies f, pol_kits = kitsFromFile (af_kits f),
                 pol_approvers = normalizeApprovers ct (af_approvers f)\<rparr>)
      | None \<Rightarrow>
          (let (name, source) =
             (if in_env_preset inp \<noteq> [] then (in_env_preset inp, SourceEnv)
              else if in_upgrade_preset inp \<noteq> [] then (in_upgrade_preset inp, SourceUpgrade)
              else (in_default_preset inp, SourceDefault))
           in bind_res (PresetGrants name (in_owner inp)) (\<lambda>grants.
                Inr \<lparr>pol_preset = name, pol_source = source, pol_grants = grants, pol_denies = [],
                     pol_kits = [], pol_approvers = []\<rparr>)))"

definition OpenToEveryone :: "policy \<Rightarrow> bool" where
  "OpenToEveryone p \<longleftrightarrow> list_ex (\<lambda>g. ag_everyone g \<and> ag_all_tools g) (pol_grants p)"

section \<open>Validation and tuples of a rule\<close>

definition grant_Validate :: "authz_grant \<Rightarrow> grant_error option" where
  "grant_Validate g =
     (let subjects = length (filter id [ag_user g \<noteq> [], ag_role g \<noteq> [], ag_plan g \<noteq> [],
                                         ag_company g \<noteq> [], ag_everyone g]) in
      if subjects \<noteq> 1 then Some GrantSubjects
      else if \<not> ag_all_tools g \<and> ag_backends g = [] \<and> ag_tools g = [] \<and> ag_access g = []
        then Some GrantNoTarget
      else if list_ex (\<lambda>n. trim_space n = []) (ag_backends g @ ag_tools g @ ag_access g)
        then Some GrantEmptyName
      else None)"

definition grant_subject :: "authz_grant \<Rightarrow> string" where
  "grant_subject g =
     (if ag_user g \<noteq> [] then user_object (ag_user g)
      else if ag_role g \<noteq> [] then userset (role_object (ag_role g)) ''assignee''
      else if ag_plan g \<noteq> [] then userset (plan_object (ag_plan g)) ''subscriber''
      else if ag_company g \<noteq> [] then userset (company_object (ag_company g)) ''member''
      else ''user:*'')"

definition grant_objects :: "authz_grant \<Rightarrow> string list" where
  "grant_objects g =
     (if ag_all_tools g then [objInstance] else []) @
     map backend_object (ag_backends g) @
     map tool_object (ag_tools g) @
     map access_object (ag_access g)"

definition grant_tuples :: "authz_grant \<Rightarrow> string \<Rightarrow> tuple_key list" where
  "grant_tuples g relation = map (TupleKey (grant_subject g) relation) (grant_objects g)"

section \<open>The config file\<close>

fun first_invalid :: "nat \<Rightarrow> authz_grant list \<Rightarrow> (nat \<times> grant_error) option" where
  "first_invalid i [] = None"
| "first_invalid i (g # gs) =
     (case grant_Validate g of Some e \<Rightarrow> Some (i, e) | None \<Rightarrow> first_invalid (Suc i) gs)"

definition ParseFile ::
  "case_tables \<Rightarrow> (string \<Rightarrow> ('y, authz_file) result) \<Rightarrow> string \<Rightarrow> ('y policy_error, authz_file) result" where
  "ParseFile ct decode data =
     (case decode data of
        Inl e \<Rightarrow> Inl (ParseFailed e)
      | Inr f \<Rightarrow>
          if af_preset f \<noteq> [] \<and> \<not> ValidPreset (af_preset f) then Inl (UnknownPreset (af_preset f))
          else case first_invalid 1 (af_grants f) of
            Some (i, e) \<Rightarrow> Inl (GrantInvalid i e)
          | None \<Rightarrow>
              (case first_invalid 1 (af_denies f) of
                 Some (i, e) \<Rightarrow> Inl (DenyInvalid i e)
               | None \<Rightarrow>
                   (let kits = kitsFromFile (af_kits f) in
                    case validateKits kits of
                      Some e \<Rightarrow> Inl (KitsInvalid e)
                    | None \<Rightarrow>
                        (case validateApprovers ct (af_approvers f) kits of
                           Some e \<Rightarrow> Inl (ApproversInvalid e)
                         | None \<Rightarrow> Inr f))))"

section \<open>Facts\<close>

lemma first_invalid_None: "first_invalid i gs = None \<longleftrightarrow> (\<forall>g \<in> set gs. grant_Validate g = None)"
  by (induction gs arbitrary: i) (auto split: option.splits)

lemma ParseFile_Inr:
  "ParseFile ct decode data = Inr f \<Longrightarrow>
     (\<forall>g \<in> set (af_grants f) \<union> set (af_denies f). grant_Validate g = None) \<and>
     validateKits (kitsFromFile (af_kits f)) = None \<and>
     validateApprovers ct (af_approvers f) (kitsFromFile (af_kits f)) = None"
  by (auto simp: ParseFile_def Let_def first_invalid_None split: sum.splits if_splits option.splits)

lemma single_user_grants_valid: "list_all (\<lambda>g. grant_Validate g = None) (single_user_grants owner)"
  by (simp add: single_user_grants_def grant_Validate_def zero_grant_def)

lemma trim_space_read: "trim_space ''read'' \<noteq> []"
  by (simp add: trim_space_name name_chars_def)

lemma team_valid: "list_all (\<lambda>g. grant_Validate g = None) [zero_grant\<lparr>ag_plan := ''pro'', ag_all_tools := True\<rparr>,
              zero_grant\<lparr>ag_plan := ''free'', ag_access := [''read'']\<rparr>]"
  by (simp add: grant_Validate_def zero_grant_def trim_space_read)

lemma open_valid: "list_all (\<lambda>g. grant_Validate g = None) [zero_grant\<lparr>ag_everyone := True, ag_all_tools := True\<rparr>]"
  by (simp add: grant_Validate_def zero_grant_def)

lemma PresetGrants_valid:
  assumes "PresetGrants name owner = Inr gs" shows "list_all (\<lambda>g. grant_Validate g = None) gs"
proof -
  consider "gs = [zero_grant\<lparr>ag_everyone := True, ag_all_tools := True\<rparr>]"
    | "gs = [zero_grant\<lparr>ag_plan := ''pro'', ag_all_tools := True\<rparr>,
              zero_grant\<lparr>ag_plan := ''free'', ag_access := [''read'']\<rparr>] @ single_user_grants owner"
    | "gs = single_user_grants owner"
    using assms unfolding PresetGrants_def by (metis sum.inject(2) sum.distinct(1))
  then show ?thesis
    using single_user_grants_valid open_valid team_valid by cases (simp_all only: list_all_append)
qed

text \<open>The subject of a valid rule, as a datatype: which field names it.\<close>

datatype subject = SubUser string | SubRole string | SubPlan string | SubCompany string | SubEveryone

definition rule_subject :: "authz_grant \<Rightarrow> subject" where
  "rule_subject g =
     (if ag_user g \<noteq> [] then SubUser (ag_user g)
      else if ag_role g \<noteq> [] then SubRole (ag_role g)
      else if ag_plan g \<noteq> [] then SubPlan (ag_plan g)
      else if ag_company g \<noteq> [] then SubCompany (ag_company g)
      else SubEveryone)"

lemma grant_Validate_subject:
  "grant_Validate g = None \<Longrightarrow> rule_subject g = SubEveryone \<longleftrightarrow> ag_everyone g"
  by (auto simp: grant_Validate_def rule_subject_def Let_def split: if_splits)

end
