(* ===== verification/Fga.thy ===== *)
theory Fga
  imports Kits
begin

text \<open>
  The authorization model \<open>internal/authz/model.fga\<close> and the OpenFGA server it is evaluated by. The
  server is third-party code: its operations are arguments of the engine, collected in a record,
  and the locale \<open>fga_server\<close> states what its documentation promises. \<open>fga_can_execute\<close> is the
  meaning of the relation \<open>can_execute\<close> of the model over a set of tuples.
\<close>

section \<open>Object and user strings\<close>

text \<open>\<open>type:id\<close> objects and \<open>type:id#relation\<close> usersets.\<close>

definition type_of :: "string \<Rightarrow> string" where
  "type_of obj = takeWhile (\<lambda>c. c \<noteq> CHR '':'') obj"

definition userset_object :: "string \<Rightarrow> string" where
  "userset_object u = takeWhile (\<lambda>c. c \<noteq> CHR ''#'') u"

definition userset_relation :: "string \<Rightarrow> string" where
  "userset_relation u = drop 1 (dropWhile (\<lambda>c. c \<noteq> CHR ''#'') u)"

definition is_userset :: "string \<Rightarrow> bool" where
  "is_userset u \<longleftrightarrow> CHR ''#'' \<in> set u"

definition anyone :: string where "anyone = ''user:*''"

section \<open>The relations of the model\<close>

text \<open>\<open>define subscriber: [user, company#member]\<close>, and \<open>member\<close>, \<open>assignee\<close> and \<open>holder\<close>, which take
  users only.\<close>

definition has_membership :: "tuple_key set \<Rightarrow> string \<Rightarrow> string \<Rightarrow> bool" where
  "has_membership ts user u \<longleftrightarrow>
     (let obj = userset_object u; rel = userset_relation u in
      TupleKey user rel obj \<in> ts \<or>
      (rel = ''subscriber'' \<and>
       (\<exists>t \<in> ts. tk_relation t = rel \<and> tk_object t = obj \<and>
          type_of (tk_user t) = ''company'' \<and> userset_relation (tk_user t) = ''member'' \<and>
          TupleKey user ''member'' (userset_object (tk_user t)) \<in> ts)))"

text \<open>The type restrictions of \<open>executor\<close> and \<open>blocked\<close>: which users a tuple of the relation may name
  on an object of a type.\<close>

definition subject_sets :: "(string \<times> string) list" where
  "subject_sets = [(''company'', ''member''), (''role'', ''assignee''), (''plan'', ''subscriber'')]"

definition rule_types :: "string list" where
  "rule_types = [''instance'', ''backend'', ''access_class'', ''tool'']"

definition admits :: "string \<Rightarrow> string \<Rightarrow> string \<Rightarrow> bool" where
  "admits rel ty u \<longleftrightarrow>
     (if rel = relExecutor \<and> ty = ''backend_access'' then
        (if is_userset u then (type_of u, userset_relation u) = (''kit'', relHolder)
         else type_of u = ''user'' \<and> u \<noteq> anyone)
      else if rel = relExecutor \<and> ty \<in> set rule_types then
        (if is_userset u then (type_of u, userset_relation u) \<in> set ((''kit'', relHolder) # subject_sets)
         else type_of u = ''user'')
      else if rel = relBlocked \<and> ty \<in> set rule_types then
        (if is_userset u then (type_of u, userset_relation u) \<in> set subject_sets
         else type_of u = ''user'')
      else False)"

definition is_subject :: "tuple_key set \<Rightarrow> string \<Rightarrow> string \<Rightarrow> bool" where
  "is_subject ts user u \<longleftrightarrow> u = user \<or> u = anyone \<or> (is_userset u \<and> has_membership ts user u)"

definition fga_direct :: "tuple_key set \<Rightarrow> string \<Rightarrow> string \<Rightarrow> string \<Rightarrow> bool" where
  "fga_direct ts rel user obj \<longleftrightarrow>
     (\<exists>t \<in> ts. tk_relation t = rel \<and> tk_object t = obj \<and> admits rel (type_of obj) (tk_user t) \<and>
        is_subject ts user (tk_user t))"

text \<open>\<open>rel from via\<close>: the relation on an object the tool is tied to by \<open>via\<close>, whose type \<open>via\<close> admits.\<close>

definition fga_from :: "tuple_key set \<Rightarrow> string \<Rightarrow> string \<Rightarrow> string \<Rightarrow> string \<Rightarrow> bool" where
  "fga_from ts rel via user tool \<longleftrightarrow>
     (\<exists>t \<in> ts. tk_relation t = via \<and> tk_object t = tool \<and> type_of (tk_user t) = via \<and>
        \<not> is_userset (tk_user t) \<and> fga_direct ts rel user (tk_user t))"

definition fga_executor :: "tuple_key set \<Rightarrow> string \<Rightarrow> string \<Rightarrow> bool" where
  "fga_executor ts user tool \<longleftrightarrow> fga_direct ts relExecutor user tool \<or>
     fga_from ts relExecutor ''instance'' user tool \<or> fga_from ts relExecutor ''backend'' user tool \<or>
     fga_from ts relExecutor ''access_class'' user tool \<or>
     fga_from ts relExecutor ''backend_access'' user tool"

definition fga_blocked :: "tuple_key set \<Rightarrow> string \<Rightarrow> string \<Rightarrow> bool" where
  "fga_blocked ts user tool \<longleftrightarrow> fga_direct ts relBlocked user tool \<or>
     fga_from ts relBlocked ''instance'' user tool \<or> fga_from ts relBlocked ''backend'' user tool \<or>
     fga_from ts relBlocked ''access_class'' user tool"

definition fga_can_execute :: "tuple_key set \<Rightarrow> string \<Rightarrow> string \<Rightarrow> bool" where
  "fga_can_execute ts user tool \<longleftrightarrow> fga_executor ts user tool \<and> \<not> fga_blocked ts user tool"

section \<open>The server\<close>

datatype fga_error = FgaError string

text \<open>The calls the engine makes: \<open>Check\<close> of \<open>can_execute\<close> with contextual tuples, \<open>Write\<close> with
  writes or with deletes, and one page of \<open>Read\<close> with its continuation token.\<close>

record 's fga_ops =
  op_check :: "'s \<Rightarrow> tuple_key list \<Rightarrow> string \<Rightarrow> string \<Rightarrow> (fga_error, bool) result"
  op_write :: "'s \<Rightarrow> tuple_key list \<Rightarrow> (fga_error, 's) result"
  op_delete :: "'s \<Rightarrow> tuple_key list \<Rightarrow> (fga_error, 's) result"
  op_read :: "'s \<Rightarrow> nat \<Rightarrow> (fga_error, tuple_key list \<times> nat) result"

text \<open>What the documentation of OpenFGA promises: a check evaluates the model over the stored and the
  contextual tuples; a write or delete request is one transaction, which either takes effect as a
  whole or fails and changes nothing; a read returns every stored tuple page by page, where token
  0 stands for the empty token, which starts and ends the enumeration.\<close>

locale fga_server =
  fixes ops :: "'s fga_ops" and stored :: "'s \<Rightarrow> tuple_key set" and pages :: "'s \<Rightarrow> tuple_key list list"
  assumes check_model: "op_check ops s ctx user tool = Inr b \<Longrightarrow>
      b = fga_can_execute (stored s \<union> set ctx) user tool"
    and write_stored: "op_write ops s ts = Inr s' \<Longrightarrow> stored s' = stored s \<union> set ts"
    and delete_stored: "op_delete ops s ts = Inr s' \<Longrightarrow> stored s' = stored s - set ts"
    and pages_stored: "set (concat (pages s)) = stored s"
    and pages_nonempty: "pages s \<noteq> []"
    and read_page: "i < length (pages s) \<Longrightarrow> op_read ops s i = Inr r \<Longrightarrow>
      r = (pages s ! i, if Suc i < length (pages s) then Suc i else 0)"
begin

lemma finite_stored: "finite (stored s)"
  by (metis List.finite_set pages_stored)

end

text \<open>The requests OpenFGA takes: at most 100 contextual tuples per check, and writes and deletes of 1 to
  100 tuples without repetition, of which none (write) or each (delete) is stored.\<close>

definition writable :: "tuple_key set \<Rightarrow> tuple_key list \<Rightarrow> bool" where
  "writable st ts \<longleftrightarrow> ts \<noteq> [] \<and> length ts \<le> 100 \<and> distinct ts \<and> set ts \<inter> st = {}"

definition deletable :: "tuple_key set \<Rightarrow> tuple_key list \<Rightarrow> bool" where
  "deletable st ts \<longleftrightarrow> ts \<noteq> [] \<and> length ts \<le> 100 \<and> distinct ts \<and> set ts \<subseteq> st"

text \<open>A server whose datastore answers: every such request succeeds.\<close>

locale fga_reliable = fga_server +
  assumes check_answers: "length ctx \<le> 100 \<Longrightarrow> \<exists>b. op_check ops s ctx user tool = Inr b"
    and write_answers: "writable (stored s) ts \<Longrightarrow> \<exists>s'. op_write ops s ts = Inr s'"
    and delete_answers: "deletable (stored s) ts \<Longrightarrow> \<exists>s'. op_delete ops s ts = Inr s'"
    and read_answers: "i < length (pages s) \<Longrightarrow> \<exists>r. op_read ops s i = Inr r"
begin

lemma check_eq: "length ctx \<le> 100 \<Longrightarrow>
    op_check ops s ctx user tool = Inr (fga_can_execute (stored s \<union> set ctx) user tool)"
  using check_answers check_model by blast

end

section \<open>A server in memory\<close>

text \<open>The interface on a list of tuples, read in pages of 100 as the source asks for.\<close>

fun page_list :: "nat \<Rightarrow> 'a list \<Rightarrow> 'a list list" where
  "page_list n xs = (if n = 0 \<or> length xs \<le> n then [xs] else take n xs # page_list n (drop n xs))"

declare page_list.simps [simp del]

lemma page_list_concat: "concat (page_list n xs) = xs"
  by (induction n xs rule: page_list.induct) (subst page_list.simps, auto)

lemma page_list_nonempty: "page_list n xs \<noteq> []"
  by (subst page_list.simps) simp

definition mem_fga :: "tuple_key list fga_ops" where
  "mem_fga = \<lparr>
     op_check = (\<lambda>s ctx user tool. if length ctx \<le> 100 then Inr (fga_can_execute (set (s @ ctx)) user tool)
       else Inl (FgaError ''too many contextual tuples'')),
     op_write = (\<lambda>s ts. if writable (set s) ts then Inr (s @ ts) else Inl (FgaError ''invalid write'')),
     op_delete = (\<lambda>s ts. if deletable (set s) ts then Inr (filter (\<lambda>t. t \<notin> set ts) s)
       else Inl (FgaError ''invalid delete'')),
     op_read = (\<lambda>s i. Inr (page_list 100 s ! i, if Suc i < length (page_list 100 s) then Suc i else 0))\<rparr>"

interpretation mem: fga_reliable mem_fga set "page_list 100"
  by unfold_locales (auto simp: mem_fga_def page_list_concat page_list_nonempty split: if_splits)

end
