(* ===== verification/Engine.thy ===== *)
theory Engine
  imports Policy Fga "HOL-Library.Word"
begin

text \<open>
  The embedded authorization engine (\<open>internal/authz/embedded.go\<close>, the request type of
  \<open>internal/authz/authz.go\<close>): single checks, batches of checks that share decisions, and the
  replacement of the stored rules by a policy. The engine's state is the server's state, the set
  of tool objects with rules of their own, the kits and approvers in effect, and the epoch that
  scopes the check cache.
\<close>

section \<open>State and requests\<close>

record request =
  rq_user_id :: string
  rq_company_id :: string
  rq_plan :: string
  rq_roles :: "string list"
  rq_kits :: "string list"
  rq_kit_parts :: "kit_part list"
  rq_tool :: string
  rq_backend :: string
  rq_access :: string

record 's embedded =
  emb_srv :: 's
  emb_tool_grants :: "string list"
  emb_kits :: "kit list"
  emb_approvers :: "approver list"
  emb_epoch :: "64 word"

datatype engine_error =
    CheckFailed string string fga_error
  | TooManyTuples string string nat
  | ReadFailed fga_error
  | WriteFailed fga_error
  | DeleteCancelled
  | EngineKits kit_error
  | EngineGrant nat grant_error
  | EngineDeny nat grant_error
  | EngineApprovers approver_error

definition maxContextualTuples :: nat where "maxContextualTuples = 100"
definition writeChunk :: nat where "writeChunk = 100"

section \<open>Check\<close>

text \<open>The loops over roles, kits and objects skip what was seen before (and empty names).\<close>

fun dedup :: "'a list \<Rightarrow> 'a list \<Rightarrow> 'a list" where
  "dedup seen [] = []"
| "dedup seen (x # xs) = (if x \<in> set seen then dedup seen xs else x # dedup (x # seen) xs)"

definition dedup_names :: "string list \<Rightarrow> string list" where
  "dedup_names xs = dedup [] (filter (\<lambda>x. x \<noteq> []) xs)"

definition user_string :: "request \<Rightarrow> string" where
  "user_string r = user_object (rq_user_id r)"

definition part_objects_of :: "kit list \<Rightarrow> kit_part list \<Rightarrow> string list" where
  "part_objects_of kits parts = concat (map (\<lambda>p.
     case find_first (\<lambda>k. kit_name k = part_kit p) kits of None \<Rightarrow> [] | Some k \<Rightarrow> partObjects k p) parts)"

definition structure_tuples :: "request \<Rightarrow> tuple_key list" where
  "structure_tuples r =
     (let tool = tool_object (rq_tool r) in
      [TupleKey objInstance ''instance'' tool] @
      (if rq_backend r \<noteq> [] then [TupleKey (backend_object (rq_backend r)) ''backend'' tool] else []) @
      (if rq_access r \<noteq> [] then [TupleKey (access_object (rq_access r)) ''access_class'' tool] else []) @
      (if rq_backend r \<noteq> [] \<and> rq_access r \<noteq> [] then
         [TupleKey (backend_access_object (rq_backend r) (rq_access r)) ''backend_access'' tool] else []))"

definition identity_tuples :: "request \<Rightarrow> tuple_key list" where
  "identity_tuples r =
     (let user = user_string r in
      (if rq_company_id r \<noteq> [] then [TupleKey user ''member'' (company_object (rq_company_id r))] else []) @
      (if rq_plan r \<noteq> [] then [TupleKey user ''subscriber'' (plan_object (rq_plan r))] else []) @
      map (\<lambda>x. TupleKey user ''assignee'' (role_object x)) (dedup_names (rq_roles r)) @
      map (\<lambda>x. TupleKey user relHolder (kit_object x)) (dedup_names (rq_kits r)))"

definition part_tuples :: "kit list \<Rightarrow> request \<Rightarrow> tuple_key list" where
  "part_tuples kits r = map (TupleKey (user_string r) relExecutor)
     (dedup [] (part_objects_of kits (rq_kit_parts r)))"

definition context_tuples :: "kit list \<Rightarrow> request \<Rightarrow> tuple_key list" where
  "context_tuples kits r = structure_tuples r @ identity_tuples r @ part_tuples kits r"

definition Check :: "'s fga_ops \<Rightarrow> 's embedded \<Rightarrow> request \<Rightarrow> (engine_error, bool) result" where
  "Check ops e r =
     (if rq_user_id r = [] \<or> rq_tool r = [] then Inr False
      else (let ctx = context_tuples (emb_kits e) r in
        if maxContextualTuples < length ctx
        then Inl (TooManyTuples (rq_user_id r) (rq_tool r) (length ctx))
        else case op_check ops (emb_srv e) ctx (user_string r) (tool_object (rq_tool r)) of
          Inl err \<Rightarrow> Inl (CheckFailed (rq_user_id r) (rq_tool r) err)
        | Inr b \<Rightarrow> Inr b))"

section \<open>CheckBatch\<close>

definition length_prefixed :: "string list \<Rightarrow> string" where
  "length_prefixed parts = concat (map (\<lambda>p. itoa (length p) @ '':'' @ p) parts)"

definition key_fields :: "request \<Rightarrow> string list" where
  "key_fields r =
     (let roles = sorted_compact (rq_roles r); kits = sorted_compact (rq_kits r) in
      [rq_user_id r, rq_company_id r, rq_plan r, rq_backend r, rq_access r,
       (if rq_tool r = [] then ''true'' else ''false''), itoa (length roles)] @ roles @
      [itoa (length kits)] @ kits @
      concat (map (\<lambda>p. [part_kit p, itoa (length (part_grants p)), itoa (length (part_tools p))]
                        @ part_grants p @ part_tools p) (rq_kit_parts r)))"

definition equivalenceKey :: "request \<Rightarrow> string" where
  "equivalenceKey r = length_prefixed (key_fields r)"

fun check_batch :: "'s fga_ops \<Rightarrow> 's embedded \<Rightarrow> (string \<times> bool) list \<Rightarrow> request list
    \<Rightarrow> bool list \<times> engine_error list" where
  "check_batch ops e decided [] = ([], [])"
| "check_batch ops e decided (r # rs) =
     (let shared = tool_object (rq_tool r) \<notin> set (emb_tool_grants e);
          key = equivalenceKey r
      in case (if shared then map_of decided key else None) of
           Some allowed \<Rightarrow> (let (bs, errs) = check_batch ops e decided rs in (allowed # bs, errs))
         | None \<Rightarrow>
             (case Check ops e r of
                Inl err \<Rightarrow> (let (bs, errs) = check_batch ops e decided rs in (False # bs, err # errs))
              | Inr allowed \<Rightarrow>
                  (let (bs, errs) = check_batch ops e (if shared then AList.update key allowed decided else decided) rs
                   in (allowed # bs, errs))))"

definition CheckBatch :: "'s fga_ops \<Rightarrow> 's embedded \<Rightarrow> request list \<Rightarrow> bool list \<times> engine_error list" where
  "CheckBatch ops e rs = check_batch ops e [] rs"

section \<open>Applying a policy\<close>

text \<open>\<open>readTuples\<close>: pages until the continuation token is empty again. The number of pages is not known
  beforehand, so the loop carries fuel; \<open>None\<close> is a loop that has not ended.\<close>

fun read_pages :: "nat \<Rightarrow> 's fga_ops \<Rightarrow> 's \<Rightarrow> nat \<Rightarrow> (engine_error, tuple_key list) result option" where
  "read_pages 0 ops s token = None"
| "read_pages (Suc fuel) ops s token =
     (case op_read ops s token of
        Inl err \<Rightarrow> Some (Inl (ReadFailed err))
      | Inr (ts, token') \<Rightarrow>
          if token' = 0 then Some (Inr ts)
          else map_option (\<lambda>r. bind_res r (\<lambda>ts'. Inr (ts @ ts'))) (read_pages fuel ops s token'))"

definition readTuples :: "nat \<Rightarrow> 's fga_ops \<Rightarrow> 's \<Rightarrow> (engine_error, tuple_key list) result option" where
  "readTuples fuel ops s = map_option (\<lambda>r. bind_res r (\<lambda>ts. Inr (remdups ts))) (read_pages fuel ops s 0)"

text \<open>\<open>slices.Chunk\<close>.\<close>

function chunks :: "nat \<Rightarrow> 'a list \<Rightarrow> 'a list list" where
  "chunks n xs = (if n = 0 \<or> xs = [] then [] else take n xs # chunks n (drop n xs))"
  by pat_completeness auto
termination
  by (relation "measure (\<lambda>(n, xs). length xs)") auto

declare chunks.simps [simp del]

text \<open>Writing and deleting return the state, the number of tuples and the error that ended the loop.\<close>

fun write_chunks :: "'s fga_ops \<Rightarrow> 's \<Rightarrow> tuple_key list list \<Rightarrow> 's \<times> nat \<times> engine_error option" where
  "write_chunks ops s [] = (s, 0, None)"
| "write_chunks ops s (c # cs) =
     (case op_write ops s c of
        Inl err \<Rightarrow> (s, 0, Some (WriteFailed err))
      | Inr s' \<Rightarrow> (let (s'', n, err) = write_chunks ops s' cs in (s'', length c + n, err)))"

definition writeTuples :: "'s fga_ops \<Rightarrow> 's \<Rightarrow> tuple_key list \<Rightarrow> 's \<times> nat \<times> engine_error option" where
  "writeTuples ops s ts = write_chunks ops s (chunks writeChunk ts)"

text \<open>The retry tuple by tuple after a failed delete request. \<open>done t\<close> says whether the context is
  cancelled when the loop reaches \<open>t\<close>. A tuple whose delete fails is logged and left behind.\<close>

fun delete_each :: "'s fga_ops \<Rightarrow> (tuple_key \<Rightarrow> bool) \<Rightarrow> 's \<Rightarrow> tuple_key list \<Rightarrow> 's \<times> nat \<times> engine_error option" where
  "delete_each ops done s [] = (s, 0, None)"
| "delete_each ops done s (t # ts) =
     (if done t then (s, 0, Some DeleteCancelled)
      else case op_delete ops s [t] of
        Inl _ \<Rightarrow> delete_each ops done s ts
      | Inr s' \<Rightarrow> (let (s'', n, err) = delete_each ops done s' ts in (s'', Suc n, err)))"

definition deleteTuples :: "'s fga_ops \<Rightarrow> (tuple_key \<Rightarrow> bool) \<Rightarrow> 's \<Rightarrow> tuple_key list \<Rightarrow> 's \<times> nat \<times> engine_error option" where
  "deleteTuples ops done s chunk =
     (case op_delete ops s chunk of
        Inr s' \<Rightarrow> (s', length chunk, None)
      | Inl _ \<Rightarrow> delete_each ops done s chunk)"

fun delete_chunks :: "'s fga_ops \<Rightarrow> (tuple_key \<Rightarrow> bool) \<Rightarrow> 's \<Rightarrow> tuple_key list list \<Rightarrow> 's \<times> nat \<times> engine_error option" where
  "delete_chunks ops done s [] = (s, 0, None)"
| "delete_chunks ops done s (c # cs) =
     (let (s', n, err) = deleteTuples ops done s c in
      case err of
        Some x \<Rightarrow> (s', n, Some x)
      | None \<Rightarrow> (let (s'', m, err') = delete_chunks ops done s' cs in (s'', n + m, err')))"

definition deleteAll :: "'s fga_ops \<Rightarrow> (tuple_key \<Rightarrow> bool) \<Rightarrow> 's \<Rightarrow> tuple_key list \<Rightarrow> 's \<times> nat \<times> engine_error option" where
  "deleteAll ops done s ts = delete_chunks ops done s (chunks writeChunk ts)"

definition tool_objects_in :: "tuple_key list \<Rightarrow> string list" where
  "tool_objects_in ts = remdups (map tk_object (filter (\<lambda>t. has_prefix (tk_object t) ''tool:'') ts))"

definition setToolGrants :: "tuple_key list \<Rightarrow> 's embedded \<Rightarrow> 's embedded" where
  "setToolGrants ts e = e\<lparr>emb_tool_grants := tool_objects_in ts\<rparr>"

definition invalidate :: "'s embedded \<Rightarrow> 's embedded" where
  "invalidate e = e\<lparr>emb_epoch := emb_epoch e + 1\<rparr>"

record apply_result =
  ar_tuples :: nat
  ar_written :: nat
  ar_deleted :: nat

definition zero_result :: apply_result where
  "zero_result = \<lparr>ar_tuples = 0, ar_written = 0, ar_deleted = 0\<rparr>"

text \<open>The tuples the rules ask for, or the first rule that is not valid.\<close>

definition desired_tuples :: "authz_grant list \<Rightarrow> authz_grant list \<Rightarrow> kit list \<Rightarrow> (engine_error, tuple_key list) result" where
  "desired_tuples grants denies kits =
     (case first_invalid 1 grants of
        Some (i, err) \<Rightarrow> Inl (EngineGrant i err)
      | None \<Rightarrow>
          (case first_invalid 1 denies of
             Some (i, err) \<Rightarrow> Inl (EngineDeny i err)
           | None \<Rightarrow> Inr (remdups (concat (map (\<lambda>g. grant_tuples g relExecutor) grants) @
                                   concat (map (\<lambda>g. grant_tuples g relBlocked) denies) @
                                   concat (map kit_tuples kits)))))"

datatype apply_step = WriteStep "tuple_key list" | DeleteStep "tuple_key list"

definition is_deny :: "tuple_key \<Rightarrow> bool" where
  "is_deny t \<longleftrightarrow> tk_relation t = relBlocked"

text \<open>What is missing and what no rule asks for, in the order of \<open>compareTuples\<close>.\<close>

definition missing_tuples :: "tuple_key list \<Rightarrow> tuple_key list \<Rightarrow> tuple_key list" where
  "missing_tuples current desired = sort (filter (\<lambda>t. t \<notin> set current) desired)"

definition surplus_tuples :: "tuple_key list \<Rightarrow> tuple_key list \<Rightarrow> tuple_key list" where
  "surplus_tuples current desired = sort (filter (\<lambda>t. t \<notin> set desired) current)"

text \<open>The four steps in their order: new denies, removed grants, new grants, removed denies.\<close>

definition apply_plan :: "tuple_key list \<Rightarrow> tuple_key list \<Rightarrow> apply_step list" where
  "apply_plan writes deletes =
     [WriteStep (filter is_deny writes), DeleteStep (filter (\<lambda>t. \<not> is_deny t) deletes),
      WriteStep (filter (\<lambda>t. \<not> is_deny t) writes), DeleteStep (filter is_deny deletes)]"

fun run_steps :: "'s fga_ops \<Rightarrow> (tuple_key \<Rightarrow> bool) \<Rightarrow> apply_result \<Rightarrow> 's \<Rightarrow> apply_step list
    \<Rightarrow> 's \<times> apply_result \<times> engine_error option" where
  "run_steps ops done res s [] = (s, res, None)"
| "run_steps ops done res s (WriteStep ts # steps) =
     (let (s', n, err) = writeTuples ops s ts; res' = res\<lparr>ar_written := ar_written res + n\<rparr> in
      case err of Some x \<Rightarrow> (s', res', Some x) | None \<Rightarrow> run_steps ops done res' s' steps)"
| "run_steps ops done res s (DeleteStep ts # steps) =
     (let (s', n, err) = deleteAll ops done s ts; res' = res\<lparr>ar_deleted := ar_deleted res + n\<rparr> in
      case err of Some x \<Rightarrow> (s', res', Some x) | None \<Rightarrow> run_steps ops done res' s' steps)"

text \<open>\<open>apply\<close>: the new state, the summary, and the error if there is one. The cache is invalidated on
  every exit. \<open>None\<close> stands for a read that has not ended within the fuel.\<close>

definition apply_rules ::
  "nat \<Rightarrow> 's fga_ops \<Rightarrow> (tuple_key \<Rightarrow> bool) \<Rightarrow> 's embedded \<Rightarrow> authz_grant list \<Rightarrow> authz_grant list \<Rightarrow> kit list
    \<Rightarrow> ('s embedded \<times> apply_result \<times> engine_error option) option" where
  "apply_rules fuel ops done e grants denies kits =
     (case validateKits kits of
        Some err \<Rightarrow> Some (invalidate e, zero_result, Some (EngineKits err))
      | None \<Rightarrow>
     (case desired_tuples grants denies kits of
        Inl err \<Rightarrow> Some (invalidate e, zero_result, Some err)
      | Inr desired \<Rightarrow>
     (case readTuples fuel ops (emb_srv e) of
        None \<Rightarrow> None
      | Some (Inl err) \<Rightarrow> Some (invalidate e, zero_result, Some err)
      | Some (Inr current) \<Rightarrow>
          (let writes = missing_tuples current desired;
               deletes = surplus_tuples current desired;
               e1 = setToolGrants (current @ desired) e;
               (srv, res, err) = run_steps ops done (zero_result\<lparr>ar_tuples := length desired\<rparr>) (emb_srv e)
                                   (apply_plan writes deletes);
               e2 = e1\<lparr>emb_srv := srv\<rparr>
           in case err of
                Some x \<Rightarrow> Some (invalidate e2, res, Some x)
              | None \<Rightarrow>
                  (case readTuples fuel ops srv of
                     None \<Rightarrow> None
                   | Some after \<Rightarrow>
                       (let e3 = (case after of Inl _ \<Rightarrow> e2 | Inr ts \<Rightarrow> setToolGrants ts e2)
                        in Some (invalidate (e3\<lparr>emb_kits := sort_key kit_name kits\<rparr>), res, None)))))))"

definition ApplyPolicy ::
  "nat \<Rightarrow> case_tables \<Rightarrow> 's fga_ops \<Rightarrow> (tuple_key \<Rightarrow> bool) \<Rightarrow> 's embedded \<Rightarrow> policy
    \<Rightarrow> ('s embedded \<times> apply_result \<times> engine_error option) option" where
  "ApplyPolicy fuel ct ops done e p =
     (case validateApprovers ct (pol_approvers p) (pol_kits p) of
        Some err \<Rightarrow> Some (e, zero_result, Some (EngineApprovers err))
      | None \<Rightarrow>
          map_option (\<lambda>(e', res, err). (case err of
              Some x \<Rightarrow> (e', res, Some x)
            | None \<Rightarrow> (e'\<lparr>emb_approvers := normalizeApprovers ct (pol_approvers p)\<rparr>, res, None)))
            (apply_rules fuel ops done e (pol_grants p) (pol_denies p) (pol_kits p)))"

end
