(* ===== verification/Durations.thy ===== *)
theory Durations
  imports Kits
begin

text \<open>
  Durations and times as the grants use them: \<open>FormatTTL\<close> and \<open>ParseTTL\<close> of
  \<open>internal/grants/grants.go\<close> with the functions of Go's \<open>time\<close> package they call. A duration is a
  number of nanoseconds, a time the nanoseconds since the Unix epoch.
\<close>

type_synonym time = int

definition second :: duration where "second = 1000000000"

section \<open>Printing\<close>

text \<open>\<open>Duration.String\<close> of a positive duration: the fraction without trailing zeros.\<close>

fun padded_digits :: "nat \<Rightarrow> nat \<Rightarrow> string" where
  "padded_digits 0 v = []"
| "padded_digits (Suc k) v = padded_digits k (v div 10) @ [digit_char (v mod 10)]"

definition format_fraction :: "nat \<Rightarrow> nat \<Rightarrow> string" where
  "format_fraction prec v =
     (let ds = rev (dropWhile (\<lambda>c. c = CHR ''0'') (rev (padded_digits prec (v mod 10 ^ prec))))
      in if ds = [] then [] else CHR ''.'' # ds)"

definition micro_sign :: string where
  "micro_sign = [CHR 0xC2, CHR 0xB5]"

definition duration_String :: "duration \<Rightarrow> string" where
  "duration_String d =
     (let u = nat \<bar>d\<bar>; sign = (if d < 0 then ''-'' else []) in
      if u < 1000000000 then
        (if u = 0 then ''0s''
         else if u < 1000 then sign @ itoa u @ ''ns''
         else if u < 1000000 then sign @ itoa (u div 1000) @ format_fraction 3 u @ micro_sign @ ''s''
         else sign @ itoa (u div 1000000) @ format_fraction 6 u @ ''ms'')
      else
        (let s = u div 1000000000; m = s div 60; h = m div 60 in
         sign @ (if h > 0 then itoa h @ ''h'' else []) @
         (if m > 0 then itoa (m mod 60) @ ''m'' else []) @
         itoa (s mod 60) @ format_fraction 9 u @ ''s''))"

definition FormatTTL :: "duration \<Rightarrow> string" where
  "FormatTTL d =
     (if d \<le> 0 then []
      else if d mod hour = 0 then itoa (nat (d div hour)) @ ''h''
      else if d mod minute = 0 then itoa (nat (d div minute)) @ ''m''
      else duration_String d)"

section \<open>Parsing\<close>

definition is_digit :: "char \<Rightarrow> bool" where
  "is_digit c \<longleftrightarrow> (let b = byte_of c :: nat in 48 \<le> b \<and> b \<le> 57)"

definition digit_value :: "char \<Rightarrow> nat" where
  "digit_value c = byte_of c - 48"

text \<open>\<open>leadingInt\<close> on the digits it consumes; \<open>None\<close> is the overflow.\<close>

fun leading_int :: "nat \<Rightarrow> string \<Rightarrow> nat option" where
  "leading_int x [] = Some x"
| "leading_int x (c # cs) =
     (if x > 2 ^ 63 div 10 then None
      else (let y = x * 10 + digit_value c in if y > 2 ^ 63 then None else leading_int y cs))"

text \<open>\<open>leadingFraction\<close>: the value and how many digits it has; digits beyond the range are dropped.\<close>

fun leading_fraction :: "nat \<Rightarrow> nat \<Rightarrow> string \<Rightarrow> nat \<times> nat" where
  "leading_fraction x k [] = (x, k)"
| "leading_fraction x k (c # cs) =
     (if x > (2 ^ 63 - 1) div 10 then (x, k)
      else (let y = x * 10 + digit_value c in if y > 2 ^ 63 then (x, k) else leading_fraction y (Suc k) cs))"

definition unit_map :: "string \<Rightarrow> nat option" where
  "unit_map u = map_of [(''ns'', 1), (''us'', 1000), (micro_sign @ ''s'', 1000), ([CHR 0xCE, CHR 0xBC] @ ''s'', 1000),
     (''ms'', 1000000), (''s'', 1000000000), (''m'', 60000000000), (''h'', 3600000000000)] u"

text \<open>The loop of \<open>ParseDuration\<close>. \<open>fr f k u\<close> stands for the double-precision product of the fraction
  \<open>f / 10 ^ k\<close> and the unit, cut to an integer.\<close>

definition unit_end :: "char \<Rightarrow> bool" where
  "unit_end c \<longleftrightarrow> c = CHR ''.'' \<or> is_digit c"

definition fraction_part :: "string \<Rightarrow> nat \<times> nat \<times> string" where
  "fraction_part s1 =
     (case s1 of
        c # s2 \<Rightarrow> if c = CHR ''.'' then (let (f, k) = leading_fraction 0 0 (takeWhile is_digit s2)
                    in (f, k, dropWhile is_digit s2)) else (0, 0, s1)
      | [] \<Rightarrow> (0, 0, []))"

function parse_units :: "(nat \<Rightarrow> nat \<Rightarrow> nat \<Rightarrow> nat) \<Rightarrow> string \<Rightarrow> nat \<Rightarrow> nat option" where
  "parse_units fr s d =
     (if s = [] then Some d
      else if \<not> unit_end (hd s) then None
      else (let digits = takeWhile is_digit s; s1 = dropWhile is_digit s;
                post = (s1 \<noteq> [] \<and> hd s1 = CHR ''.'' \<and> tl s1 \<noteq> [] \<and> is_digit (hd (tl s1)));
                (f, k, s3) = fraction_part s1;
                u = takeWhile (\<lambda>c. \<not> unit_end c) s3
            in case leading_int 0 digits of
                 None \<Rightarrow> None
               | Some v \<Rightarrow>
                   if digits = [] \<and> \<not> post then None
                   else if u = [] then None
                   else (case unit_map u of
                      None \<Rightarrow> None
                    | Some unit \<Rightarrow>
                        if v > 2 ^ 63 div unit then None
                        else (let w = v * unit + (if f > 0 then fr f k unit else 0) in
                              if w > 2 ^ 63 then None
                              else (let d' = (d + w) mod 2 ^ 64 in
                                if d' > 2 ^ 63 then None else parse_units fr (drop (length u) s3) d')))))"
  by pat_completeness auto
termination
proof (relation "measure (\<lambda>(fr, s, d). length s)")
  fix fr :: "nat \<Rightarrow> nat \<Rightarrow> nat \<Rightarrow> nat" and s :: string and d :: nat and digits s1 u s3 :: string
    and p q :: "nat \<times> nat \<times> string" and f k :: nat and y :: "nat \<times> string" and a b c :: nat and post :: bool and w v unit d' :: nat
  assume a: "s \<noteq> []" "s1 = dropWhile is_digit s" "p = fraction_part s1" "(f, y) = p" "(k, s3) = y"
    "u = takeWhile (\<lambda>c. \<not> unit_end c) s3" "u \<noteq> []"
  have "length s3 \<le> length s1"
    using a(3-5) by (auto simp: fraction_part_def length_dropWhile_le le_SucI split: list.splits if_splits prod.splits)
  moreover have "length s1 \<le> length s" using a(2) by (simp add: length_dropWhile_le)
  moreover have "1 \<le> length u" "length u \<le> length s3" using a(6,7) by (auto simp: length_takeWhile_le Suc_le_eq)
  ultimately have "length s3 - length u < length s" by linarith
  then show "((fr, drop (length u) s3, d'), fr, s, d) \<in> measure (\<lambda>(fr, s, d). length s)" by simp
qed simp

declare parse_units.simps [simp del]

definition ParseDuration :: "(nat \<Rightarrow> nat \<Rightarrow> nat \<Rightarrow> nat) \<Rightarrow> string \<Rightarrow> duration option" where
  "ParseDuration fr s =
     (let neg = (s \<noteq> [] \<and> hd s = CHR ''-'');
          s' = (if s \<noteq> [] \<and> (hd s = CHR ''-'' \<or> hd s = CHR ''+'') then tl s else s)
      in if s' = ''0'' then Some 0
         else if s' = [] then None
         else (case parse_units fr s' 0 of
                 None \<Rightarrow> None
               | Some d \<Rightarrow> if neg then Some (- int d) else if d > 2 ^ 63 - 1 then None else Some (int d)))"

definition ParseTTL :: "(nat \<Rightarrow> nat \<Rightarrow> nat \<Rightarrow> nat) \<Rightarrow> string \<Rightarrow> duration option" where
  "ParseTTL fr s =
     (let t = trim_space s in
      if t = [] then Some 0
      else (case ParseDuration fr t of None \<Rightarrow> None | Some d \<Rightarrow> if d \<le> 0 then None else Some d))"

section \<open>Times\<close>

text \<open>\<open>t.UTC().Format(time.RFC3339)\<close> for years of four digits.\<close>

definition pad :: "nat \<Rightarrow> nat \<Rightarrow> string" where
  "pad n v = replicate (n - length (itoa v)) (CHR ''0'') @ itoa v"

text \<open>The civil date of a day since the epoch, by eras of 400 years that start on the first of March.\<close>

definition civil_date :: "int \<Rightarrow> int \<times> int \<times> int" where
  "civil_date days =
     (let z = days + 719468; era = z div 146097; doe = z mod 146097;
          yoe = (doe - doe div 1460 + doe div 36524 - doe div 146096) div 365;
          doy = doe - (365 * yoe + yoe div 4 - yoe div 100);
          mp = (5 * doy + 2) div 153;
          m = (if mp < 10 then mp + 3 else mp - 9)
      in (yoe + era * 400 + (if m \<le> 2 then 1 else 0), m, doy - (153 * mp + 2) div 5 + 1))"

definition format_rfc3339 :: "time \<Rightarrow> string" where
  "format_rfc3339 t =
     (let s = t div second; days = s div 86400; r = s mod 86400; (y, m, d) = civil_date days in
      pad 4 (nat y) @ ''-'' @ pad 2 (nat m) @ ''-'' @ pad 2 (nat d) @ ''T'' @
      pad 2 (nat (r div 3600)) @ '':'' @ pad 2 (nat (r mod 3600 div 60)) @ '':'' @ pad 2 (nat (r mod 60)) @ ''Z'')"

section \<open>Facts\<close>

lemma digit_char_byte: "d < 10 \<Longrightarrow> byte_of (digit_char d) = (48 + d :: nat)"
  by (simp add: digit_char_def)

lemma digit_char_facts: "d < 10 \<Longrightarrow> is_digit (digit_char d) \<and> digit_value (digit_char d) = d"
  by (simp add: is_digit_def digit_value_def digit_char_byte)

lemma digit_char_name: "d < 10 \<Longrightarrow> digit_char d \<in> set name_chars"
proof -
  assume "d < 10"
  then have "d = 0 \<or> d = 1 \<or> d = 2 \<or> d = 3 \<or> d = 4 \<or> d = 5 \<or> d = 6 \<or> d = 7 \<or> d = 8 \<or> d = 9" by presburger
  then show ?thesis by (elim disjE) (simp_all add: digit_char_def name_chars_def char_of_def bit_0)
qed

lemma itoa_chars: "c \<in> set (itoa n) \<Longrightarrow> is_digit c \<and> c \<in> set name_chars"
proof (induction n rule: itoa.induct)
  case (1 n)
  then show ?case using digit_char_facts [of n] digit_char_facts [of "n mod 10"] digit_char_name [of n] digit_char_name [of "n mod 10"]
    by (cases "n < 10") (auto simp: itoa.simps [of n])
qed

lemma itoa_not_Nil [simp]: "itoa n \<noteq> []"
  by (subst itoa.simps) simp

lemma leading_int_append:
  "leading_int x (a @ b) = (case leading_int x a of None \<Rightarrow> None | Some y \<Rightarrow> leading_int y b)"
  by (induction a arbitrary: x) (auto simp: Let_def)

lemma leading_int_itoa: "n \<le> 2 ^ 63 \<Longrightarrow> leading_int 0 (itoa n) = Some n"
proof (induction n rule: itoa.induct)
  case (1 n)
  show ?case
  proof (cases "n < 10")
    case True
    then show ?thesis by (subst itoa.simps) (simp add: digit_char_facts)
  next
    case False
    have "n div 10 \<le> 2 ^ 63 div 10" using "1.prems" by (rule div_le_mono)
    moreover have "n div 10 \<le> 2 ^ 63" using "1.prems" by simp
    ultimately show ?thesis using False "1.IH" "1.prems"
      by (subst itoa.simps) (simp add: leading_int_append digit_char_facts)
  qed
qed

lemma digits_prefix:
  assumes "\<forall>c \<in> set a. P c" "b = [] \<or> \<not> P (hd b)"
  shows "takeWhile P (a @ b) = a" "dropWhile P (a @ b) = b"
  using assms by (induction a) (cases b; auto)+

text \<open>One number and its unit at the front of what is left to parse.\<close>

lemma parse_units_segment:
  assumes u: "u = ''h'' \<and> unit = 3600000000000 \<or> u = ''m'' \<and> unit = 60000000000 \<or> u = ''s'' \<and> unit = 1000000000"
    and rest: "rest = [] \<or> is_digit (hd rest)" and fits: "d + n * unit \<le> 2 ^ 63"
  shows "parse_units fr (itoa n @ u @ rest) d = parse_units fr rest (d + n * unit)"
proof -
  let ?s = "itoa n @ u @ rest"
  have hd_u: "u \<noteq> [] \<and> \<not> is_digit (hd u) \<and> hd u \<noteq> CHR ''.''" "\<forall>c \<in> set u. \<not> unit_end c" "unit_map u = Some unit" "0 < unit"
    using u by (auto simp: unit_end_def is_digit_def unit_map_def micro_sign_def)
  have digits: "takeWhile is_digit ?s = itoa n" "dropWhile is_digit ?s = u @ rest"
    using digits_prefix [of "itoa n" is_digit "u @ rest"] itoa_chars hd_u(1) by auto
  have frac: "fraction_part (u @ rest) = (0, 0, u @ rest)"
    using hd_u(1) by (cases u) (auto simp: fraction_part_def)
  have unit: "takeWhile (\<lambda>c. \<not> unit_end c) (u @ rest) = u"
    using digits_prefix [of u "\<lambda>c. \<not> unit_end c" rest] hd_u(2) rest by (auto simp: unit_end_def)
  have "n * 1 \<le> n * unit" using hd_u(4) by (intro mult_le_mono2) simp
  then have le: "n \<le> 2 ^ 63" using fits by linarith
  have "n = n * unit div unit" using hd_u(4) by simp
  also have "\<dots> \<le> 2 ^ 63 div unit" using fits by (intro div_le_mono) linarith
  finally have n: "n \<le> 2 ^ 63 div unit" .
  have "hd ?s \<in> set (itoa n)" by (simp add: hd_append)
  then have "unit_end (hd ?s)" using itoa_chars [of "hd ?s" n] unfolding unit_end_def by blast
  then show ?thesis
    by (subst parse_units.simps) (use n fits in \<open>simp add: digits frac unit leading_int_itoa [OF le] hd_u Let_def not_less\<close>)
qed

lemma parse_units_Nil: "parse_units fr [] d = Some d"
  by (simp add: parse_units.simps)

lemma padded_zero: "padded_digits k 0 = replicate k (CHR ''0'')"
  by (induction k) (simp_all add: digit_char_def char_of_def bit_0 replicate_append_same)

lemma format_fraction_zero: "v mod 1000000000 = 0 \<Longrightarrow> format_fraction 9 v = []"
  by (simp add: format_fraction_def padded_zero)

lemma ParseTTL_units:
  assumes "list_all (\<lambda>c. c \<in> set name_chars) s" "s \<noteq> []" "is_digit (hd s)" "1 < length s"
    "parse_units fr s 0 = Some v" "0 < v" "v < 2 ^ 63"
  shows "ParseTTL fr s = Some (int v)"
proof -
  have "hd s \<noteq> CHR ''-'' \<and> hd s \<noteq> CHR ''+''" using assms(3) by (auto simp: is_digit_def)
  then show ?thesis using assms by (auto simp: ParseTTL_def ParseDuration_def trim_space_name)
qed

lemma hd_itoa: "is_digit (hd (itoa n @ s))"
  using itoa_chars [of "hd (itoa n)" n] by simp

lemma itoa_name: "list_all (\<lambda>c. c \<in> set name_chars) (itoa n)"
  using itoa_chars by (auto simp: list_all_iff)

lemma unit_names: "list_all (\<lambda>c. c \<in> set name_chars) ''h''" "list_all (\<lambda>c. c \<in> set name_chars) ''m''"
  "list_all (\<lambda>c. c \<in> set name_chars) ''s''"
  by (simp_all add: name_chars_def)

lemma single_unit:
  assumes u: "u = ''h'' \<and> unit = 3600000000000 \<or> u = ''m'' \<and> unit = 60000000000" and n: "0 < n" "n * unit < 2 ^ 63"
  shows "ParseTTL fr (itoa n @ u) = Some (int (n * unit))"
proof (rule ParseTTL_units)
  show "parse_units fr (itoa n @ u) 0 = Some (n * unit)"
    using parse_units_segment [of u unit "[]" 0 n fr] u n by (auto simp: parse_units_Nil)
  show "list_all (\<lambda>c. c \<in> set name_chars) (itoa n @ u)" using u itoa_name unit_names by auto
  show "1 < length (itoa n @ u)" using u by (auto simp: Suc_less_eq2)
qed (use u n hd_itoa in auto)

text \<open>The seconds of a duration, in hours, minutes and seconds.\<close>

lemma parse_seconds:
  fixes s :: nat
  defines "m \<equiv> s div 60" and "h \<equiv> s div 60 div 60"
  assumes "s * 1000000000 < 2 ^ 63"
  shows "parse_units fr ((if h > 0 then itoa h @ ''h'' else []) @ (if m > 0 then itoa (m mod 60) @ ''m'' else []) @
    itoa (s mod 60) @ ''s'') 0 = Some (s * 1000000000)"
proof -
  let ?m = "if m > 0 then itoa (m mod 60) @ ''m'' else []" and ?s = "itoa (s mod 60) @ ''s''"
  have split: "s = h * 3600 + (m mod 60) * 60 + s mod 60" unfolding h_def m_def
    using div_mult_mod_eq [of s 60] div_mult_mod_eq [of "s div 60" 60] by linarith
  have sec: "parse_units fr ?s d = Some (d + s mod 60 * 1000000000)" if "d + s mod 60 * 1000000000 \<le> 2 ^ 63" for d
    using parse_units_segment [of "''s''" 1000000000 "[]" d "s mod 60" fr] that by (simp add: parse_units_Nil)
  have min: "parse_units fr (?m @ ?s) d = Some (d + (m mod 60) * 60000000000 + s mod 60 * 1000000000)"
    if "d + (m mod 60) * 60000000000 + s mod 60 * 1000000000 \<le> 2 ^ 63" for d
    using parse_units_segment [of "''m''" 60000000000 ?s d "m mod 60" fr] sec that hd_itoa [of "s mod 60"] by simp
  have hd: "is_digit (hd (?m @ ?s))" using hd_itoa by simp
  show ?thesis
  proof (cases "h > 0")
    case True
    have "h * 3600000000000 + (m mod 60) * 60000000000 + s mod 60 * 1000000000 = s * 1000000000" using split by simp
    then show ?thesis
      using True parse_units_segment [of "''h''" 3600000000000 "?m @ ?s" 0 h fr] min [of "h * 3600000000000"] hd assms(3) by simp
  next
    case False
    then have "(m mod 60) * 60000000000 + s mod 60 * 1000000000 = s * 1000000000" using split by simp
    then show ?thesis using False min [of 0] assms(3) by simp
  qed
qed

lemma duration_String_seconds:
  assumes "0 < s"
  shows "duration_String (second * int s) = (let m = s div 60; h = s div 60 div 60 in
    (if h > 0 then itoa h @ ''h'' else []) @ (if m > 0 then itoa (m mod 60) @ ''m'' else []) @ itoa (s mod 60) @ ''s'')"
proof -
  have "nat \<bar>second * int s\<bar> = 1000000000 * s" by (simp add: second_def nat_mult_distrib)
  then show ?thesis using assms by (simp add: duration_String_def Let_def format_fraction_zero second_def)
qed

lemma whole_units:
  assumes "0 < d" "d < 2 ^ 63" "d mod int unit = 0" "0 < unit"
  shows "0 < nat (d div int unit) \<and> nat (d div int unit) * unit < 2 ^ 63 \<and> int (nat (d div int unit) * unit) = d"
proof -
  have d: "d = d div int unit * int unit" using assms(3) by (simp add: mod_0_imp_dvd)
  then have pos: "0 < d div int unit" using assms(1,4) by (metis of_nat_0_less_iff zero_less_mult_pos2)
  then have eq: "int (nat (d div int unit) * unit) = d" using d by simp
  then have "int (nat (d div int unit) * unit) < int (2 ^ 63)" using assms(2) by simp
  then have "nat (d div int unit) * unit < 2 ^ 63" by (simp only: of_nat_less_iff)
  with pos eq show ?thesis by simp
qed

text \<open>Parsing what \<open>FormatTTL\<close> prints gives the duration back, for every positive duration of whole
  seconds that a \<open>time.Duration\<close> can hold.\<close>

theorem ttl_roundtrip:
  assumes "0 < d" "d < 2 ^ 63" "d mod second = 0"
  shows "ParseTTL fr (FormatTTL d) = Some d"
proof -
  define s where "s = nat (d div second)"
  have s: "d = second * int s" using assms by (auto simp: s_def second_def)
  then have s0: "0 < s" using assms(1) by (cases s) auto
  have "int (s * 1000000000) < int (2 ^ 63)" using assms(2) unfolding s second_def by simp
  then have fits: "s * 1000000000 < 2 ^ 63" by (simp only: of_nat_less_iff)
  consider (h) "d mod hour = 0" | (m) "d mod hour \<noteq> 0" "d mod minute = 0" | (s) "d mod hour \<noteq> 0" "d mod minute \<noteq> 0" by blast
  then show ?thesis
  proof cases
    case h
    from whole_units [of d 3600000000000] h assms single_unit [of "''h''" 3600000000000 "nat (d div hour)" fr] show ?thesis
      by (simp add: FormatTTL_def hour_def)
  next
    case m
    from whole_units [of d 60000000000] m assms single_unit [of "''m''" 60000000000 "nat (d div minute)" fr] show ?thesis
      by (simp add: FormatTTL_def minute_def)
  next
    case s
    have "ParseTTL fr (duration_String d) = Some (int (s * 1000000000))"
      unfolding \<open>d = second * int s\<close> duration_String_seconds [OF s0] Let_def
      by (rule ParseTTL_units [OF _ _ _ _ parse_seconds [OF fits]])
        (use fits s0 hd_itoa itoa_name unit_names in \<open>auto simp: Suc_less_eq2\<close>)
    with s assms(1) show ?thesis by (simp add: FormatTTL_def \<open>d = second * int s\<close> second_def)
  qed
qed

theorem ttl_roundtrip_witness:
  "FormatTTL (90 * second) = ''1m30s'' \<and> ParseTTL (\<lambda>_ _ _. 0) (FormatTTL (90 * second)) = Some (90 * second)"
proof
  show "FormatTTL (90 * second) = ''1m30s''"
    using duration_String_seconds [of 90]
    by (simp add: FormatTTL_def second_def hour_def minute_def Let_def itoa.simps digit_char_def char_of_def bit_0)
  show "ParseTTL (\<lambda>_ _ _. 0) (FormatTTL (90 * second)) = Some (90 * second)"
    by (rule ttl_roundtrip) (simp_all add: second_def)
qed

end
