(* ===== verification/Userctx.thy ===== *)
theory Userctx
  imports Prelude
begin

text \<open>
  The authenticated caller (\<open>internal/userctx/context.go\<close>): the identity every later component
  decides on, and what grants of kits are bound to besides the user. The roles are a slice that
  policies see as JSON, where a nil slice (\<open>None\<close>) and an empty one differ.
\<close>

record user_context =
  uc_user_id :: string
  uc_company_id :: string
  uc_roles :: "string list option"
  uc_plan :: string
  uc_authenticated :: bool
  uc_caller_id :: string
  uc_caller_name :: string
  uc_caller_class :: string
  uc_grant_key :: string

definition GrantBinding :: "user_context \<Rightarrow> string" where
  "GrantBinding uc = (if uc_grant_key uc \<noteq> [] then uc_grant_key uc else uc_caller_id uc)"

text \<open>The zero value of the Go struct.\<close>

definition zero_user_context :: user_context where
  "zero_user_context = \<lparr>uc_user_id = [], uc_company_id = [], uc_roles = None, uc_plan = [],
     uc_authenticated = False, uc_caller_id = [], uc_caller_name = [], uc_caller_class = [],
     uc_grant_key = []\<rparr>"

end
