(* ===== verification/GrantStore.thy ===== *)
theory GrantStore
  imports Durations Userctx Sha256
begin

text \<open>
  Grants and the store that keeps them (\<open>internal/grants/grants.go\<close>, \<open>internal/grants/store.go\<close>). The
  store interface is a record of operations; the locale \<open>grant_store\<close> states its contract over the
  grants that are live at a time, and the in-memory store is shown to satisfy it.
\<close>

section \<open>Grants\<close>

datatype grant_state = StatePending | StateActive

datatype approved_with = ApprovedWithKey | ApprovedWithSignature

record grant_part =
  gp_grants :: "string list"
  gp_tools :: "string list"

record entry_coverage =
  ec_entry :: string
  ec_tool :: bool
  ec_access :: string
  ec_tools :: nat
  ec_new :: nat

record grant =
  g_id :: string
  g_state :: grant_state
  g_kit :: string
  g_user_id :: string
  g_caller_id :: string
  g_caller_name :: string
  g_company_id :: string
  g_grant_key :: string
  g_reason :: string
  g_ttl :: duration
  g_requested_at :: time
  g_nonce :: string
  g_coverage :: "entry_coverage list"
  g_approved_by :: string
  g_approved_at :: time
  g_approved_with :: "approved_with option"
  g_part :: "grant_part option"
  g_expires_at :: time

record grant_subject_id =
  sub_user_id :: string
  sub_binding :: string

definition Subject :: "grant \<Rightarrow> grant_subject_id" where
  "Subject g = \<lparr>sub_user_id = g_user_id g,
     sub_binding = (if g_grant_key g \<noteq> [] then g_grant_key g else g_caller_id g)\<rparr>"

definition subject_key :: "grant_subject_id \<Rightarrow> string" where
  "subject_key s = query_escape (sub_user_id s) @ ''|'' @ query_escape (sub_binding s)"

definition Fingerprint :: "grant \<Rightarrow> string" where
  "Fingerprint g =
     (let fields = [''toolmesh grant request'', g_id g, g_nonce g, g_kit g, g_user_id g,
            sub_binding (Subject g), FormatTTL (g_ttl g), g_reason g];
          h = sha256 (bytes_of (concat (map (\<lambda>f. itoa (length f) @ '':'' @ f @ [CHR 10]) fields)));
          s = concat (map (\<lambda>b. [hex_upper (unat b div 16), hex_upper (unat b mod 16)]) (take 8 h))
      in take 4 s @ ''-'' @ take 4 (drop 4 s) @ ''-'' @ take 4 (drop 8 s) @ ''-'' @ take 4 (drop 12 s))"

text \<open>\<open>newNonce\<close> and \<open>newID\<close> for the random bytes they draw.\<close>

definition newNonce :: "byte list \<Rightarrow> string" where
  "newNonce rnd = hex_encode rnd"

definition base32_lower :: string where
  "base32_lower = ''abcdefghijklmnopqrstuvwxyz234567''"

text \<open>Base 32 without padding, in lower case: five bits per character, the last group filled with zeros.\<close>

definition byte_bits :: "byte \<Rightarrow> bool list" where
  "byte_bits b = map (\<lambda>i. bit b (7 - i)) [0..<8]"

definition base32_char :: "bool list \<Rightarrow> char" where
  "base32_char bits = base32_lower ! foldl (\<lambda>n b. 2 * n + of_bool b) 0 bits"

fun base32_groups :: "bool list \<Rightarrow> string" where
  "base32_groups (a # b # c # d # e # bs) = base32_char [a, b, c, d, e] # base32_groups bs"
| "base32_groups [] = []"
| "base32_groups bs = [base32_char (bs @ replicate (5 - length bs) False)]"

definition newID :: "byte list \<Rightarrow> string" where
  "newID rnd = take 10 (base32_groups (concat (map byte_bits rnd)))"

section \<open>The interface\<close>

datatype store_error = ErrNotFound | ErrLimit | StoreFailed string

text \<open>Every operation takes the time its clock shows. Reading prunes, so each returns the store.\<close>

record 's store_ops =
  st_put :: "time \<Rightarrow> grant \<Rightarrow> 's \<Rightarrow> (store_error, unit) result \<times> 's"
  st_add_pending :: "time \<Rightarrow> grant \<Rightarrow> nat \<Rightarrow> 's \<Rightarrow> (store_error, grant option) result \<times> 's"
  st_get :: "time \<Rightarrow> grant_state \<Rightarrow> string \<Rightarrow> 's \<Rightarrow> (store_error, grant) result \<times> 's"
  st_take :: "time \<Rightarrow> grant_state \<Rightarrow> string \<Rightarrow> 's \<Rightarrow> (store_error, grant) result \<times> 's"
  st_for_subject :: "time \<Rightarrow> grant_state \<Rightarrow> grant_subject_id \<Rightarrow> 's \<Rightarrow> (store_error, grant list) result \<times> 's"
  st_list :: "time \<Rightarrow> grant_state \<Rightarrow> 's \<Rightarrow> (store_error, grant list) result \<times> 's"

type_synonym grants_view = "grant_state \<Rightarrow> string \<Rightarrow> grant option"

text \<open>What of a view is live at a time, and a view with one entry changed.\<close>

definition live_at :: "time \<Rightarrow> grants_view \<Rightarrow> grants_view" where
  "live_at t v st i = (case v st i of None \<Rightarrow> None | Some g \<Rightarrow> if t < g_expires_at g then Some g else None)"

definition view_upd :: "grant_state \<Rightarrow> string \<Rightarrow> grant option \<Rightarrow> grants_view \<Rightarrow> grants_view" where
  "view_upd st i g v = v(st := (v st)(i := g))"

text \<open>Two views that cannot be told apart from a time on.\<close>

definition same_from :: "time \<Rightarrow> grants_view \<Rightarrow> grants_view \<Rightarrow> bool" where
  "same_from t v w \<longleftrightarrow> live_at t v = live_at t w"

definition of_subject :: "grants_view \<Rightarrow> grant_state \<Rightarrow> grant_subject_id \<Rightarrow> grant set" where
  "of_subject v st sub = {g. \<exists>i. v st i = Some g \<and> Subject g = sub}"

lemma live_at_mono: "t \<le> t' \<Longrightarrow> live_at t' (live_at t v) = live_at t' v"
  by (rule ext)+ (auto simp: live_at_def split: option.splits)

lemma same_from_mono: "same_from t v w \<Longrightarrow> t \<le> t' \<Longrightarrow> same_from t' v w"
  by (metis live_at_mono same_from_def)

lemma same_from_refl [simp]: "same_from t v v"
  by (simp add: same_from_def)

lemma same_from_trans: "same_from t u v \<Longrightarrow> same_from t v w \<Longrightarrow> same_from t u w"
  by (simp add: same_from_def)

lemma same_from_upd: "same_from t v w \<Longrightarrow> same_from t (view_upd st i g v) (view_upd st i g w)"
  by (auto simp: same_from_def live_at_def view_upd_def fun_eq_iff)

lemma live_at_Some: "live_at t v st i = Some g \<longleftrightarrow> v st i = Some g \<and> t < g_expires_at g"
  by (auto simp: live_at_def split: option.splits)

lemma view_upd_get: "view_upd st i g v st' i' = (if st' = st \<and> i' = i then g else v st' i')"
  by (simp add: view_upd_def)

lemma live_at_upd: "live_at t (view_upd st i None v) = view_upd st i None (live_at t v)"
  by (auto simp: live_at_def view_upd_def fun_eq_iff)

locale grant_store =
  fixes ops :: "'s store_ops" and valid :: "'s \<Rightarrow> bool" and content :: "'s \<Rightarrow> grants_view"
  assumes content_ids: "valid s \<Longrightarrow> content s st i = Some g \<Longrightarrow> g_id g = i \<and> g_state g = st"
    and finite_content: "valid s \<Longrightarrow> finite {i. content s st i \<noteq> None}"
    and put_law: "valid s \<Longrightarrow> st_put ops t g s = (rp, s') \<Longrightarrow>
      valid s' \<and> rp = Inr () \<and> same_from t (content s') (view_upd (g_state g) (g_id g) (Some g) (content s))"
    and get_law: "valid s \<Longrightarrow> st_get ops t st i s = (rg, s') \<Longrightarrow>
      valid s' \<and> same_from t (content s') (content s) \<and>
      rg = (case live_at t (content s) st i of None \<Rightarrow> Inl ErrNotFound | Some g \<Rightarrow> Inr g)"
    and take_law: "valid s \<Longrightarrow> st_take ops t st i s = (rt, s') \<Longrightarrow>
      valid s' \<and> same_from t (content s') (view_upd st i None (content s)) \<and>
      rt = (case live_at t (content s) st i of None \<Rightarrow> Inl ErrNotFound | Some g \<Rightarrow> Inr g)"
    and for_subject_law: "valid s \<Longrightarrow> st_for_subject ops t st sub s = (rf, s') \<Longrightarrow>
      valid s' \<and> same_from t (content s') (content s) \<and>
      (\<exists>gs. rf = Inr gs \<and> distinct gs \<and> set gs = of_subject (live_at t (content s)) st sub)"
    and list_law: "valid s \<Longrightarrow> st_list ops t st s = (rl, s') \<Longrightarrow>
      valid s' \<and> same_from t (content s') (content s) \<and>
      (\<exists>gs. rl = Inr gs \<and> distinct gs \<and> set gs = {g. \<exists>i. live_at t (content s) st i = Some g})"
    and add_pending_law: "valid s \<Longrightarrow> g_state g = StatePending \<Longrightarrow> st_add_pending ops t g limit s = (ra, s') \<Longrightarrow>
      valid s' \<and>
      (let held = of_subject (live_at t (content s)) StatePending (Subject g) in
       if \<exists>p \<in> held. g_kit p = g_kit g
       then same_from t (content s') (content s) \<and> (\<exists>p \<in> held. g_kit p = g_kit g \<and> ra = Inr (Some p))
       else if limit \<le> card held
       then same_from t (content s') (content s) \<and> ra = Inl ErrLimit
       else same_from t (content s') (view_upd StatePending (g_id g) (Some g) (content s)) \<and> ra = Inr None)"
begin

text \<open>Of two calls that take the same grant, at most one gets it.\<close>

lemma take_once:
  assumes "valid s" "st_take ops t st i s = (Inr g, s')" "t \<le> t'" "st_take ops t' st i s' = (r, s'')"
  shows "r = Inl ErrNotFound"
proof -
  have s': "valid s'" "same_from t (content s') (view_upd st i None (content s))" using take_law [OF assms(1,2)] by auto
  have "same_from t' (content s') (view_upd st i None (content s))" using same_from_mono [OF s'(2) assms(3)] .
  then have "live_at t' (content s') st i = None"
    by (simp add: same_from_def live_at_upd view_upd_get)
  then show ?thesis using take_law [OF s'(1) assms(4)] by simp
qed

end

section \<open>The in-memory store\<close>

record memory_store =
  by_state :: "grant_state \<Rightarrow> (string \<times> grant) list"

definition NewMemoryStore :: memory_store where
  "NewMemoryStore = \<lparr>by_state = (\<lambda>_. [])\<rparr>"

definition set_state :: "grant_state \<Rightarrow> (string \<times> grant) list \<Rightarrow> memory_store \<Rightarrow> memory_store" where
  "set_state st m s = s\<lparr>by_state := (by_state s)(st := m)\<rparr>"

definition prune :: "time \<Rightarrow> grant_state \<Rightarrow> memory_store \<Rightarrow> (string \<times> grant) list" where
  "prune now st s = filter (\<lambda>(i, g). now < g_expires_at g) (by_state s st)"

definition sortGrants :: "grant list \<Rightarrow> grant list" where
  "sortGrants gs = sort_key (\<lambda>g. (g_requested_at g, g_id g)) gs"

definition mem_Put :: "time \<Rightarrow> grant \<Rightarrow> memory_store \<Rightarrow> (store_error, unit) result \<times> memory_store" where
  "mem_Put now g s = (Inr (), set_state (g_state g) (AList.update (g_id g) g (prune now (g_state g) s)) s)"

text \<open>The loop of \<open>AddPending\<close>: a request for the same kit, or how many other requests the subject has.\<close>

fun scan_pending :: "grant_subject_id \<Rightarrow> string \<Rightarrow> nat \<Rightarrow> (string \<times> grant) list \<Rightarrow> grant + nat" where
  "scan_pending sub kit n [] = Inr n"
| "scan_pending sub kit n ((i, p) # m) =
     (if Subject p \<noteq> sub then scan_pending sub kit n m
      else if g_kit p = kit then Inl p
      else scan_pending sub kit (n + 1) m)"

definition mem_AddPending :: "time \<Rightarrow> grant \<Rightarrow> nat \<Rightarrow> memory_store \<Rightarrow> (store_error, grant option) result \<times> memory_store" where
  "mem_AddPending now g limit s =
     (let m = prune now StatePending s; s1 = set_state StatePending m s in
      case scan_pending (Subject g) (g_kit g) 0 m of
        Inl p \<Rightarrow> (Inr (Some p), s1)
      | Inr n \<Rightarrow>
          if limit \<le> n then (Inl ErrLimit, s1)
          else (Inr None, set_state StatePending (AList.update (g_id g) g m) s))"

definition mem_Get :: "time \<Rightarrow> grant_state \<Rightarrow> string \<Rightarrow> memory_store \<Rightarrow> (store_error, grant) result \<times> memory_store" where
  "mem_Get now st i s =
     (let m = prune now st s; s1 = set_state st m s in
      case map_of m i of None \<Rightarrow> (Inl ErrNotFound, s1) | Some g \<Rightarrow> (Inr g, s1))"

definition mem_Take :: "time \<Rightarrow> grant_state \<Rightarrow> string \<Rightarrow> memory_store \<Rightarrow> (store_error, grant) result \<times> memory_store" where
  "mem_Take now st i s =
     (let m = prune now st s in
      case map_of m i of
        None \<Rightarrow> (Inl ErrNotFound, set_state st m s)
      | Some g \<Rightarrow> (Inr g, set_state st (AList.delete i m) s))"

definition mem_ForSubject :: "time \<Rightarrow> grant_state \<Rightarrow> grant_subject_id \<Rightarrow> memory_store \<Rightarrow> (store_error, grant list) result \<times> memory_store" where
  "mem_ForSubject now st sub s =
     (let m = prune now st s in
      (Inr (sortGrants (filter (\<lambda>g. Subject g = sub) (map snd m))), set_state st m s))"

definition mem_List :: "time \<Rightarrow> grant_state \<Rightarrow> memory_store \<Rightarrow> (store_error, grant list) result \<times> memory_store" where
  "mem_List now st s = (let m = prune now st s in (Inr (sortGrants (map snd m)), set_state st m s))"

definition memory_ops :: "memory_store store_ops" where
  "memory_ops = \<lparr>st_put = mem_Put, st_add_pending = mem_AddPending, st_get = mem_Get, st_take = mem_Take,
     st_for_subject = mem_ForSubject, st_list = mem_List\<rparr>"

subsection \<open>It satisfies the contract\<close>

definition memory_valid :: "memory_store \<Rightarrow> bool" where
  "memory_valid s \<longleftrightarrow> (\<forall>st. distinct (map fst (by_state s st)) \<and>
     (\<forall>(i, g) \<in> set (by_state s st). g_id g = i \<and> g_state g = st))"

definition memory_content :: "memory_store \<Rightarrow> grants_view" where
  "memory_content s st = map_of (by_state s st)"

lemma by_state_set_state [simp]: "by_state (set_state st m s) st' = (if st' = st then m else by_state s st')"
  by (simp add: set_state_def)

lemma prune_facts:
  assumes "memory_valid s"
  shows "distinct (map fst (prune t st s))" "\<forall>(i, g) \<in> set (prune t st s). g_id g = i \<and> g_state g = st \<and> t < g_expires_at g"
    "map_of (prune t st s) = live_at t (memory_content s) st"
proof -
  have d: "distinct (map fst (by_state s st))" using assms by (simp add: memory_valid_def)
  then show "distinct (map fst (prune t st s))" by (simp add: prune_def distinct_filter_keys)
  show "\<forall>(i, g) \<in> set (prune t st s). g_id g = i \<and> g_state g = st \<and> t < g_expires_at g"
    using assms by (auto simp: memory_valid_def prune_def)
  show "map_of (prune t st s) = live_at t (memory_content s) st"
    using map_of_filter_distinct [OF d, of "\<lambda>g. t < g_expires_at g"]
    by (auto simp: prune_def live_at_def memory_content_def fun_eq_iff)
qed

text \<open>Replacing one state's map by a valid one keeps the store valid; what it holds from then on.\<close>

lemma set_state_valid:
  "memory_valid s \<Longrightarrow> distinct (map fst m) \<Longrightarrow> \<forall>(i, g) \<in> set m. g_id g = i \<and> g_state g = st \<Longrightarrow> memory_valid (set_state st m s)"
  by (simp add: memory_valid_def)

lemma memory_content_set_state: "memory_content (set_state st m s) = (memory_content s)(st := map_of m)"
  by (auto simp: memory_content_def fun_eq_iff)

lemma pruned_store:
  assumes "memory_valid s"
  shows "memory_valid (set_state st (prune t st s) s)" "same_from t (memory_content (set_state st (prune t st s) s)) (memory_content s)"
proof -
  show "memory_valid (set_state st (prune t st s) s)"
    by (rule set_state_valid [OF assms]) (use prune_facts(1,2) [OF assms, of t st] in \<open>auto\<close>)
  show "same_from t (memory_content (set_state st (prune t st s) s)) (memory_content s)"
    unfolding memory_content_set_state prune_facts(3) [OF assms] same_from_def
    by (auto simp: fun_eq_iff live_at_def split: option.splits)
qed

lemma inserted_store:
  assumes "memory_valid s" "g_state g = st"
  shows "memory_valid (set_state st (AList.update (g_id g) g (prune t st s)) s)"
    "same_from t (memory_content (set_state st (AList.update (g_id g) g (prune t st s)) s)) (view_upd st (g_id g) (Some g) (memory_content s))"
proof -
  show "memory_valid (set_state st (AList.update (g_id g) g (prune t st s)) s)"
    by (rule set_state_valid [OF assms(1)])
      (use prune_facts(1,2) [OF assms(1), of t st] assms(2) in \<open>auto simp: distinct_update set_update_distinct\<close>)
  show "same_from t (memory_content (set_state st (AList.update (g_id g) g (prune t st s)) s)) (view_upd st (g_id g) (Some g) (memory_content s))"
    unfolding memory_content_set_state update_conv' prune_facts(3) [OF assms(1)] same_from_def
    by (auto simp: fun_eq_iff live_at_def view_upd_def split: option.splits)
qed

lemma deleted_store:
  assumes "memory_valid s"
  shows "memory_valid (set_state st (AList.delete i (prune t st s)) s)"
    "same_from t (memory_content (set_state st (AList.delete i (prune t st s)) s)) (view_upd st i None (memory_content s))"
proof -
  show "memory_valid (set_state st (AList.delete i (prune t st s)) s)"
    by (rule set_state_valid [OF assms])
      (use prune_facts(1,2) [OF assms, of t st] in \<open>auto simp: distinct_delete_keys set_delete_alist\<close>)
  show "same_from t (memory_content (set_state st (AList.delete i (prune t st s)) s)) (view_upd st i None (memory_content s))"
    unfolding memory_content_set_state delete_conv' prune_facts(3) [OF assms] same_from_def
    by (auto simp: fun_eq_iff live_at_def view_upd_def split: option.splits)
qed

lemma scan_pending_result:
  "scan_pending sub kit n m =
     (case find_first (\<lambda>(i, p). Subject p = sub \<and> g_kit p = kit) m of
        Some (i, p) \<Rightarrow> Inl p
      | None \<Rightarrow> Inr (n + length (filter (\<lambda>(i, p). Subject p = sub) m)))"
  by (induction sub kit n m rule: scan_pending.induct) (auto split: option.splits)

lemma pruned_grants:
  assumes "memory_valid s"
  shows "set (map snd (prune t st s)) = {g. \<exists>i. live_at t (memory_content s) st i = Some g}"
    "set (filter (\<lambda>g. Subject g = sub) (map snd (prune t st s))) = of_subject (live_at t (memory_content s)) st sub"
    "distinct (map snd (prune t st s))"
proof -
  have d: "distinct (map fst (prune t st s))" and ids: "\<forall>(i, g) \<in> set (prune t st s). g_id g = i"
    using prune_facts [OF assms, of t st] by auto
  show a: "set (map snd (prune t st s)) = {g. \<exists>i. live_at t (memory_content s) st i = Some g}"
    unfolding prune_facts(3) [OF assms, symmetric] using d by (force simp: map_of_eq_Some_iff)
  show "set (filter (\<lambda>g. Subject g = sub) (map snd (prune t st s))) = of_subject (live_at t (memory_content s)) st sub"
    using a by (auto simp: of_subject_def)
  have "inj_on snd (set (prune t st s))" 
  proof (rule inj_onI)
    fix x y assume xy: "x \<in> set (prune t st s)" "y \<in> set (prune t st s)" and eq: "snd x = snd y"
    have "g_id (snd x) = fst x" using ids xy(1) by (simp add: case_prod_unfold)
    moreover have "g_id (snd y) = fst y" using ids xy(2) by (simp add: case_prod_unfold)
    ultimately show "x = y" using eq by (simp add: prod_eq_iff)
  qed
  moreover have "distinct (prune t st s)" using d by (simp add: distinct_map)
  ultimately show "distinct (map snd (prune t st s))" by (simp add: distinct_map)
qed

lemma pruned_count:
  assumes "memory_valid s"
  shows "length (filter (\<lambda>(i, p). Subject p = sub) (prune t st s)) = card (of_subject (live_at t (memory_content s)) st sub)"
proof -
  have "length (filter (\<lambda>(i, p). Subject p = sub) (prune t st s)) = length (filter (\<lambda>g. Subject g = sub) (map snd (prune t st s)))"
    by (simp add: filter_map comp_def case_prod_unfold)
  also have "\<dots> = card (set (filter (\<lambda>g. Subject g = sub) (map snd (prune t st s))))"
    using pruned_grants(3) [OF assms] by (metis distinct_card distinct_filter)
  finally show ?thesis using pruned_grants(2) [OF assms] by simp
qed

lemma mem_AddPending_law:
  assumes v: "memory_valid s" and g: "g_state g = StatePending" and r: "mem_AddPending t g limit s = (ra, s')"
  shows "memory_valid s' \<and>
    (let held = of_subject (live_at t (memory_content s)) StatePending (Subject g) in
       if \<exists>p \<in> held. g_kit p = g_kit g
       then same_from t (memory_content s') (memory_content s) \<and> (\<exists>p \<in> held. g_kit p = g_kit g \<and> ra = Inr (Some p))
       else if limit \<le> card held
       then same_from t (memory_content s') (memory_content s) \<and> ra = Inl ErrLimit
       else same_from t (memory_content s') (view_upd StatePending (g_id g) (Some g) (memory_content s)) \<and> ra = Inr None)"
proof -
  let ?m = "prune t StatePending s" and ?held = "of_subject (live_at t (memory_content s)) StatePending (Subject g)"
  have held: "p \<in> ?held \<longleftrightarrow> (\<exists>i. (i, p) \<in> set ?m) \<and> Subject p = Subject g" for p
    unfolding pruned_grants(2) [OF v, symmetric] by force
  show ?thesis
  proof (cases "find_first (\<lambda>(i, p). Subject p = Subject g \<and> g_kit p = g_kit g) ?m")
    case (Some ip)
    then obtain i p where ip: "ip = (i, p)" "(i, p) \<in> set ?m" "Subject p = Subject g" "g_kit p = g_kit g"
      by (cases ip) (auto dest: find_first_Some)
    with Some r have "ra = Inr (Some p)" "s' = set_state StatePending ?m s"
      by (simp_all add: mem_AddPending_def scan_pending_result Let_def)
    moreover have "p \<in> ?held" using held ip by blast
    ultimately show ?thesis using pruned_store [OF v] ip(4) by (auto simp: Let_def)
  next
    case None
    then have none: "\<forall>(i, p) \<in> set ?m. \<not> (Subject p = Subject g \<and> g_kit p = g_kit g)"
      unfolding find_first_None by (simp add: case_prod_unfold)
    have "\<forall>p \<in> ?held. g_kit p \<noteq> g_kit g"
    proof
      fix p assume "p \<in> ?held"
      then obtain i where "(i, p) \<in> set ?m" "Subject p = Subject g" using held by blast
      with none show "g_kit p \<noteq> g_kit g" by auto
    qed
    with None r inserted_store [OF v g, of t] pruned_store [OF v, where st = StatePending and t = t] pruned_count [OF v, of "Subject g" t StatePending]
    show ?thesis
      by (auto simp: mem_AddPending_def scan_pending_result Let_def split: if_splits)
  qed
qed

interpretation memory: grant_store memory_ops memory_valid memory_content
proof
  fix s :: memory_store and st i g
  assume v: "memory_valid s"
  show "memory_content s st i = Some g \<Longrightarrow> g_id g = i \<and> g_state g = st"
    using v map_of_SomeD [of "by_state s st" i g] by (fastforce simp: memory_content_def memory_valid_def)
  show "finite {i. memory_content s st i \<noteq> None}"
    using finite_dom_map_of [of "by_state s st"] by (simp add: memory_content_def dom_def)
next
  fix s s' :: memory_store and t g rp
  assume "memory_valid s" "st_put memory_ops t g s = (rp, s')"
  then show "memory_valid s' \<and> rp = Inr () \<and> same_from t (memory_content s') (view_upd (g_state g) (g_id g) (Some g) (memory_content s))"
    using inserted_store [where s = s and g = g and st = "g_state g" and t = t] by (auto simp: memory_ops_def mem_Put_def)
next
  fix s s' :: memory_store and t st i rg
  assume "memory_valid s" "st_get memory_ops t st i s = (rg, s')"
  then show "memory_valid s' \<and> same_from t (memory_content s') (memory_content s) \<and>
      rg = (case live_at t (memory_content s) st i of None \<Rightarrow> Inl ErrNotFound | Some g \<Rightarrow> Inr g)"
    using pruned_store [where s = s and st = st and t = t] prune_facts(3) [where s = s and st = st and t = t]
    by (auto simp: memory_ops_def mem_Get_def Let_def split: option.splits)
next
  fix s s' :: memory_store and t st i rt
  assume v: "memory_valid s" and r: "st_take memory_ops t st i s = (rt, s')"
  show "memory_valid s' \<and> same_from t (memory_content s') (view_upd st i None (memory_content s)) \<and>
      rt = (case live_at t (memory_content s) st i of None \<Rightarrow> Inl ErrNotFound | Some g \<Rightarrow> Inr g)"
  proof (cases "live_at t (memory_content s) st i")
    case None
    then have "same_from t (memory_content s) (view_upd st i None (memory_content s))"
      by (auto simp: same_from_def live_at_upd view_upd_get fun_eq_iff)
    with None v r pruned_store [OF v, where st = st and t = t] prune_facts(3) [OF v, where st = st and t = t] show ?thesis
      by (auto simp: memory_ops_def mem_Take_def Let_def intro: same_from_trans)
  next
    case (Some g)
    with v r deleted_store [OF v, where st = st and i = i and t = t] prune_facts(3) [OF v, where st = st and t = t] show ?thesis
      by (auto simp: memory_ops_def mem_Take_def Let_def)
  qed
next
  fix s s' :: memory_store and t st sub rf
  assume "memory_valid s" "st_for_subject memory_ops t st sub s = (rf, s')"
  then show "memory_valid s' \<and> same_from t (memory_content s') (memory_content s) \<and>
      (\<exists>gs. rf = Inr gs \<and> distinct gs \<and> set gs = of_subject (live_at t (memory_content s)) st sub)"
    using pruned_store [where s = s and st = st and t = t] pruned_grants [where s = s and st = st and t = t]
    by (auto simp: memory_ops_def mem_ForSubject_def Let_def sortGrants_def)
next
  fix s s' :: memory_store and t st rl
  assume "memory_valid s" "st_list memory_ops t st s = (rl, s')"
  then show "memory_valid s' \<and> same_from t (memory_content s') (memory_content s) \<and>
      (\<exists>gs. rl = Inr gs \<and> distinct gs \<and> set gs = {g. \<exists>i. live_at t (memory_content s) st i = Some g})"
    using pruned_store [where s = s and st = st and t = t] pruned_grants [where s = s and st = st and t = t]
    by (auto simp: memory_ops_def mem_List_def Let_def sortGrants_def)
qed (use mem_AddPending_law in \<open>simp add: memory_ops_def\<close>)

lemma NewMemoryStore_valid: "memory_valid NewMemoryStore" "memory_content NewMemoryStore st i = None"
  by (simp_all add: memory_valid_def NewMemoryStore_def memory_content_def)

end
