(* ===== verification/GrantText.thy ===== *)
theory GrantText
  imports GrantStore
begin

text \<open>
  Text and durations of requests (\<open>internal/grants/service.go\<close>): the reduction of a caller's words to
  one plain line, the bounds on their length, and how long a kit is granted for.
\<close>

section \<open>Plain lines\<close>

definition clean_rune :: "rune \<Rightarrow> rune option" where
  "clean_rune c =
     (if c = 10 \<or> c = 9 then Some 32
      else if is_control c \<or> is_format c \<or> c = rune_error then None
      else Some c)"

definition cleanText :: "string \<Rightarrow> string" where
  "cleanText s = join (str_fields (of_runes (List.map_filter clean_rune (runes s)))) '' ''"

definition truncateRunes :: "string \<Rightarrow> nat \<Rightarrow> string" where
  "truncateRunes s n = (if length (runes s) \<le> n then s else of_runes (take n (runes s)))"

definition setIfAny :: "(string \<times> string) list \<Rightarrow> string \<Rightarrow> string \<Rightarrow> (string \<times> string) list" where
  "setIfAny md key v = (if v \<noteq> [] then AList.update key v md else md)"

section \<open>Durations of a kit\<close>

definition DefaultTTL :: duration where "DefaultTTL = hour"
definition MaxTTL :: duration where "MaxTTL = KitTTLLimit"
definition RequestTTL :: duration where "RequestTTL = 30 * minute"
definition MaxPending :: nat where "MaxPending = 5"
definition MaxReasonLen :: nat where "MaxReasonLen = 500"
definition MaxCallerNameLen :: nat where "MaxCallerNameLen = 128"
definition maxAuditArgLen :: nat where "maxAuditArgLen = 64"

definition kitMaxTTL :: "kit \<Rightarrow> duration" where
  "kitMaxTTL k = (if kit_ttl_max k > 0 then kit_ttl_max k else MaxTTL)"

definition kitTTL :: "kit \<Rightarrow> duration \<Rightarrow> duration \<times> bool" where
  "kitTTL k d =
     (let limit = kitMaxTTL k in
      if d \<le> 0 then
        (let d1 = kit_ttl_default k; d2 = (if d1 \<le> 0 then DefaultTTL else d1) in (min d2 limit, False))
      else if d > limit then (limit, True)
      else (d, False))"

lemma kitTTL_range: "0 < fst (kitTTL k d) \<and> fst (kitTTL k d) \<le> kitMaxTTL k"
proof -
  have "0 < kitMaxTTL k" "0 < DefaultTTL"
    by (simp_all add: kitMaxTTL_def MaxTTL_def KitTTLLimit_def hour_def DefaultTTL_def)
  then show ?thesis by (auto simp: kitTTL_def Let_def)
qed

text \<open>A kit is granted for a positive time of at most its maximum, whatever was asked for; a
  positive duration up to the maximum is granted as asked, a longer one is cut to the maximum and
  reported as cut, and that is the only case reported.\<close>

theorem kitTTL_bounds:
  "0 < fst (kitTTL k d) \<and> fst (kitTTL k d) \<le> kitMaxTTL k \<and>
   (0 < d \<longrightarrow> fst (kitTTL k d) = min d (kitMaxTTL k)) \<and> (snd (kitTTL k d) \<longleftrightarrow> kitMaxTTL k < d)"
  using kitTTL_range [of k d] by (auto simp: kitTTL_def Let_def)

theorem kitTTL_bounds_witness:
  "fst (kitTTL demo_kit (5 * hour)) = 4 * hour \<and> snd (kitTTL demo_kit (5 * hour)) \<and> fst (kitTTL demo_kit 0) = hour"
  using kitTTL_bounds [of demo_kit "5 * hour"] by (simp add: kitTTL_def demo_kit_def kitMaxTTL_def hour_def)

section \<open>Facts about plain lines\<close>

lemma ascii_in_of_runes: "c \<in> set (of_runes rs) \<Longrightarrow> byte_of c < (128::nat) \<Longrightarrow> byte_of c \<in> set rs"
  using ascii_in_encode_rune by (fastforce simp: of_runes_def)

lemma runs_acc_elements: "ys \<in> set (runs_acc P acc xs) \<Longrightarrow> set ys \<subseteq> set acc \<union> set xs"
  by (induction P acc xs rule: runs_acc.induct) (auto split: if_splits)

lemma str_fields_chars:
  assumes "f \<in> set (str_fields s)" "c \<in> set f"
  shows "c \<in> set s"
proof -
  obtain ps where ps: "ps \<in> set (runs_acc (\<lambda>p. is_space (fst p)) [] (runes_of s))" "c \<in> set (concat (map snd ps))"
    using assms by (auto simp: str_fields_def fields_func_def)
  then have "c \<in> set (concat (map snd (runes_of s)))" using runs_acc_elements by fastforce
  then show ?thesis by (simp only: concat_runes_of)
qed

lemma set_join: "set (join xs sep) \<subseteq> (\<Union>x \<in> set xs. set x) \<union> set sep"
  by (induction xs sep rule: join.induct) auto

text \<open>An ASCII character of a cleaned text is a space or one of the text that is no control character.\<close>

lemma cleanText_ascii:
  assumes "c \<in> set (cleanText s)" "byte_of c < (128::nat)"
  shows "\<not> is_control (byte_of c)"
proof (cases "c = CHR '' ''")
  case True
  then show ?thesis by (simp add: is_control_def)
next
  case False
  then obtain f where "f \<in> set (str_fields (of_runes (List.map_filter clean_rune (runes s))))" "c \<in> set f"
    using assms(1) set_join unfolding cleanText_def by fastforce
  then have "byte_of c \<in> set (List.map_filter clean_rune (runes s))"
    using str_fields_chars ascii_in_of_runes assms(2) by blast
  then show ?thesis
    by (auto simp: List.map_filter_def clean_rune_def is_control_def split: if_splits)
qed

lemma cleanText_no_newline: "CHR 0x0A \<notin> set (cleanText s)"
  using cleanText_ascii [of "CHR 0x0A" s] by (auto simp: is_control_def)

text \<open>A plain name is its own cleaned text.\<close>

lemma runs_acc_single: "acc \<noteq> [] \<or> xs \<noteq> [] \<Longrightarrow> \<forall>x \<in> set xs. \<not> P x \<Longrightarrow> runs_acc P acc xs = [rev acc @ xs]"
  by (induction P acc xs rule: runs_acc.induct) auto

lemma encode_ascii: "n < 128 \<Longrightarrow> encode_rune n = [char_of n]"
  by (simp add: encode_rune_def encode_valid_def valid_rune_def)

lemma cleanText_name:
  assumes "list_all (\<lambda>c. c \<in> set name_chars) s" "s \<noteq> []"
  shows "cleanText s = s"
proof -
  have b: "c \<in> set s \<Longrightarrow> byte_of c < (128::nat) \<and> \<not> must_escape (byte_of c)" for c
    using assms(1) name_char_byte by (auto simp: list_all_iff)
  have r: "runes_of s = map (\<lambda>c. (byte_of c, [c])) s" using b by (intro runes_of_ascii) (auto simp: list_all_iff)
  have plain: "clean_rune (byte_of c) = Some (byte_of c)" if "c \<in> set s" for c
    using b [OF that] by (auto simp: clean_rune_def must_escape_def is_control_def is_format_def rune_error_def)
  have "List.map_filter clean_rune (map byte_of t) = map byte_of t" if "set t \<subseteq> set s" for t
    using that plain by (induction t) (auto simp: List.map_filter_simps)
  then have "List.map_filter clean_rune (runes s) = map byte_of s" by (simp add: runes_def r comp_def)
  moreover have "of_runes (map byte_of t) = t" if "set t \<subseteq> set s" for t
    using that b by (induction t) (auto simp: of_runes_def encode_ascii)
  ultimately have e: "of_runes (List.map_filter clean_rune (runes s)) = s" by simp
  have "str_fields s = [s]"
    unfolding str_fields_def fields_func_def r using b assms(2)
    by (subst runs_acc_single) (auto simp: must_escape_def comp_def)
  then show ?thesis by (simp add: cleanText_def e)
qed

end
