(* ===== verification/Trail.thy ===== *)
theory Trail
  imports Durations
begin

text \<open>
  JSON values as Go's \<open>encoding/json\<close> decodes them into \<open>any\<close>, and audit entries
  (\<open>internal/audit/interface.go\<close>). A number is kept as its literal. An object is an association list.
  The audit trail is the list of the entries handed to the audit store, latest last.
\<close>

datatype json =
    JNull
  | JBool bool
  | JNum string
  | JStr string
  | JArr "json list"
  | JObj "(string \<times> json) list"

datatype modification_target = ModParams | ModResponseContent

datatype gate_phase = PhasePre | PhasePost

record policy_modification =
  pm_policy :: string
  pm_phase :: gate_phase
  pm_target :: modification_target
  pm_before :: json
  pm_after :: json

datatype audit_status = StatusSuccess | StatusError | StatusDenied

record 'e audit_entry =
  ae_trace_id :: string
  ae_timestamp :: time
  ae_user_id :: string
  ae_company_id :: string
  ae_caller_id :: string
  ae_caller_name :: string
  ae_caller_class :: string
  ae_tool :: string
  ae_tool_access :: string
  ae_params :: "(string \<times> json) list"
  ae_duration_ms :: int
  ae_status :: audit_status
  ae_error :: "'e option"
  ae_backend :: string
  ae_metadata :: "(string \<times> string) list"
  ae_modifications :: "policy_modification list"

definition milliseconds :: "duration \<Rightarrow> int" where
  "milliseconds d = (if d < 0 then - ((- d) div 1000000) else d div 1000000)"

end
