(* ===== verification/GrantService.thy ===== *)
theory GrantService
  imports GrantText Approvers Trail
begin

text \<open>
  The lifecycle of kit grants (\<open>internal/grants/service.go\<close>): requests, approvals, denials and
  revocations, the kits a caller holds, and the audit entry of every action. A call of the service
  reads the clock several times and the store has a clock of its own; \<open>clk n\<close> is the \<open>n\<close>th reading
  of a call. Configured kits and approvers do not change within a call.
\<close>

section \<open>Configuration, errors, state\<close>

record service_env =
  sv_kits :: "kit list"
  sv_approvers :: "approver list"
  sv_public_url :: string
  sv_audit :: bool

datatype invalid_reason =
    NotAuthenticated
  | NoKitNamed
  | NoSuchKit string
  | NoApprover
  | NoReason
  | ReasonTooLong
  | BadTTL string
  | PendingLimit
  | KitUndefined string string
  | NegativeTTL
  | TTLOverMax duration duration string
  | PartInvalid kit_error
  | NoSigner string
  | SignatureInvalid string

datatype service_error =
    ErrInvalid invalid_reason
  | ErrForbidden string string
  | NotPending string
  | NotActive string
  | NoGrant string
  | RandomFailed
  | StoreErr store_error

text \<open>What \<open>errors.Is(err, ErrInvalid)\<close> reports: also an approval outside the approver's scope.\<close>

fun counts_as_invalid :: "service_error \<Rightarrow> bool" where
  "counts_as_invalid (ErrInvalid _) = True"
| "counts_as_invalid (ErrForbidden _ _) = True"
| "counts_as_invalid _ = False"

type_synonym grant_entry = "service_error audit_entry"

record 's service_state =
  ss_store :: 's
  ss_trail :: "grant_entry list"

definition service_kit :: "service_env \<Rightarrow> string \<Rightarrow> kit option" where
  "service_kit env name = find_first (\<lambda>k. kit_name k = name) (sv_kits env)"

definition HasApprovers :: "service_env \<Rightarrow> bool" where
  "HasApprovers env \<longleftrightarrow> sv_approvers env \<noteq> []"

definition Signers :: "case_tables \<Rightarrow> service_env \<Rightarrow> approver list" where
  "Signers ct env = filter (\<lambda>a. SigningAddress ct a \<noteq> None) (sv_approvers env)"

definition ApprovePathPrefix :: string where "ApprovePathPrefix = ''/approve''"

definition ApprovalURL :: "case_tables \<Rightarrow> service_env \<Rightarrow> string \<Rightarrow> string" where
  "ApprovalURL ct env i =
     (if sv_public_url env = [] \<or> Signers ct env = [] then []
      else sv_public_url env @ ApprovePathPrefix @ ''/'' @ i)"

text \<open>The last entry whose key matches: the loop compares every entry.\<close>

definition key_approver :: "service_env \<Rightarrow> string \<Rightarrow> approver option" where
  "key_approver env key =
     (if key = [] then None
      else (let got = hex_encode (sha256 (bytes_of key)) in
            foldl (\<lambda>found a. if got = ap_key_sha256 a then Some a else found) None (sv_approvers env)))"

definition checkScope :: "service_env \<Rightarrow> string \<Rightarrow> string \<Rightarrow> service_error option" where
  "checkScope env approver kit =
     map_option (\<lambda>a. ErrForbidden (ap_name a) kit)
       (find_first (\<lambda>a. ap_name a = approver \<and> \<not> MayApprove a kit) (sv_approvers env))"

section \<open>Audit entries\<close>

text \<open>\<open>entry\<close> for a grant, or for the id alone when there is no grant.\<close>

definition entry_metadata :: "string \<Rightarrow> grant option \<Rightarrow> (string \<times> string) list" where
  "entry_metadata i go =
     (case go of
        None \<Rightarrow> [(''grant_id'', i)]
      | Some g \<Rightarrow>
          (let md = [(''grant_id'', g_id g)];
               md1 = setIfAny md ''kit'' (g_kit g);
               md2 = (case g_part g of None \<Rightarrow> md1
                      | Some p \<Rightarrow> setIfAny (setIfAny md1 ''part_grants'' (join (gp_grants p) '',''))
                                    ''part_tools'' (join (gp_tools p) '',''));
               md3 = (if g_ttl g > 0 then AList.update ''ttl'' (FormatTTL (g_ttl g)) md2 else md2)
           in AList.update ''expires_at'' (format_rfc3339 (g_expires_at g)) md3))"

definition service_entry :: "string \<Rightarrow> string \<Rightarrow> time \<Rightarrow> string \<Rightarrow> grant option \<Rightarrow> grant_entry" where
  "service_entry trace action start i go =
     \<lparr>ae_trace_id = trace, ae_timestamp = start,
      ae_user_id = (case go of None \<Rightarrow> [] | Some g \<Rightarrow> g_user_id g),
      ae_company_id = (case go of None \<Rightarrow> [] | Some g \<Rightarrow> g_company_id g),
      ae_caller_id = (case go of None \<Rightarrow> [] | Some g \<Rightarrow> g_caller_id g),
      ae_caller_name = (case go of None \<Rightarrow> [] | Some g \<Rightarrow> g_caller_name g),
      ae_caller_class = [], ae_tool = action, ae_tool_access = [], ae_params = [], ae_duration_ms = 0,
      ae_status = StatusSuccess, ae_error = None, ae_backend = ''toolmesh'',
      ae_metadata = entry_metadata i go, ae_modifications = []\<rparr>"

definition add_md :: "string \<Rightarrow> string \<Rightarrow> grant_entry \<Rightarrow> grant_entry" where
  "add_md key v e = e\<lparr>ae_metadata := AList.update key v (ae_metadata e)\<rparr>"

definition service_record :: "service_env \<Rightarrow> time \<Rightarrow> grant_entry \<Rightarrow> service_error option \<Rightarrow> grant_entry list \<Rightarrow> grant_entry list" where
  "service_record env now e err trail =
     (if \<not> sv_audit env then trail
      else trail @ [e\<lparr>ae_duration_ms := milliseconds (now - ae_timestamp e),
                      ae_status := (if err = None then StatusSuccess else StatusError), ae_error := err\<rparr>])"

section \<open>Requests\<close>

record request_input =
  ri_kit :: string
  ri_reason :: string
  ri_ttl :: string
  ri_coverage :: "entry_coverage list"

record request_result =
  rr_grant :: "grant option"
  rr_existing :: bool
  rr_capped :: bool
  rr_held_until :: "time option"

definition cleanReason :: "string \<Rightarrow> (service_error, string) result" where
  "cleanReason r =
     (let r' = cleanText r in
      if r' = [] then Inl (ErrInvalid NoReason)
      else if length (runes r') > MaxReasonLen then Inl (ErrInvalid ReasonTooLong)
      else Inr r')"

text \<open>What is checked before the store is asked: the kit, the reason and the duration.\<close>

definition check_request :: "(nat \<Rightarrow> nat \<Rightarrow> nat \<Rightarrow> nat) \<Rightarrow> service_env \<Rightarrow> user_context option \<Rightarrow> request_input
    \<Rightarrow> (service_error, user_context \<times> kit \<times> string \<times> duration \<times> bool) result" where
  "check_request fr env uco inp =
     (case uco of
        None \<Rightarrow> Inl (ErrInvalid NotAuthenticated)
      | Some uc \<Rightarrow>
          if \<not> uc_authenticated uc \<or> uc_user_id uc = [] then Inl (ErrInvalid NotAuthenticated)
          else (let name = trim_space (ri_kit inp) in
            if name = [] then Inl (ErrInvalid NoKitNamed)
            else (case service_kit env name of
                    None \<Rightarrow> Inl (ErrInvalid (NoSuchKit name))
                  | Some k \<Rightarrow>
                      if \<not> HasApprovers env then Inl (ErrInvalid NoApprover)
                      else bind_res (cleanReason (ri_reason inp)) (\<lambda>reason.
                        case ParseTTL fr (ri_ttl inp) of
                          None \<Rightarrow> Inl (ErrInvalid (BadTTL (ri_ttl inp)))
                        | Some asked \<Rightarrow> (let (ttl, capped) = kitTTL k asked in Inr (uc, k, reason, ttl, capped))))))"

definition held_until :: "string \<Rightarrow> grant list \<Rightarrow> time option" where
  "held_until kit active =
     foldl (\<lambda>u g. if g_kit g = kit \<and> (case u of None \<Rightarrow> True | Some t \<Rightarrow> t < g_expires_at g)
                  then Some (g_expires_at g) else u) None active"

definition new_pending :: "user_context \<Rightarrow> kit \<Rightarrow> string \<Rightarrow> duration \<Rightarrow> entry_coverage list \<Rightarrow> string \<Rightarrow> string \<Rightarrow> time \<Rightarrow> grant" where
  "new_pending uc k reason ttl cov i nonce now =
     \<lparr>g_id = i, g_state = StatePending, g_kit = kit_name k, g_user_id = uc_user_id uc, g_caller_id = uc_caller_id uc,
      g_caller_name = truncateRunes (cleanText (uc_caller_name uc)) MaxCallerNameLen, g_company_id = uc_company_id uc,
      g_grant_key = uc_grant_key uc, g_reason = reason, g_ttl = ttl, g_requested_at = now, g_nonce = nonce,
      g_coverage = cov, g_approved_by = [], g_approved_at = 0, g_approved_with = None, g_part = None,
      g_expires_at = now + RequestTTL\<rparr>"

definition request_grant :: "(nat \<Rightarrow> nat \<Rightarrow> nat \<Rightarrow> nat) \<Rightarrow> 's store_ops \<Rightarrow> service_env \<Rightarrow> (nat \<Rightarrow> time) \<Rightarrow> byte list option \<Rightarrow> byte list option
    \<Rightarrow> user_context option \<Rightarrow> request_input \<Rightarrow> 's \<Rightarrow> (service_error, request_result) result \<times> 's" where
  "request_grant fr ops env clk rnd_id rnd_nonce uco inp s =
     (case check_request fr env uco inp of
        Inl e \<Rightarrow> (Inl e, s)
      | Inr (uc, k, reason, ttl, capped) \<Rightarrow>
          (case st_for_subject ops (clk 1) StateActive \<lparr>sub_user_id = uc_user_id uc, sub_binding = GrantBinding uc\<rparr> s of
             (Inl e, s1) \<Rightarrow> (Inl (StoreErr e), s1)
           | (Inr active, s1) \<Rightarrow>
               (case (rnd_id, rnd_nonce) of
                  (Some ib, Some nb) \<Rightarrow>
                    (let g = new_pending uc k reason ttl (ri_coverage inp) (newID ib) (newNonce nb) (clk 2);
                         res = \<lparr>rr_grant = Some g, rr_existing = False, rr_capped = capped,
                                rr_held_until = held_until (kit_name k) active\<rparr>
                     in case st_add_pending ops (clk 3) g MaxPending s1 of
                          (Inl ErrLimit, s2) \<Rightarrow> (Inl (ErrInvalid PendingLimit), s2)
                        | (Inl e, s2) \<Rightarrow> (Inl (StoreErr e), s2)
                        | (Inr (Some p), s2) \<Rightarrow> (Inr (res\<lparr>rr_grant := Some p, rr_existing := True, rr_capped := False\<rparr>), s2)
                        | (Inr None, s2) \<Rightarrow> (Inr res, s2))
                | _ \<Rightarrow> (Inl RandomFailed, s1))))"

text \<open>The entry of a request names what was asked for, cleaned and bounded, also when it failed.\<close>

definition request_entry :: "string \<Rightarrow> time \<Rightarrow> user_context option \<Rightarrow> request_input \<Rightarrow> (service_error, request_result) result \<Rightarrow> grant_entry" where
  "request_entry trace start uco inp r =
     (let g = (case r of Inl _ \<Rightarrow> None | Inr res \<Rightarrow> rr_grant res);
          e = service_entry trace ''request_grant'' start [] g;
          e1 = (case uco of None \<Rightarrow> e
                | Some uc \<Rightarrow> e\<lparr>ae_user_id := uc_user_id uc, ae_company_id := uc_company_id uc, ae_caller_id := uc_caller_id uc,
                      ae_caller_name := uc_caller_name uc, ae_caller_class := uc_caller_class uc\<rparr>);
          md = ae_metadata e1;
          md1 = (if map_of md ''kit'' = None then setIfAny md ''kit'' (truncateRunes (cleanText (ri_kit inp)) maxAuditArgLen) else md);
          md2 = setIfAny md1 ''reason'' (truncateRunes (cleanText (ri_reason inp)) MaxReasonLen);
          md3 = setIfAny md2 ''ttl_requested'' (truncateRunes (cleanText (ri_ttl inp)) maxAuditArgLen);
          md4 = (case r of Inr res \<Rightarrow> if rr_existing res then AList.update ''existing'' ''true'' md3 else md3 | Inl _ \<Rightarrow> md3)
      in e1\<lparr>ae_params := [(''kit'', JStr (ri_kit inp)), (''reason'', JStr (ri_reason inp)), (''ttl'', JStr (ri_ttl inp))],
            ae_metadata := md4\<rparr>)"

definition error_of :: "('e, 'a) result \<Rightarrow> 'e option" where
  "error_of r = (case r of Inl e \<Rightarrow> Some e | Inr _ \<Rightarrow> None)"

definition Request :: "(nat \<Rightarrow> nat \<Rightarrow> nat \<Rightarrow> nat) \<Rightarrow> 's store_ops \<Rightarrow> service_env \<Rightarrow> (nat \<Rightarrow> time) \<Rightarrow> string \<Rightarrow> byte list option \<Rightarrow> byte list option
    \<Rightarrow> user_context option \<Rightarrow> request_input \<Rightarrow> 's service_state \<Rightarrow> (service_error, request_result) result \<times> 's service_state" where
  "Request fr ops env clk trace rnd_id rnd_nonce uco inp st =
     (let (r, s) = request_grant fr ops env clk rnd_id rnd_nonce uco inp (ss_store st);
          e = request_entry trace (clk 0) uco inp r
      in (r, \<lparr>ss_store = s, ss_trail = service_record env (clk 4) e (error_of r) (ss_trail st)\<rparr>))"

section \<open>Approvals\<close>

record approval =
  av_ttl :: duration
  av_grants :: "string list"
  av_tools :: "string list"

definition kitPart :: "grant_part \<Rightarrow> string \<Rightarrow> kit_part" where
  "kitPart p kit = \<lparr>part_kit = kit, part_grants = gp_grants p, part_tools = gp_tools p\<rparr>"

definition resolveApproval :: "kit \<Rightarrow> grant \<Rightarrow> approval \<Rightarrow> (service_error, duration \<times> grant_part option) result" where
  "resolveApproval k req a =
     (if av_ttl a < 0 then Inl (ErrInvalid NegativeTTL)
      else (let (ttl, over) = kitTTL k (if av_ttl a = 0 then g_ttl req else av_ttl a) in
        if over \<and> av_ttl a > g_ttl req then Inl (ErrInvalid (TTLOverMax (av_ttl a) ttl (kit_name k)))
        else if av_grants a = [] \<and> av_tools a = [] then Inr (ttl, None)
        else (case Part k (av_grants a) (av_tools a) of
                Inl e \<Rightarrow> Inl (ErrInvalid (PartInvalid e))
              | Inr p \<Rightarrow> Inr (ttl, Some \<lparr>gp_grants = part_grants p, gp_tools = part_tools p\<rparr>))))"

definition notPending :: "string \<Rightarrow> store_error \<Rightarrow> service_error" where
  "notPending i e = (if e = ErrNotFound then NotPending i else StoreErr e)"

text \<open>The loop that takes the grants a new one replaces; a failure is logged.\<close>

fun remove_replaced :: "'s store_ops \<Rightarrow> (nat \<Rightarrow> time) \<Rightarrow> grant \<Rightarrow> grant list \<Rightarrow> 's \<Rightarrow> 's" where
  "remove_replaced ops clk g [] s = s"
| "remove_replaced ops clk g (old # held) s =
     remove_replaced ops (\<lambda>n. clk (Suc n)) g held
       (if g_kit old = g_kit g \<and> g_id old \<noteq> g_id g then snd (st_take ops (clk 0) StateActive (g_id old) s) else s)"

definition active_grant :: "grant \<Rightarrow> duration \<Rightarrow> grant_part option \<Rightarrow> string \<Rightarrow> approved_with \<Rightarrow> time \<Rightarrow> grant" where
  "active_grant req ttl part approver how now =
     req\<lparr>g_state := StateActive, g_ttl := ttl, g_part := part, g_approved_by := approver,
         g_approved_with := Some how, g_approved_at := now, g_expires_at := now + ttl\<rparr>"

text \<open>What is decided before the request is taken: the duration and the entries granted.\<close>

definition decide_approval :: "service_env \<Rightarrow> string \<Rightarrow> string \<Rightarrow> approval \<Rightarrow> approved_with \<Rightarrow> grant
    \<Rightarrow> (service_error, duration \<times> grant_part option) result" where
  "decide_approval env approver i a how req =
     (case service_kit env (g_kit req) of
        None \<Rightarrow> Inl (ErrInvalid (KitUndefined (g_kit req) i))
      | Some k \<Rightarrow>
          (case checkScope env approver (kit_name k) of
             Some e \<Rightarrow> Inl e
           | None \<Rightarrow>
               bind_res (resolveApproval k req a) (\<lambda>(ttl, part).
                 Inr (ttl, case part of
                   None \<Rightarrow> None
                 | Some p \<Rightarrow> if how = ApprovedWithKey \<and> IsWhole k (kitPart p (kit_name k)) then None else Some p))))"

text \<open>\<open>approve\<close>: the grant or the error, the latter with the request or grant it came with.\<close>

definition approve :: "'s store_ops \<Rightarrow> service_env \<Rightarrow> (nat \<Rightarrow> time) \<Rightarrow> string \<Rightarrow> string \<Rightarrow> approval \<Rightarrow> approved_with \<Rightarrow> 's
    \<Rightarrow> ((service_error \<times> grant option) + grant) \<times> 's" where
  "approve ops env clk approver i a how s =
     (case st_get ops (clk 1) StatePending i s of
        (Inl e, s1) \<Rightarrow> (Inl (notPending i e, None), s1)
      | (Inr req, s1) \<Rightarrow>
          (case decide_approval env approver i a how req of
             Inl e \<Rightarrow> (Inl (e, Some req), s1)
           | Inr (ttl, part) \<Rightarrow>
               (case st_take ops (clk 2) StatePending i s1 of
                  (Inl e, s2) \<Rightarrow> (Inl (notPending i e, None), s2)
                | (Inr req', s2) \<Rightarrow>
                    (let g = active_grant req' ttl part approver how (clk 3) in
                     case st_for_subject ops (clk 4) StateActive (Subject g) s2 of
                       (Inl e, s3) \<Rightarrow> (Inl (StoreErr e, Some g), s3)
                     | (Inr held, s3) \<Rightarrow>
                         (case st_put ops (clk 5) g s3 of
                            (Inl e, s4) \<Rightarrow> (Inl (StoreErr e, Some g), s4)
                          | (Inr _, s4) \<Rightarrow> (Inr g, remove_replaced ops (\<lambda>n. clk (6 + n)) g held s4))))))"

definition approve_outcome :: "((service_error \<times> grant option) + grant) \<Rightarrow> (service_error, grant) result" where
  "approve_outcome r = (case r of Inl (e, _) \<Rightarrow> Inl e | Inr g \<Rightarrow> Inr g)"

definition approve_grant :: "((service_error \<times> grant option) + grant) \<Rightarrow> grant option" where
  "approve_grant r = (case r of Inl (_, g) \<Rightarrow> g | Inr g \<Rightarrow> Some g)"

text \<open>The entry of an approval names the approver, how it was given and what the caller adds.\<close>

definition approval_entry :: "string \<Rightarrow> time \<Rightarrow> string \<Rightarrow> string \<Rightarrow> approved_with \<Rightarrow> (string \<times> string) list
    \<Rightarrow> ((service_error \<times> grant option) + grant) \<Rightarrow> grant_entry" where
  "approval_entry trace start approver i how md r =
     foldl (\<lambda>e (k, v). add_md k v e)
       (add_md ''approved_with'' (case how of ApprovedWithKey \<Rightarrow> ''key'' | ApprovedWithSignature \<Rightarrow> ''signature'')
         (add_md ''approver'' approver (service_entry trace ''grant_approve'' start i (approve_grant r)))) md"

text \<open>\<open>fin\<close> is the reading after the last one of \<open>approve\<close>.\<close>

definition approveAudited :: "'s store_ops \<Rightarrow> service_env \<Rightarrow> (nat \<Rightarrow> time) \<Rightarrow> time \<Rightarrow> string \<Rightarrow> string \<Rightarrow> string \<Rightarrow> approval \<Rightarrow> approved_with
    \<Rightarrow> (string \<times> string) list \<Rightarrow> 's service_state \<Rightarrow> (service_error, grant) result \<times> 's service_state" where
  "approveAudited ops env clk fin trace approver i a how md st =
     (let (r, s) = approve ops env clk approver i a how (ss_store st)
      in (approve_outcome r,
          \<lparr>ss_store = s, ss_trail = service_record env fin (approval_entry trace (clk 0) approver i how md r)
             (error_of (approve_outcome r)) (ss_trail st)\<rparr>))"

definition ApproveWith :: "'s store_ops \<Rightarrow> service_env \<Rightarrow> (nat \<Rightarrow> time) \<Rightarrow> time \<Rightarrow> string \<Rightarrow> string \<Rightarrow> string \<Rightarrow> approval \<Rightarrow> 's service_state
    \<Rightarrow> (service_error, grant) result \<times> 's service_state" where
  "ApproveWith ops env clk fin trace approver i a st = approveAudited ops env clk fin trace approver i a ApprovedWithKey [] st"

definition Approve :: "'s store_ops \<Rightarrow> service_env \<Rightarrow> (nat \<Rightarrow> time) \<Rightarrow> time \<Rightarrow> string \<Rightarrow> string \<Rightarrow> string \<Rightarrow> duration \<Rightarrow> 's service_state
    \<Rightarrow> (service_error, grant) result \<times> 's service_state" where
  "Approve ops env clk fin trace approver i ttl st =
     ApproveWith ops env clk fin trace approver i \<lparr>av_ttl = ttl, av_grants = [], av_tools = []\<rparr> st"

section \<open>Denials and revocations\<close>

definition end_grant :: "'s store_ops \<Rightarrow> service_env \<Rightarrow> (nat \<Rightarrow> time) \<Rightarrow> string \<Rightarrow> string \<Rightarrow> grant_state \<Rightarrow> string \<Rightarrow> string \<Rightarrow> 's service_state
    \<Rightarrow> (service_error, grant) result \<times> 's service_state" where
  "end_grant ops env clk trace action gs approver i st =
     (let (r, s) = st_take ops (clk 1) gs i (ss_store st);
          r' = (case r of
                  Inr g \<Rightarrow> Inr g
                | Inl e \<Rightarrow> Inl (if e = ErrNotFound then (if gs = StatePending then NotPending i else NotActive i) else StoreErr e));
          go = (case r' of Inr g \<Rightarrow> Some g | Inl _ \<Rightarrow> None);
          e = add_md ''approver'' approver (service_entry trace action (clk 0) i go)
      in (r', \<lparr>ss_store = s, ss_trail = service_record env (clk 2) e (error_of r') (ss_trail st)\<rparr>))"

definition Deny :: "'s store_ops \<Rightarrow> service_env \<Rightarrow> (nat \<Rightarrow> time) \<Rightarrow> string \<Rightarrow> string \<Rightarrow> string \<Rightarrow> 's service_state
    \<Rightarrow> (service_error, grant) result \<times> 's service_state" where
  "Deny ops env clk trace approver i st = end_grant ops env clk trace ''grant_deny'' StatePending approver i st"

definition Revoke :: "'s store_ops \<Rightarrow> service_env \<Rightarrow> (nat \<Rightarrow> time) \<Rightarrow> string \<Rightarrow> string \<Rightarrow> string \<Rightarrow> 's service_state
    \<Rightarrow> (service_error, grant) result \<times> 's service_state" where
  "Revoke ops env clk trace approver i st = end_grant ops env clk trace ''grant_revoke'' StateActive approver i st"

section \<open>Reading\<close>

definition Lookup :: "'s store_ops \<Rightarrow> (nat \<Rightarrow> time) \<Rightarrow> string \<Rightarrow> 's \<Rightarrow> (service_error, grant) result \<times> 's" where
  "Lookup ops clk i s =
     (case st_get ops (clk 0) StatePending i s of
        (Inr g, s1) \<Rightarrow> (Inr g, s1)
      | (Inl e, s1) \<Rightarrow>
          if e \<noteq> ErrNotFound then (Inl (StoreErr e), s1)
          else (case st_get ops (clk 1) StateActive i s1 of
                  (Inr g, s2) \<Rightarrow> (Inr g, s2)
                | (Inl e', s2) \<Rightarrow> (Inl (if e' = ErrNotFound then NoGrant i else StoreErr e'), s2)))"

definition service_List :: "'s store_ops \<Rightarrow> (nat \<Rightarrow> time) \<Rightarrow> 's \<Rightarrow> (service_error, grant list \<times> grant list) result \<times> 's" where
  "service_List ops clk s =
     (case st_list ops (clk 0) StatePending s of
        (Inl e, s1) \<Rightarrow> (Inl (StoreErr e), s1)
      | (Inr pending, s1) \<Rightarrow>
          (case st_list ops (clk 1) StateActive s1 of
             (Inl e, s2) \<Rightarrow> (Inl (StoreErr e), s2)
           | (Inr active, s2) \<Rightarrow> (Inr (pending, active), s2)))"

definition activeFor :: "'s store_ops \<Rightarrow> service_env \<Rightarrow> time \<Rightarrow> string \<Rightarrow> string \<Rightarrow> 's \<Rightarrow> (store_error, grant list) result \<times> 's" where
  "activeFor ops env now user binding s =
     (case st_for_subject ops now StateActive \<lparr>sub_user_id = user, sub_binding = binding\<rparr> s of
        (Inl e, s1) \<Rightarrow> (Inl e, s1)
      | (Inr active, s1) \<Rightarrow> (Inr (filter (\<lambda>g. service_kit env (g_kit g) \<noteq> None) active), s1))"

definition ForCaller :: "'s store_ops \<Rightarrow> service_env \<Rightarrow> (nat \<Rightarrow> time) \<Rightarrow> string \<Rightarrow> string \<Rightarrow> 's
    \<Rightarrow> (service_error, grant list \<times> grant list) result \<times> 's" where
  "ForCaller ops env clk user binding s =
     (case st_for_subject ops (clk 0) StatePending \<lparr>sub_user_id = user, sub_binding = binding\<rparr> s of
        (Inl e, s1) \<Rightarrow> (Inl (StoreErr e), s1)
      | (Inr pending, s1) \<Rightarrow>
          (case activeFor ops env (clk 1) user binding s1 of
             (Inl e, s2) \<Rightarrow> (Inl (StoreErr e), s2)
           | (Inr active, s2) \<Rightarrow> (Inr (pending, active), s2)))"

text \<open>A kit that is not defined has no entries, so any part of it counts as whole.\<close>

definition service_IsWhole :: "service_env \<Rightarrow> grant \<Rightarrow> bool" where
  "service_IsWhole env g =
     (case g_part g of
        None \<Rightarrow> True
      | Some p \<Rightarrow> (case service_kit env (g_kit g) of None \<Rightarrow> True | Some k \<Rightarrow> IsWhole k (kitPart p (g_kit g))))"

fun split_held :: "service_env \<Rightarrow> string list \<Rightarrow> kit_part list \<Rightarrow> grant list \<Rightarrow> string list \<times> kit_part list" where
  "split_held env whole parts [] = (whole, parts)"
| "split_held env whole parts (g # gs) =
     (if \<not> service_IsWhole env g
      then split_held env whole (parts @ [case g_part g of None \<Rightarrow> \<lparr>part_kit = g_kit g, part_grants = [], part_tools = []\<rparr>
                                            | Some p \<Rightarrow> kitPart p (g_kit g)]) gs
      else split_held env (if g_kit g \<in> set whole then whole else whole @ [g_kit g]) parts gs)"

definition HeldKits :: "'s store_ops \<Rightarrow> service_env \<Rightarrow> time \<Rightarrow> string \<Rightarrow> string \<Rightarrow> 's \<Rightarrow> (string list \<times> kit_part list) \<times> 's" where
  "HeldKits ops env now user binding s =
     (if user = [] then (([], []), s)
      else (case activeFor ops env now user binding s of
              (Inl _, s1) \<Rightarrow> (([], []), s1)
            | (Inr active, s1) \<Rightarrow> (split_held env [] [] active, s1)))"

end
