(* ===== verification/RateLimit.thy ===== *)
theory RateLimit
  imports Durations "HOL-Library.AList"
begin

text \<open>
  The rate limiter of the policy gate (\<open>RateLimiter\<close> in \<open>internal/gate/context.go\<close>). Its state is the map
  from users to the times of their calls; each operation reads the clock once, which is its first
  argument. The lemmas relate it to the plain list of all calls ever recorded: neither the pruning of
  a window nor the eviction of stale users changes what a check answers.
\<close>

type_synonym rate_limiter = "(string \<times> time list) list"

definition NewRateLimiter :: rate_limiter where
  "NewRateLimiter = []"

definition window :: "rate_limiter \<Rightarrow> string \<Rightarrow> time list" where
  "window rl u = (case map_of rl u of None \<Rightarrow> [] | Some w \<Rightarrow> w)"

definition rate_check :: "time \<Rightarrow> string \<Rightarrow> int \<Rightarrow> rate_limiter \<Rightarrow> bool \<times> rate_limiter" where
  "rate_check now u limit rl =
     (let pruned = filter (\<lambda>t. now - hour < t) (window rl u)
      in (limit < int (length pruned), AList.update u pruned rl))"

definition maxUsers :: nat where "maxUsers = 1000"

definition rate_record :: "time \<Rightarrow> string \<Rightarrow> rate_limiter \<Rightarrow> rate_limiter" where
  "rate_record now u rl =
     (let rl1 = AList.update u (window rl u @ [now]) rl
      in if maxUsers < length rl1
         then filter (\<lambda>(uid, w). \<not> (w = [] \<or> last w < now - hour)) rl1
         else rl1)"

section \<open>Against the list of all calls\<close>

text \<open>\<open>tracks T rl calls\<close>: at every time from \<open>T\<close> on, the limiter's windows hold the calls of the last hour.\<close>

definition recent :: "time \<Rightarrow> time list \<Rightarrow> time list" where
  "recent now ts = filter (\<lambda>t. now - hour < t) ts"

definition calls_of :: "string \<Rightarrow> (string \<times> time) list \<Rightarrow> time list" where
  "calls_of u calls = map snd (filter (\<lambda>p. fst p = u) calls)"

definition tracks :: "time \<Rightarrow> rate_limiter \<Rightarrow> (string \<times> time) list \<Rightarrow> bool" where
  "tracks T rl calls \<longleftrightarrow> distinct (map fst rl) \<and> (\<forall>(u, w) \<in> set rl. sorted w \<and> (\<forall>t \<in> set w. t \<le> T)) \<and>
     (\<forall>u now. T \<le> now \<longrightarrow> recent now (window rl u) = recent now (calls_of u calls))"

lemma recent_recent: "now \<le> now' \<Longrightarrow> recent now' (recent now ts) = recent now' ts"
  by (auto simp: recent_def intro: filter_cong)

lemma window_update [simp]: "window (AList.update u w rl) v = (if v = u then w else window rl v)"
  by (simp add: window_def update_conv')

lemma window_sorted: "tracks T rl calls \<Longrightarrow> sorted (window rl u) \<and> (\<forall>t \<in> set (window rl u). t \<le> T)"
  by (fastforce simp: tracks_def window_def dest: map_of_SomeD split: option.splits)

lemma tracks_new: "tracks T NewRateLimiter []"
  by (simp add: tracks_def NewRateLimiter_def window_def calls_of_def)

lemma tracks_check:
  assumes "tracks T rl calls" "T \<le> now" "rate_check now u limit rl = (b, rl')"
  shows "b \<longleftrightarrow> limit < int (length (recent now (calls_of u calls)))" "tracks now rl' calls"
proof -
  have w: "recent now (window rl u) = recent now (calls_of u calls)" using assms(1,2) by (simp add: tracks_def)
  have r: "b \<longleftrightarrow> limit < int (length (recent now (window rl u)))" "rl' = AList.update u (recent now (window rl u)) rl"
    using assms(3) by (auto simp: rate_check_def Let_def recent_def)
  then show "b \<longleftrightarrow> limit < int (length (recent now (calls_of u calls)))" using w by simp
  have d: "distinct (map fst rl)" and ws: "\<forall>(u, w) \<in> set rl. sorted w \<and> (\<forall>t \<in> set w. t \<le> now)"
    using assms(1,2) by (fastforce simp: tracks_def)+
  have "sorted (recent now (window rl u)) \<and> (\<forall>t \<in> set (recent now (window rl u)). t \<le> now)"
    using window_sorted [OF assms(1), of u] assms(2) by (auto simp: recent_def intro: sorted_wrt_filter)
  then have "\<forall>(u, w) \<in> set rl'. sorted w \<and> (\<forall>t \<in> set w. t \<le> now)"
    using ws r(2) d by (auto simp: set_update_distinct)
  moreover have "\<forall>v now'. now \<le> now' \<longrightarrow> recent now' (window rl' v) = recent now' (calls_of v calls)"
    using assms(1,2) r(2) recent_recent by (auto simp: tracks_def)
  ultimately show "tracks now rl' calls" using d r(2) by (simp add: tracks_def distinct_update)
qed

lemma evicted_window: "sorted w \<Longrightarrow> w = [] \<or> last w < now - hour \<Longrightarrow> now \<le> now' \<Longrightarrow> recent now' w = []"
proof -
  assume w: "sorted w" "w = [] \<or> last w < now - hour" "now \<le> now'"
  have "t \<le> last w" if "t \<in> set w" for t
    using that w(1) by (metis sorted_wrt_append append_butlast_last_id empty_iff empty_set
        order_refl set_ConsD Un_iff set_append list.set_intros(1))
  then show ?thesis using w(2,3) by (fastforce simp: recent_def filter_empty_conv)
qed

lemma tracks_record:
  assumes "tracks T rl calls" "T \<le> now"
  shows "tracks now (rate_record now u rl) (calls @ [(u, now)])"
proof -
  let ?w = "window rl u @ [now]" and ?rl1 = "AList.update u (window rl u @ [now]) rl"
  have d: "distinct (map fst ?rl1)" using assms(1) by (simp add: tracks_def distinct_update)
  have "sorted ?w \<and> (\<forall>t \<in> set ?w. t \<le> now)" using window_sorted [OF assms(1), of u] assms(2) by (fastforce simp: sorted_append)
  then have ws: "\<forall>(v, w) \<in> set ?rl1. sorted w \<and> (\<forall>t \<in> set w. t \<le> now)"
    using assms by (fastforce simp: tracks_def set_update_distinct)
  have view: "recent now' (window ?rl1 v) = recent now' (calls_of v (calls @ [(u, now)]))" if "now \<le> now'" for v now'
    using assms that by (auto simp: tracks_def recent_def calls_of_def)
  let ?P = "\<lambda>w. \<not> (w = [] \<or> last w < now - hour)"
  let ?rl2 = "filter (\<lambda>(uid, w). ?P w) ?rl1"
  have ev: "recent now' (window ?rl2 v) = recent now' (window ?rl1 v)" if "now \<le> now'" for v now'
  proof (cases "map_of ?rl1 v")
    case None
    then show ?thesis using map_of_filter_distinct [OF d, of ?P v] by (simp add: window_def)
  next
    case (Some w)
    have "recent now' w = []" if "\<not> ?P w"
      using evicted_window [of w now now'] that ws map_of_SomeD [OF Some] \<open>now \<le> now'\<close> by blast
    then show ?thesis using Some map_of_filter_distinct [OF d, of ?P v] by (auto simp: window_def recent_def)
  qed
  have "tracks now ?rl1 (calls @ [(u, now)])" using d ws view by (simp add: tracks_def)
  moreover have "tracks now ?rl2 (calls @ [(u, now)])"
    using distinct_filter_keys [OF d] ws view ev by (fastforce simp: tracks_def)
  ultimately show ?thesis by (simp add: rate_record_def Let_def)
qed

section \<open>Runs\<close>

datatype rate_op = RateRecord time string | RateCheck time string int

fun op_time :: "rate_op \<Rightarrow> time" where
  "op_time (RateRecord t u) = t"
| "op_time (RateCheck t u limit) = t"

fun rate_step :: "rate_limiter \<Rightarrow> rate_op \<Rightarrow> rate_limiter" where
  "rate_step rl (RateRecord t u) = rate_record t u rl"
| "rate_step rl (RateCheck t u limit) = snd (rate_check t u limit rl)"

definition recorded_calls :: "rate_op list \<Rightarrow> (string \<times> time) list" where
  "recorded_calls os = concat (map (\<lambda>op. case op of RateRecord t u \<Rightarrow> [(u, t)] | _ \<Rightarrow> []) os)"

lemma tracks_run:
  assumes "tracks T rl calls" "sorted (T # map op_time os)"
  shows "tracks (last (T # map op_time os)) (foldl rate_step rl os) (calls @ recorded_calls os)"
  using assms
proof (induction os arbitrary: T rl calls)
  case Nil
  then show ?case by (simp add: recorded_calls_def)
next
  case (Cons op os)
  have le: "T \<le> op_time op" using Cons.prems(2) by simp
  have "tracks (op_time op) (rate_step rl op) (calls @ recorded_calls [op])"
  proof (cases op)
    case (RateRecord t u)
    then show ?thesis using tracks_record [OF Cons.prems(1)] le by (simp add: recorded_calls_def)
  next
    case (RateCheck t u limit)
    then show ?thesis using tracks_check(2) [OF Cons.prems(1) le surjective_pairing, of u limit] by (simp add: recorded_calls_def)
  qed
  from Cons.IH [OF this] Cons.prems(2) show ?case by (simp add: recorded_calls_def)
qed



end
