(* ===== verification/Directives.thy ===== *)
theory Directives
  imports GoStrings
begin

text \<open>
  Directives in the header comment of a policy (\<open>internal/gate/directives.go\<close>), and that nothing below
  the first line of code is read as one.
\<close>

definition directivePrefix :: string where "directivePrefix = ''toolmesh:''"

definition DirectiveEnforceWithKit :: string where "DirectiveEnforceWithKit = ''enforce-with-kit''"

record directives =
  d_enforce_with_kit :: bool
  d_unknown :: "string list"

text \<open>The loop of \<open>headerCommentLines\<close> over the lines; its first argument is \<open>inBlock\<close>.\<close>

fun header_lines :: "bool \<Rightarrow> string list \<Rightarrow> string list" where
  "header_lines inBlock [] = []"
| "header_lines inBlock (line # ls) =
     (let text = trim_space line in
      if inBlock \<or> has_prefix text ''/*'' then
        (let (body, rest, ended) = cut (trim_prefix text ''/*'') ''*/'';
             l = trim_space (trim_prefix (trim_space body) ''*'')
         in if ended \<and> trim_space rest \<noteq> [] then [l] else l # header_lines (\<not> ended) ls)
      else if text = [] then header_lines False ls
      else if has_prefix text ''//'' then trim_space (trim_prefix text ''//'') # header_lines False ls
      else [])"

definition headerCommentLines :: "string \<Rightarrow> string list" where
  "headerCommentLines src = header_lines False (split_char nl src)"

definition directive_separator :: "rune \<Rightarrow> bool" where
  "directive_separator r \<longleftrightarrow> r = 44 \<or> r = 32 \<or> r = 9"

definition directive_names :: "string \<Rightarrow> string list" where
  "directive_names line =
     (let (rest, ok) = cut_prefix line directivePrefix in if ok then fields_func directive_separator rest else [])"

definition parseDirectives :: "string \<Rightarrow> directives" where
  "parseDirectives src =
     (let names = concat (map directive_names (headerCommentLines src))
      in \<lparr>d_enforce_with_kit = (DirectiveEnforceWithKit \<in> set names),
          d_unknown = filter (\<lambda>n. n \<noteq> DirectiveEnforceWithKit) names\<rparr>)"

section \<open>The header ends at the first line of code\<close>

definition line_comment :: "string \<Rightarrow> bool" where
  "line_comment l \<longleftrightarrow> has_prefix (trim_space l) ''//''"

definition blank_line :: "string \<Rightarrow> bool" where
  "blank_line l \<longleftrightarrow> trim_space l = []"

definition code_line :: "string \<Rightarrow> bool" where
  "code_line l \<longleftrightarrow> \<not> blank_line l \<and> \<not> line_comment l \<and> \<not> has_prefix (trim_space l) ''/*''"

definition comment_text :: "string \<Rightarrow> string" where
  "comment_text l = trim_space (trim_prefix (trim_space l) ''//'')"

lemma prefix_exclusive: "has_prefix t ''//'' \<Longrightarrow> \<not> has_prefix t ''/*''" "\<not> has_prefix [] ''//''" "\<not> has_prefix [] ''/*''"
  by (auto simp: has_prefix_def)

lemma header_lines_comments:
  "\<forall>p \<in> set pre. line_comment p \<or> blank_line p \<Longrightarrow>
     header_lines False (pre @ ls) = map comment_text (filter line_comment pre) @ header_lines False ls"
  by (induction pre) (auto simp: line_comment_def blank_line_def comment_text_def Let_def prefix_exclusive)

lemma header_lines_code: "code_line l \<Longrightarrow> header_lines False (l # ls) = []"
  by (simp add: code_line_def line_comment_def blank_line_def Let_def)

text \<open>The directives of a policy are those of the line comments above its first line of code, whatever
  follows it: text of the form of a directive further down, in a string or in a comment, changes
  neither whether the policy holds for a kit's holder nor what is reported as unknown.\<close>

theorem directives_end_at_code:
  assumes "split_char nl src = pre @ l # rest" "\<forall>p \<in> set pre. line_comment p \<or> blank_line p" "code_line l"
  shows "(d_enforce_with_kit (parseDirectives src) \<longleftrightarrow>
      (\<exists>p \<in> set pre. line_comment p \<and> DirectiveEnforceWithKit \<in> set (directive_names (comment_text p)))) \<and>
    d_unknown (parseDirectives src) =
      filter (\<lambda>n. n \<noteq> DirectiveEnforceWithKit) (concat (map (directive_names \<circ> comment_text) (filter line_comment pre)))"
proof -
  have "headerCommentLines src = map comment_text (filter line_comment pre)"
    using header_lines_comments [OF assms(2), of "l # rest"] header_lines_code [OF assms(3), of rest] assms(1)
    by (simp add: headerCommentLines_def del: header_lines.simps)
  then show ?thesis by (auto simp: parseDirectives_def Let_def)
qed

theorem directives_end_at_code_witness:
  "d_enforce_with_kit (parseDirectives (''// toolmesh: enforce-with-kit'' @ nl # ''throw 1;'' @ nl # ''// toolmesh: other'')) \<and>
   d_unknown (parseDirectives (''// toolmesh: enforce-with-kit'' @ nl # ''throw 1;'' @ nl # ''// toolmesh: other'')) = []"
proof -
  let ?a = "''// toolmesh: enforce-with-kit''" and ?l = "''throw 1;''" and ?r = "''// toolmesh: other''"
  have nonl: "nl \<notin> set ?a" "nl \<notin> set ?l" by (simp_all add: nl_def)
  have sp: "split_char nl (?a @ nl # ?l @ nl # ?r) = [?a] @ ?l # split_char nl ?r"
    by (subst split_line [OF nonl(1)], subst split_line [OF nonl(2)]) (simp del: split_char.simps)
  have ascii: "runes_of (c # s) = (byte_of c, [c]) # runes_of s" if "byte_of c < (128 :: nat)" for c s
    using that by (subst runes_of_nonempty [of _ "byte_of c" 1]) auto
  have ta: "trim_space ?a = ?a" and tl: "trim_space ?l = ?l"
    and tc: "trim_space ''toolmesh: enforce-with-kit'' = ''toolmesh: enforce-with-kit''"
    and tb: "trim_space '' toolmesh: enforce-with-kit'' = ''toolmesh: enforce-with-kit''"
    by (simp_all add: trim_space_def ascii trim_list_def is_space_def)
  have names: "directive_names ''toolmesh: enforce-with-kit'' = [''enforce-with-kit'']"
    by (simp add: directive_names_def directivePrefix_def cut_prefix_def has_prefix_def fields_func_def ascii directive_separator_def)
  have c: "line_comment ?a" "code_line ?l" "comment_text ?a = ''toolmesh: enforce-with-kit''"
    by (simp_all add: line_comment_def code_line_def blank_line_def comment_text_def ta tl tb has_prefix_def trim_prefix_def)
  show ?thesis
    using directives_end_at_code [OF sp _ c(2)] c names by (simp add: DirectiveEnforceWithKit_def)
qed

end
