(* ===== verification/Gate.thy ===== *)
theory Gate
  imports Trail Userctx RateLimit Directives "HOL-Library.Char_ord" "HOL-Library.List_Lexorder"
begin

text \<open>
  The policy gate (\<open>internal/gate/gate.go\<close>) and the pipeline of evaluators (\<open>internal/gate/pipeline.go\<close>).
  The JavaScript engine (goja) is an argument: what a policy's source does with a context object is a
  tree whose inner nodes are its calls of \<open>ctx.rateLimitExceeded\<close>, each with the time at which it is
  made, and whose leaves are a thrown error (or the interrupt after the timeout) or the exported context.
\<close>

section \<open>JSON text\<close>

text \<open>\<open>json.Marshal\<close> sorts the keys of objects and replaces bytes that are not UTF-8. The text is represented
  by the value with sorted keys and such strings: two values have the same text exactly when they have
  the same representation, and \<open>json.Unmarshal\<close> of the text is the representation itself.\<close>

definition utf8_text :: "string \<Rightarrow> string" where
  "utf8_text s = of_runes (runes s)"

fun marshal :: "json \<Rightarrow> json" where
  "marshal JNull = JNull"
| "marshal (JBool b) = JBool b"
| "marshal (JNum n) = JNum n"
| "marshal (JStr s) = JStr (utf8_text s)"
| "marshal (JArr vs) = JArr (map marshal vs)"
| "marshal (JObj kvs) = JObj (sort_key fst (map (\<lambda>kv. (utf8_text (fst kv), marshal (snd kv))) kvs))"

definition json_field :: "string \<Rightarrow> json \<Rightarrow> json" where
  "json_field name v = (case v of JObj kvs \<Rightarrow> (case map_of kvs name of Some w \<Rightarrow> w | None \<Rightarrow> JNull) | _ \<Rightarrow> JNull)"

section \<open>Contexts\<close>

text \<open>\<open>backend.ToolResult\<close>; \<open>None\<close> is a nil slice or map.\<close>

record tool_result =
  tr_content :: "json list option"
  tr_is_error :: bool
  tr_metadata :: "(string \<times> json) list option"

type_synonym params = "(string \<times> json) list option"

record gate_context =
  gc_user :: user_context
  gc_tool :: string
  gc_tool_access :: string
  gc_params :: params
  gc_phase :: gate_phase
  gc_response :: "tool_result option"
  gc_kits :: "string list"
  gc_kit_covered :: bool
  gc_preflight :: bool

definition params_json :: "params \<Rightarrow> json" where
  "params_json ps = (case ps of None \<Rightarrow> JNull | Some kvs \<Rightarrow> JObj kvs)"

definition content_json :: "json list option \<Rightarrow> json" where
  "content_json c = (case c of None \<Rightarrow> JNull | Some vs \<Rightarrow> JArr vs)"

definition phase_name :: "gate_phase \<Rightarrow> string" where
  "phase_name p = (case p of PhasePre \<Rightarrow> ''pre'' | PhasePost \<Rightarrow> ''post'')"

definition user_json :: "user_context \<Rightarrow> json" where
  "user_json uc = JObj [(''userId'', JStr (uc_user_id uc)), (''companyId'', JStr (uc_company_id uc)),
     (''roles'', case uc_roles uc of None \<Rightarrow> JNull | Some rs \<Rightarrow> JArr (map JStr rs)), (''plan'', JStr (uc_plan uc)),
     (''authenticated'', JBool (uc_authenticated uc)), (''callerId'', JStr (uc_caller_id uc)),
     (''callerName'', JStr (uc_caller_name uc)), (''callerClass'', JStr (uc_caller_class uc))]"

definition response_json :: "tool_result option \<Rightarrow> json" where
  "response_json r = (case r of None \<Rightarrow> JNull
     | Some t \<Rightarrow> JObj [(''content'', content_json (tr_content t)), (''isError'', JBool (tr_is_error t)),
                      (''metadata'', params_json (tr_metadata t))])"

text \<open>The object \<open>ctx\<close> that policies see; its function \<open>rateLimitExceeded\<close> is a node of the run.\<close>

definition ctx_object :: "gate_context \<Rightarrow> json" where
  "ctx_object g = JObj [(''user'', user_json (gc_user g)), (''tool'', JStr (gc_tool g)), (''toolAccess'', JStr (gc_tool_access g)),
     (''params'', params_json (gc_params g)), (''phase'', JStr (phase_name (gc_phase g))), (''response'', response_json (gc_response g)),
     (''kits'', JArr (map JStr (gc_kits g))), (''kitCovered'', JBool (gc_kit_covered g)), (''preflight'', JBool (gc_preflight g))]"

section \<open>Policy runs\<close>

text \<open>An exported value that JSON cannot represent (a function, a cycle) is opaque, with the error of its encoding.\<close>

datatype js_value = JsJson json | JsOpaque string

text \<open>What \<open>exportCtx\<close> finds: \<open>ctx.params\<close>, and \<open>ctx.response.content\<close> when \<open>ctx.response\<close> is an object.\<close>

record js_exported =
  xp_params :: js_value
  xp_content :: "js_value option"

datatype js_end = JsThrew string | JsFinished "js_exported option"

datatype js_run = JsEnd js_end | JsAsk time "int option" "bool \<Rightarrow> js_run"

type_synonym js_engine = "string \<Rightarrow> json \<Rightarrow> js_run"

primrec run_js :: "js_run \<Rightarrow> string \<Rightarrow> rate_limiter \<Rightarrow> js_end \<times> rate_limiter" where
  "run_js (JsEnd e) u rl = (e, rl)"
| "run_js (JsAsk t limit k) u rl =
     (let r = rate_check t u (case limit of None \<Rightarrow> 100 | Some n \<Rightarrow> n) rl in run_js (k (fst r)) u (snd r))"

definition exportCtx :: "js_exported option \<Rightarrow> js_exported" where
  "exportCtx x = (case x of None \<Rightarrow> \<lparr>xp_params = JsJson JNull, xp_content = None\<rparr> | Some e \<Rightarrow> e)"

definition marshalForDiff :: "js_value \<Rightarrow> (string, json) result" where
  "marshalForDiff v = (case v of JsJson j \<Rightarrow> Inr (marshal j) | JsOpaque e \<Rightarrow> Inl e)"

definition snapshotResponseContent :: "js_value option \<Rightarrow> (string, json) result" where
  "snapshotResponseContent c = (case c of None \<Rightarrow> Inr JNull | Some v \<Rightarrow> marshalForDiff v)"

record gate_policy =
  gp_name :: string
  gp_source :: string
  gp_enforce :: bool

definition write_content :: "js_exported \<Rightarrow> tool_result option \<Rightarrow> tool_result option" where
  "write_content x r = (case (r, xp_content x) of
     (Some t, Some (JsJson (JArr vs))) \<Rightarrow> Some (t\<lparr>tr_content := Some vs\<rparr>) | _ \<Rightarrow> r)"

definition write_params :: "js_exported \<Rightarrow> params \<Rightarrow> params" where
  "write_params x ps = (case (ps, xp_params x) of (Some _, JsJson (JObj kvs)) \<Rightarrow> Some kvs | _ \<Rightarrow> ps)"

definition policy_mods :: "gate_policy \<Rightarrow> gate_phase \<Rightarrow> json \<Rightarrow> json \<Rightarrow> json \<Rightarrow> json \<Rightarrow> policy_modification list" where
  "policy_mods p ph bp ap bc ac =
     (if ph = PhasePre \<and> bp \<noteq> ap
      then [\<lparr>pm_policy = gp_name p, pm_phase = ph, pm_target = ModParams, pm_before = bp, pm_after = ap\<rparr>] else []) @
     (if bc \<noteq> ac
      then [\<lparr>pm_policy = gp_name p, pm_phase = ph, pm_target = ModResponseContent, pm_before = bc, pm_after = ac\<rparr>] else [])"

text \<open>\<open>evalPolicy\<close>: the modifications or the error, and the context with the live parameters and the live
  response as the policy leaves them.\<close>

definition evalPolicy :: "js_engine \<Rightarrow> gate_policy \<Rightarrow> gate_context \<Rightarrow> rate_limiter
    \<Rightarrow> (string, policy_modification list) result \<times> gate_context \<times> rate_limiter" where
  "evalPolicy js p g rl =
     (let obj = marshal (ctx_object g);
          bp = marshal (json_field ''params'' obj);
          bc = marshal (json_field ''content'' (json_field ''response'' obj))
      in case run_js (js (gp_source p) obj) (uc_user_id (gc_user g)) rl of
           (JsThrew msg, rl') \<Rightarrow> (Inl msg, g, rl')
         | (JsFinished out, rl') \<Rightarrow>
             (let x = exportCtx out in
              case marshalForDiff (xp_params x) of
                Inl e \<Rightarrow> (Inl (''snapshot params after '' @ gp_name p @ '': '' @ e), g, rl')
              | Inr ap \<Rightarrow>
                  (case snapshotResponseContent (xp_content x) of
                     Inl e \<Rightarrow> (Inl (''snapshot response.content after '' @ gp_name p @ '': '' @ e), g, rl')
                   | Inr ac \<Rightarrow>
                       (Inr (policy_mods p (gc_phase g) bp ap bc ac),
                        g\<lparr>gc_response := write_content x (gc_response g),
                          gc_params := (if gc_phase g = PhasePre then write_params x (gc_params g) else gc_params g)\<rparr>, rl'))))"

record eval_result =
  er_allowed :: bool
  er_modified :: "tool_result option"
  er_reason :: string
  er_policy :: string
  er_modifications :: "policy_modification list"
  er_skipped :: "string list"

fun run_policies :: "js_engine \<Rightarrow> gate_policy list \<Rightarrow> policy_modification list \<Rightarrow> string list \<Rightarrow> gate_context \<Rightarrow> rate_limiter
    \<Rightarrow> eval_result \<times> gate_context \<times> rate_limiter" where
  "run_policies js [] mods skipped g rl =
     (\<lparr>er_allowed = True, er_modified = None, er_reason = [], er_policy = [], er_modifications = mods, er_skipped = skipped\<rparr>, g, rl)"
| "run_policies js (p # ps) mods skipped g rl =
     (if gc_kit_covered g \<and> gc_phase g = PhasePre \<and> \<not> gp_enforce p
      then run_policies js ps mods (skipped @ [gp_name p]) g rl
      else case evalPolicy js p g rl of
        (Inl e, g', rl') \<Rightarrow>
          (\<lparr>er_allowed = False, er_modified = None, er_reason = ''policy '' @ gp_name p @ '': '' @ e, er_policy = gp_name p,
            er_modifications = [], er_skipped = []\<rparr>, g', rl')
      | (Inr ms, g', rl') \<Rightarrow> run_policies js ps (mods @ ms) skipped g' rl')"

definition gate_Evaluate :: "js_engine \<Rightarrow> gate_policy list \<Rightarrow> time \<Rightarrow> gate_context \<Rightarrow> rate_limiter \<Rightarrow> eval_result \<times> gate_context \<times> rate_limiter" where
  "gate_Evaluate js ps now g rl =
     run_policies js ps [] [] g (if gc_preflight g then rl else rate_record now (uc_user_id (gc_user g)) rl)"

section \<open>Loading\<close>

record dir_entry =
  de_name :: string
  de_is_dir :: bool
  de_data :: "(string, string) result"

datatype dir_listing = DirMissing | DirFailed string | DirEntries "dir_entry list"

datatype load_error = ReadDirFailed string | ReadPolicyFailed string string

definition file_ext :: "string \<Rightarrow> string" where
  "file_ext name = (if CHR ''.'' \<in> set name then CHR ''.'' # rev (takeWhile (\<lambda>c. c \<noteq> CHR ''.'') (rev name)) else [])"

fun load_policies :: "dir_entry list \<Rightarrow> (load_error, gate_policy list) result" where
  "load_policies [] = Inr []"
| "load_policies (e # es) =
     (if de_is_dir e \<or> file_ext (de_name e) \<noteq> ''.js'' then load_policies es
      else case de_data e of
        Inl err \<Rightarrow> Inl (ReadPolicyFailed (de_name e) err)
      | Inr src \<Rightarrow> bind_res (load_policies es) (\<lambda>ps.
          Inr (\<lparr>gp_name = de_name e, gp_source = src, gp_enforce = d_enforce_with_kit (parseDirectives src)\<rparr> # ps)))"

definition gate_New :: "dir_listing \<Rightarrow> (load_error, gate_policy list) result" where
  "gate_New d = (case d of DirMissing \<Rightarrow> Inr [] | DirFailed e \<Rightarrow> Inl (ReadDirFailed e) | DirEntries es \<Rightarrow> load_policies es)"

section \<open>Pipelines\<close>

text \<open>An evaluator works on the pipeline's state \<open>'s\<close> and returns the context as it leaves it: the parameters
  and the response are shared with the caller, the rest of a context is the evaluator's own copy.\<close>

record 's evaluator =
  ev_name :: string
  ev_evaluate :: "time \<Rightarrow> gate_context \<Rightarrow> 's \<Rightarrow> (string, eval_result) result \<times> gate_context \<times> 's"

definition goja_evaluator :: "js_engine \<Rightarrow> gate_policy list \<Rightarrow> rate_limiter evaluator" where
  "goja_evaluator js ps = \<lparr>ev_name = ''goja'',
     ev_evaluate = (\<lambda>now g rl. let (r, g', rl') = gate_Evaluate js ps now g rl in (Inr r, g', rl'))\<rparr>"

datatype gate_error =
    EvaluatorFailed string string
  | Rejection (rej_evaluator: string) (rej_policy: string) (rej_reason: string)

definition gate_error_text :: "gate_error \<Rightarrow> string" where
  "gate_error_text e = (case e of
     EvaluatorFailed name msg \<Rightarrow> ''evaluator '' @ name @ '': '' @ msg
   | Rejection name pol reason \<Rightarrow> ''evaluator '' @ name @ '' rejected: '' @ reason)"

record outcome =
  out_modifications :: "policy_modification list"
  out_skipped :: "string list"

text \<open>\<open>evaluate\<close>. \<open>own\<close> tells whether the pipeline's response is still the caller's object, \<open>resp\<close> is that object:
  once an evaluator returned a result of its own (\<open>Modified\<close>), later evaluators work on that one.
  The result comes with the caller's parameters and the caller's response.\<close>

fun evaluate :: "'s evaluator list \<Rightarrow> (nat \<Rightarrow> time) \<Rightarrow> outcome \<Rightarrow> bool \<Rightarrow> tool_result option \<Rightarrow> gate_context \<Rightarrow> 's
    \<Rightarrow> (gate_error, outcome) result \<times> params \<times> tool_result option \<times> 's" where
  "evaluate [] clk out own resp g s = (Inr out, gc_params g, resp, s)"
| "evaluate (ev # evs) clk out own resp g s =
     (let (r, g', s') = ev_evaluate ev (clk 0) g s;
          resp' = (if own then gc_response g' else resp)
      in case r of
           Inl e \<Rightarrow> (Inl (EvaluatorFailed (ev_name ev) e), gc_params g', resp', s')
         | Inr er \<Rightarrow>
             if \<not> er_allowed er then (Inl (Rejection (ev_name ev) (er_policy er) (er_reason er)), gc_params g', resp', s')
             else evaluate evs (\<lambda>n. clk (Suc n))
                    \<lparr>out_modifications = out_modifications out @ er_modifications er, out_skipped = out_skipped out @ er_skipped er\<rparr>
                    (own \<and> er_modified er = None) resp'
                    (g\<lparr>gc_params := gc_params g',
                       gc_response := (case er_modified er of Some t \<Rightarrow> Some t | None \<Rightarrow> gc_response g')\<rparr>) s')"

definition no_outcome :: outcome where
  "no_outcome = \<lparr>out_modifications = [], out_skipped = []\<rparr>"

definition EvaluatePre :: "'s evaluator list \<Rightarrow> (nat \<Rightarrow> time) \<Rightarrow> gate_context \<Rightarrow> 's
    \<Rightarrow> (gate_error, outcome) result \<times> params \<times> tool_result option \<times> 's" where
  "EvaluatePre evs clk g s = evaluate evs clk no_outcome True (gc_response g) (g\<lparr>gc_phase := PhasePre\<rparr>) s"

definition EvaluatePost :: "'s evaluator list \<Rightarrow> (nat \<Rightarrow> time) \<Rightarrow> gate_context \<Rightarrow> 's
    \<Rightarrow> (gate_error, outcome) result \<times> params \<times> tool_result option \<times> 's" where
  "EvaluatePost evs clk g s = evaluate evs clk no_outcome True (gc_response g) (g\<lparr>gc_phase := PhasePost\<rparr>) s"

end
