(* ===== verification/ExecBase.thy ===== *)
theory ExecBase
  imports Engine GrantService Gate
begin

text \<open>
  What the executor is built from (\<open>internal/executor/executor.go\<close>): its dependencies, the kits a caller
  holds, the authorization request of a call, credentials, redaction and audit records. The dependencies
  are fields of the \<open>executor\<close> record: an authorizer, a credential store, a backend and a holder of kits
  are functions over states of their own, the gate is a list of evaluators. A nil dependency is \<open>None\<close>
  (\<open>False\<close> for the stores that are only written to); an optional Go interface that a dependency does
  not implement is \<open>None\<close> too.
\<close>

section \<open>Dependencies\<close>

record 'ae authorizer =
  az_check :: "request \<Rightarrow> ('ae, bool) result"
  az_batch :: "(request list \<Rightarrow> bool list) option"
  az_kits :: "kit list option"

record tenant_info =
  ti_company_id :: string
  ti_user_id :: string
  ti_caller_id :: string
  ti_caller_class :: string

type_synonym cred_map = "(string \<times> string) list"

record cred_store =
  cs_list :: "(string \<Rightarrow> tenant_info \<Rightarrow> cred_map option) option"
  cs_get :: "string \<Rightarrow> tenant_info \<Rightarrow> string option"

record tool_descriptor =
  td_name :: string
  td_access :: string

record held =
  held_kits :: "string list"
  held_parts :: "kit_part list"

record ('ae, 'g, 'h, 'b) executor =
  ex_tables :: case_tables
  ex_printable :: "rune \<Rightarrow> bool"
  ex_authorizer :: "'ae authorizer option"
  ex_creds :: "cred_store option"
  ex_resolve :: "(string \<Rightarrow> string \<times> bool) option"
  ex_lookup :: "(string \<Rightarrow> tool_descriptor option) option"
  ex_execute :: "cred_map \<Rightarrow> string \<Rightarrow> params \<Rightarrow> 'b \<Rightarrow> (string, tool_result) result \<times> 'b"
  ex_gate :: "'g evaluator list option"
  ex_audit :: bool
  ex_telemetry :: bool
  ex_metrics :: bool
  ex_holder :: "(time \<Rightarrow> string \<Rightarrow> string \<Rightarrow> 'h \<Rightarrow> (string list \<times> kit_part list) \<times> 'h) option"

text \<open>The errors of an execution, in the order of its steps; a gate rejection is recorded, not returned.\<close>

datatype 'ae exec_error =
    NoUserContext
  | AuthzCheckFailed 'ae
  | GateRejectedPre gate_error
  | BackendFailed string string
  | GateRejectedPost gate_error
  | QueryFailed string

type_synonym 'ae exec_entry = "'ae exec_error audit_entry"

record ('ae, 'g, 'h, 'b) exec_state =
  xs_gate :: 'g
  xs_holder :: 'h
  xs_backend :: 'b
  xs_trail :: "'ae exec_entry list"
  xs_telemetry :: "(string \<times> bool) list"
  xs_metrics :: "(string \<times> string \<times> audit_status \<times> int) list"

section \<open>Kits held\<close>

definition held_names :: "held \<Rightarrow> string" where
  "held_names h = join (held_kits h @ map (\<lambda>p. part_kit p @ '' (part)'') (held_parts h)) '',''"

fun add_part_names :: "string list \<Rightarrow> kit_part list \<Rightarrow> string list" where
  "add_part_names out [] = out"
| "add_part_names out (p # ps) = add_part_names (if part_kit p \<in> set out then out else out @ [part_kit p]) ps"

definition kitNames :: "string list \<Rightarrow> kit_part list \<Rightarrow> string list" where
  "kitNames kits parts = add_part_names kits parts"

definition heldKits :: "('ae, 'g, 'h, 'b) executor \<Rightarrow> time \<Rightarrow> user_context option \<Rightarrow> 'h \<Rightarrow> held \<times> 'h" where
  "heldKits ex now uco s =
     (case (ex_holder ex, ex_authorizer ex, uco) of
        (Some f, Some _, Some uc) \<Rightarrow>
          if uc_authenticated uc
          then (let ((kits, parts), s') = f now (uc_user_id uc) (GrantBinding uc) s in (\<lparr>held_kits = kits, held_parts = parts\<rparr>, s'))
          else (\<lparr>held_kits = [], held_parts = []\<rparr>, s)
      | _ \<Rightarrow> (\<lparr>held_kits = [], held_parts = []\<rparr>, s))"

definition exec_Kits :: "('ae, 'g, 'h, 'b) executor \<Rightarrow> kit list" where
  "exec_Kits ex = (case ex_authorizer ex of None \<Rightarrow> [] | Some az \<Rightarrow> (case az_kits az of None \<Rightarrow> [] | Some ks \<Rightarrow> ks))"

definition kit_covers :: "kit list \<Rightarrow> request \<Rightarrow> string \<Rightarrow> bool" where
  "kit_covers kits r name = (case find_first (\<lambda>k. kit_name k = name) kits of
     None \<Rightarrow> False | Some k \<Rightarrow> Covers k (rq_tool r) (rq_backend r) (rq_access r))"

definition kit_part_covers :: "kit list \<Rightarrow> request \<Rightarrow> kit_part \<Rightarrow> bool" where
  "kit_part_covers kits r p = (case find_first (\<lambda>k. kit_name k = part_kit p) kits of
     None \<Rightarrow> False | Some k \<Rightarrow> PartCovers k p (rq_tool r) (rq_backend r) (rq_access r))"

definition appliedKit :: "kit list \<Rightarrow> request \<Rightarrow> string" where
  "appliedKit kits r =
     (if rq_kits r = [] \<and> rq_kit_parts r = [] then []
      else case find_first (kit_covers kits r) (rq_kits r) of
        Some name \<Rightarrow> name
      | None \<Rightarrow> (case find_first (kit_part_covers kits r) (rq_kit_parts r) of Some p \<Rightarrow> part_kit p | None \<Rightarrow> []))"

section \<open>Requests\<close>

definition lookupToolAccess :: "('ae, 'g, 'h, 'b) executor \<Rightarrow> string \<Rightarrow> string" where
  "lookupToolAccess ex tool = (case ex_lookup ex of None \<Rightarrow> []
     | Some f \<Rightarrow> (case f tool of None \<Rightarrow> [] | Some d \<Rightarrow> td_access d))"

definition authzRequest :: "('ae, 'g, 'h, 'b) executor \<Rightarrow> user_context \<Rightarrow> string \<Rightarrow> string \<Rightarrow> held \<Rightarrow> request" where
  "authzRequest ex uc tool access h =
     \<lparr>rq_user_id = uc_user_id uc, rq_company_id = uc_company_id uc, rq_plan = uc_plan uc,
      rq_roles = (case uc_roles uc of None \<Rightarrow> [] | Some rs \<Rightarrow> rs), rq_kits = held_kits h, rq_kit_parts = held_parts h, rq_tool = tool,
      rq_backend = (case ex_resolve ex of None \<Rightarrow> [] | Some f \<Rightarrow> fst (f tool)), rq_access = access\<rparr>"

definition splitToolPrefix :: "string \<Rightarrow> string \<times> string" where
  "splitToolPrefix tool = (case index_of tool ''_'' of
     Some (Suc i) \<Rightarrow> (take (Suc i) tool, drop (Suc (Suc i)) tool) | _ \<Rightarrow> ([], tool))"

definition checkAll :: "'ae authorizer \<Rightarrow> request list \<Rightarrow> bool list" where
  "checkAll az reqs = (case az_batch az of
     Some f \<Rightarrow> f reqs
   | None \<Rightarrow> map (\<lambda>r. case az_check az r of Inr b \<Rightarrow> b | Inl _ \<Rightarrow> False) reqs)"

section \<open>Credentials and parameters\<close>

definition resolveCredentials :: "case_tables \<Rightarrow> cred_store \<Rightarrow> string \<Rightarrow> tenant_info \<Rightarrow> cred_map" where
  "resolveCredentials ct cs backend tenant =
     (let upper = to_upper ct backend;
          single = (case cs_get cs (upper @ ''_API_KEY'') tenant of None \<Rightarrow> [] | Some v \<Rightarrow> [(upper @ ''_API_KEY'', v)])
      in case cs_list cs of
           None \<Rightarrow> single
         | Some f \<Rightarrow> (case f (upper @ ''_'') tenant of
             None \<Rightarrow> single
           | Some creds \<Rightarrow> if creds \<noteq> [] then creds else single))"

definition sensitiveParamNames :: "string list" where
  "sensitiveParamNames = [''password'', ''secret'', ''token'', ''api_key'', ''apikey'', ''access_token'', ''refresh_token'',
     ''authorization'', ''credential'', ''private_key'']"

definition redacted :: json where "redacted = JStr ''[REDACTED]''"

definition sanitizeParams :: "case_tables \<Rightarrow> (string \<times> json) list \<Rightarrow> (string \<times> json) list" where
  "sanitizeParams ct ps = map (\<lambda>(k, v). (k, if to_lower ct k \<in> set sensitiveParamNames then redacted else v)) ps"

section \<open>Audit\<close>

definition addMetadata :: "string \<Rightarrow> string \<Rightarrow> 'ae exec_entry \<Rightarrow> 'ae exec_entry" where
  "addMetadata k v e = e\<lparr>ae_metadata := AList.update k v (ae_metadata e)\<rparr>"

definition recordAudit :: "('ae, 'g, 'h, 'b) executor \<Rightarrow> 'ae exec_entry \<Rightarrow> ('ae, 'g, 'h, 'b) exec_state \<Rightarrow> ('ae, 'g, 'h, 'b) exec_state" where
  "recordAudit ex e st = st\<lparr>
     xs_trail := (if ex_audit ex then xs_trail st @ [e] else xs_trail st),
     xs_telemetry := (if ex_telemetry ex \<and> ae_backend e \<noteq> [] then xs_telemetry st @ [(ae_backend e, ae_status e = StatusSuccess)] else xs_telemetry st),
     xs_metrics := (if ex_metrics ex
       then xs_metrics st @ [(if ae_backend e = [] then (''unknown'', ae_tool e, ae_status e, ae_duration_ms e)
                             else (ae_backend e, snd (splitToolPrefix (ae_tool e)), ae_status e, ae_duration_ms e))]
       else xs_metrics st)\<rparr>"

end
