(* ===== verification/Rights.thy ===== *)
theory Rights
  imports ExecBase
begin

text \<open>
  What a caller may do with a tool, and which kits would change it (\<open>internal/executor/rights.go\<close>).
  The pre-execution gate is asked without a call (a preflight), which threads the gate's state.
\<close>

section \<open>Quoted strings\<close>

text \<open>\<open>strconv.Quote\<close>; which runes beyond ASCII are printable is an argument.\<close>

fun hex_digits :: "nat \<Rightarrow> nat \<Rightarrow> string" where
  "hex_digits 0 v = []"
| "hex_digits (Suc n) v = hex_digits n (v div 16) @ [hex_digit (v mod 16)]"

definition quote_rune :: "(rune \<Rightarrow> bool) \<Rightarrow> rune \<times> string \<Rightarrow> string" where
  "quote_rune printable = (\<lambda>(r, bytes).
     if length bytes = 1 \<and> r = rune_error then [CHR 0x5C, CHR ''x''] @ hex_digits 2 (byte_of (hd bytes))
     else if r = 34 \<or> r = 92 then CHR 0x5C # encode_rune r
     else if (if r < 128 then 32 \<le> r \<and> r < 127 else printable r) then encode_rune r
     else if 7 \<le> r \<and> r \<le> 13 then [CHR 0x5C, ''abtnvfr'' ! (r - 7)]
     else if r < 32 \<or> r = 127 then [CHR 0x5C, CHR ''x''] @ hex_digits 2 r
     else if r < 65536 then [CHR 0x5C, CHR ''u''] @ hex_digits 4 r
     else [CHR 0x5C, CHR ''U''] @ hex_digits 8 r)"

definition quote :: "(rune \<Rightarrow> bool) \<Rightarrow> string \<Rightarrow> string" where
  "quote printable s = CHR 0x22 # concat (map (quote_rune printable) (runes_of s)) @ [CHR 0x22]"

section \<open>Preflights\<close>

definition RightsToolName :: string where "RightsToolName = ''tell_me_my_rights''"
definition RequestGrantToolName :: string where "RequestGrantToolName = ''request_grant''"

definition preflight_context :: "kit list \<Rightarrow> user_context option \<Rightarrow> request \<Rightarrow> params \<Rightarrow> gate_context" where
  "preflight_context kits uco r ps =
     \<lparr>gc_user = (case uco of None \<Rightarrow> zero_user_context | Some uc \<Rightarrow> uc), gc_tool = rq_tool r, gc_tool_access = rq_access r,
      gc_params = (case ps of None \<Rightarrow> Some [] | Some kvs \<Rightarrow> Some kvs), gc_phase = PhasePre, gc_response = None,
      gc_kits = kitNames (rq_kits r) (rq_kit_parts r), gc_kit_covered = (appliedKit kits r \<noteq> []), gc_preflight = True\<rparr>"

text \<open>The refusal, or the empty string when the call would pass.\<close>

definition gatePreflight :: "'g evaluator list \<Rightarrow> kit list \<Rightarrow> (nat \<Rightarrow> time) \<Rightarrow> user_context option \<Rightarrow> request \<Rightarrow> params \<Rightarrow> 'g \<Rightarrow> string \<times> 'g" where
  "gatePreflight evs kits clk uco r ps s =
     (let (res, _, _, s') = EvaluatePre evs clk (preflight_context kits uco r ps) s
      in (case res of Inr _ \<Rightarrow> [] | Inl (Rejection _ _ reason) \<Rightarrow> reason | Inl e \<Rightarrow> gate_error_text e, s'))"

definition withKit :: "request \<Rightarrow> string \<Rightarrow> request" where
  "withKit r name = r\<lparr>rq_kits := rq_kits r @ [name]\<rparr>"

text \<open>The kits of a list with which the gate passes; each probe reads a clock of its own.\<close>

fun passing_kits :: "'g evaluator list \<Rightarrow> kit list \<Rightarrow> (nat \<Rightarrow> nat \<Rightarrow> time) \<Rightarrow> user_context option \<Rightarrow> request \<Rightarrow> params \<Rightarrow> string list
    \<Rightarrow> 'g \<Rightarrow> string list \<times> string \<times> 'g" where
  "passing_kits evs kits clk uco r ps [] s = ([], [], s)"
| "passing_kits evs kits clk uco r ps (name # names) s =
     (let (refusal, s1) = gatePreflight evs kits (clk 0) uco (withKit r name) ps s;
          (ok, later, s2) = passing_kits evs kits (\<lambda>n. clk (Suc n)) uco r ps names s1
      in if refusal = [] then (name # ok, later, s2)
         else (ok, if later = [] then refusal else later, s2))"

definition liftingKits :: "'g evaluator list \<Rightarrow> kit list \<Rightarrow> (nat \<Rightarrow> nat \<Rightarrow> time) \<Rightarrow> user_context option \<Rightarrow> request \<Rightarrow> params \<Rightarrow> 'g \<Rightarrow> string list \<times> 'g" where
  "liftingKits evs kits clk uco r ps s =
     (let (ok, _, s') = passing_kits evs kits clk uco r ps
            (map kit_name (filter (\<lambda>k. Covers k (rq_tool r) (rq_backend r) (rq_access r)) kits)) s
      in (ok, s'))"

section \<open>Verdicts\<close>

datatype verdict = VerdictAllowed | VerdictEscalatable | VerdictDenied

record tool_right =
  ri_tool :: string
  ri_backend :: string
  ri_verdict :: verdict
  ri_kits :: "string list"
  ri_blocked :: bool
  ri_refusal :: string

definition plain_right :: "request \<Rightarrow> verdict \<Rightarrow> tool_right" where
  "plain_right r v = \<lparr>ri_tool = rq_tool r, ri_backend = rq_backend r, ri_verdict = v, ri_kits = [], ri_blocked = False, ri_refusal = []\<rparr>"

text \<open>The denied requests a kit covers, by index, each with the answer for the caller holding the kit.\<close>

definition denied_covered :: "request list \<Rightarrow> bool list \<Rightarrow> kit \<Rightarrow> nat list" where
  "denied_covered reqs allowed k =
     filter (\<lambda>i. \<not> allowed ! i \<and> Covers k (rq_tool (reqs ! i)) (rq_backend (reqs ! i)) (rq_access (reqs ! i))) [0..<length reqs]"

definition kit_answers :: "'ae authorizer \<Rightarrow> bool \<Rightarrow> request list \<Rightarrow> bool list \<Rightarrow> kit \<Rightarrow> (nat \<times> bool) list" where
  "kit_answers az verify reqs allowed k =
     (let idx = denied_covered reqs allowed k
      in if idx = [] then []
         else zip idx (if verify then checkAll az (map (\<lambda>i. withKit (reqs ! i) (kit_name k)) idx) else map (\<lambda>_. True) idx))"

definition assess_one :: "kit list \<Rightarrow> (nat \<times> bool) list list \<Rightarrow> request list \<Rightarrow> bool list \<Rightarrow> nat \<Rightarrow> tool_right" where
  "assess_one kits answers reqs allowed i =
     (let names = map (kit_name \<circ> fst) (filter (\<lambda>(k, ans). map_of ans i = Some True) (zip kits answers));
          covered = list_ex (\<lambda>ans. map_of ans i \<noteq> None) answers
      in (plain_right (reqs ! i)
            (if allowed ! i then VerdictAllowed else if names = [] then VerdictDenied else VerdictEscalatable))
          \<lparr>ri_kits := names, ri_blocked := covered \<and> names = []\<rparr>)"

definition assess :: "'ae authorizer \<Rightarrow> kit list \<Rightarrow> request list \<Rightarrow> bool list \<Rightarrow> bool \<Rightarrow> tool_right list" where
  "assess az kits reqs allowed verify =
     map (assess_one kits (map (kit_answers az verify reqs allowed) kits) reqs allowed) [0..<length reqs]"

definition gate_right :: "'g evaluator list \<Rightarrow> kit list \<Rightarrow> (nat \<Rightarrow> nat \<Rightarrow> time) \<Rightarrow> user_context option \<Rightarrow> request \<Rightarrow> tool_right \<Rightarrow> 'g \<Rightarrow> tool_right \<times> 'g" where
  "gate_right evs kits clk uco r t s =
     (case ri_verdict t of
        VerdictAllowed \<Rightarrow>
          (let (refusal, s1) = gatePreflight evs kits (clk 0) uco r None s in
           if refusal = [] then (t, s1)
           else (let (ks, s2) = liftingKits evs kits (\<lambda>n. clk (Suc n)) uco r None s1
                 in (t\<lparr>ri_refusal := refusal, ri_kits := ks, ri_verdict := (if ks = [] then VerdictDenied else VerdictEscalatable)\<rparr>, s2)))
      | VerdictEscalatable \<Rightarrow>
          (let (ks, refusal, s1) = passing_kits evs kits clk uco r None (ri_kits t) s
           in (if ks = [] then t\<lparr>ri_kits := [], ri_verdict := VerdictDenied, ri_refusal := refusal\<rparr> else t\<lparr>ri_kits := ks\<rparr>, s1))
      | VerdictDenied \<Rightarrow> (t, s))"

fun gateRights :: "'g evaluator list \<Rightarrow> kit list \<Rightarrow> (nat \<Rightarrow> nat \<Rightarrow> nat \<Rightarrow> time) \<Rightarrow> user_context option \<Rightarrow> (request \<times> tool_right) list \<Rightarrow> 'g
    \<Rightarrow> tool_right list \<times> 'g" where
  "gateRights evs kits clk uco [] s = ([], s)"
| "gateRights evs kits clk uco ((r, t) # rts) s =
     (let (t', s1) = gate_right evs kits (clk 0) uco r t s;
          (ts, s2) = gateRights evs kits (\<lambda>n. clk (Suc n)) uco rts s1
      in (t' # ts, s2))"

section \<open>Queries\<close>

definition authzRequests :: "('ae, 'g, 'h, 'b) executor \<Rightarrow> user_context \<Rightarrow> held \<Rightarrow> tool_descriptor list \<Rightarrow> request list" where
  "authzRequests ex uc h tools =
     map (\<lambda>t. authzRequest ex uc (td_name t) (if td_access t = [] then lookupToolAccess ex (td_name t) else td_access t) h) tools"

definition AssessTools :: "('ae, 'g, 'h, 'b) executor \<Rightarrow> time \<Rightarrow> (nat \<Rightarrow> nat \<Rightarrow> nat \<Rightarrow> time) \<Rightarrow> user_context \<Rightarrow> tool_descriptor list \<Rightarrow> bool
    \<Rightarrow> ('ae, 'g, 'h, 'b) exec_state \<Rightarrow> tool_right list \<times> ('ae, 'g, 'h, 'b) exec_state" where
  "AssessTools ex now clk uc tools verify st =
     (let (h, sh) = heldKits ex now (Some uc) (xs_holder st);
          reqs = authzRequests ex uc h tools;
          out = (case ex_authorizer ex of
                   None \<Rightarrow> map (\<lambda>r. plain_right r VerdictAllowed) reqs
                 | Some az \<Rightarrow> assess az (exec_Kits ex) reqs (checkAll az reqs) verify);
          st1 = st\<lparr>xs_holder := sh\<rparr>
      in case ex_gate ex of
           Some evs \<Rightarrow> if verify
             then (let (out', sg) = gateRights evs (exec_Kits ex) clk (Some uc) (zip reqs out) (xs_gate st1) in (out', st1\<lparr>xs_gate := sg\<rparr>))
             else (out, st1)
         | None \<Rightarrow> (out, st1))"

definition FilterAuthorizedTools :: "('ae, 'g, 'h, 'b) executor \<Rightarrow> time \<Rightarrow> user_context option \<Rightarrow> tool_descriptor list \<Rightarrow> 'h \<Rightarrow> tool_descriptor list \<times> 'h" where
  "FilterAuthorizedTools ex now uco tools s =
     (case ex_authorizer ex of
        None \<Rightarrow> (tools, s)
      | Some az \<Rightarrow>
          (case uco of
             None \<Rightarrow> ([], s)
           | Some uc \<Rightarrow> (let (h, s') = heldKits ex now uco s
                         in (map fst (filter snd (zip tools (checkAll az (authzRequests ex uc h tools)))), s'))))"

section \<open>Coverage of a kit\<close>

text \<open>The gate's answer for the covered tools the caller may execute: one is new when the kit lifts a refusal.\<close>

fun lifted_by :: "'g evaluator list \<Rightarrow> kit list \<Rightarrow> (nat \<Rightarrow> nat \<Rightarrow> nat \<Rightarrow> time) \<Rightarrow> user_context option \<Rightarrow> kit \<Rightarrow> request list \<Rightarrow> nat list \<Rightarrow> bool list \<Rightarrow> 'g
    \<Rightarrow> bool list \<times> 'g" where
  "lifted_by evs kits clk uco k reqs [] allowed s = (allowed, s)"
| "lifted_by evs kits clk uco k reqs (i # idx) allowed s =
     (if \<not> allowed ! i then lifted_by evs kits (\<lambda>n. clk (Suc n)) uco k reqs idx allowed s
      else (let (refusal, s1) = gatePreflight evs kits (clk 0 0) uco (reqs ! i) None s in
        if refusal = [] then lifted_by evs kits (\<lambda>n. clk (Suc n)) uco k reqs idx allowed s1
        else (let (still, s2) = gatePreflight evs kits (clk 0 1) uco (withKit (reqs ! i) (kit_name k)) None s1
              in lifted_by evs kits (\<lambda>n. clk (Suc n)) uco k reqs idx (if still = [] then allowed[i := False] else allowed) s2)))"

definition covered_requests :: "kit \<Rightarrow> request list \<Rightarrow> nat list" where
  "covered_requests k reqs =
     filter (\<lambda>i. Covers k (rq_tool (reqs ! i)) (rq_backend (reqs ! i)) (rq_access (reqs ! i))) [0..<length reqs]"

definition allowed_now :: "'ae authorizer \<Rightarrow> request list \<Rightarrow> nat list \<Rightarrow> bool list" where
  "allowed_now az reqs idx =
     (let answers = zip idx (checkAll az (map ((!) reqs) idx))
      in map (\<lambda>i. case map_of answers i of Some b \<Rightarrow> b | None \<Rightarrow> False) [0..<length reqs])"

definition scope_entry :: "request list \<Rightarrow> bool list \<Rightarrow> string \<Rightarrow> entry_coverage" where
  "scope_entry reqs allowed scope =
     (let idx = filter (\<lambda>i. ScopeCovers scope (rq_backend (reqs ! i)) (rq_access (reqs ! i))) [0..<length reqs]
      in \<lparr>ec_entry = scope, ec_tool = False, ec_access = [], ec_tools = length idx,
          ec_new = length (filter (\<lambda>i. \<not> allowed ! i) idx)\<rparr>)"

definition tool_entry :: "request list \<Rightarrow> bool list \<Rightarrow> string \<Rightarrow> entry_coverage" where
  "tool_entry reqs allowed name =
     (let idx = filter (\<lambda>i. rq_tool (reqs ! i) = name) [0..<length reqs]
      in \<lparr>ec_entry = name, ec_tool = True, ec_access = (if idx = [] then [] else rq_access (reqs ! last idx)),
          ec_tools = (if idx = [] then 0 else 1), ec_new = (if list_ex (\<lambda>i. \<not> allowed ! i) idx then 1 else 0)\<rparr>)"

definition KitCoverage :: "('ae, 'g, 'h, 'b) executor \<Rightarrow> time \<Rightarrow> (nat \<Rightarrow> nat \<Rightarrow> nat \<Rightarrow> time) \<Rightarrow> user_context \<Rightarrow> kit \<Rightarrow> tool_descriptor list
    \<Rightarrow> ('ae, 'g, 'h, 'b) exec_state \<Rightarrow> entry_coverage list \<times> ('ae, 'g, 'h, 'b) exec_state" where
  "KitCoverage ex now clk uc k tools st =
     (let (h, sh) = heldKits ex now (Some uc) (xs_holder st);
          reqs = authzRequests ex uc h tools;
          idx = covered_requests k reqs;
          (allowed, sg) = (case ex_authorizer ex of
             None \<Rightarrow> (map (\<lambda>_. True) reqs, xs_gate st)
           | Some az \<Rightarrow> (case ex_gate ex of
               None \<Rightarrow> (allowed_now az reqs idx, xs_gate st)
             | Some evs \<Rightarrow> lifted_by evs (exec_Kits ex) clk (Some uc) k reqs idx (allowed_now az reqs idx) (xs_gate st)))
      in (map (scope_entry reqs allowed) (kit_grants k) @ map (tool_entry reqs allowed) (kit_tools k),
          st\<lparr>xs_holder := sh, xs_gate := sg\<rparr>))"

section \<open>Remedies\<close>

definition kit_description_of :: "kit list \<Rightarrow> string \<Rightarrow> string" where
  "kit_description_of kits name = (case find_first (\<lambda>k. kit_name k = name) (rev kits) of None \<Rightarrow> [] | Some k \<Rightarrow> kit_description k)"

definition remedyText :: "(rune \<Rightarrow> bool) \<Rightarrow> kit list \<Rightarrow> bool \<Rightarrow> string list \<Rightarrow> string" where
  "remedyText printable kits requestable names =
     (if names = [] then []
      else (let named = map (\<lambda>n. quote printable n @ '' ('' @ kit_description_of kits n @ '')'') names;
                subject = (if 1 < length names then ''The kits '' @ join named '', '' @ '' cover'' else ''The kit '' @ hd named @ '' covers'')
            in if \<not> requestable
               then '' '' @ subject @ '' it. Ask for a kit rather than for this one tool, and check first with '' @ RightsToolName @
                    ''({tools: [...]}) which other tools your task needs, so that one request covers all of them.''
               else '' '' @ subject @ '' it. Check first with '' @ RightsToolName @
                    ''({tools: [...]}) which other tools your task needs, then ask once with '' @ RequestGrantToolName @
                    ''({kit, reason}) for a kit that covers all of them, rather than for this one tool.''))"

definition exec_remedyText :: "('ae, 'g, 'h, 'b) executor \<Rightarrow> string list \<Rightarrow> string" where
  "exec_remedyText ex names = remedyText (ex_printable ex) (exec_Kits ex) (ex_holder ex \<noteq> None) names"

definition denialRemedy :: "('ae, 'g, 'h, 'b) executor \<Rightarrow> 'ae authorizer \<Rightarrow> (nat \<Rightarrow> nat \<Rightarrow> time) \<Rightarrow> user_context \<Rightarrow> request \<Rightarrow> params \<Rightarrow> 'g
    \<Rightarrow> string list \<times> 'g" where
  "denialRemedy ex az clk uc r ps s =
     (let names = ri_kits (hd (assess az (exec_Kits ex) [r] [False] True))
      in case ex_gate ex of
           None \<Rightarrow> (names, s)
         | Some evs \<Rightarrow> (let (ok, _, s') = passing_kits evs (exec_Kits ex) clk (Some uc) r ps names s in (ok, s')))"

definition gateRemedy :: "('ae, 'g, 'h, 'b) executor \<Rightarrow> 'g evaluator list \<Rightarrow> (nat \<Rightarrow> nat \<Rightarrow> time) \<Rightarrow> user_context \<Rightarrow> request \<Rightarrow> params \<Rightarrow> 'g
    \<Rightarrow> string list \<times> string \<times> 'g" where
  "gateRemedy ex evs clk uc r ps s =
     (let (names, s') = liftingKits evs (exec_Kits ex) clk (Some uc) r ps s
      in if names = [] \<and> exec_Kits ex \<noteq> [] then ([], '' No kit lifts this policy.'', s')
         else (names, exec_remedyText ex names, s'))"

section \<open>The query's own audit entry\<close>

definition AuditRightsQuery :: "('ae, 'g, 'h, 'b) executor \<Rightarrow> string \<Rightarrow> time \<Rightarrow> time \<Rightarrow> user_context option \<Rightarrow> (string \<times> json) list \<Rightarrow> string
    \<Rightarrow> ('ae, 'g, 'h, 'b) exec_state \<Rightarrow> ('ae, 'g, 'h, 'b) exec_state" where
  "AuditRightsQuery ex trace start now uco ps failure st =
     (if \<not> ex_audit ex then st
      else (let uc = (case uco of None \<Rightarrow> zero_user_context | Some u \<Rightarrow> u)
            in st\<lparr>xs_trail := xs_trail st @ [\<lparr>ae_trace_id = trace, ae_timestamp = start, ae_user_id = uc_user_id uc,
                 ae_company_id = uc_company_id uc, ae_caller_id = uc_caller_id uc, ae_caller_name = uc_caller_name uc,
                 ae_caller_class = uc_caller_class uc, ae_tool = RightsToolName, ae_tool_access = [],
                 ae_params = sanitizeParams (ex_tables ex) ps, ae_duration_ms = milliseconds (now - start),
                 ae_status = (if failure = [] then StatusSuccess else StatusError),
                 ae_error = (if failure = [] then None else Some (QueryFailed failure)),
                 ae_backend = ''toolmesh'', ae_metadata = [], ae_modifications = []\<rparr>]\<rparr>))"

end
