(* ===== verification/Executor.thy ===== *)
theory Executor
  imports Rights
begin

text \<open>
  The execution pipeline (\<open>ExecuteTool\<close> and \<open>CheckChild\<close> in \<open>internal/executor/executor.go\<close>): authorization,
  credentials, pre-execution gate, backend, post-execution gate, audit. Each step is a definition of its
  own that either ends the call with a result or hands on to the next one. The parameters are one live
  map: what a policy writes is what the backend gets, and an empty map is shared with the audit entry.
\<close>

record exec_request =
  xr_tool :: string
  xr_params :: params

text \<open>The readings of the clock: start and end of the call, the lookup of kits, one for each evaluator of a
  gate run, and one for each evaluator and probed kit of a remedy.\<close>

record exec_clock =
  ck_start :: time
  ck_held :: time
  ck_pre :: "nat \<Rightarrow> time"
  ck_post :: "nat \<Rightarrow> time"
  ck_probe :: "nat \<Rightarrow> nat \<Rightarrow> time"
  ck_end :: time

definition param_list :: "params \<Rightarrow> (string \<times> json) list" where
  "param_list ps = (case ps of None \<Rightarrow> [] | Some kvs \<Rightarrow> kvs)"

definition error_result :: "string \<Rightarrow> tool_result" where
  "error_result text = \<lparr>tr_content = Some [JObj [(''type'', JStr ''text''), (''text'', JStr text)]], tr_is_error = True, tr_metadata = None\<rparr>"

definition start_entry :: "('ae, 'g, 'h, 'b) executor \<Rightarrow> string \<Rightarrow> exec_clock \<Rightarrow> user_context \<Rightarrow> exec_request \<Rightarrow> 'ae exec_entry" where
  "start_entry ex trace ck uc req =
     \<lparr>ae_trace_id = trace, ae_timestamp = ck_start ck, ae_user_id = uc_user_id uc, ae_company_id = uc_company_id uc,
      ae_caller_id = uc_caller_id uc, ae_caller_name = uc_caller_name uc, ae_caller_class = uc_caller_class uc,
      ae_tool = xr_tool req, ae_tool_access = lookupToolAccess ex (xr_tool req),
      ae_params = sanitizeParams (ex_tables ex) (param_list (xr_params req)), ae_duration_ms = 0, ae_status = StatusSuccess,
      ae_error = None, ae_backend = fst (splitToolPrefix (xr_tool req)), ae_metadata = [], ae_modifications = []\<rparr>"

text \<open>Leaving the pipeline: duration, status and error go into the entry, which is recorded. \<open>live\<close> is the
  parameter map at that moment: an empty map is not copied for the entry.\<close>

definition leave :: "('ae, 'g, 'h, 'b) executor \<Rightarrow> exec_clock \<Rightarrow> exec_request \<Rightarrow> params \<Rightarrow> audit_status \<Rightarrow> 'ae exec_error option \<Rightarrow> 'ae exec_entry
    \<Rightarrow> ('ae, 'g, 'h, 'b) exec_state \<Rightarrow> ('ae, 'g, 'h, 'b) exec_state" where
  "leave ex ck req live status err e st =
     recordAudit ex (e\<lparr>ae_duration_ms := milliseconds (ck_end ck - ck_start ck), ae_status := status, ae_error := err,
                      ae_params := (if xr_params req = Some [] then param_list live else ae_params e)\<rparr>) st"

definition add_remedy :: "string list \<Rightarrow> 'ae exec_entry \<Rightarrow> 'ae exec_entry" where
  "add_remedy kits e = (if kits = [] then e else addMetadata ''remedy_kits'' (join kits '','') e)"

type_synonym ('ae, 'g, 'h, 'b) exec_exit = "('ae exec_error, tool_result) result \<times> ('ae, 'g, 'h, 'b) exec_state"

text \<open>Step 1: the authorization check. \<open>Inr\<close> is the entry and the kit that covers the call, empty when none does.\<close>

definition authz_stage :: "('ae, 'g, 'h, 'b) executor \<Rightarrow> exec_clock \<Rightarrow> user_context \<Rightarrow> exec_request \<Rightarrow> held \<Rightarrow> request \<Rightarrow> 'ae exec_entry
    \<Rightarrow> ('ae, 'g, 'h, 'b) exec_state \<Rightarrow> ('ae, 'g, 'h, 'b) exec_exit + ('ae exec_entry \<times> string)" where
  "authz_stage ex ck uc req h areq e st =
     (case ex_authorizer ex of
        None \<Rightarrow> Inr (e, [])
      | Some az \<Rightarrow>
          (let e1 = (if held_kits h = [] \<and> held_parts h = [] then e else e\<lparr>ae_metadata := [(''held_kits'', held_names h)]\<rparr>) in
           case az_check az areq of
             Inl err \<Rightarrow> Inl (Inl (AuthzCheckFailed err), leave ex ck req (xr_params req) StatusError (Some (AuthzCheckFailed err)) e1 st)
           | Inr False \<Rightarrow>
               (let (kits, sg) = denialRemedy ex az (ck_probe ck) uc areq (xr_params req) (xs_gate st)
                in Inl (Inr (error_result (''User '' @ uc_user_id uc @ '' is not authorized to execute tool '' @ xr_tool req @ ''.'' @ exec_remedyText ex kits)),
                        leave ex ck req (xr_params req) StatusDenied None (add_remedy kits e1) (st\<lparr>xs_gate := sg\<rparr>)))
           | Inr True \<Rightarrow>
               (let kit = appliedKit (exec_Kits ex) areq
                in Inr (if kit = [] then e1 else addMetadata ''kit_applied'' kit e1, kit))))"

text \<open>Step 2: the credentials for the backend, in the context of the backend call.\<close>

definition cred_stage :: "('ae, 'g, 'h, 'b) executor \<Rightarrow> user_context \<Rightarrow> string \<Rightarrow> cred_map" where
  "cred_stage ex uc tool =
     (case ex_creds ex of
        None \<Rightarrow> []
      | Some cs \<Rightarrow>
          (let b = fst (splitToolPrefix tool) in
           if b = [] then []
           else resolveCredentials (ex_tables ex) cs b \<lparr>ti_company_id = uc_company_id uc, ti_user_id = uc_user_id uc,
                  ti_caller_id = uc_caller_id uc, ti_caller_class = uc_caller_class uc\<rparr>))"

definition call_context :: "('ae, 'g, 'h, 'b) executor \<Rightarrow> user_context \<Rightarrow> string \<Rightarrow> params \<Rightarrow> held \<Rightarrow> string \<Rightarrow> tool_result option \<Rightarrow> gate_context" where
  "call_context ex uc tool ps h kit resp =
     \<lparr>gc_user = uc, gc_tool = tool, gc_tool_access = lookupToolAccess ex tool, gc_params = ps, gc_phase = PhasePre, gc_response = resp,
      gc_kits = kitNames (held_kits h) (held_parts h), gc_kit_covered = (kit \<noteq> []), gc_preflight = False\<rparr>"

text \<open>Step 3: the pre-execution gate. \<open>Inr\<close> is the entry, the live parameters and the state.\<close>

definition pre_stage :: "('ae, 'g, 'h, 'b) executor \<Rightarrow> exec_clock \<Rightarrow> user_context \<Rightarrow> exec_request \<Rightarrow> held \<Rightarrow> request \<Rightarrow> string \<Rightarrow> 'ae exec_entry
    \<Rightarrow> ('ae, 'g, 'h, 'b) exec_state \<Rightarrow> ('ae, 'g, 'h, 'b) exec_exit + ('ae exec_entry \<times> params \<times> ('ae, 'g, 'h, 'b) exec_state)" where
  "pre_stage ex ck uc req h areq kit e st =
     (case ex_gate ex of
        None \<Rightarrow> Inr (e, xr_params req, st)
      | Some evs \<Rightarrow>
          (case EvaluatePre evs (ck_pre ck) (call_context ex uc (xr_tool req) (xr_params req) h kit None) (xs_gate st) of
             (Inl err, ps, _, sg) \<Rightarrow>
               (let (kits, remedy, sg') = gateRemedy ex evs (ck_probe ck) uc areq ps sg;
                    msg = ''Gate rejected (pre-execution): '' @ gate_error_text err
                in Inl (Inr (error_result (if remedy = [] then msg else trim_suffix msg ''.'' @ ''.'' @ remedy)),
                        leave ex ck req ps StatusDenied (Some (GateRejectedPre err)) (add_remedy kits e) (st\<lparr>xs_gate := sg'\<rparr>)))
           | (Inr out, ps, _, sg) \<Rightarrow>
               Inr ((let e1 = e\<lparr>ae_modifications := ae_modifications e @ out_modifications out\<rparr>
                     in if out_skipped out = [] then e1 else addMetadata ''gate_skipped'' (join (out_skipped out) '','') e1),
                    ps, st\<lparr>xs_gate := sg\<rparr>)))"

text \<open>Step 4: the backend.\<close>

definition backend_stage :: "('ae, 'g, 'h, 'b) executor \<Rightarrow> exec_clock \<Rightarrow> exec_request \<Rightarrow> cred_map \<Rightarrow> params \<Rightarrow> 'ae exec_entry
    \<Rightarrow> ('ae, 'g, 'h, 'b) exec_state \<Rightarrow> ('ae, 'g, 'h, 'b) exec_exit + (tool_result \<times> ('ae, 'g, 'h, 'b) exec_state)" where
  "backend_stage ex ck req creds ps e st =
     (case ex_execute ex creds (xr_tool req) ps (xs_backend st) of
        (Inl err, sb) \<Rightarrow> Inl (Inl (BackendFailed (xr_tool req) err),
            leave ex ck req ps StatusError (Some (BackendFailed (xr_tool req) err)) e (st\<lparr>xs_backend := sb\<rparr>))
      | (Inr res, sb) \<Rightarrow> Inr (res, st\<lparr>xs_backend := sb\<rparr>))"

text \<open>Step 5: the post-execution gate, which may change the result's content in place.\<close>

definition post_stage :: "('ae, 'g, 'h, 'b) executor \<Rightarrow> exec_clock \<Rightarrow> user_context \<Rightarrow> exec_request \<Rightarrow> held \<Rightarrow> string \<Rightarrow> params \<Rightarrow> tool_result \<Rightarrow> 'ae exec_entry
    \<Rightarrow> ('ae, 'g, 'h, 'b) exec_state \<Rightarrow> ('ae, 'g, 'h, 'b) exec_exit + ('ae exec_entry \<times> params \<times> tool_result \<times> ('ae, 'g, 'h, 'b) exec_state)" where
  "post_stage ex ck uc req h kit ps res e st =
     (case ex_gate ex of
        None \<Rightarrow> Inr (e, ps, res, st)
      | Some evs \<Rightarrow>
          (case EvaluatePost evs (ck_post ck) (call_context ex uc (xr_tool req) ps h kit (Some res)) (xs_gate st) of
             (Inl err, ps', _, sg) \<Rightarrow>
               Inl (Inr (error_result (''Gate rejected (post-execution): '' @ gate_error_text err)),
                    leave ex ck req ps' StatusDenied (Some (GateRejectedPost err)) e (st\<lparr>xs_gate := sg\<rparr>))
           | (Inr out, ps', resp, sg) \<Rightarrow>
               Inr (e\<lparr>ae_modifications := ae_modifications e @ out_modifications out\<rparr>, ps',
                    (case resp of Some r \<Rightarrow> r | None \<Rightarrow> res), st\<lparr>xs_gate := sg\<rparr>)))"

text \<open>Step 6: metadata and the audit entry of a call that ran.\<close>

definition itoa_int :: "int \<Rightarrow> string" where
  "itoa_int n = (if n < 0 then ''-'' @ itoa (nat (- n)) else itoa (nat n))"

definition with_metadata :: "exec_clock \<Rightarrow> user_context \<Rightarrow> string \<Rightarrow> tool_result \<Rightarrow> tool_result" where
  "with_metadata ck uc trace res = res\<lparr>tr_metadata := Some
     (AList.update ''traceId'' (JStr trace) (AList.update ''user'' (JStr (uc_user_id uc))
       (AList.update ''latencyMs'' (JNum (itoa_int (milliseconds (ck_end ck - ck_start ck)))) (param_list (tr_metadata res)))))\<rparr>"

definition finish_stage :: "('ae, 'g, 'h, 'b) executor \<Rightarrow> exec_clock \<Rightarrow> string \<Rightarrow> user_context \<Rightarrow> exec_request \<Rightarrow> params \<Rightarrow> tool_result \<Rightarrow> 'ae exec_entry
    \<Rightarrow> ('ae, 'g, 'h, 'b) exec_state \<Rightarrow> ('ae, 'g, 'h, 'b) exec_exit" where
  "finish_stage ex ck trace uc req ps res e st =
     (Inr (with_metadata ck uc trace res), leave ex ck req ps (if tr_is_error res then StatusError else StatusSuccess) None e st)"

text \<open>The steps after the authorization.\<close>

definition authorized_call :: "('ae, 'g, 'h, 'b) executor \<Rightarrow> exec_clock \<Rightarrow> string \<Rightarrow> user_context \<Rightarrow> exec_request \<Rightarrow> held \<Rightarrow> request \<Rightarrow> string \<Rightarrow> 'ae exec_entry
    \<Rightarrow> ('ae, 'g, 'h, 'b) exec_state \<Rightarrow> ('ae, 'g, 'h, 'b) exec_exit" where
  "authorized_call ex ck trace uc req h areq kit e st =
     (case pre_stage ex ck uc req h areq kit e st of
        Inl done \<Rightarrow> done
      | Inr (e1, ps, st1) \<Rightarrow>
          (case backend_stage ex ck req (cred_stage ex uc (xr_tool req)) ps e1 st1 of
             Inl done \<Rightarrow> done
           | Inr (res, st2) \<Rightarrow>
               (case post_stage ex ck uc req h kit ps res e1 st2 of
                  Inl done \<Rightarrow> done
                | Inr (e2, ps', res', st3) \<Rightarrow> finish_stage ex ck trace uc req ps' res' e2 st3)))"

definition ExecuteTool :: "('ae, 'g, 'h, 'b) executor \<Rightarrow> exec_clock \<Rightarrow> string \<Rightarrow> user_context option \<Rightarrow> exec_request
    \<Rightarrow> ('ae, 'g, 'h, 'b) exec_state \<Rightarrow> ('ae, 'g, 'h, 'b) exec_exit" where
  "ExecuteTool ex ck trace uco req st =
     (case uco of
        None \<Rightarrow> (Inl NoUserContext, st)
      | Some uc \<Rightarrow>
          (let (h, sh) = heldKits ex (ck_held ck) uco (xs_holder st);
               areq = authzRequest ex uc (xr_tool req) (lookupToolAccess ex (xr_tool req)) h;
               st1 = st\<lparr>xs_holder := sh\<rparr>
           in case authz_stage ex ck uc req h areq (start_entry ex trace ck uc req) st1 of
                Inl done \<Rightarrow> done
              | Inr (e, kit) \<Rightarrow> authorized_call ex ck trace uc req h areq kit e st1))"

section \<open>Nested calls\<close>

datatype 'ae child_error =
    ChildNoUser string
  | ChildCheckFailed string 'ae
  | ChildNotAuthorized string string
  | ChildGateRejected string gate_error

text \<open>\<open>CheckChild\<close>: the error, if any, and the parameters as the gate leaves them.\<close>

definition CheckChild :: "('ae, 'g, 'h, 'b) executor \<Rightarrow> exec_clock \<Rightarrow> user_context option \<Rightarrow> string \<Rightarrow> params \<Rightarrow> ('ae, 'g, 'h, 'b) exec_state
    \<Rightarrow> 'ae child_error option \<times> params \<times> ('ae, 'g, 'h, 'b) exec_state" where
  "CheckChild ex ck uco tool ps st =
     (case uco of
        None \<Rightarrow> (Some (ChildNoUser tool), ps, st)
      | Some uc \<Rightarrow>
          (let (h, sh) = heldKits ex (ck_held ck) uco (xs_holder st);
               areq = authzRequest ex uc tool (lookupToolAccess ex tool) h;
               st1 = st\<lparr>xs_holder := sh\<rparr>;
               decided = (case ex_authorizer ex of
                 None \<Rightarrow> Inr []
               | Some az \<Rightarrow> (case az_check az areq of
                   Inl err \<Rightarrow> Inl (ChildCheckFailed tool err)
                 | Inr False \<Rightarrow> Inl (ChildNotAuthorized (uc_user_id uc) tool)
                 | Inr True \<Rightarrow> Inr (appliedKit (exec_Kits ex) areq)))
           in case decided of
                Inl err \<Rightarrow> (Some err, ps, st1)
              | Inr kit \<Rightarrow>
                  (case ex_gate ex of
                     None \<Rightarrow> (None, ps, st1)
                   | Some evs \<Rightarrow>
                       (case EvaluatePre evs (ck_pre ck) (call_context ex uc tool ps h kit None) (xs_gate st1) of
                          (Inl err, ps', _, sg) \<Rightarrow> (Some (ChildGateRejected tool err), ps', st1\<lparr>xs_gate := sg\<rparr>)
                        | (Inr _, ps', _, sg) \<Rightarrow> (None, ps', st1\<lparr>xs_gate := sg\<rparr>)))))"

end
