(* ===== verification/GateProps.thy ===== *)
theory GateProps
  imports Gate
begin

text \<open>
  What the policy gate guarantees: a held kit replaces exactly the policies that do not insist, an empty
  list of modifications proves that nothing was changed, and lookups do not count as calls.
\<close>

section \<open>A kit replaces the pre-execution policies that yield to it\<close>

lemma evalPolicy_context:
  "evalPolicy js p g rl = (r, g', rl') \<Longrightarrow> gc_kit_covered g' = gc_kit_covered g \<and> gc_phase g' = gc_phase g \<and>
     gc_user g' = gc_user g \<and> gc_preflight g' = gc_preflight g"
  by (auto simp: evalPolicy_def Let_def split: prod.splits js_end.splits sum.splits)

text \<open>The outcome of a run with the names of the skipped policies, which only an allowed call reports.\<close>

definition with_skipped :: "string list \<Rightarrow> eval_result \<times> 'c \<Rightarrow> eval_result \<times> 'c" where
  "with_skipped names out = (if er_allowed (fst out) then (fst out)\<lparr>er_skipped := names\<rparr> else fst out, snd out)"

lemma run_policies_covered:
  assumes "gc_kit_covered g" "gc_phase g = PhasePre"
  shows "run_policies js ps mods sk g rl =
    with_skipped (sk @ map gp_name (filter (\<lambda>p. \<not> gp_enforce p) ps)) (run_policies js (filter gp_enforce ps) mods [] g rl)"
  using assms
proof (induction ps arbitrary: mods sk g rl)
  case Nil
  then show ?case by (simp add: with_skipped_def)
next
  case (Cons p ps)
  show ?case
  proof (cases "gp_enforce p")
    case False
    then show ?thesis using Cons by simp
  next
    case True
    obtain r g1 rl1 where e: "evalPolicy js p g rl = (r, g1, rl1)" by (metis prod.collapse)
    then have "gc_kit_covered g1" "gc_phase g1 = PhasePre" using evalPolicy_context [OF e] Cons.prems by simp_all
    then show ?thesis using True e Cons.IH [of g1] by (cases r) (simp_all add: with_skipped_def)
  qed
qed

lemma run_policies_all:
  "gc_phase g = PhasePost \<Longrightarrow> run_policies js (map (gp_enforce_update (\<lambda>_. True)) ps) mods sk g rl = run_policies js ps mods sk g rl"
proof (induction ps arbitrary: mods g rl)
  case (Cons p ps)
  obtain r g1 rl1 where e: "evalPolicy js p g rl = (r, g1, rl1)" by (metis prod.collapse)
  have p: "gp_name (p\<lparr>gp_enforce := True\<rparr>) = gp_name p" "gp_source (p\<lparr>gp_enforce := True\<rparr>) = gp_source p" by simp_all
  have "evalPolicy js (p\<lparr>gp_enforce := True\<rparr>) g rl = evalPolicy js p g rl"
    unfolding evalPolicy_def policy_mods_def p by (rule refl)
  then show ?case using e evalPolicy_context [OF e] Cons by (cases r) simp_all
qed simp

text \<open>C24: when a kit the caller holds covers the tool, the pre-execution phase decides, changes and reports
  exactly what the policies that declare \<open>enforce-with-kit\<close> alone would, and names the others as skipped;
  the post-execution phase runs every policy as if each declared it.\<close>

theorem kit_replaces_gate:
  "(gc_kit_covered g \<and> gc_phase g = PhasePre \<longrightarrow>
     gate_Evaluate js ps now g rl =
       with_skipped (map gp_name (filter (\<lambda>p. \<not> gp_enforce p) ps)) (gate_Evaluate js (filter gp_enforce ps) now g rl)) \<and>
   (gc_phase g = PhasePost \<longrightarrow>
     gate_Evaluate js ps now g rl = gate_Evaluate js (map (gp_enforce_update (\<lambda>_. True)) ps) now g rl)"
  unfolding gate_Evaluate_def using run_policies_covered [of g js ps "[]" "[]"] run_policies_all [of g js ps] by simp

definition demo_policies :: "gate_policy list" where
  "demo_policies = [\<lparr>gp_name = ''readonly.js'', gp_source = ''throw'', gp_enforce = False\<rparr>,
     \<lparr>gp_name = ''limits.js'', gp_source = ''pass'', gp_enforce = True\<rparr>]"

text \<open>An engine for the examples: one source throws, the other leaves the context alone.\<close>

definition demo_js :: js_engine where
  "demo_js src obj = (if src = ''throw'' then JsEnd (JsThrew ''read only'')
     else JsEnd (JsFinished (Some \<lparr>xp_params = JsJson (json_field ''params'' obj), xp_content = None\<rparr>)))"

definition demo_context :: gate_context where
  "demo_context = \<lparr>gc_user = zero_user_context\<lparr>uc_user_id := ''alice''\<rparr>, gc_tool = ''dns_add'', gc_tool_access = ''write'',
     gc_params = Some [(''zone'', JStr ''example'')], gc_phase = PhasePre, gc_response = None, gc_kits = [''ops''],
     gc_kit_covered = True, gc_preflight = False\<rparr>"

theorem kit_replaces_gate_witness:
  "er_allowed (fst (gate_Evaluate demo_js demo_policies 0 demo_context [])) \<longleftrightarrow>
     er_allowed (fst (gate_Evaluate demo_js [demo_policies ! 1] 0 demo_context []))"
  using kit_replaces_gate [of demo_context demo_js demo_policies 0 "[]"]
  by (simp add: demo_context_def demo_policies_def with_skipped_def)

section \<open>No modification, no change\<close>

lemma utf8_text_idem [simp]: "utf8_text (utf8_text s) = utf8_text s"
  by (simp add: utf8_text_def runes_valid)

lemma sort_key_map_keys: "(\<And>x. fst (f x) = fst x) \<Longrightarrow> sort_key fst (map f (sort_key fst xs)) = map f (sort_key fst xs)"
proof -
  assume f: "\<And>x. fst (f x) = fst x"
  have "map fst (map f (sort_key fst xs)) = map fst (sort_key fst xs)" by (simp add: f)
  then have "sorted (map fst (map f (sort_key fst xs)))" by (simp only: sorted_sort_key)
  then show ?thesis by (rule sort_key_id_if_sorted)
qed

lemma marshal_idem [simp]: "marshal (marshal j) = marshal j"
proof (induction j rule: marshal.induct)
  case (6 kvs)
  let ?f = "\<lambda>kv. (utf8_text (fst kv), marshal (snd kv))"
  let ?xs = "map ?f kvs"
  have "map ?f (sort_key fst ?xs) = sort_key fst ?xs"
  proof (rule map_idI)
    fix x assume "x \<in> set (sort_key fst ?xs)"
    then obtain kv where "kv \<in> set kvs" "x = ?f kv" by auto
    then show "?f x = x" using 6 [of kv] by simp
  qed
  then show ?case by (simp add: sort_key_id_if_sorted del: map_map)
qed (simp_all cong: map_cong)

lemma map_of_sort_key: "distinct (map fst kvs) \<Longrightarrow> map_of (sort_key fst kvs) = map_of kvs"
proof -
  assume d: "distinct (map fst kvs)"
  have "mset (map fst (sort_key fst kvs)) = mset (map fst kvs)" by simp
  then have "distinct (map fst (sort_key fst kvs))" using d by (metis mset_eq_imp_distinct_iff)
  with d show ?thesis by (intro map_of_eqI ext) (auto simp: map_of_inject_set)
qed

lemma json_field_marshal:
  assumes "distinct (map (utf8_text \<circ> fst) kvs)" "utf8_text name = name" "map_of kvs name = Some v"
  shows "json_field name (marshal (JObj kvs)) = marshal v"
proof -
  have "map_of (map (\<lambda>kv. (utf8_text (fst kv), marshal (snd kv))) kvs) name = Some (marshal v)"
  proof (rule map_of_is_SomeI)
    show "distinct (map fst (map (\<lambda>kv. (utf8_text (fst kv), marshal (snd kv))) kvs))" using assms(1) by (simp add: comp_def)
    show "(name, marshal v) \<in> set (map (\<lambda>kv. (utf8_text (fst kv), marshal (snd kv))) kvs)"
      using map_of_SomeD [OF assms(3)] assms(2) by force
  qed
  moreover have "distinct (map fst (map (\<lambda>kv. (utf8_text (fst kv), marshal (snd kv))) kvs))" using assms(1) by (simp add: comp_def)
  ultimately show ?thesis by (simp add: json_field_def map_of_sort_key del: map_map)
qed

lemma utf8_text_ascii: "\<forall>c \<in> set s. byte_of c < (128 :: nat) \<Longrightarrow> utf8_text s = s"
proof (induction s)
  case Nil
  then show ?case by (simp add: utf8_text_def runes_def of_runes_def)
next
  case (Cons c s)
  have "runes_of (c # s) = (byte_of c, [c]) # runes_of s" using Cons.prems
    by (subst runes_of_nonempty [of _ "byte_of c" 1]) auto
  moreover have "encode_rune (byte_of c) = [c]" using Cons.prems by (simp add: encode_rune_def encode_valid_def valid_rune_def)
  ultimately show ?case using Cons by (simp add: utf8_text_def runes_def of_runes_def)
qed

lemma ctx_object_fields:
  "json_field ''params'' (marshal (ctx_object g)) = marshal (params_json (gc_params g))"
  "json_field ''response'' (marshal (ctx_object g)) = marshal (response_json (gc_response g))"
  unfolding ctx_object_def by (rule json_field_marshal; simp add: utf8_text_ascii)+

lemma response_content_field:
  "json_field ''content'' (marshal (response_json r)) = (case r of None \<Rightarrow> JNull | Some t \<Rightarrow> marshal (content_json (tr_content t)))"
proof (cases r)
  case None
  then show ?thesis by (simp add: response_json_def json_field_def)
next
  case (Some t)
  show ?thesis unfolding response_json_def Some option.case by (rule json_field_marshal; simp add: utf8_text_ascii)
qed

text \<open>Whether the live data has the JSON text it had.\<close>

definition same_params :: "gate_context \<Rightarrow> gate_context \<Rightarrow> bool" where
  "same_params g g' \<longleftrightarrow> marshal (params_json (gc_params g')) = marshal (params_json (gc_params g))"

definition same_response :: "gate_context \<Rightarrow> gate_context \<Rightarrow> bool" where
  "same_response g g' \<longleftrightarrow> marshal (response_json (gc_response g')) = marshal (response_json (gc_response g))"

definition untouched :: "modification_target \<Rightarrow> policy_modification list \<Rightarrow> bool" where
  "untouched target mods \<longleftrightarrow> (\<forall>m \<in> set mods. pm_target m \<noteq> target)"

lemma response_content_update:
  "marshal (content_json c) = marshal (content_json (tr_content t)) \<Longrightarrow>
     marshal (response_json (Some (t\<lparr>tr_content := c\<rparr>))) = marshal (response_json (Some t))"
  by (simp add: response_json_def)

lemma evalPolicy_unchanged:
  assumes "evalPolicy js p g rl = (Inr ms, g', rl')"
  shows "gc_phase g = PhasePre \<Longrightarrow> untouched ModParams ms \<Longrightarrow> same_params g g'"
    "gc_phase g = PhasePost \<Longrightarrow> gc_params g' = gc_params g"
    "untouched ModResponseContent ms \<Longrightarrow> same_response g g'"
proof -
  obtain x ap ac where x: "marshalForDiff (xp_params x) = Inr ap" "snapshotResponseContent (xp_content x) = Inr ac"
    and g': "g' = g\<lparr>gc_response := write_content x (gc_response g),
                 gc_params := (if gc_phase g = PhasePre then write_params x (gc_params g) else gc_params g)\<rparr>"
    and ms: "ms = policy_mods p (gc_phase g) (marshal (params_json (gc_params g))) ap
        (case gc_response g of None \<Rightarrow> JNull | Some t \<Rightarrow> marshal (content_json (tr_content t))) ac"
    using assms by (auto simp: evalPolicy_def Let_def ctx_object_fields response_content_field split: prod.splits js_end.splits sum.splits option.splits)
  show "gc_params g' = gc_params g" if "gc_phase g = PhasePost" using g' that by simp
  show "same_params g g'" if "gc_phase g = PhasePre" "untouched ModParams ms"
  proof -
    have "ap = marshal (params_json (gc_params g))" using ms that by (auto simp: policy_mods_def untouched_def split: if_splits)
    then show ?thesis using x(1) g' that(1)
      by (auto simp: same_params_def write_params_def marshalForDiff_def params_json_def split: js_value.splits json.splits option.splits)
  qed
  show "same_response g g'" if "untouched ModResponseContent ms"
  proof -
    have ac: "ac = (case gc_response g of None \<Rightarrow> JNull | Some t \<Rightarrow> marshal (content_json (tr_content t)))"
      using ms that by (auto simp: policy_mods_def untouched_def split: if_splits)
    show ?thesis
    proof (cases "\<exists>t vs. gc_response g = Some t \<and> xp_content x = Some (JsJson (JArr vs))")
      case True
      then obtain t vs where t: "gc_response g = Some t" "xp_content x = Some (JsJson (JArr vs))" by blast
      then have "marshal (content_json (Some vs)) = marshal (content_json (tr_content t))"
        using x(2) ac by (simp add: snapshotResponseContent_def marshalForDiff_def content_json_def)
      from response_content_update [OF this] show ?thesis using t g' by (simp add: same_response_def write_content_def)
    next
      case False
      then have "write_content x (gc_response g) = gc_response g"
        by (auto simp: write_content_def split: option.splits js_value.splits json.splits)
      then show ?thesis using g' by (simp add: same_response_def)
    qed
  qed
qed

lemma untouched_append [simp]: "untouched t (xs @ ys) \<longleftrightarrow> untouched t xs \<and> untouched t ys"
  by (auto simp: untouched_def)

lemma run_policies_unchanged:
  assumes "run_policies js ps mods sk g rl = (r, g', rl')" "er_allowed r"
  shows "(gc_phase g = PhasePre \<and> untouched ModParams (er_modifications r) \<longrightarrow> same_params g g') \<and>
    (gc_phase g = PhasePost \<longrightarrow> gc_params g' = gc_params g) \<and> (untouched ModResponseContent (er_modifications r) \<longrightarrow> same_response g g') \<and>
    (\<exists>ms. er_modifications r = mods @ ms)"
  using assms
proof (induction js ps mods sk g rl rule: run_policies.induct)
  case (1 js mods skipped g rl)
  then show ?case by (auto simp: same_params_def same_response_def)
next
  case (2 js p ps mods skipped g rl)
  show ?case
  proof (cases "gc_kit_covered g \<and> gc_phase g = PhasePre \<and> \<not> gp_enforce p")
    case True
    with 2 show ?thesis by simp
  next
    case False
    obtain e g1 rl1 where ep: "evalPolicy js p g rl = (e, g1, rl1)" by (metis prod.collapse)
    with 2(3,4) False obtain ms where e: "e = Inr ms" and run: "run_policies js ps (mods @ ms) skipped g1 rl1 = (r, g', rl')"
      by (cases e) (auto simp del: de_Morgan_conj)
    note ih = 2(2) [OF False ep [symmetric] e refl run 2(4)]
    have ph: "gc_phase g1 = gc_phase g" using evalPolicy_context [OF ep] by simp
    show ?thesis using ih evalPolicy_unchanged [OF ep [unfolded e]] ph by (auto simp: same_params_def same_response_def)
  qed
qed

text \<open>a run of the gate that allows the call and reports no modification of a target left it as it was:
  without a modification of the parameters, what goes to the backend has the JSON text the caller sent;
  without one of the response content, the response has the text the backend returned; and the
  post-execution phase never changes the parameters.\<close>

theorem no_modification_no_change:
  assumes "gate_Evaluate js ps now g rl = (r, g', rl')" "er_allowed r"
  shows "(gc_phase g = PhasePre \<and> untouched ModParams (er_modifications r) \<longrightarrow> same_params g g') \<and>
    (gc_phase g = PhasePost \<longrightarrow> gc_params g' = gc_params g) \<and>
    (untouched ModResponseContent (er_modifications r) \<longrightarrow> same_response g g')"
  using run_policies_unchanged [OF assms(1) [unfolded gate_Evaluate_def] assms(2)] by blast

theorem no_modification_no_change_witness:
  "er_modifications (fst (gate_Evaluate demo_js [demo_policies ! 1] 0 demo_context [])) = [] \<and>
   same_params demo_context (fst (snd (gate_Evaluate demo_js [demo_policies ! 1] 0 demo_context [])))"
proof -
  let ?e = "gate_Evaluate demo_js [demo_policies ! 1] 0 demo_context []"
  have "evalPolicy demo_js (demo_policies ! 1) demo_context rl = (Inr [],
      demo_context\<lparr>gc_params := write_params \<lparr>xp_params = JsJson (marshal (params_json (gc_params demo_context))), xp_content = None\<rparr> (gc_params demo_context)\<rparr>, rl)" for rl
    by (simp add: evalPolicy_def demo_js_def demo_policies_def Let_def ctx_object_fields exportCtx_def marshalForDiff_def snapshotResponseContent_def
        policy_mods_def response_content_field)
       (simp add: demo_context_def write_content_def)
  then have e: "er_allowed (fst ?e) \<and> er_modifications (fst ?e) = []"
    by (simp add: gate_Evaluate_def demo_policies_def)
  have ph: "gc_phase demo_context = PhasePre" by (simp add: demo_context_def)
  obtain r g' rl' where r: "?e = (r, g', rl')" by (metis prod.collapse)
  then show ?thesis using no_modification_no_change [OF r] e ph by (simp add: untouched_def)
qed

section \<open>A result an evaluator returns\<close>

text \<open>A result of its own that an evaluator returns (\<open>EvalResult.Modified\<close>) reaches later evaluators only: the
  caller of the pipeline goes on with the response it passed in.\<close>

lemma modified_result_dropped:
  assumes "ev_evaluate ev (clk 0) (g\<lparr>gc_phase := PhasePost\<rparr>) s = (Inr er, g', s')" "er_allowed er" "er_modified er = Some t"
    "gc_response g' = gc_response g"
  shows "\<exists>out ps. EvaluatePost [ev] clk g s = (Inr out, ps, gc_response g, s')"
  using assms by (simp add: EvaluatePost_def)

end
