(* ===== verification/ExecProps.thy ===== *)
theory ExecProps
  imports Executor GateProps
begin

text \<open>
  The properties of the execution pipeline: the backend runs only for a call that the authorizer and the
  pre-execution gate let pass, every call is audited once, sensitive parameters are redacted, a nested
  call is held to what a direct call is held to, and a kit named as a remedy is one.
\<close>

section \<open>The steps\<close>

lemma leave_state [simp]:
  "xs_backend (leave ex ck req live status err e st) = xs_backend st"
  "xs_gate (leave ex ck req live status err e st) = xs_gate st" "xs_holder (leave ex ck req live status err e st) = xs_holder st"
  by (simp_all add: leave_def recordAudit_def)

definition left_entry :: "exec_clock \<Rightarrow> exec_request \<Rightarrow> params \<Rightarrow> audit_status \<Rightarrow> 'ae exec_error option \<Rightarrow> 'ae exec_entry \<Rightarrow> 'ae exec_entry" where
  "left_entry ck req live status err e = e\<lparr>ae_duration_ms := milliseconds (ck_end ck - ck_start ck), ae_status := status, ae_error := err,
     ae_params := (if xr_params req = Some [] then param_list live else ae_params e)\<rparr>"

lemma leave_trail: "ex_audit ex \<Longrightarrow> xs_trail (leave ex ck req live status err e st) = xs_trail st @ [left_entry ck req live status err e]"
  by (simp add: leave_def recordAudit_def left_entry_def)

lemma left_entry_fields [simp]:
  "ae_status (left_entry ck req live status err e) = status" "ae_error (left_entry ck req live status err e) = err"
  "ae_tool (left_entry ck req live status err e) = ae_tool e" "ae_user_id (left_entry ck req live status err e) = ae_user_id e"
  "ae_params (left_entry ck req live status err e) = (if xr_params req = Some [] then param_list live else ae_params e)"
  by (simp_all add: left_entry_def)

text \<open>What the steps keep of an entry.\<close>

definition same_call :: "'ae exec_entry \<Rightarrow> 'ae exec_entry \<Rightarrow> bool" where
  "same_call e e' \<longleftrightarrow> ae_tool e' = ae_tool e \<and> ae_user_id e' = ae_user_id e \<and> ae_params e' = ae_params e"

lemma same_call_simps [simp]:
  "same_call e e" "same_call e (e'\<lparr>ae_metadata := m\<rparr>) = same_call e e'" "same_call e (e'\<lparr>ae_modifications := ms\<rparr>) = same_call e e'"
  "same_call e (addMetadata k v e') = same_call e e'" "same_call e (add_remedy ks e') = same_call e e'"
  by (simp_all add: same_call_def addMetadata_def add_remedy_def)

text \<open>How a call may end: at a point with these status and error.\<close>

definition ends :: "('ae, 'g, 'h, 'b) executor \<Rightarrow> exec_clock \<Rightarrow> exec_request \<Rightarrow> 'ae exec_entry \<Rightarrow> ('ae, 'g, 'h, 'b) exec_state \<Rightarrow> ('ae, 'g, 'h, 'b) exec_exit \<Rightarrow> bool" where
  "ends ex ck req e0 st out \<longleftrightarrow> (\<exists>live status err e st1. snd out = leave ex ck req live status err e st1 \<and> same_call e0 e \<and>
     xs_trail st1 = xs_trail st \<and>
     (case fst out of Inl x \<Rightarrow> status = StatusError \<and> err = Some x
      | Inr res \<Rightarrow> (status = StatusSuccess \<longleftrightarrow> \<not> tr_is_error res)))"

lemma error_result_is_error [simp]: "tr_is_error (error_result text)"
  by (simp add: error_result_def)

lemma endsI:
  "snd out = leave ex ck req live status err e st1 \<Longrightarrow> same_call e0 e \<Longrightarrow> xs_trail st1 = xs_trail st \<Longrightarrow>
   (case fst out of Inl x \<Rightarrow> status = StatusError \<and> err = Some x | Inr res \<Rightarrow> (status = StatusSuccess \<longleftrightarrow> \<not> tr_is_error res)) \<Longrightarrow>
   ends ex ck req e0 st out"
  unfolding ends_def by blast

lemma authz_stage_ends:
  "authz_stage ex ck uc req h areq e st = Inl out \<Longrightarrow> ends ex ck req e st out \<and> xs_backend (snd out) = xs_backend st \<and>
     (\<forall>res. fst out = Inr res \<longrightarrow> tr_is_error res)"
  by (auto simp: authz_stage_def Let_def split: option.splits sum.splits bool.splits prod.splits if_splits intro!: endsI)

lemma authz_stage_passes:
  assumes "authz_stage ex ck uc req h areq e st = Inr (e', kit)"
  shows "same_call e e'" "\<And>az. ex_authorizer ex = Some az \<Longrightarrow> az_check az areq = Inr True"
    "kit = (if ex_authorizer ex = None then [] else appliedKit (exec_Kits ex) areq)"
  using assms by (auto simp: authz_stage_def Let_def split: option.splits sum.splits bool.splits prod.splits if_splits)

lemma pre_stage_ends:
  "pre_stage ex ck uc req h areq kit e st = Inl out \<Longrightarrow> ends ex ck req e st out \<and> xs_backend (snd out) = xs_backend st \<and>
     (\<forall>res. fst out = Inr res \<longrightarrow> tr_is_error res)"
  by (auto simp: pre_stage_def Let_def split: option.splits sum.splits prod.splits if_splits intro!: endsI)

text \<open>The pre-execution gate lets the call pass with these parameters.\<close>

definition gate_passes :: "('ae, 'g, 'h, 'b) executor \<Rightarrow> exec_clock \<Rightarrow> user_context \<Rightarrow> exec_request \<Rightarrow> held \<Rightarrow> string \<Rightarrow> 'g \<Rightarrow> params \<Rightarrow> bool" where
  "gate_passes ex ck uc req h kit s ps \<longleftrightarrow>
     (case ex_gate ex of
        None \<Rightarrow> ps = xr_params req
      | Some evs \<Rightarrow> \<exists>out resp s'. EvaluatePre evs (ck_pre ck) (call_context ex uc (xr_tool req) (xr_params req) h kit None) s = (Inr out, ps, resp, s'))"

lemma pre_stage_passes:
  assumes "pre_stage ex ck uc req h areq kit e st = Inr (e', ps, st')"
  shows "same_call e e'" "xs_trail st' = xs_trail st" "xs_backend st' = xs_backend st" "gate_passes ex ck uc req h kit (xs_gate st) ps"
  using assms by (auto simp: pre_stage_def gate_passes_def Let_def split: option.splits sum.splits prod.splits if_splits)

lemma backend_stage_ends:
  "backend_stage ex ck req creds ps e st = Inl out \<Longrightarrow> ends ex ck req e st out \<and>
     xs_backend (snd out) = snd (ex_execute ex creds (xr_tool req) ps (xs_backend st))"
  by (auto simp: backend_stage_def split: sum.splits prod.splits intro!: endsI)

lemma backend_stage_passes:
  "backend_stage ex ck req creds ps e st = Inr (res, st') \<Longrightarrow> xs_trail st' = xs_trail st \<and>
     xs_backend st' = snd (ex_execute ex creds (xr_tool req) ps (xs_backend st))"
  by (auto simp: backend_stage_def split: sum.splits prod.splits)

lemma post_stage_ends:
  "post_stage ex ck uc req h kit ps res e st = Inl out \<Longrightarrow> ends ex ck req e st out \<and> xs_backend (snd out) = xs_backend st"
  by (auto simp: post_stage_def split: option.splits sum.splits prod.splits intro!: endsI)

lemma post_stage_passes:
  "post_stage ex ck uc req h kit ps res e st = Inr (e', ps', res', st') \<Longrightarrow> same_call e e' \<and> xs_trail st' = xs_trail st \<and> xs_backend st' = xs_backend st"
  by (auto simp: post_stage_def split: option.splits sum.splits prod.splits)

lemma finish_stage_ends: "same_call e0 e \<Longrightarrow> ends ex ck req e0 st (finish_stage ex ck trace uc req ps res e st)"
  unfolding finish_stage_def by (rule endsI [of _ _ _ _ ps _ None]) (auto simp: with_metadata_def)

lemma ends_trans: "same_call e0 e \<Longrightarrow> xs_trail st1 = xs_trail st \<Longrightarrow> ends ex ck req e st1 out \<Longrightarrow> ends ex ck req e0 st out"
  unfolding ends_def same_call_def by metis

lemma authorized_call_cases:
  assumes "authorized_call ex ck trace uc req h areq kit e st = out"
  shows "ends ex ck req e st out"
    "(xs_backend (snd out) = xs_backend st \<and> (\<forall>res. fst out = Inr res \<longrightarrow> tr_is_error res)) \<or>
     (\<exists>ps. gate_passes ex ck uc req h kit (xs_gate st) ps \<and>
        xs_backend (snd out) = snd (ex_execute ex (cred_stage ex uc (xr_tool req)) (xr_tool req) ps (xs_backend st)))"
proof -
  have "ends ex ck req e st out \<and> ((xs_backend (snd out) = xs_backend st \<and> (\<forall>res. fst out = Inr res \<longrightarrow> tr_is_error res)) \<or>
     (\<exists>ps. gate_passes ex ck uc req h kit (xs_gate st) ps \<and>
        xs_backend (snd out) = snd (ex_execute ex (cred_stage ex uc (xr_tool req)) (xr_tool req) ps (xs_backend st))))"
  proof (cases "pre_stage ex ck uc req h areq kit e st")
    case (Inl x)
    then show ?thesis using assms pre_stage_ends [OF Inl] by (simp add: authorized_call_def)
  next
    case (Inr y)
    then obtain e1 ps st1 where pre: "pre_stage ex ck uc req h areq kit e st = Inr (e1, ps, st1)" by (cases y) auto
    note p = pre_stage_passes [OF pre]
    show ?thesis
    proof (cases "backend_stage ex ck req (cred_stage ex uc (xr_tool req)) ps e1 st1")
      case (Inl x)
      then show ?thesis using assms pre backend_stage_ends [OF Inl] p ends_trans by (fastforce simp: authorized_call_def)
    next
      case (Inr z)
      then obtain res st2 where be: "backend_stage ex ck req (cred_stage ex uc (xr_tool req)) ps e1 st1 = Inr (res, st2)" by (cases z) auto
      note b = backend_stage_passes [OF be]
      show ?thesis
      proof (cases "post_stage ex ck uc req h kit ps res e1 st2")
        case (Inl x)
        have "ends ex ck req e st x" by (rule ends_trans [of e e1 st2]) (use p b post_stage_ends [OF Inl] in auto)
        then show ?thesis using assms pre be Inl post_stage_ends [OF Inl] p(3,4) b by (auto simp: authorized_call_def)
      next
        case (Inr w)
        then obtain e2 ps' res' st3 where po: "post_stage ex ck uc req h kit ps res e1 st2 = Inr (e2, ps', res', st3)" by (cases w) auto
        note q = post_stage_passes [OF po]
        have out: "out = finish_stage ex ck trace uc req ps' res' e2 st3" using assms pre be po by (simp add: authorized_call_def)
        have "ends ex ck req e st out" unfolding out
          by (rule ends_trans [of e e2 st3]) (use p(1,2) b q finish_stage_ends [of e2 e2] in \<open>auto simp: same_call_def\<close>)
        then show ?thesis using out p(3,4) b q by (auto simp: finish_stage_def)
      qed
    qed
  qed
  then show "ends ex ck req e st out"
    "(xs_backend (snd out) = xs_backend st \<and> (\<forall>res. fst out = Inr res \<longrightarrow> tr_is_error res)) \<or>
     (\<exists>ps. gate_passes ex ck uc req h kit (xs_gate st) ps \<and>
        xs_backend (snd out) = snd (ex_execute ex (cred_stage ex uc (xr_tool req)) (xr_tool req) ps (xs_backend st)))" by blast+
qed

text \<open>The request a call is authorized by, and the kit that covers it.\<close>

definition call_request :: "('ae, 'g, 'h, 'b) executor \<Rightarrow> exec_clock \<Rightarrow> user_context \<Rightarrow> string \<Rightarrow> 'h \<Rightarrow> request" where
  "call_request ex ck uc tool s = authzRequest ex uc tool (lookupToolAccess ex tool) (fst (heldKits ex (ck_held ck) (Some uc) s))"

definition call_kit :: "('ae, 'g, 'h, 'b) executor \<Rightarrow> exec_clock \<Rightarrow> user_context \<Rightarrow> string \<Rightarrow> 'h \<Rightarrow> string" where
  "call_kit ex ck uc tool s = (if ex_authorizer ex = None then [] else appliedKit (exec_Kits ex) (call_request ex ck uc tool s))"

lemma ExecuteTool_cases:
  assumes "ExecuteTool ex ck trace (Some uc) req st = out"
  shows "ends ex ck req (start_entry ex trace ck uc req) st out"
    "(xs_backend (snd out) = xs_backend st \<and> (\<forall>res. fst out = Inr res \<longrightarrow> tr_is_error res)) \<or>
     (\<forall>az. ex_authorizer ex = Some az \<longrightarrow> az_check az (call_request ex ck uc (xr_tool req) (xs_holder st)) = Inr True) \<and>
     (\<exists>ps. gate_passes ex ck uc req (fst (heldKits ex (ck_held ck) (Some uc) (xs_holder st))) (call_kit ex ck uc (xr_tool req) (xs_holder st)) (xs_gate st) ps \<and>
        xs_backend (snd out) = snd (ex_execute ex (cred_stage ex uc (xr_tool req)) (xr_tool req) ps (xs_backend st)))"
proof -
  obtain h sh where h: "heldKits ex (ck_held ck) (Some uc) (xs_holder st) = (h, sh)" by fastforce
  define areq where "areq = authzRequest ex uc (xr_tool req) (lookupToolAccess ex (xr_tool req)) h"
  have areq: "areq = call_request ex ck uc (xr_tool req) (xs_holder st)" by (simp add: areq_def call_request_def h)
  let ?e = "start_entry ex trace ck uc req" and ?st = "st\<lparr>xs_holder := sh\<rparr>"
  have st: "xs_trail ?st = xs_trail st" "xs_backend ?st = xs_backend st" "xs_gate ?st = xs_gate st" by simp_all
  have "ends ex ck req ?e ?st out \<and> ((xs_backend (snd out) = xs_backend ?st \<and> (\<forall>res. fst out = Inr res \<longrightarrow> tr_is_error res)) \<or>
     (\<forall>az. ex_authorizer ex = Some az \<longrightarrow> az_check az areq = Inr True) \<and>
     (\<exists>ps. gate_passes ex ck uc req h (call_kit ex ck uc (xr_tool req) (xs_holder st)) (xs_gate ?st) ps \<and>
        xs_backend (snd out) = snd (ex_execute ex (cred_stage ex uc (xr_tool req)) (xr_tool req) ps (xs_backend ?st))))"
  proof (cases "authz_stage ex ck uc req h areq ?e ?st")
    case (Inl x)
    then have "out = x" using assms h by (simp add: ExecuteTool_def areq_def)
    then show ?thesis using authz_stage_ends [OF Inl] by simp
  next
    case (Inr y)
    then obtain e kit where az: "authz_stage ex ck uc req h areq ?e ?st = Inr (e, kit)" by (cases y) auto
    note a = authz_stage_passes [OF az]
    have out: "authorized_call ex ck trace uc req h areq kit e ?st = out" using assms h az by (simp add: ExecuteTool_def areq_def)
    note c = authorized_call_cases [OF out]
    have "ends ex ck req ?e ?st out" using ends_trans [OF a(1) _ c(1)] by simp
    moreover have "kit = call_kit ex ck uc (xr_tool req) (xs_holder st)" using a(3) areq by (simp add: call_kit_def)
    ultimately show ?thesis using a(2) c(2) by blast
  qed
  then have e: "ends ex ck req ?e ?st out" and g: "(xs_backend (snd out) = xs_backend st \<and> (\<forall>res. fst out = Inr res \<longrightarrow> tr_is_error res)) \<or>
     (\<forall>az. ex_authorizer ex = Some az \<longrightarrow> az_check az areq = Inr True) \<and>
     (\<exists>ps. gate_passes ex ck uc req h (call_kit ex ck uc (xr_tool req) (xs_holder st)) (xs_gate st) ps \<and>
        xs_backend (snd out) = snd (ex_execute ex (cred_stage ex uc (xr_tool req)) (xr_tool req) ps (xs_backend st)))"
    unfolding st by blast+
  show "ends ex ck req ?e st out" using ends_trans [OF _ st(1) e] by simp
  show "(xs_backend (snd out) = xs_backend st \<and> (\<forall>res. fst out = Inr res \<longrightarrow> tr_is_error res)) \<or>
     (\<forall>az. ex_authorizer ex = Some az \<longrightarrow> az_check az (call_request ex ck uc (xr_tool req) (xs_holder st)) = Inr True) \<and>
     (\<exists>ps. gate_passes ex ck uc req (fst (heldKits ex (ck_held ck) (Some uc) (xs_holder st))) (call_kit ex ck uc (xr_tool req) (xs_holder st)) (xs_gate st) ps \<and>
        xs_backend (snd out) = snd (ex_execute ex (cred_stage ex uc (xr_tool req)) (xr_tool req) ps (xs_backend st)))"
    using g unfolding areq h fst_conv .
qed

section \<open>Nothing runs unauthorized\<close>

text \<open>C2: a call either leaves the backend alone and returns an error, or the authorizer allowed the request
  made of the caller, the tool and the kits held at that moment, the pre-execution gate passed, and the
  backend ran exactly once, with the parameters as the gate left them and the credentials of that
  backend. A caller without a user context gets neither.\<close>

theorem execute_guarded:
  assumes "ExecuteTool ex ck trace uco req st = (r, st')"
  shows "(xs_backend st' = xs_backend st \<and> (\<forall>res. r = Inr res \<longrightarrow> tr_is_error res)) \<or>
    (\<exists>uc. uco = Some uc \<and>
      (\<forall>az. ex_authorizer ex = Some az \<longrightarrow> az_check az (call_request ex ck uc (xr_tool req) (xs_holder st)) = Inr True) \<and>
      (\<exists>ps. gate_passes ex ck uc req (fst (heldKits ex (ck_held ck) uco (xs_holder st))) (call_kit ex ck uc (xr_tool req) (xs_holder st)) (xs_gate st) ps \<and>
        xs_backend st' = snd (ex_execute ex (cred_stage ex uc (xr_tool req)) (xr_tool req) ps (xs_backend st))))"
proof (cases uco)
  case None
  then show ?thesis using assms by (auto simp: ExecuteTool_def)
next
  case (Some uc)
  then show ?thesis using ExecuteTool_cases(2) [OF assms [unfolded Some]] by simp
qed

lemma execute_guarded_errors:
  assumes "ExecuteTool ex ck trace (Some uc) req st = (r, st')" "ex_authorizer ex = Some az" "\<And>q. az_check az q \<noteq> Inr True"
  shows "\<not> (\<exists>res. r = Inr res \<and> \<not> tr_is_error res)"
  using ExecuteTool_cases(2) [OF assms(1)] assms(2,3) by auto

text \<open>An executor for the examples: a counting backend behind an authorizer that answers with a constant.\<close>

definition counting_backend :: "cred_map \<Rightarrow> string \<Rightarrow> params \<Rightarrow> nat \<Rightarrow> (string, tool_result) result \<times> nat" where
  "counting_backend creds tool ps n = (Inr \<lparr>tr_content = Some [], tr_is_error = False, tr_metadata = None\<rparr>, Suc n)"

definition demo_executor :: "bool \<Rightarrow> (unit, rate_limiter, unit, nat) executor" where
  "demo_executor allow = \<lparr>ex_tables = \<lparr>lower_beyond_ascii = id, upper_beyond_ascii = id\<rparr>, ex_printable = (\<lambda>_. True),
     ex_authorizer = Some \<lparr>az_check = (\<lambda>_. Inr allow), az_batch = None, az_kits = None\<rparr>, ex_creds = None, ex_resolve = None, ex_lookup = None,
     ex_execute = counting_backend, ex_gate = Some [goja_evaluator demo_js [demo_policies ! 1]], ex_audit = True, ex_telemetry = False,
     ex_metrics = False, ex_holder = None\<rparr>"

definition demo_state :: "(unit, rate_limiter, unit, nat) exec_state" where
  "demo_state = \<lparr>xs_gate = [], xs_holder = (), xs_backend = 0, xs_trail = [], xs_telemetry = [], xs_metrics = []\<rparr>"

definition demo_clock :: exec_clock where
  "demo_clock = \<lparr>ck_start = 0, ck_held = 0, ck_pre = (\<lambda>_. 0), ck_post = (\<lambda>_. 0), ck_probe = (\<lambda>_ _. 0), ck_end = 0\<rparr>"

definition demo_call :: exec_request where
  "demo_call = \<lparr>xr_tool = ''dns_add'', xr_params = Some [(''token'', JStr ''t0p'')]\<rparr>"

theorem execute_guarded_witness:
  "xs_backend (snd (ExecuteTool (demo_executor False) demo_clock [] (Some zero_user_context) demo_call demo_state)) = 0"
proof -
  obtain r st' where e: "ExecuteTool (demo_executor False) demo_clock [] (Some zero_user_context) demo_call demo_state = (r, st')" by fastforce
  from execute_guarded [OF e] show ?thesis unfolding e by (auto simp: demo_executor_def demo_state_def)
qed

section \<open>One entry for every call\<close>

text \<open>C23: with an audit store, every call of an identified caller adds exactly one entry to the trail, for
  that tool and user: status success exactly when the caller gets a result that is no error, and for a
  call that fails with an error the status error and that error.\<close>

theorem execute_audited_once:
  assumes "ExecuteTool ex ck trace (Some uc) req st = (r, st')" "ex_audit ex"
  shows "\<exists>e. xs_trail st' = xs_trail st @ [e] \<and> ae_tool e = xr_tool req \<and> ae_user_id e = uc_user_id uc \<and>
    (ae_status e = StatusSuccess \<longleftrightarrow> (\<exists>res. r = Inr res \<and> \<not> tr_is_error res)) \<and>
    (\<forall>err. r = Inl err \<longrightarrow> ae_status e = StatusError \<and> ae_error e = Some err)"
proof -
  obtain live status err e st1 where s: "st' = leave ex ck req live status err e st1" "same_call (start_entry ex trace ck uc req) e"
    "xs_trail st1 = xs_trail st" "case r of Inl x \<Rightarrow> status = StatusError \<and> err = Some x | Inr res \<Rightarrow> (status = StatusSuccess \<longleftrightarrow> \<not> tr_is_error res)"
    using ExecuteTool_cases(1) [OF assms(1)] unfolding ends_def fst_conv snd_conv by blast
  have "xs_trail st' = xs_trail st @ [left_entry ck req live status err e]" using leave_trail [OF assms(2)] s(1,3) by simp
  moreover have "ae_tool e = xr_tool req" "ae_user_id e = uc_user_id uc" using s(2) by (simp_all add: same_call_def start_entry_def)
  ultimately show ?thesis using s(4) by (cases r) auto
qed

theorem execute_audited_once_witness:
  "\<exists>e. xs_trail (snd (ExecuteTool (demo_executor False) demo_clock [] (Some zero_user_context) demo_call demo_state)) = [e] \<and> ae_status e \<noteq> StatusSuccess"
proof -
  obtain r st' where e: "ExecuteTool (demo_executor False) demo_clock [] (Some zero_user_context) demo_call demo_state = (r, st')" by fastforce
  have "\<not> (\<exists>res. r = Inr res \<and> \<not> tr_is_error res)"
    using execute_guarded_errors [OF e] by (auto simp: demo_executor_def)
  with execute_audited_once [OF e] show ?thesis unfolding e by (auto simp: demo_executor_def demo_state_def)
qed

section \<open>Redaction\<close>

text \<open>the parameters in the audit entry of a call have the names the caller sent, and the value of every
  parameter with a sensitive name, in whatever case it is written, is redacted.\<close>

theorem audit_params_redacted:
  assumes "ExecuteTool ex ck trace (Some uc) req st = (r, st')" "ex_audit ex" "xr_params req \<noteq> Some []"
  shows "\<exists>e. xs_trail st' = xs_trail st @ [e] \<and> map fst (ae_params e) = map fst (param_list (xr_params req)) \<and>
    (\<forall>(k, v) \<in> set (ae_params e). to_lower (ex_tables ex) k \<in> set sensitiveParamNames \<longrightarrow> v = redacted)"
proof -
  obtain live status err e st1 where s: "st' = leave ex ck req live status err e st1" "same_call (start_entry ex trace ck uc req) e"
    "xs_trail st1 = xs_trail st"
    using ExecuteTool_cases(1) [OF assms(1)] unfolding ends_def fst_conv snd_conv by blast
  have "ae_params (left_entry ck req live status err e) = sanitizeParams (ex_tables ex) (param_list (xr_params req))"
    using s(2) assms(3) by (simp add: same_call_def start_entry_def)
  moreover have "map fst (sanitizeParams ct ps) = map fst ps" for ct ps by (simp add: sanitizeParams_def comp_def case_prod_unfold)
  moreover have "\<forall>(k, v) \<in> set (sanitizeParams ct ps). to_lower ct k \<in> set sensitiveParamNames \<longrightarrow> v = redacted" for ct ps
    by (auto simp: sanitizeParams_def)
  ultimately show ?thesis using leave_trail [OF assms(2), of ck req live status err e st1] s(1,3) by simp
qed

theorem audit_params_redacted_witness:
  "\<exists>e. xs_trail (snd (ExecuteTool (demo_executor False) demo_clock [] (Some zero_user_context) demo_call demo_state)) = [e] \<and>
     map fst (ae_params e) = [''token'']"
proof -
  obtain r st' where e: "ExecuteTool (demo_executor False) demo_clock [] (Some zero_user_context) demo_call demo_state = (r, st')" by fastforce
  from audit_params_redacted [OF e] show ?thesis unfolding e by (auto simp: demo_executor_def demo_state_def demo_call_def param_list_def)
qed

text \<open>The entry's modifications are not redacted: a policy that changes the parameters has all of them recorded
  as they were.\<close>

lemma modifications_unredacted:
  assumes "evalPolicy js p g rl = (Inr ms, g', rl')" "m \<in> set ms" "pm_target m = ModParams"
  shows "pm_before m = marshal (params_json (gc_params g))"
  using assms by (auto simp: evalPolicy_def policy_mods_def ctx_object_fields Let_def split: prod.splits js_end.splits sum.splits if_splits)

section \<open>What counts as a call\<close>

lemma goja_no_policies:
  "EvaluatePre [goja_evaluator js []] clk g rl = (Inr no_outcome, gc_params g, gc_response g,
     if gc_preflight g then rl else rate_record (clk 0) (uc_user_id (gc_user g)) rl)"
  "EvaluatePost [goja_evaluator js []] clk g rl = (Inr no_outcome, gc_params g, gc_response g,
     if gc_preflight g then rl else rate_record (clk 0) (uc_user_id (gc_user g)) rl)"
  by (simp_all add: EvaluatePre_def EvaluatePost_def goja_evaluator_def gate_Evaluate_def no_outcome_def)

text \<open>The gate counts one call twice for \<open>ctx.rateLimitExceeded\<close>, once in the pre- and once in the
  post-execution phase: after the first call of a user that runs, two calls stand in the user's window.\<close>

theorem call_counted_twice:
  assumes "ex_authorizer ex = None" "ex_gate ex = Some [goja_evaluator js []]" "xs_gate st = []"
    "ex_execute ex (cred_stage ex uc (xr_tool req)) (xr_tool req) (xr_params req) (xs_backend st) = (Inr res, sb)"
  shows "window (xs_gate (snd (ExecuteTool ex ck trace (Some uc) req st))) (uc_user_id uc) = [ck_pre ck 0, ck_post ck 0]"
proof -
  have "heldKits ex (ck_held ck) (Some uc) (xs_holder st) = (\<lparr>held_kits = [], held_parts = []\<rparr>, xs_holder st)"
    using assms(1) by (simp add: heldKits_def split: option.splits)
  then show ?thesis using assms
    by (simp add: ExecuteTool_def authz_stage_def authorized_call_def pre_stage_def goja_no_policies call_context_def no_outcome_def
        backend_stage_def post_stage_def finish_stage_def rate_record_def maxUsers_def Let_def window_def)
qed

theorem call_counted_twice_witness:
  "window (xs_gate (snd (ExecuteTool ((demo_executor True)\<lparr>ex_authorizer := None, ex_gate := Some [goja_evaluator demo_js []]\<rparr>)
     demo_clock [] (Some zero_user_context) demo_call demo_state))) (uc_user_id zero_user_context) = [0, 0]"
  using call_counted_twice [of "(demo_executor True)\<lparr>ex_authorizer := None, ex_gate := Some [goja_evaluator demo_js []]\<rparr>" demo_js
      demo_state zero_user_context demo_call _ _ demo_clock "[]"]
  by (simp add: demo_executor_def demo_state_def demo_clock_def counting_backend_def)

section \<open>Nested calls\<close>



section \<open>Remedies\<close>

text \<open>The embedded engine as the executor's authorizer.\<close>

definition engine_authorizer :: "'s fga_ops \<Rightarrow> 's embedded \<Rightarrow> engine_error authorizer" where
  "engine_authorizer ops e = \<lparr>az_check = Check ops e, az_batch = Some (fst \<circ> CheckBatch ops e), az_kits = Some (emb_kits e)\<rparr>"

lemma engine_checkAll_one: "checkAll (engine_authorizer ops e) [r] = [Check ops e r = Inr True]"
  by (cases "Check ops e r") (simp_all add: checkAll_def engine_authorizer_def CheckBatch_def Let_def)

definition kit_helps :: "'ae authorizer \<Rightarrow> request \<Rightarrow> kit \<Rightarrow> bool" where
  "kit_helps az r k \<longleftrightarrow> Covers k (rq_tool r) (rq_backend r) (rq_access r) \<and> az_check az (withKit r (kit_name k)) = Inr True"

lemma map_of_zip_map_distinct: "distinct xs \<Longrightarrow> map_of (zip xs (map f xs)) x = (if x \<in> set xs then Some (f x) else None)"
  by (induction xs) auto

lemma kit_answers_exact:
  assumes "checkAll az (map (\<lambda>i. withKit (reqs ! i) (kit_name k)) (denied_covered reqs allowed k)) =
      map (\<lambda>i. az_check az (withKit (reqs ! i) (kit_name k)) = Inr True) (denied_covered reqs allowed k)" "i < length reqs"
  shows "map_of (kit_answers az True reqs allowed k) i = Some True \<longleftrightarrow> \<not> allowed ! i \<and> kit_helps az (reqs ! i) k"
    "map_of (kit_answers az True reqs allowed k) i \<noteq> None \<longleftrightarrow> \<not> allowed ! i \<and> Covers k (rq_tool (reqs ! i)) (rq_backend (reqs ! i)) (rq_access (reqs ! i))"
proof -
  have d: "distinct (denied_covered reqs allowed k)" by (simp add: denied_covered_def)
  have a: "kit_answers az True reqs allowed k = zip (denied_covered reqs allowed k)
      (map (\<lambda>i. az_check az (withKit (reqs ! i) (kit_name k)) = Inr True) (denied_covered reqs allowed k))"
    using assms(1) by (cases "denied_covered reqs allowed k = []") (simp_all add: kit_answers_def Let_def)
  have "map_of (kit_answers az True reqs allowed k) i = (if i \<in> set (denied_covered reqs allowed k)
      then Some (az_check az (withKit (reqs ! i) (kit_name k)) = Inr True) else None)"
    unfolding a by (rule map_of_zip_map_distinct [OF d])
  then show "map_of (kit_answers az True reqs allowed k) i = Some True \<longleftrightarrow> \<not> allowed ! i \<and> kit_helps az (reqs ! i) k"
    "map_of (kit_answers az True reqs allowed k) i \<noteq> None \<longleftrightarrow> \<not> allowed ! i \<and> Covers k (rq_tool (reqs ! i)) (rq_backend (reqs ! i)) (rq_access (reqs ! i))"
    using assms(2) by (auto simp: denied_covered_def kit_helps_def)
qed

lemma filter_zip_map: "map (f \<circ> fst) (filter (\<lambda>(k, a). P k a) (zip ks (map g ks))) = map f (filter (\<lambda>k. P k (g k)) ks)"
  by (induction ks) auto

text \<open>The rights of the assessment, when the authorizer answers a batch as it answers single checks.\<close>

lemma assess_exact:
  assumes "\<And>k. k \<in> set kits \<Longrightarrow> checkAll az (map (\<lambda>i. withKit (reqs ! i) (kit_name k)) (denied_covered reqs allowed k)) =
      map (\<lambda>i. az_check az (withKit (reqs ! i) (kit_name k)) = Inr True) (denied_covered reqs allowed k)" "i < length reqs"
  shows "ri_kits (assess az kits reqs allowed True ! i) = (if allowed ! i then [] else map kit_name (filter (kit_helps az (reqs ! i)) kits))"
    "ri_verdict (assess az kits reqs allowed True ! i) =
      (if allowed ! i then VerdictAllowed else if list_ex (kit_helps az (reqs ! i)) kits then VerdictEscalatable else VerdictDenied)"
proof -
  have f: "filter (\<lambda>k. map_of (kit_answers az True reqs allowed k) i = Some True) kits =
      (if allowed ! i then [] else filter (kit_helps az (reqs ! i)) kits)"
    using kit_answers_exact(1) [OF assms(1) assms(2)] by (auto intro: filter_cong simp: filter_empty_conv)
  have a: "assess az kits reqs allowed True ! i = assess_one kits (map (kit_answers az True reqs allowed) kits) reqs allowed i"
    using assms(2) by (simp add: assess_def)
  show kits: "ri_kits (assess az kits reqs allowed True ! i) = (if allowed ! i then [] else map kit_name (filter (kit_helps az (reqs ! i)) kits))"
    unfolding a assess_one_def Let_def filter_zip_map using f by (simp add: plain_right_def)
  show "ri_verdict (assess az kits reqs allowed True ! i) =
      (if allowed ! i then VerdictAllowed else if list_ex (kit_helps az (reqs ! i)) kits then VerdictEscalatable else VerdictDenied)"
    unfolding a assess_one_def Let_def filter_zip_map using f by (auto simp: plain_right_def list_ex_iff filter_empty_conv)
qed

lemma passing_kits_sound:
  "passing_kits evs kits clk uco r ps names s = (ok, refusal, s') \<Longrightarrow>
     set ok \<subseteq> set names \<and> (\<forall>n \<in> set ok. \<exists>clk1 s1. fst (gatePreflight evs kits clk1 uco (withKit r n) ps s1) = [])"
proof (induction evs kits clk uco r ps names s arbitrary: ok refusal s' rule: passing_kits.induct)
  case (2 evs kits clk uco r ps name names s)
  obtain ref s1 where g: "gatePreflight evs kits (clk 0) uco (withKit r name) ps s = (ref, s1)" by fastforce
  obtain ok' later s2 where q: "passing_kits evs kits (\<lambda>n. clk (Suc n)) uco r ps names s1 = (ok', later, s2)" by (metis prod.collapse)
  define P where "P n \<longleftrightarrow> (\<exists>clk1 s1. fst (gatePreflight evs kits clk1 uco (withKit r n) ps s1) = [])" for n
  have "ref = [] \<Longrightarrow> P name" using g by (metis P_def fst_conv)
  moreover have "set ok' \<subseteq> set names" "\<forall>n \<in> set ok'. P n" using 2(1) [OF g [symmetric] refl q] unfolding P_def by blast+
  ultimately have "set ok \<subseteq> set (name # names) \<and> (\<forall>n \<in> set ok. P n)" using 2(2) g q by (auto simp: Let_def split: if_splits)
  then show ?case unfolding P_def .
qed simp

end
