(* ===== verification/EngineSpec.thy ===== *)
theory EngineSpec
  imports Engine
begin

text \<open>
  What the embedded engine promises, stated over the configured rules instead of tuples: a call is
  allowed when a grant, a held kit or a part of a kit covers it and no deny does. The theory shows
  that the evaluation of the authorization model over the tuples the engine stores and passes
  decides exactly that.
\<close>

section \<open>The abstract decision\<close>

definition subject_matches :: "authz_grant \<Rightarrow> request \<Rightarrow> bool" where
  "subject_matches g r = (case rule_subject g of
     SubUser u \<Rightarrow> u = rq_user_id r
   | SubRole x \<Rightarrow> x \<in> set (rq_roles r)
   | SubPlan p \<Rightarrow> p = rq_plan r
   | SubCompany c \<Rightarrow> c = rq_company_id r
   | SubEveryone \<Rightarrow> True)"

definition target_matches :: "authz_grant \<Rightarrow> request \<Rightarrow> bool" where
  "target_matches g r \<longleftrightarrow> ag_all_tools g \<or> (rq_backend r \<noteq> [] \<and> rq_backend r \<in> set (ag_backends g)) \<or>
     rq_tool r \<in> set (ag_tools g) \<or> (rq_access r \<noteq> [] \<and> rq_access r \<in> set (ag_access g))"

definition rule_matches :: "authz_grant \<Rightarrow> request \<Rightarrow> bool" where
  "rule_matches g r \<longleftrightarrow> subject_matches g r \<and> target_matches g r"

definition kit_matches :: "kit list \<Rightarrow> request \<Rightarrow> bool" where
  "kit_matches kits r \<longleftrightarrow>
     (\<exists>k \<in> set kits. kit_name k \<in> set (rq_kits r) \<and> Covers k (rq_tool r) (rq_backend r) (rq_access r)) \<or>
     (\<exists>p \<in> set (rq_kit_parts r). \<exists>k \<in> set kits. kit_name k = part_kit p \<and>
        PartCovers k p (rq_tool r) (rq_backend r) (rq_access r))"

definition spec_allows :: "authz_grant list \<Rightarrow> authz_grant list \<Rightarrow> kit list \<Rightarrow> request \<Rightarrow> bool" where
  "spec_allows grants denies kits r \<longleftrightarrow>
     ((\<exists>g \<in> set grants. rule_matches g r) \<or> kit_matches kits r) \<and> \<not> (\<exists>d \<in> set denies. rule_matches d r)"

section \<open>Well-formed names\<close>

text \<open>Names come from YAML and JSON documents, which are UTF-8.\<close>

definition utf8_rule :: "authz_grant \<Rightarrow> bool" where
  "utf8_rule g \<longleftrightarrow> list_all valid_utf8 ([ag_user g, ag_role g, ag_plan g, ag_company g] @
     ag_backends g @ ag_tools g @ ag_access g)"

definition utf8_kit :: "kit \<Rightarrow> bool" where
  "utf8_kit k \<longleftrightarrow> list_all valid_utf8 (kit_name k # kit_grants k @ kit_tools k)"

definition utf8_request :: "request \<Rightarrow> bool" where
  "utf8_request r \<longleftrightarrow> list_all valid_utf8 ([rq_user_id r, rq_company_id r, rq_plan r, rq_tool r,
     rq_backend r, rq_access r] @ rq_roles r @ rq_kits r)"

definition utf8_rules :: "authz_grant list \<Rightarrow> authz_grant list \<Rightarrow> kit list \<Rightarrow> bool" where
  "utf8_rules grants denies kits \<longleftrightarrow>
     list_all utf8_rule grants \<and> list_all utf8_rule denies \<and> list_all utf8_kit kits"

section \<open>Shapes of object and user strings\<close>

lemma takeWhile_append_sep: "c \<notin> set a \<Longrightarrow> takeWhile (\<lambda>x. x \<noteq> c) (a @ c # b) = a"
  by (induction a) auto

lemma dropWhile_append_sep: "c \<notin> set a \<Longrightarrow> dropWhile (\<lambda>x. x \<noteq> c) (a @ c # b) = c # b"
  by (induction a) auto

lemmas object_defs = user_object_def company_object_def role_object_def plan_object_def
  kit_object_def backend_object_def access_object_def backend_access_object_def tool_object_def
  objInstance_def

lemma type_of_object [simp]:
  "type_of (user_object x) = ''user''" "type_of (company_object x) = ''company''"
  "type_of (role_object x) = ''role''" "type_of (plan_object x) = ''plan''"
  "type_of (kit_object x) = ''kit''" "type_of (backend_object x) = ''backend''"
  "type_of (access_object x) = ''access_class''"
  "type_of (backend_access_object x y) = ''backend_access''" "type_of (tool_object x) = ''tool''"
  "type_of objInstance = ''instance''"
  by (simp_all add: type_of_def object_defs)

lemma plain_object [simp]:
  "\<not> is_userset (user_object x)" "\<not> is_userset (company_object x)" "\<not> is_userset (role_object x)"
  "\<not> is_userset (plan_object x)" "\<not> is_userset (kit_object x)" "\<not> is_userset (backend_object x)"
  "\<not> is_userset (access_object x)" "\<not> is_userset (backend_access_object x y)"
  "\<not> is_userset (tool_object x)" "\<not> is_userset objInstance" "\<not> is_userset anyone"
  by (simp_all add: is_userset_def object_defs anyone_def backendAccessID_def)

lemma userset_parts [simp]:
  "\<not> is_userset a \<Longrightarrow> userset_object (userset a rel) = a"
  "\<not> is_userset a \<Longrightarrow> userset_relation (userset a rel) = rel"
  "is_userset (userset a rel)"
  by (simp_all add: userset_object_def userset_relation_def is_userset_def userset_def
      takeWhile_append_sep dropWhile_append_sep)

lemma type_of_userset [simp]: "CHR '':'' \<in> set a \<Longrightarrow> type_of (userset a rel) = type_of a"
  by (simp add: type_of_def userset_def takeWhile_append1)

lemma colon_in_object [simp]:
  "CHR '':'' \<in> set (company_object x)" "CHR '':'' \<in> set (role_object x)"
  "CHR '':'' \<in> set (plan_object x)" "CHR '':'' \<in> set (kit_object x)"
  by (simp_all add: object_defs)

lemma user_object_not_anyone [simp]: "user_object x \<noteq> anyone" "anyone \<noteq> user_object x"
proof -
  have "CHR ''*'' \<notin> set (user_object x)" by (simp add: user_object_def)
  moreover have "CHR ''*'' \<in> set anyone" by (simp add: anyone_def)
  ultimately show "user_object x \<noteq> anyone" "anyone \<noteq> user_object x" by metis+
qed

lemma userset_neq [simp]: "userset a rel \<noteq> user_object x" "userset a rel \<noteq> anyone"
  by (metis plain_object(1) userset_parts(3)) (metis plain_object(11) userset_parts(3))

lemma type_of_anyone [simp]: "type_of anyone = ''user''"
  by (simp add: type_of_def anyone_def)

lemma object_inj:
  "valid_utf8 x \<Longrightarrow> valid_utf8 y \<Longrightarrow> user_object x = user_object y \<longleftrightarrow> x = y"
  "valid_utf8 x \<Longrightarrow> valid_utf8 y \<Longrightarrow> company_object x = company_object y \<longleftrightarrow> x = y"
  "valid_utf8 x \<Longrightarrow> valid_utf8 y \<Longrightarrow> role_object x = role_object y \<longleftrightarrow> x = y"
  "valid_utf8 x \<Longrightarrow> valid_utf8 y \<Longrightarrow> plan_object x = plan_object y \<longleftrightarrow> x = y"
  "valid_utf8 x \<Longrightarrow> valid_utf8 y \<Longrightarrow> kit_object x = kit_object y \<longleftrightarrow> x = y"
  "valid_utf8 x \<Longrightarrow> valid_utf8 y \<Longrightarrow> backend_object x = backend_object y \<longleftrightarrow> x = y"
  "valid_utf8 x \<Longrightarrow> valid_utf8 y \<Longrightarrow> access_object x = access_object y \<longleftrightarrow> x = y"
  "valid_utf8 x \<Longrightarrow> valid_utf8 y \<Longrightarrow> tool_object x = tool_object y \<longleftrightarrow> x = y"
  "valid_utf8 b \<Longrightarrow> valid_utf8 a \<Longrightarrow> valid_utf8 b' \<Longrightarrow> valid_utf8 a' \<Longrightarrow>
     backend_access_object b a = backend_access_object b' a' \<longleftrightarrow> b = b' \<and> a = a'"
  by (simp_all add: object_defs escapeID_inj backendAccessID_inj)

text \<open>Objects of different types are different.\<close>

lemma object_distinct [simp]:
  "tool_object t \<noteq> objInstance" "objInstance \<noteq> tool_object t"
  "tool_object t \<noteq> backend_object b" "backend_object b \<noteq> tool_object t"
  "tool_object t \<noteq> access_object a" "access_object a \<noteq> tool_object t"
  "tool_object t \<noteq> backend_access_object x y" "backend_access_object x y \<noteq> tool_object t"
  "objInstance \<noteq> backend_object b" "backend_object b \<noteq> objInstance"
  "objInstance \<noteq> access_object a" "access_object a \<noteq> objInstance"
  "objInstance \<noteq> backend_access_object x y" "backend_access_object x y \<noteq> objInstance"
  "backend_object b \<noteq> access_object a" "access_object a \<noteq> backend_object b"
  "backend_object b \<noteq> backend_access_object x y" "backend_access_object x y \<noteq> backend_object b"
  "access_object a \<noteq> backend_access_object x y" "backend_access_object x y \<noteq> access_object a"
  by (rule notI, drule arg_cong [where f = type_of], simp)+

section \<open>The tuples of rules and requests\<close>

definition kit_objects :: "kit \<Rightarrow> string list" where
  "kit_objects k = scope_objects (kit_grants k) @ map tool_object (kit_tools k)"

definition rule_tuples :: "authz_grant list \<Rightarrow> authz_grant list \<Rightarrow> kit list \<Rightarrow> tuple_key set" where
  "rule_tuples grants denies kits =
     (\<Union>g \<in> set grants. set (grant_tuples g relExecutor)) \<union>
     (\<Union>g \<in> set denies. set (grant_tuples g relBlocked)) \<union> (\<Union>k \<in> set kits. set (kit_tuples k))"

abbreviation check_tuples :: "authz_grant list \<Rightarrow> authz_grant list \<Rightarrow> kit list \<Rightarrow> kit list \<Rightarrow> request \<Rightarrow> tuple_key set" where
  "check_tuples grants denies kits ks r \<equiv> rule_tuples grants denies kits \<union> set (context_tuples ks r)"

lemmas relation_defs = relExecutor_def relBlocked_def relHolder_def

lemma set_dedup: "set (dedup seen xs) = set xs - set seen"
  by (induction xs arbitrary: seen) auto

lemma set_dedup_names [simp]: "set (dedup_names xs) = set xs - {[]}"
  by (auto simp: dedup_names_def set_dedup)

lemma rule_tuple_relation: "t \<in> rule_tuples grants denies kits \<Longrightarrow> tk_relation t = relExecutor \<or> tk_relation t = relBlocked"
  by (auto simp: rule_tuples_def grant_tuples_def kit_tuples_def)

lemma structure_tuple_relation:
  "t \<in> set (structure_tuples r) \<Longrightarrow> tk_relation t \<in> {''instance'', ''backend'', ''access_class'', ''backend_access''}"
  by (auto simp: structure_tuples_def Let_def split: if_splits)

lemma identity_tuple_relation:
  "t \<in> set (identity_tuples r) \<Longrightarrow>
     tk_relation t \<in> {''member'', ''subscriber'', ''assignee'', relHolder} \<and> tk_user t = user_string r"
  by (auto simp: identity_tuples_def Let_def split: if_splits)

lemma part_tuple_relation: "t \<in> set (part_tuples ks r) \<Longrightarrow> tk_relation t = relExecutor \<and> tk_user t = user_string r"
  by (auto simp: part_tuples_def)

lemmas tuple_relations = rule_tuple_relation structure_tuple_relation identity_tuple_relation part_tuple_relation

lemma check_tuples_cases:
  assumes "t \<in> check_tuples grants denies kits ks r"
  obtains (rule) "t \<in> rule_tuples grants denies kits" "tk_relation t = relExecutor \<or> tk_relation t = relBlocked"
  | (structural) "t \<in> set (structure_tuples r)" "tk_relation t \<in> {''instance'', ''backend'', ''access_class'', ''backend_access''}"
  | (identity) "t \<in> set (identity_tuples r)" "tk_relation t \<in> {''member'', ''subscriber'', ''assignee'', relHolder}"
      "tk_user t = user_string r"
  | (part) "t \<in> set (part_tuples ks r)" "tk_relation t = relExecutor" "tk_user t = user_string r"
  using assms tuple_relations unfolding context_tuples_def by (metis Un_iff set_append)

lemma identity_tuple_iff:
  assumes "rel \<in> {''member'', ''subscriber'', ''assignee'', relHolder}"
  shows "TupleKey u rel obj \<in> check_tuples grants denies kits ks r \<longleftrightarrow> TupleKey u rel obj \<in> set (identity_tuples r)"
proof
  assume "TupleKey u rel obj \<in> check_tuples grants denies kits ks r"
  then show "TupleKey u rel obj \<in> set (identity_tuples r)"
    by (cases rule: check_tuples_cases) (use assms in \<open>auto simp: relation_defs\<close>)
qed (simp add: context_tuples_def)

lemma identity_tuples_iff:
  "TupleKey u ''member'' obj \<in> set (identity_tuples r) \<longleftrightarrow>
     u = user_string r \<and> rq_company_id r \<noteq> [] \<and> obj = company_object (rq_company_id r)"
  "TupleKey u ''subscriber'' obj \<in> set (identity_tuples r) \<longleftrightarrow>
     u = user_string r \<and> rq_plan r \<noteq> [] \<and> obj = plan_object (rq_plan r)"
  "TupleKey u ''assignee'' obj \<in> set (identity_tuples r) \<longleftrightarrow>
     u = user_string r \<and> (\<exists>x \<in> set (rq_roles r). x \<noteq> [] \<and> obj = role_object x)"
  "TupleKey u relHolder obj \<in> set (identity_tuples r) \<longleftrightarrow>
     u = user_string r \<and> (\<exists>x \<in> set (rq_kits r). x \<noteq> [] \<and> obj = kit_object x)"
  by (auto simp: identity_tuples_def Let_def relHolder_def)

lemma subscriber_only_users:
  assumes "t \<in> check_tuples grants denies kits ks r" "tk_relation t = ''subscriber''"
  shows "type_of (tk_user t) = ''user''"
  using assms(1) by (cases rule: check_tuples_cases) (use assms(2) in \<open>auto simp: relation_defs user_string_def\<close>)

lemma membership_iff:
  assumes "\<not> is_userset obj" and "rel \<in> {''member'', ''subscriber'', ''assignee'', relHolder}"
  shows "has_membership (check_tuples grants denies kits ks r) u (userset obj rel) \<longleftrightarrow>
    TupleKey u rel obj \<in> set (identity_tuples r)"
proof -
  let ?ts = "check_tuples grants denies kits ks r"
  have "\<not> (\<exists>t \<in> ?ts. tk_relation t = ''subscriber'' \<and> type_of (tk_user t) = ''company'')"
    using subscriber_only_users by fastforce
  then have "has_membership ?ts u (userset obj rel) \<longleftrightarrow> TupleKey u rel obj \<in> ?ts"
    using assms(1) unfolding has_membership_def Let_def by auto
  then show ?thesis using identity_tuple_iff [OF assms(2)] by simp
qed

section \<open>Subjects\<close>

lemma is_subject_rule:
  assumes "utf8_rule g" "utf8_request r"
  shows "is_subject (check_tuples grants denies kits ks r) (user_string r) (grant_subject g) \<longleftrightarrow> subject_matches g r"
proof -
  have v: "valid_utf8 (ag_user g)" "valid_utf8 (ag_role g)" "valid_utf8 (ag_plan g)" "valid_utf8 (ag_company g)"
    "valid_utf8 (rq_user_id r)" "valid_utf8 (rq_plan r)" "valid_utf8 (rq_company_id r)"
    "\<forall>x \<in> set (rq_roles r). valid_utf8 x"
    using assms by (auto simp: utf8_rule_def utf8_request_def list_all_iff)
  show ?thesis using v
    by (auto simp: grant_subject_def subject_matches_def rule_subject_def is_subject_def membership_iff
        identity_tuples_iff object_inj user_string_def anyone_def [symmetric])
qed

lemma is_subject_kit:
  assumes "utf8_kit k" "utf8_request r" "kit_name k \<noteq> []"
  shows "is_subject (check_tuples grants denies kits ks r) (user_string r) (kit_holder k) \<longleftrightarrow> kit_name k \<in> set (rq_kits r)"
proof -
  have v: "valid_utf8 (kit_name k)" "\<forall>x \<in> set (rq_kits r). valid_utf8 x"
    using assms by (auto simp: utf8_kit_def utf8_request_def list_all_iff)
  have "is_subject (check_tuples grants denies kits ks r) (user_string r) (kit_holder k) \<longleftrightarrow>
      TupleKey (user_string r) relHolder (kit_object (kit_name k)) \<in> set (identity_tuples r)"
    by (simp add: is_subject_def kit_holder_def membership_iff user_string_def)
  also have "\<dots> \<longleftrightarrow> kit_name k \<in> set (rq_kits r)"
    using v assms(3) by (auto simp: identity_tuples_iff object_inj)
  finally show ?thesis .
qed

lemma is_subject_self: "is_subject ts u u"
  by (simp add: is_subject_def)

section \<open>Direct relations\<close>

lemma kit_tuples_objects: "kit_tuples k = map (TupleKey (kit_holder k) relExecutor) (kit_objects k)"
  by (simp add: kit_tuples_def kit_objects_def)

lemma scope_object_type: "type_of (scope_object s) \<in> {''instance'', ''backend'', ''access_class'', ''backend_access''}"
  by (simp add: scope_object_def)

lemma grant_object_type: "obj \<in> set (grant_objects g) \<Longrightarrow> type_of obj \<in> set rule_types"
  by (auto simp: grant_objects_def rule_types_def split: if_splits)

lemma kit_object_type: "obj \<in> set (kit_objects k) \<Longrightarrow> type_of obj \<in> set (''backend_access'' # rule_types)"
  using scope_object_type by (fastforce simp: kit_objects_def set_scope_objects rule_types_def)

lemma part_object_type: "obj \<in> set (partObjects k p) \<Longrightarrow> type_of obj \<in> set (''backend_access'' # rule_types)"
  using scope_object_type by (fastforce simp: partObjects_def set_scope_objects rule_types_def)

lemma admits_rule: "type_of obj \<in> set rule_types \<Longrightarrow> rel = relExecutor \<or> rel = relBlocked \<Longrightarrow> admits rel (type_of obj) (grant_subject g)"
  by (auto simp: admits_def grant_subject_def subject_sets_def rule_types_def relation_defs
      anyone_def [symmetric])

lemma admits_kit: "type_of obj \<in> set (''backend_access'' # rule_types) \<Longrightarrow> admits relExecutor (type_of obj) (kit_holder k)"
  by (auto simp: admits_def kit_holder_def rule_types_def)

lemma admits_user: "type_of obj \<in> set (''backend_access'' # rule_types) \<Longrightarrow> admits relExecutor (type_of obj) (user_string r)"
  by (auto simp: admits_def user_string_def rule_types_def)

definition part_objects_request :: "kit list \<Rightarrow> request \<Rightarrow> string set" where
  "part_objects_request ks r = set (part_objects_of ks (rq_kit_parts r))"

lemma fga_directI:
  "TupleKey u rel obj \<in> ts \<Longrightarrow> admits rel (type_of obj) u \<Longrightarrow> is_subject ts user u \<Longrightarrow> fga_direct ts rel user obj"
  unfolding fga_direct_def by (metis tuple_key.sel)

lemma direct_executorI:
  assumes utf8: "utf8_rules grants denies kits" "utf8_request r"
    and names: "\<forall>k \<in> set kits. kit_name k \<noteq> []"
    and cases: "(\<exists>g \<in> set grants. subject_matches g r \<and> obj \<in> set (grant_objects g)) \<or>
      (\<exists>k \<in> set kits. kit_name k \<in> set (rq_kits r) \<and> obj \<in> set (kit_objects k)) \<or> obj \<in> part_objects_request ks r"
  shows "fga_direct (check_tuples grants denies kits ks r) relExecutor (user_string r) obj"
proof -
  let ?ts = "check_tuples grants denies kits ks r"
  have u: "\<forall>g \<in> set grants. utf8_rule g" "\<forall>k \<in> set kits. utf8_kit k"
    using utf8(1) by (auto simp: utf8_rules_def list_all_iff)
  from cases consider (g) g where "g \<in> set grants" "subject_matches g r" "obj \<in> set (grant_objects g)"
    | (k) k where "k \<in> set kits" "kit_name k \<in> set (rq_kits r)" "obj \<in> set (kit_objects k)"
    | (p) "obj \<in> part_objects_request ks r" by auto
  then show ?thesis
  proof cases
    case g
    then have t: "TupleKey (grant_subject g) relExecutor obj \<in> ?ts"
      by (auto simp: rule_tuples_def grant_tuples_def)
    have i: "is_subject ?ts (user_string r) (grant_subject g)"
      using g u utf8(2) is_subject_rule by blast
    show ?thesis by (rule fga_directI [OF t admits_rule [OF grant_object_type [OF g(3)]] i]) simp
  next
    case k
    then have "TupleKey (kit_holder k) relExecutor obj \<in> ?ts"
      by (auto simp: rule_tuples_def kit_tuples_objects)
    moreover have "is_subject ?ts (user_string r) (kit_holder k)"
      using k u utf8(2) names is_subject_kit by blast
    ultimately show ?thesis using k kit_object_type admits_kit fga_directI by blast
  next
    case p
    then have "TupleKey (user_string r) relExecutor obj \<in> ?ts"
      by (auto simp: context_tuples_def part_tuples_def part_objects_request_def set_dedup)
    moreover have "type_of obj \<in> set (''backend_access'' # rule_types)"
      using p part_object_type by (fastforce simp: part_objects_request_def part_objects_of_def split: option.splits)
    ultimately show ?thesis using admits_user fga_directI is_subject_self by blast
  qed
qed

lemma direct_executorD:
  assumes utf8: "utf8_rules grants denies kits" "utf8_request r"
    and names: "\<forall>k \<in> set kits. kit_name k \<noteq> []"
    and direct: "fga_direct (check_tuples grants denies kits ks r) relExecutor (user_string r) obj"
  shows "(\<exists>g \<in> set grants. subject_matches g r \<and> obj \<in> set (grant_objects g)) \<or>
    (\<exists>k \<in> set kits. kit_name k \<in> set (rq_kits r) \<and> obj \<in> set (kit_objects k)) \<or> obj \<in> part_objects_request ks r"
proof -
  let ?ts = "check_tuples grants denies kits ks r"
  have u: "\<forall>g \<in> set grants. utf8_rule g" "\<forall>k \<in> set kits. utf8_kit k"
    using utf8(1) by (auto simp: utf8_rules_def list_all_iff)
  from direct obtain t where t: "t \<in> ?ts" "tk_relation t = relExecutor" "tk_object t = obj"
      "is_subject ?ts (user_string r) (tk_user t)"
    by (auto simp: fga_direct_def)
  from t(1) show ?thesis
  proof (cases rule: check_tuples_cases)
    case rule
    then consider g where "g \<in> set grants" "t \<in> set (grant_tuples g relExecutor)"
      | k where "k \<in> set kits" "t \<in> set (kit_tuples k)"
      using t(2) by (auto simp: rule_tuples_def grant_tuples_def relation_defs)
    then show ?thesis
    proof cases
      case 1
      then show ?thesis using t u utf8(2) is_subject_rule by (fastforce simp: grant_tuples_def)
    next
      case 2
      then show ?thesis using t u utf8(2) names is_subject_kit by (fastforce simp: kit_tuples_objects)
    qed
  next
    case part
    then show ?thesis using t by (auto simp: part_tuples_def part_objects_request_def set_dedup)
  qed (use t(2) in \<open>auto simp: relation_defs\<close>)
qed

lemma direct_blocked_iff:
  assumes utf8: "utf8_rules grants denies kits" "utf8_request r"
  shows "fga_direct (check_tuples grants denies kits ks r) relBlocked (user_string r) obj \<longleftrightarrow>
    (\<exists>d \<in> set denies. subject_matches d r \<and> obj \<in> set (grant_objects d))" (is "?direct \<longleftrightarrow> ?d")
proof
  let ?ts = "check_tuples grants denies kits ks r"
  have u: "\<forall>g \<in> set denies. utf8_rule g" using utf8(1) by (auto simp: utf8_rules_def list_all_iff)
  assume ?direct
  then obtain t where t: "t \<in> ?ts" "tk_relation t = relBlocked" "tk_object t = obj"
      "is_subject ?ts (user_string r) (tk_user t)"
    by (auto simp: fga_direct_def)
  from t(1) show ?d
  proof (cases rule: check_tuples_cases)
    case rule
    then obtain d where "d \<in> set denies" "t \<in> set (grant_tuples d relBlocked)"
      using t(2) by (auto simp: rule_tuples_def grant_tuples_def kit_tuples_def relation_defs)
    then show ?thesis using t u utf8(2) is_subject_rule by (fastforce simp: grant_tuples_def)
  qed (use t(2) in \<open>auto simp: relation_defs\<close>)
next
  let ?ts = "check_tuples grants denies kits ks r"
  have u: "\<forall>g \<in> set denies. utf8_rule g" using utf8(1) by (auto simp: utf8_rules_def list_all_iff)
  assume ?d
  then obtain d where d: "d \<in> set denies" "subject_matches d r" "obj \<in> set (grant_objects d)" by blast
  then have t: "TupleKey (grant_subject d) relBlocked obj \<in> ?ts"
    by (auto simp: rule_tuples_def grant_tuples_def)
  have i: "is_subject ?ts (user_string r) (grant_subject d)"
    using d u utf8(2) is_subject_rule by blast
  show ?direct by (rule fga_directI [OF t admits_rule [OF grant_object_type [OF d(3)]] i]) simp
qed

section \<open>The objects a request touches\<close>

definition request_objects :: "request \<Rightarrow> string set" where
  "request_objects r = {tool_object (rq_tool r), objInstance} \<union>
     (if rq_backend r \<noteq> [] then {backend_object (rq_backend r)} else {}) \<union>
     (if rq_access r \<noteq> [] then {access_object (rq_access r)} else {}) \<union>
     (if rq_backend r \<noteq> [] \<and> rq_access r \<noteq> [] then {backend_access_object (rq_backend r) (rq_access r)} else {})"

lemma structure_tuple_iff:
  assumes "via \<in> {''instance'', ''backend'', ''access_class'', ''backend_access''}"
  shows "TupleKey u via obj \<in> check_tuples grants denies kits ks r \<longleftrightarrow> TupleKey u via obj \<in> set (structure_tuples r)"
proof
  assume "TupleKey u via obj \<in> check_tuples grants denies kits ks r"
  then show "TupleKey u via obj \<in> set (structure_tuples r)"
    by (cases rule: check_tuples_cases) (use assms in \<open>auto simp: relation_defs\<close>)
qed (simp add: context_tuples_def)

lemma fga_from_iff:
  "fga_from ts rel via u tool \<longleftrightarrow>
     (\<exists>x. TupleKey x via tool \<in> ts \<and> type_of x = via \<and> \<not> is_userset x \<and> fga_direct ts rel u x)"
proof
  assume "fga_from ts rel via u tool"
  then obtain t where "t \<in> ts" "tk_relation t = via" "tk_object t = tool" "type_of (tk_user t) = via"
      "\<not> is_userset (tk_user t)" "fga_direct ts rel u (tk_user t)"
    by (auto simp: fga_from_def)
  moreover from this have "TupleKey (tk_user t) via tool = t" by (cases t) auto
  ultimately show "\<exists>x. TupleKey x via tool \<in> ts \<and> type_of x = via \<and> \<not> is_userset x \<and> fga_direct ts rel u x"
    by (intro exI [of _ "tk_user t"]) simp
qed (force simp: fga_from_def)

lemma from_iff:
  fixes r :: request
  defines "tool \<equiv> tool_object (rq_tool r)"
  shows "fga_from (check_tuples grants denies kits ks r) rel ''instance'' u tool \<longleftrightarrow>
      fga_direct (check_tuples grants denies kits ks r) rel u objInstance"
    and "fga_from (check_tuples grants denies kits ks r) rel ''backend'' u tool \<longleftrightarrow>
      rq_backend r \<noteq> [] \<and> fga_direct (check_tuples grants denies kits ks r) rel u (backend_object (rq_backend r))"
    and "fga_from (check_tuples grants denies kits ks r) rel ''access_class'' u tool \<longleftrightarrow>
      rq_access r \<noteq> [] \<and> fga_direct (check_tuples grants denies kits ks r) rel u (access_object (rq_access r))"
    and "fga_from (check_tuples grants denies kits ks r) rel ''backend_access'' u tool \<longleftrightarrow>
      rq_backend r \<noteq> [] \<and> rq_access r \<noteq> [] \<and>
      fga_direct (check_tuples grants denies kits ks r) rel u (backend_access_object (rq_backend r) (rq_access r))"
proof -
  let ?ts = "check_tuples grants denies kits ks r"
  have *: "fga_from ?ts rel via u tool \<longleftrightarrow> (\<exists>x. TupleKey x via tool \<in> set (structure_tuples r) \<and>
      type_of x = via \<and> \<not> is_userset x \<and> fga_direct ?ts rel u x)"
    if "via \<in> {''instance'', ''backend'', ''access_class'', ''backend_access''}" for via
    unfolding fga_from_iff structure_tuple_iff [OF that] ..
  show "fga_from ?ts rel ''instance'' u tool \<longleftrightarrow> fga_direct ?ts rel u objInstance"
    by (subst *) (auto simp: structure_tuples_def tool_def Let_def)
  show "fga_from ?ts rel ''backend'' u tool \<longleftrightarrow> rq_backend r \<noteq> [] \<and> fga_direct ?ts rel u (backend_object (rq_backend r))"
    by (subst *) (auto simp: structure_tuples_def tool_def Let_def)
  show "fga_from ?ts rel ''access_class'' u tool \<longleftrightarrow> rq_access r \<noteq> [] \<and> fga_direct ?ts rel u (access_object (rq_access r))"
    by (subst *) (auto simp: structure_tuples_def tool_def Let_def)
  show "fga_from ?ts rel ''backend_access'' u tool \<longleftrightarrow> rq_backend r \<noteq> [] \<and> rq_access r \<noteq> [] \<and>
      fga_direct ?ts rel u (backend_access_object (rq_backend r) (rq_access r))"
    by (subst *) (auto simp: structure_tuples_def tool_def Let_def)
qed

lemma executor_iff:
  "fga_executor (check_tuples grants denies kits ks r) u (tool_object (rq_tool r)) \<longleftrightarrow>
     (\<exists>obj \<in> request_objects r. fga_direct (check_tuples grants denies kits ks r) relExecutor u obj)"
  unfolding fga_executor_def from_iff by (auto simp: request_objects_def)

lemma not_blocked_backend_access: "\<not> fga_direct ts relBlocked u (backend_access_object b a)"
  by (simp add: fga_direct_def admits_def rule_types_def relation_defs)

lemma blocked_iff:
  "fga_blocked (check_tuples grants denies kits ks r) u (tool_object (rq_tool r)) \<longleftrightarrow>
     (\<exists>obj \<in> request_objects r. fga_direct (check_tuples grants denies kits ks r) relBlocked u obj)"
  unfolding fga_blocked_def from_iff by (auto simp: request_objects_def not_blocked_backend_access)

section \<open>Targets\<close>

lemma index_of_char: "index_of s [c] = Some i \<Longrightarrow> s = take i s @ c # drop (Suc i) s"
proof (induction s arbitrary: i)
  case (Cons x s)
  then show ?case by (cases "x = c") (auto simp: has_prefix_def split: option.splits)
qed simp

lemma valid_utf8_Nil [simp]: "valid_utf8 []"
  by (simp add: valid_utf8_def)

lemma valid_utf8_cut:
  assumes "valid_utf8 s" "cut s [c] = (b, a, has)" "byte_of c < (128::nat)"
  shows "valid_utf8 b \<and> valid_utf8 a"
proof (cases "index_of s [c]")
  case None
  with assms show ?thesis by (simp add: cut_def)
next
  case (Some i)
  then have "valid_utf8 (take i s @ c # drop (Suc i) s)" using assms(1) index_of_char by metis
  then have "valid_utf8 (take i s) \<and> valid_utf8 (drop (Suc i) s)" using assms(3) by (rule valid_utf8_split)
  with Some assms(2) show ?thesis by (auto simp: cut_def)
qed

lemma valid_utf8_scope:
  assumes "valid_utf8 g" "parseKitScope g = Inr s"
  shows "valid_utf8 (scope_backend s) \<and> valid_utf8 (scope_access s)"
proof -
  obtain b a h where c: "cut (trim_space g) '':'' = (b, a, h)" by (cases "cut (trim_space g) '':''") auto
  have "valid_utf8 b \<and> valid_utf8 a"
    by (rule valid_utf8_cut [OF valid_utf8_trim_space [OF assms(1)] c]) simp
  with assms(2) c show ?thesis
    by (auto simp: parseKitScope_def Let_def valid_utf8_trim_space split: if_splits)
qed

lemma target_iff:
  assumes "utf8_rule g" "utf8_request r"
  shows "(\<exists>obj \<in> request_objects r. obj \<in> set (grant_objects g)) \<longleftrightarrow> target_matches g r"
proof -
  have "valid_utf8 (rq_tool r)" "valid_utf8 (rq_backend r)" "valid_utf8 (rq_access r)"
    "\<forall>x \<in> set (ag_tools g) \<union> set (ag_backends g) \<union> set (ag_access g). valid_utf8 x"
    using assms by (auto simp: utf8_rule_def utf8_request_def list_all_iff)
  then show ?thesis
    by (auto simp: request_objects_def grant_objects_def target_matches_def object_inj image_iff)
qed

lemma scope_object_iff:
  assumes "valid_utf8 (scope_backend s)" "valid_utf8 (scope_access s)" "utf8_request r"
  shows "scope_object s \<in> request_objects r \<longleftrightarrow> scope_covers s (rq_backend r) (rq_access r)"
proof -
  have "valid_utf8 (rq_backend r)" "valid_utf8 (rq_access r)"
    using assms(3) by (auto simp: utf8_request_def)
  with assms(1,2) show ?thesis
    by (auto simp: request_objects_def scope_object_def scope_covers_iff object_inj)
qed

lemma ScopeCovers_iff: "ScopeCovers g b a \<longleftrightarrow> (\<exists>s. parseKitScope g = Inr s \<and> scope_covers s b a)"
  by (auto simp: ScopeCovers_def split: sum.splits)

lemma set_scope_objects_iff:
  "obj \<in> set (scope_objects gs) \<longleftrightarrow> (\<exists>g \<in> set gs. \<exists>s. parseKitScope g = Inr s \<and> obj = scope_object s)"
  by (auto simp: set_scope_objects)

lemma scope_objects_iff:
  assumes "list_all valid_utf8 gs" "utf8_request r"
  shows "(\<exists>obj \<in> request_objects r. obj \<in> set (scope_objects gs)) \<longleftrightarrow>
    (\<exists>g \<in> set gs. ScopeCovers g (rq_backend r) (rq_access r))"
proof -
  have "scope_object s \<in> request_objects r \<longleftrightarrow> scope_covers s (rq_backend r) (rq_access r)"
    if "g \<in> set gs" "parseKitScope g = Inr s" for g s
    using that assms valid_utf8_scope scope_object_iff by (metis list_all_iff)
  then show ?thesis unfolding set_scope_objects_iff ScopeCovers_iff by blast
qed

lemma tool_objects_iff:
  assumes "list_all valid_utf8 ts" "utf8_request r"
  shows "(\<exists>obj \<in> request_objects r. obj \<in> tool_object ` set ts) \<longleftrightarrow> rq_tool r \<in> set ts"
proof -
  have "valid_utf8 (rq_tool r)" "\<forall>t \<in> set ts. valid_utf8 t"
    using assms by (auto simp: utf8_request_def list_all_iff)
  then show ?thesis by (auto simp: request_objects_def object_inj image_iff split: if_splits)
qed

lemma kit_covers_iff:
  assumes "utf8_kit k" "utf8_request r"
  shows "(\<exists>obj \<in> request_objects r. obj \<in> set (kit_objects k)) \<longleftrightarrow> Covers k (rq_tool r) (rq_backend r) (rq_access r)"
proof -
  have "list_all valid_utf8 (kit_grants k)" "list_all valid_utf8 (kit_tools k)"
    using assms(1) by (auto simp: utf8_kit_def)
  from scope_objects_iff [OF this(1) assms(2)] tool_objects_iff [OF this(2) assms(2)]
  show ?thesis by (auto simp: kit_objects_def Covers_iff)
qed

lemma part_covers_iff:
  assumes "utf8_kit k" "utf8_request r"
  shows "(\<exists>obj \<in> request_objects r. obj \<in> set (partObjects k p)) \<longleftrightarrow> PartCovers k p (rq_tool r) (rq_backend r) (rq_access r)"
proof -
  have "list_all valid_utf8 (filter (\<lambda>g. g \<in> set (kit_grants k)) (part_grants p))"
    "list_all valid_utf8 (filter (\<lambda>t. t \<in> set (kit_tools k)) (part_tools p))"
    using assms(1) by (auto simp: utf8_kit_def list_all_iff)
  from scope_objects_iff [OF this(1) assms(2)] tool_objects_iff [OF this(2) assms(2)]
  show ?thesis by (auto simp: partObjects_def PartCovers_iff)
qed

section \<open>The decision\<close>

lemma part_objects_request_iff:
  assumes "\<forall>k \<in> set ks. utf8_kit k" "distinct (map kit_name ks)" "utf8_request r"
  shows "(\<exists>obj \<in> request_objects r. obj \<in> part_objects_request ks r) \<longleftrightarrow>
    (\<exists>p \<in> set (rq_kit_parts r). \<exists>k \<in> set ks. kit_name k = part_kit p \<and>
       PartCovers k p (rq_tool r) (rq_backend r) (rq_access r))"
proof -
  have "(\<exists>obj \<in> request_objects r. obj \<in> set (case find_first (\<lambda>k. kit_name k = part_kit p) ks of
            None \<Rightarrow> [] | Some k \<Rightarrow> partObjects k p)) \<longleftrightarrow>
        (\<exists>k \<in> set ks. kit_name k = part_kit p \<and> PartCovers k p (rq_tool r) (rq_backend r) (rq_access r))" for p
  proof (cases "find_first (\<lambda>k. kit_name k = part_kit p) ks")
    case None
    then have "\<forall>k \<in> set ks. kit_name k \<noteq> part_kit p" by (simp add: find_first_None)
    with None show ?thesis by simp
  next
    case (Some k)
    then have k: "k \<in> set ks" "kit_name k = part_kit p" by (auto dest: find_first_Some)
    have uniq: "k' = k" if "k' \<in> set ks" "kit_name k' = part_kit p" for k'
      using that k inj_onD [of kit_name "set ks" k' k] assms(2) by (simp add: distinct_map)
    have "utf8_kit k" using assms(1) k(1) by blast
    from part_covers_iff [OF this assms(3)] show ?thesis
      unfolding Some option.case using k uniq by blast
  qed
  then show ?thesis unfolding part_objects_request_def part_objects_of_def set_concat set_map image_image UN_iff
    by blast
qed

lemma can_execute_iff_spec:
  assumes utf8: "utf8_rules grants denies kits" "utf8_request r"
    and kits: "\<forall>k \<in> set kits. kit_name k \<noteq> []" "distinct (map kit_name kits)"
    and ks: "set ks = set kits" "distinct (map kit_name ks)"
  shows "fga_can_execute (check_tuples grants denies kits ks r) (user_string r) (tool_object (rq_tool r)) \<longleftrightarrow>
    spec_allows grants denies kits r"
proof -
  let ?ts = "check_tuples grants denies kits ks r"
  have u: "\<forall>g \<in> set grants. utf8_rule g" "\<forall>g \<in> set denies. utf8_rule g" "\<forall>k \<in> set kits. utf8_kit k"
    using utf8(1) by (auto simp: utf8_rules_def list_all_iff)
  have direct: "fga_direct ?ts relExecutor (user_string r) obj \<longleftrightarrow>
      (\<exists>g \<in> set grants. subject_matches g r \<and> obj \<in> set (grant_objects g)) \<or>
      (\<exists>k \<in> set kits. kit_name k \<in> set (rq_kits r) \<and> obj \<in> set (kit_objects k)) \<or> obj \<in> part_objects_request ks r" for obj
    using direct_executorD [OF utf8 kits(1)] direct_executorI [OF utf8 kits(1)] by blast
  have "fga_executor ?ts (user_string r) (tool_object (rq_tool r)) \<longleftrightarrow>
      (\<exists>g \<in> set grants. rule_matches g r) \<or> kit_matches kits r"
    unfolding executor_iff direct kit_matches_def rule_matches_def
    using target_iff [OF _ utf8(2)] kit_covers_iff [OF _ utf8(2)] u ks
      part_objects_request_iff [OF _ ks(2) utf8(2)] by (simp only: ks(1)) blast
  moreover have "fga_blocked ?ts (user_string r) (tool_object (rq_tool r)) \<longleftrightarrow> (\<exists>d \<in> set denies. rule_matches d r)"
    unfolding blocked_iff direct_blocked_iff [OF utf8] rule_matches_def
    using target_iff [OF _ utf8(2)] u by blast
  ultimately show ?thesis by (simp add: fga_can_execute_def spec_allows_def)
qed

end
