(* ===== verification/EngineApply.thy ===== *)
theory EngineApply
  imports EngineSpec
begin

text \<open>
  Applying a policy: on a server that answers, the stored tuples become exactly those of the rules,
  and every check afterwards decides what the rules say. The request sequence of an apply is cut
  at every point to show that no state in between allows what neither the old nor the new rules
  allow.
\<close>

section \<open>Chunks\<close>

lemma chunks_concat: "0 < n \<Longrightarrow> concat (chunks n xs) = xs"
  by (induction n xs rule: chunks.induct) (subst chunks.simps, simp)

lemma chunks_sizes: "c \<in> set (chunks n xs) \<Longrightarrow> c \<noteq> [] \<and> length c \<le> n"
proof (induction n xs rule: chunks.induct)
  case (1 n xs)
  then show ?case
    by (cases "n = 0 \<or> xs = []") (auto simp: chunks.simps [of n xs])
qed

lemma write_chunk_sizes: "\<forall>c \<in> set (chunks writeChunk xs). c \<noteq> [] \<and> length c \<le> 100"
  using chunks_sizes by (metis writeChunk_def)

lemma write_chunks_concat: "concat (chunks writeChunk xs) = xs"
  by (simp add: chunks_concat writeChunk_def)

text \<open>The state an apply leaves behind: the stored tuples are those of the rules, the tools with rules of
  their own are known, and the kits are those of the policy, sorted by name.\<close>

definition engine_holds :: "('s \<Rightarrow> tuple_key set) \<Rightarrow> 's embedded \<Rightarrow> authz_grant list \<Rightarrow> authz_grant list \<Rightarrow> kit list \<Rightarrow> bool" where
  "engine_holds stored e grants denies kits \<longleftrightarrow> stored (emb_srv e) = rule_tuples grants denies kits \<and>
     set (emb_tool_grants e) = {tk_object t | t. t \<in> rule_tuples grants denies kits \<and> has_prefix (tk_object t) ''tool:''} \<and>
     emb_kits e = sort_key kit_name kits"

lemma set_desired:
  "desired_tuples grants denies kits = Inr desired \<Longrightarrow> set desired = rule_tuples grants denies kits"
  by (auto simp: desired_tuples_def rule_tuples_def split: option.splits)

lemma desired_valid:
  "(\<forall>g \<in> set grants \<union> set denies. grant_Validate g = None) \<Longrightarrow> \<exists>desired. desired_tuples grants denies kits = Inr desired"
  using first_invalid_None [of 1 grants] first_invalid_None [of 1 denies] by (simp add: desired_tuples_def)

lemma sorted_kits: "set (sort_key kit_name kits) = set kits" "distinct (map kit_name kits) \<Longrightarrow> distinct (map kit_name (sort_key kit_name kits))"
proof -
  show "set (sort_key kit_name kits) = set kits" by simp
  assume "distinct (map kit_name kits)"
  then show "distinct (map kit_name (sort_key kit_name kits))"
    by (simp add: distinct_map)
qed

section \<open>Reading, writing and deleting\<close>

context fga_reliable
begin

lemma read_pages_from:
  "i < length (pages s) \<Longrightarrow> length (pages s) \<le> fuel + i \<Longrightarrow>
   read_pages fuel ops s i = Some (Inr (concat (drop i (pages s))))"
proof (induction fuel arbitrary: i)
  case 0
  then show ?case by simp
next
  case (Suc fuel)
  obtain r where r: "op_read ops s i = Inr r" using read_answers Suc.prems(1) by blast
  then have r': "op_read ops s i = Inr (pages s ! i, if Suc i < length (pages s) then Suc i else 0)"
    using read_page Suc.prems(1) by metis
  have d: "drop i (pages s) = pages s ! i # drop (Suc i) (pages s)"
    using Suc.prems(1) by (rule Cons_nth_drop_Suc [symmetric])
  show ?case
  proof (cases "Suc i < length (pages s)")
    case True
    with Suc.IH [of "Suc i"] Suc.prems(2) r' d show ?thesis by (simp add: bind_res_def)
  next
    case False
    with r' d show ?thesis by simp
  qed
qed

lemma readTuples_eq:
  assumes "length (pages s) \<le> fuel"
  shows "readTuples fuel ops s = Some (Inr (remdups (concat (pages s))))"
  using read_pages_from [of 0 s fuel] pages_nonempty [of s] assms
  by (simp add: readTuples_def bind_res_def)

lemma write_chunks_stored:
  assumes "distinct (concat cs)" "set (concat cs) \<inter> stored s = {}" "\<forall>c \<in> set cs. c \<noteq> [] \<and> length c \<le> 100"
  shows "\<exists>s'. write_chunks ops s cs = (s', length (concat cs), None) \<and> stored s' = stored s \<union> set (concat cs)"
  using assms
proof (induction cs arbitrary: s)
  case Nil
  then show ?case by simp
next
  case (Cons c cs)
  have "writable (stored s) c" using Cons.prems by (auto simp: writable_def)
  then obtain s1 where s1: "op_write ops s c = Inr s1" using write_answers by blast
  then have st: "stored s1 = stored s \<union> set c" by (rule write_stored)
  have "set (concat cs) \<inter> stored s1 = {}" using Cons.prems unfolding st by auto
  from Cons.IH [OF _ this] Cons.prems obtain s' where
    "write_chunks ops s1 cs = (s', length (concat cs), None)" "stored s' = stored s1 \<union> set (concat cs)" by auto
  with s1 st show ?case by auto
qed

lemma writeTuples_stored:
  assumes "distinct ts" "set ts \<inter> stored s = {}"
  shows "\<exists>s'. writeTuples ops s ts = (s', length ts, None) \<and> stored s' = stored s \<union> set ts"
  unfolding writeTuples_def using assms
    write_chunks_stored [OF _ _ write_chunk_sizes, of ts s] by (simp add: write_chunks_concat)

lemma delete_chunks_stored:
  assumes "distinct (concat cs)" "set (concat cs) \<subseteq> stored s" "\<forall>c \<in> set cs. c \<noteq> [] \<and> length c \<le> 100"
  shows "\<exists>s'. delete_chunks ops dn s cs = (s', length (concat cs), None) \<and> stored s' = stored s - set (concat cs)"
  using assms
proof (induction cs arbitrary: s)
  case Nil
  then show ?case by simp
next
  case (Cons c cs)
  have "deletable (stored s) c" using Cons.prems by (auto simp: deletable_def)
  then obtain s1 where s1: "op_delete ops s c = Inr s1" using delete_answers by blast
  then have st: "stored s1 = stored s - set c" by (rule delete_stored)
  have "set (concat cs) \<subseteq> stored s1" using Cons.prems unfolding st by auto
  from Cons.IH [OF _ this] Cons.prems obtain s' where
    "delete_chunks ops dn s1 cs = (s', length (concat cs), None)" "stored s' = stored s1 - set (concat cs)" by auto
  with s1 st show ?case by (auto simp: deleteTuples_def)
qed

lemma deleteAll_stored:
  assumes "distinct ts" "set ts \<subseteq> stored s"
  shows "\<exists>s'. deleteAll ops dn s ts = (s', length ts, None) \<and> stored s' = stored s - set ts"
  unfolding deleteAll_def using assms
    delete_chunks_stored [OF _ _ write_chunk_sizes, of ts s dn] by (simp add: write_chunks_concat)

section \<open>The whole apply\<close>

lemma run_plan_stored:
  assumes "distinct ws" "distinct ds" "set ws \<inter> stored s = {}" "set ds \<subseteq> stored s"
  shows "\<exists>s' res'. run_steps ops dn res s (apply_plan ws ds) = (s', res', None) \<and>
    stored s' = (stored s \<union> set ws) - set ds \<and>
    res' = res\<lparr>ar_written := ar_written res + length ws, ar_deleted := ar_deleted res + length ds\<rparr>"
proof -
  let ?g = "\<lambda>t. \<not> is_deny t"
  obtain s1 where s1: "writeTuples ops s (filter is_deny ws) = (s1, length (filter is_deny ws), None)"
    "stored s1 = stored s \<union> set (filter is_deny ws)"
    using writeTuples_stored [of "filter is_deny ws" s] assms by auto
  have "set (filter ?g ds) \<subseteq> stored s1" using s1(2) assms(4) by auto
  then obtain s2 where s2: "deleteAll ops dn s1 (filter ?g ds) = (s2, length (filter ?g ds), None)"
    "stored s2 = stored s1 - set (filter ?g ds)"
    using deleteAll_stored [of "filter ?g ds" s1 dn] assms(2) by auto
  have "set (filter ?g ws) \<inter> stored s2 = {}" using s1(2) s2(2) assms(3) by auto
  then obtain s3 where s3: "writeTuples ops s2 (filter ?g ws) = (s3, length (filter ?g ws), None)"
    "stored s3 = stored s2 \<union> set (filter ?g ws)"
    using writeTuples_stored [of "filter ?g ws" s2] assms(1) by auto
  have "set (filter is_deny ds) \<subseteq> stored s3" using s1(2) s2(2) s3(2) assms(4) by auto
  then obtain s4 where s4: "deleteAll ops dn s3 (filter is_deny ds) = (s4, length (filter is_deny ds), None)"
    "stored s4 = stored s3 - set (filter is_deny ds)"
    using deleteAll_stored [of "filter is_deny ds" s3 dn] assms(2) by auto
  have "stored s4 = (stored s \<union> set ws) - set ds"
    unfolding s4(2) s3(2) s2(2) s1(2) using assms(3,4) by auto
  moreover have "length ws = length (filter is_deny ws) + length (filter ?g ws)"
    "length ds = length (filter ?g ds) + length (filter is_deny ds)"
    using sum_length_filter_compl [of is_deny ws] sum_length_filter_compl [of is_deny ds] by simp_all
  ultimately show ?thesis using s1(1) s2(1) s3(1) s4(1) by (simp add: apply_plan_def)
qed

lemma apply_rules_reliable:
  assumes "validateKits kits = None" "desired_tuples grants denies kits = Inr desired"
  shows "\<exists>n. \<forall>fuel \<ge> n. \<exists>e' res. apply_rules fuel ops dn e grants denies kits = Some (e', res, None) \<and>
    stored (emb_srv e') = set desired \<and> emb_tool_grants e' = tool_objects_in (remdups (concat (pages (emb_srv e')))) \<and>
    emb_kits e' = sort_key kit_name kits \<and> emb_approvers e' = emb_approvers e \<and> emb_epoch e' = emb_epoch e + 1"
proof -
  let ?cur = "remdups (concat (pages (emb_srv e)))"
  let ?ws = "missing_tuples ?cur desired" and ?ds = "surplus_tuples ?cur desired"
  have cur: "set ?cur = stored (emb_srv e)" using pages_stored by simp
  have "distinct desired" using assms(2) by (auto simp: desired_tuples_def split: option.splits)
  then have d: "distinct ?ws" "distinct ?ds" "set ?ws \<inter> stored (emb_srv e) = {}" "set ?ds \<subseteq> stored (emb_srv e)"
    using cur by (auto simp: missing_tuples_def surplus_tuples_def)
  from run_plan_stored [OF this, of dn "zero_result\<lparr>ar_tuples := length desired\<rparr>"] obtain s' res' where
    run: "run_steps ops dn (zero_result\<lparr>ar_tuples := length desired\<rparr>) (emb_srv e) (apply_plan ?ws ?ds) = (s', res', None)"
    and st: "stored s' = (stored (emb_srv e) \<union> set ?ws) - set ?ds" by blast
  have st': "stored s' = set desired" unfolding st using cur by (auto simp: missing_tuples_def surplus_tuples_def)
  have "apply_rules fuel ops dn e grants denies kits = Some (invalidate ((setToolGrants (remdups (concat (pages s')))
      ((setToolGrants (?cur @ desired) e)\<lparr>emb_srv := s'\<rparr>))\<lparr>emb_kits := sort_key kit_name kits\<rparr>), res', None)"
    if f: "max (length (pages (emb_srv e))) (length (pages s')) \<le> fuel" for fuel
  proof -
    have r: "readTuples fuel ops (emb_srv e) = Some (Inr ?cur)"
      "readTuples fuel ops s' = Some (Inr (remdups (concat (pages s'))))"
      using f by (auto intro: readTuples_eq)
    show ?thesis
      unfolding apply_rules_def Let_def assms option.case r(1) sum.case run prod.case r(2) ..
  qed
  note final = this
  show ?thesis
  proof (intro exI allI impI conjI)
    fix fuel assume "max (length (pages (emb_srv e))) (length (pages s')) \<le> fuel"
    from final [OF this] show "apply_rules fuel ops dn e grants denies kits = Some (invalidate ((setToolGrants (remdups (concat (pages s')))
      ((setToolGrants (?cur @ desired) e)\<lparr>emb_srv := s'\<rparr>))\<lparr>emb_kits := sort_key kit_name kits\<rparr>), res', None)" .
  qed (simp_all add: invalidate_def setToolGrants_def st')
qed

lemma apply_rules_holds:
  assumes "validateKits kits = None" "\<forall>g \<in> set grants \<union> set denies. grant_Validate g = None"
  shows "\<exists>n. \<forall>fuel \<ge> n. \<exists>e' res. apply_rules fuel ops dn e grants denies kits = Some (e', res, None) \<and>
    engine_holds stored e' grants denies kits"
proof -
  obtain desired where d: "desired_tuples grants denies kits = Inr desired" using desired_valid [OF assms(2)] by blast
  have "engine_holds stored e' grants denies kits"
    if "stored (emb_srv e') = set desired" "emb_tool_grants e' = tool_objects_in (remdups (concat (pages (emb_srv e'))))"
      "emb_kits e' = sort_key kit_name kits" for e'
    using that pages_stored [of "emb_srv e'"] set_desired [OF d]
    by (auto simp: engine_holds_def tool_objects_in_def image_iff)
  with apply_rules_reliable [OF assms(1) d, of dn e] show ?thesis by metis
qed

lemma ApplyPolicy_holds:
  assumes "validateApprovers ct (pol_approvers p) (pol_kits p) = None" "validateKits (pol_kits p) = None"
    "\<forall>g \<in> set (pol_grants p) \<union> set (pol_denies p). grant_Validate g = None"
  shows "\<exists>n. \<forall>fuel \<ge> n. \<exists>e' res. ApplyPolicy fuel ct ops dn e p = Some (e', res, None) \<and>
    engine_holds stored e' (pol_grants p) (pol_denies p) (pol_kits p) \<and>
    emb_approvers e' = normalizeApprovers ct (pol_approvers p)"
proof -
  obtain n where n: "\<And>fuel. fuel \<ge> n \<Longrightarrow> \<exists>e' res. apply_rules fuel ops dn e (pol_grants p) (pol_denies p) (pol_kits p) = Some (e', res, None) \<and>
    engine_holds stored e' (pol_grants p) (pol_denies p) (pol_kits p)"
    using apply_rules_holds [OF assms(2,3), of dn e] by blast
  have "\<exists>e' res. ApplyPolicy fuel ct ops dn e p = Some (e', res, None) \<and>
    engine_holds stored e' (pol_grants p) (pol_denies p) (pol_kits p) \<and>
    emb_approvers e' = normalizeApprovers ct (pol_approvers p)" if "fuel \<ge> n" for fuel
    using n [OF that] assms(1) by (auto simp: ApplyPolicy_def engine_holds_def)
  then show ?thesis by blast
qed

section \<open>Checks\<close>

lemma Check_holds:
  assumes "engine_holds stored e grants denies kits" "utf8_rules grants denies kits" "utf8_request r"
    "\<forall>k \<in> set kits. kit_name k \<noteq> []" "distinct (map kit_name kits)"
    "rq_user_id r \<noteq> []" "rq_tool r \<noteq> []" "length (context_tuples (emb_kits e) r) \<le> maxContextualTuples"
  shows "Check ops e r = Inr (spec_allows grants denies kits r)"
proof -
  have "fga_can_execute (stored (emb_srv e) \<union> set (context_tuples (emb_kits e) r)) (user_string r) (tool_object (rq_tool r))
      = spec_allows grants denies kits r"
    using can_execute_iff_spec [OF assms(2-5) sorted_kits(1) sorted_kits(2) [OF assms(5)]] assms(1)
    by (simp add: engine_holds_def)
  with assms(6-8) show ?thesis by (simp add: Check_def Let_def maxContextualTuples_def check_eq)
qed

end

end
