(* ===== verification/EngineBatch.thy ===== *)
theory EngineBatch
  imports EngineApply
begin

text \<open>
  Batches of checks (\<open>CheckBatch\<close> and \<open>equivalenceKey\<close> in \<open>internal/authz/embedded.go\<close>): requests share a
  decision when their keys agree and their tools have no rules of their own. The key is injective
  on everything a decision depends on, so a batch answers what single checks answer.
\<close>

section \<open>Keys\<close>

lemma digit_byte: "d < 10 \<Longrightarrow> byte_of (digit_char d) = (48 + d :: nat)"
  by (simp add: digit_char_def)

lemma itoa_value: "foldl (\<lambda>a c. a * 10 + (byte_of c - 48)) 0 (itoa n) = (n::nat)"
proof (induction n rule: itoa.induct)
  case (1 n)
  then show ?case by (cases "n < 10") (subst itoa.simps, simp add: digit_byte)+
qed

lemma itoa_inj [simp]: "itoa m = itoa n \<longleftrightarrow> m = n"
  using itoa_value by metis

lemma itoa_no_colon: "CHR '':'' \<notin> set (itoa n)"
proof (induction n rule: itoa.induct)
  case (1 n)
  have neq: "CHR '':'' \<noteq> digit_char d" if "d < 10" for d
  proof
    assume "CHR '':'' = digit_char d"
    then have "(48 + d :: nat) = byte_of (CHR '':'')" using digit_byte [OF that] by metis
    then show False using that by simp
  qed
  show ?case
  proof (cases "n < 10")
    case True
    then show ?thesis using neq [of n] by (subst itoa.simps) simp
  next
    case False
    then show ?thesis using 1 neq [of "n mod 10"] by (subst itoa.simps) simp
  qed
qed

lemma length_prefixed_inj: "length_prefixed xs = length_prefixed ys \<longleftrightarrow> xs = ys"
proof (induction xs arbitrary: ys)
  case Nil
  then show ?case by (cases ys) (auto simp: length_prefixed_def)
next
  case (Cons x xs)
  show ?case
  proof (cases ys)
    case Nil
    then show ?thesis by (simp add: length_prefixed_def)
  next
    case (Cons y ys')
    have "length_prefixed (x # xs) = length_prefixed (y # ys') \<longleftrightarrow>
        itoa (length x) @ CHR '':'' # (x @ length_prefixed xs) = itoa (length y) @ CHR '':'' # (y @ length_prefixed ys')"
      by (simp add: length_prefixed_def)
    also have "\<dots> \<longleftrightarrow> length x = length y \<and> x @ length_prefixed xs = y @ length_prefixed ys'"
      by (subst append_sep_inj) (simp_all add: itoa_no_colon)
    also have "\<dots> \<longleftrightarrow> x = y \<and> xs = ys'" by (auto simp: Cons.IH append_eq_append_conv)
    finally show ?thesis using Cons by simp
  qed
qed

text \<open>Two requests agree on everything a decision depends on but the name of the tool.\<close>

definition agree :: "request \<Rightarrow> request \<Rightarrow> bool" where
  "agree r r' \<longleftrightarrow> rq_user_id r = rq_user_id r' \<and> rq_company_id r = rq_company_id r' \<and> rq_plan r = rq_plan r' \<and>
     rq_backend r = rq_backend r' \<and> rq_access r = rq_access r' \<and> (rq_tool r = [] \<longleftrightarrow> rq_tool r' = []) \<and>
     set (rq_roles r) = set (rq_roles r') \<and> set (rq_kits r) = set (rq_kits r') \<and> rq_kit_parts r = rq_kit_parts r'"

abbreviation part_fields :: "kit_part \<Rightarrow> string list" where
  "part_fields p \<equiv> [part_kit p, itoa (length (part_grants p)), itoa (length (part_tools p))] @ part_grants p @ part_tools p"

lemma part_fields_inj: "concat (map part_fields ps) = concat (map part_fields qs) \<longleftrightarrow> ps = qs"
proof (induction ps arbitrary: qs)
  case Nil
  then show ?case by (cases qs) auto
next
  case (Cons p ps)
  show ?case
  proof (cases qs)
    case (Cons q qs')
    have "concat (map part_fields (p # ps)) = concat (map part_fields (q # qs')) \<longleftrightarrow>
      part_kit p = part_kit q \<and> part_grants p = part_grants q \<and> part_tools p = part_tools q \<and>
      concat (map part_fields ps) = concat (map part_fields qs')"
      by (simp cong: conj_cong) metis
    also have "\<dots> \<longleftrightarrow> p = q \<and> ps = qs'" unfolding Cons.IH by (cases p; cases q) auto
    finally show ?thesis unfolding Cons by simp
  qed simp
qed

lemma equivalenceKey_agree: "equivalenceKey r = equivalenceKey r' \<longleftrightarrow> agree r r'"
proof -
  have "key_fields r = key_fields r' \<longleftrightarrow> rq_user_id r = rq_user_id r' \<and> rq_company_id r = rq_company_id r' \<and> rq_plan r = rq_plan r' \<and>
     rq_backend r = rq_backend r' \<and> rq_access r = rq_access r' \<and> (rq_tool r = [] \<longleftrightarrow> rq_tool r' = []) \<and>
     sorted_compact (rq_roles r) = sorted_compact (rq_roles r') \<and> sorted_compact (rq_kits r) = sorted_compact (rq_kits r') \<and>
     concat (map part_fields (rq_kit_parts r)) = concat (map part_fields (rq_kit_parts r'))"
    unfolding key_fields_def Let_def by auto
  then show ?thesis
    by (simp only: equivalenceKey_def length_prefixed_inj part_fields_inj sorted_compact_eq_iff agree_def)
qed

section \<open>Decisions that are shared\<close>

lemma distinct_dedup: "distinct (dedup seen xs)"
  by (induction xs arbitrary: seen) (auto simp: set_dedup)

lemma length_dedup_names: "set xs = set ys \<Longrightarrow> length (dedup_names xs) = length (dedup_names ys)"
  by (metis distinct_card distinct_dedup dedup_names_def set_dedup_names)

lemma length_context_agree: "agree r r' \<Longrightarrow> length (context_tuples ks r) = length (context_tuples ks r')"
  using length_dedup_names [of "rq_roles r" "rq_roles r'"] length_dedup_names [of "rq_kits r" "rq_kits r'"]
  by (simp add: agree_def context_tuples_def structure_tuples_def identity_tuples_def part_tuples_def Let_def)

text \<open>The name of a tool without rules of its own plays no part.\<close>

lemma tool_without_rules:
  assumes "engine_holds stored e grants denies kits" "tool_object t \<notin> set (emb_tool_grants e)"
  shows "\<forall>g \<in> set grants \<union> set denies. t \<notin> set (ag_tools g)" "\<forall>k \<in> set kits. t \<notin> set (kit_tools k)"
proof -
  have none: "\<forall>x \<in> rule_tuples grants denies kits. tk_object x \<noteq> tool_object t"
    using assms by (auto simp: engine_holds_def has_prefix_def tool_object_def)
  show "\<forall>g \<in> set grants \<union> set denies. t \<notin> set (ag_tools g)"
  proof (rule ballI, rule notI)
    fix g assume g: "g \<in> set grants \<union> set denies" "t \<in> set (ag_tools g)"
    then have "tool_object t \<in> set (grant_objects g)" by (auto simp: grant_objects_def)
    then have "TupleKey (grant_subject g) rel (tool_object t) \<in> set (grant_tuples g rel)" for rel
      by (simp add: grant_tuples_def)
    then have "TupleKey (grant_subject g) relExecutor (tool_object t) \<in> rule_tuples grants denies kits \<or>
        TupleKey (grant_subject g) relBlocked (tool_object t) \<in> rule_tuples grants denies kits"
      using g(1) unfolding rule_tuples_def Un_iff UN_iff by metis
    with none show False by fastforce
  qed
  show "\<forall>k \<in> set kits. t \<notin> set (kit_tools k)"
  proof (rule ballI, rule notI)
    fix k assume k: "k \<in> set kits" "t \<in> set (kit_tools k)"
    then have "TupleKey (kit_holder k) relExecutor (tool_object t) \<in> rule_tuples grants denies kits"
      by (auto simp: rule_tuples_def kit_tuples_objects kit_objects_def)
    with none show False by fastforce
  qed
qed

lemma rule_matches_agree:
  "agree r r' \<Longrightarrow> rq_tool r \<notin> set (ag_tools g) \<Longrightarrow> rq_tool r' \<notin> set (ag_tools g) \<Longrightarrow> rule_matches g r = rule_matches g r'"
  by (auto simp: rule_matches_def subject_matches_def target_matches_def agree_def split: subject.splits)

lemma kit_matches_agree:
  "agree r r' \<Longrightarrow> \<forall>k \<in> set kits. rq_tool r \<notin> set (kit_tools k) \<Longrightarrow> \<forall>k \<in> set kits. rq_tool r' \<notin> set (kit_tools k) \<Longrightarrow>
   kit_matches kits r = kit_matches kits r'"
  by (auto simp: kit_matches_def agree_def Covers_iff PartCovers_iff)

lemma spec_agree:
  assumes "engine_holds stored e grants denies kits" "agree r r'"
    "tool_object (rq_tool r) \<notin> set (emb_tool_grants e)" "tool_object (rq_tool r') \<notin> set (emb_tool_grants e)"
  shows "spec_allows grants denies kits r = spec_allows grants denies kits r'"
  unfolding spec_allows_def
  using tool_without_rules [OF assms(1,3)] tool_without_rules [OF assms(1,4)] assms(2)
    rule_matches_agree [OF assms(2)] kit_matches_agree [OF assms(2)] by auto

section \<open>Batches\<close>

definition decision :: "(engine_error, bool) result \<Rightarrow> bool" where
  "decision c = (case c of Inl _ \<Rightarrow> False | Inr b \<Rightarrow> b)"

fun failures :: "(engine_error, bool) result list \<Rightarrow> engine_error list" where
  "failures [] = []"
| "failures (Inl err # cs) = err # failures cs"
| "failures (Inr b # cs) = failures cs"

context fga_reliable
begin

lemma Check_agree:
  assumes holds: "engine_holds stored e grants denies kits" "utf8_rules grants denies kits"
      "\<forall>k \<in> set kits. kit_name k \<noteq> []" "distinct (map kit_name kits)"
    and r: "utf8_request r" "utf8_request r'" "agree r r'"
      "tool_object (rq_tool r) \<notin> set (emb_tool_grants e)" "tool_object (rq_tool r') \<notin> set (emb_tool_grants e)"
    and c: "Check ops e r = Inr b"
  shows "Check ops e r' = Inr b"
proof (cases "rq_user_id r = [] \<or> rq_tool r = []")
  case True
  with c r(3) show ?thesis by (auto simp: Check_def agree_def)
next
  case False
  then have ne: "rq_user_id r' \<noteq> []" "rq_tool r' \<noteq> []" using r(3) by (auto simp: agree_def)
  have len: "length (context_tuples (emb_kits e) r) \<le> maxContextualTuples"
    using c False by (auto simp: Check_def Let_def split: if_splits)
  then have len': "length (context_tuples (emb_kits e) r') \<le> maxContextualTuples"
    using length_context_agree [OF r(3)] by simp
  have "Check ops e r = Inr (spec_allows grants denies kits r)"
    using Check_holds [OF holds(1,2) r(1) holds(3,4)] False len by blast
  moreover have "Check ops e r' = Inr (spec_allows grants denies kits r')"
    using Check_holds [OF holds(1,2) r(2) holds(3,4) ne len'] .
  ultimately show ?thesis using c spec_agree [OF holds(1) r(3-5)] by simp
qed

lemma check_batch_eq:
  assumes holds: "engine_holds stored e grants denies kits" "utf8_rules grants denies kits"
      "\<forall>k \<in> set kits. kit_name k \<noteq> []" "distinct (map kit_name kits)"
    and rs: "\<forall>r \<in> set rs. utf8_request r"
    and decided: "\<And>key b. map_of decided key = Some b \<Longrightarrow> \<exists>r. equivalenceKey r = key \<and> utf8_request r \<and>
        tool_object (rq_tool r) \<notin> set (emb_tool_grants e) \<and> Check ops e r = Inr b"
  shows "check_batch ops e decided rs = (map (decision \<circ> Check ops e) rs, failures (map (Check ops e) rs))"
  using rs decided
proof (induction rs arbitrary: decided)
  case Nil
  then show ?case by simp
next
  case (Cons r rs)
  let ?shared = "tool_object (rq_tool r) \<notin> set (emb_tool_grants e)" and ?key = "equivalenceKey r"
  have ih: "check_batch ops e d rs = (map (decision \<circ> Check ops e) rs, failures (map (Check ops e) rs))"
    if "\<And>key b. map_of d key = Some b \<Longrightarrow> \<exists>r. equivalenceKey r = key \<and> utf8_request r \<and>
        tool_object (rq_tool r) \<notin> set (emb_tool_grants e) \<and> Check ops e r = Inr b" for d
    using Cons.IH Cons.prems(1) that by simp
  show ?case
  proof (cases "if ?shared then map_of decided ?key else None")
    case (Some b)
    then have sh: ?shared "map_of decided ?key = Some b" by (auto split: if_splits)
    from Cons.prems(2) [OF this(2)] obtain q where q: "agree q r" "utf8_request q"
      "tool_object (rq_tool q) \<notin> set (emb_tool_grants e)" "Check ops e q = Inr b"
      unfolding equivalenceKey_agree by blast
    have "Check ops e r = Inr b"
      by (rule Check_agree [OF holds q(2) _ q(1,3) sh(1) q(4)]) (use Cons.prems(1) in simp)
    with sh ih [OF Cons.prems(2)] show ?thesis by (simp add: decision_def)
  next
    case None
    show ?thesis
    proof (cases "Check ops e r")
      case (Inl err)
      with None ih [OF Cons.prems(2)] show ?thesis by (simp add: decision_def Let_def)
    next
      case (Inr b)
      have "check_batch ops e (if ?shared then AList.update ?key b decided else decided) rs =
          (map (decision \<circ> Check ops e) rs, failures (map (Check ops e) rs))"
        by (rule ih) (use Cons.prems Inr in \<open>auto simp: update_conv' split: if_splits\<close>)
      with None Inr show ?thesis by (simp add: decision_def Let_def)
    qed
  qed
qed

end

end
