(* ===== verification/EngineOrder.thy ===== *)
theory EngineOrder
  imports EngineApply
begin

text \<open>
  The order in which an apply changes the store (\<open>apply\<close> in \<open>internal/authz/embedded.go\<close>). Every state
  the store goes through is collected, in the loops' own order: chunks, failed requests, the retry
  of a failed delete tuple by tuple, and a cancelled context included. None of them allows what
  neither the old nor the new rules allow, as long as the server refuses to delete a single tuple
  only when the model does not admit it.
\<close>

section \<open>Decisions and stored rules\<close>

text \<open>The relations of the contextual tuples of a check. The store holds no tuple of them; it may hold
  tuples of relations this model does not know.\<close>

definition context_relations :: "string list" where
  "context_relations = [''member'', ''assignee'', ''subscriber'', relHolder,
     ''instance'', ''backend'', ''access_class'', ''backend_access'']"

definition rule_relations :: "tuple_key set \<Rightarrow> bool" where
  "rule_relations st \<longleftrightarrow> (\<forall>t \<in> st. tk_relation t \<notin> set context_relations)"

lemma rule_relations_rules:
  "\<forall>t \<in> st. tk_relation t = relExecutor \<or> tk_relation t = relBlocked \<Longrightarrow> rule_relations st"
  unfolding rule_relations_def by (auto simp: context_relations_def relation_defs dest: bspec)

lemma admits_membership:
  "admits rel ty u \<Longrightarrow> is_userset u \<Longrightarrow> userset_relation u \<in> {''member'', ''assignee'', ''subscriber'', relHolder}"
  by (auto simp: admits_def subject_sets_def split: if_splits)

lemma membership_context:
  assumes "rule_relations st" "userset_relation u \<in> {''member'', ''assignee'', ''subscriber'', relHolder}"
  shows "has_membership (st \<union> c) user u = has_membership c user u"
proof -
  have no: "t \<notin> st" if "tk_relation t \<in> {''member'', ''assignee'', ''subscriber'', relHolder}" for t
    using assms(1) that by (auto simp: rule_relations_def context_relations_def)
  have "TupleKey user (userset_relation u) obj \<notin> st" "TupleKey user ''member'' obj \<notin> st" for obj
    using assms(2) by (auto intro!: no)
  then show ?thesis using no by (auto simp: has_membership_def Let_def)
qed

lemma subject_context:
  "rule_relations st \<Longrightarrow> admits rel ty u \<Longrightarrow> is_subject (st \<union> c) user u = is_subject c user u"
  using admits_membership membership_context by (auto simp: is_subject_def)

lemma direct_context:
  assumes "rule_relations st"
  shows "fga_direct (st \<union> c) rel user obj \<longleftrightarrow>
    (\<exists>t \<in> st \<union> c. tk_relation t = rel \<and> tk_object t = obj \<and> admits rel (type_of obj) (tk_user t) \<and> is_subject c user (tk_user t))"
  using subject_context [OF assms] by (auto simp: fga_direct_def)

lemma from_context:
  assumes "rule_relations st" "via \<in> {''instance'', ''backend'', ''access_class'', ''backend_access''}"
  shows "fga_from (st \<union> c) rel via user tool \<longleftrightarrow>
    (\<exists>t \<in> c. tk_relation t = via \<and> tk_object t = tool \<and> type_of (tk_user t) = via \<and>
       \<not> is_userset (tk_user t) \<and> fga_direct (st \<union> c) rel user (tk_user t))"
proof -
  have "t \<notin> st" if "tk_relation t = via" for t
    using assms that by (auto simp: rule_relations_def context_relations_def)
  then show ?thesis by (auto simp: fga_from_def)
qed

text \<open>The tuples that can grant something under the model.\<close>

definition granting :: "tuple_key \<Rightarrow> bool" where
  "granting t \<longleftrightarrow> tk_relation t = relExecutor \<and> admits relExecutor (type_of (tk_object t)) (tk_user t)"

text \<open>A decision only grows with the tuples that grant and shrinks with those of denies.\<close>

lemma can_execute_mono:
  assumes st: "rule_relations st" "rule_relations st'"
    and grants: "{t \<in> st. granting t} \<subseteq> st'" and denies: "{t \<in> st'. is_deny t} \<subseteq> st"
    and allowed: "fga_can_execute (st \<union> c) user tool"
  shows "fga_can_execute (st' \<union> c) user tool"
proof -
  have ex: "fga_direct (st \<union> c) relExecutor user obj \<Longrightarrow> fga_direct (st' \<union> c) relExecutor user obj" for obj
    unfolding direct_context [OF st(1)] direct_context [OF st(2)]
    using grants by (auto simp: granting_def)
  have bl: "fga_direct (st' \<union> c) relBlocked user obj \<Longrightarrow> fga_direct (st \<union> c) relBlocked user obj" for obj
    unfolding direct_context [OF st(1)] direct_context [OF st(2)]
    using denies by (auto simp: is_deny_def)
  have exf: "fga_from (st \<union> c) relExecutor via user tool \<Longrightarrow> fga_from (st' \<union> c) relExecutor via user tool"
    if "via \<in> {''instance'', ''backend'', ''access_class'', ''backend_access''}" for via
    unfolding from_context [OF st(1) that] from_context [OF st(2) that] using ex by blast
  have blf: "fga_from (st' \<union> c) relBlocked via user tool \<Longrightarrow> fga_from (st \<union> c) relBlocked via user tool"
    if "via \<in> {''instance'', ''backend'', ''access_class'', ''backend_access''}" for via
    unfolding from_context [OF st(1) that] from_context [OF st(2) that] using bl by blast
  have "fga_executor (st' \<union> c) user tool"
    using allowed ex exf unfolding fga_can_execute_def fga_executor_def by blast
  moreover have "\<not> fga_blocked (st' \<union> c) user tool"
    using allowed bl blf unfolding fga_can_execute_def fga_blocked_def by blast
  ultimately show ?thesis by (simp add: fga_can_execute_def)
qed

section \<open>The states of an apply\<close>

text \<open>The states of the store after each request that took effect, loop by loop as the code issues
  them: a failed write or a cancelled context ends the apply, a failed delete of a chunk is retried
  tuple by tuple, and a tuple whose own delete fails is left behind.\<close>

fun visited_writes :: "'s fga_ops \<Rightarrow> 's \<Rightarrow> tuple_key list list \<Rightarrow> 's list" where
  "visited_writes ops s [] = []"
| "visited_writes ops s (c # cs) = (case op_write ops s c of Inl _ \<Rightarrow> [] | Inr s' \<Rightarrow> s' # visited_writes ops s' cs)"

fun visited_each :: "'s fga_ops \<Rightarrow> (tuple_key \<Rightarrow> bool) \<Rightarrow> 's \<Rightarrow> tuple_key list \<Rightarrow> 's list" where
  "visited_each ops dn s [] = []"
| "visited_each ops dn s (t # ts) =
     (if dn t then []
      else case op_delete ops s [t] of
        Inl _ \<Rightarrow> visited_each ops dn s ts
      | Inr s' \<Rightarrow> s' # visited_each ops dn s' ts)"

definition visited_chunk :: "'s fga_ops \<Rightarrow> (tuple_key \<Rightarrow> bool) \<Rightarrow> 's \<Rightarrow> tuple_key list \<Rightarrow> 's list" where
  "visited_chunk ops dn s chunk = (case op_delete ops s chunk of Inr s' \<Rightarrow> [s'] | Inl _ \<Rightarrow> visited_each ops dn s chunk)"

fun visited_deletes :: "'s fga_ops \<Rightarrow> (tuple_key \<Rightarrow> bool) \<Rightarrow> 's \<Rightarrow> tuple_key list list \<Rightarrow> 's list" where
  "visited_deletes ops dn s [] = []"
| "visited_deletes ops dn s (c # cs) =
     (let (s', n, err) = deleteTuples ops dn s c in
      visited_chunk ops dn s c @ (case err of Some _ \<Rightarrow> [] | None \<Rightarrow> visited_deletes ops dn s' cs))"

fun visited_steps :: "'s fga_ops \<Rightarrow> (tuple_key \<Rightarrow> bool) \<Rightarrow> 's \<Rightarrow> apply_step list \<Rightarrow> 's list" where
  "visited_steps ops dn s [] = []"
| "visited_steps ops dn s (WriteStep ts # steps) =
     (let (s', n, err) = writeTuples ops s ts in
      visited_writes ops s (chunks writeChunk ts) @ (case err of Some _ \<Rightarrow> [] | None \<Rightarrow> visited_steps ops dn s' steps))"
| "visited_steps ops dn s (DeleteStep ts # steps) =
     (let (s', n, err) = deleteAll ops dn s ts in
      visited_deletes ops dn s (chunks writeChunk ts) @ (case err of Some _ \<Rightarrow> [] | None \<Rightarrow> visited_steps ops dn s' steps))"

text \<open>From the state an apply starts in.\<close>

definition apply_visits ::
  "nat \<Rightarrow> 's fga_ops \<Rightarrow> (tuple_key \<Rightarrow> bool) \<Rightarrow> 's \<Rightarrow> authz_grant list \<Rightarrow> authz_grant list \<Rightarrow> kit list \<Rightarrow> 's list" where
  "apply_visits fuel ops dn s grants denies kits =
     (case desired_tuples grants denies kits of
        Inl _ \<Rightarrow> [s]
      | Inr desired \<Rightarrow>
     (case readTuples fuel ops s of
        Some (Inr current) \<Rightarrow>
          s # visited_steps ops dn s (apply_plan (missing_tuples current desired) (surplus_tuples current desired))
      | _ \<Rightarrow> [s]))"

text \<open>Each loop ends in the last state it visits.\<close>

lemma write_chunks_last: "fst (write_chunks ops s cs) = last (s # visited_writes ops s cs)"
  by (induction cs arbitrary: s) (auto simp: case_prod_beta Let_def split: sum.splits)

lemma delete_each_last: "fst (delete_each ops dn s ts) = last (s # visited_each ops dn s ts)"
  by (induction ts arbitrary: s) (auto simp: case_prod_beta Let_def split: sum.splits)

lemma deleteTuples_last: "fst (deleteTuples ops dn s c) = last (s # visited_chunk ops dn s c)"
  using delete_each_last [of ops dn s c] by (auto simp: deleteTuples_def visited_chunk_def split: sum.splits)

lemma last_Cons_append: "last (x # ys @ zs) = last (last (x # ys) # zs)"
  by (cases zs) auto

lemma delete_chunks_last: "fst (delete_chunks ops dn s cs) = last (s # visited_deletes ops dn s cs)"
proof (induction cs arbitrary: s)
  case (Cons c cs)
  obtain s' n err where d: "deleteTuples ops dn s c = (s', n, err)" by (metis prod_cases3)
  have "s' = last (s # visited_chunk ops dn s c)" using deleteTuples_last [of ops dn s c] d by simp
  with Cons.IH [of s'] d show ?case
    by (cases err) (auto simp: last_Cons_append case_prod_beta Let_def)
qed simp

lemma run_steps_last: "fst (run_steps ops dn res s steps) = last (s # visited_steps ops dn s steps)"
proof (induction ops dn res s steps rule: run_steps.induct)
  case (2 ops dn res s ts steps)
  obtain s' n err where w: "writeTuples ops s ts = (s', n, err)" by (metis prod_cases3)
  have "s' = last (s # visited_writes ops s (chunks writeChunk ts))"
    using write_chunks_last [of ops s "chunks writeChunk ts"] w by (simp add: writeTuples_def)
  with "2.IH" [OF w [symmetric] refl refl] w show ?case
    by (cases err) (auto simp: last_Cons_append simp del: last.simps)
next
  case (3 ops dn res s ts steps)
  obtain s' n err where d: "deleteAll ops dn s ts = (s', n, err)" by (metis prod_cases3)
  have "s' = last (s # visited_deletes ops dn s (chunks writeChunk ts))"
    using delete_chunks_last [of ops dn s "chunks writeChunk ts"] d by (simp add: deleteAll_def)
  with "3.IH" [OF d [symmetric] refl refl] d show ?case
    by (cases err) (auto simp: last_Cons_append simp del: last.simps)
qed simp

lemma apply_rules_visits:
  assumes "apply_rules fuel ops dn e grants denies kits = Some (e', res, err)"
  shows "emb_srv e' \<in> set (apply_visits fuel ops dn (emb_srv e) grants denies kits)"
proof -
  have "fst (run_steps ops dn r s steps) \<in> set (s # visited_steps ops dn s steps)" for r s steps
    unfolding run_steps_last by (rule last_in_set) simp
  then have run: "run_steps ops dn r s steps = (s', res', x) \<Longrightarrow> s' = s \<or> s' \<in> set (visited_steps ops dn s steps)"
    for r s steps s' res' x by (metis fst_conv set_ConsD)
  show ?thesis
    using assms by (auto simp: apply_rules_def apply_visits_def invalidate_def setToolGrants_def Let_def dest!: run
        split: option.splits sum.splits prod.splits)
qed

section \<open>The invariant of each half\<close>

text \<open>A state below the rules \<open>st\<close>: nothing in it grants beyond them, and it has all their denies.\<close>

definition below :: "tuple_key set \<Rightarrow> tuple_key set \<Rightarrow> bool" where
  "below st cur \<longleftrightarrow> rule_relations cur \<and> {t \<in> cur. granting t} \<subseteq> st \<and> {t \<in> st. is_deny t} \<subseteq> cur"

lemma below_refl: "rule_relations st \<Longrightarrow> below st st"
  by (auto simp: below_def)

lemma below_write:
  "below st cur \<Longrightarrow> rule_relations (set c) \<Longrightarrow> \<forall>t \<in> set c. granting t \<longrightarrow> t \<in> st \<Longrightarrow> below st (cur \<union> set c)"
  by (auto simp: below_def rule_relations_def)

lemma below_delete: "below st cur \<Longrightarrow> \<forall>t \<in> set c. is_deny t \<longrightarrow> t \<notin> st \<Longrightarrow> below st (cur - set c)"
  by (auto simp: below_def rule_relations_def)

lemma below_allows:
  "rule_relations st \<Longrightarrow> below st cur \<Longrightarrow> fga_can_execute (cur \<union> c) user tool \<Longrightarrow> fga_can_execute (st \<union> c) user tool"
  using can_execute_mono [of cur st c user tool] by (auto simp: below_def)

lemma chunk_member: "c \<in> set (chunks writeChunk xs) \<Longrightarrow> t \<in> set c \<Longrightarrow> t \<in> set xs"
  using write_chunks_concat [of xs] by (metis UN_I set_concat)

text \<open>The comment on \<open>deleteTuples\<close>: the server refuses to delete a single stored tuple only when the
  model does not admit it, so that it cannot grant anything.\<close>

definition refuses_only_foreign :: "'s fga_ops \<Rightarrow> ('s \<Rightarrow> tuple_key set) \<Rightarrow> bool" where
  "refuses_only_foreign ops stored \<longleftrightarrow>
     (\<forall>s t err. op_delete ops s [t] = Inl err \<longrightarrow> t \<in> stored s \<longrightarrow> \<not> granting t)"

context fga_server
begin

lemma writes_below:
  assumes "below st (stored s)" "\<forall>c \<in> set cs. rule_relations (set c) \<and> (\<forall>t \<in> set c. granting t \<longrightarrow> t \<in> st)"
  shows "\<forall>s' \<in> set (visited_writes ops s cs). below st (stored s')"
  using assms
proof (induction cs arbitrary: s)
  case (Cons c cs)
  show ?case
  proof (cases "op_write ops s c")
    case (Inr s1)
    have "below st (stored s1)" unfolding write_stored [OF Inr] by (rule below_write) (use Cons.prems in auto)
    with Cons.IH [of s1] Cons.prems(2) Inr show ?thesis by auto
  qed simp
qed simp

lemma each_below:
  assumes "below st (stored s)" "\<forall>t \<in> set ts. is_deny t \<longrightarrow> t \<notin> st"
  shows "\<forall>s' \<in> set (visited_each ops dn s ts). below st (stored s')"
  using assms
proof (induction ts arbitrary: s)
  case (Cons t ts)
  have IH: "\<And>s. below st (stored s) \<Longrightarrow> \<forall>s' \<in> set (visited_each ops dn s ts). below st (stored s')"
    using Cons by simp
  show ?case
  proof (cases "op_delete ops s [t]")
    case (Inl err)
    with IH Cons.prems(1) show ?thesis by simp
  next
    case (Inr s1)
    have "below st (stored s1)" unfolding delete_stored [OF Inr] by (rule below_delete) (use Cons.prems in auto)
    with IH Inr show ?thesis by simp
  qed
qed simp

lemma chunk_below:
  assumes "below st (stored s)" "\<forall>t \<in> set c. is_deny t \<longrightarrow> t \<notin> st"
  shows "\<forall>s' \<in> set (visited_chunk ops dn s c). below st (stored s')"
proof (cases "op_delete ops s c")
  case (Inl err)
  with each_below [OF assms] show ?thesis by (simp add: visited_chunk_def)
next
  case (Inr s1)
  have "below st (stored s1)" unfolding delete_stored [OF Inr] by (rule below_delete [OF assms])
  with Inr show ?thesis by (simp add: visited_chunk_def)
qed

lemma visited_last: "P s \<Longrightarrow> \<forall>x \<in> set xs. P x \<Longrightarrow> P (last (s # xs))"
  by (metis last_in_set list.discI set_ConsD)

lemma deletes_below:
  assumes "below st (stored s)" "\<forall>c \<in> set cs. \<forall>t \<in> set c. is_deny t \<longrightarrow> t \<notin> st"
  shows "\<forall>s' \<in> set (visited_deletes ops dn s cs). below st (stored s')"
  using assms
proof (induction cs arbitrary: s)
  case (Cons c cs)
  obtain s1 n err where d: "deleteTuples ops dn s c = (s1, n, err)" by (metis prod_cases3)
  have v: "\<forall>s' \<in> set (visited_chunk ops dn s c). below st (stored s')"
    by (rule chunk_below) (use Cons.prems in auto)
  then have "below st (stored s1)"
    using deleteTuples_last [of ops dn s c] d visited_last [of "\<lambda>s. below st (stored s)"] Cons.prems(1) by simp
  with Cons.IH [of s1] Cons.prems(2) v d show ?case by (auto split: option.splits)
qed simp

text \<open>What is gone or written once a loop has ended without an error.\<close>

lemma write_chunks_effect:
  "write_chunks ops s cs = (s', n, None) \<Longrightarrow> stored s' = stored s \<union> set (concat cs)"
proof (induction cs arbitrary: s n)
  case (Cons c cs)
  then obtain s1 where s1: "op_write ops s c = Inr s1" by (cases "op_write ops s c") auto
  with Cons.prems obtain m where "write_chunks ops s1 cs = (s', m, None)"
    by (cases "write_chunks ops s1 cs") auto
  from Cons.IH [OF this] write_stored [OF s1] show ?case by auto
qed simp

lemma delete_each_effect:
  assumes "refuses_only_foreign ops stored" "delete_each ops dn s ts = (s', n, None)"
  shows "{t \<in> stored s'. granting t} \<subseteq> stored s - set ts \<and> stored s - set ts \<subseteq> stored s' \<and> stored s' \<subseteq> stored s"
  using assms(2)
proof (induction ts arbitrary: s n)
  case (Cons t ts)
  show ?case
  proof (cases "op_delete ops s [t]")
    case (Inl err)
    with assms(1) have "t \<in> stored s \<Longrightarrow> \<not> granting t" unfolding refuses_only_foreign_def by blast
    moreover have "delete_each ops dn s ts = (s', n, None)" using Cons.prems Inl by (simp split: if_splits)
    ultimately show ?thesis using Cons.IH [of s n] by auto
  next
    case (Inr s1)
    with Cons.prems obtain m where "delete_each ops dn s1 ts = (s', m, None)"
      by (cases "delete_each ops dn s1 ts") (auto split: if_splits)
    from Cons.IH [OF this] show ?thesis unfolding delete_stored [OF Inr] by auto
  qed
qed auto

lemma deleteTuples_effect:
  assumes "refuses_only_foreign ops stored" "deleteTuples ops dn s c = (s', n, None)"
  shows "{t \<in> stored s'. granting t} \<subseteq> stored s - set c \<and> stored s - set c \<subseteq> stored s' \<and> stored s' \<subseteq> stored s"
proof (cases "op_delete ops s c")
  case (Inl err)
  with delete_each_effect [OF assms(1), of dn s c s' n] assms(2) show ?thesis by (simp add: deleteTuples_def)
next
  case (Inr s1)
  with assms(2) delete_stored [OF Inr] show ?thesis by (auto simp: deleteTuples_def)
qed

lemma delete_chunks_effect:
  assumes "refuses_only_foreign ops stored" "delete_chunks ops dn s cs = (s', n, None)"
  shows "{t \<in> stored s'. granting t} \<subseteq> stored s - set (concat cs) \<and> stored s - set (concat cs) \<subseteq> stored s' \<and> stored s' \<subseteq> stored s"
  using assms(2)
proof (induction cs arbitrary: s n)
  case (Cons c cs)
  obtain s1 m err where d: "deleteTuples ops dn s c = (s1, m, err)" by (metis prod_cases3)
  with Cons.prems have e: "err = None" by (auto split: option.splits)
  with Cons.prems d obtain k where "delete_chunks ops dn s1 cs = (s', k, None)"
    by (cases "delete_chunks ops dn s1 cs") auto
  from Cons.IH [OF this] deleteTuples_effect [OF assms(1) d [unfolded e]] show ?case by auto
qed auto

end

lemma steps_visited_write:
  "s' \<in> set (visited_steps ops dn s (WriteStep ts # steps)) \<Longrightarrow>
   s' \<in> set (visited_writes ops s (chunks writeChunk ts)) \<or>
   (\<exists>s1 n. writeTuples ops s ts = (s1, n, None) \<and> s' \<in> set (visited_steps ops dn s1 steps))"
  by (cases "writeTuples ops s ts") (auto split: option.splits)

lemma steps_visited_delete:
  "s' \<in> set (visited_steps ops dn s (DeleteStep ts # steps)) \<Longrightarrow>
   s' \<in> set (visited_deletes ops dn s (chunks writeChunk ts)) \<or>
   (\<exists>s1 n. deleteAll ops dn s ts = (s1, n, None) \<and> s' \<in> set (visited_steps ops dn s1 steps))"
  by (cases "deleteAll ops dn s ts") (auto split: option.splits)

lemma writes_last: "writeTuples ops s ts = (s1, n, err) \<Longrightarrow> s1 = s \<or> s1 \<in> set (visited_writes ops s (chunks writeChunk ts))"
  using write_chunks_last [of ops s "chunks writeChunk ts"] by (metis fst_conv last_in_set list.discI set_ConsD writeTuples_def)

lemma deletes_last: "deleteAll ops dn s ts = (s1, n, err) \<Longrightarrow> s1 = s \<or> s1 \<in> set (visited_deletes ops dn s (chunks writeChunk ts))"
  using delete_chunks_last [of ops dn s "chunks writeChunk ts"] by (metis fst_conv last_in_set list.discI set_ConsD deleteAll_def)

context fga_server
begin

lemma WriteStep_below:
  assumes "below st (stored s)" "rule_relations (set ts)" "\<forall>t \<in> set ts. granting t \<longrightarrow> t \<in> st"
  shows "\<forall>s' \<in> set (visited_writes ops s (chunks writeChunk ts)). below st (stored s')"
  using writes_below [OF assms(1)] assms(2,3) unfolding rule_relations_def by (meson chunk_member)

lemma DeleteStep_below:
  assumes "below st (stored s)" "\<forall>t \<in> set ts. is_deny t \<longrightarrow> t \<notin> st"
  shows "\<forall>s' \<in> set (visited_deletes ops dn s (chunks writeChunk ts)). below st (stored s')"
  using deletes_below [OF assms(1)] assms(2) by (meson chunk_member)

text \<open>The first two steps stay below the old rules, the last two below the new ones.\<close>

lemma visited_below:
  assumes foreign: "refuses_only_foreign ops stored" and old: "rule_relations (stored s)" and new: "rule_relations new"
    and ws: "set ws = new - stored s" and ds: "set ds = stored s - new"
    and s': "s' \<in> set (visited_steps ops dn s (apply_plan ws ds))"
  shows "below (stored s) (stored s') \<or> below new (stored s')"
proof -
  let ?old = "stored s"
  have "s' \<in> set (visited_steps ops dn s [WriteStep (filter is_deny ws), DeleteStep (filter (\<lambda>t. \<not> is_deny t) ds),
      WriteStep (filter (\<lambda>t. \<not> is_deny t) ws), DeleteStep (filter is_deny ds)])"
    using s' by (simp add: apply_plan_def)
  note visited = this
  have rel: "rule_relations (set (filter is_deny ws))" "rule_relations (set (filter (\<lambda>t. \<not> is_deny t) ws))"
    using new ws by (auto simp: rule_relations_def)
  have deny: "granting t \<Longrightarrow> \<not> is_deny t" for t by (simp add: granting_def is_deny_def relation_defs)
  have one: "\<forall>x \<in> set (visited_writes ops s (chunks writeChunk (filter is_deny ws))). below ?old (stored x)"
    by (rule WriteStep_below [OF below_refl [OF old] rel(1)]) (auto dest: deny)
  show ?thesis
  proof (cases "s' \<in> set (visited_writes ops s (chunks writeChunk (filter is_deny ws)))")
    case False
    with steps_visited_write [OF visited] obtain s1 n1 where s1: "writeTuples ops s (filter is_deny ws) = (s1, n1, None)"
      and v1: "s' \<in> set (visited_steps ops dn s1 [DeleteStep (filter (\<lambda>t. \<not> is_deny t) ds),
        WriteStep (filter (\<lambda>t. \<not> is_deny t) ws), DeleteStep (filter is_deny ds)])" by blast
    have st1: "stored s1 = ?old \<union> set (filter is_deny ws)"
      using write_chunks_effect [OF s1 [unfolded writeTuples_def]] by (simp only: write_chunks_concat)
    have "below ?old (stored s1)" using writes_last [OF s1] one below_refl [OF old] by blast
    then have two: "\<forall>x \<in> set (visited_deletes ops dn s1 (chunks writeChunk (filter (\<lambda>t. \<not> is_deny t) ds))). below ?old (stored x)"
      by (rule DeleteStep_below) auto
    show ?thesis
    proof (cases "s' \<in> set (visited_deletes ops dn s1 (chunks writeChunk (filter (\<lambda>t. \<not> is_deny t) ds)))")
      case False
      with steps_visited_delete [OF v1] obtain s2 n2 where
        s2: "deleteAll ops dn s1 (filter (\<lambda>t. \<not> is_deny t) ds) = (s2, n2, None)"
        and v2: "s' \<in> set (visited_steps ops dn s2 [WriteStep (filter (\<lambda>t. \<not> is_deny t) ws), DeleteStep (filter is_deny ds)])" by blast
      have st2: "{t \<in> stored s2. granting t} \<subseteq> stored s1 - set (filter (\<lambda>t. \<not> is_deny t) ds)"
        "stored s1 - set (filter (\<lambda>t. \<not> is_deny t) ds) \<subseteq> stored s2" "stored s2 \<subseteq> stored s1"
        using delete_chunks_effect [OF foreign s2 [unfolded deleteAll_def]] by (simp_all only: write_chunks_concat)
      have b2: "below new (stored s2)"
      proof -
        have "rule_relations (stored s2)" using st2(3) st1 old rel(1) by (auto simp: rule_relations_def)
        moreover have "{t \<in> stored s2. granting t} \<subseteq> new" using st2(1) st1 ws ds deny by auto
        moreover have "{t \<in> new. is_deny t} \<subseteq> stored s2" using st2(2) st1 ws by auto
        ultimately show ?thesis by (simp add: below_def)
      qed
      then have three: "\<forall>x \<in> set (visited_writes ops s2 (chunks writeChunk (filter (\<lambda>t. \<not> is_deny t) ws))). below new (stored x)"
        by (rule WriteStep_below [OF _ rel(2)]) (use ws in auto)
      show ?thesis
      proof (cases "s' \<in> set (visited_writes ops s2 (chunks writeChunk (filter (\<lambda>t. \<not> is_deny t) ws)))")
        case False
        with steps_visited_write [OF v2] obtain s3 n3 where s3: "writeTuples ops s2 (filter (\<lambda>t. \<not> is_deny t) ws) = (s3, n3, None)"
          and v3: "s' \<in> set (visited_steps ops dn s3 [DeleteStep (filter is_deny ds)])" by blast
        have "below new (stored s3)" using writes_last [OF s3] three b2 by blast
        then have "\<forall>x \<in> set (visited_deletes ops dn s3 (chunks writeChunk (filter is_deny ds))). below new (stored x)"
          by (rule DeleteStep_below) (use ds in auto)
        then show ?thesis using steps_visited_delete [OF v3] by auto
      qed (use three in blast)
    qed (use two in blast)
  qed (use one in blast)
qed

text \<open>Reading returns the stored tuples, or fails.\<close>

lemma read_pages_some:
  "i < length (pages s) \<Longrightarrow> read_pages fuel ops s i = Some (Inr ts) \<Longrightarrow> ts = concat (drop i (pages s))"
proof (induction fuel arbitrary: i ts)
  case (Suc fuel)
  from Suc.prems(2) obtain r where "op_read ops s i = Inr r" by (auto split: sum.splits)
  with read_page [OF Suc.prems(1)] have r: "op_read ops s i = Inr (pages s ! i, if Suc i < length (pages s) then Suc i else 0)"
    by metis
  have d: "drop i (pages s) = pages s ! i # drop (Suc i) (pages s)"
    using Suc.prems(1) by (rule Cons_nth_drop_Suc [symmetric])
  show ?case
  proof (cases "Suc i < length (pages s)")
    case True
    then obtain x where x: "read_pages fuel ops s (Suc i) = Some x" "bind_res x (\<lambda>ts'. Inr (pages s ! i @ ts')) = Inr ts"
      using Suc.prems(2) r by auto
    then obtain ts' where "read_pages fuel ops s (Suc i) = Some (Inr ts')" "ts = pages s ! i @ ts'"
      by (cases x) (auto simp: bind_res_def)
    with Suc.IH [OF True] d show ?thesis by simp
  next
    case False
    with Suc.prems(2) r d show ?thesis by simp
  qed
qed simp

lemma readTuples_stored:
  assumes "readTuples fuel ops s = Some (Inr current)"
  shows "set current = stored s"
proof -
  obtain x where x: "read_pages fuel ops s 0 = Some x" "bind_res x (\<lambda>ts. Inr (remdups ts)) = Inr current"
    using assms by (auto simp: readTuples_def)
  then obtain ts where "x = Inr ts" "current = remdups ts" by (cases x) (auto simp: bind_res_def)
  with x(1) read_pages_some [of 0 s fuel ts] pages_nonempty [of s] pages_stored [of s] show ?thesis by simp
qed

lemma apply_visits_below:
  assumes "refuses_only_foreign ops stored" "rule_relations (stored s)"
    "s' \<in> set (apply_visits fuel ops dn s grants denies kits)"
  shows "below (stored s) (stored s') \<or> below (rule_tuples grants denies kits) (stored s')"
proof (cases "s' = s")
  case False
  with assms(3) obtain desired current where d: "desired_tuples grants denies kits = Inr desired"
    and c: "readTuples fuel ops s = Some (Inr current)"
    and v: "s' \<in> set (visited_steps ops dn s (apply_plan (missing_tuples current desired) (surplus_tuples current desired)))"
    by (auto simp: apply_visits_def split: sum.splits option.splits)
  have "rule_relations (rule_tuples grants denies kits)"
    using rule_tuple_relation by (blast intro: rule_relations_rules)
  from visited_below [OF assms(1,2) this _ _ v] set_desired [OF d] readTuples_stored [OF c]
  show ?thesis by (simp add: missing_tuples_def surplus_tuples_def Collect_conj_eq set_diff_eq)
qed (simp add: below_refl assms(2))

end

section \<open>The order is safe\<close>


text \<open>A server that rejects deletes of tuples its model does not admit, with one such tuple stored: the
  request that deletes it together with a grant fails, the grant is deleted alone and the tuple
  stays. Before that the deny of \<open>eve\<close> is written.\<close>

definition demo_everyone :: authz_grant where
  "demo_everyone = zero_grant\<lparr>ag_everyone := True, ag_all_tools := True\<rparr>"

definition demo_deny :: authz_grant where
  "demo_deny = zero_grant\<lparr>ag_user := ''eve'', ag_all_tools := True\<rparr>"

definition demo_store :: "tuple_key list" where
  "demo_store = [TupleKey ''user:*'' ''executor'' ''instance:toolmesh'']"

definition demo_desired :: "tuple_key list" where
  "demo_desired = demo_store @ [TupleKey ''user:eve'' ''blocked'' ''instance:toolmesh'']"

definition demo_context :: "tuple_key list" where
  "demo_context = [TupleKey ''instance:toolmesh'' ''instance'' ''tool:t'']"

lemma demo_desired: "desired_tuples [demo_everyone] [demo_deny] [] = Inr demo_desired"
  by (simp add: desired_tuples_def grant_Validate_def grant_tuples_def grant_subject_def grant_objects_def demo_everyone_def
      demo_deny_def demo_desired_def demo_store_def zero_grant_def object_defs relation_defs escapeID_name name_chars_def)

lemmas demo_defs = demo_store_def demo_desired_def demo_context_def mem_fga_def writable_def deletable_def is_deny_def relation_defs
  missing_tuples_def surplus_tuples_def apply_plan_def chunks.simps writeChunk_def

lemmas demo_model = fga_can_execute_def fga_executor_def fga_blocked_def fga_direct_def fga_from_def is_subject_def
  admits_def type_of_def is_userset_def anyone_def rule_types_def relation_defs

definition strict_fga :: "tuple_key list fga_ops" where
  "strict_fga = mem_fga\<lparr>op_delete := (\<lambda>s ts. if \<exists>t \<in> set ts. \<not> admits (tk_relation t) (type_of (tk_object t)) (tk_user t)
     then Inl (FgaError ''type restriction'') else op_delete mem_fga s ts)\<rparr>"

lemma strict_server: "fga_server strict_fga set (page_list 100)"
  using mem.fga_server_axioms by (auto simp: fga_server_def strict_fga_def split: if_splits)

lemma strict_refuses: "refuses_only_foreign strict_fga set"
  by (auto simp: refuses_only_foreign_def strict_fga_def mem_fga_def granting_def deletable_def split: if_splits)

definition demo_agent :: tuple_key where
  "demo_agent = TupleKey ''agent:bot'' ''executor'' ''instance:toolmesh''"

definition agent_engine :: "tuple_key list embedded" where
  "agent_engine = \<lparr>emb_srv = demo_store @ [demo_agent], emb_tool_grants = [], emb_kits = [], emb_approvers = [], emb_epoch = 0\<rparr>"


lemma agent_visits:
  "demo_store @ [demo_agent, TupleKey ''user:eve'' ''blocked'' ''instance:toolmesh''] \<in>
     set (apply_visits 2 strict_fga (\<lambda>_. False) (emb_srv agent_engine) [] [demo_deny] [])"
proof -
  have "desired_tuples [] [demo_deny] [] = Inr [TupleKey ''user:eve'' ''blocked'' ''instance:toolmesh'']"
    by (simp add: desired_tuples_def grant_Validate_def grant_tuples_def grant_subject_def grant_objects_def
        demo_deny_def zero_grant_def object_defs relation_defs escapeID_name name_chars_def)
  moreover have "readTuples 2 strict_fga (demo_store @ [demo_agent]) = Some (Inr (demo_store @ [demo_agent]))"
    by (simp add: readTuples_def strict_fga_def demo_agent_def demo_defs numeral_2_eq_2 page_list.simps bind_res_def)
  ultimately show ?thesis
    by (simp add: apply_visits_def agent_engine_def apply_plan_def writeTuples_def strict_fga_def demo_agent_def demo_defs)
qed


section \<open>Grants left behind\<close>

definition busy_fga :: "tuple_key list fga_ops" where
  "busy_fga = mem_fga\<lparr>op_delete := (\<lambda>s ts. if hd demo_store \<in> set ts then Inl (FgaError ''busy'') else op_delete mem_fga s ts)\<rparr>"

definition busy_engine :: "tuple_key list embedded" where
  "busy_engine = \<lparr>emb_srv = demo_desired, emb_tool_grants = [], emb_kits = [], emb_approvers = [], emb_epoch = 0\<rparr>"

text \<open>A server that refuses one delete, as a datastore that is busy at that moment does. The apply
  reports success, the revoked grant stays in force, and since its deny is removed after it, a user
  is allowed whom neither the old nor the new rules allow.\<close>

theorem apply_leaves_grant:
  "\<exists>e' res. apply_rules 2 busy_fga (\<lambda>_. False) busy_engine [] [] [] = Some (e', res, None) \<and>
     emb_srv e' = demo_store \<and> fga_can_execute (set (emb_srv e') \<union> set demo_context) ''user:eve'' ''tool:t'' \<and>
     \<not> fga_can_execute (set demo_desired \<union> set demo_context) ''user:eve'' ''tool:t'' \<and>
     \<not> fga_can_execute (set [] \<union> set demo_context) ''user:eve'' ''tool:t''"
proof -
  have read: "readTuples 2 busy_fga demo_desired = Some (Inr demo_desired)" "readTuples 2 busy_fga demo_store = Some (Inr demo_store)"
    by (simp_all add: readTuples_def busy_fga_def demo_defs numeral_2_eq_2 page_list.simps bind_res_def)
  have steps: "run_steps busy_fga (\<lambda>_. False) zero_result demo_desired (apply_plan (missing_tuples demo_desired [])
      (surplus_tuples demo_desired [])) = (demo_store, zero_result\<lparr>ar_deleted := 1\<rparr>, None)"
    by (simp add: busy_fga_def demo_defs deleteAll_def deleteTuples_def writeTuples_def zero_result_def)
  have "apply_rules 2 busy_fga (\<lambda>_. False) busy_engine [] [] [] =
    Some (busy_engine\<lparr>emb_srv := demo_store, emb_epoch := 1\<rparr>, zero_result\<lparr>ar_deleted := 1\<rparr>, None)"
    using read steps
    by (simp add: apply_rules_def validateKits_def desired_tuples_def busy_engine_def Let_def zero_result_def
        invalidate_def setToolGrants_def tool_objects_in_def has_prefix_def demo_store_def)
  then show ?thesis by (simp add: demo_defs demo_model)
qed

end
