(* ===== verification/EngineProps.thy ===== *)
theory EngineProps
  imports EngineBatch EngineOrder
begin

text \<open>
  The properties of the embedded engine that follow from the theories before: a check after an apply
  decides what the policy says, a batch answers what single checks answer, the presets allow what
  their documentation says, and a policy that is not valid changes nothing.
\<close>

lemma kit_Validate_name: "kit_Validate k = None \<Longrightarrow> kit_name k \<noteq> []"
  by (auto simp: kit_Validate_def kitNamePattern_def slug_match_def split: if_splits)

section \<open>Apply and check\<close>

text \<open>C3: on a server that answers, applying a valid policy ends without an error, whatever was stored
  before, and every check of a nonempty user and tool afterwards is answered by the policy: allowed
  when a grant, a held kit or a held part of a kit covers the call and no deny does.\<close>

theorem apply_then_check:
  assumes server: "fga_reliable ops stored pages"
    and valid: "validateApprovers ct (pol_approvers p) (pol_kits p) = None" "validateKits (pol_kits p) = None"
      "\<forall>g \<in> set (pol_grants p) \<union> set (pol_denies p). grant_Validate g = None"
    and utf8: "utf8_rules (pol_grants p) (pol_denies p) (pol_kits p)" "utf8_request r"
    and request: "rq_user_id r \<noteq> []" "rq_tool r \<noteq> []"
      "length (context_tuples (sort_key kit_name (pol_kits p)) r) \<le> maxContextualTuples"
  shows "\<exists>n. \<forall>fuel \<ge> n. \<exists>e' res. ApplyPolicy fuel ct ops dn e p = Some (e', res, None) \<and>
    stored (emb_srv e') = rule_tuples (pol_grants p) (pol_denies p) (pol_kits p) \<and>
    Check ops e' r = Inr (spec_allows (pol_grants p) (pol_denies p) (pol_kits p) r)"
proof -
  have kits: "\<forall>k \<in> set (pol_kits p). kit_name k \<noteq> []" "distinct (map kit_name (pol_kits p))"
    using valid(2) kit_Validate_name by (auto simp: validateKits_None)
  have "stored (emb_srv e') = rule_tuples (pol_grants p) (pol_denies p) (pol_kits p) \<and>
      Check ops e' r = Inr (spec_allows (pol_grants p) (pol_denies p) (pol_kits p) r)"
    if "engine_holds stored e' (pol_grants p) (pol_denies p) (pol_kits p)" for e'
    using that request fga_reliable.Check_holds [OF server that utf8 kits] by (simp add: engine_holds_def)
  with fga_reliable.ApplyPolicy_holds [OF server valid, of dn e] show ?thesis by metis
qed

definition demo_policy :: policy where
  "demo_policy = \<lparr>pol_preset = [], pol_source = SourceFile, pol_grants = [demo_everyone], pol_denies = [demo_deny],
     pol_kits = [], pol_approvers = []\<rparr>"

definition demo_request :: request where
  "demo_request = \<lparr>rq_user_id = ''alice'', rq_company_id = [], rq_plan = [], rq_roles = [''dev''], rq_kits = [],
     rq_kit_parts = [], rq_tool = ''t'', rq_backend = ''b'', rq_access = ''read''\<rparr>"

lemmas demo_policy_defs = demo_policy_def demo_everyone_def demo_deny_def zero_grant_def

lemma demo_policy_valid:
  "validateApprovers ct (pol_approvers demo_policy) (pol_kits demo_policy) = None" "validateKits (pol_kits demo_policy) = None"
  "\<forall>g \<in> set (pol_grants demo_policy) \<union> set (pol_denies demo_policy). grant_Validate g = None"
  by (simp_all add: demo_policy_defs validateApprovers_def validateKits_def grant_Validate_def)

lemma demo_utf8: "utf8_rules (pol_grants demo_policy) (pol_denies demo_policy) (pol_kits demo_policy)" "utf8_request demo_request"
  by (simp_all add: utf8_rules_def utf8_rule_def utf8_request_def demo_policy_defs demo_request_def
      valid_utf8_name name_chars_def)

lemma demo_context_length:
  "length (context_tuples (sort_key kit_name (pol_kits demo_policy)) demo_request) \<le> maxContextualTuples"
  by (simp add: context_tuples_def structure_tuples_def identity_tuples_def part_tuples_def part_objects_of_def
      demo_policy_def demo_request_def dedup_names_def maxContextualTuples_def Let_def)

theorem apply_then_check_witness:
  "\<exists>n. \<forall>fuel \<ge> n. \<exists>e' res. ApplyPolicy fuel \<lparr>lower_beyond_ascii = id, upper_beyond_ascii = id\<rparr> mem_fga (\<lambda>_. False) busy_engine demo_policy = Some (e', res, None) \<and>
    Check mem_fga e' demo_request = Inr True"
proof -
  have "spec_allows (pol_grants demo_policy) (pol_denies demo_policy) (pol_kits demo_policy) demo_request"
    by (simp add: spec_allows_def rule_matches_def subject_matches_def target_matches_def rule_subject_def
        demo_policy_defs demo_request_def)
  moreover have "rq_user_id demo_request \<noteq> []" "rq_tool demo_request \<noteq> []" by (simp_all add: demo_request_def)
  ultimately show ?thesis
    using apply_then_check [OF mem.fga_reliable_axioms demo_policy_valid demo_utf8 _ _ demo_context_length,
      of "\<lparr>lower_beyond_ascii = id, upper_beyond_ascii = id\<rparr>" "\<lambda>_. False" busy_engine] by simp blast
qed

section \<open>Batches\<close>

text \<open>C29: with the rules of a policy applied, a batch answers each request with what a check of that
  request alone answers, a failed check counting as not allowed, and returns the errors of exactly
  the checks that failed, in order, although equivalent requests are checked once.\<close>

theorem batch_equals_checks:
  assumes "fga_reliable ops stored pages" "engine_holds stored e grants denies kits" "validateKits kits = None"
    "utf8_rules grants denies kits" "\<forall>r \<in> set rs. utf8_request r"
  shows "CheckBatch ops e rs = (map (decision \<circ> Check ops e) rs, failures (map (Check ops e) rs))"
proof -
  have kits: "\<forall>k \<in> set kits. kit_name k \<noteq> []" "distinct (map kit_name kits)"
    using assms(3) kit_Validate_name by (auto simp: validateKits_None)
  show ?thesis unfolding CheckBatch_def
    by (rule fga_reliable.check_batch_eq [OF assms(1,2,4) kits assms(5)]) simp
qed

definition demo_engine :: "tuple_key list embedded" where
  "demo_engine = \<lparr>emb_srv = demo_desired, emb_tool_grants = [], emb_kits = [], emb_approvers = [], emb_epoch = 0\<rparr>"

lemma demo_engine_holds: "engine_holds set demo_engine [demo_everyone] [demo_deny] []"
proof -
  have "set demo_desired = rule_tuples [demo_everyone] [demo_deny] []" using set_desired [OF demo_desired] .
  then have "engine_holds set demo_engine [demo_everyone] [demo_deny] [] \<longleftrightarrow>
      {tk_object t | t. t \<in> set demo_desired \<and> has_prefix (tk_object t) ''tool:''} = {}"
    by (auto simp: engine_holds_def demo_engine_def)
  then show ?thesis by (auto simp: demo_desired_def demo_store_def has_prefix_def)
qed

theorem batch_equals_checks_witness:
  "CheckBatch mem_fga demo_engine [demo_request, demo_request\<lparr>rq_tool := ''t2''\<rparr>] =
    ([decision (Check mem_fga demo_engine demo_request), decision (Check mem_fga demo_engine (demo_request\<lparr>rq_tool := ''t2''\<rparr>))],
     failures [Check mem_fga demo_engine demo_request, Check mem_fga demo_engine (demo_request\<lparr>rq_tool := ''t2''\<rparr>)])"
proof -
  have "\<forall>r \<in> set [demo_request, demo_request\<lparr>rq_tool := ''t2''\<rparr>]. utf8_request r"
    by (simp add: utf8_request_def demo_request_def valid_utf8_name name_chars_def)
  from batch_equals_checks [OF mem.fga_reliable_axioms demo_engine_holds _ _ this] show ?thesis
    using demo_utf8(1) by (simp add: validateKits_def demo_policy_def)
qed

section \<open>Policies that are not valid\<close>

text \<open>An apply of a policy with an invalid approver, kit, grant or deny reports the error and changes
  neither the store nor the kits, the approvers or the known tools; the server is not asked.\<close>

theorem apply_invalid_unchanged:
  assumes "validateApprovers ct (pol_approvers p) (pol_kits p) \<noteq> None \<or> validateKits (pol_kits p) \<noteq> None \<or>
    (\<exists>g \<in> set (pol_grants p) \<union> set (pol_denies p). grant_Validate g \<noteq> None)"
  shows "\<exists>e' err. ApplyPolicy fuel ct ops dn e p = Some (e', zero_result, Some err) \<and> emb_srv e' = emb_srv e \<and>
    emb_kits e' = emb_kits e \<and> emb_approvers e' = emb_approvers e \<and> emb_tool_grants e' = emb_tool_grants e"
proof -
  have "\<exists>err. desired_tuples (pol_grants p) (pol_denies p) (pol_kits p) = Inl err"
    if "\<exists>g \<in> set (pol_grants p) \<union> set (pol_denies p). grant_Validate g \<noteq> None"
    using that first_invalid_None [of 1 "pol_grants p"] first_invalid_None [of 1 "pol_denies p"]
    by (cases "first_invalid 1 (pol_grants p)"; cases "first_invalid 1 (pol_denies p)")
      (auto simp: desired_tuples_def)
  with assms show ?thesis
    by (cases "validateApprovers ct (pol_approvers p) (pol_kits p)"; cases "validateKits (pol_kits p)")
      (auto simp: ApplyPolicy_def apply_rules_def invalidate_def)
qed

theorem apply_invalid_unchanged_witness:
  "\<exists>e' err. ApplyPolicy 0 \<lparr>lower_beyond_ascii = id, upper_beyond_ascii = id\<rparr> mem_fga (\<lambda>_. True) demo_engine (demo_policy\<lparr>pol_grants := [zero_grant]\<rparr>) = Some (e', zero_result, Some err) \<and>
    emb_srv e' = demo_desired"
proof -
  have "\<exists>g \<in> set (pol_grants (demo_policy\<lparr>pol_grants := [zero_grant]\<rparr>)) \<union> set (pol_denies (demo_policy\<lparr>pol_grants := [zero_grant]\<rparr>)).
      grant_Validate g \<noteq> None"
    by (simp add: grant_Validate_def zero_grant_def)
  with apply_invalid_unchanged [of "\<lparr>lower_beyond_ascii = id, upper_beyond_ascii = id\<rparr>" "demo_policy\<lparr>pol_grants := [zero_grant]\<rparr>" 0 mem_fga "\<lambda>_. True" demo_engine]
  show ?thesis by (auto simp: demo_engine_def)
qed

section \<open>Presets\<close>

text \<open>What the presets allow: \<open>single-user\<close> the configured owner and the holders of the role admin,
  \<open>team\<close> also every subscriber of the plan pro and the read tools to the plan free, \<open>open\<close>
  everybody; any other name is an error.\<close>

theorem preset_decisions:
  assumes "PresetGrants name owner = Inr gs"
  shows "ValidPreset name \<and> (spec_allows gs [] [] r \<longleftrightarrow>
    name = PresetOpen \<or>
    (name = PresetTeam \<and> (rq_plan r = ''pro'' \<or> (rq_plan r = ''free'' \<and> rq_access r = ''read''))) \<or>
    ''admin'' \<in> set (rq_roles r) \<or> (owner \<noteq> [] \<and> rq_user_id r = owner))"
proof -
  have su: "(\<exists>g \<in> set (single_user_grants owner). rule_matches g r) \<longleftrightarrow>
      ''admin'' \<in> set (rq_roles r) \<or> (owner \<noteq> [] \<and> rq_user_id r = owner)"
    by (auto simp: single_user_grants_def rule_matches_def subject_matches_def target_matches_def rule_subject_def zero_grant_def)
  have team: "(\<exists>g \<in> set [zero_grant\<lparr>ag_plan := ''pro'', ag_all_tools := True\<rparr>, zero_grant\<lparr>ag_plan := ''free'', ag_access := [''read'']\<rparr>].
      rule_matches g r) \<longleftrightarrow> rq_plan r = ''pro'' \<or> (rq_plan r = ''free'' \<and> rq_access r = ''read'')"
    by (auto simp: rule_matches_def subject_matches_def target_matches_def rule_subject_def zero_grant_def)
  have op: "rule_matches (zero_grant\<lparr>ag_everyone := True, ag_all_tools := True\<rparr>) r"
    by (simp add: rule_matches_def subject_matches_def target_matches_def rule_subject_def zero_grant_def)
  have names: "PresetOpen \<noteq> PresetTeam" "PresetOpen \<noteq> PresetSingleUser" "PresetTeam \<noteq> PresetSingleUser"
    by (simp_all add: PresetOpen_def PresetTeam_def PresetSingleUser_def)
  have allows: "spec_allows gs [] [] r \<longleftrightarrow> (\<exists>g \<in> set gs. rule_matches g r)" for gs
    by (auto simp: spec_allows_def kit_matches_def)
  show ?thesis
    using assms su team op names unfolding PresetGrants_def allows ValidPreset_def
    by (auto split: if_splits simp: bex_Un)
qed

theorem preset_decisions_witness:
  "spec_allows (single_user_grants ''bob'') [] [] demo_request \<longleftrightarrow> ''admin'' \<in> set (rq_roles demo_request) \<or> rq_user_id demo_request = ''bob''"
proof -
  have "(PresetGrants PresetSingleUser ''bob'' :: (unit policy_error, authz_grant list) result) = Inr (single_user_grants ''bob'')"
    by (simp add: PresetGrants_def PresetOpen_def PresetTeam_def PresetSingleUser_def)
  from preset_decisions [OF this, of demo_request] show ?thesis
    by (auto simp: PresetOpen_def PresetTeam_def PresetSingleUser_def)
qed

end
