(* ===== verification/GrantFacts.thy ===== *)
theory GrantFacts
  imports GrantService
begin

text \<open>
  What the operations of the grant service do to the grants that are live, over any store that
  satisfies the contract of \<open>grant_store\<close>.
\<close>

lemma Subject_active_grant [simp]: "Subject (active_grant req ttl part approver how now) = Subject req"
  by (simp add: Subject_def active_grant_def)

lemma active_grant_fields [simp]:
  "g_id (active_grant req ttl part approver how now) = g_id req" "g_kit (active_grant req ttl part approver how now) = g_kit req"
  "g_state (active_grant req ttl part approver how now) = StateActive"
  "g_expires_at (active_grant req ttl part approver how now) = now + ttl"
  "g_part (active_grant req ttl part approver how now) = part" "g_ttl (active_grant req ttl part approver how now) = ttl"
  by (simp_all add: active_grant_def)

lemma Subject_new_pending: "Subject (new_pending uc k reason ttl cov i nonce now) = \<lparr>sub_user_id = uc_user_id uc, sub_binding = GrantBinding uc\<rparr>"
  by (simp add: Subject_def new_pending_def GrantBinding_def)

lemma new_pending_fields [simp]:
  "g_id (new_pending uc k reason ttl cov i nonce now) = i" "g_kit (new_pending uc k reason ttl cov i nonce now) = kit_name k"
  "g_state (new_pending uc k reason ttl cov i nonce now) = StatePending" "g_ttl (new_pending uc k reason ttl cov i nonce now) = ttl"
  "g_requested_at (new_pending uc k reason ttl cov i nonce now) = now" "g_reason (new_pending uc k reason ttl cov i nonce now) = reason"
  "g_expires_at (new_pending uc k reason ttl cov i nonce now) = now + RequestTTL"
  by (simp_all add: new_pending_def)

lemma service_kit_Some: "service_kit env name = Some k \<Longrightarrow> k \<in> set (sv_kits env) \<and> kit_name k = name"
  by (auto simp: service_kit_def dest: find_first_Some)

lemma checkScope_None: "checkScope env approver kit = None \<longleftrightarrow> (\<forall>a \<in> set (sv_approvers env). ap_name a = approver \<longrightarrow> MayApprove a kit)"
  by (auto simp: checkScope_def find_first_None)

lemma check_request_Inr:
  "check_request fr env uco inp = Inr (uc, k, reason, ttl, capped) \<Longrightarrow>
     uco = Some uc \<and> uc_authenticated uc \<and> uc_user_id uc \<noteq> [] \<and> service_kit env (trim_space (ri_kit inp)) = Some k \<and>
     HasApprovers env \<and> cleanReason (ri_reason inp) = Inr reason \<and>
     (\<exists>asked. ParseTTL fr (ri_ttl inp) = Some asked \<and> kitTTL k asked = (ttl, capped))"
  by (auto simp: check_request_def Let_def bind_res_Inr_iff split: option.splits if_splits prod.splits)

lemma resolveApproval_Inr:
  "resolveApproval k req a = Inr (ttl, part) \<Longrightarrow> 0 \<le> av_ttl a \<and>
     ttl = fst (kitTTL k (if av_ttl a = 0 then g_ttl req else av_ttl a)) \<and>
     (part = None \<longleftrightarrow> av_grants a = [] \<and> av_tools a = []) \<and>
     (\<forall>p. part = Some p \<longrightarrow> Part k (av_grants a) (av_tools a) = Inr (kitPart p (kit_name k)))"
  by (auto simp: resolveApproval_def Let_def kitPart_def Part_Inr_iff split: if_splits prod.splits sum.splits)

lemma decide_approval_Inr:
  assumes "decide_approval env approver i a how req = Inr (ttl, part)"
  shows "\<exists>k part'. service_kit env (g_kit req) = Some k \<and> checkScope env approver (g_kit req) = None \<and>
    resolveApproval k req a = Inr (ttl, part') \<and>
    part = (case part' of None \<Rightarrow> None | Some p \<Rightarrow> if how = ApprovedWithKey \<and> IsWhole k (kitPart p (kit_name k)) then None else Some p)"
proof -
  obtain k where k: "service_kit env (g_kit req) = Some k" "checkScope env approver (kit_name k) = None"
    using assms by (auto simp: decide_approval_def split: option.splits)
  then have "kit_name k = g_kit req" using service_kit_Some by blast
  then show ?thesis using assms k by (auto simp: decide_approval_def bind_res_Inr_iff)
qed

text \<open>The grants after an approval: the request is gone, the grant is there, and the other grants of the
  same kit to the same subject are gone.\<close>

definition approved_view :: "time \<Rightarrow> time \<Rightarrow> grant \<Rightarrow> grants_view \<Rightarrow> grants_view" where
  "approved_view T now g v st j =
     (if st = StatePending then (if j = g_id g then None else live_at T v st j)
      else if j = g_id g then (if T < g_expires_at g then Some g else None)
      else if (\<exists>old. live_at now v StateActive j = Some old \<and> Subject old = Subject g \<and> g_kit old = g_kit g) then None
      else live_at T v st j)"

text \<open>The pending request a valid call makes, and when a view has room for it.\<close>

definition asked_for :: "(nat \<Rightarrow> nat \<Rightarrow> nat \<Rightarrow> nat) \<Rightarrow> service_env \<Rightarrow> user_context option \<Rightarrow> request_input \<Rightarrow> time \<Rightarrow> grant \<Rightarrow> bool" where
  "asked_for fr env uco inp now g \<longleftrightarrow>
     (\<exists>uc k reason ttl capped i nonce. check_request fr env uco inp = Inr (uc, k, reason, ttl, capped) \<and>
        g = new_pending uc k reason ttl (ri_coverage inp) i nonce now)"

definition admitted :: "grants_view \<Rightarrow> grant \<Rightarrow> bool" where
  "admitted v g \<longleftrightarrow> (\<forall>p \<in> of_subject v StatePending (Subject g). g_kit p \<noteq> g_kit g) \<and>
     card (of_subject v StatePending (Subject g)) < MaxPending"

lemma part_kit_kitPart [simp]: "part_kit (kitPart q k) = k"
  by (simp add: kitPart_def)

lemma whole_without_part: "\<not> service_IsWhole env g \<Longrightarrow> \<exists>q. g_part g = Some q"
  by (auto simp: service_IsWhole_def split: option.splits)

lemma split_held_sets:
  assumes "split_held env w p gs = (whole, parts)"
  shows "set whole = set w \<union> {g_kit g | g. g \<in> set gs \<and> service_IsWhole env g}"
    "set parts = set p \<union> {kitPart q (g_kit g) | g q. g \<in> set gs \<and> \<not> service_IsWhole env g \<and> g_part g = Some q}"
proof -
  have "set whole = set w \<union> {g_kit g | g. g \<in> set gs \<and> service_IsWhole env g} \<and>
    set parts = set p \<union> {kitPart q (g_kit g) | g q. g \<in> set gs \<and> \<not> service_IsWhole env g \<and> g_part g = Some q}"
    using assms
  proof (induction env w p gs rule: split_held.induct)
    case (1 env w p)
    then show ?case by simp
  next
    case (2 env w p g gs)
    then show ?case using whole_without_part [of env g]
      by (cases "service_IsWhole env g") (auto split: option.splits if_splits)
  qed
  then show "set whole = set w \<union> {g_kit g | g. g \<in> set gs \<and> service_IsWhole env g}"
    "set parts = set p \<union> {kitPart q (g_kit g) | g q. g \<in> set gs \<and> \<not> service_IsWhole env g \<and> g_part g = Some q}" by blast+
qed

context grant_store
begin

lemma get_cases:
  assumes "valid s" "st_get ops t st i s = (r, s')"
  shows "valid s'" "same_from t (content s') (content s)"
    "r = Inr g \<longleftrightarrow> live_at t (content s) st i = Some g" "r = Inl e \<longleftrightarrow> e = ErrNotFound \<and> live_at t (content s) st i = None"
  using get_law [OF assms] by (auto split: option.splits)

lemma take_cases:
  assumes "valid s" "st_take ops t st i s = (r, s')"
  shows "valid s'" "same_from t (content s') (view_upd st i None (content s))"
    "r = Inr g \<longleftrightarrow> live_at t (content s) st i = Some g" "r = Inl e \<longleftrightarrow> e = ErrNotFound \<and> live_at t (content s) st i = None"
  using take_law [OF assms] by (auto split: option.splits)

lemma upd_dead: "live_at t v st i = None \<Longrightarrow> same_from t (view_upd st i None v) v"
  by (auto simp: same_from_def live_at_upd view_upd_get fun_eq_iff)

text \<open>Taking the grants a new one replaces removes exactly those.\<close>

lemma remove_replaced_view:
  assumes "valid s" "\<And>n. clk n \<le> T"
  shows "valid (remove_replaced ops clk g held s) \<and>
    (\<forall>st j. live_at T (content (remove_replaced ops clk g held s)) st j =
      (if st = StateActive \<and> (\<exists>old \<in> set held. g_id old = j \<and> g_kit old = g_kit g \<and> j \<noteq> g_id g) then None
       else live_at T (content s) st j))"
  using assms
proof (induction held arbitrary: clk s)
  case Nil
  then show ?case by simp
next
  case (Cons old held)
  let ?hit = "g_kit old = g_kit g \<and> g_id old \<noteq> g_id g"
  let ?s1 = "if ?hit then snd (st_take ops (clk 0) StateActive (g_id old) s) else s"
  obtain r s1 where take: "st_take ops (clk 0) StateActive (g_id old) s = (r, s1)" by fastforce
  have "same_from T (content s1) (view_upd StateActive (g_id old) None (content s))"
    using take_cases(2) [OF Cons.prems(1) take] Cons.prems(2) same_from_mono by blast
  then have v1: "live_at T (content s1) = view_upd StateActive (g_id old) None (live_at T (content s))"
    by (simp add: same_from_def live_at_upd)
  have s1: "valid ?s1" using take_cases(1) [OF Cons.prems(1) take] Cons.prems(1) take by simp
  have "live_at T (content ?s1) st j =
      (if ?hit \<and> st = StateActive \<and> j = g_id old then None else live_at T (content s) st j)" for st j
    using v1 take by (simp add: view_upd_get)
  with Cons.IH [OF s1, of "\<lambda>n. clk (Suc n)"] Cons.prems(2) show ?case by auto
qed

lemma approve_error:
  assumes v: "valid s" and clk: "mono clk" "\<And>n. clk n \<le> T" and r: "approve ops env clk approver i a how s = (Inl e, s')"
  shows "valid s'" "same_from T (content s') (content s)"
proof -
  obtain r1 s1 where get: "st_get ops (clk 1) StatePending i s = (r1, s1)" by fastforce
  note g1 = get_cases [OF v get]
  have s1: "same_from T (content s1) (content s)" using g1(2) clk(2) same_from_mono by blast
  have "valid s' \<and> same_from T (content s') (content s)"
  proof (cases "\<exists>req ttl part. r1 = Inr req \<and> decide_approval env approver i a how req = Inr (ttl, part)")
    case False
    then have "s' = s1" using r get by (auto simp: approve_def split: sum.splits prod.splits)
    then show ?thesis using g1(1) s1 by simp
  next
    case True
    then obtain req ttl part where d: "r1 = Inr req" "decide_approval env approver i a how req = Inr (ttl, part)" by blast
    obtain r2 s2 where take: "st_take ops (clk 2) StatePending i s1 = (r2, s2)" by fastforce
    note t2 = take_cases [OF g1(1) take]
    show ?thesis
    proof (cases r2)
      case (Inl e2)
      have s': "s' = s2" using r get d take Inl by (simp add: approve_def)
      have "live_at (clk 2) (content s1) StatePending i = None" using Inl t2(4) by blast
      from same_from_trans [OF t2(2) upd_dead [OF this]] have "same_from T (content s2) (content s1)"
        using same_from_mono clk(2) by blast
      from same_from_trans [OF this s1] show ?thesis using t2(1) s' by simp
    next
      case (Inr req')
      let ?g = "active_grant req' ttl part approver how (clk 3)"
      obtain r3 s3 where fs: "st_for_subject ops (clk 4) StateActive (Subject ?g) s2 = (r3, s3)" by fastforce
      obtain r4 s4 where put: "st_put ops (clk 5) ?g s3 = (r4, s4)" by fastforce
      have "\<exists>held. r3 = Inr held" "r4 = Inr ()"
        using for_subject_law [OF t2(1) fs] put_law [OF _ put] by auto
      then show ?thesis using r get d take Inr fs put by (auto simp: approve_def Let_def)
    qed
  qed
  then show "valid s'" "same_from T (content s') (content s)" by blast+
qed

lemma approve_success:
  assumes v: "valid s" and clk: "mono clk" "\<And>n. clk n \<le> T" and r: "approve ops env clk approver i a how s = (Inr g, s')"
  shows "valid s'"
    "\<exists>req ttl part. content s StatePending i = Some req \<and> clk 2 < g_expires_at req \<and> g_id req = i \<and>
       decide_approval env approver i a how req = Inr (ttl, part) \<and>
       g = active_grant req ttl part approver how (clk 3)"
    "live_at T (content s') = approved_view T (clk 4) g (content s)"
proof -
  obtain r1 s1 where get: "st_get ops (clk 1) StatePending i s = (r1, s1)" by fastforce
  note g1 = get_cases [OF v get]
  obtain req where req: "r1 = Inr req" using r get by (cases r1) (auto simp: approve_def)
  obtain ttl part where d: "decide_approval env approver i a how req = Inr (ttl, part)"
    using r get req by (cases "decide_approval env approver i a how req") (auto simp: approve_def)
  obtain r2 s2 where take: "st_take ops (clk 2) StatePending i s1 = (r2, s2)" by fastforce
  note t2 = take_cases [OF g1(1) take]
  obtain req' where req': "r2 = Inr req'" using r get req d take by (cases r2) (auto simp: approve_def)
  have le: "clk m \<le> clk n" if "m \<le> n" for m n using clk(1) that by (rule monoD)
  have "live_at (clk 2) (content s) StatePending i = Some req'"
    using req' t2(3) same_from_mono [OF g1(2) le [of 1 2]] by (simp add: same_from_def)
  moreover have "live_at (clk 1) (content s) StatePending i = Some req" using req g1(3) by blast
  ultimately have r': "req' = req" "content s StatePending i = Some req" "clk 2 < g_expires_at req"
    by (auto simp: live_at_Some)
  have ids: "g_id req = i" using content_ids [OF v r'(2)] by simp
  define h where "h = active_grant req ttl part approver how (clk 3)"
  obtain r3 s3 where fs: "st_for_subject ops (clk 4) StateActive (Subject h) s2 = (r3, s3)" by fastforce
  obtain held where held: "r3 = Inr held" "set held = of_subject (live_at (clk 4) (content s2)) StateActive (Subject h)"
    and s3: "valid s3" "same_from (clk 4) (content s3) (content s2)"
    using for_subject_law [OF t2(1) fs] by blast
  obtain r4 s4 where put: "st_put ops (clk 5) h s3 = (r4, s4)" by fastforce
  then have r4: "r4 = Inr ()" and s4: "valid s4" "same_from (clk 5) (content s4) (view_upd StateActive i (Some h) (content s3))"
    using put_law [OF s3(1) put] ids by (auto simp: h_def)
  have res: "g = h \<and> s' = remove_replaced ops (\<lambda>n. clk (6 + n)) h held s4"
    using r get req d take req' r'(1) fs held(1) put r4 unfolding h_def by (auto simp: approve_def Let_def)
  show "\<exists>req ttl part. content s StatePending i = Some req \<and> clk 2 < g_expires_at req \<and> g_id req = i \<and>
       decide_approval env approver i a how req = Inr (ttl, part) \<and> g = active_grant req ttl part approver how (clk 3)"
    using r' ids d res unfolding h_def by blast
  note rem = remove_replaced_view [OF s4(1), of "\<lambda>n. clk (6 + n)" T h held] clk(2)
  show "valid s'" using rem res by blast
  have from_s: "same_from (clk 2) (content s2) (view_upd StatePending i None (content s))"
    using t2(2) same_from_mono [OF g1(2) le [of 1 2]] same_from_upd same_from_trans by (metis one_le_numeral)
  have act: "live_at t (content s2) StateActive = live_at t (content s) StateActive" if "clk 2 \<le> t" for t
    using same_from_mono [OF from_s that] by (auto simp: same_from_def live_at_upd view_upd_get fun_eq_iff)
  have pend: "live_at T (content s2) StatePending j = (if j = i then None else live_at T (content s) StatePending j)" for j
    using same_from_mono [OF from_s clk(2)] by (simp add: same_from_def live_at_upd view_upd_get)
  have l4: "live_at T (content s4) st j = (if st = StateActive \<and> j = i then (if T < g_expires_at h then Some h else None)
      else live_at T (content s2) st j)" for st j
    using same_from_mono [OF s4(2) clk(2)] same_from_mono [OF s3(2) clk(2)]
    by (auto simp: same_from_def fun_eq_iff live_at_def view_upd_get split: option.splits)
  have olds: "(\<exists>old \<in> set held. g_id old = j \<and> g_kit old = g_kit h \<and> j \<noteq> g_id h) \<longleftrightarrow>
      j \<noteq> i \<and> (\<exists>old. live_at (clk 4) (content s) StateActive j = Some old \<and> Subject old = Subject h \<and> g_kit old = g_kit h)" for j
    unfolding held(2) of_subject_def act [OF le [of 2 4, simplified]]
    using content_ids [OF v, of StateActive] ids by (auto simp: live_at_Some h_def)
  show "live_at T (content s') = approved_view T (clk 4) g (content s)"
  proof (intro ext)
    fix st j
    have "live_at T (content s') st j = (if st = StateActive \<and> j \<noteq> i \<and>
        (\<exists>old. live_at (clk 4) (content s) StateActive j = Some old \<and> Subject old = Subject h \<and> g_kit old = g_kit h) then None
       else live_at T (content s4) st j)"
      using rem olds res by simp
    then show "live_at T (content s') st j = approved_view T (clk 4) g (content s) st j"
      using l4 pend act [OF clk(2)] ids res by (cases st) (auto simp: approved_view_def h_def)
  qed
qed

text \<open>A request either changes nothing or adds its pending request, which the subject has none of the
  kit yet and room for.\<close>

lemma request_effect:
  assumes v: "valid s" and clk: "mono clk" "\<And>n. clk n \<le> T" and r: "request_grant fr ops env clk ri rn uco inp s = (r, s')"
  shows "valid s'"
    "(\<exists>res g. r = Inr res \<and> \<not> rr_existing res \<and> rr_grant res = Some g \<and> asked_for fr env uco inp (clk 2) g \<and> (\<exists>b. ri = Some b \<and> g_id g = newID b) \<and>
       admitted (live_at (clk 3) (content s)) g \<and> same_from T (content s') (view_upd StatePending (g_id g) (Some g) (content s))) \<or>
     (same_from T (content s') (content s) \<and> (\<forall>res. r = Inr res \<longrightarrow> rr_existing res))"
proof -
  have "valid s' \<and> ((\<exists>res g. r = Inr res \<and> \<not> rr_existing res \<and> rr_grant res = Some g \<and> asked_for fr env uco inp (clk 2) g \<and> (\<exists>b. ri = Some b \<and> g_id g = newID b) \<and>
       admitted (live_at (clk 3) (content s)) g \<and> same_from T (content s') (view_upd StatePending (g_id g) (Some g) (content s))) \<or>
     (same_from T (content s') (content s) \<and> (\<forall>res. r = Inr res \<longrightarrow> rr_existing res)))"
  proof (cases "check_request fr env uco inp")
    case (Inl e)
    with r v show ?thesis by (auto simp: request_grant_def)
  next
    case (Inr d)
    obtain uc k reason ttl capped where d: "d = (uc, k, reason, ttl, capped)" by (cases d) auto
    let ?sub = "\<lparr>sub_user_id = uc_user_id uc, sub_binding = GrantBinding uc\<rparr>"
    obtain r1 s1 where fs: "st_for_subject ops (clk 1) StateActive ?sub s = (r1, s1)" by fastforce
    obtain active where act: "r1 = Inr active" and s1: "valid s1" "same_from (clk 1) (content s1) (content s)"
      using for_subject_law [OF v fs] by blast
    have s1T: "same_from T (content s1) (content s)" using same_from_mono [OF s1(2) clk(2)] .
    show ?thesis
    proof (cases "ri = None \<or> rn = None")
      case True
      with r Inr d fs act have "r = Inl RandomFailed" "s' = s1" by (auto simp: request_grant_def split: option.splits)
      with s1(1) s1T show ?thesis by simp
    next
      case False
      then obtain ib nb where b: "ri = Some ib" "rn = Some nb" by auto
      let ?g = "new_pending uc k reason ttl (ri_coverage inp) (newID ib) (newNonce nb) (clk 2)"
      let ?held = "of_subject (live_at (clk 3) (content s)) StatePending (Subject ?g)"
      obtain r2 s2 where add: "st_add_pending ops (clk 3) ?g MaxPending s1 = (r2, s2)" by fastforce
      have le: "clk 1 \<le> clk 3" using clk(1) by (rule monoD) simp
      have same3: "live_at (clk 3) (content s1) = live_at (clk 3) (content s)"
        using same_from_mono [OF s1(2) le] by (simp add: same_from_def)
      note law = add_pending_law [OF s1(1) _ add, simplified, unfolded same3 Let_def]
      have out: "s' = s2 \<and> (r2 = Inr None \<longrightarrow> (\<exists>res. r = Inr res \<and> \<not> rr_existing res \<and> rr_grant res = Some ?g)) \<and>
          (\<forall>p. r2 = Inr (Some p) \<longrightarrow> (\<exists>res. r = Inr res \<and> rr_existing res)) \<and> (\<forall>e. r2 = Inl e \<longrightarrow> (\<exists>e'. r = Inl e'))"
      proof (cases r2)
        case (Inl e)
        with r Inr d fs act b add show ?thesis by (cases e) (auto simp add: request_grant_def Let_def)
      next
        case (Inr q)
        with r \<open>check_request fr env uco inp = Inr d\<close> d fs act b add show ?thesis
          by (cases q) (force simp add: request_grant_def Let_def)+
      qed
      show ?thesis
      proof (cases "r2 = Inr None")
        case True
        then have adm: "admitted (live_at (clk 3) (content s)) ?g"
          and up: "valid s2" "same_from (clk 3) (content s2) (view_upd StatePending (g_id ?g) (Some ?g) (content s1))"
          using law by (auto simp: admitted_def split: if_splits)
        have asked: "asked_for fr env uco inp (clk 2) ?g" using Inr d unfolding asked_for_def by blast
        have id: "\<exists>b. ri = Some b \<and> g_id ?g = newID b" using b(1) by simp
        have "same_from T (content s2) (view_upd StatePending (g_id ?g) (Some ?g) (content s))"
          using same_from_mono [OF up(2) clk(2)] same_from_upd [OF s1T] same_from_trans by blast
        with True out adm asked id up(1) show ?thesis by blast
      next
        case False
        then have "valid s2" "same_from (clk 3) (content s2) (content s1)" using law by (auto split: if_splits)
        then have "valid s2" "same_from T (content s2) (content s)"
          using same_from_mono [OF _ clk(2)] s1T same_from_trans by blast+
        moreover have "\<forall>res. r = Inr res \<longrightarrow> rr_existing res" using False out by (cases r2) auto
        ultimately show ?thesis using out by blast
      qed
    qed
  qed
  then show "valid s'" and "(\<exists>res g. r = Inr res \<and> \<not> rr_existing res \<and> rr_grant res = Some g \<and> asked_for fr env uco inp (clk 2) g \<and> (\<exists>b. ri = Some b \<and> g_id g = newID b) \<and>
       admitted (live_at (clk 3) (content s)) g \<and> same_from T (content s') (view_upd StatePending (g_id g) (Some g) (content s))) \<or>
     (same_from T (content s') (content s) \<and> (\<forall>res. r = Inr res \<longrightarrow> rr_existing res))" by blast+
qed

lemma HeldKits_result:
  assumes "valid s" "HeldKits ops env now user binding s = ((whole, parts), s')"
  shows "kit \<in> set whole \<longleftrightarrow> user \<noteq> [] \<and> service_kit env kit \<noteq> None \<and>
      (\<exists>g \<in> of_subject (live_at now (content s)) StateActive \<lparr>sub_user_id = user, sub_binding = binding\<rparr>. g_kit g = kit \<and> service_IsWhole env g)"
    "p \<in> set parts \<longleftrightarrow> user \<noteq> [] \<and> service_kit env (part_kit p) \<noteq> None \<and>
      (\<exists>g \<in> of_subject (live_at now (content s)) StateActive \<lparr>sub_user_id = user, sub_binding = binding\<rparr>.
         \<exists>q. g_part g = Some q \<and> p = kitPart q (g_kit g) \<and> \<not> service_IsWhole env g)"
proof -
  let ?of = "of_subject (live_at now (content s)) StateActive \<lparr>sub_user_id = user, sub_binding = binding\<rparr>"
  have "set whole = {g_kit g | g. user \<noteq> [] \<and> g \<in> ?of \<and> service_kit env (g_kit g) \<noteq> None \<and> service_IsWhole env g} \<and>
    set parts = {kitPart q (g_kit g) | g q. user \<noteq> [] \<and> g \<in> ?of \<and> service_kit env (g_kit g) \<noteq> None \<and> \<not> service_IsWhole env g \<and> g_part g = Some q}"
  proof (cases "user = []")
    case True
    then show ?thesis using assms(2) by (simp add: HeldKits_def)
  next
    case False
    obtain r1 s1 where fs: "st_for_subject ops now StateActive \<lparr>sub_user_id = user, sub_binding = binding\<rparr> s = (r1, s1)" by fastforce
    obtain active where act: "r1 = Inr active" "set active = ?of" using for_subject_law [OF assms(1) fs] by blast
    have "split_held env [] [] (filter (\<lambda>g. service_kit env (g_kit g) \<noteq> None) active) = (whole, parts)"
      using assms(2) False fs act(1) by (simp add: HeldKits_def activeFor_def)
    from split_held_sets [OF this] False act(2) show ?thesis by auto
  qed
  then have eq: "set whole = {g_kit g | g. user \<noteq> [] \<and> g \<in> ?of \<and> service_kit env (g_kit g) \<noteq> None \<and> service_IsWhole env g}"
    "set parts = {kitPart q (g_kit g) | g q. user \<noteq> [] \<and> g \<in> ?of \<and> service_kit env (g_kit g) \<noteq> None \<and> \<not> service_IsWhole env g \<and> g_part g = Some q}"
    by blast+
  show "kit \<in> set whole \<longleftrightarrow> user \<noteq> [] \<and> service_kit env kit \<noteq> None \<and> (\<exists>g \<in> ?of. g_kit g = kit \<and> service_IsWhole env g)"
    unfolding eq(1) by blast
  show "p \<in> set parts \<longleftrightarrow> user \<noteq> [] \<and> service_kit env (part_kit p) \<noteq> None \<and>
      (\<exists>g \<in> ?of. \<exists>q. g_part g = Some q \<and> p = kitPart q (g_kit g) \<and> \<not> service_IsWhole env g)"
    unfolding eq(2) using part_kit_kitPart by fastforce
qed

end

end
