(* ===== verification/GrantLifecycle.thy ===== *)
theory GrantLifecycle
  imports GrantFacts
begin

text \<open>
  The grant service as a state machine: the calls of callers and approvers in any order, approvals
  interleaved at every store operation, each call with its own configuration (a reload may come in
  between) and clock readings that do not go back. The history records what was requested, by whom,
  and approved; invariants of the reachable states tie every grant to it.
\<close>

section \<open>Approvals one store operation at a time\<close>

text \<open>\<open>approve\<close> holds no lock, so other calls come in between its store operations. Where an approval
  has got to: before the request is read, before it is taken (with what was decided on it), before
  the caller's grants are read, before the grant is stored, in the loop that removes the grants it
  replaces, and at the end.\<close>

datatype approve_pc =
    ApGet
  | ApTake grant duration "grant_part option"
  | ApHeld grant
  | ApPut grant "grant list"
  | ApRemove grant "grant list"
  | ApDone "(service_error \<times> grant option) + grant"

record approval_task =
  at_env :: service_env
  at_start :: time
  at_trace :: string
  at_approver :: string
  at_id :: string
  at_approval :: approval
  at_how :: approved_with
  at_metadata :: "(string \<times> string) list"
  at_pc :: approve_pc

text \<open>The next store operation at \<open>t\<close>; \<open>t'\<close> is the service's reading after it.\<close>

definition approve_op :: "'s store_ops \<Rightarrow> time \<Rightarrow> time \<Rightarrow> approval_task \<Rightarrow> 's \<Rightarrow> approve_pc \<times> 's" where
  "approve_op ops t t' a s =
     (case at_pc a of
        ApGet \<Rightarrow>
          (case st_get ops t StatePending (at_id a) s of
             (Inl e, s1) \<Rightarrow> (ApDone (Inl (notPending (at_id a) e, None)), s1)
           | (Inr req, s1) \<Rightarrow>
               (case decide_approval (at_env a) (at_approver a) (at_id a) (at_approval a) (at_how a) req of
                  Inl e \<Rightarrow> (ApDone (Inl (e, Some req)), s1)
                | Inr (ttl, part) \<Rightarrow> (ApTake req ttl part, s1)))
      | ApTake _ ttl part \<Rightarrow>
          (case st_take ops t StatePending (at_id a) s of
             (Inl e, s1) \<Rightarrow> (ApDone (Inl (notPending (at_id a) e, None)), s1)
           | (Inr req, s1) \<Rightarrow> (ApHeld (active_grant req ttl part (at_approver a) (at_how a) t'), s1))
      | ApHeld g \<Rightarrow>
          (case st_for_subject ops t StateActive (Subject g) s of
             (Inl e, s1) \<Rightarrow> (ApDone (Inl (StoreErr e, Some g)), s1)
           | (Inr held, s1) \<Rightarrow> (ApPut g held, s1))
      | ApPut g held \<Rightarrow>
          (case st_put ops t g s of
             (Inl e, s1) \<Rightarrow> (ApDone (Inl (StoreErr e, Some g)), s1)
           | (Inr _, s1) \<Rightarrow> (ApRemove g held, s1))
      | ApRemove g [] \<Rightarrow> (ApDone (Inr g), s)
      | ApRemove g (old # held) \<Rightarrow>
          (ApRemove g held, if g_kit old = g_kit g \<and> g_id old \<noteq> g_id g then snd (st_take ops t StateActive (g_id old) s) else s)
      | ApDone r \<Rightarrow> (ApDone r, s))"

section \<open>Steps and history\<close>

text \<open>What callers and approvers did: the caller's context and arguments of a request beside what was
  recorded of it, and the approver's decision beside the grant that came into force.\<close>

datatype grant_event =
    Requested service_env user_context request_input grant
  | Approved service_env approval approved_with grant

definition request_event :: "service_env \<Rightarrow> user_context option \<Rightarrow> request_input \<Rightarrow> (service_error, request_result) result
    \<Rightarrow> grant_event list" where
  "request_event env uco inp r = (case r of
     Inr res \<Rightarrow> (if rr_existing res then [] else
       case (uco, rr_grant res) of (Some uc, Some g) \<Rightarrow> [Requested env uc inp g] | _ \<Rightarrow> [])
   | Inl _ \<Rightarrow> [])"

definition put_event :: "approval_task \<Rightarrow> approve_pc \<Rightarrow> grant_event list" where
  "put_event a pc = (case (at_pc a, pc) of
     (ApPut g _, ApRemove _ _) \<Rightarrow> [Approved (at_env a) (at_approval a) (at_how a) g]
   | _ \<Rightarrow> [])"

text \<open>The calls of the service, in any order and with approvals interleaved; \<open>ths\<close> are those in progress.
  Each call has its own configuration, as a reload may come in between, and clock readings do not go
  back. A request changes the store in one operation and so does a denial or revocation. A new
  request does not draw the random id of an approval in progress.\<close>

inductive service_run :: "'s store_ops \<Rightarrow> 's \<Rightarrow> time \<Rightarrow> 's service_state \<Rightarrow> approval_task list \<Rightarrow> grant_event list \<Rightarrow> bool"
  for ops s0 where
  start: "service_run ops s0 t \<lparr>ss_store = s0, ss_trail = []\<rparr> [] []"
| request: "service_run ops s0 t st ths h \<Longrightarrow> mono clk \<Longrightarrow> t \<le> clk 0 \<Longrightarrow> \<forall>n. clk n \<le> t' \<Longrightarrow>
    \<forall>b. ri = Some b \<longrightarrow> newID b \<notin> at_id ` set ths \<Longrightarrow>
    Request fr ops env clk trace ri rn uco inp st = (r, st') \<Longrightarrow> service_run ops s0 t' st' ths (h @ request_event env uco inp r)"
| begins: "service_run ops s0 t st ths h \<Longrightarrow> t \<le> at_start a \<Longrightarrow> at_pc a = ApGet \<Longrightarrow>
    service_run ops s0 (at_start a) st (a # ths) h"
| step: "service_run ops s0 t st (xs @ a # ys) h \<Longrightarrow> t \<le> now \<Longrightarrow> now \<le> t' \<Longrightarrow>
    approve_op ops now t' a (ss_store st) = (pc, s') \<Longrightarrow>
    service_run ops s0 t' (st\<lparr>ss_store := s'\<rparr>) (xs @ a\<lparr>at_pc := pc\<rparr> # ys) (h @ put_event a pc)"
| returns: "service_run ops s0 t st (xs @ a # ys) h \<Longrightarrow> at_pc a = ApDone r \<Longrightarrow> t \<le> t' \<Longrightarrow>
    service_run ops s0 t' (st\<lparr>ss_trail := service_record (at_env a) t'
      (approval_entry (at_trace a) (at_start a) (at_approver a) (at_id a) (at_how a) (at_metadata a) r)
      (error_of (approve_outcome r)) (ss_trail st)\<rparr>) (xs @ ys) h"
| ending: "service_run ops s0 t st ths h \<Longrightarrow> mono clk \<Longrightarrow> t \<le> clk 0 \<Longrightarrow> \<forall>n. clk n \<le> t' \<Longrightarrow>
    end_grant ops env clk trace action gs approver i st = (re, st') \<Longrightarrow> service_run ops s0 t' st' ths h"
| held: "service_run ops s0 t st ths h \<Longrightarrow> t \<le> now \<Longrightarrow> HeldKits ops env now user binding (ss_store st) = (rh, s') \<Longrightarrow>
    service_run ops s0 now (st\<lparr>ss_store := s'\<rparr>) ths h"
| lookup: "service_run ops s0 t st ths h \<Longrightarrow> mono clk \<Longrightarrow> t \<le> clk 0 \<Longrightarrow> \<forall>n. clk n \<le> t' \<Longrightarrow>
    Lookup ops clk i (ss_store st) = (rl, s') \<Longrightarrow> service_run ops s0 t' (st\<lparr>ss_store := s'\<rparr>) ths h"

text \<open>A state the service reaches, whatever approvals are in progress there.\<close>

definition lifecycle :: "'s store_ops \<Rightarrow> 's \<Rightarrow> time \<Rightarrow> 's service_state \<Rightarrow> grant_event list \<Rightarrow> bool" where
  "lifecycle ops s0 t st h \<longleftrightarrow> (\<exists>ths. service_run ops s0 t st ths h)"

section \<open>Invariants\<close>

text \<open>At most \<open>MaxPending\<close> requests of a subject, and one per kit.\<close>

definition pending_ok :: "grants_view \<Rightarrow> bool" where
  "pending_ok v \<longleftrightarrow> (\<forall>sub. card (of_subject v StatePending sub) \<le> MaxPending \<and>
     (\<forall>p \<in> of_subject v StatePending sub. \<forall>q \<in> of_subject v StatePending sub. g_kit p = g_kit q \<longrightarrow> p = q))"

text \<open>A recorded request is what its caller asked for: user, connection, kit and reason are the caller's.\<close>

definition made_by :: "service_env \<Rightarrow> user_context \<Rightarrow> request_input \<Rightarrow> grant \<Rightarrow> bool" where
  "made_by env uc inp p \<longleftrightarrow> uc_authenticated uc \<and> uc_user_id uc \<noteq> [] \<and>
     Subject p = \<lparr>sub_user_id = uc_user_id uc, sub_binding = GrantBinding uc\<rparr> \<and>
     g_kit p = trim_space (ri_kit inp) \<and> service_kit env (g_kit p) \<noteq> None \<and> HasApprovers env \<and>
     cleanReason (ri_reason inp) = Inr (g_reason p)"

text \<open>A grant on a recorded request of a caller: it is the caller's, of the kit and for the reason the
  caller gave, and the decision was within the kit at that time, under a name that no approver with
  another scope is registered by.\<close>

definition granted_on :: "grant_event list \<Rightarrow> service_env \<Rightarrow> approval \<Rightarrow> approved_with \<Rightarrow> grant \<Rightarrow> bool" where
  "granted_on h env a how g \<longleftrightarrow>
     (\<exists>env' uc inp p k. Requested env' uc inp p \<in> set h \<and> made_by env' uc inp p \<and>
        g_id p = g_id g \<and> Subject p = Subject g \<and> g_kit p = g_kit g \<and> g_nonce p = g_nonce g \<and> g_reason p = g_reason g \<and>
        service_kit env (g_kit g) = Some k \<and>
        (\<forall>ap \<in> set (sv_approvers env). ap_name ap = g_approved_by g \<longrightarrow> MayApprove ap (g_kit g)) \<and>
        0 < g_ttl g \<and> g_ttl g \<le> kitMaxTTL k \<and> g_expires_at g = g_approved_at g + g_ttl g \<and> g_approved_with g = Some how \<and>
        (\<forall>q. g_part g = Some q \<longrightarrow> Part k (av_grants a) (av_tools a) = Inr (kitPart q (g_kit g))))"

definition history_ok :: "grant_event list \<Rightarrow> bool" where
  "history_ok h \<longleftrightarrow> (\<forall>env uc inp p. Requested env uc inp p \<in> set h \<longrightarrow> made_by env uc inp p) \<and>
     (\<forall>env a how g. Approved env a how g \<in> set h \<longrightarrow> granted_on h env a how g)"

definition recorded :: "grant_event list \<Rightarrow> grants_view \<Rightarrow> bool" where
  "recorded h v \<longleftrightarrow> (\<forall>i g. v StatePending i = Some g \<longrightarrow> (\<exists>env uc inp. Requested env uc inp g \<in> set h)) \<and>
     (\<forall>i g. v StateActive i = Some g \<longrightarrow> (\<exists>env a how. Approved env a how g \<in> set h))"

text \<open>What an approval in progress relies on: the request it decided on is the one it will take, and its
  grant is one on a recorded request.\<close>

definition task_ok :: "grant_event list \<Rightarrow> grants_view \<Rightarrow> approval_task \<Rightarrow> bool" where
  "task_ok h v a \<longleftrightarrow> (case at_pc a of
     ApTake req ttl part \<Rightarrow> g_id req = at_id a \<and> (\<exists>env uc inp. Requested env uc inp req \<in> set h) \<and>
       decide_approval (at_env a) (at_approver a) (at_id a) (at_approval a) (at_how a) req = Inr (ttl, part) \<and>
       (\<forall>x. v StatePending (at_id a) = Some x \<longrightarrow> x = req)
   | ApHeld g \<Rightarrow> g_state g = StateActive \<and> granted_on h (at_env a) (at_approval a) (at_how a) g
   | ApPut g _ \<Rightarrow> g_state g = StateActive \<and> granted_on h (at_env a) (at_approval a) (at_how a) g
   | _ \<Rightarrow> True)"

definition lifecycle_ok :: "grant_event list \<Rightarrow> grants_view \<Rightarrow> approval_task list \<Rightarrow> bool" where
  "lifecycle_ok h v ths \<longleftrightarrow> pending_ok v \<and> history_ok h \<and> recorded h v \<and> (\<forall>a \<in> set ths. task_ok h v a)"

lemma granted_on_append: "granted_on h env a how g \<Longrightarrow> granted_on (h @ h') env a how g"
  unfolding granted_on_def by fastforce

lemma history_ok_append:
  "history_ok h \<Longrightarrow> (\<And>env uc inp p. Requested env uc inp p \<in> set h' \<Longrightarrow> made_by env uc inp p) \<Longrightarrow>
   (\<And>env a how g. Approved env a how g \<in> set h' \<Longrightarrow> granted_on (h @ h') env a how g) \<Longrightarrow> history_ok (h @ h')"
  unfolding history_ok_def using granted_on_append by fastforce

lemma recorded_append: "recorded h v \<Longrightarrow> recorded (h @ h') v"
  unfolding recorded_def by fastforce

lemma task_ok_append:
  "task_ok h v a \<Longrightarrow> (\<And>x. w StatePending (at_id a) = Some x \<Longrightarrow> v StatePending (at_id a) = Some x) \<Longrightarrow> task_ok (h @ h') w a"
  unfolding task_ok_def using granted_on_append by (fastforce split: approve_pc.splits)

lemma finite_of_subject: "finite {i. v st i \<noteq> None} \<Longrightarrow> finite (of_subject v st sub)"
proof -
  assume "finite {i. v st i \<noteq> None}"
  then have "finite ((\<lambda>i. the (v st i)) ` {i. v st i \<noteq> None})" by simp
  moreover have "of_subject v st sub \<subseteq> (\<lambda>i. the (v st i)) ` {i. v st i \<noteq> None}" by (force simp: of_subject_def)
  ultimately show ?thesis by (rule rev_finite_subset)
qed

text \<open>Invariants that only look at fewer grants.\<close>

definition sub_view :: "grants_view \<Rightarrow> grants_view \<Rightarrow> bool" where
  "sub_view w v \<longleftrightarrow> (\<forall>st i g. w st i = Some g \<longrightarrow> v st i = Some g)"

lemma sub_view_of_subject: "sub_view w v \<Longrightarrow> of_subject w st sub \<subseteq> of_subject v st sub"
  by (auto simp: sub_view_def of_subject_def)

lemma sub_view_live: "t \<le> t' \<Longrightarrow> sub_view (live_at t' v) (live_at t v)"
  by (auto simp: sub_view_def live_at_Some)

lemma recorded_sub_view: "recorded h v \<Longrightarrow> sub_view w v \<Longrightarrow> recorded h w"
  unfolding recorded_def sub_view_def by blast

lemma pending_ok_sub_view:
  assumes "pending_ok v" "sub_view w v" "\<And>st. finite {i. v st i \<noteq> None}"
  shows "pending_ok w"
proof -
  have "card (of_subject w StatePending sub) \<le> card (of_subject v StatePending sub)" for sub
    using sub_view_of_subject [OF assms(2)] finite_of_subject [OF assms(3)] by (rule card_mono [rotated])
  with assms(1) sub_view_of_subject [OF assms(2)] show ?thesis
    unfolding pending_ok_def by (meson order_trans subsetD)
qed

lemma lifecycle_ok_sub_view:
  assumes "lifecycle_ok h v ths" "sub_view w v" "\<And>st. finite {i. v st i \<noteq> None}"
  shows "lifecycle_ok h w ths"
proof -
  have "task_ok h w a" if "a \<in> set ths" for a
    using task_ok_append [of h v a w "[]"] that assms(1,2) by (auto simp: lifecycle_ok_def sub_view_def)
  then show ?thesis using assms recorded_sub_view pending_ok_sub_view unfolding lifecycle_ok_def by blast
qed

section \<open>Each step keeps the invariants\<close>

lemma finite_live: "finite {i. v st i \<noteq> None} \<Longrightarrow> finite {i. live_at t v st i \<noteq> None}"
  by (rule rev_finite_subset) (auto simp: live_at_def split: option.splits)

text \<open>Adding an admitted request.\<close>

lemma lifecycle_ok_add:
  assumes ok: "lifecycle_ok h v ths" and made: "made_by env uc inp g" and fresh: "g_id g \<notin> at_id ` set ths" and g: "g_state g = StatePending" "admitted v g"
    and fin: "\<And>st. finite {i. v st i \<noteq> None}" and w: "sub_view w (view_upd StatePending (g_id g) (Some g) v)"
  shows "lifecycle_ok (h @ [Requested env uc inp g]) w ths"
proof -
  let ?v = "view_upd StatePending (g_id g) (Some g) v"
  have P: "of_subject ?v StatePending sub \<subseteq> (if sub = Subject g then insert g (of_subject v StatePending sub) else of_subject v StatePending sub)" for sub
    by (auto simp: of_subject_def view_upd_get split: if_splits)
  have fs: "finite (of_subject v StatePending sub)" for sub using finite_of_subject [OF fin] .
  have "pending_ok ?v" unfolding pending_ok_def
  proof (intro allI conjI)
    fix sub
    show "card (of_subject ?v StatePending sub) \<le> MaxPending"
    proof (cases "sub = Subject g")
      case True
      then have "card (of_subject ?v StatePending sub) \<le> card (insert g (of_subject v StatePending sub))"
        using P [of sub] fs by (intro card_mono) auto
      also have "\<dots> \<le> Suc (card (of_subject v StatePending sub))" by (rule card_insert_le_m1) auto
      finally show ?thesis using g(2) True by (simp add: admitted_def)
    next
      case False
      then have "card (of_subject ?v StatePending sub) \<le> card (of_subject v StatePending sub)"
        using P [of sub] fs by (intro card_mono) auto
      then show ?thesis using ok by (auto simp: lifecycle_ok_def pending_ok_def intro: order_trans)
    qed
    show "\<forall>p \<in> of_subject ?v StatePending sub. \<forall>q \<in> of_subject ?v StatePending sub. g_kit p = g_kit q \<longrightarrow> p = q"
    proof (intro ballI impI)
      fix p q assume pq: "p \<in> of_subject ?v StatePending sub" "q \<in> of_subject ?v StatePending sub" "g_kit p = g_kit q"
      have old: "p \<in> of_subject v StatePending sub \<Longrightarrow> q \<in> of_subject v StatePending sub \<Longrightarrow> p = q"
        using ok pq(3) by (auto simp: lifecycle_ok_def pending_ok_def)
      have new: "x \<in> of_subject v StatePending (Subject g) \<Longrightarrow> g_kit x \<noteq> g_kit g" for x
        using g(2) by (simp add: admitted_def)
      show "p = q"
      proof (cases "sub = Subject g")
        case True
        then have "p = g \<or> p \<in> of_subject v StatePending sub" "q = g \<or> q \<in> of_subject v StatePending sub"
          using P [of sub] pq(1,2) by auto
        then show ?thesis using old new True pq(3) by metis
      next
        case False
        then show ?thesis using P [of sub] pq(1,2) old by auto
      qed
    qed
  qed
  moreover have "history_ok (h @ [Requested env uc inp g])" by (rule history_ok_append) (use ok made in \<open>auto simp: lifecycle_ok_def\<close>)
  moreover have "recorded (h @ [Requested env uc inp g]) ?v"
    unfolding recorded_def view_upd_get using ok unfolding lifecycle_ok_def recorded_def
    by (simp split: if_splits) blast
  moreover have "task_ok (h @ [Requested env uc inp g]) ?v a" if "a \<in> set ths" for a
  proof (rule task_ok_append)
    show "task_ok h v a" using ok that by (simp add: lifecycle_ok_def)
    show "?v StatePending (at_id a) = Some x \<Longrightarrow> v StatePending (at_id a) = Some x" for x
      using fresh that by (cases "at_id a = g_id g") (auto simp: view_upd_get image_iff split: if_splits)
  qed
  moreover have "finite {i. ?v st i \<noteq> None}" for st
    by (rule finite_subset [of _ "insert (g_id g) {i. v st i \<noteq> None}"]) (use fin in \<open>auto simp: view_upd_get\<close>)
  ultimately show ?thesis using w lifecycle_ok_sub_view [of "h @ [Requested env uc inp g]" ?v ths w] by (simp add: lifecycle_ok_def)
qed

text \<open>A step of an approval: the view it leaves, the events it adds, and its own new place.\<close>

lemma lifecycle_ok_step:
  assumes ok: "lifecycle_ok h v (xs @ a # ys)" and fin: "\<And>st. finite {i. v st i \<noteq> None}"
    and pend: "\<And>i x. w StatePending i = Some x \<Longrightarrow> v StatePending i = Some x"
    and act: "\<And>i x. w StateActive i = Some x \<Longrightarrow> v StateActive i = Some x \<or> (\<exists>env b how. Approved env b how x \<in> set h')"
    and events: "\<forall>e \<in> set h'. \<exists>env b how g. e = Approved env b how g \<and> granted_on h env b how g"
    and own: "task_ok (h @ h') w a'"
  shows "lifecycle_ok (h @ h') w (xs @ a' # ys)"
proof -
  have "sub_view (w(StateActive := Map.empty)) v" unfolding sub_view_def
  proof (intro allI impI)
    fix st i x assume "(w(StateActive := Map.empty)) st i = Some x"
    then show "v st i = Some x" using pend by (cases st) auto
  qed
  then have "pending_ok (w(StateActive := Map.empty))" using pending_ok_sub_view ok fin by (metis lifecycle_ok_def)
  then have "pending_ok w" by (simp add: pending_ok_def of_subject_def)
  moreover have "history_ok (h @ h')"
    by (rule history_ok_append) (use ok events granted_on_append in \<open>auto simp: lifecycle_ok_def\<close>)
  moreover have "recorded (h @ h') w"
    using ok pend act unfolding lifecycle_ok_def recorded_def by (metis Un_iff set_append)
  moreover have "task_ok (h @ h') w b" if "b \<in> set xs \<union> set ys" for b
    using that ok pend by (intro task_ok_append [of h v]) (auto simp: lifecycle_ok_def)
  ultimately show ?thesis using own by (auto simp: lifecycle_ok_def)
qed

text \<open>An approval that the service decides to give is one on its request.\<close>

lemma granted_onI:
  assumes "Requested env' uc inp req \<in> set h" "made_by env' uc inp req" "decide_approval env approver i a how req = Inr (ttl, part)"
    "g = active_grant req ttl part approver how now"
  shows "granted_on h env a how g"
proof -
  obtain k part' where k: "service_kit env (g_kit req) = Some k" "checkScope env approver (g_kit req) = None"
    "resolveApproval k req a = Inr (ttl, part')"
    "part = (case part' of None \<Rightarrow> None | Some p \<Rightarrow> if how = ApprovedWithKey \<and> IsWhole k (kitPart p (kit_name k)) then None else Some p)"
    using decide_approval_Inr [OF assms(3)] by blast
  have name: "kit_name k = g_kit req" using service_kit_Some [OF k(1)] by simp
  note ra = resolveApproval_Inr [OF k(3)]
  have "0 < ttl \<and> ttl \<le> kitMaxTTL k" using ra kitTTL_range by blast
  moreover have "part = Some q \<Longrightarrow> Part k (av_grants a) (av_tools a) = Inr (kitPart q (g_kit req))" for q
    using ra k(4) name by (auto split: option.splits if_splits)
  ultimately show ?thesis
    using assms(1,2,4) k(1) k(2) [unfolded checkScope_None] unfolding granted_on_def
    by (intro exI [of _ env'] exI [of _ uc] exI [of _ inp] exI [of _ req] exI [of _ k]) (auto simp: active_grant_def Subject_def)
qed

context grant_store
begin

lemma end_grant_effect:
  assumes "valid (ss_store st)" "end_grant ops env clk trace action gs approver i st = (r, st')" "\<And>n. clk n \<le> T"
  shows "valid (ss_store st')" "live_at T (content (ss_store st')) = view_upd gs i None (live_at T (content (ss_store st)))"
    "r = Inr g \<longleftrightarrow> live_at (clk 1) (content (ss_store st)) gs i = Some g"
proof -
  obtain r1 s1 where take: "st_take ops (clk 1) gs i (ss_store st) = (r1, s1)" by fastforce
  note t = take_cases [OF assms(1) take]
  have st': "ss_store st' = s1" "r = Inr g \<longleftrightarrow> r1 = Inr g"
    using assms(2) take by (auto simp: end_grant_def Let_def split: sum.splits)
  show "valid (ss_store st')" using t(1) st' by simp
  show "live_at T (content (ss_store st')) = view_upd gs i None (live_at T (content (ss_store st)))"
    using same_from_mono [OF t(2) assms(3)] st' by (simp add: same_from_def live_at_upd)
  show "r = Inr g \<longleftrightarrow> live_at (clk 1) (content (ss_store st)) gs i = Some g" using t(3) st' by simp
qed

lemma HeldKits_effect:
  assumes "valid s" "HeldKits ops env now user binding s = (r, s')"
  shows "valid s'" "same_from now (content s') (content s)"
proof -
  obtain r1 s1 where fs: "st_for_subject ops now StateActive \<lparr>sub_user_id = user, sub_binding = binding\<rparr> s = (r1, s1)" by fastforce
  have "s' = s \<or> s' = s1" using assms(2) fs by (auto simp: HeldKits_def activeFor_def split: sum.splits if_splits)
  with for_subject_law [OF assms(1) fs] assms(1) show "valid s'" "same_from now (content s') (content s)" by auto
qed

lemma Lookup_effect:
  assumes "valid s" "mono clk" "\<And>n. clk n \<le> T" "Lookup ops clk i s = (r, s')"
  shows "valid s'" "same_from T (content s') (content s)"
proof -
  obtain r1 s1 where g1: "st_get ops (clk 0) StatePending i s = (r1, s1)" by fastforce
  obtain r2 s2 where g2: "st_get ops (clk 1) StateActive i s1 = (r2, s2)" by fastforce
  note a = get_cases(1,2) [OF assms(1) g1] and b = get_cases(1,2) [OF get_cases(1) [OF assms(1) g1] g2]
  have "s' = s1 \<or> s' = s2" using assms(4) g1 g2 by (auto simp: Lookup_def split: sum.splits if_splits)
  moreover have "same_from T (content s1) (content s)" "same_from T (content s2) (content s1)"
    using same_from_mono a(2) b(2) assms(3) by blast+
  ultimately show "valid s'" "same_from T (content s') (content s)" using a(1) b(1) same_from_trans by blast+
qed

lemma live_finite: "valid s \<Longrightarrow> finite {i. live_at t (content s) st i \<noteq> None}"
  using finite_content finite_live by blast

lemma keep:
  assumes "valid s" "lifecycle_ok h (live_at t (content s)) ths" "t \<le> T" "same_from T (content s') (content s)"
  shows "lifecycle_ok h (live_at T (content s')) ths"
  using assms lifecycle_ok_sub_view [OF assms(2) sub_view_live live_finite] by (simp add: same_from_def)

lemma request_step:
  assumes v: "valid (ss_store st)" and ok: "lifecycle_ok h (live_at t (content (ss_store st))) ths"
    and clk: "mono clk" "t \<le> clk 0" "\<And>n. clk n \<le> T" and fresh: "\<forall>b. ri = Some b \<longrightarrow> newID b \<notin> at_id ` set ths"
    and r: "Request fr ops env clk trace ri rn uco inp st = (r, st')"
  shows "valid (ss_store st') \<and> lifecycle_ok (h @ request_event env uco inp r) (live_at T (content (ss_store st'))) ths"
proof -
  obtain r1 s1 where q: "request_grant fr ops env clk ri rn uco inp (ss_store st) = (r1, s1)" by fastforce
  then have st': "r1 = r" "ss_store st' = s1" using r by (auto simp: Request_def Let_def)
  note eff = request_effect [OF v clk(1,3) q]
  have t3: "t \<le> clk 3" using clk(2) monoD [OF clk(1), of 0 3] by simp
  from eff(2) show ?thesis
  proof (elim disjE exE conjE)
    fix res g b
    assume g: "r1 = Inr res" "\<not> rr_existing res" "rr_grant res = Some g" "asked_for fr env uco inp (clk 2) g"
      "admitted (live_at (clk 3) (content (ss_store st))) g"
      "same_from T (content s1) (view_upd StatePending (g_id g) (Some g) (content (ss_store st)))"
      and b: "ri = Some b" "g_id g = newID b"
    obtain uc where uc: "uco = Some uc" "made_by env uc inp g" "g_state g = StatePending"
    proof -
      from g(4) obtain uc k reason ttl capped i nonce where
        c: "check_request fr env uco inp = Inr (uc, k, reason, ttl, capped)" "g = new_pending uc k reason ttl (ri_coverage inp) i nonce (clk 2)"
        unfolding asked_for_def by blast
      note ci = check_request_Inr [OF c(1)]
      then have "kit_name k = trim_space (ri_kit inp)" using service_kit_Some by blast
      with ci c(2) show thesis using that [of uc] by (auto simp: made_by_def Subject_new_pending)
    qed
    moreover have "sub_view (live_at T (content s1)) (view_upd StatePending (g_id g) (Some g) (live_at (clk 3) (content (ss_store st))))"
      using g(6) clk(3) [of 3] by (auto simp: same_from_def sub_view_def live_at_Some view_upd_get split: if_splits)
    moreover have "lifecycle_ok h (live_at (clk 3) (content (ss_store st))) ths" using keep [OF v ok t3] by simp
    moreover have "g_id g \<notin> at_id ` set ths" using fresh b by simp
    ultimately have "lifecycle_ok (h @ [Requested env uc inp g]) (live_at T (content s1)) ths"
      using lifecycle_ok_add [OF _ _ _ _ g(5) live_finite [OF v]] by blast
    moreover have "r = Inr res" using g(1) st'(1) by simp
    ultimately show ?thesis using eff(1) st'(2) g(2,3) uc(1) by (simp add: request_event_def)
  next
    assume "same_from T (content s1) (content (ss_store st))" "\<forall>res. r1 = Inr res \<longrightarrow> rr_existing res"
    moreover have "t \<le> T" using t3 clk(3) order_trans by blast
    ultimately show ?thesis using keep [OF v ok] eff(1) st' by (auto simp: request_event_def split: sum.splits)
  qed
qed

text \<open>One store operation of an approval: one that leaves the grants as they are, one that takes a
  grant, and the one that stores the new grant.\<close>

lemma quiet_step:
  assumes v: "valid s" and ok: "lifecycle_ok h (live_at now (content s)) (xs @ a # ys)" and le: "now \<le> T"
    and s': "valid s'" "same_from now (content s') (content s)"
    and own: "\<And>w. (\<And>st i x. w st i = Some x \<Longrightarrow> live_at now (content s) st i = Some x) \<Longrightarrow> task_ok h w a'"
  shows "valid s' \<and> lifecycle_ok h (live_at T (content s')) (xs @ a' # ys)"
proof -
  have "live_at T (content s') = live_at T (content s)" using same_from_mono [OF s'(2) le] by (simp add: same_from_def)
  then have sub: "live_at T (content s') st i = Some x \<Longrightarrow> live_at now (content s) st i = Some x" for st i x
    using le by (simp add: live_at_Some)
  have "lifecycle_ok (h @ []) (live_at T (content s')) (xs @ a' # ys)"
    by (rule lifecycle_ok_step [OF ok live_finite [OF v]]) (use sub own [OF sub] in auto)
  then show ?thesis using s'(1) by simp
qed

lemma taking_step:
  assumes v: "valid s" and ok: "lifecycle_ok h (live_at now (content s)) (xs @ a # ys)" and le: "now \<le> T"
    and s': "valid s'" "same_from now (content s') (view_upd st i None (content s))" and own: "\<And>w. task_ok h w a'"
  shows "valid s' \<and> lifecycle_ok h (live_at T (content s')) (xs @ a' # ys)"
proof -
  have "live_at T (content s') = view_upd st i None (live_at T (content s))"
    using same_from_mono [OF s'(2) le] by (simp add: same_from_def live_at_upd)
  then have sub: "live_at T (content s') st' j = Some x \<Longrightarrow> live_at now (content s) st' j = Some x" for st' j x
    using le by (simp add: live_at_Some view_upd_get split: if_splits)
  have "lifecycle_ok (h @ []) (live_at T (content s')) (xs @ a' # ys)"
    by (rule lifecycle_ok_step [OF ok live_finite [OF v]]) (use sub own in auto)
  then show ?thesis using s'(1) by simp
qed

lemma get_op:
  assumes v: "valid s" and ok: "lifecycle_ok h (live_at now (content s)) (xs @ a # ys)" and le: "now \<le> T"
    and op: "approve_op ops now T a s = (pc, s')" and a: "at_pc a = ApGet"
  shows "valid s' \<and> lifecycle_ok h (live_at T (content s')) (xs @ a\<lparr>at_pc := pc\<rparr> # ys)"
proof -
  obtain r s1 where g: "st_get ops now StatePending (at_id a) s = (r, s1)" by fastforce
  note gc = get_cases [OF v g]
  have s': "s' = s1" using op g a by (auto simp: approve_op_def split: sum.splits prod.splits)
  show ?thesis
  proof (rule quiet_step [OF v ok le])
    fix w assume w: "\<And>st i x. w st i = Some x \<Longrightarrow> live_at now (content s) st i = Some x"
    show "task_ok h w (a\<lparr>at_pc := pc\<rparr>)"
    proof (cases "\<exists>req ttl part. pc = ApTake req ttl part")
      case True
      then obtain req ttl part where pc: "pc = ApTake req ttl part" by blast
      with op g a have req: "r = Inr req"
        and d: "decide_approval (at_env a) (at_approver a) (at_id a) (at_approval a) (at_how a) req = Inr (ttl, part)"
        by (auto simp: approve_op_def split: sum.splits prod.splits)
      then have live: "live_at now (content s) StatePending (at_id a) = Some req" using gc(3) by blast
      then have "g_id req = at_id a" using content_ids [OF v] by (auto simp: live_at_Some)
      moreover have "\<exists>env uc inp. Requested env uc inp req \<in> set h"
        using ok live unfolding lifecycle_ok_def recorded_def by blast
      moreover have "w StatePending (at_id a) = Some x \<Longrightarrow> x = req" for x using w live by fastforce
      ultimately show ?thesis using pc d by (simp add: task_ok_def)
    next
      case False
      with op g a have "\<exists>r. pc = ApDone r" by (auto simp: approve_op_def split: sum.splits prod.splits)
      then show ?thesis by (auto simp: task_ok_def)
    qed
  qed (use gc(1,2) s' in auto)
qed

lemma take_op:
  assumes v: "valid s" and ok: "lifecycle_ok h (live_at now (content s)) (xs @ a # ys)" and le: "now \<le> T"
    and op: "approve_op ops now T a s = (pc, s')" and a: "at_pc a = ApTake req ttl part"
  shows "valid s' \<and> lifecycle_ok h (live_at T (content s')) (xs @ a\<lparr>at_pc := pc\<rparr> # ys)"
proof -
  have task: "task_ok h (live_at now (content s)) a" using ok by (simp add: lifecycle_ok_def)
  obtain r s1 where g: "st_take ops now StatePending (at_id a) s = (r, s1)" by fastforce
  note gc = take_cases [OF v g]
  have s': "s' = s1" using op g a by (auto simp: approve_op_def split: sum.splits prod.splits)
  have "task_ok h w (a\<lparr>at_pc := pc\<rparr>)" for w
  proof (cases r)
    case (Inl e)
    then show ?thesis using op g a by (auto simp: approve_op_def task_ok_def)
  next
    case (Inr req')
    then have "live_at now (content s) StatePending (at_id a) = Some req'" using gc(3) by blast
    then have "req' = req" using task a by (simp add: task_ok_def)
    then have pc: "pc = ApHeld (active_grant req ttl part (at_approver a) (at_how a) T)"
      using op g a Inr by (simp add: approve_op_def)
    obtain env uc inp where e: "Requested env uc inp req \<in> set h" using task a by (auto simp: task_ok_def)
    then have "made_by env uc inp req" using ok by (auto simp: lifecycle_ok_def history_ok_def)
    from granted_onI [OF e this] task a pc show ?thesis by (auto simp: task_ok_def)
  qed
  then show ?thesis using gc(1,2) s' by (intro taking_step [OF v ok le]) auto
qed

lemma put_op:
  assumes v: "valid s" and ok: "lifecycle_ok h (live_at now (content s)) (xs @ a # ys)" and le: "now \<le> T"
    and op: "approve_op ops now T a s = (pc, s')" and a: "at_pc a = ApPut g held"
  shows "valid s' \<and> lifecycle_ok (h @ put_event a pc) (live_at T (content s')) (xs @ a\<lparr>at_pc := pc\<rparr> # ys)"
proof -
  have task: "task_ok h (live_at now (content s)) a" using ok by (simp add: lifecycle_ok_def)
  obtain r s1 where p: "st_put ops now g s = (r, s1)" by fastforce
  have g: "g_state g = StateActive" "granted_on h (at_env a) (at_approval a) (at_how a) g"
    using task a by (simp_all add: task_ok_def)
  note pl = put_law [OF v p]
  have pc: "pc = ApRemove g held" "s' = s1" using op p a pl by (auto simp: approve_op_def)
  then have e: "put_event a pc = [Approved (at_env a) (at_approval a) (at_how a) g]" by (simp add: put_event_def a)
  have same: "same_from T (content s') (view_upd StateActive (g_id g) (Some g) (content s))"
    using pl pc(2) g(1) same_from_mono le by metis
  have "lifecycle_ok (h @ put_event a pc) (live_at T (content s')) (xs @ a\<lparr>at_pc := pc\<rparr> # ys)"
  proof (rule lifecycle_ok_step [OF ok live_finite [OF v]])
    show "live_at T (content s') StatePending i = Some x \<Longrightarrow> live_at now (content s) StatePending i = Some x" for i x
      using same le unfolding same_from_def by (simp only: live_at_Some view_upd_get) auto
    show "live_at T (content s') StateActive i = Some x \<Longrightarrow> live_at now (content s) StateActive i = Some x \<or>
        (\<exists>env b how. Approved env b how x \<in> set (put_event a pc))" for i x
      using same le e unfolding same_from_def by (simp only: live_at_Some view_upd_get) (auto split: if_splits)
  qed (use e g(2) pc in \<open>auto simp: task_ok_def\<close>)
  then show ?thesis using pl pc(2) by simp
qed

lemma remove_op:
  assumes v: "valid s" and ok: "lifecycle_ok h (live_at now (content s)) (xs @ a # ys)" and le: "now \<le> T"
    and op: "approve_op ops now T a s = (pc, s')" and a: "at_pc a = ApRemove g held"
  shows "valid s' \<and> lifecycle_ok h (live_at T (content s')) (xs @ a\<lparr>at_pc := pc\<rparr> # ys)"
proof -
  have own: "task_ok h w (a\<lparr>at_pc := pc\<rparr>)" for w
    using op a by (cases held) (auto simp: approve_op_def task_ok_def)
  show ?thesis
  proof (cases "\<exists>old rest. held = old # rest \<and> g_kit old = g_kit g \<and> g_id old \<noteq> g_id g")
    case True
    then obtain old rest where o: "held = old # rest" "g_kit old = g_kit g \<and> g_id old \<noteq> g_id g" by blast
    obtain r s1 where t: "st_take ops now StateActive (g_id old) s = (r, s1)" by fastforce
    have "s' = s1" using op a o t by (simp add: approve_op_def)
    then show ?thesis using take_cases(1,2) [OF v t] by (intro taking_step [OF v ok le _ _ own]) auto
  next
    case False
    then have "s' = s" using op a by (cases held) (auto simp: approve_op_def)
    then show ?thesis using v by (intro quiet_step [OF v ok le _ _ own]) auto
  qed
qed

lemma approve_op_step:
  assumes v: "valid s" and ok: "lifecycle_ok h (live_at t (content s)) (xs @ a # ys)" and le: "t \<le> now" "now \<le> T"
    and op: "approve_op ops now T a s = (pc, s')"
  shows "valid s' \<and> lifecycle_ok (h @ put_event a pc) (live_at T (content s')) (xs @ a\<lparr>at_pc := pc\<rparr> # ys)"
proof -
  have ok': "lifecycle_ok h (live_at now (content s)) (xs @ a # ys)" using keep [OF v ok le(1)] by simp
  note facts = v ok' le(2) op
  show ?thesis
  proof (cases "at_pc a")
    case ApGet
    with get_op [OF facts] show ?thesis by (simp add: put_event_def)
  next
    case (ApTake req ttl part)
    with take_op [OF facts] show ?thesis by (simp add: put_event_def)
  next
    case (ApHeld g)
    obtain r s1 where f: "st_for_subject ops now StateActive (Subject g) s = (r, s1)" by fastforce
    note fl = for_subject_law [OF v f]
    then obtain held where r: "r = Inr held" by blast
    have pc: "pc = ApPut g held" "s' = s1" using op f ApHeld r by (simp_all add: approve_op_def)
    moreover have "task_ok h (live_at now (content s)) a" using ok' by (simp add: lifecycle_ok_def)
    then have "task_ok h w (a\<lparr>at_pc := pc\<rparr>)" for w using ApHeld pc by (simp add: task_ok_def)
    ultimately show ?thesis using quiet_step [OF v ok' le(2)] fl ApHeld by (simp add: put_event_def)
  next
    case (ApPut g held)
    with put_op [OF facts] show ?thesis by simp
  next
    case (ApRemove g held)
    with remove_op [OF facts] show ?thesis by (simp add: put_event_def)
  next
    case (ApDone r)
    then have "pc = ApDone r" "s' = s" using op by (simp_all add: approve_op_def)
    moreover from this have "task_ok h w (a\<lparr>at_pc := pc\<rparr>)" for w by (simp add: task_ok_def)
    ultimately show ?thesis using quiet_step [OF v ok' le(2)] v ApDone by (simp add: put_event_def)
  qed
qed

theorem run_invariant:
  assumes "service_run ops s0 t st ths h" "valid s0" "content s0 = (\<lambda>_. Map.empty)"
  shows "valid (ss_store st) \<and> lifecycle_ok h (live_at t (content (ss_store st))) ths"
  using assms
proof (induction rule: service_run.induct)
  case (start t)
  then show ?case
    by (simp add: lifecycle_ok_def pending_ok_def history_ok_def recorded_def of_subject_def live_at_def)
next
  case (request t st ths h clk t' ri fr env trace rn uco inp r st')
  then show ?case using request_step by blast
next
  case (begins t st ths h a)
  then have v: "valid (ss_store st)" and ok: "lifecycle_ok h (live_at t (content (ss_store st))) ths" by blast+
  have "task_ok h w a" for w using begins.hyps(3) by (simp add: task_ok_def)
  then show ?case using v keep [OF v ok begins.hyps(2), of "ss_store st"] by (simp add: lifecycle_ok_def)
next
  case (step t st xs a ys h now t' pc s')
  then have v: "valid (ss_store st)" and ok: "lifecycle_ok h (live_at t (content (ss_store st))) (xs @ a # ys)" by blast+
  show ?case using approve_op_step [OF v ok step.hyps(2,3,4)] by simp
next
  case (returns t st xs a ys h r t')
  then have v: "valid (ss_store st)" and ok: "lifecycle_ok h (live_at t (content (ss_store st))) (xs @ a # ys)" by blast+
  show ?case using v keep [OF v ok returns.hyps(3), of "ss_store st"] by (simp add: lifecycle_ok_def)
next
  case (ending t st ths h clk t' env trace action gs approver i re st')
  then have v: "valid (ss_store st)" and ok: "lifecycle_ok h (live_at t (content (ss_store st))) ths" by blast+
  have c: "clk n \<le> t'" for n using ending.hyps(4) by blast
  note eff = end_grant_effect [OF v ending.hyps(5) c]
  have "t \<le> t'" using ending.hyps(3) c order_trans by blast
  then have "lifecycle_ok h (live_at t' (content (ss_store st))) ths" using keep [OF v ok] by simp
  then have "lifecycle_ok h (view_upd gs i None (live_at t' (content (ss_store st)))) ths"
    by (rule lifecycle_ok_sub_view [OF _ _ live_finite [OF v]]) (auto simp: sub_view_def view_upd_get split: if_splits)
  then show ?case using eff(1,2) by simp
next
  case (held t st ths h now env user binding rh s')
  then have v: "valid (ss_store st)" and ok: "lifecycle_ok h (live_at t (content (ss_store st))) ths" by blast+
  note eff = HeldKits_effect [OF v held.hyps(3)]
  show ?case using eff(1) keep [OF v ok held.hyps(2) eff(2)] by simp
next
  case (lookup t st ths h clk t' i rl s')
  then have v: "valid (ss_store st)" and ok: "lifecycle_ok h (live_at t (content (ss_store st))) ths" by blast+
  have c: "clk n \<le> t'" for n using lookup.hyps(4) by blast
  have "t \<le> t'" using lookup.hyps(3) c order_trans by blast
  note eff = Lookup_effect [OF v lookup.hyps(2) c lookup.hyps(5)]
  show ?case using eff(1) keep [OF v ok \<open>t \<le> t'\<close> eff(2)] by simp
qed

lemma lifecycle_invariant:
  assumes "lifecycle ops s0 t st h" "valid s0" "content s0 = (\<lambda>_. Map.empty)"
  shows "valid (ss_store st) \<and> lifecycle_ok h (live_at t (content (ss_store st))) []"
  using assms run_invariant by (auto simp: lifecycle_def lifecycle_ok_def)

end

section \<open>An approval without interruption\<close>

text \<open>Taken one after the other, the steps are \<open>approve\<close>.\<close>

definition approve_event :: "service_env \<Rightarrow> approval \<Rightarrow> approved_with \<Rightarrow> (service_error, grant) result \<Rightarrow> grant_event list" where
  "approve_event env a how r = (case r of Inr g \<Rightarrow> [Approved env a how g] | Inl _ \<Rightarrow> [])"

definition runs_to :: "'s store_ops \<Rightarrow> 's \<Rightarrow> 's service_state \<Rightarrow> approval_task \<Rightarrow> approval_task list \<Rightarrow> grant_event list \<Rightarrow> time
    \<Rightarrow> ((service_error \<times> grant option) + grant) \<times> 's \<Rightarrow> bool" where
  "runs_to ops s0 st a ths h T rs \<longleftrightarrow> (\<exists>u \<le> T. service_run ops s0 u (st\<lparr>ss_store := snd rs\<rparr>) (a\<lparr>at_pc := ApDone (fst rs)\<rparr> # ths)
     (h @ approve_event (at_env a) (at_approval a) (at_how a) (approve_outcome (fst rs))))"

lemma first_step:
  assumes "service_run ops s0 t st (a # ths) h" "t \<le> now" "now \<le> t'" "approve_op ops now t' a (ss_store st) = (pc, s')"
    "put_event a pc = e"
  shows "service_run ops s0 t' (st\<lparr>ss_store := s'\<rparr>) (a\<lparr>at_pc := pc\<rparr> # ths) (h @ e)"
  using service_run.step [of ops s0 t st "[]" a ths h now t' pc s'] assms by simp

lemma run_removals:
  assumes "service_run ops s0 t st (a # ths) h" "at_pc a = ApRemove g held" "mono clk" "t \<le> clk 0" "\<And>n. clk n \<le> T"
  shows "\<exists>u \<le> T. service_run ops s0 u (st\<lparr>ss_store := remove_replaced ops clk g held (ss_store st)\<rparr>) (a\<lparr>at_pc := ApDone (Inr g)\<rparr> # ths) h"
  using assms
proof (induction held arbitrary: t st a clk)
  case Nil
  have "approve_op ops (clk 0) (clk 0) a (ss_store st) = (ApDone (Inr g), ss_store st)"
    using Nil.prems(2) by (simp add: approve_op_def)
  from first_step [OF Nil.prems(1,4) order_refl this] Nil.prems(2,5) show ?case
    by (intro exI [of _ "clk 0"]) (simp add: put_event_def)
next
  case (Cons old held)
  let ?s = "if g_kit old = g_kit g \<and> g_id old \<noteq> g_id g then snd (st_take ops (clk 0) StateActive (g_id old) (ss_store st)) else ss_store st"
  have "approve_op ops (clk 0) (clk 0) a (ss_store st) = (ApRemove g held, ?s)"
    using Cons.prems(2) by (simp add: approve_op_def)
  from first_step [OF Cons.prems(1,4) order_refl this] Cons.prems(2)
  have r: "service_run ops s0 (clk 0) (st\<lparr>ss_store := ?s\<rparr>) (a\<lparr>at_pc := ApRemove g held\<rparr> # ths) h" by (simp add: put_event_def)
  have "mono (\<lambda>n. clk (Suc n))" "clk 0 \<le> clk (Suc 0)" using Cons.prems(3) by (auto simp: mono_def)
  with Cons.IH [OF r, of "\<lambda>n. clk (Suc n)"] Cons.prems(5) show ?case by simp
qed

lemma runs_put:
  assumes "service_run ops s0 t st (a # ths) h" "at_pc a = ApPut g held" "mono clk" "t \<le> clk 0" "\<And>n. clk n \<le> T"
  shows "runs_to ops s0 st a ths h T
    (case st_put ops (clk 0) g (ss_store st) of
       (Inl e, s4) \<Rightarrow> (Inl (StoreErr e, Some g), s4)
     | (Inr _, s4) \<Rightarrow> (Inr g, remove_replaced ops (\<lambda>n. clk (Suc n)) g held s4))"
proof -
  obtain r s4 where p: "st_put ops (clk 0) g (ss_store st) = (r, s4)" by fastforce
  note step = first_step [OF assms(1,4) order_refl _ refl, of _ s4]
  show ?thesis
  proof (cases r)
    case (Inl e)
    with step [of "ApDone (Inl (StoreErr e, Some g))"] p assms(2,5) show ?thesis
      by (auto simp: runs_to_def approve_op_def put_event_def approve_event_def approve_outcome_def)
  next
    case (Inr x)
    with step [of "ApRemove g held"] p assms(2)
    have r: "service_run ops s0 (clk 0) (st\<lparr>ss_store := s4\<rparr>) (a\<lparr>at_pc := ApRemove g held\<rparr> # ths)
        (h @ [Approved (at_env a) (at_approval a) (at_how a) g])" by (simp add: approve_op_def put_event_def)
    have "mono (\<lambda>n. clk (Suc n))" "clk 0 \<le> clk (Suc 0)" using assms(3) by (auto simp: mono_def)
    with run_removals [OF r, of g held "\<lambda>n. clk (Suc n)" T] assms(5) p Inr show ?thesis
      by (simp add: runs_to_def approve_event_def approve_outcome_def)
  qed
qed

lemma runs_held:
  assumes "service_run ops s0 t st (a # ths) h" "at_pc a = ApHeld g" "mono clk" "t \<le> clk 0" "\<And>n. clk n \<le> T"
  shows "runs_to ops s0 st a ths h T
    (case st_for_subject ops (clk 0) StateActive (Subject g) (ss_store st) of
       (Inl e, s3) \<Rightarrow> (Inl (StoreErr e, Some g), s3)
     | (Inr held, s3) \<Rightarrow>
         (case st_put ops (clk (Suc 0)) g s3 of
            (Inl e, s4) \<Rightarrow> (Inl (StoreErr e, Some g), s4)
          | (Inr _, s4) \<Rightarrow> (Inr g, remove_replaced ops (\<lambda>n. clk (Suc (Suc n))) g held s4)))"
proof -
  obtain r s3 where p: "st_for_subject ops (clk 0) StateActive (Subject g) (ss_store st) = (r, s3)" by fastforce
  note step = first_step [OF assms(1,4) order_refl _ refl, of _ s3]
  show ?thesis
  proof (cases r)
    case (Inl e)
    with step [of "ApDone (Inl (StoreErr e, Some g))"] p assms(2,5) show ?thesis
      by (auto simp: runs_to_def approve_op_def put_event_def approve_event_def approve_outcome_def)
  next
    case (Inr held)
    with step [of "ApPut g held"] p assms(2)
    have r: "service_run ops s0 (clk 0) (st\<lparr>ss_store := s3\<rparr>) (a\<lparr>at_pc := ApPut g held\<rparr> # ths) h"
      by (simp add: approve_op_def put_event_def)
    have "mono (\<lambda>n. clk (Suc n))" "clk 0 \<le> clk (Suc 0)" using assms(3) by (auto simp: mono_def)
    with runs_put [OF r, of g held "\<lambda>n. clk (Suc n)" T] assms(5) p Inr show ?thesis
      by (simp add: runs_to_def)
  qed
qed

lemma runs_take:
  assumes "service_run ops s0 t st (a # ths) h" "at_pc a = ApTake req ttl part" "mono clk" "t \<le> clk 0" "\<And>n. clk n \<le> T"
    and fields: "at_id a = i" "at_approver a = approver" "at_how a = how"
  shows "runs_to ops s0 st a ths h T
    (case st_take ops (clk 0) StatePending i (ss_store st) of
       (Inl e, s2) \<Rightarrow> (Inl (notPending i e, None), s2)
     | (Inr req', s2) \<Rightarrow>
         (let g = active_grant req' ttl part approver how (clk (Suc 0)) in
          case st_for_subject ops (clk (Suc (Suc 0))) StateActive (Subject g) s2 of
            (Inl e, s3) \<Rightarrow> (Inl (StoreErr e, Some g), s3)
          | (Inr held, s3) \<Rightarrow>
              (case st_put ops (clk (Suc (Suc (Suc 0)))) g s3 of
                 (Inl e, s4) \<Rightarrow> (Inl (StoreErr e, Some g), s4)
               | (Inr _, s4) \<Rightarrow> (Inr g, remove_replaced ops (\<lambda>n. clk (Suc (Suc (Suc (Suc n))))) g held s4))))"
proof -
  obtain r s2 where p: "st_take ops (clk 0) StatePending i (ss_store st) = (r, s2)" by fastforce
  have le: "clk 0 \<le> clk (Suc 0)" "clk (Suc 0) \<le> clk (Suc (Suc 0))" using assms(3) by (auto simp: mono_def)
  note step = first_step [OF assms(1,4) le(1) _ refl, of _ s2]
  show ?thesis
  proof (cases r)
    case (Inl e)
    with step [of "ApDone (Inl (notPending i e, None))"] p assms(2,5) fields show ?thesis
      by (auto simp: runs_to_def approve_op_def put_event_def approve_event_def approve_outcome_def)
  next
    case (Inr req')
    let ?g = "active_grant req' ttl part approver how (clk (Suc 0))"
    from Inr step [of "ApHeld ?g"] p assms(2) fields
    have r: "service_run ops s0 (clk (Suc 0)) (st\<lparr>ss_store := s2\<rparr>) (a\<lparr>at_pc := ApHeld ?g\<rparr> # ths) h"
      by (simp add: approve_op_def put_event_def)
    have "mono (\<lambda>n. clk (Suc (Suc n)))" using assms(3) by (auto simp: mono_def)
    with runs_held [OF r, of ?g "\<lambda>n. clk (Suc (Suc n))" T] le(2) assms(5) p Inr fields show ?thesis
      by (simp add: runs_to_def Let_def)
  qed
qed

lemma runs_get:
  assumes "service_run ops s0 t st (a # ths) h" "at_pc a = ApGet" "mono clk" "t \<le> clk 1" "\<And>n. clk n \<le> T"
  shows "runs_to ops s0 st a ths h T (approve ops (at_env a) clk (at_approver a) (at_id a) (at_approval a) (at_how a) (ss_store st))"
proof -
  obtain r s1 where p: "st_get ops (clk 1) StatePending (at_id a) (ss_store st) = (r, s1)" by fastforce
  note step = first_step [OF assms(1,4) order_refl _ refl, of _ s1]
  show ?thesis
  proof (cases "\<exists>req ttl part. r = Inr req \<and>
      decide_approval (at_env a) (at_approver a) (at_id a) (at_approval a) (at_how a) req = Inr (ttl, part)")
    case False
    then have "\<exists>e go. (case r of Inl e \<Rightarrow> True | Inr req \<Rightarrow> decide_approval (at_env a) (at_approver a) (at_id a) (at_approval a) (at_how a) req = Inl e)"
      by (cases r) (auto, metis old.sum.exhaust surj_pair)
    then obtain e go where e: "approve ops (at_env a) clk (at_approver a) (at_id a) (at_approval a) (at_how a) (ss_store st) = (Inl (e, go), s1)"
      "approve_op ops (clk 1) (clk 1) a (ss_store st) = (ApDone (Inl (e, go)), s1)"
      using p assms(2) by (cases r) (auto simp: approve_def approve_op_def)
    with step [of "ApDone (Inl (e, go))"] assms(2,5) show ?thesis
      by (auto simp: runs_to_def put_event_def approve_event_def approve_outcome_def)
  next
    case True
    then obtain req ttl part where d: "r = Inr req"
      "decide_approval (at_env a) (at_approver a) (at_id a) (at_approval a) (at_how a) req = Inr (ttl, part)" by blast
    with step [of "ApTake req ttl part"] p assms(2)
    have r: "service_run ops s0 (clk 1) (st\<lparr>ss_store := s1\<rparr>) (a\<lparr>at_pc := ApTake req ttl part\<rparr> # ths) h"
      by (simp add: approve_op_def put_event_def)
    have "mono (\<lambda>n. clk (Suc (Suc n)))" "clk 1 \<le> clk (Suc (Suc 0))" using assms(3) by (auto simp: mono_def)
    with runs_take [OF r, of req ttl part "\<lambda>n. clk (Suc (Suc n))" T "at_id a" "at_approver a" "at_how a"] assms(5) p d
    show ?thesis unfolding approve_def eval_nat_numeral BitM.simps One_nat_def add_Suc add_0 by (simp add: runs_to_def)
  qed
qed

text \<open>So a call of \<open>approveAudited\<close> that nothing interrupts is one run of the steps.\<close>

lemma approve_uninterrupted:
  assumes run: "service_run ops s0 t st ths h" and clk: "mono clk" "t \<le> clk 0" "\<And>n. clk n \<le> fin"
    and call: "approveAudited ops env clk fin trace approver i ap how md st = (ra, st')"
  shows "service_run ops s0 fin st' ths (h @ approve_event env ap how ra)"
proof -
  let ?a = "\<lparr>at_env = env, at_start = clk 0, at_trace = trace, at_approver = approver, at_id = i, at_approval = ap,
    at_how = how, at_metadata = md, at_pc = ApGet\<rparr>"
  have "service_run ops s0 (clk 0) st (?a # ths) h" using service_run.begins [OF run, of ?a] clk(2) by simp
  moreover obtain r s' where ap: "approve ops env clk approver i ap how (ss_store st) = (r, s')" by fastforce
  ultimately obtain u where u: "u \<le> fin" "service_run ops s0 u (st\<lparr>ss_store := s'\<rparr>) (?a\<lparr>at_pc := ApDone r\<rparr> # ths)
      (h @ approve_event env ap how (approve_outcome r))"
    using runs_get [of ops s0 "clk 0" st ?a ths h clk fin] clk monoD [OF clk(1), of 0 1] by (auto simp: runs_to_def)
  from service_run.returns [of ops s0 u "st\<lparr>ss_store := s'\<rparr>" "[]" "?a\<lparr>at_pc := ApDone r\<rparr>" ths _ r fin] u call ap show ?thesis
    by (cases st) (auto simp: approveAudited_def)
qed

end
