(* ===== verification/Statement.thy ===== *)
theory Statement
  imports GrantFacts
begin

text \<open>
  Signed approvals (\<open>internal/grants/statement.go\<close>): the statement an approver signs, and the approval
  on the strength of its signature. The BIP-322 verification is an argument here; the theory on
  signatures supplies it.
\<close>

section \<open>Statements\<close>

definition StatementVersion :: string where "StatementVersion = ''ToolMesh grant approval, version 1''"

record statement =
  sm_text :: string
  sm_ttl :: duration
  sm_entries :: grant_part
  sm_whole :: bool

record statement_input =
  si_audience :: string
  si_approver :: string
  si_address :: string
  si_req :: grant
  si_kit :: kit
  si_ttl :: duration
  si_entries :: grant_part

definition missing_entries :: "string list \<Rightarrow> string list \<Rightarrow> string list" where
  "missing_entries all kept = filter (\<lambda>e. e \<notin> set kept) all"

definition connection :: "grant \<Rightarrow> string" where
  "connection g = (if g_grant_key g \<noteq> [] then ''API key '' @ g_grant_key g else g_caller_id g)"

definition statement_line :: "string \<times> string \<Rightarrow> string" where
  "statement_line = (\<lambda>(name, v). let c = cleanText v in if c \<noteq> [] then name @ '': '' @ c @ [nl] else [])"

definition statement_block :: "(string \<times> string) list \<Rightarrow> string" where
  "statement_block fs = concat (map statement_line fs)"

text \<open>The facts of a statement, in the order and the blocks they are written in.\<close>

definition request_facts :: "statement_input \<Rightarrow> (string \<times> string) list" where
  "request_facts inp = [(''ToolMesh'', si_audience inp), (''Request'', g_id (si_req inp)), (''Nonce'', g_nonce (si_req inp)),
     (''Approver'', si_approver inp), (''Address'', si_address inp)]"

definition kit_facts :: "statement_input \<Rightarrow> (string \<times> string) list" where
  "kit_facts inp =
     (let k = si_kit inp; e = si_entries inp in
      [(''Kit'', kit_name k), (''Description'', kit_description k), (''Warning'', kit_warning k),
       (''Grants'', join (gp_grants e) '', ''), (''Tools'', join (gp_tools e) '', ''),
       (''Left out grants'', join (missing_entries (kit_grants k) (gp_grants e)) '', ''),
       (''Left out tools'', join (missing_entries (kit_tools k) (gp_tools e)) '', ''),
       (''Duration'', FormatTTL (si_ttl inp) @ '' from the approval''),
       (''Approve before'', format_rfc3339 (g_expires_at (si_req inp)))])"

definition caller_facts :: "statement_input \<Rightarrow> (string \<times> string) list" where
  "caller_facts inp = [(''User'', g_user_id (si_req inp)), (''Connection'', connection (si_req inp)),
     (''Client name, as the client states it'', g_caller_name (si_req inp)),
     (''Reason, as the requester states it'', g_reason (si_req inp))]"

definition statement_intro :: string where
  "statement_intro = ''I approve the request below with the key of my address.''"

definition renderStatement :: "statement_input \<Rightarrow> string" where
  "renderStatement inp =
     StatementVersion @ [nl, nl] @ statement_intro @ [nl, nl] @
     statement_block (request_facts inp) @ [nl] @ statement_block (kit_facts inp) @ [nl] @ statement_block (caller_facts inp)"

section \<open>Signed approvals\<close>

record signed_approval =
  sa_approver :: string
  sa_approval :: approval
  sa_audience :: string
  sa_signature :: string

definition signer :: "case_tables \<Rightarrow> service_env \<Rightarrow> string \<Rightarrow> (service_error, approver \<times> address) result" where
  "signer ct env name =
     (case find_first (\<lambda>a. ap_name a = name) (Signers ct env) of
        None \<Rightarrow> Inl (ErrInvalid (NoSigner name))
      | Some a \<Rightarrow> (case SigningAddress ct a of None \<Rightarrow> Inl (ErrInvalid (NoSigner name)) | Some addr \<Rightarrow> Inr (a, addr)))"

text \<open>What follows for a pending request, once the approver is known.\<close>

definition write_statement :: "service_env \<Rightarrow> string \<Rightarrow> approver \<Rightarrow> address \<Rightarrow> approval \<Rightarrow> string \<Rightarrow> grant \<Rightarrow> (service_error, statement) result" where
  "write_statement env i ap addr a audience req =
     (case service_kit env (g_kit req) of
        None \<Rightarrow> Inl (ErrInvalid (KitUndefined (g_kit req) i))
      | Some k \<Rightarrow>
          if \<not> MayApprove ap (kit_name k) then Inl (ErrForbidden (ap_name ap) (kit_name k))
          else bind_res (resolveApproval k req a) (\<lambda>(ttl, part).
            (let entries = (case part of None \<Rightarrow> \<lparr>gp_grants = kit_grants k, gp_tools = kit_tools k\<rparr> | Some p \<Rightarrow> p)
             in Inr \<lparr>sm_text = renderStatement \<lparr>si_audience = audience, si_approver = ap_name ap, si_address = address_text addr,
                       si_req = req, si_kit = k, si_ttl = ttl, si_entries = entries\<rparr>,
                     sm_ttl = ttl, sm_entries = entries, sm_whole = IsWhole k (kitPart entries (kit_name k))\<rparr>)))"

definition service_statement :: "case_tables \<Rightarrow> 's store_ops \<Rightarrow> service_env \<Rightarrow> time \<Rightarrow> string \<Rightarrow> string \<Rightarrow> approval \<Rightarrow> string \<Rightarrow> 's
    \<Rightarrow> (service_error, statement \<times> approver \<times> address) result \<times> 's" where
  "service_statement ct ops env now i name a audience s =
     (case signer ct env name of
        Inl e \<Rightarrow> (Inl e, s)
      | Inr (ap, addr) \<Rightarrow>
          (case st_get ops now StatePending i s of
             (Inl e, s1) \<Rightarrow> (Inl (notPending i e), s1)
           | (Inr req, s1) \<Rightarrow> (bind_res (write_statement env i ap addr a audience req) (\<lambda>sm. Inr (sm, ap, addr)), s1)))"

definition ApproveSigned :: "case_tables \<Rightarrow> (address \<Rightarrow> string \<Rightarrow> string \<Rightarrow> string option) \<Rightarrow> 's store_ops \<Rightarrow> service_env \<Rightarrow> (nat \<Rightarrow> time) \<Rightarrow> time
    \<Rightarrow> string \<Rightarrow> string \<Rightarrow> signed_approval \<Rightarrow> 's service_state \<Rightarrow> (service_error, grant) result \<times> 's service_state" where
  "ApproveSigned ct verify ops env clk fin trace i sa st =
     (let (r, s) = service_statement ct ops env (clk 1) i (sa_approver sa) (sa_approval sa) (sa_audience sa) (ss_store st);
          r' = bind_res r (\<lambda>(sm, ap, addr). case verify addr (sm_text sm) (sa_signature sa) of
                 Some err \<Rightarrow> Inl (ErrInvalid (SignatureInvalid err)) | None \<Rightarrow> Inr (sm, ap, addr))
      in case r' of
           Inl e \<Rightarrow>
             (let en = service_entry trace ''grant_approve'' (clk 0) i None;
                  en1 = add_md ''approved_with'' ''signature''
                          (add_md ''approver'' (truncateRunes (cleanText (sa_approver sa)) maxAuditArgLen) en)
              in (Inl e, \<lparr>ss_store = s, ss_trail = service_record env fin en1 (Some e) (ss_trail st)\<rparr>))
         | Inr (sm, ap, addr) \<Rightarrow>
             approveAudited ops env (\<lambda>n. clk (2 + n)) fin trace (ap_name ap) i
               \<lparr>av_ttl = sm_ttl sm, av_grants = gp_grants (sm_entries sm), av_tools = gp_tools (sm_entries sm)\<rparr> ApprovedWithSignature
               [(''address'', address_text addr), (''signature'', trim_space (sa_signature sa)), (''statement'', sm_text sm),
                (''statement_sha256'', hex_encode (sha256 (bytes_of (sm_text sm))))]
               (st\<lparr>ss_store := s\<rparr>))"

section \<open>The lines of a statement\<close>

lemma nl_neq: "nl \<notin> set (cleanText v)"
  using cleanText_no_newline by (simp add: nl_def)

definition block_lines :: "(string \<times> string) list \<Rightarrow> string list" where
  "block_lines fs = map (\<lambda>(name, v). name @ '': '' @ cleanText v) (filter (\<lambda>(name, v). cleanText v \<noteq> []) fs)"

lemma split_block:
  "\<forall>(name, v) \<in> set fs. nl \<notin> set name \<Longrightarrow> split_char nl (statement_block fs @ rest) = block_lines fs @ split_char nl rest"
proof (induction fs)
  case Nil
  then show ?case by (simp add: statement_block_def block_lines_def)
next
  case (Cons f fs)
  obtain name v where f: "f = (name, v)" by (cases f)
  have ih: "split_char nl (statement_block fs @ rest) = block_lines fs @ split_char nl rest" using Cons by simp
  show ?case
  proof (cases "cleanText v = []")
    case True
    then show ?thesis using ih f by (simp add: statement_block_def statement_line_def block_lines_def)
  next
    case False
    have "nl \<notin> set (name @ '': '' @ cleanText v)" using Cons.prems f nl_neq by (auto simp: nl_def)
    from split_line [OF this, of "statement_block fs @ rest"] show ?thesis
      using ih f False by (simp add: statement_block_def statement_line_def block_lines_def)
  qed
qed

text \<open>C32: the statement an approver signs consists of exactly the lines of its facts in their fixed order:
  whatever the requester, the client or the configuration put into a value, it adds no line and
  changes no other one.\<close>

theorem statement_lines:
  "split_char nl (renderStatement inp) =
     [StatementVersion, [], statement_intro, []] @
     block_lines (request_facts inp) @ [[]] @ block_lines (kit_facts inp) @ [[]] @ block_lines (caller_facts inp) @ [[]]"
proof -
  have names: "\<forall>(name, v) \<in> set (request_facts inp). nl \<notin> set name" "\<forall>(name, v) \<in> set (kit_facts inp). nl \<notin> set name"
    "\<forall>(name, v) \<in> set (caller_facts inp). nl \<notin> set name"
    by (simp_all add: request_facts_def kit_facts_def caller_facts_def nl_def Let_def)
  have head: "nl \<notin> set StatementVersion" "nl \<notin> set statement_intro"
    by (simp_all add: StatementVersion_def statement_intro_def nl_def)
  have cut: "split_char nl (nl # r) = [] # split_char nl r" for r by simp
  have "split_char nl (renderStatement inp) = StatementVersion # [] # statement_intro # [] #
      split_char nl (statement_block (request_facts inp) @ nl # (statement_block (kit_facts inp) @ nl # (statement_block (caller_facts inp) @ [])))"
    unfolding renderStatement_def by (simp only: append_Cons append_Nil append_assoc append_Nil2 split_line [OF head(1)] split_line [OF head(2)] cut)
  then show ?thesis using split_block [OF names(3), of "[]"] by (simp add: split_block [OF names(1)] split_block [OF names(2)] cut)
qed

end
