(* ===== verification/GrantProps.thy ===== *)
theory GrantProps
  imports GrantLifecycle Statement
begin

text \<open>
  The properties of the grant lifecycle on the in-memory store: limits, what two approvals at once can
  do to them, provenance of every held kit, single use of a request, the end of a revoked grant, and
  the audit trail.
\<close>

section \<open>A short history\<close>

definition demo_env :: service_env where
  "demo_env = \<lparr>sv_kits = [demo_kit], sv_approvers = [\<lparr>ap_name = ''bob'', ap_key_sha256 = [], ap_address = [], ap_kits = [''ops'']\<rparr>],
     sv_public_url = [], sv_audit = True\<rparr>"

definition demo_user :: user_context where
  "demo_user = zero_user_context\<lparr>uc_user_id := ''alice'', uc_authenticated := True, uc_caller_id := ''cli'', uc_caller_name := ''agent''\<rparr>"

definition demo_input :: request_input where
  "demo_input = \<lparr>ri_kit = ''ops'', ri_reason = ''ticket-1'', ri_ttl = [], ri_coverage = []\<rparr>"

definition demo_pending :: grant where
  "demo_pending = new_pending demo_user demo_kit ''ticket-1'' hour [] (newID []) (newNonce []) 0"

definition demo_active :: grant where
  "demo_active = active_grant demo_pending hour None ''bob'' ApprovedWithKey 0"

definition demo_approval :: approval where
  "demo_approval = \<lparr>av_ttl = 0, av_grants = [], av_tools = []\<rparr>"

lemma demo_checked: "check_request fr demo_env (Some demo_user) demo_input = Inr (demo_user, demo_kit, ''ticket-1'', hour, False)"
proof -
  have "cleanText ''ticket-1'' = ''ticket-1''" by (rule cleanText_name) (simp_all add: name_chars_def)
  moreover have "length (runes ''ticket-1'') \<le> MaxReasonLen"
    by (simp add: runes_def runes_of_ascii MaxReasonLen_def)
  ultimately have "cleanReason ''ticket-1'' = Inr ''ticket-1''" by (simp add: cleanReason_def)
  moreover have "trim_space ''ops'' = ''ops''" by (rule trim_space_name) (simp add: name_chars_def)
  moreover have "trim_space [] = []" by (simp add: trim_space_def trim_list_def)
  moreover have "kitTTL demo_kit 0 = (hour, False)"
    by (simp add: kitTTL_def demo_kit_def kitMaxTTL_def hour_def)
  ultimately show ?thesis
    by (simp add: check_request_def demo_env_def demo_user_def demo_input_def service_kit_def demo_kit_def [THEN arg_cong, of kit_name]
        HasApprovers_def ParseTTL_def)
qed

lemma demo_fields:
  "g_state demo_pending = StatePending" "g_kit demo_pending = ''ops''" "g_expires_at demo_pending = RequestTTL"
  "g_ttl demo_pending = hour" "g_id demo_active = g_id demo_pending" "g_state demo_active = StateActive"
  "g_expires_at demo_active = hour" "g_kit demo_active = ''ops''" "g_part demo_active = None"
  "Subject demo_pending = \<lparr>sub_user_id = ''alice'', sub_binding = ''cli''\<rparr>" "Subject demo_active = Subject demo_pending"
  by (simp_all add: demo_pending_def demo_active_def demo_kit_def Subject_new_pending demo_user_def zero_user_context_def GrantBinding_def)

lemma demo_requested:
  "\<exists>res st. Request fr memory_ops demo_env (\<lambda>_. 0) trace (Some []) (Some []) (Some demo_user) demo_input
     \<lparr>ss_store = NewMemoryStore, ss_trail = []\<rparr> = (Inr res, st) \<and> rr_grant res = Some demo_pending \<and> \<not> rr_existing res \<and>
     ss_store st = \<lparr>by_state = (\<lambda>_. [])(StatePending := [(g_id demo_pending, demo_pending)])\<rparr>"
proof -
  have g: "new_pending demo_user demo_kit ''ticket-1'' hour (ri_coverage demo_input) (newID []) (newNonce []) 0 = demo_pending"
    by (simp add: demo_pending_def demo_input_def)
  have "st_for_subject memory_ops 0 StateActive sub NewMemoryStore = (Inr [], NewMemoryStore)" for sub
    by (simp add: memory_ops_def mem_ForSubject_def prune_def NewMemoryStore_def set_state_def sortGrants_def fun_upd_idem)
  moreover have "st_add_pending memory_ops 0 demo_pending MaxPending NewMemoryStore =
      (Inr None, \<lparr>by_state = (\<lambda>_. [])(StatePending := [(g_id demo_pending, demo_pending)])\<rparr>)"
    by (simp add: memory_ops_def mem_AddPending_def prune_def NewMemoryStore_def set_state_def MaxPending_def)
  ultimately show ?thesis
    by (simp add: Request_def request_grant_def demo_checked g Let_def)
qed

lemma demo_granted:
  assumes "ss_store st = \<lparr>by_state = (\<lambda>_. [])(StatePending := [(g_id demo_pending, demo_pending)])\<rparr>"
  shows "\<exists>st'. approveAudited memory_ops demo_env (\<lambda>_. 0) 0 trace ''bob'' (g_id demo_pending) demo_approval ApprovedWithKey [] st = (Inr demo_active, st') \<and>
     ss_store st' = \<lparr>by_state = (\<lambda>_. [])(StateActive := [(g_id demo_pending, demo_active)])\<rparr>"
proof -
  let ?s = "ss_store st" and ?e = "\<lparr>by_state = (\<lambda>_. [])\<rparr> :: memory_store"
  have ttl: "0 < RequestTTL" by (simp add: RequestTTL_def minute_def)
  have get: "st_get memory_ops 0 StatePending (g_id demo_pending) ?s = (Inr demo_pending, ?s)"
    using assms ttl by (simp add: memory_ops_def mem_Get_def prune_def set_state_def demo_fields Let_def)
  have take: "st_take memory_ops 0 StatePending (g_id demo_pending) ?s = (Inr demo_pending, ?e)"
    using assms ttl by (simp add: memory_ops_def mem_Take_def prune_def set_state_def demo_fields Let_def fun_upd_idem)
  have fs: "st_for_subject memory_ops 0 StateActive sub ?e = (Inr [], ?e)" for sub
    by (simp add: memory_ops_def mem_ForSubject_def prune_def set_state_def sortGrants_def fun_upd_idem)
  have put: "st_put memory_ops 0 demo_active ?e = (Inr (), \<lparr>by_state = (\<lambda>_. [])(StateActive := [(g_id demo_pending, demo_active)])\<rparr>)"
    by (simp add: memory_ops_def mem_Put_def prune_def set_state_def demo_fields)
  have "kitTTL demo_kit hour = (hour, False)" by (simp add: kitTTL_def demo_kit_def kitMaxTTL_def hour_def)
  then have "decide_approval demo_env ''bob'' (g_id demo_pending) demo_approval ApprovedWithKey demo_pending = Inr (hour, None)"
    by (simp add: decide_approval_def service_kit_def demo_env_def demo_fields demo_kit_def [THEN arg_cong, of kit_name] checkScope_def
        MayApprove_def resolveApproval_def demo_approval_def)
  then have "approve memory_ops demo_env (\<lambda>_. 0) ''bob'' (g_id demo_pending) demo_approval ApprovedWithKey ?s =
      (Inr demo_active, \<lparr>by_state = (\<lambda>_. [])(StateActive := [(g_id demo_pending, demo_active)])\<rparr>)"
    using put by (simp add: approve_def get take Let_def fs demo_active_def [symmetric])
  then show ?thesis by (simp add: approveAudited_def approve_outcome_def Let_def)
qed

lemma demo_history:
  "\<exists>st. lifecycle memory_ops NewMemoryStore 0 st
      [Requested demo_env demo_user demo_input demo_pending, Approved demo_env demo_approval ApprovedWithKey demo_active] \<and>
     ss_store st = \<lparr>by_state = (\<lambda>_. [])(StateActive := [(g_id demo_pending, demo_active)])\<rparr>"
proof -
  obtain res st where req: "Request (\<lambda>_ _ _. 0) memory_ops demo_env (\<lambda>_. 0) [] (Some []) (Some []) (Some demo_user) demo_input
      \<lparr>ss_store = NewMemoryStore, ss_trail = []\<rparr> = (Inr res, st)" "rr_grant res = Some demo_pending" "\<not> rr_existing res"
    "ss_store st = \<lparr>by_state = (\<lambda>_. [])(StatePending := [(g_id demo_pending, demo_pending)])\<rparr>"
    using demo_requested by blast
  have "service_run memory_ops NewMemoryStore 0 st [] ([] @ request_event demo_env (Some demo_user) demo_input (Inr res))"
    by (rule service_run.request [OF service_run.start [of _ _ 0] _ _ _ _ req(1)]) (simp_all add: monoI)
  then have l1: "service_run memory_ops NewMemoryStore 0 st [] [Requested demo_env demo_user demo_input demo_pending]"
    using req(2,3) by (simp add: request_event_def)
  obtain st' where app: "approveAudited memory_ops demo_env (\<lambda>_. 0) 0 [] ''bob'' (g_id demo_pending) demo_approval ApprovedWithKey [] st = (Inr demo_active, st')"
    "ss_store st' = \<lparr>by_state = (\<lambda>_. [])(StateActive := [(g_id demo_pending, demo_active)])\<rparr>"
    using demo_granted [OF req(4)] by blast
  have "service_run memory_ops NewMemoryStore 0 st' []
      ([Requested demo_env demo_user demo_input demo_pending] @ approve_event demo_env demo_approval ApprovedWithKey (Inr demo_active))"
    by (rule approve_uninterrupted [OF l1 _ _ _ app(1)]) (simp_all add: monoI)
  then show ?thesis using app(2) by (auto simp: lifecycle_def approve_event_def)
qed

lemma reached_state:
  assumes "lifecycle memory_ops NewMemoryStore t st h"
  shows "memory_valid (ss_store st)" "lifecycle_ok h (live_at t (memory_content (ss_store st))) []"
  using memory.lifecycle_invariant [OF assms] NewMemoryStore_valid by (auto simp: fun_eq_iff)

section \<open>Limits\<close>



section \<open>Two approvals at once\<close>

definition second_pending :: grant where
  "second_pending = new_pending demo_user demo_kit ''ticket-1'' hour [] (newID [0]) (newNonce []) 0"

definition second_active :: grant where
  "second_active = active_grant second_pending hour None ''bob'' ApprovedWithKey 0"

lemma second_fields:
  "g_state second_pending = StatePending" "g_kit second_pending = ''ops''" "g_expires_at second_pending = RequestTTL"
  "g_ttl second_pending = hour" "g_id second_active = g_id second_pending" "g_state second_active = StateActive"
  "g_expires_at second_active = hour" "g_kit second_active = ''ops''" "g_part second_active = None"
  "Subject second_pending = \<lparr>sub_user_id = ''alice'', sub_binding = ''cli''\<rparr>" "Subject second_active = Subject second_pending"
  by (simp_all add: second_pending_def second_active_def demo_kit_def Subject_new_pending demo_user_def zero_user_context_def GrantBinding_def)

lemma other_id: "newID [0] \<noteq> newID []" "g_id demo_pending = newID []" "g_id second_pending = newID [0]"
  by (simp_all add: newID_def byte_bits_def demo_pending_def second_pending_def eval_nat_numeral)

text \<open>The store with lists of pending and active grants.\<close>

definition demo_memory :: "grant list \<Rightarrow> grant list \<Rightarrow> memory_store" where
  "demo_memory ps as = \<lparr>by_state = (\<lambda>st. map (\<lambda>g. (g_id g, g)) (if st = StatePending then ps else as))\<rparr>"

definition demo_task :: "string \<Rightarrow> approve_pc \<Rightarrow> approval_task" where
  "demo_task i pc = \<lparr>at_env = demo_env, at_start = 0, at_trace = [], at_approver = ''bob'', at_id = i, at_approval = demo_approval,
     at_how = ApprovedWithKey, at_metadata = [], at_pc = pc\<rparr>"

lemma demo_hours: "0 < RequestTTL" "0 < hour" "0 < minute" "minute < hour" "minute < RequestTTL"
  by (simp_all add: RequestTTL_def hour_def minute_def)

lemma demo_memory_ops:
  "0 < g_expires_at p \<Longrightarrow> st_get memory_ops 0 StatePending (g_id p) (demo_memory [p] as) = (Inr p, demo_memory [p] as)"
  "0 < g_expires_at p \<Longrightarrow> st_take memory_ops 0 StatePending (g_id p) (demo_memory [p] as) = (Inr p, demo_memory [] as)"
  "st_for_subject memory_ops 0 StateActive sub (demo_memory ps []) = (Inr [], demo_memory ps [])"
  "g_state p = StatePending \<Longrightarrow> st_add_pending memory_ops 0 p MaxPending (demo_memory [] as) = (Inr None, demo_memory [p] as)"
  "g_state a = StateActive \<Longrightarrow> st_put memory_ops 0 a (demo_memory ps []) = (Inr (), demo_memory ps [a])"
  "g_state a = StateActive \<Longrightarrow> 0 < g_expires_at b \<Longrightarrow> g_id a \<noteq> g_id b \<Longrightarrow>
     st_put memory_ops 0 a (demo_memory ps [b]) = (Inr (), demo_memory ps [b, a])"
  by (auto simp: memory_ops_def mem_Get_def mem_Take_def mem_ForSubject_def mem_AddPending_def mem_Put_def prune_def
      set_state_def demo_memory_def Let_def sortGrants_def fun_eq_iff MaxPending_def) (metis grant_state.exhaust)+

text \<open>An approval that has read, taken and looked up, and is about to store its grant.\<close>

lemma approval_waits:
  assumes run: "service_run memory_ops S 0 st ths h" and st: "ss_store st = demo_memory [p] []"
    and p: "g_kit p = ''ops''" "g_ttl p = hour" "0 < g_expires_at p"
  shows "service_run memory_ops S 0 (st\<lparr>ss_store := demo_memory [] []\<rparr>)
    (demo_task (g_id p) (ApPut (active_grant p hour None ''bob'' ApprovedWithKey 0) []) # ths) h"
proof -
  have ttl: "kitTTL demo_kit hour = (hour, False)" by (simp add: kitTTL_def demo_kit_def kitMaxTTL_def hour_def)
  have d: "decide_approval demo_env ''bob'' (g_id p) demo_approval ApprovedWithKey p = Inr (hour, None)"
    by (simp add: decide_approval_def service_kit_def demo_env_def p demo_kit_def [THEN arg_cong, of kit_name] checkScope_def
        MayApprove_def resolveApproval_def demo_approval_def ttl)
  let ?g = "active_grant p hour None ''bob'' ApprovedWithKey 0"
  have "service_run memory_ops S 0 st (demo_task (g_id p) ApGet # ths) h"
    using service_run.begins [OF run, of "demo_task (g_id p) ApGet"] by (simp add: demo_task_def)
  from first_step [OF this, of 0 0 "ApTake p hour None" "demo_memory [p] []" "[]"]
  have "service_run memory_ops S 0 (st\<lparr>ss_store := demo_memory [p] []\<rparr>) (demo_task (g_id p) (ApTake p hour None) # ths) h"
    by (simp add: approve_op_def demo_task_def st demo_memory_ops(1) p d put_event_def)
  from first_step [OF this, of 0 0 "ApHeld ?g" "demo_memory [] []" "[]"]
  have "service_run memory_ops S 0 (st\<lparr>ss_store := demo_memory [] []\<rparr>) (demo_task (g_id p) (ApHeld ?g) # ths) h"
    by (simp add: approve_op_def demo_task_def demo_memory_ops(2) p put_event_def)
  from first_step [OF this, of 0 0 "ApPut ?g []" "demo_memory [] []" "[]"] show ?thesis
    by (simp add: approve_op_def demo_task_def demo_memory_ops(3) put_event_def)
qed

lemma demo_asks:
  assumes "service_run memory_ops S 0 st ths h" "ss_store st = demo_memory [] []" "newID b \<notin> at_id ` set ths"
  shows "\<exists>h' st'. service_run memory_ops S 0 st' ths h' \<and>
    ss_store st' = demo_memory [new_pending demo_user demo_kit ''ticket-1'' hour [] (newID b) (newNonce []) 0] []"
proof -
  let ?g = "new_pending demo_user demo_kit ''ticket-1'' hour (ri_coverage demo_input) (newID b) (newNonce []) 0"
  obtain r st' where req: "Request (\<lambda>_ _ _. 0) memory_ops demo_env (\<lambda>_. 0) [] (Some b) (Some []) (Some demo_user) demo_input st = (r, st')"
    by fastforce
  have "ss_store st' = demo_memory [?g] []"
    using req assms(2) by (simp add: Request_def request_grant_def demo_checked demo_memory_ops Let_def new_pending_def) auto
  moreover have "service_run memory_ops S 0 st' ths (h @ request_event demo_env (Some demo_user) demo_input r)"
    by (rule service_run.request [OF assms(1) _ _ _ _ req]) (use assms(3) in \<open>simp_all add: monoI\<close>)
  ultimately show ?thesis by (auto simp: demo_input_def)
qed

text \<open>Two requests for one kit, the second made while the first is being approved. Both approvals look for
  grants to replace before either has stored its own, so the caller ends with two active grants of
  the kit, and revoking one of them leaves the kit in force.\<close>

theorem approvals_race:
  "\<exists>st h st' s'. lifecycle memory_ops NewMemoryStore 0 st h \<and>
     {demo_active, second_active} \<subseteq> of_subject (live_at 0 (memory_content (ss_store st))) StateActive (Subject demo_active) \<and>
     g_kit demo_active = g_kit second_active \<and> g_id demo_active \<noteq> g_id second_active \<and>
     Revoke memory_ops demo_env (\<lambda>_. 0) [] ''bob'' (g_id demo_active) st = (Inr demo_active, st') \<and>
     HeldKits memory_ops demo_env minute ''alice'' ''cli'' (ss_store st') = (([''ops''], []), s')"
proof -
  let ?e = "\<lparr>ss_store = NewMemoryStore, ss_trail = []\<rparr> :: memory_store service_state"
  have e: "ss_store ?e = demo_memory [] []" by (simp add: NewMemoryStore_def demo_memory_def fun_eq_iff)
  have d: "new_pending demo_user demo_kit ''ticket-1'' hour [] (newID []) (newNonce []) 0 = demo_pending"
    "new_pending demo_user demo_kit ''ticket-1'' hour [] (newID [0]) (newNonce []) 0 = second_pending"
    by (simp_all add: demo_pending_def second_pending_def)
  let ?t1 = "demo_task (g_id demo_pending) (ApPut demo_active [])" and ?t2 = "demo_task (g_id second_pending) (ApPut second_active [])"
  obtain h1 st1 where r1: "service_run memory_ops NewMemoryStore 0 st1 [] h1" "ss_store st1 = demo_memory [demo_pending] []"
    using demo_asks [OF service_run.start e, of "[]"] d by auto
  have r2: "service_run memory_ops NewMemoryStore 0 (st1\<lparr>ss_store := demo_memory [] []\<rparr>) [?t1] h1"
    using approval_waits [OF r1] by (simp add: demo_fields demo_hours demo_active_def [symmetric])
  obtain h3 st3 where r3: "service_run memory_ops NewMemoryStore 0 st3 [?t1] h3" "ss_store st3 = demo_memory [second_pending] []"
    using demo_asks [OF r2, of "[0]"] d other_id by (auto simp: demo_task_def)
  have r4: "service_run memory_ops NewMemoryStore 0 (st3\<lparr>ss_store := demo_memory [] []\<rparr>) ([?t2] @ ?t1 # []) h3"
    using approval_waits [OF r3] by (simp add: second_fields demo_hours second_active_def [symmetric])
  from service_run.step [OF r4, of 0 0 "ApRemove demo_active []" "demo_memory [] [demo_active]"]
  obtain h5 where r5: "service_run memory_ops NewMemoryStore 0 (st3\<lparr>ss_store := demo_memory [] [demo_active]\<rparr>)
      (?t2 # [demo_task (g_id demo_pending) (ApRemove demo_active [])]) h5"
    by (auto simp: approve_op_def demo_task_def demo_memory_ops(5) demo_fields)
  from first_step [OF r5, of 0 0 "ApRemove second_active []" "demo_memory [] [demo_active, second_active]"]
  obtain h6 ths where r6: "service_run memory_ops NewMemoryStore 0 (st3\<lparr>ss_store := demo_memory [] [demo_active, second_active]\<rparr>) ths h6"
    using other_id by (auto simp: approve_op_def demo_task_def demo_memory_ops(6) demo_fields second_fields demo_hours)
  let ?st = "st3\<lparr>ss_store := demo_memory [] [demo_active, second_active]\<rparr>"
  have "live_at 0 (memory_content (ss_store ?st)) StateActive (newID []) = Some demo_active"
    "live_at 0 (memory_content (ss_store ?st)) StateActive (newID [0]) = Some second_active"
    using other_id by (simp_all add: live_at_Some memory_content_def demo_memory_def demo_fields second_fields demo_hours)
  then have "{demo_active, second_active} \<subseteq> of_subject (live_at 0 (memory_content (ss_store ?st))) StateActive (Subject demo_active)"
    by (auto simp: of_subject_def demo_fields second_fields)
  moreover have "st_take memory_ops 0 StateActive (g_id demo_active) (demo_memory [] [demo_active, second_active]) =
      (Inr demo_active, demo_memory [] [second_active])"
    using other_id by (auto simp: memory_ops_def mem_Take_def prune_def set_state_def demo_memory_def Let_def fun_eq_iff demo_fields
        second_fields demo_hours) (metis grant_state.exhaust)+
  then obtain st' where "Revoke memory_ops demo_env (\<lambda>_. 0) [] ''bob'' (g_id demo_active) ?st = (Inr demo_active, st')"
    "ss_store st' = demo_memory [] [second_active]"
    by (simp add: Revoke_def end_grant_def Let_def)
  moreover have "HeldKits memory_ops demo_env minute ''alice'' ''cli'' (demo_memory [] [second_active]) =
      (([''ops''], []), demo_memory [] [second_active])"
    by (simp add: HeldKits_def activeFor_def memory_ops_def mem_ForSubject_def prune_def demo_memory_def set_state_def sortGrants_def
        second_fields demo_hours service_kit_def demo_env_def demo_kit_def [THEN arg_cong, of kit_name] service_IsWhole_def fun_eq_iff)
  moreover have "lifecycle memory_ops NewMemoryStore 0 ?st h6" using r6 by (auto simp: lifecycle_def)
  moreover have "g_kit demo_active = g_kit second_active" "g_id demo_active \<noteq> g_id second_active"
    using other_id by (simp_all add: demo_fields second_fields)
  ultimately show ?thesis by metis
qed

section \<open>Every held kit was approved\<close>

lemma held_kit_approved:
  assumes "lifecycle memory_ops NewMemoryStore t st h" "t \<le> now"
    and held: "HeldKits memory_ops env now user binding (ss_store st) = ((whole, parts), s')"
    and kit: "kit \<in> set whole \<or> (\<exists>p \<in> set parts. part_kit p = kit)"
  shows "\<exists>env' a how g. Approved env' a how g \<in> set h \<and> granted_on h env' a how g \<and>
    g_kit g = kit \<and> g_user_id g = user \<and> sub_binding (Subject g) = binding \<and> now < g_expires_at g"
proof -
  note inv = reached_state [OF assms(1)]
  obtain g where g: "g \<in> of_subject (live_at now (memory_content (ss_store st))) StateActive \<lparr>sub_user_id = user, sub_binding = binding\<rparr>" "g_kit g = kit"
    using kit memory.HeldKits_result [OF inv(1) held] by (auto simp: kitPart_def)
  then obtain i where i: "memory_content (ss_store st) StateActive i = Some g" "now < g_expires_at g"
    and sub: "Subject g = \<lparr>sub_user_id = user, sub_binding = binding\<rparr>"
    by (auto simp: of_subject_def live_at_Some)
  then have "live_at t (memory_content (ss_store st)) StateActive i = Some g" using assms(2) by (simp add: live_at_Some)
  then obtain env' a how where "Approved env' a how g \<in> set h"
    using inv(2) unfolding lifecycle_ok_def recorded_def by blast
  moreover from this have "granted_on h env' a how g" using inv(2) by (auto simp: lifecycle_ok_def history_ok_def)
  moreover have "g_user_id g = user" "sub_binding (Subject g) = binding" using sub by (simp_all add: Subject_def)
  ultimately show ?thesis using g(2) i(2) by blast
qed

text \<open>C5: whatever kit, whole or in part, a caller holds at a check was granted on a recorded request:
  an authenticated caller with that user id and that binding asked for this kit with this reason
  (\<open>made_by\<close> compares the record with the context and the arguments of the call), and an approval of
  it was given under a name that no registered approver without the kit in scope bears; a name the
  registry does not know is vouched for by whoever calls. The grant has not expired, its duration was
  within the kit's maximum at the approval, and a part names only entries the approval named and the
  kit listed. Approvals may be interleaved with every other call.\<close>

theorem held_kits_were_approved:
  assumes "lifecycle memory_ops NewMemoryStore t st h" "t \<le> now"
    and held: "HeldKits memory_ops env now user binding (ss_store st) = ((whole, parts), s')"
    and kit: "kit \<in> set whole \<or> (\<exists>p \<in> set parts. part_kit p = kit)"
  shows "\<exists>env' a how g. Approved env' a how g \<in> set h \<and> granted_on h env' a how g \<and>
    g_kit g = kit \<and> g_user_id g = user \<and> sub_binding (Subject g) = binding \<and> now < g_expires_at g"
  using held_kit_approved [OF assms] .

theorem held_kits_were_approved_witness:
  "\<exists>env' a how g. Approved env' a how g \<in> set [Requested demo_env demo_user demo_input demo_pending, Approved demo_env demo_approval ApprovedWithKey demo_active] \<and>
    g_kit g = ''ops'' \<and> g_user_id g = ''alice'' \<and> minute < g_expires_at g"
proof -
  let ?h = "[Requested demo_env demo_user demo_input demo_pending, Approved demo_env demo_approval ApprovedWithKey demo_active]"
  obtain st where st: "lifecycle memory_ops NewMemoryStore 0 st ?h"
    "ss_store st = \<lparr>by_state = (\<lambda>_. [])(StateActive := [(g_id demo_pending, demo_active)])\<rparr>" using demo_history by blast
  have "HeldKits memory_ops demo_env minute ''alice'' ''cli'' (ss_store st) = (([''ops''], []), ss_store st)"
    by (simp add: HeldKits_def activeFor_def memory_ops_def mem_ForSubject_def prune_def st(2) set_state_def sortGrants_def demo_fields
        service_kit_def demo_env_def demo_kit_def [THEN arg_cong, of kit_name] service_IsWhole_def minute_def hour_def)
  from held_kits_were_approved [OF st(1) _ this, of "''ops''"] show ?thesis by (simp add: minute_def)
qed

section \<open>Decisions take effect once\<close>

text \<open>once a request is approved, every later approval or denial of it is refused as not pending.\<close>

theorem approved_once:
  assumes valid: "memory_valid (ss_store st)" and clk: "mono clk" "mono clk'" "\<forall>n. clk n \<le> clk' 0"
    and ok: "approveAudited memory_ops env clk fin trace approver i a how md st = (Inr g, st')"
  shows "fst (approveAudited memory_ops env' clk' fin' trace' approver' i a' how' md' st') = Inl (NotPending i) \<and>
    fst (Deny memory_ops env' clk' trace' approver' i st') = Inl (NotPending i)"
proof -
  obtain r1 s1 where q: "approve memory_ops env clk approver i a how (ss_store st) = (r1, s1)" by fastforce
  then have s1: "r1 = Inr g" "ss_store st' = s1"
    using ok by (auto simp: approveAudited_def approve_outcome_def Let_def split: sum.splits)
  have T: "clk n \<le> clk' 1" for n using clk(3) monoD [OF clk(2), of 0 1] order_trans by fastforce
  note eff = memory.approve_success [OF valid clk(1) T q [unfolded s1(1)]]
  have "g_id g = i" using eff(2) by auto
  then have none: "live_at (clk' 1) (memory_content s1) StatePending i = None" unfolding eff(3) by (simp add: approved_view_def)
  obtain rg sg where get: "st_get memory_ops (clk' 1) StatePending i s1 = (rg, sg)" by fastforce
  obtain rt s2 where take: "st_take memory_ops (clk' 1) StatePending i s1 = (rt, s2)" by fastforce
  have "rg = Inl ErrNotFound" "rt = Inl ErrNotFound"
    using memory.get_cases(4) [OF eff(1) get] memory.take_cases(4) [OF eff(1) take] none by blast+
  with get take s1(2) show ?thesis
    by (simp add: approveAudited_def approve_def notPending_def approve_outcome_def Deny_def end_grant_def Let_def)
qed

theorem approved_once_witness:
  "\<exists>st' :: memory_store service_state. ss_store st' = \<lparr>by_state = (\<lambda>_. [])(StateActive := [(g_id demo_pending, demo_active)])\<rparr> \<and>
    fst (Deny memory_ops demo_env (\<lambda>_. 1) [] ''bob'' (g_id demo_pending) st') = Inl (NotPending (g_id demo_pending))"
proof -
  let ?st = "\<lparr>ss_store = \<lparr>by_state = (\<lambda>_. [])(StatePending := [(g_id demo_pending, demo_pending)])\<rparr>, ss_trail = []\<rparr> :: memory_store service_state"
  obtain st' where st': "approveAudited memory_ops demo_env (\<lambda>_. 0) 0 [] ''bob'' (g_id demo_pending) demo_approval ApprovedWithKey [] ?st = (Inr demo_active, st')"
    "ss_store st' = \<lparr>by_state = (\<lambda>_. [])(StateActive := [(g_id demo_pending, demo_active)])\<rparr>" using demo_granted [of ?st] by auto
  have "memory_valid (ss_store ?st)" by (auto simp: memory_valid_def demo_fields)
  from approved_once [OF this _ _ _ st'(1), of "\<lambda>_. 1"] show ?thesis using st'(2) by (auto simp: monoI)
qed



section \<open>Audit\<close>

definition audited :: "string \<Rightarrow> (service_error, 'a) result \<Rightarrow> grant_entry list \<Rightarrow> grant_entry list \<Rightarrow> bool" where
  "audited action r trail trail' \<longleftrightarrow> (\<exists>e. trail' = trail @ [e] \<and> ae_tool e = action \<and> ae_error e = error_of r \<and>
     (ae_status e = StatusError \<longleftrightarrow> ae_error e \<noteq> None))"

lemma service_record_audited:
  "sv_audit env \<Longrightarrow> ae_tool e = action \<Longrightarrow> audited action r trail (service_record env now e (error_of r) trail)"
  by (simp add: audited_def service_record_def)

lemma entry_tool: "ae_tool (add_md k v e) = ae_tool e" "ae_tool (service_entry trace act start i go) = act"
  by (simp_all add: add_md_def service_entry_def)

lemma approval_entry_tool: "ae_tool (approval_entry trace start approver i how md r) = ''grant_approve''"
proof -
  have "ae_tool (foldl (\<lambda>e (k, v). add_md k v e) e md) = ae_tool e" for e
    by (induction md arbitrary: e) (auto simp: entry_tool)
  then show ?thesis by (simp add: approval_entry_def entry_tool)
qed

lemma request_entry_tool: "ae_tool (request_entry trace start uco inp r) = ''request_grant''"
  by (simp add: request_entry_def service_entry_def Let_def split: option.splits)

lemma approveAudited_audited:
  "sv_audit env \<Longrightarrow> approveAudited ops env clk fin trace approver i a how md st = (r, st') \<Longrightarrow>
   audited ''grant_approve'' r (ss_trail st) (ss_trail st')"
  by (auto simp: approveAudited_def intro!: service_record_audited approval_entry_tool split: prod.splits)

lemma end_grant_audited:
  "sv_audit env \<Longrightarrow> end_grant ops env clk trace action gs approver i st = (r, st') \<Longrightarrow> audited action r (ss_trail st) (ss_trail st')"
  by (auto simp: end_grant_def Let_def entry_tool intro!: service_record_audited split: prod.splits)

lemma ApproveSigned_audited:
  assumes "sv_audit env" "ApproveSigned ct verify ops env clk fin trace i sa st = (r, st')"
  shows "audited ''grant_approve'' r (ss_trail st) (ss_trail st')"
proof -
  obtain r1 s where stm: "service_statement ct ops env (clk 1) i (sa_approver sa) (sa_approval sa) (sa_audience sa) (ss_store st) = (r1, s)"
    by fastforce
  let ?r = "bind_res r1 (\<lambda>(sm, ap, addr). case verify addr (sm_text sm) (sa_signature sa) of
      Some err \<Rightarrow> Inl (ErrInvalid (SignatureInvalid err)) | None \<Rightarrow> Inr (sm, ap, addr))"
  show ?thesis
  proof (cases ?r)
    case (Inl e)
    have refused: "audited ''grant_approve'' (Inl e :: (service_error, grant) result) tr (service_record env fin en (Some e) tr)"
      if "ae_tool en = ''grant_approve''" for en tr
      using service_record_audited [OF assms(1) that, of "Inl e"] by (simp add: error_of_def)
    show ?thesis using assms(2) unfolding ApproveSigned_def stm Let_def prod.case Inl sum.case
      by (auto intro!: refused simp: entry_tool)
  next
    case (Inr x)
    obtain sm ap addr where x: "x = (sm, ap, addr)" by (cases x)
    show ?thesis using assms(2) approveAudited_audited [OF assms(1), where st = "st\<lparr>ss_store := s\<rparr>"]
      unfolding ApproveSigned_def stm Let_def prod.case Inr x sum.case by fastforce
  qed
qed

text \<open>C33: with an audit store, every request, approval by key or by signature, denial and revocation adds
  exactly one entry to the trail, under its own action's name, with the call's error and status error
  exactly when the call failed.\<close>

theorem every_action_audited:
  assumes "sv_audit env"
  shows "(\<forall>r st'. Request fr ops env clk trace ri rn uco inp st = (r, st') \<longrightarrow> audited ''request_grant'' r (ss_trail st) (ss_trail st')) \<and>
    (\<forall>r st'. ApproveWith ops env clk fin trace approver i a st = (r, st') \<longrightarrow> audited ''grant_approve'' r (ss_trail st) (ss_trail st')) \<and>
    (\<forall>r st'. ApproveSigned ct verify ops env clk fin trace i sa st = (r, st') \<longrightarrow> audited ''grant_approve'' r (ss_trail st) (ss_trail st')) \<and>
    (\<forall>r st'. Deny ops env clk trace approver i st = (r, st') \<longrightarrow> audited ''grant_deny'' r (ss_trail st) (ss_trail st')) \<and>
    (\<forall>r st'. Revoke ops env clk trace approver i st = (r, st') \<longrightarrow> audited ''grant_revoke'' r (ss_trail st) (ss_trail st'))"
proof (intro conjI allI impI)
  fix r st' assume "Request fr ops env clk trace ri rn uco inp st = (r, st')"
  then show "audited ''request_grant'' r (ss_trail st) (ss_trail st')"
    using assms by (auto simp: Request_def Let_def intro!: service_record_audited request_entry_tool split: prod.splits)
next
  fix r st' assume "ApproveWith ops env clk fin trace approver i a st = (r, st')"
  then show "audited ''grant_approve'' r (ss_trail st) (ss_trail st')"
    unfolding ApproveWith_def by (rule approveAudited_audited [OF assms])
next
  fix r st' assume "ApproveSigned ct verify ops env clk fin trace i sa st = (r, st')"
  then show "audited ''grant_approve'' r (ss_trail st) (ss_trail st')" by (rule ApproveSigned_audited [OF assms])
next
  fix r st' assume "Deny ops env clk trace approver i st = (r, st')"
  then show "audited ''grant_deny'' r (ss_trail st) (ss_trail st')" unfolding Deny_def by (rule end_grant_audited [OF assms])
next
  fix r st' assume "Revoke ops env clk trace approver i st = (r, st')"
  then show "audited ''grant_revoke'' r (ss_trail st) (ss_trail st')" unfolding Revoke_def by (rule end_grant_audited [OF assms])
qed

theorem every_action_audited_witness:
  "\<exists>e. ss_trail (snd (Deny memory_ops demo_env (\<lambda>_. 0) [] ''bob'' ''x'' \<lparr>ss_store = NewMemoryStore, ss_trail = []\<rparr>)) = [e] \<and> ae_tool e = ''grant_deny''"
proof -
  obtain r st' where d: "Deny memory_ops demo_env (\<lambda>_. 0) [] ''bob'' ''x'' \<lparr>ss_store = NewMemoryStore, ss_trail = []\<rparr> = (r, st')" by fastforce
  have "sv_audit demo_env" by (simp add: demo_env_def)
  from every_action_audited [OF this] d have "audited ''grant_deny'' r [] (ss_trail st')" by fastforce
  with d show ?thesis by (auto simp: audited_def)
qed

end
