(* ===== verification/ExecEngine.thy ===== *)
theory ExecEngine
  imports ExecProps EngineProps GrantProps
begin

text \<open>
  The executor with the embedded engine as its authorizer and the grants service as its source of kits:
  what a call that ran can be traced back to, which tools a caller is shown, and which kits a denied
  call is pointed to.
\<close>

section \<open>Remedies\<close>

text \<open>C26: every kit that a refused call is pointed to is one the embedded engine knows and with which the call
  would pass: the kit covers the tool, the check with the caller holding it allows the call, denies
  included, and with a gate the preflight with it passes; without a gate no such kit is left out.\<close>

theorem remedy_kits_help:
  assumes "ex_authorizer ex = Some (engine_authorizer ops e)"
    "denialRemedy ex (engine_authorizer ops e) clk uc r ps s = (names, s')"
  shows "(\<forall>n \<in> set names. \<exists>k \<in> set (emb_kits e). kit_name k = n \<and> Covers k (rq_tool r) (rq_backend r) (rq_access r) \<and>
      Check ops e (withKit r n) = Inr True \<and>
      (\<forall>evs. ex_gate ex = Some evs \<longrightarrow> (\<exists>clk1 s1. fst (gatePreflight evs (emb_kits e) clk1 (Some uc) (withKit r n) ps s1) = []))) \<and>
    (ex_gate ex = None \<longrightarrow> names = map kit_name (filter (\<lambda>k. Covers k (rq_tool r) (rq_backend r) (rq_access r) \<and>
      Check ops e (withKit r (kit_name k)) = Inr True) (emb_kits e)))"
proof -
  let ?az = "engine_authorizer ops e" and ?found = "filter (kit_helps (engine_authorizer ops e) r) (emb_kits e)"
  have kits: "exec_Kits ex = emb_kits e" using assms(1) by (simp add: exec_Kits_def engine_authorizer_def)
  have one: "denied_covered [r] [False] k = (if Covers k (rq_tool r) (rq_backend r) (rq_access r) then [0] else [])" for k
    by (simp add: denied_covered_def)
  have "checkAll ?az [] = []" by (simp add: checkAll_def engine_authorizer_def CheckBatch_def)
  then have found: "ri_kits (hd (assess ?az (emb_kits e) [r] [False] True)) = map kit_name ?found"
    using assess_exact(1) [of "emb_kits e" ?az "[r]" "[False]" 0] engine_checkAll_one [of ops e]
    by (simp add: one engine_authorizer_def assess_def)
  have helps: "kit_helps ?az r k \<longleftrightarrow> Covers k (rq_tool r) (rq_backend r) (rq_access r) \<and> Check ops e (withKit r (kit_name k)) = Inr True" for k
    by (simp add: kit_helps_def engine_authorizer_def)
  then have found': "?found = filter (\<lambda>k. Covers k (rq_tool r) (rq_backend r) (rq_access r) \<and> Check ops e (withKit r (kit_name k)) = Inr True) (emb_kits e)"
    by (auto intro: filter_cong)
  show ?thesis
  proof (cases "ex_gate ex")
    case None
    then have "names = map kit_name ?found" using assms(2) found kits by (simp add: denialRemedy_def Let_def)
    then show ?thesis using None found' by auto
  next
    case (Some evs)
    then obtain ref s1 where "passing_kits evs (emb_kits e) clk (Some uc) r ps (map kit_name ?found) s = (names, ref, s1)"
      using assms(2) found kits by (auto simp: denialRemedy_def Let_def split: prod.splits)
    from passing_kits_sound [OF this] show ?thesis using Some helps by auto
  qed
qed


text \<open>An engine that knows one kit and no grants, on the in-memory server.\<close>

definition kit_policy :: policy where
  "kit_policy = \<lparr>pol_preset = [], pol_source = SourceFile, pol_grants = [], pol_denies = [], pol_kits = [demo_kit], pol_approvers = []\<rparr>"

lemma demo_kit_scopes: "parseKitScope ''mail:read'' = Inr \<lparr>scope_backend = ''mail'', scope_access = ''read''\<rparr>"
  "parseKitScope ''dns'' = Inr \<lparr>scope_backend = ''dns'', scope_access = []\<rparr>"
  by (simp_all add: parseKitScope_def trim_space_name name_chars_def trim_space_def [of "''mail:read''"] runes_of_ascii trim_list_def is_space_def
      cut_def has_prefix_def contains_def scopeAny_def)

lemma demo_kit_valid: "validateKits [demo_kit] = None"
proof -
  have "trim_space ''Operate the mail server'' \<noteq> []" by (simp add: trim_space_def runes_of_ascii trim_list_def is_space_def)
  moreover have "trim_space ''git_push'' = ''git_push''" by (simp add: trim_space_name name_chars_def)
  moreover have "kitNamePattern ''ops''" by (simp add: kitNamePattern_def slug_match_def is_alnum_def)
  moreover have "0 < hour" by (simp add: hour_def)
  moreover have "first_scope_error [''mail:read'', ''dns''] = None" using demo_kit_scopes by simp
  ultimately have "kit_Validate demo_kit = None"
    by (simp add: demo_kit_def kit_Validate_def del: first_scope_error.simps)
  then show ?thesis by (simp add: validateKits_def)
qed

lemma kit_engine_exists: "\<exists>e. engine_holds set e [] [] [demo_kit]"
proof -
  let ?ct = "\<lparr>lower_beyond_ascii = id, upper_beyond_ascii = id\<rparr>"
  have "validateApprovers ?ct (pol_approvers kit_policy) (pol_kits kit_policy) = None" "validateKits (pol_kits kit_policy) = None"
    "\<forall>g \<in> set (pol_grants kit_policy) \<union> set (pol_denies kit_policy). grant_Validate g = None"
    using demo_kit_valid by (simp_all add: kit_policy_def validateApprovers_def)
  from mem.ApplyPolicy_holds [OF this] show ?thesis by (simp add: kit_policy_def) blast
qed

lemma demo_kit_utf8: "utf8_rules [] [] [demo_kit]"
proof -
  have "valid_utf8 ''mail:read''" by (rule valid_utf8_ascii) simp
  then show ?thesis by (simp add: utf8_rules_def utf8_kit_def demo_kit_def valid_utf8_name name_chars_def)
qed

lemma demo_kit_covers: "Covers demo_kit ''dns_add'' ''dns'' access"
  by (simp add: Covers_iff ScopeCovers_def demo_kit_scopes demo_kit_def scope_covers_def)

definition dns_request :: "string list \<Rightarrow> request" where
  "dns_request kits = \<lparr>rq_user_id = ''alice'', rq_company_id = [], rq_plan = [], rq_roles = [], rq_kits = kits, rq_kit_parts = [],
     rq_tool = ''dns_add'', rq_backend = ''dns'', rq_access = []\<rparr>"

lemma dns_request_check:
  assumes "engine_holds set e [] [] [demo_kit]"
  shows "Check mem_fga e (dns_request []) = Inr False" "Check mem_fga e (dns_request [''ops'']) = Inr True"
proof -
  have kits: "emb_kits e = [demo_kit]" using assms by (simp add: engine_holds_def)
  have name: "kit_name demo_kit = ''ops''" by (simp add: demo_kit_def)
  have "Check mem_fga e (dns_request ks) = Inr (spec_allows [] [] [demo_kit] (dns_request ks))" if "ks = [] \<or> ks = [''ops'']" for ks
  proof (rule mem.Check_holds [OF assms demo_kit_utf8])
    show "utf8_request (dns_request ks)" using that by (auto simp: utf8_request_def dns_request_def valid_utf8_name name_chars_def)
    show "length (context_tuples (emb_kits e) (dns_request ks)) \<le> maxContextualTuples"
      using that by (auto simp: context_tuples_def structure_tuples_def identity_tuples_def part_tuples_def part_objects_of_def
          dns_request_def dedup_names_def maxContextualTuples_def Let_def)
  qed (simp_all add: name dns_request_def)
  moreover have "spec_allows [] [] [demo_kit] (dns_request ks) \<longleftrightarrow> ''ops'' \<in> set ks" for ks
    using demo_kit_covers by (simp add: spec_allows_def kit_matches_def name dns_request_def)
  ultimately show "Check mem_fga e (dns_request []) = Inr False" "Check mem_fga e (dns_request [''ops'']) = Inr True" by simp_all
qed

text \<open>An executor on that engine, without a gate, with kits from the grants service.\<close>

definition kit_executor :: "tuple_key list embedded \<Rightarrow> (engine_error, unit, memory_store, nat) executor" where
  "kit_executor e = \<lparr>ex_tables = \<lparr>lower_beyond_ascii = id, upper_beyond_ascii = id\<rparr>, ex_printable = (\<lambda>_. True),
     ex_authorizer = Some (engine_authorizer mem_fga e), ex_creds = None, ex_resolve = Some (\<lambda>_. (''dns'', True)), ex_lookup = None,
     ex_execute = counting_backend, ex_gate = None, ex_audit = True, ex_telemetry = False, ex_metrics = False,
     ex_holder = Some (HeldKits memory_ops demo_env)\<rparr>"

theorem remedy_kits_help_witness:
  "\<exists>e. emb_kits e = [demo_kit] \<and>
     fst (denialRemedy (kit_executor e) (engine_authorizer mem_fga e) (\<lambda>_ _. 0) demo_user (dns_request []) None ()) = [''ops'']"
proof -
  obtain e where e: "engine_holds set e [] [] [demo_kit]" using kit_engine_exists by blast
  then have kits: "emb_kits e = [demo_kit]" by (simp add: engine_holds_def)
  have w: "withKit (dns_request []) ''ops'' = dns_request [''ops'']" by (simp add: withKit_def dns_request_def)
  obtain names s' where d: "denialRemedy (kit_executor e) (engine_authorizer mem_fga e) (\<lambda>_ _. 0) demo_user (dns_request []) None () = (names, s')"
    by (metis prod.collapse)
  have "ex_authorizer (kit_executor e) = Some (engine_authorizer mem_fga e)" "ex_gate (kit_executor e) = None" by (simp_all add: kit_executor_def)
  with remedy_kits_help [OF _ d] have "names = map kit_name (filter (\<lambda>k. Covers k (rq_tool (dns_request [])) (rq_backend (dns_request [])) (rq_access (dns_request [])) \<and>
      Check mem_fga e (withKit (dns_request []) (kit_name k)) = Inr True) (emb_kits e))" by blast
  moreover have "rq_tool (dns_request []) = ''dns_add''" "rq_backend (dns_request []) = ''dns''" "rq_access (dns_request []) = []" "kit_name demo_kit = ''ops''"
    by (simp_all add: dns_request_def demo_kit_def)
  ultimately have "names = [''ops'']" using demo_kit_covers dns_request_check(2) [OF e] w kits by simp
  then show ?thesis using d kits by (metis fst_conv)
qed

section \<open>What a caller is shown\<close>

text \<open>C27: the tools shown to a caller are exactly those whose call the embedded engine would allow, in order,
  although the decision of one check is shared between equivalent tools.\<close>

theorem shown_tools_allowed:
  assumes "fga_reliable ops stored pages" "engine_holds stored e grants denies kits" "validateKits kits = None" "utf8_rules grants denies kits"
    and ex: "ex_authorizer ex = Some (engine_authorizer ops e)"
    and utf8: "\<forall>t \<in> set tools. utf8_request (authzRequest ex uc (td_name t)
        (if td_access t = [] then lookupToolAccess ex (td_name t) else td_access t) (fst (heldKits ex now (Some uc) s)))"
  shows "fst (FilterAuthorizedTools ex now (Some uc) tools s) =
    filter (\<lambda>t. Check ops e (authzRequest ex uc (td_name t) (if td_access t = [] then lookupToolAccess ex (td_name t) else td_access t)
        (fst (heldKits ex now (Some uc) s))) = Inr True) tools"
proof -
  obtain h sh where h: "heldKits ex now (Some uc) s = (h, sh)" by fastforce
  let ?req = "\<lambda>t. authzRequest ex uc (td_name t) (if td_access t = [] then lookupToolAccess ex (td_name t) else td_access t) h"
  have kits: "\<forall>k \<in> set kits. kit_name k \<noteq> []" "distinct (map kit_name kits)"
    using assms(3) kit_Validate_name by (auto simp: validateKits_None)
  have utf: "\<forall>r \<in> set (map ?req tools). utf8_request r" using utf8 h by auto
  have "checkAll (engine_authorizer ops e) (map ?req tools) = map (decision \<circ> Check ops e) (map ?req tools)"
    using fga_reliable.check_batch_eq [OF assms(1,2,4) kits utf, of "[]"] by (simp add: checkAll_def engine_authorizer_def CheckBatch_def)
  moreover have "decision (Check ops e r) = (Check ops e r = Inr True)" for r by (cases "Check ops e r") (auto simp: decision_def)
  moreover have "map fst (filter snd (zip xs (map P xs))) = filter P xs" for P and xs :: "tool_descriptor list" by (induction xs) auto
  ultimately show ?thesis using ex h by (simp add: FilterAuthorizedTools_def authzRequests_def comp_def)
qed

theorem shown_tools_allowed_witness:
  "\<exists>e. fst (FilterAuthorizedTools (kit_executor e) 0 (Some (zero_user_context\<lparr>uc_user_id := ''alice''\<rparr>)) [\<lparr>td_name = ''dns_add'', td_access = []\<rparr>] NewMemoryStore) = []"
proof -
  obtain e where e: "engine_holds set e [] [] [demo_kit]" using kit_engine_exists by blast
  let ?uc = "zero_user_context\<lparr>uc_user_id := ''alice''\<rparr>"
  have r: "authzRequest (kit_executor e) ?uc ''dns_add'' (lookupToolAccess (kit_executor e) ''dns_add'') (fst (heldKits (kit_executor e) 0 (Some ?uc) NewMemoryStore)) = dns_request []"
    by (simp add: authzRequest_def kit_executor_def heldKits_def zero_user_context_def lookupToolAccess_def dns_request_def)
  have "utf8_request (dns_request [])" by (auto simp: utf8_request_def dns_request_def valid_utf8_name name_chars_def)
  then have "fst (FilterAuthorizedTools (kit_executor e) 0 (Some ?uc) [\<lparr>td_name = ''dns_add'', td_access = []\<rparr>] NewMemoryStore) = []"
    using shown_tools_allowed [OF mem.fga_reliable_axioms e demo_kit_valid demo_kit_utf8, of "kit_executor e" "[\<lparr>td_name = ''dns_add'', td_access = []\<rparr>]" ?uc 0 NewMemoryStore]
      dns_request_check(1) [OF e] r by (simp add: kit_executor_def)
  then show ?thesis by blast
qed

section \<open>From the call back to the approval\<close>

lemma call_request_kits:
  assumes "ex_authorizer ex = Some az" "ex_holder ex = Some (HeldKits memory_ops env)"
  shows "rq_kits (call_request ex ck uc tool s) = [] \<and> rq_kit_parts (call_request ex ck uc tool s) = [] \<or>
    (\<exists>s'. HeldKits memory_ops env (ck_held ck) (uc_user_id uc) (GrantBinding uc) s =
       ((rq_kits (call_request ex ck uc tool s), rq_kit_parts (call_request ex ck uc tool s)), s'))"
  using assms by (cases "HeldKits memory_ops env (ck_held ck) (uc_user_id uc) (GrantBinding uc) s")
    (auto simp: call_request_def authzRequest_def heldKits_def split: prod.splits)

text \<open>A kit the caller of a request holds, whole or in part, covers the call.\<close>

definition held_kit_covers :: "request \<Rightarrow> kit \<Rightarrow> bool" where
  "held_kit_covers q k \<longleftrightarrow> (kit_name k \<in> set (rq_kits q) \<and> Covers k (rq_tool q) (rq_backend q) (rq_access q)) \<or>
     (\<exists>p \<in> set (rq_kit_parts q). part_kit p = kit_name k \<and> PartCovers k p (rq_tool q) (rq_backend q) (rq_access q))"

text \<open>C1: a call that reached the backend or returned a result that is no error can be accounted for by the
  policy in effect and the history of approvals: no deny matches it, and either a grant of the policy
  allows it, or a kit covers it that the caller held, whole or in part, at that moment. In the latter
  case an approver with that kit in scope approved it on a request of the same user over the same
  connection, for no longer than the kit allows, and the grant had not expired.\<close>

theorem tool_call_accounted:
  assumes engine: "fga_reliable ops stored pages" "engine_holds stored e grants denies kits" "validateKits kits = None" "utf8_rules grants denies kits"
    and ex: "ex_authorizer ex = Some (engine_authorizer ops e)" "ex_holder ex = Some (HeldKits memory_ops env)"
    and history: "lifecycle memory_ops NewMemoryStore t gst h" "xs_holder st = ss_store gst" "t \<le> ck_held ck"
    and call: "ExecuteTool ex ck trace (Some uc) req st = (r, st')" "xs_backend st' \<noteq> xs_backend st \<or> (\<exists>res. r = Inr res \<and> \<not> tr_is_error res)"
    and q: "q = call_request ex ck uc (xr_tool req) (xs_holder st)" "utf8_request q"
  shows "\<not> (\<exists>d \<in> set denies. rule_matches d q) \<and>
    ((\<exists>g \<in> set grants. rule_matches g q) \<or>
     (\<exists>k \<in> set kits. held_kit_covers q k \<and>
       (\<exists>env' a how g. Approved env' a how g \<in> set h \<and> granted_on h env' a how g \<and> g_kit g = kit_name k \<and>
          g_user_id g = uc_user_id uc \<and> sub_binding (Subject g) = GrantBinding uc \<and> ck_held ck < g_expires_at g)))"
proof -
  have kits: "\<forall>k \<in> set kits. kit_name k \<noteq> []" "distinct (map kit_name kits)"
    using engine(3) kit_Validate_name by (auto simp: validateKits_None)
  have "Check ops e q = Inr True"
    using ExecuteTool_cases(2) [OF call(1)] call(2) ex(1) q(1) by (auto simp: engine_authorizer_def)
  then have "rq_user_id q \<noteq> []" "rq_tool q \<noteq> []" "length (context_tuples (emb_kits e) q) \<le> maxContextualTuples"
    by (auto simp: Check_def Let_def split: if_splits)
  from fga_reliable.Check_holds [OF engine(1,2,4) q(2) kits this] have allowed: "spec_allows grants denies kits q"
    using \<open>Check ops e q = Inr True\<close> by simp
  have approved: "\<exists>env' a how g. Approved env' a how g \<in> set h \<and> granted_on h env' a how g \<and> g_kit g = n \<and>
      g_user_id g = uc_user_id uc \<and> sub_binding (Subject g) = GrantBinding uc \<and> ck_held ck < g_expires_at g"
    if n: "n \<in> set (rq_kits q) \<or> (\<exists>p \<in> set (rq_kit_parts q). part_kit p = n)" for n
  proof -
    obtain s' where "HeldKits memory_ops env (ck_held ck) (uc_user_id uc) (GrantBinding uc) (ss_store gst) = ((rq_kits q, rq_kit_parts q), s')"
      using call_request_kits [OF ex, of ck uc "xr_tool req" "xs_holder st"] n q(1) history(2) by auto
    from held_kit_approved [OF history(1,3) this n] show ?thesis .
  qed
  show ?thesis
  proof (cases "\<exists>g \<in> set grants. rule_matches g q")
    case True
    then show ?thesis using allowed by (simp add: spec_allows_def)
  next
    case False
    then have "kit_matches kits q" using allowed by (simp add: spec_allows_def)
    then obtain k where k: "k \<in> set kits" "held_kit_covers q k" unfolding kit_matches_def held_kit_covers_def by metis
    then have "kit_name k \<in> set (rq_kits q) \<or> (\<exists>p \<in> set (rq_kit_parts q). part_kit p = kit_name k)" by (auto simp: held_kit_covers_def)
    from approved [OF this] k have "\<exists>k \<in> set kits. held_kit_covers q k \<and>
       (\<exists>env' a how g. Approved env' a how g \<in> set h \<and> granted_on h env' a how g \<and> g_kit g = kit_name k \<and>
          g_user_id g = uc_user_id uc \<and> sub_binding (Subject g) = GrantBinding uc \<and> ck_held ck < g_expires_at g)" by blast
    moreover have "\<not> (\<exists>d \<in> set denies. rule_matches d q)" using allowed by (simp add: spec_allows_def)
    ultimately show ?thesis by blast
  qed
qed

text \<open>Alice calls a tool that only the kit she was granted covers.\<close>

lemma kit_call_runs:
  assumes e: "engine_holds set e [] [] [demo_kit]"
    and st: "xs_holder st = \<lparr>by_state = (\<lambda>_. [])(StateActive := [(g_id demo_pending, demo_active)])\<rparr>" and now: "ck_held ck = 0"
  shows "call_request (kit_executor e) ck demo_user ''dns_add'' (xs_holder st) = dns_request [''ops'']"
    "\<exists>res. fst (ExecuteTool (kit_executor e) ck [] (Some demo_user) \<lparr>xr_tool = ''dns_add'', xr_params = None\<rparr> st) = Inr res \<and> \<not> tr_is_error res"
proof -
  have "HeldKits memory_ops demo_env 0 ''alice'' ''cli'' (xs_holder st) = (([''ops''], []), xs_holder st)"
    by (simp add: HeldKits_def activeFor_def memory_ops_def mem_ForSubject_def prune_def st set_state_def sortGrants_def demo_fields
        service_kit_def demo_env_def demo_kit_def [THEN arg_cong, of kit_name] service_IsWhole_def hour_def)
  then have held: "heldKits (kit_executor e) (ck_held ck) (Some demo_user) (xs_holder st) = (\<lparr>held_kits = [''ops''], held_parts = []\<rparr>, xs_holder st)"
    using now by (simp add: heldKits_def kit_executor_def demo_user_def GrantBinding_def zero_user_context_def)
  show q: "call_request (kit_executor e) ck demo_user ''dns_add'' (xs_holder st) = dns_request [''ops'']"
    unfolding call_request_def held fst_conv by (simp add: authzRequest_def kit_executor_def lookupToolAccess_def dns_request_def demo_user_def zero_user_context_def)
  have "az_check (engine_authorizer mem_fga e) (dns_request [''ops'']) = Inr True" using dns_request_check(2) [OF e] by (simp add: engine_authorizer_def)
  moreover have "ex_authorizer (kit_executor e) = Some (engine_authorizer mem_fga e)" "ex_gate (kit_executor e) = None"
    "ex_execute (kit_executor e) = counting_backend" by (simp_all add: kit_executor_def)
  ultimately show "\<exists>res. fst (ExecuteTool (kit_executor e) ck [] (Some demo_user) \<lparr>xr_tool = ''dns_add'', xr_params = None\<rparr> st) = Inr res \<and> \<not> tr_is_error res"
    using q by (simp add: ExecuteTool_def held call_request_def authz_stage_def authorized_call_def pre_stage_def backend_stage_def counting_backend_def
        post_stage_def finish_stage_def with_metadata_def Let_def)
qed

theorem tool_call_accounted_witness:
  "\<exists>env' a how g. Approved env' a how g \<in> set [Requested demo_env demo_user demo_input demo_pending, Approved demo_env demo_approval ApprovedWithKey demo_active] \<and>
     g_kit g = ''ops'' \<and> g_user_id g = ''alice''"
proof -
  let ?h = "[Requested demo_env demo_user demo_input demo_pending, Approved demo_env demo_approval ApprovedWithKey demo_active]"
  obtain gst where gst: "lifecycle memory_ops NewMemoryStore 0 gst ?h"
    "ss_store gst = \<lparr>by_state = (\<lambda>_. [])(StateActive := [(g_id demo_pending, demo_active)])\<rparr>" using demo_history by blast
  obtain e where e: "engine_holds set e [] [] [demo_kit]" using kit_engine_exists by blast
  let ?st = "\<lparr>xs_gate = (), xs_holder = ss_store gst, xs_backend = 0 :: nat, xs_trail = [], xs_telemetry = [], xs_metrics = []\<rparr>"
  have now: "ck_held demo_clock = 0" by (simp add: demo_clock_def)
  have st: "xs_holder ?st = ss_store gst" by simp
  note run = kit_call_runs [OF e, of ?st demo_clock, unfolded st, OF gst(2) now]
  obtain r st' where call: "ExecuteTool (kit_executor e) demo_clock [] (Some demo_user) \<lparr>xr_tool = ''dns_add'', xr_params = None\<rparr> ?st = (r, st')" by (metis prod.collapse)
  have ex: "ex_authorizer (kit_executor e) = Some (engine_authorizer mem_fga e)" "ex_holder (kit_executor e) = Some (HeldKits memory_ops demo_env)"
    by (simp_all add: kit_executor_def)
  have ok: "xs_backend st' \<noteq> xs_backend ?st \<or> (\<exists>res. r = Inr res \<and> \<not> tr_is_error res)" using run(2) call by auto
  have q: "dns_request [''ops''] = call_request (kit_executor e) demo_clock demo_user (xr_tool \<lparr>xr_tool = ''dns_add'', xr_params = None\<rparr>) (xs_holder ?st)"
    using run(1) by simp
  have utf: "utf8_request (dns_request [''ops''])" by (auto simp: utf8_request_def dns_request_def valid_utf8_name name_chars_def)
  have t: "0 \<le> ck_held demo_clock" by (simp add: now)
  from tool_call_accounted [OF mem.fga_reliable_axioms e demo_kit_valid demo_kit_utf8 ex gst(1) st t call ok q utf]
  obtain k env' a how g where "k \<in> set [demo_kit]" "Approved env' a how g \<in> set ?h" "g_kit g = kit_name k" "g_user_id g = uc_user_id demo_user"
    by (elim conjE disjE bexE exE) (simp, blast+)
  moreover have "kit_name demo_kit = ''ops''" "uc_user_id demo_user = ''alice''" by (simp_all add: demo_kit_def demo_user_def)
  ultimately show ?thesis by auto
qed

end
