(* ===== verification/ToolRefs.thy ===== *)
theory ToolRefs
  imports Gate "HOL-Library.Product_Lexorder"
begin

text \<open>
  The startup check for policies that name tools that do not exist (\<open>internal/gate/toolrefs.go\<close>): a scanner
  for the string literals of a JavaScript source, the comparison contexts as regular expressions, and
  the suggestions by prefix and edit distance. Offsets are byte positions in the source; the loops
  advance them and end at the length of the source.
\<close>

section \<open>Scanner\<close>

function skipLineComment :: "string \<Rightarrow> nat \<Rightarrow> nat" where
  "skipLineComment src i = (if i < length src \<and> src ! i \<noteq> nl then skipLineComment src (Suc i) else i)"
  by pat_completeness auto
termination by (relation "measure (\<lambda>(src, i). length src - i)") auto

function skipBlockComment :: "string \<Rightarrow> nat \<Rightarrow> nat" where
  "skipBlockComment src i =
     (if i + 1 < length src
      then if src ! i = CHR ''*'' \<and> src ! (i + 1) = CHR ''/'' then i + 2 else skipBlockComment src (Suc i)
      else length src)"
  by pat_completeness auto
termination by (relation "measure (\<lambda>(src, i). length src - i)") auto

definition regexCanFollow :: "char option \<Rightarrow> bool" where
  "regexCanFollow lastCode = (case lastCode of None \<Rightarrow> True | Some c \<Rightarrow> c \<in> set ''([{,;:=!&|?+-*%<>~^'')"

text \<open>An escaped byte at the very end takes the offset one past the end of the source.\<close>

function skipRegex :: "string \<Rightarrow> bool \<Rightarrow> nat \<Rightarrow> nat" where
  "skipRegex src inClass i =
     (if i < length src then
        (let c = src ! i in
         if c = CHR 0x5C then skipRegex src inClass (i + 2)
         else if c = CHR ''['' then skipRegex src True (Suc i)
         else if c = CHR '']'' then skipRegex src False (Suc i)
         else if c = CHR ''/'' \<and> \<not> inClass then Suc i
         else if c = nl then i
         else skipRegex src inClass (Suc i))
      else i)"
  by pat_completeness auto
termination by (relation "measure (\<lambda>(src, inClass, i). length src - i)") auto

function quoted_end :: "string \<Rightarrow> char \<Rightarrow> nat \<Rightarrow> nat option" where
  "quoted_end src q i =
     (if i < length src then
        (if src ! i = CHR 0x5C then quoted_end src q (i + 2)
         else if src ! i = q then Some i
         else quoted_end src q (Suc i))
      else None)"
  by pat_completeness auto
termination by (relation "measure (\<lambda>(src, q, i). length src - i)") auto

definition slice :: "string \<Rightarrow> nat \<Rightarrow> nat \<Rightarrow> string" where
  "slice s i j = take (j - i) (drop i s)"

definition scanQuoted :: "string \<Rightarrow> nat \<Rightarrow> string \<times> nat" where
  "scanQuoted src start = (case quoted_end src (src ! start) (Suc start) of
     Some i \<Rightarrow> (slice src (Suc start) i, Suc i)
   | None \<Rightarrow> (drop (Suc start) src, length src))"

record string_literal =
  sl_value :: string
  sl_start :: nat
  sl_end :: nat

declare skipLineComment.simps [simp del] skipBlockComment.simps [simp del] skipRegex.simps [simp del] quoted_end.simps [simp del]

lemma skipLineComment_ge: "i \<le> skipLineComment src i"
proof (induction src i rule: skipLineComment.induct)
  case (1 src i)
  then show ?case by (subst skipLineComment.simps) (auto dest: Suc_leD)
qed

lemma skipBlockComment_ge: "i \<le> length src \<Longrightarrow> i \<le> skipBlockComment src i \<and> skipBlockComment src i \<le> length src"
proof (induction src i rule: skipBlockComment.induct)
  case (1 src i)
  then show ?case by (subst (1 2) skipBlockComment.simps) (auto simp: Suc_le_eq)
qed

lemma skipRegex_ge: "i \<le> skipRegex src inClass i"
proof (induction src inClass i rule: skipRegex.induct)
  case (1 src inClass i)
  then show ?case by (subst skipRegex.simps) (auto simp: Let_def nl_def dest: Suc_leD)
qed

lemma quoted_end_bounds: "quoted_end src q i = Some j \<Longrightarrow> i \<le> j \<and> j < length src \<and> src ! j = q"
proof (induction src q i rule: quoted_end.induct)
  case (1 src q i)
  from 1(3) show ?case by (subst (asm) quoted_end.simps) (use 1(1,2) in \<open>auto split: if_splits\<close>)
qed

lemma scanQuoted_bounds: "start < length src \<Longrightarrow> start < snd (scanQuoted src start) \<and> snd (scanQuoted src start) \<le> length src"
  by (auto simp: scanQuoted_def dest!: quoted_end_bounds split: option.splits)

definition starts_with :: "string \<Rightarrow> nat \<Rightarrow> char \<Rightarrow> char \<Rightarrow> bool" where
  "starts_with src i a b \<longleftrightarrow> src ! i = a \<and> i + 1 < length src \<and> src ! (i + 1) = b"

function scan_literals :: "string \<Rightarrow> char option \<Rightarrow> nat \<Rightarrow> string_literal list" where
  "scan_literals src lastCode i =
     (if i < length src then
        (let c = src ! i in
         if starts_with src i (CHR ''/'') (CHR ''/'') then scan_literals src lastCode (skipLineComment src (i + 2))
         else if starts_with src i (CHR ''/'') (CHR ''*'') then scan_literals src lastCode (skipBlockComment src (i + 2))
         else if c = CHR ''/'' \<and> regexCanFollow lastCode then scan_literals src (Some (CHR ''/'')) (skipRegex src False (i + 1))
         else if c = CHR 0x27 \<or> c = CHR 0x22 \<or> c = CHR 0x60 then
           (let (v, n) = scanQuoted src i in \<lparr>sl_value = v, sl_start = i, sl_end = n\<rparr> # scan_literals src (Some c) n)
         else scan_literals src (if c = CHR '' '' \<or> c = CHR 0x09 \<or> c = nl \<or> c = CHR 0x0D then lastCode else Some c) (Suc i))
      else [])"
  by pat_completeness auto
termination
proof (relation "measure (\<lambda>(src, lastCode, i). length src - i)", goal_cases)
  case (2 src lastCode i x)
  then show ?case using skipLineComment_ge [of "i + 2" src] by simp
next
  case (3 src lastCode i x)
  then show ?case using skipBlockComment_ge [of "i + 2" src] by (auto simp: starts_with_def)
next
  case (4 src lastCode i x)
  then show ?case using skipRegex_ge [of "i + 1" src False] by simp
next
  case (5 src lastCode i x y v n)
  then show ?case using scanQuoted_bounds [of i src] by (cases "scanQuoted src i") auto
qed auto

declare scan_literals.simps [simp del]

definition scanStringLiterals :: "string \<Rightarrow> string_literal list" where
  "scanStringLiterals src = scan_literals src None 0"

text \<open>Where a literal of a source may lie: from an opening quote to just past the closing one, or to the end.\<close>

definition literal_at :: "string \<Rightarrow> nat \<Rightarrow> string_literal \<Rightarrow> bool" where
  "literal_at src i l \<longleftrightarrow> i \<le> sl_start l \<and> sl_start l < sl_end l \<and> sl_end l \<le> length src \<and>
     src ! sl_start l \<in> {CHR 0x27, CHR 0x22, CHR 0x60} \<and>
     (sl_value l = slice src (Suc (sl_start l)) (sl_end l - 1) \<and> src ! (sl_end l - 1) = src ! sl_start l \<or>
      sl_value l = drop (Suc (sl_start l)) src \<and> sl_end l = length src)"

lemma scanQuoted_literal:
  assumes "i < length src" "src ! i \<in> {CHR 0x27, CHR 0x22, CHR 0x60}" "scanQuoted src i = (v, n)"
  shows "literal_at src i \<lparr>sl_value = v, sl_start = i, sl_end = n\<rparr>"
  using assms scanQuoted_bounds [OF assms(1)]
  by (auto simp: literal_at_def scanQuoted_def dest!: quoted_end_bounds split: option.splits)

lemma literal_at_mono: "literal_at src j l \<Longrightarrow> i \<le> j \<Longrightarrow> literal_at src i l"
  by (auto simp: literal_at_def)

lemma scan_literals_sound:
  "(\<forall>l \<in> set (scan_literals src lastCode i). literal_at src i l) \<and>
   sorted_wrt (\<lambda>l m. sl_end l \<le> sl_start m) (scan_literals src lastCode i)"
proof (induction src lastCode i rule: scan_literals.induct)
  case (1 src lastCode i)
  define good where "good j ls \<longleftrightarrow> (\<forall>l \<in> set ls. literal_at src j l) \<and> sorted_wrt (\<lambda>l m. sl_end l \<le> sl_start m) ls" for j ls
  have later: "good j ls \<Longrightarrow> i \<le> j \<Longrightarrow> good i ls" for j ls using literal_at_mono by (auto simp: good_def)
  note ih = 1 [folded good_def]
  have "good i (scan_literals src lastCode i)"
  proof (cases "i < length src")
    case False
    then show ?thesis by (subst scan_literals.simps) (simp add: good_def)
  next
    case True
    consider (line) "starts_with src i (CHR ''/'') (CHR ''/'')"
      | (block) "\<not> starts_with src i (CHR ''/'') (CHR ''/'')" "starts_with src i (CHR ''/'') (CHR ''*'')"
      | (regex) "\<not> starts_with src i (CHR ''/'') (CHR ''/'')" "\<not> starts_with src i (CHR ''/'') (CHR ''*'')" "src ! i = CHR ''/''" "regexCanFollow lastCode"
      | (quote) "\<not> starts_with src i (CHR ''/'') (CHR ''/'')" "\<not> starts_with src i (CHR ''/'') (CHR ''*'')" "\<not> (src ! i = CHR ''/'' \<and> regexCanFollow lastCode)"
          "src ! i = CHR 0x27 \<or> src ! i = CHR 0x22 \<or> src ! i = CHR 0x60"
      | (other) "\<not> starts_with src i (CHR ''/'') (CHR ''/'')" "\<not> starts_with src i (CHR ''/'') (CHR ''*'')" "\<not> (src ! i = CHR ''/'' \<and> regexCanFollow lastCode)"
          "\<not> (src ! i = CHR 0x27 \<or> src ! i = CHR 0x22 \<or> src ! i = CHR 0x60)" by blast
    then show ?thesis
    proof cases
      case line
      then show ?thesis using True ih(1) [OF True refl line] skipLineComment_ge [of "i + 2" src]
        by (subst scan_literals.simps) (auto simp: Let_def intro!: later)
    next
      case block
      then have "i + 2 \<le> skipBlockComment src (i + 2)" using skipBlockComment_ge [of "i + 2" src] by (auto simp: starts_with_def)
      then show ?thesis using True block ih(2) [OF True refl block]
        by (subst scan_literals.simps) (auto simp: Let_def intro!: later)
    next
      case regex
      then show ?thesis using True ih(3) [OF True refl regex(1,2)] skipRegex_ge [of "i + 1" src False]
        by (subst scan_literals.simps) (auto simp: Let_def intro!: later)
    next
      case quote
      obtain v n where q: "scanQuoted src i = (v, n)" by fastforce
      have l: "literal_at src i \<lparr>sl_value = v, sl_start = i, sl_end = n\<rparr>" using scanQuoted_literal [OF True _ q] quote(4) by auto
      have g: "good n (scan_literals src (Some (src ! i)) n)" using ih(4) [OF True refl quote(1-3) quote(4)] q by simp
      have "scan_literals src lastCode i = \<lparr>sl_value = v, sl_start = i, sl_end = n\<rparr> # scan_literals src (Some (src ! i)) n"
        using True quote q by (subst scan_literals.simps) (auto simp: Let_def)
      moreover have "i < n" using l by (simp add: literal_at_def)
      moreover have "sl_end \<lparr>sl_value = v, sl_start = i, sl_end = n\<rparr> \<le> sl_start m" if "m \<in> set (scan_literals src (Some (src ! i)) n)" for m
        using g that by (auto simp: good_def literal_at_def)
      ultimately show ?thesis using l g literal_at_mono [of src n _ i] by (auto simp: good_def)
    next
      case other
      have "good (Suc i) (scan_literals src (if src ! i = CHR '' '' \<or> src ! i = CHR 0x09 \<or> src ! i = nl \<or> src ! i = CHR 0x0D then lastCode else Some (src ! i)) (Suc i))"
        using ih(5) [OF True refl other] .
      then show ?thesis using True other by (subst scan_literals.simps) (auto simp: Let_def later)
    qed
  qed
  then show ?case by (simp add: good_def)
qed

text \<open>The literals found in a policy source lie inside it, in order and without overlap: each starts at a
  quote and its value is the text up to the same closing quote, or to the end of the source. So the
  windows cut around a literal are in range, whatever the source.\<close>

theorem literals_in_range:
  "(\<forall>l \<in> set (scanStringLiterals src). literal_at src 0 l) \<and>
   sorted_wrt (\<lambda>l m. sl_end l \<le> sl_start m) (scanStringLiterals src)"
  unfolding scanStringLiterals_def by (rule scan_literals_sound)

theorem literals_in_range_witness:
  "\<exists>l. scanStringLiterals [CHR 0x22, CHR ''a'', CHR 0x22] = [l] \<and> literal_at [CHR 0x22, CHR ''a'', CHR 0x22] 0 l"
proof -
  let ?s = "[CHR 0x22, CHR ''a'', CHR 0x22]"
  have "scanStringLiterals ?s = [\<lparr>sl_value = ''a'', sl_start = 0, sl_end = 3\<rparr>]"
    by (simp add: scanStringLiterals_def scan_literals.simps starts_with_def scanQuoted_def quoted_end.simps slice_def eval_nat_numeral)
  then show ?thesis using literals_in_range [of ?s] by auto
qed

section \<open>Regular expressions\<close>

text \<open>\<open>MatchString\<close> of the patterns of the source, over bytes: a pattern without an anchor is preceded or
  followed by anything.\<close>

datatype re = REmpty | REps | RSet "char \<Rightarrow> bool" | RSeq re re | RAlt re re | RStar re

fun re_nullable :: "re \<Rightarrow> bool" where
  "re_nullable REmpty = False"
| "re_nullable REps = True"
| "re_nullable (RSet P) = False"
| "re_nullable (RSeq r s) = (re_nullable r \<and> re_nullable s)"
| "re_nullable (RAlt r s) = (re_nullable r \<or> re_nullable s)"
| "re_nullable (RStar r) = True"

fun re_deriv :: "re \<Rightarrow> char \<Rightarrow> re" where
  "re_deriv REmpty c = REmpty"
| "re_deriv REps c = REmpty"
| "re_deriv (RSet P) c = (if P c then REps else REmpty)"
| "re_deriv (RSeq r s) c = (if re_nullable r then RAlt (RSeq (re_deriv r c) s) (re_deriv s c) else RSeq (re_deriv r c) s)"
| "re_deriv (RAlt r s) c = RAlt (re_deriv r c) (re_deriv s c)"
| "re_deriv (RStar r) c = RSeq (re_deriv r c) (RStar r)"

definition re_match :: "re \<Rightarrow> string \<Rightarrow> bool" where
  "re_match r s = re_nullable (foldl re_deriv r s)"

definition re_text :: "string \<Rightarrow> re" where
  "re_text s = foldr (\<lambda>c r. RSeq (RSet (\<lambda>d. d = c)) r) s REps"

definition re_plus :: "re \<Rightarrow> re" where "re_plus r = RSeq r (RStar r)"
definition re_opt :: "re \<Rightarrow> re" where "re_opt r = RAlt REps r"
definition re_any :: re where "re_any = RStar (RSet (\<lambda>_. True))"

definition word_char :: "char \<Rightarrow> bool" where
  "word_char c \<longleftrightarrow> (let b = byte_of c :: nat in (48 \<le> b \<and> b \<le> 57) \<or> (65 \<le> b \<and> b \<le> 90) \<or> (97 \<le> b \<and> b \<le> 122) \<or> b = 95)"

definition space_char :: "char \<Rightarrow> bool" where
  "space_char c \<longleftrightarrow> (let b = byte_of c :: nat in b = 9 \<or> b = 10 \<or> b = 12 \<or> b = 13 \<or> b = 32)"

definition re_spaces :: re where "re_spaces = RStar (RSet space_char)"

text \<open>\<open>(?:[\w$]+\s*\.\s*)?tool\<close>\<close>

definition re_tool :: re where
  "re_tool = RSeq (re_opt (RSeq (re_plus (RSet (\<lambda>c. word_char c \<or> c = CHR ''$''))) (RSeq re_spaces (RSeq (re_text ''.'') re_spaces)))) (re_text ''tool'')"

text \<open>\<open>[!=]==?\<close>\<close>

definition re_compare :: re where
  "re_compare = RSeq (RSet (\<lambda>c. c = CHR ''!'' \<or> c = CHR ''='')) (RSeq (re_text ''='') (re_opt (re_text ''='')))"

definition toolCmpBefore :: re where
  "toolCmpBefore = RSeq (RAlt REps (RSeq re_any (RSet (\<lambda>c. \<not> word_char c \<and> c \<noteq> CHR ''$'' \<and> c \<noteq> CHR ''.''))))
     (RSeq re_tool (RSeq re_spaces (RSeq re_compare re_spaces)))"

definition toolCmpAfter :: re where
  "toolCmpAfter = RSeq re_spaces (RSeq re_compare (RSeq re_spaces (RSeq re_tool
     (RAlt REps (RSeq (RSet (\<lambda>c. \<not> word_char c)) re_any)))))"

definition caseBefore :: re where
  "caseBefore = RSeq (RAlt REps (RSeq re_any (RSet (\<lambda>c. \<not> word_char c \<and> c \<noteq> CHR ''$''))))
     (RSeq (re_text ''case'') (re_plus (RSet space_char)))"

definition switchOnTool :: re where
  "switchOnTool = RSeq re_any (RSeq (re_text ''switch'') (RSeq re_spaces (RSeq (re_text ''('') (RSeq re_spaces
     (RSeq re_tool (RSeq re_spaces (RSeq (re_text '')'') re_any)))))))"

definition name_char :: "char \<Rightarrow> bool" where
  "name_char c \<longleftrightarrow> (let b = byte_of c :: nat in (48 \<le> b \<and> b \<le> 57) \<or> (97 \<le> b \<and> b \<le> 122))"

definition toolNameShape :: re where
  "toolNameShape = (let rest = RSet (\<lambda>c. name_char c \<or> c = CHR ''_'' \<or> c = CHR ''-'') in
     RSeq (RSet name_char) (RSeq (RStar rest) (RSeq (re_text ''_'') (re_plus rest))))"

section \<open>Candidates\<close>

definition cmpWindow :: nat where "cmpWindow = 64"

definition isToolComparison :: "string \<Rightarrow> string_literal \<Rightarrow> bool" where
  "isToolComparison src l =
     (let before = slice src (sl_start l - cmpWindow) (sl_start l);
          after = slice src (sl_end l) (min (length src) (sl_end l + cmpWindow))
      in if re_match toolCmpBefore before \<or> re_match toolCmpAfter after then True
         else re_match caseBefore before \<and> re_match switchOnTool src)"

definition backend_prefix :: "string \<Rightarrow> string option" where
  "backend_prefix name = (case index_of name ''_'' of Some (Suc i) \<Rightarrow> Some (take (Suc i) name) | _ \<Rightarrow> None)"

definition is_candidate :: "string \<Rightarrow> string list \<Rightarrow> string_literal \<Rightarrow> bool" where
  "is_candidate src prefixes l \<longleftrightarrow> sl_value l \<noteq> [] \<and> (isToolComparison src l \<or>
     (re_match toolNameShape (sl_value l) \<and> (case backend_prefix (sl_value l) of None \<Rightarrow> False | Some p \<Rightarrow> p \<in> set prefixes)))"

fun candidates :: "string \<Rightarrow> string list \<Rightarrow> string list \<Rightarrow> string_literal list \<Rightarrow> string list" where
  "candidates src prefixes seen [] = []"
| "candidates src prefixes seen (l # ls) =
     (if sl_value l \<notin> set seen \<and> is_candidate src prefixes l
      then sl_value l # candidates src prefixes (sl_value l # seen) ls
      else candidates src prefixes seen ls)"

definition toolNameCandidates :: "string \<Rightarrow> string list \<Rightarrow> string list" where
  "toolNameCandidates src prefixes = candidates src prefixes [] (scanStringLiterals src)"

section \<open>Edit distance\<close>

text \<open>One row of the table from the one above it: \<open>next_cells x b prev c\<close> are the cells after the one with value \<open>c\<close>.\<close>

fun next_cells :: "'a \<Rightarrow> 'a list \<Rightarrow> nat list \<Rightarrow> nat \<Rightarrow> nat list" where
  "next_cells x (y # b) (p # q # prev) c =
     (let v = min (q + 1) (min (c + 1) (p + (if x = y then 0 else 1))) in v # next_cells x b (q # prev) v)"
| "next_cells x _ _ c = []"

fun lev_rows :: "'a list \<Rightarrow> 'a list \<Rightarrow> nat \<Rightarrow> nat list \<Rightarrow> nat list" where
  "lev_rows [] b i prev = prev"
| "lev_rows (x # a) b i prev = lev_rows a b (Suc i) (i # next_cells x b prev i)"

definition levenshtein :: "'a list \<Rightarrow> 'a list \<Rightarrow> nat" where
  "levenshtein a b = (if a = b then 0 else lev_rows a b 1 [0..<Suc (length b)] ! length b)"

section \<open>Suggestions\<close>

definition maxCloseMatches :: nat where "maxCloseMatches = 3"
definition maxEditDistance :: nat where "maxEditDistance = 3"

definition match_score :: "string \<Rightarrow> string \<Rightarrow> nat option" where
  "match_score literal t =
     (if has_prefix t literal \<or> has_prefix literal t
      then Some (if length t < length literal then length literal - length t else length t - length literal)
      else if levenshtein literal t \<le> maxEditDistance then Some (100 + levenshtein literal t) else None)"

definition closeMatches :: "string \<Rightarrow> string list \<Rightarrow> nat \<Rightarrow> string list" where
  "closeMatches literal registered limit =
     map snd (take limit (sort (List.map_filter (\<lambda>t. map_option (\<lambda>d. (d, t)) (match_score literal t)) registered)))"

record unknown_ref =
  ur_policy :: string
  ur_literal :: string
  ur_matches :: "string list"

definition unknownToolRefs :: "gate_policy list \<Rightarrow> string list \<Rightarrow> unknown_ref list" where
  "unknownToolRefs policies registered =
     (if registered = [] then []
      else (let prefixes = List.map_filter backend_prefix registered in
        concat (map (\<lambda>p. map (\<lambda>l. \<lparr>ur_policy = gp_name p, ur_literal = l, ur_matches = closeMatches l registered maxCloseMatches\<rparr>)
          (filter (\<lambda>l. l \<notin> set registered) (toolNameCandidates (gp_source p) prefixes))) policies)))"

section \<open>The edit distance is the least number of edits\<close>

text \<open>\<open>align a b n\<close>: \<open>n\<close> insertions, deletions and replacements of bytes turn \<open>a\<close> into \<open>b\<close>.\<close>

inductive align :: "'a list \<Rightarrow> 'a list \<Rightarrow> nat \<Rightarrow> bool" where
  align_nil: "align [] [] 0"
| align_insert: "align a b n \<Longrightarrow> align a (y # b) (Suc n)"
| align_delete: "align a b n \<Longrightarrow> align (x # a) b (Suc n)"
| align_pair: "align a b n \<Longrightarrow> align (x # a) (y # b) (n + (if x = y then 0 else 1))"

fun lev :: "'a list \<Rightarrow> 'a list \<Rightarrow> nat" where
  "lev [] b = length b"
| "lev (x # a) [] = Suc (length a)"
| "lev (x # a) (y # b) = min (lev a (y # b) + 1) (min (lev (x # a) b + 1) (lev a b + (if x = y then 0 else 1)))"

lemma lev_Nil [simp]: "lev a [] = length a"
  by (cases a) simp_all

lemma align_lev: "align a b (lev a b)"
proof (induction a b rule: lev.induct)
  case (1 b)
  show ?case by (induction b) (auto intro: align.intros)
next
  case (2 x a)
  have "align a [] (length a)" by (induction a) (auto intro: align.intros)
  then show ?case by (auto intro: align.intros)
next
  case (3 x a y b)
  consider "lev (x # a) (y # b) = Suc (lev a (y # b))" | "lev (x # a) (y # b) = Suc (lev (x # a) b)"
    | "lev (x # a) (y # b) = lev a b + (if x = y then 0 else 1)" unfolding lev.simps(3) min_def by (metis Suc_eq_plus1)
  then show ?case
  proof cases
    case 3
    show ?thesis using align_pair [OF \<open>align a b (lev a b)\<close>, of x y] 3 by simp
  qed (use 3(1,2) in \<open>auto intro: align.intros simp del: lev.simps\<close>)
qed

lemma lev_least: "align a b n \<Longrightarrow> lev a b \<le> n"
proof (induction rule: align.induct)
  case (align_insert a b n y)
  show ?case using align_insert.IH by (cases a) auto
next
  case (align_delete a b n x)
  show ?case using align_delete.IH by (cases b) auto
next
  case (align_pair a b n x y)
  then show ?case by (auto simp: min_def)
qed simp

lemma align_append: "align a b n \<Longrightarrow> align c d m \<Longrightarrow> align (a @ c) (b @ d) (n + m)"
proof (induction rule: align.induct)
  case (align_pair a b n x y)
  then have "align (a @ c) (b @ d) (n + m)" by simp
  from align.align_pair [OF this, of x y] show ?case by (simp add: ac_simps)
qed (auto intro: align.intros)

lemma align_rev: "align a b n \<Longrightarrow> align (rev a) (rev b) n"
proof (induction rule: align.induct)
  case (align_insert a b n y)
  then show ?case using align_append [OF align_insert.IH, of "[]" "[y]" 1] by (auto intro: align.intros)
next
  case (align_delete a b n x)
  then show ?case using align_append [OF align_delete.IH, of "[x]" "[]" 1] by (auto intro: align.intros)
next
  case (align_pair a b n x y)
  have "align [x] [y] (if x = y then 0 else 1)" using align.align_pair [OF align_nil, of x y] by simp
  from align_append [OF align_pair.IH this] show ?case by simp
qed (auto intro: align.intros)

lemma lev_rev: "lev (rev a) (rev b) = lev a b"
  by (metis align_lev align_rev lev_least order_antisym rev_rev_ident)

text \<open>The rows of the table, over reversed prefixes.\<close>

definition lev_row :: "'a list \<Rightarrow> 'a list \<Rightarrow> 'a list \<Rightarrow> nat list" where
  "lev_row ra done b = map (\<lambda>j. lev ra (rev (done @ take j b))) [0..<Suc (length b)]"

lemma lev_row_Cons: "lev_row ra done (y # b) = lev ra (rev done) # lev_row ra (done @ [y]) b"
proof -
  have "[0..<Suc (length (y # b))] = 0 # map Suc [0..<Suc (length b)]" by (simp add: map_Suc_upt upt_conv_Cons del: upt_Suc)
  then show ?thesis by (simp add: lev_row_def del: upt_Suc)
qed

lemma lev_row_hd: "\<exists>rest. lev_row ra done b = lev ra (rev done) # rest"
proof (cases b)
  case Nil
  then show ?thesis by (simp add: lev_row_def)
qed (simp add: lev_row_Cons)

lemma next_cells_row:
  "lev (x # ra) (rev done) # next_cells x b (lev_row ra done b) (lev (x # ra) (rev done)) = lev_row (x # ra) done b"
proof (induction b arbitrary: "done")
  case Nil
  then show ?case by (simp add: lev_row_def)
next
  case (Cons y b)
  obtain rest where rest: "lev_row ra (done @ [y]) b = lev ra (rev (done @ [y])) # rest" using lev_row_hd by blast
  have v: "min (lev ra (y # rev done) + 1) (min (lev (x # ra) (rev done) + 1) (lev ra (rev done) + (if x = y then 0 else 1))) = lev (x # ra) (rev (done @ [y]))"
    by simp
  have "next_cells x (y # b) (lev_row ra done (y # b)) (lev (x # ra) (rev done)) =
      lev (x # ra) (rev (done @ [y])) # next_cells x b (lev_row ra (done @ [y]) b) (lev (x # ra) (rev (done @ [y])))"
    using v rest by (simp add: lev_row_Cons Let_def del: lev.simps)
  then show ?case using Cons.IH [of "done @ [y]"] by (simp add: lev_row_Cons del: lev.simps)
qed

lemma lev_rows_row: "lev_rows a b (Suc (length ra)) (lev_row ra [] b) = lev_row (rev a @ ra) [] b"
proof (induction a arbitrary: ra)
  case (Cons x a)
  have "Suc (length ra) # next_cells x b (lev_row ra [] b) (Suc (length ra)) = lev_row (x # ra) [] b"
    using next_cells_row [of x ra "[]" b] by simp
  then show ?case using Cons.IH [of "x # ra"] by simp
qed simp

lemma lev_self: "lev a a = 0"
  by (induction a) auto

lemma lev_rows_lev: "lev_rows a b 1 [0..<Suc (length b)] ! length b = lev a b"
proof -
  have "map (\<lambda>j. lev [] (rev ([] @ take j b))) [0..<Suc (length b)] = [0..<Suc (length b)]"
    by (rule map_idI) auto
  then have "[0..<Suc (length b)] = lev_row [] [] b" by (simp only: lev_row_def)
  then have "lev_rows a b 1 [0..<Suc (length b)] = lev_row (rev a) [] b" using lev_rows_row [of a b "[]"] by simp
  moreover have "lev_row (rev a) [] b ! length b = lev (rev a) (rev b)" by (simp add: lev_row_def del: upt_Suc)
  ultimately show ?thesis by (simp add: lev_rev)
qed

lemma levenshtein_lev: "levenshtein a b = lev a b"
  by (simp add: levenshtein_def lev_rows_lev lev_self del: upt_Suc One_nat_def)

text \<open>The two-row table computes the least number of insertions, deletions and replacements of a byte
  that turn one name into the other.\<close>

theorem levenshtein_least_edits:
  "align a b (levenshtein a b) \<and> (\<forall>n. align a b n \<longrightarrow> levenshtein a b \<le> n)"
  by (simp add: levenshtein_lev align_lev lev_least)

theorem levenshtein_least_edits_witness:
  "align ''get'' ''git'' 1 \<and> levenshtein ''get'' ''git'' \<le> 1"
proof -
  have "align ''get'' ''git'' 1"
    using align_pair [OF align_pair [OF align_pair [OF align_nil, of "CHR ''t''" "CHR ''t''"], of "CHR ''e''" "CHR ''i''"], of "CHR ''g''" "CHR ''g''"] by simp
  then show ?thesis using levenshtein_least_edits [of "''get''" "''git''"] by blast
qed

section \<open>What is reported\<close>

lemma candidates_set:
  "set (candidates src prefixes seen ls) = {v. v \<notin> set seen \<and> (\<exists>l \<in> set ls. sl_value l = v \<and> is_candidate src prefixes l)}"
  by (induction ls arbitrary: seen) auto

lemma distinct_candidates: "distinct (candidates src prefixes seen ls)"
  by (induction ls arbitrary: seen) (auto simp: candidates_set)

lemma closeMatches_facts: "set (closeMatches l registered n) \<subseteq> set registered \<and> length (closeMatches l registered n) \<le> n"
  by (auto simp: closeMatches_def List.map_filter_def dest!: in_set_takeD split: option.splits)

text \<open>With tools registered, a policy is warned about exactly for its literals that are compared with the
  tool or look like a tool of a registered backend and are no registered name, each once, with at
  most three suggestions, all of them registered.\<close>

theorem unknown_refs_exact:
  assumes "registered \<noteq> []"
  shows "map ur_literal (unknownToolRefs [p] registered) =
      filter (\<lambda>v. v \<notin> set registered) (toolNameCandidates (gp_source p) (List.map_filter backend_prefix registered)) \<and>
    distinct (map ur_literal (unknownToolRefs [p] registered)) \<and>
    (\<forall>v. v \<in> set (map ur_literal (unknownToolRefs [p] registered)) \<longleftrightarrow> v \<notin> set registered \<and>
      (\<exists>l \<in> set (scanStringLiterals (gp_source p)). sl_value l = v \<and> is_candidate (gp_source p) (List.map_filter backend_prefix registered) l)) \<and>
    (\<forall>u \<in> set (unknownToolRefs [p] registered). set (ur_matches u) \<subseteq> set registered \<and> length (ur_matches u) \<le> 3)"
proof -
  have lits: "map ur_literal (unknownToolRefs [p] registered) =
      filter (\<lambda>v. v \<notin> set registered) (toolNameCandidates (gp_source p) (List.map_filter backend_prefix registered))"
    using assms by (simp add: unknownToolRefs_def comp_def)
  moreover have "\<forall>u \<in> set (unknownToolRefs [p] registered). set (ur_matches u) \<subseteq> set registered \<and> length (ur_matches u) \<le> 3"
    using closeMatches_facts [of _ registered maxCloseMatches] by (auto simp: unknownToolRefs_def maxCloseMatches_def Let_def)
  ultimately show ?thesis by (auto simp: toolNameCandidates_def candidates_set distinct_candidates)
qed

theorem unknown_refs_exact_witness:
  "''a_b'' \<in> set (map ur_literal (unknownToolRefs [\<lparr>gp_name = ''p.js'', gp_source = [CHR 0x22] @ ''a_b'' @ [CHR 0x22], gp_enforce = False\<rparr>] [''a_c'']))"
proof -
  let ?s = "[CHR 0x22] @ ''a_b'' @ [CHR 0x22]"
  let ?l = "\<lparr>sl_value = ''a_b'', sl_start = 0, sl_end = 5\<rparr>"
  have lits: "scanStringLiterals ?s = [?l]"
    by (simp add: scanStringLiterals_def scan_literals.simps starts_with_def scanQuoted_def quoted_end.simps slice_def eval_nat_numeral)
  have pre: "List.map_filter backend_prefix [''a_c''] = [''a'']" "backend_prefix ''a_b'' = Some ''a''"
    by (simp_all add: List.map_filter_def backend_prefix_def has_prefix_def)
  have "re_match toolNameShape ''a_b''"
    by (simp add: re_match_def toolNameShape_def re_plus_def re_text_def name_char_def Let_def)
  then have "is_candidate ?s (List.map_filter backend_prefix [''a_c'']) ?l" using pre by (simp add: is_candidate_def)
  then have cand: "\<exists>l \<in> set (scanStringLiterals ?s). sl_value l = ''a_b'' \<and> is_candidate ?s (List.map_filter backend_prefix [''a_c'']) l"
    unfolding lits by simp
  let ?p = "\<lparr>gp_name = ''p.js'', gp_source = ?s, gp_enforce = False\<rparr>"
  have src: "gp_source ?p = ?s" by simp
  have "[''a_c''] \<noteq> []" "''a_b'' \<notin> set [''a_c'']" by simp_all
  with unknown_refs_exact [of "[''a_c'']" ?p, unfolded src] cand show ?thesis by blast
qed

end
