(* ===== verification/NetAddr.thy ===== *)
theory NetAddr
  imports GoStrings
begin

text \<open>
  IP addresses as the sources use them from Go's \<open>net/netip\<close> and \<open>net\<close>: parsing, the canonical text form,
  IPv4-mapped IPv6 addresses, prefixes, and the address classes. Bytes are natural numbers below 256.
\<close>

section \<open>Addresses\<close>

datatype ip_addr = Addr4 "nat list" | Addr6 "nat list" string

definition is_4in6 :: "nat list \<Rightarrow> bool" where
  "is_4in6 b \<longleftrightarrow> take 12 b = replicate 10 0 @ [255, 255]"

text \<open>\<open>Addr.Unmap\<close>.\<close>

fun ip_unmap :: "ip_addr \<Rightarrow> ip_addr" where
  "ip_unmap (Addr6 b z) = (if is_4in6 b then Addr4 (drop 12 b) else Addr6 b z)"
| "ip_unmap a = a"

text \<open>\<open>Addr.WithZone("")\<close>.\<close>

fun ip_no_zone :: "ip_addr \<Rightarrow> ip_addr" where
  "ip_no_zone (Addr6 b _) = Addr6 b []"
| "ip_no_zone a = a"

section \<open>Parsing\<close>

fun dec_value :: "string \<Rightarrow> nat" where
  "dec_value s = foldl (\<lambda>v c. v * 10 + (byte_of c - 48)) 0 s"

definition dec_digit :: "char \<Rightarrow> bool" where
  "dec_digit c \<longleftrightarrow> 48 \<le> byte_of c \<and> byte_of c \<le> (57::nat)"

text \<open>An octet: decimal digits without a leading zero, at most 255.\<close>

definition parse_octet :: "string \<Rightarrow> nat option" where
  "parse_octet s =
     (if s = [] \<or> \<not> list_all dec_digit s \<or> (hd s = CHR ''0'' \<and> length s > 1) \<or> 255 < dec_value s
      then None else Some (dec_value s))"

definition parse_ipv4 :: "string \<Rightarrow> nat list option" where
  "parse_ipv4 s =
     (let os = map parse_octet (split_char (CHR ''.'') s)
      in if length os = 4 \<and> None \<notin> set os then Some (map the os) else None)"

definition hex_value :: "char \<Rightarrow> nat option" where
  "hex_value c =
     (let b = byte_of c in
      if 48 \<le> b \<and> b \<le> 57 then Some (b - 48)
      else if 97 \<le> b \<and> b \<le> 102 then Some (b - 87)
      else if 65 \<le> b \<and> b \<le> 70 then Some (b - 55) else None)"

abbreviation is_hex :: "char \<Rightarrow> bool" where
  "is_hex c \<equiv> hex_value c \<noteq> None"

definition group_value :: "string \<Rightarrow> nat" where
  "group_value s = foldl (\<lambda>v c. v * 16 + the (hex_value c)) 0 s"

lemma dropWhile_less: "x \<in> set s \<Longrightarrow> length (dropWhile P s) - Suc n < length s"
proof -
  assume "x \<in> set s"
  then have "0 < length s" by (cases s) auto
  then show ?thesis using length_dropWhile_le [of P s] by linarith
qed

text \<open>The group loop of \<open>parseIPv6\<close>: \<open>s\<close> is the rest of the text, \<open>ip\<close> the bytes so far and \<open>ell\<close> where
  \<open>::\<close> stood. The result is the bytes, the position of \<open>::\<close> and the text that was left.\<close>

function ip6_groups :: "string \<Rightarrow> nat list \<Rightarrow> nat option \<Rightarrow> (nat list \<times> nat option \<times> string) option" where
  "ip6_groups s ip ell =
     (if 16 \<le> length ip then Some (ip, ell, s)
      else
        let g = takeWhile is_hex s; rest = dropWhile is_hex s
        in if g = [] \<or> 4 < length g then None
           else if rest \<noteq> [] \<and> hd rest = CHR ''.'' then
             (if ell = None \<and> length ip \<noteq> 12 \<or> 16 < length ip + 4 then None
              else case parse_ipv4 s of None \<Rightarrow> None | Some b \<Rightarrow> Some (ip @ b, ell, []))
           else
             let ip1 = ip @ [group_value g div 256, group_value g mod 256]
             in if rest = [] then Some (ip1, ell, [])
                else if hd rest \<noteq> CHR '':'' \<or> length rest = 1 then None
                else
                  let s1 = tl rest
                  in if hd s1 = CHR '':'' then
                       (if ell \<noteq> None then None
                        else if tl s1 = [] then Some (ip1, Some (length ip1), [])
                        else ip6_groups (tl s1) ip1 (Some (length ip1)))
                     else ip6_groups s1 ip1 ell)"
  by pat_completeness auto
termination
  by (relation "measure (\<lambda>(s, _, _). length s)") (auto intro: dropWhile_less)

declare ip6_groups.simps [simp del]

text \<open>\<open>::\<close> stands for at least one group of zeros.\<close>

definition expand_ellipsis :: "nat list \<times> nat option \<times> string \<Rightarrow> nat list option" where
  "expand_ellipsis r =
     (case r of (ip, ell, s) \<Rightarrow>
        if s \<noteq> [] then None
        else case ell of
            None \<Rightarrow> if length ip < 16 then None else Some ip
          | Some e \<Rightarrow> if length ip < 16 then Some (take e ip @ replicate (16 - length ip) 0 @ drop e ip) else None)"

definition parse_ipv6 :: "string \<Rightarrow> ip_addr option" where
  "parse_ipv6 s =
     (let (a, zone, has_zone) = cut s ''%''
      in if has_zone \<and> zone = [] then None
         else map_option (\<lambda>b. Addr6 b zone)
           (if has_prefix a ''::'' then
              (if drop 2 a = [] then Some (replicate 16 0)
               else case ip6_groups (drop 2 a) [] (Some 0) of None \<Rightarrow> None | Some r \<Rightarrow> expand_ellipsis r)
            else case ip6_groups a [] None of None \<Rightarrow> None | Some r \<Rightarrow> expand_ellipsis r))"

text \<open>\<open>netip.ParseAddr\<close>: the first dot, colon or percent sign decides.\<close>

definition ParseAddr :: "string \<Rightarrow> ip_addr option" where
  "ParseAddr s =
     (case find_first (\<lambda>c. c \<in> {CHR ''.'', CHR '':'', CHR ''%''}) s of
        None \<Rightarrow> None
      | Some c \<Rightarrow> if c = CHR ''.'' then map_option Addr4 (parse_ipv4 s)
                  else if c = CHR '':'' then parse_ipv6 s else None)"

text \<open>\<open>net.ParseIP\<close>: no zone; an IPv4-mapped address is the IPv4 address.\<close>

definition ParseIP :: "string \<Rightarrow> ip_addr option" where
  "ParseIP s = (case ParseAddr s of Some (Addr6 b z) \<Rightarrow> if z = [] then Some (ip_unmap (Addr6 b z)) else None | a \<Rightarrow> a)"

section \<open>Text form\<close>

definition string4 :: "nat list \<Rightarrow> string" where
  "string4 b = join (map itoa b) ''.''"

fun hex_text :: "nat \<Rightarrow> string" where
  "hex_text n = (if n < 16 then [''0123456789abcdef'' ! n] else hex_text (n div 16) @ [''0123456789abcdef'' ! (n mod 16)])"

fun groups_of :: "nat list \<Rightarrow> nat list" where
  "groups_of (a # b # bs) = (a * 256 + b) # groups_of bs"
| "groups_of _ = []"

text \<open>The first longest run of at least two zero groups, as its start and end.\<close>

definition zero_end :: "nat list \<Rightarrow> nat \<Rightarrow> nat" where
  "zero_end gs i = i + length (takeWhile (\<lambda>g. g = 0) (drop i gs))"

definition zero_run :: "nat list \<Rightarrow> (nat \<times> nat) option" where
  "zero_run gs =
     foldl (\<lambda>best i. let l = zero_end gs i - i
                     in if 2 \<le> l \<and> (case best of None \<Rightarrow> True | Some (s, e) \<Rightarrow> e - s < l) then Some (i, zero_end gs i) else best)
       None [0..<8]"

definition string6 :: "nat list \<Rightarrow> string" where
  "string6 b =
     (let gs = groups_of b in
      case zero_run gs of
        None \<Rightarrow> join (map hex_text gs) '':''
      | Some (s, e) \<Rightarrow> join (map hex_text (take s gs)) '':'' @ ''::'' @ join (map hex_text (drop e gs)) '':'')"

section \<open>Classes of addresses\<close>

text \<open>\<open>IsLoopback\<close>, \<open>IsPrivate\<close>, \<open>IsLinkLocalUnicast\<close>, \<open>IsLinkLocalMulticast\<close>, \<open>IsUnspecified\<close> of \<open>net.IP\<close>, which see an
  IPv4-mapped address as its IPv4 address; \<open>ParseIP\<close> has unmapped it.\<close>

fun is_loopback :: "ip_addr \<Rightarrow> bool" where
  "is_loopback (Addr4 b) = (hd b = 127)"
| "is_loopback (Addr6 b _) = (b = replicate 15 0 @ [1])"

fun is_private :: "ip_addr \<Rightarrow> bool" where
  "is_private (Addr4 b) = (b ! 0 = 10 \<or> (b ! 0 = 172 \<and> b ! 1 div 16 = 1) \<or> (b ! 0 = 192 \<and> b ! 1 = 168))"
| "is_private (Addr6 b _) = (b ! 0 div 2 = 126)"

fun is_link_local :: "ip_addr \<Rightarrow> bool" where
  "is_link_local (Addr4 b) = (b ! 0 = 169 \<and> b ! 1 = 254)"
| "is_link_local (Addr6 b _) = (b ! 0 = 254 \<and> b ! 1 div 64 = 2)"

fun is_unspecified :: "ip_addr \<Rightarrow> bool" where
  "is_unspecified (Addr4 b) = (b = [0, 0, 0, 0])"
| "is_unspecified (Addr6 b _) = (b = replicate 16 0)"

fun is_link_local_multicast :: "ip_addr \<Rightarrow> bool" where
  "is_link_local_multicast (Addr4 b) = (b ! 0 = 224 \<and> b ! 1 = 0 \<and> b ! 2 = 0)"
| "is_link_local_multicast (Addr6 b _) = (b ! 0 = 255 \<and> b ! 1 mod 16 = 2)"

section \<open>Well-formed addresses\<close>

fun addr_ok :: "ip_addr \<Rightarrow> bool" where
  "addr_ok (Addr4 b) = (length b = 4 \<and> list_all (\<lambda>x. x < 256) b)"
| "addr_ok (Addr6 b _) = (length b = 16 \<and> list_all (\<lambda>x. x < 256) b)"

lemma parse_ipv4_ok: "parse_ipv4 s = Some b \<Longrightarrow> length b = 4 \<and> list_all (\<lambda>x. x < 256) b"
proof -
  assume s: "parse_ipv4 s = Some b"
  let ?os = "map parse_octet (split_char (CHR ''.'') s)"
  have os: "length ?os = 4" "None \<notin> set ?os" "b = map the ?os" using s by (auto simp: parse_ipv4_def Let_def split: if_splits)
  have "x < 256" if x: "x \<in> set b" for x
  proof -
    obtain p where "p \<in> set (split_char (CHR ''.'') s)" "x = the (parse_octet p)" using x os(3) by auto
    moreover have "parse_octet p \<noteq> None" using os(2) calculation(1) by (metis imageI list.set_map)
    ultimately show ?thesis by (auto simp: parse_octet_def split: if_splits)
  qed
  then show ?thesis using os by (auto simp: list_all_iff)
qed

end
