(* ===== verification/LoginThrottle.thy ===== *)
theory LoginThrottle
  imports NetAddr Durations Sha256
begin

text \<open>
  The failed-login throttle (\<open>internal/auth/loginthrottle.go\<close>): the counters an attempt is charged to, the
  process-local table with its eviction, the two Redis scripts, and \<open>Acquire\<close>, \<open>Success\<close> and \<open>Cancel\<close>
  over both. The Redis commands the scripts use are a parameter; each of the two calls to Redis
  takes how it went: answered, never reached, or carried out with its reply lost.
\<close>

section \<open>Counters of an attempt\<close>

definition LoginScopeUserIP :: string where "LoginScopeUserIP = ''user_ip''"
definition LoginScopeUser :: string where "LoginScopeUser = ''user''"
definition LoginScopeIP :: string where "LoginScopeIP = ''ip''"

definition prefixLoginFailures :: string where "prefixLoginFailures = ''auth:{login}:failures:''"
definition maxLocalLoginCounters :: nat where "maxLocalLoginCounters = 50000"
definition localEvictionLogInterval :: duration where "localEvictionLogInterval = 60 * second"
definition loginIPUnknown :: string where "loginIPUnknown = ''unknown''"

record throttle_config =
  tc_per_user_ip :: int
  tc_per_user :: int
  tc_per_ip :: int
  tc_window :: duration
  tc_namespace :: string

record login_counter =
  lc_scope :: string
  lc_key :: string
  lc_limit :: int

definition normalizeLoginIP :: "string \<Rightarrow> string" where
  "normalizeLoginIP ip =
     (case ParseAddr ip of
        None \<Rightarrow> loginIPUnknown
      | Some a \<Rightarrow>
          (case ip_no_zone (ip_unmap a) of
             Addr4 b \<Rightarrow> string4 b
           | Addr6 b _ \<Rightarrow> string6 (take 8 b @ replicate 8 0) @ ''/64''))"

definition loginUserKey :: "string \<Rightarrow> string" where
  "loginUserKey account = prefixLoginFailures @ LoginScopeUser @ '':'' @ hex_encode (sha256 (bytes_of account))"

definition loginUserIPKey :: "string \<Rightarrow> string \<Rightarrow> string" where
  "loginUserIPKey account ip =
     prefixLoginFailures @ LoginScopeUserIP @ '':'' @ hex_encode (sha256 (bytes_of (normalizeLoginIP ip @ [CHR 0x00] @ account)))"

definition loginIPKey :: "string \<Rightarrow> string" where
  "loginIPKey ip = prefixLoginFailures @ LoginScopeIP @ '':'' @ normalizeLoginIP ip"

definition namespaced :: "throttle_config \<Rightarrow> string \<Rightarrow> string" where
  "namespaced cfg key =
     (if tc_namespace cfg = [] then key
      else ''auth:{'' @ tc_namespace cfg @ ''}:failures:'' @ trim_prefix key prefixLoginFailures)"

definition counters :: "throttle_config \<Rightarrow> string \<Rightarrow> string \<Rightarrow> login_counter list" where
  "counters cfg account ip =
     (if tc_window cfg \<le> 0 then []
      else (if tc_per_user_ip cfg > 0 then [\<lparr>lc_scope = LoginScopeUserIP, lc_key = namespaced cfg (loginUserIPKey account ip), lc_limit = tc_per_user_ip cfg\<rparr>] else [])
         @ (if tc_per_user cfg > 0 then [\<lparr>lc_scope = LoginScopeUser, lc_key = namespaced cfg (loginUserKey account), lc_limit = tc_per_user cfg\<rparr>] else [])
         @ (if tc_per_ip cfg > 0 then [\<lparr>lc_scope = LoginScopeIP, lc_key = namespaced cfg (loginIPKey ip), lc_limit = tc_per_ip cfg\<rparr>] else []))"

section \<open>The process-local table\<close>

record local_counter =
  l_count :: int
  l_unshared :: int
  l_limit :: int
  l_expires :: time

type_synonym counter_table = "(string \<times> local_counter) list"

text \<open>\<open>lastWarning\<close> is Go's zero time until a warning was due; more than a minute has passed since then.\<close>

record local_counters =
  lt_entries :: counter_table
  lt_max :: nat
  lt_warned :: "time option"

definition newLocalLoginCounters :: "nat \<Rightarrow> local_counters" where
  "newLocalLoginCounters n = \<lparr>lt_entries = [], lt_max = n, lt_warned = None\<rparr>"

definition live :: "string \<Rightarrow> time \<Rightarrow> counter_table \<Rightarrow> local_counter option \<times> counter_table" where
  "live key now t =
     (case map_of t key of
        None \<Rightarrow> (None, t)
      | Some e \<Rightarrow> if now < l_expires e then (Some e, t) else (None, AList.delete key t))"

fun holds_unshared :: "login_counter list \<Rightarrow> time \<Rightarrow> counter_table \<Rightarrow> bool \<times> counter_table" where
  "holds_unshared [] now t = (False, t)"
| "holds_unshared (c # cs) now t =
     (case live (lc_key c) now t of
        (Some e, t1) \<Rightarrow> if l_unshared e > 0 then (True, t1) else holds_unshared cs now t1
      | (None, t1) \<Rightarrow> holds_unshared cs now t1)"

text \<open>The check of \<open>acquire\<close>: the first exhausted counter and how long it still runs.\<close>

fun first_exhausted :: "login_counter list \<Rightarrow> time \<Rightarrow> counter_table \<Rightarrow> (login_counter \<times> duration) option \<times> counter_table" where
  "first_exhausted [] now t = (None, t)"
| "first_exhausted (c # cs) now t =
     (case live (lc_key c) now t of
        (Some e, t1) \<Rightarrow> if lc_limit c \<le> l_count e then (Some (c, l_expires e - now), t1) else first_exhausted cs now t1
      | (None, t1) \<Rightarrow> first_exhausted cs now t1)"

fun count_missing :: "login_counter list \<Rightarrow> time \<Rightarrow> counter_table \<Rightarrow> nat \<times> counter_table" where
  "count_missing [] now t = (0, t)"
| "count_missing (c # cs) now t =
     (let (e, t1) = live (lc_key c) now t; (n, t2) = count_missing cs now t1
      in (if e = None then Suc n else n, t2))"

text \<open>The two dropping loops of \<open>makeRoom\<close>: at most \<open>batch\<close> counters that are not exhausted, then any until
  the table fits. The list stands for the order in which Go visits the map.\<close>

fun drop_unexhausted :: "(string \<Rightarrow> bool) \<Rightarrow> nat \<Rightarrow> counter_table \<Rightarrow> nat \<times> counter_table" where
  "drop_unexhausted kept batch [] = (0, [])"
| "drop_unexhausted kept batch ((k, e) # t) =
     (if batch = 0 then (0, (k, e) # t)
      else if l_count e < l_limit e \<and> \<not> kept k then (let (n, t1) = drop_unexhausted kept (batch - 1) t in (Suc n, t1))
      else (let (n, t1) = drop_unexhausted kept batch t in (n, (k, e) # t1)))"

fun drop_until_fits :: "(string \<Rightarrow> bool) \<Rightarrow> nat \<Rightarrow> nat \<Rightarrow> counter_table \<Rightarrow> nat \<times> counter_table" where
  "drop_until_fits kept cap n [] = (0, [])"
| "drop_until_fits kept cap n ((k, e) # t) =
     (if n \<le> cap then (0, (k, e) # t)
      else if \<not> kept k then (let (m, t1) = drop_until_fits kept cap (n - 1) t in (Suc m, t1))
      else (let (m, t1) = drop_until_fits kept cap n t in (m, (k, e) # t1)))"

definition makeRoom :: "nat \<Rightarrow> nat \<Rightarrow> login_counter list \<Rightarrow> time \<Rightarrow> counter_table \<Rightarrow> nat \<times> counter_table" where
  "makeRoom cap need keep now t =
     (if length t + need \<le> cap then (0, t)
      else let t1 = filter (\<lambda>(k, e). now < l_expires e) t
           in if length t1 + need \<le> cap then (0, t1)
              else let kept = (\<lambda>k. k \<in> lc_key ` set keep);
                       (n, t2) = drop_unexhausted kept (max (cap div 10) need) t1;
                       (m, t3) = drop_until_fits kept cap (length t2 + need) t2
                   in (n + m, t3))"

definition add_charge :: "duration \<Rightarrow> time \<Rightarrow> bool \<Rightarrow> login_counter \<Rightarrow> counter_table \<Rightarrow> counter_table" where
  "add_charge window now unshared c t =
     (let e = (case map_of t (lc_key c) of
                 Some e \<Rightarrow> e
               | None \<Rightarrow> \<lparr>l_count = 0, l_unshared = 0, l_limit = 0, l_expires = now + window\<rparr>)
      in AList.update (lc_key c)
           (e\<lparr>l_count := l_count e + 1, l_unshared := (if unshared then l_unshared e + 1 else l_unshared e), l_limit := lc_limit c\<rparr>) t)"

definition reportable :: "nat \<Rightarrow> time \<Rightarrow> local_counters \<Rightarrow> nat \<times> local_counters" where
  "reportable dropped now l =
     (if dropped = 0 \<or> (case lt_warned l of None \<Rightarrow> False | Some w \<Rightarrow> now - w < localEvictionLogInterval)
      then (0, l) else (dropped, l\<lparr>lt_warned := Some now\<rparr>))"

definition charge :: "login_counter list \<Rightarrow> duration \<Rightarrow> time \<Rightarrow> bool \<Rightarrow> local_counters \<Rightarrow> nat \<times> local_counters" where
  "charge cs window now unshared l =
     (let (missing, t1) = count_missing cs now (lt_entries l);
          (dropped, t2) = makeRoom (lt_max l) missing cs now t1;
          t3 = fold (add_charge window now unshared) cs t2
      in reportable dropped now (l\<lparr>lt_entries := t3\<rparr>))"

definition local_acquire :: "login_counter list \<Rightarrow> duration \<Rightarrow> time \<Rightarrow> local_counters
    \<Rightarrow> (login_counter \<times> duration) option \<times> nat \<times> local_counters" where
  "local_acquire cs window now l =
     (case first_exhausted cs now (lt_entries l) of
        (Some b, t) \<Rightarrow> (Some b, 0, l\<lparr>lt_entries := t\<rparr>)
      | (None, t) \<Rightarrow> (None, charge cs window now True (l\<lparr>lt_entries := t\<rparr>)))"

definition mirrorCharge :: "login_counter list \<Rightarrow> duration \<Rightarrow> time \<Rightarrow> local_counters \<Rightarrow> nat \<times> local_counters" where
  "mirrorCharge cs window now l = charge cs window now False l"

definition exhaust :: "login_counter \<Rightarrow> duration \<Rightarrow> time \<Rightarrow> local_counters \<Rightarrow> nat \<times> local_counters" where
  "exhaust c remaining now l =
     (let (e, t) = live (lc_key c) now (lt_entries l)
      in if (case e of Some x \<Rightarrow> l_unshared x > 0 | None \<Rightarrow> False) then (0, l\<lparr>lt_entries := t\<rparr>)
         else let (dropped, t1) = (if e = None then makeRoom (lt_max l) 1 [c] now t else (0, t))
              in reportable dropped now (l\<lparr>lt_entries := AList.update (lc_key c)
                   \<lparr>l_count = lc_limit c, l_unshared = 0, l_limit = lc_limit c, l_expires = now + remaining\<rparr> t1\<rparr>))"

fun local_release :: "login_counter list \<Rightarrow> bool \<Rightarrow> bool \<Rightarrow> time \<Rightarrow> counter_table \<Rightarrow> counter_table" where
  "local_release [] shared clearAccount now t = t"
| "local_release (c # cs) shared clearAccount now t =
     local_release cs shared clearAccount now
       (if clearAccount \<and> lc_scope c \<noteq> LoginScopeIP then AList.delete (lc_key c) t
        else case live (lc_key c) now t of
            (None, t1) \<Rightarrow> t1
          | (Some e, t1) \<Rightarrow>
              if l_count e \<le> 1 then AList.delete (lc_key c) t1
              else AList.update (lc_key c)
                     (e\<lparr>l_count := l_count e - 1,
                        l_unshared := (if \<not> shared \<and> l_unshared e > 0 then l_unshared e - 1 else l_unshared e)\<rparr>) t1)"

section \<open>The Redis scripts\<close>

text \<open>The commands the scripts call, at the server's time in milliseconds. \<open>PTTL\<close> is negative for a key
  that does not exist or has no expiry.\<close>

record 'r redis_ops =
  rd_get :: "int \<Rightarrow> string \<Rightarrow> 'r \<Rightarrow> int option"
  rd_incr :: "int \<Rightarrow> string \<Rightarrow> 'r \<Rightarrow> 'r"
  rd_decr :: "int \<Rightarrow> string \<Rightarrow> 'r \<Rightarrow> 'r"
  rd_del :: "int \<Rightarrow> string \<Rightarrow> 'r \<Rightarrow> 'r"
  rd_pttl :: "int \<Rightarrow> string \<Rightarrow> 'r \<Rightarrow> int"
  rd_pexpire :: "int \<Rightarrow> string \<Rightarrow> int \<Rightarrow> 'r \<Rightarrow> 'r"

definition stored_count :: "'r redis_ops \<Rightarrow> int \<Rightarrow> string \<Rightarrow> 'r \<Rightarrow> int" where
  "stored_count ops ms key r = (case rd_get ops ms key r of None \<Rightarrow> 0 | Some n \<Rightarrow> n)"

fun script_check :: "'r redis_ops \<Rightarrow> int \<Rightarrow> int \<Rightarrow> (string \<times> int) list \<Rightarrow> nat \<Rightarrow> 'r \<Rightarrow> (nat \<times> int) option \<times> 'r" where
  "script_check ops ms window [] i r = (None, r)"
| "script_check ops ms window ((key, limit) # ks) i r =
     (if limit \<le> stored_count ops ms key r
      then (let ttl = rd_pttl ops ms key r
            in if ttl < 0 then (Some (i, window), rd_pexpire ops ms key window r) else (Some (i, ttl), r))
      else script_check ops ms window ks (Suc i) r)"

definition script_charge :: "'r redis_ops \<Rightarrow> int \<Rightarrow> int \<Rightarrow> string \<Rightarrow> 'r \<Rightarrow> 'r" where
  "script_charge ops ms window key r =
     (let r1 = rd_incr ops ms key r in if rd_pttl ops ms key r1 < 0 then rd_pexpire ops ms key window r1 else r1)"

text \<open>\<open>loginAcquireScript\<close>: the reply is the index of the exhausted counter, from 1, or 0, and its lifetime.\<close>

definition loginAcquireScript :: "'r redis_ops \<Rightarrow> int \<Rightarrow> int \<Rightarrow> (string \<times> int) list \<Rightarrow> 'r \<Rightarrow> (nat \<times> int) \<times> 'r" where
  "loginAcquireScript ops ms window ks r =
     (case script_check ops ms window ks 1 r of
        (Some b, r1) \<Rightarrow> (b, r1)
      | (None, r1) \<Rightarrow> ((0, 0), fold (script_charge ops ms window) (map fst ks) r1))"

datatype release_mode = Clear | Refund

fun script_release :: "'r redis_ops \<Rightarrow> int \<Rightarrow> string \<times> release_mode \<Rightarrow> 'r \<Rightarrow> 'r" where
  "script_release ops ms (key, Clear) r = rd_del ops ms key r"
| "script_release ops ms (key, Refund) r =
     (let n = stored_count ops ms key r
      in if n > 1 then rd_decr ops ms key r else if n = 1 then rd_del ops ms key r else r)"

definition loginReleaseScript :: "'r redis_ops \<Rightarrow> int \<Rightarrow> (string \<times> release_mode) list \<Rightarrow> 'r \<Rightarrow> 'r" where
  "loginReleaseScript ops ms ks r = fold (script_release ops ms) ks r"

section \<open>The throttle\<close>

datatype redis_link = Answered | Unreached | ReplyLost

record login_attempt =
  la_allowed :: bool
  la_scope :: string
  la_retry :: duration
  la_counters :: "login_counter list"
  la_shared :: bool

record 'r throttle =
  th_config :: throttle_config
  th_redis :: "'r redis_ops option"

record 'r throttle_state =
  ts_local :: local_counters
  ts_redis :: 'r
  ts_warned :: "nat list"

definition millis :: int where "millis = 1000000"

definition acquireRedis :: "throttle_config \<Rightarrow> 'r redis_ops \<Rightarrow> redis_link \<Rightarrow> int \<Rightarrow> login_counter list \<Rightarrow> 'r \<Rightarrow> login_attempt option \<times> 'r" where
  "acquireRedis cfg ops link ms cs r =
     (if link = Unreached then (None, r)
      else let ((i, ttl), r1) = loginAcquireScript ops ms (tc_window cfg div millis) (map (\<lambda>c. (lc_key c, lc_limit c)) cs) r
           in if link = ReplyLost then (None, r1)
              else if i > length cs then (None, r1)
              else if i = 0 then (Some \<lparr>la_allowed = True, la_scope = [], la_retry = 0, la_counters = cs, la_shared = True\<rparr>, r1)
              else (Some \<lparr>la_allowed = False, la_scope = lc_scope (cs ! (i - 1)), la_retry = ttl * millis, la_counters = [cs ! (i - 1)], la_shared = False\<rparr>, r1))"

definition warnEvicted :: "nat \<times> local_counters \<Rightarrow> 'r throttle_state \<Rightarrow> 'r throttle_state" where
  "warnEvicted r s = s\<lparr>ts_local := snd r, ts_warned := (if fst r > 0 then ts_warned s @ [fst r] else ts_warned s)\<rparr>"

definition mirror :: "throttle_config \<Rightarrow> login_attempt \<Rightarrow> login_counter list \<Rightarrow> time \<Rightarrow> 'r throttle_state \<Rightarrow> 'r throttle_state" where
  "mirror cfg a cs now s =
     (if \<not> la_allowed a then warnEvicted (exhaust (hd (la_counters a)) (la_retry a) now (ts_local s)) s
      else warnEvicted (mirrorCharge cs (tc_window cfg) now (ts_local s)) s)"

definition acquire_locally :: "throttle_config \<Rightarrow> login_counter list \<Rightarrow> time \<Rightarrow> 'r throttle_state \<Rightarrow> login_attempt \<times> 'r throttle_state" where
  "acquire_locally cfg cs now s =
     (let (blocked, evicted, l) = local_acquire cs (tc_window cfg) now (ts_local s)
      in (case blocked of
            Some (c, retry) \<Rightarrow> \<lparr>la_allowed = False, la_scope = lc_scope c, la_retry = retry, la_counters = [], la_shared = False\<rparr>
          | None \<Rightarrow> \<lparr>la_allowed = True, la_scope = [], la_retry = 0, la_counters = cs, la_shared = False\<rparr>,
          warnEvicted (evicted, l) s))"

text \<open>\<open>Acquire\<close> at local time \<open>now\<close> and server time \<open>ms\<close>.\<close>

definition Acquire :: "'r throttle \<Rightarrow> redis_link \<Rightarrow> time \<Rightarrow> int \<Rightarrow> string \<Rightarrow> string \<Rightarrow> 'r throttle_state \<Rightarrow> login_attempt \<times> 'r throttle_state" where
  "Acquire th link now ms account ip s =
     (let cfg = th_config th; cs = counters cfg account ip
      in if cs = [] then (\<lparr>la_allowed = True, la_scope = [], la_retry = 0, la_counters = [], la_shared = False\<rparr>, s)
         else case th_redis th of
             None \<Rightarrow> acquire_locally cfg cs now s
           | Some ops \<Rightarrow>
               (let (unshared, t) = holds_unshared cs now (lt_entries (ts_local s));
                    s1 = s\<lparr>ts_local := (ts_local s)\<lparr>lt_entries := t\<rparr>\<rparr>
                in if unshared then acquire_locally cfg cs now s1
                   else case acquireRedis cfg ops link ms cs (ts_redis s1) of
                       (Some a, r) \<Rightarrow> (a, mirror cfg a cs now (s1\<lparr>ts_redis := r\<rparr>))
                     | (None, r) \<Rightarrow> acquire_locally cfg cs now (s1\<lparr>ts_redis := r\<rparr>)))"

definition release_modes :: "login_attempt \<Rightarrow> bool \<Rightarrow> (string \<times> release_mode) list" where
  "release_modes a clearAccount =
     concat (map (\<lambda>c. if clearAccount \<and> lc_scope c \<noteq> LoginScopeIP then [(lc_key c, Clear)]
                      else if la_shared a then [(lc_key c, Refund)] else []) (la_counters a))"

definition releaseRedis :: "'r redis_ops \<Rightarrow> redis_link \<Rightarrow> int \<Rightarrow> login_attempt \<Rightarrow> bool \<Rightarrow> 'r \<Rightarrow> 'r" where
  "releaseRedis ops link ms a clearAccount r =
     (let ks = release_modes a clearAccount
      in if ks = [] \<or> link = Unreached then r else loginReleaseScript ops ms ks r)"

definition release :: "'r throttle \<Rightarrow> redis_link \<Rightarrow> time \<Rightarrow> int \<Rightarrow> login_attempt \<Rightarrow> bool \<Rightarrow> 'r throttle_state \<Rightarrow> 'r throttle_state" where
  "release th link now ms a clearAccount s =
     (if \<not> la_allowed a \<or> la_counters a = [] then s
      else let s1 = (case th_redis th of None \<Rightarrow> s | Some ops \<Rightarrow> s\<lparr>ts_redis := releaseRedis ops link ms a clearAccount (ts_redis s)\<rparr>)
           in s1\<lparr>ts_local := (ts_local s1)\<lparr>lt_entries := local_release (la_counters a) (la_shared a) clearAccount now (lt_entries (ts_local s1))\<rparr>\<rparr>)"

definition Success :: "'r throttle \<Rightarrow> redis_link \<Rightarrow> time \<Rightarrow> int \<Rightarrow> login_attempt \<Rightarrow> 'r throttle_state \<Rightarrow> 'r throttle_state" where
  "Success th link now ms a s = release th link now ms a True s"

definition Cancel :: "'r throttle \<Rightarrow> redis_link \<Rightarrow> time \<Rightarrow> int \<Rightarrow> login_attempt \<Rightarrow> 'r throttle_state \<Rightarrow> 'r throttle_state" where
  "Cancel th link now ms a s = release th link now ms a False s"

section \<open>The throttle of signed and keyed approvals\<close>

text \<open>\<open>ApprovalThrottleConfig\<close> of \<open>internal/grants/service.go\<close>: the same throttle over request ids.\<close>

definition ApprovalThrottleConfig :: throttle_config where
  "ApprovalThrottleConfig = \<lparr>tc_per_user_ip = 5, tc_per_user = 10, tc_per_ip = 20, tc_window = 15 * minute, tc_namespace = ''approve''\<rparr>"

end
