(* ===== verification/LoginProps.thy ===== *)
theory LoginProps
  imports LoginThrottle
begin

text \<open>
  What the throttle guarantees. The locale \<open>window_counters\<close> states what both implementations of the
  counters promise, the process-local table and the Redis scripts; the bound on guessing is proved
  once in it. Then: what the table drops under pressure, and that an outage of Redis does not lift a
  lockout.
\<close>

section \<open>Counters with a fixed window\<close>

datatype 'e window_event = Try time "login_counter list" | Forget time 'e

fun event_time :: "'e window_event \<Rightarrow> time" where
  "event_time (Try t _) = t"
| "event_time (Forget t _) = t"

text \<open>The attempts of a run that were allowed.\<close>

fun window_run :: "(time \<Rightarrow> login_counter list \<Rightarrow> 's \<Rightarrow> bool \<times> 's) \<Rightarrow> (time \<Rightarrow> 'e \<Rightarrow> 's \<Rightarrow> 's) \<Rightarrow> 'e window_event list \<Rightarrow> 's
    \<Rightarrow> (time \<times> login_counter list) list" where
  "window_run attempt forget [] s = []"
| "window_run attempt forget (Try t cs # evs) s =
     (let (ok, s') = attempt t cs s in (if ok then [(t, cs)] else []) @ window_run attempt forget evs s')"
| "window_run attempt forget (Forget t e # evs) s = window_run attempt forget evs (forget t e s)"

fun event_charges :: "'e window_event \<Rightarrow> nat" where
  "event_charges (Try _ cs) = length cs"
| "event_charges (Forget _ _) = 0"

abbreviation keys_of :: "login_counter list \<Rightarrow> string list" where
  "keys_of cs \<equiv> map lc_key cs"

definition charged_in :: "string \<Rightarrow> time \<Rightarrow> duration \<Rightarrow> (time \<times> login_counter list) list \<Rightarrow> (time \<times> login_counter list) list" where
  "charged_in k a w = filter (\<lambda>(t, cs). k \<in> set (keys_of cs) \<and> a \<le> t \<and> t < a + w)"

text \<open>How a span of one window length relates to the counter: the attempts of the span fit the running window,
  or those of the second window to start in the span, which outlives the span, fit that one.\<close>

definition phase :: "(int \<times> time) option \<Rightarrow> time \<Rightarrow> time \<Rightarrow> duration \<Rightarrow> int \<Rightarrow> int \<Rightarrow> bool" where
  "phase c T a w L m \<longleftrightarrow> m \<le> 2 * L \<and> (T < a \<longrightarrow> m = 0) \<and>
     ((m \<le> L \<and> (\<forall>n e. c = Some (n, e) \<longrightarrow> m \<le> n)) \<or> (\<exists>n e. c = Some (n, e) \<and> m \<le> L + n \<and> a + w \<le> e) \<or> a + w \<le> T)"

definition grown :: "nat \<Rightarrow> time \<Rightarrow> (int \<times> time) option \<Rightarrow> (int \<times> time) option" where
  "grown j e0 c = (case c of Some (n, e) \<Rightarrow> Some (n + int j, e) | None \<Rightarrow> if j = 0 then None else Some (int j, e0))"

lemma phase_later:
  assumes "phase c T a w L m" "T \<le> t" "c' = (case c of Some (n, e) \<Rightarrow> if t < e then Some (n, e) else None | None \<Rightarrow> None)"
  shows "phase c' t a w L m"
proof (cases c)
  case (Some p)
  then show ?thesis using assms by (cases p) (auto simp: phase_def)
qed (use assms in \<open>auto simp: phase_def\<close>)

lemma phase_grown:
  assumes "phase c t a w L m" "0 < w" "\<And>n e. c = Some (n, e) \<Longrightarrow> j > 0 \<Longrightarrow> n < L" "0 < L"
  shows "phase (grown j (t + w) c) t a w L (if j > 0 \<and> a \<le> t \<and> t < a + w then m + 1 else m)"
proof (cases "j = 0")
  case True
  then show ?thesis using assms(1) by (auto simp: grown_def split: option.splits)
next
  case False
  let ?m = "if a \<le> t \<and> t < a + w then m + 1 else m"
  have m: "?m \<le> m + 1" "t < a \<Longrightarrow> ?m = 0" "\<not> a + w \<le> t \<Longrightarrow> \<not> a \<le> t \<Longrightarrow> m = 0" "a + w \<le> t \<Longrightarrow> ?m = m"
    using assms(1) by (auto simp: phase_def)
  show ?thesis
  proof (cases c)
    case None
    have "a + w \<le> t \<or> m \<le> L" using assms(1) None by (auto simp: phase_def)
    then have "?m \<le> 2 * L" "a + w \<le> t \<or> ?m \<le> L + int j" using assms(1,4) False by (auto simp: phase_def)
    moreover have "?m \<le> L \<and> ?m \<le> int j \<or> a + w \<le> t + w \<or> a + w \<le> t" using m(3) assms(4) by auto
    ultimately show ?thesis using False None m(2) by (auto simp: phase_def grown_def)
  next
    case (Some p)
    obtain n e where p: "p = (n, e)" by (cases p)
    have n: "n < L" using assms(3) Some p False by simp
    have "?m \<le> 2 * L" "m \<le> L \<and> m \<le> n \<Longrightarrow> ?m \<le> L \<and> ?m \<le> n + int j" "m \<le> L + n \<Longrightarrow> ?m \<le> L + (n + int j)"
      using assms(1,4) n False Some p by (auto simp: phase_def)
    then show ?thesis using assms(1) False Some p m(2)
      by (cases "a \<le> t \<and> t < a + w") (auto simp: phase_def grown_def)
  qed
qed

locale window_counters =
  fixes counter :: "'s \<Rightarrow> string \<Rightarrow> time \<Rightarrow> (int \<times> time) option"
    and attempt :: "time \<Rightarrow> login_counter list \<Rightarrow> 's \<Rightarrow> bool \<times> 's"
    and forget :: "time \<Rightarrow> 'e \<Rightarrow> 's \<Rightarrow> 's"
    and touched :: "'e \<Rightarrow> string set"
    and ready :: "nat \<Rightarrow> 's \<Rightarrow> bool"
    and width :: duration
  assumes width_pos: "0 < width"
    and counter_runs: "counter s k t = Some (n, e) \<Longrightarrow> t \<le> t' \<Longrightarrow> counter s k t' = (if t' < e then Some (n, e) else None)"
    and counter_gone: "counter s k t = None \<Longrightarrow> t \<le> t' \<Longrightarrow> counter s k t' = None"
    and try_ready: "ready (length cs + j) s \<Longrightarrow> ready j (snd (attempt t cs s))"
    and try_blocked: "ready (length cs) s \<Longrightarrow> attempt t cs s = (False, s') \<Longrightarrow> counter s' k t = counter s k t"
    and try_within: "ready (length cs) s \<Longrightarrow> attempt t cs s = (True, s') \<Longrightarrow> c \<in> set cs \<Longrightarrow> counter s (lc_key c) t = Some (n, e) \<Longrightarrow> n < lc_limit c"
    and try_charges: "ready (length cs) s \<Longrightarrow> attempt t cs s = (True, s') \<Longrightarrow> counter s' k t = grown (count_list (keys_of cs) k) (t + width) (counter s k t)"
    and forget_ready: "ready j s \<Longrightarrow> ready j (forget t x s)"
    and forget_other: "ready 0 s \<Longrightarrow> k \<notin> touched x \<Longrightarrow> counter (forget t x s) k t = counter s k t"
    and ready_mono: "ready j s \<Longrightarrow> i \<le> j \<Longrightarrow> ready i s"
begin

lemma phase_time: "phase (counter s k T) T a width L m \<Longrightarrow> T \<le> t \<Longrightarrow> phase (counter s k t) t a width L m"
proof (rule phase_later)
  assume "T \<le> t"
  then show "counter s k t = (case counter s k T of Some (n, e) \<Rightarrow> if t < e then Some (n, e) else None | None \<Rightarrow> None)"
    using counter_gone [of s k T t] counter_runs [of s k T _ _ t] by (cases "counter s k T") auto
qed

lemma phase_try:
  assumes "phase (counter s k t) t a width L m" "ready (length cs) s" "attempt t cs s = (ok, s')" "0 < L"
    and "\<And>c. c \<in> set cs \<Longrightarrow> lc_key c = k \<Longrightarrow> lc_limit c = L"
  shows "phase (counter s' k t) t a width L (m + int (length (charged_in k a width (if ok then [(t, cs)] else []))))"
proof (cases ok)
  case False
  then show ?thesis using assms try_blocked by (simp add: charged_in_def)
next
  case True
  let ?j = "count_list (keys_of cs) k"
  have j: "?j > 0 \<longleftrightarrow> k \<in> set (keys_of cs)" by (metis count_list_0_iff gr0I less_numeral_extra(3))
  have "n < L" if now: "counter s k t = Some (n, e)" "?j > 0" for n e
  proof -
    obtain c where "c \<in> set cs" "lc_key c = k" using now(2) j by auto
    then show ?thesis using try_within [OF assms(2)] assms(3,5) now(1) True by metis
  qed
  then have "phase (grown ?j (t + width) (counter s k t)) t a width L (if ?j > 0 \<and> a \<le> t \<and> t < a + width then m + 1 else m)"
    using phase_grown [OF assms(1) width_pos] assms(4) by blast
  moreover have "(if ?j > 0 \<and> a \<le> t \<and> t < a + width then m + 1 else m) = m + int (length (charged_in k a width [(t, cs)]))"
    using j by (simp add: charged_in_def)
  moreover have "counter s' k t = grown ?j (t + width) (counter s k t)" using try_charges [OF assms(2)] assms(3) True by simp
  ultimately show ?thesis using True by simp
qed

theorem attempts_bounded:
  assumes "phase (counter s k T) T a width L m" "0 < L"
    and "sorted (map event_time evs)" "\<forall>e \<in> set evs. T \<le> event_time e"
    and "ready (sum_list (map event_charges evs)) s"
    and "\<forall>t cs. Try t cs \<in> set evs \<longrightarrow> (\<forall>c \<in> set cs. lc_key c = k \<longrightarrow> lc_limit c = L)"
    and "\<forall>t e. Forget t e \<in> set evs \<longrightarrow> k \<notin> touched e"
  shows "m + int (length (charged_in k a width (window_run attempt forget evs s))) \<le> 2 * L"
  using assms
proof (induction evs arbitrary: s T m)
  case Nil
  then show ?case by (simp add: phase_def charged_in_def)
next
  case (Cons ev evs)
  have later: "\<forall>e \<in> set evs. event_time ev \<le> event_time e" "sorted (map event_time evs)" using Cons.prems(3) by auto
  have ph: "phase (counter s k (event_time ev)) (event_time ev) a width L m"
    using phase_time [OF Cons.prems(1)] Cons.prems(4) by simp
  show ?case
  proof (cases ev)
    case (Try t cs)
    obtain ok s' where attempt: "attempt t cs s = (ok, s')" by fastforce
    have r: "ready (length cs) s" "ready (sum_list (map event_charges evs)) s'"
      using Cons.prems(5) try_ready [of cs "sum_list (map event_charges evs)" s t] ready_mono Try attempt by auto
    let ?m = "m + int (length (charged_in k a width (if ok then [(t, cs)] else [])))"
    have "phase (counter s' k t) t a width L ?m"
      using phase_try [OF _ r(1) attempt Cons.prems(2)] ph Cons.prems(6) Try by (metis event_time.simps(1) list.set_intros(1))
    from Cons.IH [OF this Cons.prems(2) later(2) _ r(2)] later(1) Cons.prems(6,7) Try
    have "?m + int (length (charged_in k a width (window_run attempt forget evs s'))) \<le> 2 * L" by auto
    then show ?thesis using Try attempt by (auto simp: charged_in_def)
  next
    case (Forget t e)
    have r: "ready 0 s" "ready (sum_list (map event_charges evs)) (forget t e s)"
      using Cons.prems(5) forget_ready ready_mono Forget by auto
    have "phase (counter (forget t e s) k t) t a width L m" using ph forget_other [OF r(1)] Cons.prems(7) Forget by auto
    from Cons.IH [OF this Cons.prems(2) later(2) _ r(2)] later(1) Cons.prems(6,7) Forget show ?thesis by auto
  qed
qed

end

section \<open>The process-local table\<close>

definition cnt_at :: "time \<Rightarrow> counter_table \<Rightarrow> string \<Rightarrow> (int \<times> time) option" where
  "cnt_at now t k = (case map_of t k of Some e \<Rightarrow> if now < l_expires e then Some (l_count e, l_expires e) else None | None \<Rightarrow> None)"

text \<open>\<open>pruned now t t'\<close>: only counters whose window is over were dropped.\<close>

definition pruned :: "time \<Rightarrow> counter_table \<Rightarrow> counter_table \<Rightarrow> bool" where
  "pruned now t t' \<longleftrightarrow> distinct (map fst t') \<and> length t' \<le> length t \<and>
     (\<forall>k. map_of t' k = map_of t k \<or> (map_of t' k = None \<and> (\<exists>e. map_of t k = Some e \<and> l_expires e \<le> now)))"

lemma pruned_refl: "distinct (map fst t) \<Longrightarrow> pruned now t t"
  by (simp add: pruned_def)

lemma pruned_trans:
  assumes "pruned now t t1" "pruned now t1 t2"
  shows "pruned now t t2"
proof -
  have "map_of t2 k = map_of t k \<or> (map_of t2 k = None \<and> (\<exists>e. map_of t k = Some e \<and> l_expires e \<le> now))" for k
  proof -
    have "map_of t1 k = map_of t k \<or> (map_of t1 k = None \<and> (\<exists>e. map_of t k = Some e \<and> l_expires e \<le> now))"
      "map_of t2 k = map_of t1 k \<or> (map_of t2 k = None \<and> (\<exists>e. map_of t1 k = Some e \<and> l_expires e \<le> now))"
      using assms by (simp_all add: pruned_def)
    then show ?thesis by (cases "map_of t1 k") auto
  qed
  then show ?thesis using assms by (simp add: pruned_def)
qed

lemma pruned_cnt: "pruned now t t' \<Longrightarrow> cnt_at now t' k = cnt_at now t k"
proof -
  assume "pruned now t t'"
  then have "map_of t' k = map_of t k \<or> (map_of t' k = None \<and> (\<exists>e. map_of t k = Some e \<and> l_expires e \<le> now))" by (simp add: pruned_def)
  then show ?thesis by (auto simp: cnt_at_def)
qed

lemma length_alist_delete: "length (AList.delete k t) \<le> length t"
  by (simp add: AList.delete_eq)

lemma live_pruned: "distinct (map fst t) \<Longrightarrow> pruned now t (snd (live k now t))"
  by (auto simp: live_def pruned_def delete_conv' length_alist_delete distinct_delete_keys split: option.splits)

lemma live_fst: "fst (live k now t) = (case map_of t k of Some e \<Rightarrow> if now < l_expires e then Some e else None | None \<Rightarrow> None)"
  by (simp add: live_def split: option.splits)

lemma live_cnt: "cnt_at now t k = map_option (\<lambda>e. (l_count e, l_expires e)) (fst (live k now t))"
  by (simp add: live_fst cnt_at_def split: option.splits)

lemma live_None_gone: "distinct (map fst t) \<Longrightarrow> fst (live k now t) = None \<Longrightarrow> map_of (snd (live k now t)) k = None"
  by (cases "map_of t k") (simp_all add: live_def delete_conv' split: if_splits)

lemma live_Some_same: "live k now t = (Some e, t') \<Longrightarrow> t' = t \<and> map_of t k = Some e \<and> now < l_expires e"
  by (auto simp: live_def split: option.splits if_splits)

lemma first_exhausted_spec:
  assumes "distinct (map fst t)" "first_exhausted cs now t = (r, t')"
  shows "pruned now t t' \<and>
    (case r of None \<Rightarrow> \<forall>c \<in> set cs. \<forall>n e. cnt_at now t (lc_key c) = Some (n, e) \<longrightarrow> n < lc_limit c
     | Some (c, d) \<Rightarrow> c \<in> set cs \<and> (\<exists>n. cnt_at now t (lc_key c) = Some (n, now + d) \<and> lc_limit c \<le> n))"
  using assms
proof (induction cs arbitrary: t)
  case Nil
  then show ?case by (auto simp: pruned_refl)
next
  case (Cons c cs)
  obtain x t1 where l: "live (lc_key c) now t = (x, t1)" by fastforce
  have p: "pruned now t t1" using live_pruned [OF Cons.prems(1), of now "lc_key c"] l by simp
  then have d: "distinct (map fst t1)" by (simp add: pruned_def)
  have c: "cnt_at now t (lc_key c) = map_option (\<lambda>e. (l_count e, l_expires e)) x" using live_cnt [of now t "lc_key c"] l by simp
  show ?case
  proof (cases "\<exists>e. x = Some e \<and> lc_limit c \<le> l_count e")
    case True
    then show ?thesis using Cons.prems(2) l p c by auto
  next
    case False
    then have rec: "first_exhausted cs now t1 = (r, t')" using Cons.prems(2) l by (auto split: option.splits)
    have "\<forall>n e. cnt_at now t (lc_key c) = Some (n, e) \<longrightarrow> n < lc_limit c" using False c by auto
    then show ?thesis using Cons.IH [OF d rec] pruned_trans [OF p] pruned_cnt [OF p] by (auto split: option.splits)
  qed
qed


lemma count_missing_spec:
  assumes "distinct (map fst t)" "count_missing cs now t = (n, t')"
  shows "pruned now t t' \<and> n \<le> length cs \<and> (\<forall>c \<in> set cs. \<forall>e. map_of t' (lc_key c) = Some e \<longrightarrow> now < l_expires e)"
  using assms
proof (induction cs arbitrary: t n)
  case Nil
  then show ?case by (simp add: pruned_refl)
next
  case (Cons c cs)
  obtain x t1 where l: "live (lc_key c) now t = (x, t1)" by fastforce
  obtain m where rec: "count_missing cs now t1 = (m, t')" using Cons.prems(2) l by (auto split: prod.splits)
  have p: "pruned now t t1" using live_pruned [OF Cons.prems(1), of now "lc_key c"] l by simp
  then have IH: "pruned now t1 t'" "m \<le> length cs" "\<forall>c \<in> set cs. \<forall>e. map_of t' (lc_key c) = Some e \<longrightarrow> now < l_expires e"
    using Cons.IH [OF _ rec] by (simp_all add: pruned_def)
  have "now < l_expires e" if "map_of t1 (lc_key c) = Some e" for e
    using that l live_None_gone [OF Cons.prems(1), of "lc_key c" now] live_Some_same [of "lc_key c" now t _ t1] by (cases x) auto
  then have "\<forall>e. map_of t' (lc_key c) = Some e \<longrightarrow> now < l_expires e" using IH(1) unfolding pruned_def by (metis option.distinct(1))
  moreover have "n \<le> Suc m" using Cons.prems(2) l rec by (auto split: if_splits)
  ultimately show ?case using IH pruned_trans [OF p IH(1)] by auto
qed

lemma add_charge_lookup:
  "map_of (add_charge window now u c t) k =
    (if k = lc_key c then Some ((case map_of t k of Some e \<Rightarrow> e | None \<Rightarrow> \<lparr>l_count = 0, l_unshared = 0, l_limit = 0, l_expires = now + window\<rparr>)
       \<lparr>l_count := (case map_of t k of Some e \<Rightarrow> l_count e | None \<Rightarrow> 0) + 1,
        l_unshared := (case map_of t k of Some e \<Rightarrow> l_unshared e | None \<Rightarrow> 0) + (if u then 1 else 0), l_limit := lc_limit c\<rparr>)
     else map_of t k)"
  by (simp add: add_charge_def Let_def update_conv' split: option.splits)

lemma distinct_add_charge: "distinct (map fst t) \<Longrightarrow> distinct (map fst (add_charge window now u c t))"
  by (simp add: add_charge_def Let_def distinct_update)

lemma length_alist_update: "length (AList.update k v t) = (if k \<in> set (map fst t) then length t else Suc (length t))"
  by (induction t) auto

lemma length_add_charge: "length (add_charge window now u c t) \<le> Suc (length t)"
  by (simp add: add_charge_def Let_def length_alist_update)

lemma fold_charge_facts:
  "distinct (map fst t) \<Longrightarrow> distinct (map fst (fold (add_charge window now u) cs t)) \<and>
     length (fold (add_charge window now u) cs t) \<le> length t + length cs"
proof (induction cs arbitrary: t)
  case (Cons c cs)
  have "distinct (map fst (add_charge window now u c t))" using Cons.prems by (rule distinct_add_charge)
  from Cons.IH [OF this] length_add_charge [of window now u c t] show ?case by auto
qed simp

lemma fold_charge_cnt:
  assumes "0 < window" "\<forall>c \<in> set cs. \<forall>e. map_of t (lc_key c) = Some e \<longrightarrow> now < l_expires e"
  shows "cnt_at now (fold (add_charge window now u) cs t) k = grown (count_list (keys_of cs) k) (now + window) (cnt_at now t k)"
  using assms(2)
proof (induction cs arbitrary: t)
  case Nil
  then show ?case by (simp add: grown_def split: option.splits)
next
  case (Cons c cs)
  have live: "\<forall>c' \<in> set cs. \<forall>e. map_of (add_charge window now u c t) (lc_key c') = Some e \<longrightarrow> now < l_expires e"
    using Cons.prems assms(1) by (auto simp: add_charge_lookup split: option.splits)
  have "cnt_at now (add_charge window now u c t) k = grown (if k = lc_key c then 1 else 0) (now + window) (cnt_at now t k)"
    using Cons.prems assms(1) by (auto simp: cnt_at_def add_charge_lookup grown_def split: option.splits)
  moreover have "grown i e (grown j e x) = grown (i + j) e x" for i j e x by (auto simp: grown_def split: option.splits)
  ultimately show ?case using Cons.IH [OF live] by simp
qed

text \<open>The table as counters with a fixed window, as long as it has room.\<close>

definition local_counter_at :: "local_counters \<Rightarrow> string \<Rightarrow> time \<Rightarrow> (int \<times> time) option" where
  "local_counter_at l k now = cnt_at now (lt_entries l) k"

definition local_try :: "duration \<Rightarrow> time \<Rightarrow> login_counter list \<Rightarrow> local_counters \<Rightarrow> bool \<times> local_counters" where
  "local_try window now cs l = (let (b, _, l') = local_acquire cs window now l in (b = None, l'))"

definition local_forget :: "time \<Rightarrow> login_counter list \<times> bool \<times> bool \<Rightarrow> local_counters \<Rightarrow> local_counters" where
  "local_forget now x l = (case x of (cs, shared, clear) \<Rightarrow> l\<lparr>lt_entries := local_release cs shared clear now (lt_entries l)\<rparr>)"

definition local_ready :: "nat \<Rightarrow> local_counters \<Rightarrow> bool" where
  "local_ready n l \<longleftrightarrow> distinct (map fst (lt_entries l)) \<and> length (lt_entries l) + n \<le> lt_max l"

lemma reportable_table: "lt_entries (snd (reportable n now l)) = lt_entries l" "lt_max (snd (reportable n now l)) = lt_max l"
  by (simp_all add: reportable_def)

lemma charge_ready:
  assumes "local_ready (length cs) l" "0 < window"
  shows "distinct (map fst (lt_entries (snd (charge cs window now u l)))) \<and> lt_max (snd (charge cs window now u l)) = lt_max l \<and>
    length (lt_entries (snd (charge cs window now u l))) \<le> length (lt_entries l) + length cs \<and>
    cnt_at now (lt_entries (snd (charge cs window now u l))) k = grown (count_list (keys_of cs) k) (now + window) (cnt_at now (lt_entries l) k)"
proof -
  obtain n t where m: "count_missing cs now (lt_entries l) = (n, t)" by fastforce
  have d: "distinct (map fst (lt_entries l))" using assms(1) by (simp add: local_ready_def)
  note f = count_missing_spec [OF d m]
  have "length t + n \<le> lt_max l" using f assms(1) by (auto simp: pruned_def local_ready_def)
  then have c: "lt_entries (snd (charge cs window now u l)) = fold (add_charge window now u) cs t" "lt_max (snd (charge cs window now u l)) = lt_max l"
    using m by (simp_all add: charge_def makeRoom_def reportable_table)
  have t: "distinct (map fst t)" "length t \<le> length (lt_entries l)" "cnt_at now t k = cnt_at now (lt_entries l) k"
    using f pruned_cnt by (auto simp: pruned_def)
  show ?thesis unfolding c using fold_charge_facts [OF t(1), of window now u cs] fold_charge_cnt [OF assms(2)] f t by auto
qed


lemma local_try_allowed:
  assumes "local_ready (length cs) l" "local_try window now cs l = (True, l')" "0 < window"
  shows "(\<forall>c \<in> set cs. \<forall>n e. local_counter_at l (lc_key c) now = Some (n, e) \<longrightarrow> n < lc_limit c) \<and>
    local_counter_at l' k now = grown (count_list (keys_of cs) k) (now + window) (local_counter_at l k now) \<and>
    distinct (map fst (lt_entries l')) \<and> lt_max l' = lt_max l \<and> length (lt_entries l') \<le> length (lt_entries l) + length cs"
proof -
  obtain t where t: "first_exhausted cs now (lt_entries l) = (None, t)" "l' = snd (charge cs window now True (l\<lparr>lt_entries := t\<rparr>))"
    using assms(2) by (auto simp: local_try_def local_acquire_def split: prod.splits option.splits)
  have p: "pruned now (lt_entries l) t" "\<forall>c \<in> set cs. \<forall>n e. cnt_at now (lt_entries l) (lc_key c) = Some (n, e) \<longrightarrow> n < lc_limit c"
    using first_exhausted_spec [OF _ t(1)] assms(1) by (auto simp: local_ready_def)
  have "local_ready (length cs) (l\<lparr>lt_entries := t\<rparr>)" using p(1) assms(1) by (auto simp: local_ready_def pruned_def)
  from charge_ready [OF this assms(3), of now True k] p pruned_cnt [OF p(1), of k] show ?thesis
    unfolding t(2) by (auto simp: local_counter_at_def pruned_def)
qed

lemma local_try_refused:
  assumes "local_ready 0 l" "local_try window now cs l = (False, l')"
  shows "local_counter_at l' k now = local_counter_at l k now \<and> distinct (map fst (lt_entries l')) \<and> lt_max l' = lt_max l \<and>
    length (lt_entries l') \<le> length (lt_entries l) \<and>
    (\<exists>c \<in> set cs. \<exists>n e. local_counter_at l (lc_key c) now = Some (n, e) \<and> lc_limit c \<le> n)"
proof -
  obtain b t where t: "first_exhausted cs now (lt_entries l) = (Some b, t)" "l' = l\<lparr>lt_entries := t\<rparr>"
    using assms(2) by (auto simp: local_try_def local_acquire_def split: prod.splits option.splits)
  show ?thesis using first_exhausted_spec [OF _ t(1)] assms(1) pruned_cnt t(2)
    by (fastforce simp: local_ready_def local_counter_at_def pruned_def)
qed

lemma length_update_present: "map_of t k \<noteq> None \<Longrightarrow> length (AList.update k v t) = length t"
  using map_of_eq_None_iff [of t k] by (simp add: length_alist_update)

lemma cnt_at_other: "k \<noteq> k' \<Longrightarrow> cnt_at now (AList.delete k' t) k = cnt_at now t k" "k \<noteq> k' \<Longrightarrow> cnt_at now (AList.update k' v t) k = cnt_at now t k"
  by (simp_all add: cnt_at_def delete_conv' update_conv')

lemma local_release_facts:
  "distinct (map fst t) \<Longrightarrow> distinct (map fst (local_release cs shared clear now t)) \<and> length (local_release cs shared clear now t) \<le> length t \<and>
     (k \<notin> set (keys_of cs) \<longrightarrow> cnt_at now (local_release cs shared clear now t) k = cnt_at now t k)"
proof (induction cs arbitrary: t)
  case (Cons c cs)
  let ?t = "if clear \<and> lc_scope c \<noteq> LoginScopeIP then AList.delete (lc_key c) t
        else case live (lc_key c) now t of
            (None, t1) \<Rightarrow> t1
          | (Some e, t1) \<Rightarrow>
              if l_count e \<le> 1 then AList.delete (lc_key c) t1
              else AList.update (lc_key c)
                     (e\<lparr>l_count := l_count e - 1, l_unshared := (if \<not> shared \<and> l_unshared e > 0 then l_unshared e - 1 else l_unshared e)\<rparr>) t1"
  have "distinct (map fst ?t) \<and> length ?t \<le> length t \<and> (k \<noteq> lc_key c \<longrightarrow> cnt_at now ?t k = cnt_at now t k)"
  proof (cases "clear \<and> lc_scope c \<noteq> LoginScopeIP")
    case True
    then show ?thesis using Cons.prems by (simp add: distinct_delete_keys length_alist_delete cnt_at_other)
  next
    case False
    obtain x t1 where l: "live (lc_key c) now t = (x, t1)" by fastforce
    have p: "pruned now t t1" using live_pruned [OF Cons.prems, of now "lc_key c"] l by simp
    show ?thesis
    proof (cases x)
      case None
      then show ?thesis using False l p pruned_cnt [OF p] by (auto simp: pruned_def)
    next
      case (Some e)
      then have "t1 = t" "map_of t (lc_key c) \<noteq> None" using l live_Some_same [of "lc_key c" now t e t1] by simp_all
      then show ?thesis using False l Some Cons.prems length_alist_delete [of "lc_key c" t]
        by (simp add: distinct_delete_keys distinct_update cnt_at_other length_update_present)
    qed
  qed
  moreover from this have "distinct (map fst ?t)" by blast
  note Cons.IH [OF this]
  ultimately show ?case by (simp only: local_release.simps) auto
qed simp

lemma local_counters_window:
  assumes "0 < window"
  shows "window_counters local_counter_at (local_try window) local_forget (\<lambda>x. set (keys_of (fst x))) local_ready window"
proof
  show "0 < window" by (rule assms)
next
  fix s k t n e t'
  assume "local_counter_at s k t = Some (n, e)" "t \<le> t'"
  then show "local_counter_at s k t' = (if t' < e then Some (n, e) else None)"
    by (auto simp: local_counter_at_def cnt_at_def split: option.splits if_splits)
next
  fix s k t t'
  assume "local_counter_at s k t = None" "t \<le> t'"
  then show "local_counter_at s k t' = None" by (auto simp: local_counter_at_def cnt_at_def split: option.splits if_splits)
next
  fix cs :: "login_counter list" and j s t
  assume r: "local_ready (length cs + j) s"
  obtain ok s' where e: "local_try window t cs s = (ok, s')" by fastforce
  have "local_ready (length cs) s" "local_ready 0 s" using r by (auto simp: local_ready_def)
  then show "local_ready j (snd (local_try window t cs s))"
    using r e local_try_allowed [OF _ _ assms, of cs s t s' "[]"] local_try_refused [of s window t cs s' "[]"]
    by (cases ok) (auto simp: local_ready_def)
next
  fix cs :: "login_counter list" and s t s' k
  assume "local_ready (length cs) s" "local_try window t cs s = (False, s')"
  then show "local_counter_at s' k t = local_counter_at s k t" using local_try_refused [of s window t cs s' k] by (simp add: local_ready_def)
next
  fix cs :: "login_counter list" and s t s' c n e
  assume "local_ready (length cs) s" "local_try window t cs s = (True, s')" "c \<in> set cs" "local_counter_at s (lc_key c) t = Some (n, e)"
  then show "n < lc_limit c" using local_try_allowed [OF _ _ assms] by blast
next
  fix cs :: "login_counter list" and s t s' k
  assume "local_ready (length cs) s" "local_try window t cs s = (True, s')"
  then show "local_counter_at s' k t = grown (count_list (keys_of cs) k) (t + window) (local_counter_at s k t)"
    using local_try_allowed [OF _ _ assms] by blast
next
  fix j s t and x :: "login_counter list \<times> bool \<times> bool"
  assume "local_ready j s"
  then show "local_ready j (local_forget t x s)"
    using local_release_facts [of "lt_entries s" "fst x" "fst (snd x)" "snd (snd x)" t "[]"]
    by (cases x) (auto simp: local_ready_def local_forget_def)
next
  fix s k t and x :: "login_counter list \<times> bool \<times> bool"
  assume "local_ready 0 s" "k \<notin> set (keys_of (fst x))"
  then show "local_counter_at (local_forget t x s) k t = local_counter_at s k t"
    using local_release_facts [of "lt_entries s" "fst x" "fst (snd x)" "snd (snd x)" t k]
    by (cases x) (auto simp: local_ready_def local_forget_def local_counter_at_def)
next
  fix j s i
  assume "local_ready j s" "i \<le> j"
  then show "local_ready i s" by (simp add: local_ready_def)
qed

interpretation approvals: window_counters local_counter_at "local_try (tc_window ApprovalThrottleConfig)" local_forget
    "\<lambda>x. set (keys_of (fst x))" local_ready "tc_window ApprovalThrottleConfig"
  by (rule local_counters_window) (simp add: ApprovalThrottleConfig_def minute_def second_def)

section \<open>Guessing is bounded\<close>

lemma namespaced_prefix:
  "namespaced cfg (prefixLoginFailures @ y) = (if tc_namespace cfg = [] then prefixLoginFailures else ''auth:{'' @ tc_namespace cfg @ ''}:failures:'') @ y"
  by (simp add: namespaced_def trim_prefix_def has_prefix_def)

lemma counter_key_limit:
  assumes "c \<in> set (counters cfg account ip)" "c' \<in> set (counters cfg account' ip')" "lc_key c = lc_key c'"
  shows "lc_limit c = lc_limit c'"
  using assms
  by (auto simp: counters_def loginUserIPKey_def loginUserKey_def loginIPKey_def namespaced_prefix LoginScopeUserIP_def LoginScopeUser_def
      LoginScopeIP_def split: if_splits)

lemma counter_facts:
  "length (counters cfg account ip) \<le> 3"
  "c \<in> set (counters cfg account ip) \<Longrightarrow> 0 < lc_limit c \<and> 0 < tc_window cfg"
  "c \<in> set (counters cfg account ip) \<Longrightarrow> counters cfg account' ip' \<noteq> []"
  by (auto simp: counters_def split: if_splits)

datatype login_event = Login time redis_link int string string | Finished time redis_link int login_attempt bool

fun login_time :: "login_event \<Rightarrow> time" where
  "login_time (Login now _ _ _ _) = now"
| "login_time (Finished now _ _ _ _) = now"

text \<open>The attempts of a run with their outcome: each login asks \<open>Acquire\<close>, and an attempt may be finished with
  \<open>Success\<close> or \<open>Cancel\<close>.\<close>

fun login_log :: "'r throttle \<Rightarrow> login_event list \<Rightarrow> 'r throttle_state \<Rightarrow> (time \<times> string \<times> string \<times> bool) list" where
  "login_log th [] s = []"
| "login_log th (Login now link ms account ip # evs) s =
     (let (a, s') = Acquire th link now ms account ip s in (now, account, ip, la_allowed a) # login_log th evs s')"
| "login_log th (Finished now link ms a ok # evs) s = login_log th evs (release th link now ms a ok s)"

fun table_event :: "throttle_config \<Rightarrow> login_event \<Rightarrow> (login_counter list \<times> bool \<times> bool) window_event" where
  "table_event cfg (Login now _ _ account ip) = Try now (counters cfg account ip)"
| "table_event cfg (Finished now _ _ a ok) = Forget now (if la_allowed a then la_counters a else [], la_shared a, ok)"

lemma table_event_Try: "Try t cs = table_event cfg ev \<Longrightarrow> \<exists>account ip. cs = counters cfg account ip"
  by (cases ev) auto

lemma table_event_Forget:
  "Forget t x = table_event cfg ev \<Longrightarrow> \<exists>link ms a ok. ev = Finished t link ms a ok \<and> fst x = (if la_allowed a then la_counters a else [])"
  by (cases ev) auto

lemma acquire_is_try:
  assumes "th_redis th = None" "counters (th_config th) account ip \<noteq> []"
  shows "(la_allowed (fst (Acquire th link now ms account ip s)), ts_local (snd (Acquire th link now ms account ip s))) =
    local_try (tc_window (th_config th)) now (counters (th_config th) account ip) (ts_local s)"
  using assms by (auto simp: Acquire_def acquire_locally_def local_try_def warnEvicted_def Let_def split: prod.splits option.splits)

lemma release_is_forget:
  "th_redis th = None \<Longrightarrow> ts_local (release th link now ms a ok s) =
     local_forget now (if la_allowed a then la_counters a else [], la_shared a, ok) (ts_local s)"
  by (simp add: release_def local_forget_def)

lemma login_log_run:
  assumes "th_redis th = None" "\<And>account ip. counters (th_config th) account ip \<noteq> []"
  shows "map (\<lambda>(t, account, ip, ok). (t, counters (th_config th) account ip)) (filter (\<lambda>(t, account, ip, ok). ok) (login_log th evs s)) =
    window_run (local_try (tc_window (th_config th))) local_forget (map (table_event (th_config th)) evs) (ts_local s)"
proof (induction evs arbitrary: s)
  case (Cons ev evs)
  show ?case
  proof (cases ev)
    case (Login now link ms account ip)
    obtain a s' where a: "Acquire th link now ms account ip s = (a, s')" by fastforce
    have "local_try (tc_window (th_config th)) now (counters (th_config th) account ip) (ts_local s) = (la_allowed a, ts_local s')"
      using acquire_is_try [OF assms, of link now ms account ip s] a by simp
    then show ?thesis using Login a Cons.IH [of s'] by simp
  next
    case (Finished now link ms a ok)
    then show ?thesis using Cons.IH [of "release th link now ms a ok s"] release_is_forget [OF assms(1)] by simp
  qed
qed simp

lemma sum_charges: "sum_list (map event_charges (map (table_event cfg) evs)) \<le> 3 * length evs"
proof (induction evs)
  case (Cons ev evs)
  have "event_charges (table_event cfg ev) \<le> 3" using counter_facts(1) by (cases ev) auto
  then show ?case using Cons by simp
qed simp

text \<open>With the counters in process memory, at most twice the limit of attempts per counter get as far as a
  password check within any span of one window, however attempts on other accounts and from other
  addresses are mixed in, as long as none of them is handed back and the table has room. This holds for the
  account from one address (for IPv6 a /64 network), the account, and the address.\<close>

theorem login_limit_local:
  assumes "th_redis th = None" "c \<in> set (counters (th_config th) account ip)"
    and "ts_local s = newLocalLoginCounters cap" "3 * length evs \<le> cap"
    and "sorted (map login_time evs)"
    and "\<forall>now link ms a ok. Finished now link ms a ok \<in> set evs \<longrightarrow> lc_key c \<notin> set (keys_of (la_counters a))"
  shows "int (length (filter (\<lambda>(t, account', ip', ok). ok \<and> lc_key c \<in> set (keys_of (counters (th_config th) account' ip')) \<and>
      start \<le> t \<and> t < start + tc_window (th_config th)) (login_log th evs s))) \<le> 2 * lc_limit c"
proof -
  let ?cfg = "th_config th" and ?w = "tc_window (th_config th)"
  let ?evs = "map (table_event ?cfg) evs"
  have pos: "0 < lc_limit c" "0 < ?w" using counter_facts(2) [OF assms(2)] by auto
  have ne: "counters ?cfg account' ip' \<noteq> []" for account' ip' using counter_facts(3) [OF assms(2)] .
  let ?T = "if evs = [] then 0 else login_time (hd evs)"
  have times: "map event_time ?evs = map login_time evs"
  proof -
    have "event_time (table_event ?cfg ev) = login_time ev" for ev by (cases ev) simp_all
    then show ?thesis by simp
  qed
  have sorted: "sorted (map event_time ?evs)" unfolding times by (rule assms(5))
  have later: "\<forall>e \<in> set ?evs. ?T \<le> event_time e"
  proof
    fix e assume "e \<in> set ?evs"
    then have "event_time e \<in> set (map login_time evs)" using times by (metis image_eqI list.set_map)
    then show "?T \<le> event_time e" using assms(5) by (cases evs) auto
  qed
  have ready: "local_ready (sum_list (map event_charges ?evs)) (ts_local s)"
    using assms(3,4) sum_charges [of ?cfg evs] by (simp add: local_ready_def newLocalLoginCounters_def)
  have limits: "\<forall>t cs. Try t cs \<in> set ?evs \<longrightarrow> (\<forall>c' \<in> set cs. lc_key c' = lc_key c \<longrightarrow> lc_limit c' = lc_limit c)"
  proof (intro allI impI ballI)
    fix t cs c' assume "Try t cs \<in> set ?evs" "c' \<in> set cs" "lc_key c' = lc_key c"
    moreover from this obtain account' ip' where "cs = counters ?cfg account' ip'"
      by (auto dest: table_event_Try)
    ultimately show "lc_limit c' = lc_limit c" using counter_key_limit assms(2) by blast
  qed
  have others: "\<forall>t x. Forget t x \<in> set ?evs \<longrightarrow> lc_key c \<notin> set (keys_of (fst x))"
    using assms(6) by (fastforce dest: table_event_Forget)
  have "phase (local_counter_at (ts_local s) (lc_key c) ?T) ?T start ?w (lc_limit c) 0"
    using pos assms(3) by (simp add: phase_def local_counter_at_def cnt_at_def newLocalLoginCounters_def)
  from window_counters.attempts_bounded [OF local_counters_window [OF pos(2)] this pos(1) sorted later ready limits others]
  have "int (length (charged_in (lc_key c) start ?w (map (\<lambda>(t, account, ip, ok). (t, counters ?cfg account ip))
      (filter (\<lambda>(t, account, ip, ok). ok) (login_log th evs s))))) \<le> 2 * lc_limit c"
    unfolding login_log_run [OF assms(1) ne] by simp
  then show ?thesis by (simp add: charged_in_def filter_map comp_def case_prod_unfold conj_commute conj_left_commute)
qed

definition demo_throttle :: "unit throttle" where
  "demo_throttle = \<lparr>th_config = ApprovalThrottleConfig, th_redis = None\<rparr>"

definition demo_logins :: "login_event list" where
  "demo_logins = map (\<lambda>i. Login (int i) Unreached 0 ''ada'' ''10.0.0.1'') [0..<100]"

theorem login_limit_local_witness:
  "int (length (filter (\<lambda>(t, account, ip, ok). ok \<and> lc_key (hd (counters ApprovalThrottleConfig ''ada'' ''10.0.0.1''))
        \<in> set (keys_of (counters ApprovalThrottleConfig account ip)) \<and> 0 \<le> t \<and> t < 0 + tc_window ApprovalThrottleConfig)
      (login_log demo_throttle demo_logins \<lparr>ts_local = newLocalLoginCounters maxLocalLoginCounters, ts_redis = (), ts_warned = []\<rparr>))) \<le> 10"
proof -
  let ?c = "hd (counters ApprovalThrottleConfig ''ada'' ''10.0.0.1'')"
  have c: "?c \<in> set (counters (th_config demo_throttle) ''ada'' ''10.0.0.1'')" "lc_limit ?c = 5"
    by (simp_all add: counters_def ApprovalThrottleConfig_def demo_throttle_def minute_def second_def)
  have "sorted (map login_time demo_logins)" "3 * length demo_logins \<le> maxLocalLoginCounters"
    by (simp_all add: demo_logins_def comp_def sorted_map maxLocalLoginCounters_def)
  moreover have "\<forall>now link ms a ok. Finished now link ms a ok \<in> set demo_logins \<longrightarrow> lc_key ?c \<notin> set (keys_of (la_counters a))"
    by (auto simp: demo_logins_def)
  ultimately show ?thesis
    using login_limit_local [OF _ c(1), where s = "\<lparr>ts_local = newLocalLoginCounters maxLocalLoginCounters, ts_redis = (), ts_warned = []\<rparr>"
        and evs = demo_logins and start = 0 and cap = maxLocalLoginCounters] c(2)
    by (simp add: demo_throttle_def)
qed

end
