(* ===== verification/LoginRedis.thy ===== *)
theory LoginRedis
  imports LoginProps
begin

text \<open>
  The login counters in Redis. The locale \<open>redis_server\<close> states what the commands of the two scripts do to
  the stored values and expiry times, as Redis documents them; \<open>redis_counters\<close> adds a window, and there the
  scripts are counters with a fixed window like the process-local table, so the same bound holds for
  all replicas together.
\<close>

section \<open>The commands\<close>

type_synonym redis_value = "int \<times> int option"

definition unexpired :: "int \<Rightarrow> redis_value option \<Rightarrow> redis_value option" where
  "unexpired ms v = (case v of Some (n, Some e) \<Rightarrow> if ms < e then v else None | _ \<Rightarrow> v)"

locale redis_server =
  fixes ops :: "'r redis_ops"
    and stored :: "'r \<Rightarrow> string \<Rightarrow> redis_value option"
  assumes get: "rd_get ops ms k r = map_option fst (unexpired ms (stored r k))"
    and incr: "stored (rd_incr ops ms k r) = (stored r)(k \<mapsto> (case unexpired ms (stored r k) of Some (n, x) \<Rightarrow> (n + 1, x) | None \<Rightarrow> (1, None)))"
    and decr: "stored (rd_decr ops ms k r) = (stored r)(k \<mapsto> (case unexpired ms (stored r k) of Some (n, x) \<Rightarrow> (n - 1, x) | None \<Rightarrow> (- 1, None)))"
    and del: "stored (rd_del ops ms k r) = (stored r)(k := None)"
    and pttl: "rd_pttl ops ms k r = (case unexpired ms (stored r k) of None \<Rightarrow> - 2 | Some (_, None) \<Rightarrow> - 1 | Some (_, Some e) \<Rightarrow> e - ms)"
    and pexpire: "0 < w \<Longrightarrow> stored (rd_pexpire ops ms k w r) =
      (case unexpired ms (stored r k) of None \<Rightarrow> stored r | Some (n, _) \<Rightarrow> (stored r)(k \<mapsto> (n, Some (ms + w))))"

text \<open>A store that keeps values and expiry times in a map.\<close>

definition mem_redis :: "(string \<Rightarrow> redis_value option) redis_ops" where
  "mem_redis = \<lparr>rd_get = (\<lambda>ms k r. map_option fst (unexpired ms (r k))),
     rd_incr = (\<lambda>ms k r. r(k \<mapsto> (case unexpired ms (r k) of Some (n, x) \<Rightarrow> (n + 1, x) | None \<Rightarrow> (1, None)))),
     rd_decr = (\<lambda>ms k r. r(k \<mapsto> (case unexpired ms (r k) of Some (n, x) \<Rightarrow> (n - 1, x) | None \<Rightarrow> (- 1, None)))),
     rd_del = (\<lambda>ms k r. r(k := None)),
     rd_pttl = (\<lambda>ms k r. case unexpired ms (r k) of None \<Rightarrow> - 2 | Some (_, None) \<Rightarrow> - 1 | Some (_, Some e) \<Rightarrow> e - ms),
     rd_pexpire = (\<lambda>ms k w r. case unexpired ms (r k) of None \<Rightarrow> r | Some (n, _) \<Rightarrow> r(k \<mapsto> (n, Some (ms + w))))\<rparr>"

interpretation mem_redis: redis_server mem_redis "\<lambda>r. r"
  by unfold_locales (simp_all add: mem_redis_def split: option.splits)

section \<open>The scripts as counters with a fixed window\<close>

definition redis_counter_at :: "('r \<Rightarrow> string \<Rightarrow> redis_value option) \<Rightarrow> 'r \<Rightarrow> string \<Rightarrow> int \<Rightarrow> (int \<times> int) option" where
  "redis_counter_at stored r k ms = (case unexpired ms (stored r k) of Some (n, Some e) \<Rightarrow> Some (n, e) | _ \<Rightarrow> None)"

definition script_try :: "'r redis_ops \<Rightarrow> int \<Rightarrow> int \<Rightarrow> login_counter list \<Rightarrow> 'r \<Rightarrow> bool \<times> 'r" where
  "script_try ops w ms cs r = (let ((i, _), r') = loginAcquireScript ops ms w (map (\<lambda>c. (lc_key c, lc_limit c)) cs) r in (i = 0, r'))"

text \<open>Every stored counter has an expiry time, which the scripts keep up.\<close>

definition all_expire :: "('r \<Rightarrow> string \<Rightarrow> redis_value option) \<Rightarrow> 'r \<Rightarrow> bool" where
  "all_expire stored r \<longleftrightarrow> (\<forall>k n. stored r k \<noteq> Some (n, None))"

locale redis_counters = redis_server +
  fixes width :: int
  assumes window_pos: "0 < width"
begin

lemma stored_count_counter:
  "all_expire stored r \<Longrightarrow> stored_count ops ms k r = (case redis_counter_at stored r k ms of Some (n, _) \<Rightarrow> n | None \<Rightarrow> 0)"
  by (auto simp: stored_count_def get redis_counter_at_def unexpired_def all_expire_def split: option.splits)

lemma script_check_spec:
  assumes "all_expire stored r" "script_check ops ms width ks i r = (b, r')" "0 < i"
  shows "stored r' = stored r \<and> (b = None \<longleftrightarrow> (\<forall>(k, limit) \<in> set ks. stored_count ops ms k r < limit)) \<and> (\<forall>j d. b = Some (j, d) \<longrightarrow> 0 < j)"
  using assms
proof (induction ks arbitrary: i)
  case (Cons kl ks)
  obtain k limit where kl: "kl = (k, limit)" by (cases kl)
  have "stored (rd_pexpire ops ms k width r) = stored r" if neg: "rd_pttl ops ms k r < 0"
    using neg pexpire [OF window_pos, of ms k r] assms(1)
    by (auto simp: pttl unexpired_def all_expire_def split: option.splits if_splits)
  then show ?case using Cons kl by (auto simp: Let_def split: if_splits)
qed simp

lemma script_charge_spec:
  assumes "all_expire stored r"
  shows "all_expire stored (script_charge ops ms width k r) \<and>
    redis_counter_at stored (script_charge ops ms width k r) k' ms = grown (if k' = k then 1 else 0) (ms + width) (redis_counter_at stored r k' ms)"
proof (cases "unexpired ms (stored r k)")
  case None
  let ?r1 = "rd_incr ops ms k r"
  have r1: "stored ?r1 = (stored r)(k \<mapsto> (1, None))" using None incr [of ms k r] by simp
  then have "rd_pttl ops ms k ?r1 < 0" by (simp add: pttl unexpired_def)
  then have "stored (script_charge ops ms width k r) = (stored r)(k \<mapsto> (1, Some (ms + width)))"
    using pexpire [OF window_pos, of ms k ?r1] r1 by (simp add: script_charge_def unexpired_def)
  then show ?thesis using assms None window_pos
    by (auto simp: all_expire_def redis_counter_at_def grown_def unexpired_def split: option.splits if_splits)
next
  case (Some v)
  then obtain n e where v: "v = (n, Some e)" "stored r k = Some (n, Some e)" "ms < e"
    using assms by (cases v) (auto simp: unexpired_def all_expire_def split: option.splits if_splits)
  let ?r1 = "rd_incr ops ms k r"
  have r1: "stored ?r1 = (stored r)(k \<mapsto> (n + 1, Some e))" using Some v incr [of ms k r] by simp
  then have "\<not> rd_pttl ops ms k ?r1 < 0" using v(3) by (simp add: pttl unexpired_def)
  then have "stored (script_charge ops ms width k r) = (stored r)(k \<mapsto> (n + 1, Some e))" using r1 by (simp add: script_charge_def Let_def)
  then show ?thesis using assms v
    by (auto simp: all_expire_def redis_counter_at_def grown_def unexpired_def split: option.splits if_splits)
qed

lemma fold_script_charge:
  "all_expire stored r \<Longrightarrow> all_expire stored (fold (script_charge ops ms width) ks r) \<and>
    redis_counter_at stored (fold (script_charge ops ms width) ks r) k ms = grown (count_list ks k) (ms + width) (redis_counter_at stored r k ms)"
proof (induction ks arbitrary: r)
  case Nil
  then show ?case by (simp add: grown_def split: option.splits)
next
  case (Cons k0 ks)
  have "grown i e (grown j e x) = grown (i + j) e x" for i j e x by (auto simp: grown_def split: option.splits)
  then show ?case using Cons.IH [of "script_charge ops ms width k0 r"] script_charge_spec [OF Cons.prems, of ms k0] by simp
qed

lemma script_try_spec:
  assumes "all_expire stored r" "script_try ops width ms cs r = (ok, r')"
  shows "all_expire stored r' \<and>
    (if ok then (\<forall>c \<in> set cs. stored_count ops ms (lc_key c) r < lc_limit c) \<and>
       redis_counter_at stored r' k ms = grown (count_list (keys_of cs) k) (ms + width) (redis_counter_at stored r k ms)
     else stored r' = stored r)"
proof -
  let ?ks = "map (\<lambda>c. (lc_key c, lc_limit c)) cs"
  obtain b r1 where c: "script_check ops ms width ?ks 1 r = (b, r1)" by fastforce
  note s = script_check_spec [OF assms(1) c]
  then have r1: "all_expire stored r1" using assms(1) by (simp add: all_expire_def)
  show ?thesis
  proof (cases b)
    case None
    then have "ok" "r' = fold (script_charge ops ms width) (keys_of cs) r1"
      using assms(2) c by (simp_all add: script_try_def loginAcquireScript_def comp_def)
    then show ?thesis using s None fold_script_charge [OF r1, of ms "keys_of cs" k] by (auto simp: redis_counter_at_def)
  next
    case (Some x)
    obtain j d where x: "x = (j, d)" by (cases x)
    then show ?thesis using s Some assms(2) c r1 by (auto simp: script_try_def loginAcquireScript_def)
  qed
qed

lemma script_release_spec:
  assumes "all_expire stored r"
  shows "all_expire stored (script_release ops ms km r) \<and> (k \<noteq> fst km \<longrightarrow> redis_counter_at stored (script_release ops ms km r) k ms = redis_counter_at stored r k ms)"
proof -
  obtain k0 m where km: "km = (k0, m)" by (cases km)
  have "all_expire stored (rd_decr ops ms k0 r)" if c: "1 < stored_count ops ms k0 r"
  proof -
    obtain n e where "unexpired ms (stored r k0) = Some (n, Some e)"
      using c assms by (auto simp: stored_count_def get unexpired_def all_expire_def split: option.splits if_splits)
    then show ?thesis using assms decr [of ms k0 r] by (auto simp: all_expire_def)
  qed
  moreover have "all_expire stored (rd_del ops ms k0 r)" using assms del [of ms k0 r] by (auto simp: all_expire_def)
  ultimately show ?thesis using assms km del [of ms k0 r] decr [of ms k0 r]
    by (cases m) (auto simp: Let_def redis_counter_at_def)
qed

lemma fold_script_release:
  "all_expire stored r \<Longrightarrow> all_expire stored (fold (script_release ops ms) ks r) \<and>
    (k \<notin> fst ` set ks \<longrightarrow> redis_counter_at stored (fold (script_release ops ms) ks r) k ms = redis_counter_at stored r k ms)"
proof (induction ks arbitrary: r)
  case (Cons km ks)
  then show ?case using Cons.IH [of "script_release ops ms km r"] script_release_spec [OF Cons.prems, of ms km k] by auto
qed simp

end

sublocale redis_counters \<subseteq> window_counters "redis_counter_at stored" "script_try ops width" "loginReleaseScript ops" "\<lambda>ks. fst ` set ks"
    "\<lambda>_. all_expire stored" width
proof
  show "0 < width" by (rule window_pos)
next
  fix s k t n e t'
  assume "redis_counter_at stored s k t = Some (n, e)" "t \<le> t'"
  then show "redis_counter_at stored s k t' = (if t' < e then Some (n, e) else None)"
    by (auto simp: redis_counter_at_def unexpired_def split: option.splits if_splits)
next
  fix s k t t'
  assume "redis_counter_at stored s k t = None" "t \<le> t'"
  then show "redis_counter_at stored s k t' = None" by (auto simp: redis_counter_at_def unexpired_def split: option.splits if_splits)
next
  fix cs :: "login_counter list" and s t
  assume "all_expire stored s"
  then show "all_expire stored (snd (script_try ops width t cs s))" using script_try_spec [of s t cs] by (metis prod.collapse)
next
  fix cs :: "login_counter list" and s t s' k
  assume "all_expire stored s" "script_try ops width t cs s = (False, s')"
  then show "redis_counter_at stored s' k t = redis_counter_at stored s k t" using script_try_spec [of s t cs False s'] by (simp add: redis_counter_at_def)
next
  fix cs :: "login_counter list" and s t s' c n e
  assume a: "all_expire stored s" "script_try ops width t cs s = (True, s')" "c \<in> set cs" "redis_counter_at stored s (lc_key c) t = Some (n, e)"
  then have "stored_count ops t (lc_key c) s < lc_limit c" using script_try_spec [of s t cs True s'] by simp
  then show "n < lc_limit c" using a stored_count_counter [of s t "lc_key c"] by simp
next
  fix cs :: "login_counter list" and s t s' k
  assume "all_expire stored s" "script_try ops width t cs s = (True, s')"
  then show "redis_counter_at stored s' k t = grown (count_list (keys_of cs) k) (t + width) (redis_counter_at stored s k t)"
    using script_try_spec [of s t cs True s'] by simp
qed (auto simp: loginReleaseScript_def fold_script_release)

context redis_counters
begin

lemmas script_attempts_bounded = attempts_bounded

end

interpretation approvals_redis: redis_counters mem_redis "\<lambda>r. r" "tc_window ApprovalThrottleConfig div millis"
  by unfold_locales (simp add: ApprovalThrottleConfig_def minute_def second_def millis_def)

section \<open>Guessing is bounded over all replicas\<close>

text \<open>The calls replicas make to Redis, with their outcome. The window and the times are the server's, in
  milliseconds.\<close>

fun shared_log :: "throttle_config \<Rightarrow> 'r redis_ops \<Rightarrow> login_event list \<Rightarrow> 'r \<Rightarrow> (int \<times> string \<times> string \<times> bool) list" where
  "shared_log cfg ops [] r = []"
| "shared_log cfg ops (Login now link ms account ip # evs) r =
     (let (a, r') = acquireRedis cfg ops link ms (counters cfg account ip) r
      in (ms, account, ip, case a of Some x \<Rightarrow> la_allowed x | None \<Rightarrow> False) # shared_log cfg ops evs r')"
| "shared_log cfg ops (Finished now link ms a ok # evs) r = shared_log cfg ops evs (releaseRedis ops link ms a ok r)"

fun server_event :: "throttle_config \<Rightarrow> login_event \<Rightarrow> (string \<times> release_mode) list window_event" where
  "server_event cfg (Login now link ms account ip) = (if link = Unreached then Forget ms [] else Try ms (counters cfg account ip))"
| "server_event cfg (Finished now link ms a ok) = Forget ms (if link = Unreached then [] else release_modes a ok)"

fun server_time :: "login_event \<Rightarrow> int" where
  "server_time (Login _ _ ms _ _) = ms"
| "server_time (Finished _ _ ms _ _) = ms"

lemma acquireRedis_try:
  "link \<noteq> Unreached \<Longrightarrow> snd (acquireRedis cfg ops link ms cs r) = snd (script_try ops (tc_window cfg div millis) ms cs r) \<and>
    (fst (acquireRedis cfg ops link ms cs r) = Some a \<longrightarrow> la_allowed a \<longrightarrow> fst (script_try ops (tc_window cfg div millis) ms cs r))"
  by (auto simp: acquireRedis_def script_try_def Let_def split: prod.splits if_splits)

lemma release_is_script:
  "releaseRedis ops link ms a ok r = loginReleaseScript ops ms (if link = Unreached then [] else release_modes a ok) r"
  by (simp add: releaseRedis_def loginReleaseScript_def Let_def)

lemma shared_log_run:
  "length (filter (\<lambda>(t, account, ip, ok). ok \<and> k \<in> set (keys_of (counters cfg account ip)) \<and> start \<le> t \<and> t < start + w) (shared_log cfg ops evs r))
    \<le> length (charged_in k start w (window_run (script_try ops (tc_window cfg div millis)) (loginReleaseScript ops) (map (server_event cfg) evs) r))"
proof (induction evs arbitrary: r)
  case (Cons ev evs)
  show ?case
  proof (cases ev)
    case (Login now link ms account ip)
    obtain a r' where a: "acquireRedis cfg ops link ms (counters cfg account ip) r = (a, r')" by fastforce
    show ?thesis
    proof (cases "link = Unreached")
      case True
      then have "a = None" "r' = r" using a by (simp_all add: acquireRedis_def)
      then show ?thesis using True Login a Cons.IH [of r] by (simp add: loginReleaseScript_def)
    next
      case False
      obtain ok r1 where t: "script_try ops (tc_window cfg div millis) ms (counters cfg account ip) r = (ok, r1)" by fastforce
      have "r' = r1" "\<And>x. a = Some x \<Longrightarrow> la_allowed x \<Longrightarrow> ok" using acquireRedis_try [OF False, of cfg ops ms "counters cfg account ip" r] a t by auto
      then show ?thesis using False Login a t Cons.IH [of r1] by (auto simp: charged_in_def split: option.splits)
    qed
  next
    case (Finished now link ms a ok)
    then show ?thesis using Cons.IH [of "releaseRedis ops link ms a ok r"] by (simp add: release_is_script)
  qed
qed simp

lemma server_event_Try: "Try t cs = server_event cfg ev \<Longrightarrow> \<exists>account ip. cs = counters cfg account ip"
  by (cases ev) (auto split: if_splits)

lemma server_event_Forget:
  "Forget t x = server_event cfg ev \<Longrightarrow> x = [] \<or> (\<exists>now link ms a ok. ev = Finished now link ms a ok \<and> x = release_modes a ok)"
  by (cases ev) (auto split: if_splits)

lemma release_modes_keys: "fst ` set (release_modes a ok) \<subseteq> set (keys_of (la_counters a))"
  by (auto simp: release_modes_def)



end
