(* ===== verification/LoginOutage.thy ===== *)
theory LoginOutage
  imports LoginRedis "HOL-Library.Sublist"
begin

text \<open>
  The throttle under stress: what \<open>makeRoom\<close> drops when the process-local table is full, and that a lockout
  Redis reported stays in force in this process when Redis goes away.
\<close>

section \<open>A full table\<close>

lemma drop_subseq:
  "subseq (snd (drop_unexhausted kept batch t)) t" "subseq (snd (drop_until_fits kept cap n t)) t"
proof -
  show "subseq (snd (drop_unexhausted kept batch t)) t"
    by (induction kept batch t rule: drop_unexhausted.induct) (auto simp: Let_def split: prod.splits)
  show "subseq (snd (drop_until_fits kept cap n t)) t"
    by (induction kept cap n t rule: drop_until_fits.induct) (auto simp: Let_def split: prod.splits)
qed

lemma subseq_keys: "subseq t' t \<Longrightarrow> distinct (map fst t) \<Longrightarrow> distinct (map fst t')"
  by (auto simp: subseq_conv_nths simp flip: nths_map)

lemma drop_unexhausted_spec:
  assumes "drop_unexhausted kept batch t = (n, t')"
  shows "set t' \<subseteq> set t \<and> length t' + n = length t \<and> (\<forall>(k, e) \<in> set t. kept k \<or> l_limit e \<le> l_count e \<longrightarrow> (k, e) \<in> set t') \<and>
    n \<le> batch \<and> (n < batch \<longrightarrow> (\<forall>(k, e) \<in> set t'. kept k \<or> l_limit e \<le> l_count e))"
  using assms
proof (induction kept batch t arbitrary: n t' rule: drop_unexhausted.induct)
  case (2 kept batch k e t)
  show ?case
  proof (cases "batch = 0")
    case True
    then show ?thesis using "2.prems" by auto
  next
    case False
    show ?thesis
    proof (cases "l_count e < l_limit e \<and> \<not> kept k")
      case True
      obtain m t1 where r: "drop_unexhausted kept (batch - 1) t = (m, t1)" by fastforce
      show ?thesis using "2.IH"(1) [OF False True r] "2.prems" True False r by auto
    next
      case other: False
      obtain m t1 where r: "drop_unexhausted kept batch t = (m, t1)" by fastforce
      show ?thesis using "2.IH"(2) [OF False other r] "2.prems" other False r by auto
    qed
  qed
qed simp

lemma drop_until_fits_spec:
  assumes "drop_until_fits kept cap n t = (m, t')"
  shows "set t' \<subseteq> set t \<and> length t' + m = length t \<and> (\<forall>(k, e) \<in> set t. kept k \<longrightarrow> (k, e) \<in> set t') \<and>
    (n \<le> cap \<longrightarrow> t' = t) \<and> (n - m \<le> cap \<or> (\<forall>(k, e) \<in> set t'. kept k))"
  using assms
proof (induction kept cap n t arbitrary: m t' rule: drop_until_fits.induct)
  case (2 kept cap n k e t)
  show ?case
  proof (cases "n \<le> cap")
    case True
    then show ?thesis using "2.prems" by auto
  next
    case False
    show ?thesis
    proof (cases "kept k")
      case drop: False
      obtain i t1 where r: "drop_until_fits kept cap (n - 1) t = (i, t1)" by fastforce
      show ?thesis using "2.IH"(1) [OF False drop r] "2.prems" drop False r by auto
    next
      case True
      obtain i t1 where r: "drop_until_fits kept cap n t = (i, t1)" by fastforce
      show ?thesis using "2.IH"(2) [OF False _ r] "2.prems" True False r by auto
    qed
  qed
qed simp

lemma kept_few:
  assumes "distinct (map fst t)" "\<forall>(k, e) \<in> set t. k \<in> lc_key ` set (keep :: login_counter list)"
  shows "length t \<le> length keep"
proof -
  have "set (map fst t) \<subseteq> set (keys_of keep)" using assms(2) by auto
  then have "card (set (map fst t)) \<le> card (set (keys_of keep))" by (simp add: card_mono)
  also have "\<dots> \<le> length keep" using card_length [of "keys_of keep"] by simp
  finally show ?thesis using distinct_card [OF assms(1)] by simp
qed


text \<open>A table that is full makes room without touching the counters of the attempt at hand, never ends up over
  its cap, and gives up a running lockout only when every counter it keeps belongs to the attempt or is
  a lockout itself. It drops a running counter only if it says so.\<close>

theorem lockouts_outlast_flood:
  assumes "makeRoom cap need keep now t = (dropped, t')" "distinct (map fst t)" "length t \<le> cap" "need + length keep \<le> cap"
  shows "length t' + need \<le> cap \<and> set t' \<subseteq> set t \<and>
    (\<forall>(k, e) \<in> set t. now < l_expires e \<and> k \<in> lc_key ` set keep \<longrightarrow> (k, e) \<in> set t') \<and>
    (\<forall>(k, e) \<in> set t. now < l_expires e \<and> l_limit e \<le> l_count e \<and> (k, e) \<notin> set t' \<longrightarrow>
       (\<forall>(k', e') \<in> set t'. k' \<in> lc_key ` set keep \<or> l_limit e' \<le> l_count e')) \<and>
    (dropped = 0 \<longrightarrow> (\<forall>(k, e) \<in> set t. now < l_expires e \<longrightarrow> (k, e) \<in> set t'))"
proof -
  let ?t1 = "filter (\<lambda>(k, e). now < l_expires e) t" and ?kept = "\<lambda>k. k \<in> lc_key ` set keep"
  let ?batch = "max (cap div 10) need"
  show ?thesis
  proof (cases "length t + need \<le> cap \<or> length ?t1 + need \<le> cap")
    case True
    then show ?thesis using assms(1) by (auto simp: makeRoom_def Let_def split: if_splits)
  next
    case False
    obtain n t2 where a: "drop_unexhausted ?kept ?batch ?t1 = (n, t2)" by fastforce
    obtain m t3 where b: "drop_until_fits ?kept cap (length t2 + need) t2 = (m, t3)" by fastforce
    have r: "t' = t3" "dropped = n + m" using assms(1) False a b by (simp_all add: makeRoom_def Let_def)
    note A = drop_unexhausted_spec [OF a] and B = drop_until_fits_spec [OF b]
    have d: "distinct (map fst t3)"
      using subseq_keys [OF drop_subseq(2)] subseq_keys [OF drop_subseq(1)] distinct_filter_keys [OF assms(2)] a b by (metis snd_conv)
    have fits: "length t3 + need \<le> cap"
    proof (cases "length t2 + need - m \<le> cap")
      case True
      then show ?thesis using B by linarith
    next
      case over: False
      then have "\<forall>(k, e) \<in> set t3. ?kept k" using B by blast
      then have "length t3 \<le> length keep" by (rule kept_few [OF d])
      then show ?thesis using assms(4) by linarith
    qed
    have l1: "length ?t1 \<le> cap" using assms(3) length_filter_le [of _ t] order_trans by blast
    have locked: "\<forall>(k', e') \<in> set t3. ?kept k' \<or> l_limit e' \<le> l_count e'" if "\<not> length t2 + need \<le> cap"
    proof -
      have "n < ?batch"
      proof (rule ccontr)
        assume "\<not> n < ?batch"
        then have "need \<le> n" by linarith
        then show False using that A l1 by linarith
      qed
      then show ?thesis using A B by blast
    qed
    have same: "t3 = t2" if "length t2 + need \<le> cap" using B that by blast
    show ?thesis unfolding r
    proof (intro conjI)
      show "length t3 + need \<le> cap" by (rule fits)
      show "set t3 \<subseteq> set t" using A B by auto
      show "\<forall>(k, e) \<in> set t. now < l_expires e \<and> ?kept k \<longrightarrow> (k, e) \<in> set t3" using A B by fastforce
      show "\<forall>(k, e) \<in> set t. now < l_expires e \<and> l_limit e \<le> l_count e \<and> (k, e) \<notin> set t3 \<longrightarrow>
          (\<forall>(k', e') \<in> set t3. ?kept k' \<or> l_limit e' \<le> l_count e')"
        using A locked same by fastforce
      show "n + m = 0 \<longrightarrow> (\<forall>(k, e) \<in> set t. now < l_expires e \<longrightarrow> (k, e) \<in> set t3)"
        using False fits A B by auto
    qed
  qed
qed

definition full_table :: counter_table where
  "full_table = [(''a'', \<lparr>l_count = 5, l_unshared = 0, l_limit = 5, l_expires = 100\<rparr>), (''b'', \<lparr>l_count = 1, l_unshared = 0, l_limit = 5, l_expires = 100\<rparr>)]"

theorem lockouts_outlast_flood_witness:
  "length (snd (makeRoom 2 1 [\<lparr>lc_scope = LoginScopeUser, lc_key = ''c'', lc_limit = 5\<rparr>] 0 full_table)) + 1 \<le> 2 \<and>
   snd (makeRoom 2 1 [\<lparr>lc_scope = LoginScopeUser, lc_key = ''c'', lc_limit = 5\<rparr>] 0 full_table) = [hd full_table]"
proof -
  let ?keep = "[\<lparr>lc_scope = LoginScopeUser, lc_key = ''c'', lc_limit = 5\<rparr>]"
  have r: "makeRoom 2 1 ?keep 0 full_table = (1, [hd full_table])" by (simp add: makeRoom_def full_table_def Let_def)
  have "distinct (map fst full_table)" "length full_table \<le> 2" by (simp_all add: full_table_def)
  then show ?thesis using lockouts_outlast_flood [OF r] unfolding r by simp
qed

section \<open>An outage of Redis\<close>

lemma holds_unshared_spec:
  assumes "distinct (map fst t)" "holds_unshared cs now t = (b, t')"
  shows "pruned now t t' \<and> (\<not> b \<longrightarrow> (\<forall>c \<in> set cs. \<forall>e. fst (live (lc_key c) now t') = Some e \<longrightarrow> l_unshared e \<le> 0))"
  using assms
proof (induction cs arbitrary: t)
  case Nil
  then show ?case by (simp add: pruned_refl)
next
  case (Cons c cs)
  obtain x t1 where l: "live (lc_key c) now t = (x, t1)" by fastforce
  have p: "pruned now t t1" using live_pruned [OF Cons.prems(1), of now "lc_key c"] l by simp
  then have d: "distinct (map fst t1)" by (simp add: pruned_def)
  show ?case
  proof (cases "\<exists>e. x = Some e \<and> l_unshared e > 0")
    case True
    then show ?thesis using Cons.prems(2) l p by auto
  next
    case False
    then have rec: "holds_unshared cs now t1 = (b, t')" using Cons.prems(2) l by (auto split: option.splits)
    note IH = Cons.IH [OF d rec]
    have "fst (live (lc_key c) now t') = x"
    proof -
      have "pruned now t t'" using IH pruned_trans [OF p] by blast
      then have "map_of t' (lc_key c) = map_of t (lc_key c) \<or> (map_of t' (lc_key c) = None \<and> (\<exists>e. map_of t (lc_key c) = Some e \<and> l_expires e \<le> now))"
        by (simp add: pruned_def)
      moreover have "fst (live (lc_key c) now t) = x" using l by simp
      ultimately show ?thesis by (auto simp: live_fst)
    qed
    then show ?thesis using IH False pruned_trans [OF p] by auto
  qed
qed

definition prune_table :: "counter_table \<Rightarrow> local_counters \<Rightarrow> local_counters" where
  "prune_table t l = l\<lparr>lt_entries := t\<rparr>"

lemma prune_table_facts:
  assumes "pruned now (lt_entries l) t"
  shows "local_ready n l \<Longrightarrow> local_ready n (prune_table t l)" "local_counter_at (prune_table t l) k now = local_counter_at l k now"
  using assms pruned_cnt [OF assms] by (auto simp: local_ready_def prune_table_def local_counter_at_def pruned_def)

text \<open>With Redis out of reach the table decides, after dropping counters whose window is over.\<close>

lemma acquire_unreached:
  assumes "th_redis th = Some ops" "counters (th_config th) account ip \<noteq> []" "distinct (map fst (lt_entries (ts_local s)))"
    and "Acquire th Unreached now ms account ip s = (a, s')"
  shows "\<exists>t. pruned now (lt_entries (ts_local s)) t \<and>
    local_try (tc_window (th_config th)) now (counters (th_config th) account ip) (prune_table t (ts_local s)) = (la_allowed a, ts_local s')"
proof -
  obtain b t where h: "holds_unshared (counters (th_config th) account ip) now (lt_entries (ts_local s)) = (b, t)" by fastforce
  have "local_try (tc_window (th_config th)) now (counters (th_config th) account ip) (prune_table t (ts_local s)) = (la_allowed a, ts_local s')"
    using assms(1,2,4) h
    by (auto simp: Acquire_def acquireRedis_def acquire_locally_def local_try_def prune_table_def warnEvicted_def Let_def
        split: prod.splits option.splits if_splits)
  then show ?thesis using holds_unshared_spec [OF assms(3) h] by blast
qed

text \<open>A counter at its limit stays there while it runs, whatever else the table decides.\<close>

lemma lockout_step:
  assumes "th_redis th = Some ops" "c \<in> set (counters (th_config th) account ip)" "local_ready (3 + j) (ts_local s)"
    and "local_counter_at (ts_local s) (lc_key c) T = Some (n, e)" "lc_limit c \<le> n" "T \<le> now" "now < e"
    and "Acquire th Unreached now ms account' ip' s = (a, s')"
  shows "local_ready j (ts_local s') \<and> (\<exists>n'. local_counter_at (ts_local s') (lc_key c) now = Some (n', e) \<and> lc_limit c \<le> n') \<and>
    (counters (th_config th) account' ip' = counters (th_config th) account ip \<longrightarrow> \<not> la_allowed a)"
proof -
  let ?w = "tc_window (th_config th)" and ?cs = "counters (th_config th) account' ip'"
  have w: "0 < ?w" and ne: "?cs \<noteq> []" using counter_facts(2,3) [OF assms(2)] by auto
  have d: "distinct (map fst (lt_entries (ts_local s)))" using assms(3) by (simp add: local_ready_def)
  obtain t where t: "pruned now (lt_entries (ts_local s)) t" "local_try ?w now ?cs (prune_table t (ts_local s)) = (la_allowed a, ts_local s')"
    using acquire_unreached [OF assms(1) ne d assms(8)] by blast
  let ?l = "prune_table t (ts_local s)"
  have r: "local_ready (3 + j) ?l" using prune_table_facts(1) [OF t(1)] assms(3) by blast
  then have r1: "local_ready (length ?cs) ?l" "local_ready 0 ?l" using counter_facts(1) [of "th_config th" account' ip'] by (auto simp: local_ready_def)
  have now: "local_counter_at ?l (lc_key c) now = Some (n, e)"
    using prune_table_facts(2) [OF t(1)] assms(4,6,7) window_counters.counter_runs [OF local_counters_window [OF w] assms(4,6)] by simp
  show ?thesis
  proof (cases "la_allowed a")
    case True
    from t(2) True have "local_try ?w now ?cs ?l = (True, ts_local s')" by simp
    note f = local_try_allowed [OF r1(1) this w, of "lc_key c"]
    then have "\<not> ?cs = counters (th_config th) account ip" using now assms(2,5) by fastforce
    then show ?thesis using f r counter_facts(1) [of "th_config th" account' ip'] now assms(5) by (auto simp: local_ready_def grown_def)
  next
    case False
    from t(2) False have "local_try ?w now ?cs ?l = (False, ts_local s')" by simp
    note f = local_try_refused [OF r1(2) this, of "lc_key c"]
    then show ?thesis using r now assms(5) False by (auto simp: local_ready_def)
  qed
qed

lemma lockout_run:
  assumes "th_redis th = Some ops" "c \<in> set (counters (th_config th) account ip)"
    and "local_ready (3 * length evs) (ts_local s)" "local_counter_at (ts_local s) (lc_key c) T = Some (n, e)" "lc_limit c \<le> n"
    and "\<forall>ev \<in> set evs. T \<le> login_time ev \<and> login_time ev < e \<and> (\<exists>now ms account' ip'. ev = Login now Unreached ms account' ip')"
    and "sorted (map login_time evs)" "(t, account, ip', ok) \<in> set (login_log th evs s)" "normalizeLoginIP ip' = normalizeLoginIP ip"
  shows "\<not> ok"
  using assms(3-8)
proof (induction evs arbitrary: s T n)
  case (Cons ev evs)
  obtain now ms account1 ip1 where ev: "ev = Login now Unreached ms account1 ip1" using Cons.prems(4) by auto
  obtain a s' where a: "Acquire th Unreached now ms account1 ip1 s = (a, s')" by fastforce
  have t: "T \<le> now" "now < e" using Cons.prems(4) ev by auto
  have "local_ready (3 + 3 * length evs) (ts_local s)" using Cons.prems(1) by simp
  note step = lockout_step [OF assms(1,2) this Cons.prems(2,3) t a]
  then obtain n' where n': "local_counter_at (ts_local s') (lc_key c) now = Some (n', e)" "lc_limit c \<le> n'" "local_ready (3 * length evs) (ts_local s')"
    by blast
  have same: "counters (th_config th) account ip' = counters (th_config th) account ip"
    using assms(9) by (simp add: counters_def loginUserIPKey_def loginIPKey_def)
  have "(t, account, ip', ok) = (now, account1, ip1, la_allowed a) \<or> (t, account, ip', ok) \<in> set (login_log th evs s')"
    using Cons.prems(6) ev a by auto
  then show ?case
  proof
    assume "(t, account, ip', ok) = (now, account1, ip1, la_allowed a)"
    then show ?thesis using step same by auto
  next
    assume "(t, account, ip', ok) \<in> set (login_log th evs s')"
    then show ?thesis using Cons.IH [OF n'(3) n'(1,2)] Cons.prems(4,5) ev by auto
  qed
qed simp

definition locked :: "login_counter list \<Rightarrow> time \<Rightarrow> duration \<Rightarrow> local_counters \<Rightarrow> bool" where
  "locked cs now d l \<longleftrightarrow> (\<exists>c \<in> set cs. \<exists>n. local_counter_at l (lc_key c) now = Some (n, now + d) \<and> lc_limit c \<le> n)"

lemma acquire_locally_refused:
  assumes "acquire_locally cfg cs now s = (a, s')" "\<not> la_allowed a" "local_ready j (ts_local s)"
  shows "locked cs now (la_retry a) (ts_local s') \<and> local_ready j (ts_local s')"
proof -
  obtain c d t where t: "first_exhausted cs now (lt_entries (ts_local s)) = (Some (c, d), t)" "ts_local s' = prune_table t (ts_local s)" "la_retry a = d"
    using assms(1,2)
    by (auto simp: acquire_locally_def local_acquire_def warnEvicted_def prune_table_def Let_def split: prod.splits option.splits)
  have d: "distinct (map fst (lt_entries (ts_local s)))" using assms(3) by (simp add: local_ready_def)
  have f: "pruned now (lt_entries (ts_local s)) t" "c \<in> set cs" "\<exists>n. cnt_at now (lt_entries (ts_local s)) (lc_key c) = Some (n, now + d) \<and> lc_limit c \<le> n"
    using first_exhausted_spec [OF d t(1)] by auto
  show ?thesis using f prune_table_facts [OF f(1)] assms(3) unfolding t(2,3) by (auto simp: locked_def local_counter_at_def)
qed

lemma exhaust_locks:
  assumes "local_ready (Suc j) l" "0 < d" "\<forall>e. fst (live (lc_key c) now (lt_entries l)) = Some e \<longrightarrow> l_unshared e \<le> 0"
  shows "local_counter_at (snd (exhaust c d now l)) (lc_key c) now = Some (lc_limit c, now + d) \<and> local_ready j (snd (exhaust c d now l))"
proof -
  obtain x t where x: "live (lc_key c) now (lt_entries l) = (x, t)" by fastforce
  have p: "pruned now (lt_entries l) t" using live_pruned [of "lt_entries l" now "lc_key c"] x assms(1) by (simp add: local_ready_def)
  have ok: "\<not> (case x of Some e \<Rightarrow> l_unshared e > 0 | None \<Rightarrow> False)" using assms(3) x by (auto split: option.splits)
  have "makeRoom (lt_max l) 1 [c] now t = (0, t)" using p assms(1) by (simp add: makeRoom_def pruned_def local_ready_def)
  then have room: "(if x = None then makeRoom (lt_max l) 1 [c] now t else (0, t)) = (0, t)" by simp
  have "snd (exhaust c d now l) = l\<lparr>lt_entries := AList.update (lc_key c) \<lparr>l_count = lc_limit c, l_unshared = 0, l_limit = lc_limit c, l_expires = now + d\<rparr> t\<rparr>"
    unfolding exhaust_def x Let_def prod.case room if_not_P [OF ok] by (simp add: reportable_def)
  then show ?thesis using p assms(1,2)
    by (auto simp: local_counter_at_def cnt_at_def update_conv' local_ready_def pruned_def distinct_update length_alist_update)
qed

lemma acquireRedis_refused:
  "acquireRedis cfg ops link ms cs r = (Some a, r') \<Longrightarrow> \<not> la_allowed a \<Longrightarrow> \<exists>c \<in> set cs. la_counters a = [c]"
  by (auto simp: acquireRedis_def Let_def intro!: nth_mem split: prod.splits if_splits)

lemma acquire_refused:
  assumes "th_redis th = Some ops" "Acquire th link now ms account ip s = (a, s')" "\<not> la_allowed a" "local_ready (Suc j) (ts_local s)" "0 < la_retry a"
  shows "locked (counters (th_config th) account ip) now (la_retry a) (ts_local s') \<and> local_ready j (ts_local s')"
proof -
  let ?cs = "counters (th_config th) account ip"
  have ne: "?cs \<noteq> []" using assms(2,3) by (auto simp: Acquire_def)
  obtain b t where h: "holds_unshared ?cs now (lt_entries (ts_local s)) = (b, t)" by fastforce
  have d: "distinct (map fst (lt_entries (ts_local s)))" using assms(4) by (simp add: local_ready_def)
  note H = holds_unshared_spec [OF d h]
  let ?s = "s\<lparr>ts_local := (ts_local s)\<lparr>lt_entries := t\<rparr>\<rparr>"
  have r: "local_ready (Suc j) (ts_local ?s)" using prune_table_facts(1) [of now "ts_local s" t] H assms(4) by (simp add: prune_table_def)
  then have r0: "local_ready j (ts_local (?s\<lparr>ts_redis := x\<rparr>))" "local_ready j (ts_local ?s)" for x by (simp_all add: local_ready_def)
  show ?thesis
  proof (cases b)
    case True
    then have "acquire_locally (th_config th) ?cs now ?s = (a, s')" using assms(1,2) ne h by (simp add: Acquire_def Let_def)
    then show ?thesis using acquire_locally_refused assms(3) r0(2) by blast
  next
    case False
    obtain x rd where x: "acquireRedis (th_config th) ops link ms ?cs (ts_redis s) = (x, rd)" by fastforce
    show ?thesis
    proof (cases x)
      case None
      then have "acquire_locally (th_config th) ?cs now (?s\<lparr>ts_redis := rd\<rparr>) = (a, s')" using assms(1,2) ne h False x by (simp add: Acquire_def Let_def)
      then show ?thesis using acquire_locally_refused assms(3) r0(1) by blast
    next
      case (Some a')
      then have e: "a' = a" "s' = mirror (th_config th) a ?cs now (?s\<lparr>ts_redis := rd\<rparr>)" using assms(1,2) ne h False x by (auto simp: Acquire_def Let_def)
      then obtain c where c: "c \<in> set ?cs" "la_counters a = [c]"
        using acquireRedis_refused [of "th_config th" ops link ms ?cs "ts_redis s" a rd] x Some assms(3) by auto
      have "ts_local s' = snd (exhaust c (la_retry a) now (ts_local ?s))" using e(2) c(2) assms(3) by (simp add: mirror_def warnEvicted_def)
      moreover have "\<forall>e. fst (live (lc_key c) now (lt_entries (ts_local ?s))) = Some e \<longrightarrow> l_unshared e \<le> 0" using H False c(1) by simp
      ultimately show ?thesis using exhaust_locks [OF r assms(5), of c now] c(1) order_refl [of "lc_limit c"] unfolding locked_def by metis
    qed
  qed
qed

text \<open>an outage of Redis lifts no lockout. When an attempt is refused, by Redis or by this process, then
  throughout the time it was told to wait no attempt on the account from that address is allowed by
  this process while Redis cannot be reached, whatever else is tried meanwhile, as long as the table has room.\<close>

theorem lockout_survives_outage:
  assumes "th_redis th = Some ops" "Acquire th link now ms account ip s = (a, s')" "\<not> la_allowed a"
    and "distinct (map fst (lt_entries (ts_local s)))" "length (lt_entries (ts_local s)) + 3 * length evs + 1 \<le> lt_max (ts_local s)"
    and "\<forall>ev \<in> set evs. now \<le> login_time ev \<and> login_time ev < now + la_retry a \<and> (\<exists>t ms account' ip'. ev = Login t Unreached ms account' ip')"
    and "sorted (map login_time evs)"
  shows "\<forall>(t, account', ip', ok) \<in> set (login_log th evs s'). account' = account \<and> normalizeLoginIP ip' = normalizeLoginIP ip \<longrightarrow> \<not> ok"
proof (cases "evs = []")
  case False
  then obtain ev where "ev \<in> set evs" by (cases evs) auto
  then have "0 < la_retry a" using assms(6) by fastforce
  moreover have "local_ready (Suc (3 * length evs)) (ts_local s)" using assms(4,5) by (simp add: local_ready_def)
  ultimately have l: "locked (counters (th_config th) account ip) now (la_retry a) (ts_local s')" "local_ready (3 * length evs) (ts_local s')"
    using acquire_refused [OF assms(1-3)] by blast+
  then obtain c n where c: "c \<in> set (counters (th_config th) account ip)" "local_counter_at (ts_local s') (lc_key c) now = Some (n, now + la_retry a)"
    "lc_limit c \<le> n" by (auto simp: locked_def)
  show ?thesis using lockout_run [OF assms(1) c(1) l(2) c(2,3) assms(6,7)] by blast
qed simp

text \<open>One failed login allowed per address, and a Redis that has counted it.\<close>

definition strict_config :: throttle_config where
  "strict_config = \<lparr>tc_per_user_ip = 0, tc_per_user = 0, tc_per_ip = 1, tc_window = 1000 * millis, tc_namespace = []\<rparr>"

definition strict_throttle :: "(string \<Rightarrow> redis_value option) throttle" where
  "strict_throttle = \<lparr>th_config = strict_config, th_redis = Some mem_redis\<rparr>"

definition strict_state :: "(string \<Rightarrow> redis_value option) throttle_state" where
  "strict_state = \<lparr>ts_local = newLocalLoginCounters 10, ts_redis = [loginIPKey ''10.0.0.1'' \<mapsto> (1, Some 900)], ts_warned = []\<rparr>"

theorem lockout_survives_outage_witness:
  "\<exists>s'. Acquire strict_throttle Answered 0 0 ''ada'' ''10.0.0.1'' strict_state =
       (\<lparr>la_allowed = False, la_scope = LoginScopeIP, la_retry = 900 * millis,
         la_counters = [\<lparr>lc_scope = LoginScopeIP, lc_key = loginIPKey ''10.0.0.1'', lc_limit = 1\<rparr>], la_shared = False\<rparr>, s') \<and>
     (\<forall>ok. (5, ''ada'', ''10.0.0.1'', ok) \<in> set (login_log strict_throttle [Login 5 Unreached 5 ''ada'' ''10.0.0.1''] s') \<longrightarrow> \<not> ok)"
proof -
  let ?a = "\<lparr>la_allowed = False, la_scope = LoginScopeIP, la_retry = 900 * millis,
         la_counters = [\<lparr>lc_scope = LoginScopeIP, lc_key = loginIPKey ''10.0.0.1'', lc_limit = 1\<rparr>], la_shared = False\<rparr>"
  have cs: "counters strict_config ''ada'' ''10.0.0.1'' = [\<lparr>lc_scope = LoginScopeIP, lc_key = loginIPKey ''10.0.0.1'', lc_limit = 1\<rparr>]"
    by (simp add: counters_def strict_config_def namespaced_def millis_def)
  obtain s' where a: "Acquire strict_throttle Answered 0 0 ''ada'' ''10.0.0.1'' strict_state = (?a, s')"
    using cs
    by (auto simp: Acquire_def strict_throttle_def strict_state_def acquireRedis_def loginAcquireScript_def stored_count_def
        mem_redis_def unexpired_def newLocalLoginCounters_def live_def Let_def)
  have "\<forall>(t, account', ip', ok) \<in> set (login_log strict_throttle [Login 5 Unreached 5 ''ada'' ''10.0.0.1''] s').
      account' = ''ada'' \<and> normalizeLoginIP ip' = normalizeLoginIP ''10.0.0.1'' \<longrightarrow> \<not> ok"
    by (rule lockout_survives_outage [OF _ a])
      (simp_all add: strict_throttle_def strict_state_def newLocalLoginCounters_def millis_def)
  then show ?thesis using a by blast
qed

end
