(* ===== verification/CompareLimit.thy ===== *)
theory CompareLimit
  imports Durations
begin

text \<open>
  The limiter of password-hash comparisons (\<open>internal/auth/comparelimit.go\<close>). Many goroutines run \<open>do\<close> at
  once, so the limiter is a step relation: each step is one operation on the channel of slots or on
  the counter of waiters, in any interleaving. A channel of capacity \<open>n\<close> holds up to \<open>n\<close> values; a send
  that finds it full waits in a queue, and a receive from a full channel with waiting senders puts
  the longest waiting sender's value in.
\<close>

definition compareQueuePerSlot :: int where "compareQueuePerSlot = 64"

definition compareMaxWait :: duration where "compareMaxWait = 5 * second"

record compare_limiter =
  cl_slots :: nat
  cl_max_wait :: duration
  cl_max_waiting :: int

definition NewCompareLimiter :: "int \<Rightarrow> compare_limiter" where
  "NewCompareLimiter maxConcurrent =
     (let n = (if maxConcurrent < 1 then 1 else maxConcurrent)
      in \<lparr>cl_slots = nat n, cl_max_wait = compareMaxWait, cl_max_waiting = n * compareQueuePerSlot\<rparr>)"

definition Capacity :: "compare_limiter option \<Rightarrow> nat" where
  "Capacity l = (case l of None \<Rightarrow> 0 | Some x \<Rightarrow> cl_slots x)"

datatype compare_error = CompareBusy | ContextEnded

text \<open>Where a goroutine is in \<open>do\<close>: before the first send; the slots were full; turned away with the counter
  still raised; counted as a waiter; blocked in the second \<open>select\<close>; with a slot but still counted;
  leaving with an error, still counted; comparing; returned.\<close>

datatype compare_point = Entered duration | FoundFull duration | TurnedAway | Counted | Blocked | SlotTaken | Leaving compare_error
  | Comparing | Returned "compare_error option"

record compare_state =
  cm_points :: "compare_point list"
  cm_buffered :: nat
  cm_queue :: "nat list"
  cm_waiting :: int
  cm_compared :: "nat list"

definition at_point :: "nat \<Rightarrow> compare_point \<Rightarrow> compare_state \<Rightarrow> bool" where
  "at_point i p s \<longleftrightarrow> i < length (cm_points s) \<and> cm_points s ! i = p"

definition move :: "nat \<Rightarrow> compare_point \<Rightarrow> compare_state \<Rightarrow> compare_state" where
  "move i p s = s\<lparr>cm_points := (cm_points s)[i := p]\<rparr>"

text \<open>\<open><-l.slots\<close>: with a sender waiting, its value takes the place of the one received.\<close>

definition give_back :: "compare_state \<Rightarrow> compare_state" where
  "give_back s =
     (case cm_queue s of
        [] \<Rightarrow> s\<lparr>cm_buffered := cm_buffered s - 1\<rparr>
      | j # q \<Rightarrow> (move j SlotTaken s)\<lparr>cm_queue := q\<rparr>)"

inductive compare_step :: "compare_limiter \<Rightarrow> compare_state \<Rightarrow> compare_state \<Rightarrow> bool" for l where
  enter: "compare_step l s (s\<lparr>cm_points := cm_points s @ [Entered wait]\<rparr>)"
| ctx_ended: "at_point i (Entered wait) s \<Longrightarrow> compare_step l s (move i (Returned (Some ContextEnded)) s)"
| slot_free: "at_point i (Entered wait) s \<Longrightarrow> cm_buffered s < cl_slots l \<Longrightarrow>
    compare_step l s ((move i Comparing s)\<lparr>cm_buffered := cm_buffered s + 1\<rparr>)"
| slots_full: "at_point i (Entered wait) s \<Longrightarrow> \<not> cm_buffered s < cl_slots l \<Longrightarrow> compare_step l s (move i (FoundFull wait) s)"
| no_wait: "at_point i (FoundFull wait) s \<Longrightarrow> wait \<le> 0 \<Longrightarrow> compare_step l s (move i (Returned (Some CompareBusy)) s)"
| count_in: "at_point i (FoundFull wait) s \<Longrightarrow> 0 < wait \<Longrightarrow>
    compare_step l s ((move i (if cm_waiting s + 1 > cl_max_waiting l then TurnedAway else Counted) s)\<lparr>cm_waiting := cm_waiting s + 1\<rparr>)"
| turned_away: "at_point i TurnedAway s \<Longrightarrow> compare_step l s ((move i (Returned (Some CompareBusy)) s)\<lparr>cm_waiting := cm_waiting s - 1\<rparr>)"
| send_now: "at_point i Counted s \<Longrightarrow> cm_buffered s < cl_slots l \<Longrightarrow>
    compare_step l s ((move i SlotTaken s)\<lparr>cm_buffered := cm_buffered s + 1\<rparr>)"
| block: "at_point i Counted s \<Longrightarrow> \<not> cm_buffered s < cl_slots l \<Longrightarrow> compare_step l s ((move i Blocked s)\<lparr>cm_queue := cm_queue s @ [i]\<rparr>)"
| give_up: "at_point i p s \<Longrightarrow> p \<in> {Counted, Blocked} \<Longrightarrow> r \<in> {CompareBusy, ContextEnded} \<Longrightarrow>
    compare_step l s ((move i (Leaving r) s)\<lparr>cm_queue := removeAll i (cm_queue s)\<rparr>)"
| left: "at_point i (Leaving r) s \<Longrightarrow> compare_step l s ((move i (Returned (Some r)) s)\<lparr>cm_waiting := cm_waiting s - 1\<rparr>)"
| got_slot: "at_point i SlotTaken s \<Longrightarrow> compare_step l s ((move i Comparing s)\<lparr>cm_waiting := cm_waiting s - 1\<rparr>)"
| compared: "at_point i Comparing s \<Longrightarrow>
    compare_step l s (give_back ((move i (Returned None) s)\<lparr>cm_compared := cm_compared s @ [i]\<rparr>))"

definition compare_start :: compare_state where
  "compare_start = \<lparr>cm_points = [], cm_buffered = 0, cm_queue = [], cm_waiting = 0, cm_compared = []\<rparr>"

inductive compare_reachable :: "compare_limiter \<Rightarrow> compare_state \<Rightarrow> bool" for l where
  start: "compare_reachable l compare_start"
| step: "compare_reachable l s \<Longrightarrow> compare_step l s s' \<Longrightarrow> compare_reachable l s'"

section \<open>What the counters count\<close>

definition num :: "(compare_point \<Rightarrow> bool) \<Rightarrow> compare_state \<Rightarrow> nat" where
  "num P s = length (filter P (cm_points s))"

fun holds_slot :: "compare_point \<Rightarrow> bool" where
  "holds_slot Comparing = True" | "holds_slot SlotTaken = True" | "holds_slot _ = False"

fun counted :: "compare_point \<Rightarrow> bool" where
  "counted Counted = True" | "counted Blocked = True" | "counted SlotTaken = True" | "counted (Leaving _) = True" | "counted TurnedAway = True"
| "counted _ = False"

fun admitted :: "compare_point \<Rightarrow> bool" where
  "admitted TurnedAway = False" | "admitted p = counted p"

lemma num_update:
  assumes "at_point i p s"
  shows "int (length (filter P ((cm_points s)[i := q]))) = int (num P s) + (if P q then 1 else 0) - (if P p then 1 else 0)"
proof -
  have i: "i < length (cm_points s)" "cm_points s ! i = p" using assms by (simp_all add: at_point_def)
  have s: "cm_points s = take i (cm_points s) @ p # drop (Suc i) (cm_points s)" using i id_take_nth_drop [of i "cm_points s"] by simp
  have "num P s = length (filter P (take i (cm_points s))) + (if P p then 1 else 0) + length (filter P (drop (Suc i) (cm_points s)))"
    unfolding num_def by (subst s) simp
  then show ?thesis using i by (simp add: upd_conv_take_nth_drop)
qed

text \<open>The invariant: the channel holds as many values as goroutines hold slots, at most its capacity; the counter
  counts the waiters, of whom at most the maximum was admitted; the queue lists the blocked
  goroutines, who wait only while the channel is full; a comparison ran exactly for those who
  returned without an error.\<close>

definition compare_inv :: "compare_limiter \<Rightarrow> compare_state \<Rightarrow> bool" where
  "compare_inv l s \<longleftrightarrow> cm_buffered s = num holds_slot s \<and> cm_buffered s \<le> cl_slots l \<and>
     cm_waiting s = int (num counted s) \<and> int (num admitted s) \<le> cl_max_waiting l \<and>
     distinct (cm_queue s) \<and> (\<forall>i. i \<in> set (cm_queue s) \<longleftrightarrow> at_point i Blocked s) \<and>
     (cm_queue s \<noteq> [] \<longrightarrow> cm_buffered s = cl_slots l) \<and>
     distinct (cm_compared s) \<and> (\<forall>i. i \<in> set (cm_compared s) \<longleftrightarrow> at_point i (Returned None) s)"

lemma move_fields [simp]:
  "cm_buffered (move i p s) = cm_buffered s" "cm_queue (move i p s) = cm_queue s" "cm_waiting (move i p s) = cm_waiting s"
  "cm_compared (move i p s) = cm_compared s" "cm_points (move i p s) = (cm_points s)[i := p]"
  by (simp_all add: move_def)

lemma at_point_simps [simp]:
  "at_point j q (s\<lparr>cm_buffered := b\<rparr>) = at_point j q s" "at_point j q (s\<lparr>cm_queue := qu\<rparr>) = at_point j q s"
  "at_point j q (s\<lparr>cm_waiting := w\<rparr>) = at_point j q s" "at_point j q (s\<lparr>cm_compared := c\<rparr>) = at_point j q s"
  by (simp_all add: at_point_def)

lemma at_point_move [simp]: "at_point i p s \<Longrightarrow> at_point j q (move i r s) \<longleftrightarrow> (if j = i then q = r else at_point j q s)"
  by (auto simp: at_point_def)

lemma at_point_unique: "at_point i p s \<Longrightarrow> at_point i q s \<longleftrightarrow> p = q"
  by (auto simp: at_point_def)

lemma num_simps [simp]:
  "num P (s\<lparr>cm_buffered := b\<rparr>) = num P s" "num P (s\<lparr>cm_queue := qu\<rparr>) = num P s"
  "num P (s\<lparr>cm_waiting := w\<rparr>) = num P s" "num P (s\<lparr>cm_compared := c\<rparr>) = num P s"
  by (simp_all add: num_def)

lemma num_move: "at_point i p s \<Longrightarrow> int (num P (move i q s)) = int (num P s) + (if P q then 1 else 0) - (if P p then 1 else 0)"
  using num_update [of i p s P q] by (simp add: num_def)

lemma num_move_nat:
  "at_point i p s \<Longrightarrow> \<not> P p \<Longrightarrow> P q \<Longrightarrow> num P (move i q s) = Suc (num P s)"
  "at_point i p s \<Longrightarrow> P p \<Longrightarrow> \<not> P q \<Longrightarrow> num P (move i q s) = num P s - 1"
  "at_point i p s \<Longrightarrow> P p = P q \<Longrightarrow> num P (move i q s) = num P s"
  using num_move [of i p s P q] by (auto split: if_splits)

lemma num_pos: "at_point i p s \<Longrightarrow> P p \<Longrightarrow> 0 < num P s"
  by (auto simp: num_def at_point_def filter_empty_conv)

lemma length_filter_le_filter: "(\<And>x. P x \<Longrightarrow> Q x) \<Longrightarrow> length (filter P xs) \<le> length (filter Q xs)"
  by (induction xs) auto

lemma admitted_le_counted: "num admitted s \<le> num counted s"
  unfolding num_def by (rule length_filter_le_filter) (auto elim: admitted.elims)

lemma enter_inv: "compare_inv l s \<Longrightarrow> compare_inv l (s\<lparr>cm_points := cm_points s @ [Entered wait]\<rparr>)"
proof -
  assume inv: "compare_inv l s"
  have "at_point j q (s\<lparr>cm_points := cm_points s @ [Entered wait]\<rparr>) \<longleftrightarrow> at_point j q s \<or> (j = length (cm_points s) \<and> q = Entered wait)" for j q
    by (auto simp: at_point_def nth_append less_Suc_eq)
  moreover have "num P (s\<lparr>cm_points := cm_points s @ [Entered wait]\<rparr>) = num P s + (if P (Entered wait) then 1 else 0)" for P
    by (simp add: num_def)
  ultimately show ?thesis using inv by (auto simp: compare_inv_def)
qed

text \<open>A step of a goroutine that is not in the queue before and not after it.\<close>

lemma move_inv:
  assumes "compare_inv l s" "at_point i p s" "p \<noteq> Blocked" "q \<noteq> Blocked" "p \<noteq> Returned None" "q \<noteq> Returned None"
    and "int b = int (cm_buffered s) + (if holds_slot q then 1 else 0) - (if holds_slot p then 1 else 0)" "b \<le> cl_slots l"
    and "cm_queue s \<noteq> [] \<longrightarrow> b = cl_slots l"
    and "w = cm_waiting s + (if counted q then 1 else 0) - (if counted p then 1 else 0)"
    and "admitted q \<and> \<not> admitted p \<longrightarrow> w \<le> cl_max_waiting l \<and> counted q \<and> \<not> counted p"
  shows "compare_inv l ((move i q s)\<lparr>cm_buffered := b, cm_waiting := w\<rparr>)"
proof -
  have "int (num admitted (move i q s)) \<le> cl_max_waiting l"
    using assms(1,10,11) num_move [OF assms(2), of admitted q] admitted_le_counted [of s] by (auto simp: compare_inv_def split: if_splits)
  moreover have "b = num holds_slot (move i q s)" using num_move [OF assms(2), of holds_slot q] assms(1,7) by (auto simp: compare_inv_def)
  moreover have "w = int (num counted (move i q s))" using num_move [OF assms(2), of counted q] assms(1,10) by (auto simp: compare_inv_def)
  ultimately show ?thesis using assms at_point_unique [OF assms(2)] by (auto simp: compare_inv_def)
qed

lemma move_inv_same:
  assumes "compare_inv l s" "at_point i p s" "p \<noteq> Blocked" "q \<noteq> Blocked" "p \<noteq> Returned None" "q \<noteq> Returned None"
    and "\<not> holds_slot p" "\<not> holds_slot q" "\<not> counted p" "\<not> counted q"
  shows "compare_inv l (move i q s)"
proof -
  have "\<not> admitted q" using assms(10) by (cases q) auto
  then have "compare_inv l ((move i q s)\<lparr>cm_buffered := cm_buffered s, cm_waiting := cm_waiting s\<rparr>)"
    using assms by (intro move_inv) (auto simp: compare_inv_def)
  moreover have "(move i q s)\<lparr>cm_buffered := cm_buffered s, cm_waiting := cm_waiting s\<rparr> = move i q s" by (simp add: move_def)
  ultimately show ?thesis by simp
qed

lemma give_back_inv:
  assumes inv: "compare_inv l s" and i: "at_point i Comparing s"
  shows "compare_inv l (give_back ((move i (Returned None) s)\<lparr>cm_compared := cm_compared s @ [i]\<rparr>))"
proof -
  let ?s = "(move i (Returned None) s)\<lparr>cm_compared := cm_compared s @ [i]\<rparr>"
  have ni: "i \<notin> set (cm_compared s)" "i \<notin> set (cm_queue s)" using inv at_point_unique [OF i] by (auto simp: compare_inv_def)
  have pos: "0 < num holds_slot s" using num_pos [OF i] by simp
  have n: "num holds_slot ?s = num holds_slot s - 1" "num counted ?s = num counted s" "num admitted ?s = num admitted s"
    using num_move_nat [OF i] by simp_all
  have at: "at_point j q ?s \<longleftrightarrow> (if j = i then q = Returned None else at_point j q s)" for j q using i by simp
  show ?thesis
  proof (cases "cm_queue s")
    case Nil
    then have g: "give_back ?s = ?s\<lparr>cm_buffered := cm_buffered s - 1\<rparr>" by (simp add: give_back_def)
    show ?thesis unfolding g using inv n ni at Nil at_point_unique [OF i] by (auto simp: compare_inv_def)
  next
    case (Cons j q)
    then have g: "give_back ?s = (move j SlotTaken ?s)\<lparr>cm_queue := q\<rparr>" by (simp add: give_back_def)
    have "at_point j Blocked s" using inv Cons by (auto simp: compare_inv_def)
    then have j: "at_point j Blocked ?s" and ij: "j \<noteq> i" using at ni Cons by auto
    have m: "num holds_slot (move j SlotTaken ?s) = num holds_slot s" "num counted (move j SlotTaken ?s) = num counted s"
      "num admitted (move j SlotTaken ?s) = num admitted s"
      using num_move_nat [OF j] n pos by simp_all
    have at': "at_point k p (move j SlotTaken ?s) \<longleftrightarrow> (if k = j then p = SlotTaken else at_point k p ?s)" for k p using j by simp
    show ?thesis unfolding g using inv m ni at at' ij Cons at_point_unique [OF i] at_point_unique [OF \<open>at_point j Blocked s\<close>]
      by (auto simp: compare_inv_def)
  qed
qed

lemma block_inv:
  assumes inv: "compare_inv l s" and i: "at_point i Counted s" and full: "\<not> cm_buffered s < cl_slots l"
  shows "compare_inv l ((move i Blocked s)\<lparr>cm_queue := cm_queue s @ [i]\<rparr>)"
proof -
  have "num holds_slot (move i Blocked s) = num holds_slot s" "num counted (move i Blocked s) = num counted s"
    "num admitted (move i Blocked s) = num admitted s" using num_move_nat [OF i] by simp_all
  then show ?thesis using inv full i at_point_unique [OF i] by (auto simp: compare_inv_def)
qed

lemma give_up_inv:
  assumes inv: "compare_inv l s" and i: "at_point i p s" and p: "p \<in> {Counted, Blocked}"
  shows "compare_inv l ((move i (Leaving r) s)\<lparr>cm_queue := removeAll i (cm_queue s)\<rparr>)"
proof -
  have "num holds_slot (move i (Leaving r) s) = num holds_slot s" "num counted (move i (Leaving r) s) = num counted s"
    "num admitted (move i (Leaving r) s) = num admitted s" using num_move_nat [OF i] p by auto
  moreover have "removeAll i (cm_queue s) \<noteq> [] \<Longrightarrow> cm_queue s \<noteq> []" by auto
  ultimately show ?thesis using inv i p at_point_unique [OF i] by (auto simp: compare_inv_def distinct_removeAll)
qed

lemma count_in_inv:
  assumes inv: "compare_inv l s" and i: "at_point i (FoundFull wait) s"
  shows "compare_inv l ((move i (if cm_waiting s + 1 > cl_max_waiting l then TurnedAway else Counted) s)\<lparr>cm_waiting := cm_waiting s + 1\<rparr>)"
proof -
  let ?q = "if cm_waiting s + 1 > cl_max_waiting l then TurnedAway else Counted"
  have "compare_inv l ((move i ?q s)\<lparr>cm_buffered := cm_buffered s, cm_waiting := cm_waiting s + 1\<rparr>)"
    using inv by (intro move_inv [OF inv i]) (auto simp: compare_inv_def)
  moreover have "(move i q s)\<lparr>cm_buffered := cm_buffered s, cm_waiting := w\<rparr> = (move i q s)\<lparr>cm_waiting := w\<rparr>" for q w by (simp add: move_def)
  ultimately show ?thesis by (simp only:)
qed

lemma uncount_inv:
  assumes inv: "compare_inv l s" and i: "at_point i p s" and "counted p" "\<not> counted q" "holds_slot p = holds_slot q" "p \<noteq> Blocked" "q \<noteq> Returned None"
  shows "compare_inv l ((move i q s)\<lparr>cm_waiting := cm_waiting s - 1\<rparr>)"
proof -
  have "\<not> admitted q" "q \<noteq> Blocked" "p \<noteq> Returned None" using assms(3,4) by (cases q; auto)+
  then have "compare_inv l ((move i q s)\<lparr>cm_buffered := cm_buffered s, cm_waiting := cm_waiting s - 1\<rparr>)"
    using assms by (intro move_inv [OF inv i]) (auto simp: compare_inv_def)
  moreover have "(move i q s)\<lparr>cm_buffered := cm_buffered s, cm_waiting := w\<rparr> = (move i q s)\<lparr>cm_waiting := w\<rparr>" for w by (simp add: move_def)
  ultimately show ?thesis by simp
qed

lemma take_slot_inv:
  assumes inv: "compare_inv l s" and i: "at_point i p s" and "\<not> holds_slot p" "holds_slot q" "counted p = counted q" "admitted p = admitted q"
    and "p \<noteq> Blocked" "p \<noteq> Returned None" "cm_buffered s < cl_slots l"
  shows "compare_inv l ((move i q s)\<lparr>cm_buffered := cm_buffered s + 1\<rparr>)"
proof -
  have "q \<noteq> Blocked" "q \<noteq> Returned None" using assms(4) by auto
  then have "compare_inv l ((move i q s)\<lparr>cm_buffered := cm_buffered s + 1, cm_waiting := cm_waiting s\<rparr>)"
    using assms by (intro move_inv [OF inv i]) (auto simp: compare_inv_def)
  moreover have "(move i q s)\<lparr>cm_buffered := b, cm_waiting := cm_waiting s\<rparr> = (move i q s)\<lparr>cm_buffered := b\<rparr>" for b by (simp add: move_def)
  ultimately show ?thesis by simp
qed

lemma compare_step_inv: "compare_step l s s' \<Longrightarrow> compare_inv l s \<Longrightarrow> compare_inv l s'"
proof (induction rule: compare_step.induct)
  case (enter s wait)
  then show ?case by (rule enter_inv)
next
  case (ctx_ended i wait s)
  then show ?case by (intro move_inv_same) auto
next
  case (slot_free i wait s)
  then show ?case by (intro take_slot_inv) auto
next
  case (slots_full i wait s)
  then show ?case by (intro move_inv_same) auto
next
  case (no_wait i wait s)
  then show ?case by (intro move_inv_same) auto
next
  case (count_in i wait s)
  then show ?case by (intro count_in_inv)
next
  case (turned_away i s)
  then show ?case by (intro uncount_inv) auto
next
  case (send_now i s)
  then show ?case by (intro take_slot_inv) auto
next
  case (block i s)
  then show ?case by (intro block_inv)
next
  case (give_up i p s r)
  then show ?case by (intro give_up_inv)
next
  case (left i r s)
  then show ?case by (intro uncount_inv) auto
next
  case (got_slot i s)
  then show ?case by (intro uncount_inv) auto
next
  case (compared i s)
  then show ?case by (intro give_back_inv)
qed

lemma reachable_inv: "compare_reachable l s \<Longrightarrow> 0 \<le> cl_max_waiting l \<Longrightarrow> compare_inv l s"
proof (induction rule: compare_reachable.induct)
  case start
  then show ?case by (simp add: compare_inv_def compare_start_def num_def at_point_def)
next
  case (step s s')
  then show ?case using compare_step_inv by blast
qed

inductive_cases compare_stepE: "compare_step l s s'"

text \<open>A blocked goroutine gets its slot only by being first in the queue.\<close>

lemma slot_in_order:
  assumes "compare_inv l s" "compare_step l s s'" "at_point k Blocked s" "at_point k SlotTaken s'"
  shows "hd (cm_queue s) = k"
proof -
  have k: "k \<in> set (cm_queue s)" using assms(1,3) by (auto simp: compare_inv_def)
  show ?thesis using assms(2)
  proof (rule compare_stepE)
    fix i assume s': "s' = give_back ((move i (Returned None) s)\<lparr>cm_compared := cm_compared s @ [i]\<rparr>)" and i: "at_point i Comparing s"
    obtain j q where q: "cm_queue s = j # q" using k by (cases "cm_queue s") auto
    then have "at_point j Blocked s" using assms(1) by (auto simp: compare_inv_def)
    then show ?thesis using assms(3,4) s' i q at_point_unique [OF assms(3)]
      by (auto simp: give_back_def at_point_def nth_list_update split: if_splits)
  next
    fix wait assume "s' = s\<lparr>cm_points := cm_points s @ [Entered wait]\<rparr>"
    then show ?thesis using assms(3,4) by (auto simp: at_point_def nth_append split: if_splits)
  qed (use assms(3,4) in \<open>auto simp: at_point_def nth_list_update split: if_splits\<close>)
qed

lemma no_overtaking:
  assumes "compare_inv l s" "compare_step l s s'" "cm_queue s \<noteq> []" "at_point k (Entered wait) s"
  shows "\<not> at_point k Comparing s'"
proof -
  have full: "cm_buffered s = cl_slots l" using assms(1,3) by (simp add: compare_inv_def)
  have head: "at_point (hd (cm_queue s)) Blocked s" using assms(1,3) hd_in_set by (auto simp: compare_inv_def)
  show ?thesis using assms(2)
  proof (rule compare_stepE)
    fix i assume s': "s' = give_back ((move i (Returned None) s)\<lparr>cm_compared := cm_compared s @ [i]\<rparr>)" and i: "at_point i Comparing s"
    obtain j q where q: "cm_queue s = j # q" using assms(3) by (cases "cm_queue s") auto
    show ?thesis using assms(4) s' i q head by (auto simp: give_back_def at_point_def nth_list_update split: if_splits)
  next
    fix w assume "s' = s\<lparr>cm_points := cm_points s @ [Entered w]\<rparr>"
    then show ?thesis using assms(4) by (auto simp: at_point_def nth_append)
  qed (use assms(4) full in \<open>auto simp: at_point_def nth_list_update split: if_splits\<close>)
qed

text \<open>C14: however goroutines interleave, no more comparisons run at once than there are slots and no more than 64
  requests per slot wait; a comparison ran exactly for the calls that return without an error, once
  each; a slot that is given back goes to the longest waiter, and nobody who arrives while others wait gets one.\<close>

theorem compare_limit:
  assumes "compare_reachable (NewCompareLimiter n) s"
  shows "length (filter (\<lambda>p. p = Comparing) (cm_points s)) \<le> Capacity (Some (NewCompareLimiter n)) \<and>
    int (length (filter (\<lambda>p. p = Blocked) (cm_points s))) \<le> 64 * int (Capacity (Some (NewCompareLimiter n))) \<and>
    distinct (cm_compared s) \<and> (\<forall>i r. at_point i (Returned r) s \<longrightarrow> (i \<in> set (cm_compared s) \<longleftrightarrow> r = None)) \<and>
    (\<forall>s' k wait. compare_step (NewCompareLimiter n) s s' \<longrightarrow>
       (at_point k Blocked s \<and> at_point k SlotTaken s' \<longrightarrow> hd (cm_queue s) = k) \<and>
       (at_point k (Entered wait) s \<and> at_point k Comparing s' \<longrightarrow> cm_queue s = []))"
proof -
  let ?l = "NewCompareLimiter n"
  have l: "0 \<le> cl_max_waiting ?l" "cl_max_waiting ?l = 64 * int (Capacity (Some ?l))"
    by (simp_all add: NewCompareLimiter_def Capacity_def compareQueuePerSlot_def Let_def)
  have inv: "compare_inv ?l s" by (rule reachable_inv [OF assms l(1)])
  have "length (filter (\<lambda>p. p = Comparing) (cm_points s)) \<le> num holds_slot s" "length (filter (\<lambda>p. p = Blocked) (cm_points s)) \<le> num admitted s"
    unfolding num_def by (rule length_filter_le_filter; simp)+
  then have "length (filter (\<lambda>p. p = Comparing) (cm_points s)) \<le> Capacity (Some ?l)"
    "int (length (filter (\<lambda>p. p = Blocked) (cm_points s))) \<le> 64 * int (Capacity (Some ?l))"
    using inv l(2) by (auto simp: compare_inv_def Capacity_def)
  moreover have "distinct (cm_compared s)" "\<forall>i r. at_point i (Returned r) s \<longrightarrow> (i \<in> set (cm_compared s) \<longleftrightarrow> r = None)"
    using inv at_point_unique by (auto simp: compare_inv_def)
  ultimately show ?thesis using slot_in_order [OF inv] no_overtaking [OF inv] by blast
qed

theorem compare_limit_witness:
  "\<exists>s. compare_reachable (NewCompareLimiter 1) s \<and> cm_points s = [Comparing, Entered 5] \<and>
     length (filter (\<lambda>p. p = Comparing) (cm_points s)) \<le> Capacity (Some (NewCompareLimiter 1))"
proof -
  let ?l = "NewCompareLimiter 1"
  let ?s1 = "compare_start\<lparr>cm_points := [Entered 0]\<rparr>"
  let ?s2 = "(move 0 Comparing ?s1)\<lparr>cm_buffered := 1\<rparr>"
  let ?s3 = "?s2\<lparr>cm_points := [Comparing, Entered 5]\<rparr>"
  have "compare_step ?l compare_start ?s1" using compare_step.enter [of ?l compare_start 0] by (simp add: compare_start_def)
  moreover have "compare_step ?l ?s1 ?s2"
    using compare_step.slot_free [of 0 0 ?s1 ?l] by (simp add: at_point_def compare_start_def NewCompareLimiter_def Let_def)
  moreover have "compare_step ?l ?s2 ?s3" using compare_step.enter [of ?l ?s2 5] by (simp add: compare_start_def)
  ultimately have r: "compare_reachable ?l ?s3" by (metis compare_reachable.intros)
  show ?thesis using compare_limit [OF r] r by (intro exI [of _ ?s3]) simp
qed

end
