(* ===== verification/ClientAddr.thy ===== *)
theory ClientAddr
  imports LoginRedis
begin

text \<open>
  The client's address (\<open>internal/auth/clientip.go\<close>) and the limit on dynamic client registrations from
  one address (\<open>internal/auth/ratelimit.go\<close>).
\<close>

section \<open>The client's address\<close>

definition last_index :: "char \<Rightarrow> string \<Rightarrow> nat option" where
  "last_index c s = (let n = length (takeWhile (\<lambda>x. x \<noteq> c) (rev s)) in if c \<in> set s then Some (length s - n - 1) else None)"

text \<open>The host of \<open>net.SplitHostPort\<close>; \<open>None\<close> is an error.\<close>

definition split_host :: "string \<Rightarrow> string option" where
  "split_host s =
     (case last_index (CHR '':'') s of
        None \<Rightarrow> None
      | Some i \<Rightarrow>
          if hd s = CHR ''['' then
            (if CHR '']'' \<notin> set s then None
             else let e = length (takeWhile (\<lambda>c. c \<noteq> CHR '']'') s)
                  in if e + 1 \<noteq> i \<or> CHR ''['' \<in> set (drop 1 s) \<or> CHR '']'' \<in> set (drop (e + 1) s) then None
                     else Some (take (e - 1) (drop 1 s)))
          else if CHR '':'' \<in> set (take i s) \<or> CHR ''['' \<in> set s \<or> CHR '']'' \<in> set s then None
          else Some (take i s))"

definition public_ip :: "string \<Rightarrow> bool" where
  "public_ip s = (case ParseIP s of None \<Rightarrow> False | Some a \<Rightarrow> \<not> (is_loopback a \<or> is_private a \<or> is_link_local a))"

text \<open>\<open>ClientIP\<close> of the \<open>X-Forwarded-For\<close> header, empty when it is absent, and the remote address.\<close>

definition ClientIP :: "string \<Rightarrow> string \<Rightarrow> string" where
  "ClientIP xff remote =
     (case (if xff = [] then None else find_first public_ip (map trim_space (rev (split_char (CHR '','') xff)))) of
        Some ip \<Rightarrow> ip
      | None \<Rightarrow> (case split_host remote of Some h \<Rightarrow> h | None \<Rightarrow> remote))"

lemma split_char_nonempty: "split_char c s \<noteq> []"
  by (cases s) (auto split: list.splits)

lemma split_char_append: "split_char c (a @ c # b) = split_char c a @ split_char c b"
proof (induction a)
  case (Cons x a)
  then show ?case using split_char_nonempty [of c a] by (auto split: list.splits)
qed simp

lemma find_first_append: "find_first P (xs @ ys) = (case find_first P xs of Some x \<Rightarrow> Some x | None \<Rightarrow> find_first P ys)"
  by (induction xs) auto

text \<open>C35: whatever a client puts in front of the \<open>X-Forwarded-For\<close> header, the address stays the rightmost public one
  that the proxies appended, if there is one; and an address taken from the header is public.\<close>

theorem client_ip_unspoofable:
  assumes "\<exists>p \<in> set (split_char (CHR '','') xff). public_ip (trim_space p)"
  shows "ClientIP (spoofed @ '','' @ xff) remote = ClientIP xff remote \<and> public_ip (ClientIP xff remote)"
proof -
  let ?ps = "map trim_space (rev (split_char (CHR '','') xff))"
  have ne: "xff \<noteq> []"
  proof
    assume "xff = []"
    moreover have "\<not> public_ip (trim_space [])" by (simp add: trim_space_def trim_list_def public_ip_def ParseIP_def ParseAddr_def runes_of.simps)
    ultimately show False using assms by simp
  qed
  obtain ip where ip: "find_first public_ip ?ps = Some ip" using assms by (cases "find_first public_ip ?ps") (auto simp: find_first_None)
  have "find_first public_ip (map trim_space (rev (split_char (CHR '','') (spoofed @ CHR '','' # xff)))) = Some ip"
    unfolding split_char_append using ip by (simp add: find_first_append)
  then show ?thesis using ip ne find_first_Some [OF ip] by (simp add: ClientIP_def)
qed

theorem client_ip_unspoofable_witness: "ClientIP (''8.8.8.8'' @ '','' @ '' 1.2.3.4,10.0.0.7'') ''10.0.0.2:99'' = ''1.2.3.4''"
proof -
  have s: "split_char (CHR '','') '' 1.2.3.4,10.0.0.7'' = ['' 1.2.3.4'', ''10.0.0.7'']" by simp
  have t: "trim_space '' 1.2.3.4'' = ''1.2.3.4''" "trim_space ''10.0.0.7'' = ''10.0.0.7''"
    by code_simp+
  have p: "public_ip ''1.2.3.4''" "\<not> public_ip ''10.0.0.7''" by code_simp+
  have "\<exists>p \<in> set (split_char (CHR '','') '' 1.2.3.4,10.0.0.7''). public_ip (trim_space p)" unfolding s using p t by simp
  from client_ip_unspoofable [OF this, of "''8.8.8.8''" "''10.0.0.2:99''"] show ?thesis using s t p by (simp add: ClientIP_def)
qed

section \<open>Dynamic client registration\<close>

definition dcrRateLimit :: int where "dcrRateLimit = 5"
definition dcrRateWindow :: duration where "dcrRateWindow = 3600 * second"

definition rateLimitScript :: "'r redis_ops \<Rightarrow> int \<Rightarrow> string \<Rightarrow> int \<Rightarrow> 'r \<Rightarrow> int \<times> 'r" where
  "rateLimitScript ops ms key secs r =
     (let r1 = rd_incr ops ms key r; n = stored_count ops ms key r1
      in (n, if n = 1 then rd_pexpire ops ms key (secs * 1000) r1 else r1))"

text \<open>\<open>Allow\<close>; \<open>None\<close> is an error of Redis.\<close>

definition dcr_Allow :: "'r redis_ops \<Rightarrow> redis_link \<Rightarrow> int \<Rightarrow> string \<Rightarrow> 'r \<Rightarrow> bool option \<times> 'r" where
  "dcr_Allow ops link ms ip r =
     (if link = Unreached then (None, r)
      else let (n, r1) = rateLimitScript ops ms (''oauth:dcr:ratelimit:'' @ ip) (dcrRateWindow div second) r
           in (if link = ReplyLost then None else Some (n \<le> dcrRateLimit), r1))"

fun dcr_run :: "'r redis_ops \<Rightarrow> (redis_link \<times> int \<times> string) list \<Rightarrow> 'r \<Rightarrow> (int \<times> string \<times> bool) list" where
  "dcr_run ops [] r = []"
| "dcr_run ops ((link, ms, ip) # evs) r =
     (let (a, r') = dcr_Allow ops link ms ip r in (ms, ip, a = Some True) # dcr_run ops evs r')"

text \<open>Counters that are at least one and have an expiry time, as the script leaves them.\<close>

definition dcr_ok :: "('r \<Rightarrow> string \<Rightarrow> redis_value option) \<Rightarrow> 'r \<Rightarrow> bool" where
  "dcr_ok stored r \<longleftrightarrow> (\<forall>k n x. stored r k = Some (n, x) \<longrightarrow> 1 \<le> n \<and> x \<noteq> None)"

context redis_server
begin

lemma rateLimitScript_spec:
  assumes "dcr_ok stored r" "0 < secs" "rateLimitScript ops ms key secs r = (n, r')"
  shows "dcr_ok stored r' \<and> n = (case redis_counter_at stored r key ms of Some (m, _) \<Rightarrow> m + 1 | None \<Rightarrow> 1) \<and>
    redis_counter_at stored r' k ms = grown (if k = key then 1 else 0) (ms + secs * 1000) (redis_counter_at stored r k ms)"
proof (cases "unexpired ms (stored r key)")
  case None
  let ?r1 = "rd_incr ops ms key r"
  have r1: "stored ?r1 = (stored r)(key \<mapsto> (1, None))" using None incr [of ms key r] by simp
  have n: "n = 1" "r' = rd_pexpire ops ms key (secs * 1000) ?r1"
    using assms(3) r1 by (simp_all add: rateLimitScript_def Let_def stored_count_def get unexpired_def)
  have "stored r' = (stored r)(key \<mapsto> (1, Some (ms + secs * 1000)))"
    using pexpire [of "secs * 1000" ms key ?r1] assms(2) r1 n(2) by (simp add: unexpired_def)
  then show ?thesis using assms(1,2) None n(1)
    by (auto simp: dcr_ok_def redis_counter_at_def grown_def unexpired_def split: option.splits if_splits)
next
  case (Some v)
  then obtain m e where v: "v = (m, Some e)" "stored r key = Some (m, Some e)" "ms < e" "1 \<le> m"
    using assms(1) by (cases v) (fastforce simp: unexpired_def dcr_ok_def split: option.splits if_splits)
  let ?r1 = "rd_incr ops ms key r"
  have r1: "stored ?r1 = (stored r)(key \<mapsto> (m + 1, Some e))" using Some v incr [of ms key r] by simp
  then have n: "n = m + 1" "r' = ?r1" using assms(3) v by (auto simp: rateLimitScript_def Let_def stored_count_def get unexpired_def)
  have "dcr_ok stored r'" using assms(1) n(2) r1 v(4) by (auto simp: dcr_ok_def)
  then show ?thesis using n r1 v(2,3) by (auto simp: redis_counter_at_def grown_def unexpired_def split: option.splits)
qed

lemma phase_more: "phase c t a w L m \<Longrightarrow> 0 < w \<Longrightarrow> (c = None \<Longrightarrow> j = 0) \<Longrightarrow> phase (grown j e c) t a w L m"
  by (cases c) (auto simp: phase_def grown_def)

text \<open>At most ten registrations from one address within any hour.\<close>

lemma dcr_bounded:
  assumes "phase (redis_counter_at stored r (''oauth:dcr:ratelimit:'' @ ip) T) T a 3600000 5 m" "dcr_ok stored r"
    and "sorted (map (\<lambda>ev. fst (snd ev)) evs)" "\<forall>ev \<in> set evs. T \<le> fst (snd ev)"
  shows "m + int (length (filter (\<lambda>(t, ip', ok). ok \<and> ip' = ip \<and> a \<le> t \<and> t < a + 3600000) (dcr_run ops evs r))) \<le> 10"
  using assms
proof (induction evs arbitrary: r T m)
  case Nil
  then show ?case by (simp add: phase_def)
next
  case (Cons ev evs)
  obtain link ms ip' where ev: "ev = (link, ms, ip')" by (cases ev)
  let ?key = "''oauth:dcr:ratelimit:'' @ ip" and ?key' = "''oauth:dcr:ratelimit:'' @ ip'"
  let ?c = "redis_counter_at stored r ?key ms"
  have T: "T \<le> ms" using Cons.prems(4) ev by simp
  have "?c = (case redis_counter_at stored r ?key T of Some (n, e) \<Rightarrow> if ms < e then Some (n, e) else None | None \<Rightarrow> None)"
    using T Cons.prems(2) by (auto simp: redis_counter_at_def unexpired_def dcr_ok_def split: option.splits if_splits)
  then have ph: "phase ?c ms a 3600000 5 m" by (rule phase_later [OF Cons.prems(1) T])
  have rest: "sorted (map (\<lambda>ev. fst (snd ev)) evs)" "\<forall>ev \<in> set evs. ms \<le> fst (snd ev)" using Cons.prems(3) ev by auto
  show ?case
  proof (cases "link = Unreached")
    case True
    then show ?thesis using Cons.IH [OF ph Cons.prems(2) rest] ev by (simp add: dcr_Allow_def)
  next
    case False
    obtain n r' where s: "rateLimitScript ops ms ?key' 3600 r = (n, r')" by fastforce
    note spec = rateLimitScript_spec [OF Cons.prems(2) _ s]
    have run: "dcr_run ops (ev # evs) r = (ms, ip', link = Answered \<and> n \<le> 5) # dcr_run ops evs r'"
      using False ev s by (cases link) (auto simp: dcr_Allow_def dcrRateWindow_def second_def dcrRateLimit_def)
    let ?ok = "link = Answered \<and> n \<le> 5 \<and> ip' = ip \<and> a \<le> ms \<and> ms < a + 3600000"
    have c': "redis_counter_at stored r' ?key ms = grown (if ip' = ip then 1 else 0) (ms + 3600000) ?c" using spec [of ?key] by auto
    have "phase (redis_counter_at stored r' ?key ms) ms a 3600000 5 (m + (if ?ok then 1 else 0))"
    proof (cases "ip' = ip \<and> (\<forall>k e. ?c = Some (k, e) \<longrightarrow> k < 5)")
      case True
      have "phase (grown 1 (ms + 3600000) ?c) ms a 3600000 5 (if (1::nat) > 0 \<and> a \<le> ms \<and> ms < a + 3600000 then m + 1 else m)"
        by (rule phase_grown [OF ph]) (use True in auto)
      then have "phase (grown 1 (ms + 3600000) ?c) ms a 3600000 5 (m + (if ?ok then 1 else 0))"
        using spec [of ?key] True by (auto simp: phase_def grown_def split: option.splits if_splits)
      then show ?thesis using c' True by simp
    next
      case other: False
      have no: "\<not> ?ok" using other spec [of ?key] by (auto split: option.splits)
      show ?thesis unfolding if_not_P [OF no] add_0_right c' by (rule phase_more [OF ph]) (use other in auto)
    qed
    from Cons.IH [OF this _ rest] spec have "m + (if ?ok then 1 else 0) + int (length (filter (\<lambda>(t, ip', ok). ok \<and> ip' = ip \<and> a \<le> t \<and> t < a + 3600000) (dcr_run ops evs r'))) \<le> 10"
      by auto
    then show ?thesis unfolding run by auto
  qed
qed

end

lemmas dcr_limit = mem_redis.dcr_bounded

end
