(* ===== verification/JsonPath.thy ===== *)
theory JsonPath
  imports Trail
begin

text \<open>
  The JSONPath dialect of DADL (\<open>internal/dadl/jsonpath.go\<close>) and the redaction of responses along such paths
  (\<open>internal/dadl/redact.go\<close>). JSON decoding and encoding are parameters; an object is an association list.
\<close>

section \<open>Paths\<close>

record path_segment =
  ps_field :: string
  ps_index :: "int option"
  ps_wildcard :: bool

datatype path_error = EmptyExpression | EmptySegment | UnclosedBracket string | InvalidIndex string

text \<open>\<open>strconv.Atoi\<close>: an optional sign and decimal digits, in the range of a 64-bit integer.\<close>

definition digits_value :: "string \<Rightarrow> int" where
  "digits_value s = foldl (\<lambda>v c. v * 10 + int (digit_value c)) 0 s"

definition atoi :: "string \<Rightarrow> int option" where
  "atoi s =
     (let neg = (s \<noteq> [] \<and> hd s = CHR ''-''); ds = (if s \<noteq> [] \<and> hd s \<in> {CHR ''-'', CHR ''+''} then tl s else s);
          v = (if neg then - digits_value ds else digits_value ds)
      in if ds = [] \<or> \<not> list_all is_digit ds \<or> v < - (2 ^ 63) \<or> 2 ^ 63 \<le> v then None else Some v)"

definition parseSegment :: "string \<Rightarrow> (path_error, path_segment) result" where
  "parseSegment s =
     (if s = [] then Inl EmptySegment
      else case index_of s ''['' of
          None \<Rightarrow> Inr (if s = ''*'' then \<lparr>ps_field = [], ps_index = None, ps_wildcard = True\<rparr>
                      else \<lparr>ps_field = s, ps_index = None, ps_wildcard = False\<rparr>)
        | Some i \<Rightarrow>
            (let field = take i s; rest = drop i s; idx = butlast (tl rest)
             in if last rest \<noteq> CHR '']'' then Inl (UnclosedBracket s)
                else if idx = ''*'' then Inr \<lparr>ps_field = field, ps_index = None, ps_wildcard = True\<rparr>
                else case atoi idx of
                    None \<Rightarrow> Inl (InvalidIndex idx)
                  | Some n \<Rightarrow> Inr \<lparr>ps_field = field, ps_index = Some n, ps_wildcard = False\<rparr>))"

fun parse_segments :: "string list \<Rightarrow> (path_error, path_segment list) result" where
  "parse_segments [] = Inr []"
| "parse_segments (p # ps) = bind_res (parseSegment p) (\<lambda>s. bind_res (parse_segments ps) (\<lambda>ss. Inr (s # ss)))"

definition NewJSONPath :: "string \<Rightarrow> (path_error, path_segment list) result" where
  "NewJSONPath expr =
     (if expr = [] then Inl EmptyExpression
      else let path = (if has_prefix expr ''$.'' then drop 2 expr else if has_prefix expr ''$'' then drop 1 expr else expr)
           in if path = [] then Inr [] else parse_segments (split_char (CHR ''.'') path))"

definition hasWildcard :: "path_segment list \<Rightarrow> bool" where
  "hasWildcard segs = list_ex ps_wildcard segs"

section \<open>Extraction\<close>

datatype extract_error = ExpectedObject string | FieldNotFound string | ExpectedArray int | IndexOutOfBounds int

text \<open>The element of an array an index names; negative indices count from the end.\<close>

definition array_index :: "'a list \<Rightarrow> int \<Rightarrow> nat option" where
  "array_index xs i =
     (let j = (if i < 0 then int (length xs) + i else i) in if j < 0 \<or> int (length xs) \<le> j then None else Some (nat j))"

definition enter_field :: "string \<Rightarrow> json \<Rightarrow> (extract_error, json) result" where
  "enter_field f d =
     (if f = [] then Inr d
      else case d of JObj m \<Rightarrow> (case map_of m f of None \<Rightarrow> Inl (FieldNotFound f) | Some v \<Rightarrow> Inr v) | _ \<Rightarrow> Inl (ExpectedObject f))"

definition enter_index :: "int option \<Rightarrow> json \<Rightarrow> (extract_error, json) result" where
  "enter_index i d =
     (case i of
        None \<Rightarrow> Inr d
      | Some n \<Rightarrow>
          (case d of
             JArr xs \<Rightarrow> (case array_index xs n of None \<Rightarrow> Inl (IndexOutOfBounds n) | Some j \<Rightarrow> Inr (xs ! j))
           | _ \<Rightarrow> Inl (ExpectedArray n)))"

fun extract_single :: "path_segment list \<Rightarrow> json \<Rightarrow> (extract_error, json) result" where
  "extract_single [] d = Inr d"
| "extract_single (s # ss) d = bind_res (enter_field (ps_field s) d) (\<lambda>v. bind_res (enter_index (ps_index s) v) (extract_single ss))"

text \<open>The children a wildcard selects, of an object in the order of its keys.\<close>

definition json_children :: "json \<Rightarrow> json list" where
  "json_children d =
     (case d of JArr xs \<Rightarrow> xs | JObj m \<Rightarrow> map (\<lambda>k. the (map_of m k)) (sort (map fst m)) | _ \<Rightarrow> [])"

fun collectNodes :: "path_segment list \<Rightarrow> json \<Rightarrow> json list" where
  "collectNodes [] d = [d]"
| "collectNodes (s # ss) d =
     (case enter_field (ps_field s) d of
        Inl _ \<Rightarrow> []
      | Inr v \<Rightarrow>
          if ps_wildcard s then concat (map (collectNodes ss) (json_children v))
          else case enter_index (ps_index s) v of Inl _ \<Rightarrow> [] | Inr w \<Rightarrow> collectNodes ss w)"

definition Extract :: "path_segment list \<Rightarrow> json \<Rightarrow> (extract_error, json) result" where
  "Extract segs d = (if hasWildcard segs then Inr (JArr (collectNodes segs d)) else extract_single segs d)"

datatype result_error = BadPath path_error | BadJson | NotExtracted extract_error

definition ExtractResult :: "(string \<Rightarrow> json option) \<Rightarrow> (json \<Rightarrow> string) \<Rightarrow> string \<Rightarrow> string \<Rightarrow> (result_error, string) result" where
  "ExtractResult unmarshal marshal body path =
     (if path = [] then Inr body
      else case NewJSONPath path of
          Inl e \<Rightarrow> Inl (BadPath e)
        | Inr segs \<Rightarrow>
            (case unmarshal body of
               None \<Rightarrow> Inl BadJson
             | Some d \<Rightarrow> (case Extract segs d of Inl e \<Rightarrow> Inl (NotExtracted e) | Inr v \<Rightarrow> Inr (marshal v))))"

section \<open>Redaction\<close>

definition RedactedPlaceholder :: json where "RedactedPlaceholder = JStr ''[REDACTED]''"

text \<open>\<open>redactValue\<close>; \<open>redactSelected\<close> is its part for a value the field of the segment has led to.\<close>

fun redactValue :: "path_segment list \<Rightarrow> json \<Rightarrow> json"
  and redactSelected :: "path_segment \<Rightarrow> path_segment list \<Rightarrow> json \<Rightarrow> json" where
  "redactValue [] d = RedactedPlaceholder"
| "redactValue (s # ss) d =
     (if ps_field s \<noteq> [] then
        (case d of
           JObj m \<Rightarrow>
             (case map_of m (ps_field s) of
                None \<Rightarrow> d
              | Some v \<Rightarrow> JObj (AList.update (ps_field s)
                   (if ps_index s = None \<and> \<not> ps_wildcard s then redactValue ss v else redactSelected s ss v) m))
         | _ \<Rightarrow> d)
      else redactSelected s ss d)"
| "redactSelected s ss v =
     (if ps_wildcard s then
        (case v of JArr xs \<Rightarrow> JArr (map (redactValue ss) xs) | JObj m \<Rightarrow> JObj (map (\<lambda>(k, x). (k, redactValue ss x)) m) | _ \<Rightarrow> v)
      else case ps_index s of
          Some n \<Rightarrow>
            (case v of
               JArr xs \<Rightarrow> (case array_index xs n of None \<Rightarrow> v | Some j \<Rightarrow> JArr (xs[j := redactValue ss (xs ! j)]))
             | _ \<Rightarrow> v)
        | None \<Rightarrow> redactValue ss v)"

fun parse_paths :: "string list \<Rightarrow> (path_error, path_segment list list) result" where
  "parse_paths [] = Inr []"
| "parse_paths (p # ps) = bind_res (NewJSONPath p) (\<lambda>s. bind_res (parse_paths ps) (\<lambda>ss. Inr (s # ss)))"

definition RedactResult :: "(string \<Rightarrow> json option) \<Rightarrow> (json \<Rightarrow> string) \<Rightarrow> string \<Rightarrow> string list \<Rightarrow> (result_error, string) result" where
  "RedactResult unmarshal marshal body paths =
     (if paths = [] then Inr body
      else case parse_paths paths of
          Inl e \<Rightarrow> Inl (BadPath e)
        | Inr parsed \<Rightarrow>
            (case unmarshal body of
               None \<Rightarrow> Inl BadJson
             | Some d \<Rightarrow> Inr (marshal (fold redactValue parsed d))))"

section \<open>What redaction leaves\<close>

text \<open>\<open>masked d d'\<close>: \<open>d'\<close> is \<open>d\<close> with some values replaced by the placeholder.\<close>

inductive masked :: "json \<Rightarrow> json \<Rightarrow> bool" where
  placeholder: "masked d RedactedPlaceholder"
| same: "masked d d"
| elements: "list_all2 masked xs ys \<Longrightarrow> masked (JArr xs) (JArr ys)"
| fields: "map fst m = map fst m' \<Longrightarrow> list_all2 masked (map snd m) (map snd m') \<Longrightarrow> masked (JObj m) (JObj m')"

lemma masked_placeholder: "masked RedactedPlaceholder d \<Longrightarrow> d = RedactedPlaceholder"
  by (auto simp: RedactedPlaceholder_def elim: masked.cases)

lemma masked_refl_list: "list_all2 masked xs xs"
  by (simp add: list_all2_refl masked.same)

lemma fields_lookup:
  "map fst m = map fst m' \<Longrightarrow> list_all2 P (map snd m) (map snd m') \<Longrightarrow> map_of m' k = Some v' \<Longrightarrow> \<exists>v. map_of m k = Some v \<and> P v v'"
proof (induction m arbitrary: m')
  case (Cons kv m)
  then show ?case by (cases m') (auto split: if_splits)
qed simp

lemma map_of_key: "k \<in> set (map fst m) \<Longrightarrow> \<exists>v. map_of m k = Some v"
  by (cases "map_of m k") (auto simp: map_of_eq_None_iff)

lemma masked_obj: "masked d (JObj m') \<Longrightarrow> \<exists>m. d = JObj m \<and> map fst m = map fst m' \<and> list_all2 masked (map snd m) (map snd m')"
  by (erule masked.cases) (auto simp: RedactedPlaceholder_def masked_refl_list)

lemma masked_arr: "masked d (JArr ys) \<Longrightarrow> \<exists>xs. d = JArr xs \<and> list_all2 masked xs ys"
  by (erule masked.cases) (auto simp: RedactedPlaceholder_def masked_refl_list)

lemma masked_field: "masked d d' \<Longrightarrow> enter_field f d' = Inr v' \<Longrightarrow> \<exists>v. enter_field f d = Inr v \<and> masked v v'"
proof (cases "f = []")
  case False
  assume m: "masked d d'" "enter_field f d' = Inr v'"
  then obtain m' where d': "d' = JObj m'" "map_of m' f = Some v'" using False by (auto simp: enter_field_def split: json.splits option.splits)
  obtain k where k: "d = JObj k" "map fst k = map fst m'" "list_all2 masked (map snd k) (map snd m')" using masked_obj m(1) d'(1) by blast
  then show ?thesis using fields_lookup [OF k(2,3) d'(2)] False by (auto simp: enter_field_def)
qed (auto simp: enter_field_def)

lemma masked_index: "masked d d' \<Longrightarrow> enter_index i d' = Inr v' \<Longrightarrow> \<exists>v. enter_index i d = Inr v \<and> masked v v'"
proof (cases i)
  case (Some n)
  assume m: "masked d d'" "enter_index i d' = Inr v'"
  then obtain ys j where d': "d' = JArr ys" "array_index ys n = Some j" "v' = ys ! j" using Some by (auto simp: enter_index_def split: json.splits option.splits)
  obtain xs where x: "d = JArr xs" "list_all2 masked xs ys" using masked_arr m(1) d'(1) by blast
  have len: "length xs = length ys" using x(2) by (rule list_all2_lengthD)
  then have "array_index xs n = Some j" "j < length ys" using d'(2) by (auto simp: array_index_def Let_def split: if_splits)
  then show ?thesis using x len d'(3) Some list_all2_nthD [OF x(2), of j] by (simp add: enter_index_def)
qed (auto simp: enter_index_def)

lemma masked_child: "masked d d' \<Longrightarrow> c' \<in> set (json_children d') \<Longrightarrow> \<exists>c \<in> set (json_children d). masked c c'"
proof (cases d')
  case (JArr ys)
  assume m: "masked d d'" "c' \<in> set (json_children d')"
  then obtain xs where x: "d = JArr xs" "list_all2 masked xs ys" using masked_arr JArr by blast
  obtain i where i: "i < length ys" "c' = ys ! i" using m(2) JArr by (auto simp: json_children_def in_set_conv_nth)
  then have "masked (xs ! i) c'" "xs ! i \<in> set xs" using x(2) by (auto simp: list_all2_conv_all_nth)
  then show ?thesis using x(1) by (auto simp: json_children_def)
next
  case (JObj m')
  assume m: "masked d d'" "c' \<in> set (json_children d')"
  then obtain k where k: "d = JObj k" "map fst k = map fst m'" "list_all2 masked (map snd k) (map snd m')" using masked_obj JObj by blast
  obtain f where f: "f \<in> set (map fst m')" "c' = the (map_of m' f)" using m(2) JObj by (auto simp: json_children_def)
  then obtain v' where v': "map_of m' f = Some v'" using map_of_key by metis
  then obtain v where v: "map_of k f = Some v" "masked v v'" using fields_lookup [OF k(2,3)] by blast
  have "f \<in> set (map fst k)" using f(1) k(2) by simp
  then have "the (map_of k f) \<in> set (json_children d)" using k(1) by (auto simp: json_children_def)
  then show ?thesis using v v' f(2) by auto
qed (simp_all add: json_children_def)

text \<open>What a path selects in a masked value is masked from what it selects in the original.\<close>

lemma masked_nodes: "masked d d' \<Longrightarrow> n' \<in> set (collectNodes p d') \<Longrightarrow> \<exists>n \<in> set (collectNodes p d). masked n n'"
proof (induction p arbitrary: d d' n')
  case (Cons s ss)
  obtain v' where v': "enter_field (ps_field s) d' = Inr v'" using Cons.prems(2) by (cases "enter_field (ps_field s) d'") auto
  obtain v where v: "enter_field (ps_field s) d = Inr v" "masked v v'" using masked_field [OF Cons.prems(1) v'] by blast
  show ?case
  proof (cases "ps_wildcard s")
    case True
    then obtain c' where c': "c' \<in> set (json_children v')" "n' \<in> set (collectNodes ss c')" using Cons.prems(2) v' by auto
    then obtain c where "c \<in> set (json_children v)" "masked c c'" using masked_child [OF v(2)] by blast
    then show ?thesis using Cons.IH [OF _ c'(2)] True v(1) by fastforce
  next
    case False
    then obtain w' where w': "enter_index (ps_index s) v' = Inr w'" "n' \<in> set (collectNodes ss w')"
      using Cons.prems(2) v' by (cases "enter_index (ps_index s) v'") auto
    then obtain w where "enter_index (ps_index s) v = Inr w" "masked w w'" using masked_index [OF v(2)] by blast
    then show ?thesis using Cons.IH [OF _ w'(2)] False v(1) by auto
  qed
qed simp

lemma update_fields:
  "map_of m k = Some v \<Longrightarrow> P v v' \<Longrightarrow> (\<And>x. P x x) \<Longrightarrow>
    map fst (AList.update k v' m) = map fst m \<and> list_all2 P (map snd m) (map snd (AList.update k v' m))"
proof (induction m)
  case (Cons kv m)
  show ?case
  proof (cases "fst kv = k")
    case True
    then show ?thesis using Cons.prems by (cases kv) (simp add: list_all2_refl)
  next
    case False
    then show ?thesis using Cons by (cases kv) simp
  qed
qed simp

lemma update_masked: "map_of m k = Some v \<Longrightarrow> masked v v' \<Longrightarrow> masked (JObj m) (JObj (AList.update k v' m))"
  using update_fields [of m k v masked v'] masked.same by (intro masked.fields) auto

lemma children_map: "json_children (JObj (map (\<lambda>(k, x). (k, f x)) m)) = map f (json_children (JObj m))"
proof -
  have keys: "map fst (map (\<lambda>(k, x). (k, f x)) m) = map fst m" by (induction m) auto
  have "the (map_of (map (\<lambda>(k, x). (k, f x)) m) k) = f (the (map_of m k))" if "k \<in> set (map fst m)" for k
    using map_of_key [OF that] by (auto simp: map_of_map)
  then show ?thesis unfolding json_children_def json.case keys by simp
qed

declare redactSelected.simps [simp del]

lemma redact_segment:
  "redactValue (s # ss) d =
    (if ps_field s = [] then redactSelected s ss d
     else case d of
         JObj m \<Rightarrow> (case map_of m (ps_field s) of None \<Rightarrow> d | Some v \<Rightarrow> JObj (AList.update (ps_field s) (redactSelected s ss v) m))
       | _ \<Rightarrow> d)"
  by (cases d) (simp_all add: redactSelected.simps split: option.splits)

declare redactValue.simps(2) [simp del]

lemma redact_selected_masked:
  assumes "\<And>d. masked d (redactValue ss d)"
  shows "masked v (redactSelected s ss v)"
proof (cases "ps_wildcard s")
  case True
  have "list_all2 masked xs (map (redactValue ss) xs)" for xs using assms by (simp add: list_all2_conv_all_nth)
  from this [of "map snd _"] this show ?thesis using True
    by (cases v) (auto intro!: masked.same masked.elements masked.fields simp: redactSelected.simps case_prod_unfold comp_def)
next
  case False
  show ?thesis
  proof (cases "ps_index s")
    case None
    then show ?thesis using False assms by (simp add: redactSelected.simps)
  next
    case (Some n)
    have "list_all2 masked xs (xs[j := redactValue ss (xs ! j)])" for xs j
      using assms by (cases "j < length xs") (auto simp: list_all2_conv_all_nth nth_list_update intro: masked.same)
    then show ?thesis using False Some by (auto intro!: masked.intros simp: redactSelected.simps split: json.splits option.splits)
  qed
qed

lemma redact_masked: "masked d (redactValue p d)"
proof (induction p arbitrary: d)
  case Nil
  then show ?case by (simp add: masked.placeholder)
next
  case (Cons s ss)
  note sel = redact_selected_masked [OF Cons.IH]
  show ?case unfolding redact_segment by (auto intro: sel update_masked masked.same split: json.splits option.splits)
qed

lemma masked_trans_nodes:
  assumes "set (collectNodes p d) \<subseteq> {RedactedPlaceholder}" "masked d d'"
  shows "set (collectNodes p d') \<subseteq> {RedactedPlaceholder}"
  using masked_nodes [OF assms(2)] assms(1) masked_placeholder by fastforce

text \<open>After redaction along a path, all that the path selects is the placeholder.\<close>

lemma redact_selected_hidden:
  assumes "\<And>d. set (collectNodes ss (redactValue ss d)) \<subseteq> {RedactedPlaceholder}" "ps_field s = []"
  shows "set (collectNodes (s # ss) (redactSelected s ss v)) \<subseteq> {RedactedPlaceholder}"
proof (cases "ps_wildcard s")
  case True
  then have "set (json_children (redactSelected s ss v)) \<subseteq> range (redactValue ss)"
    by (cases v) (auto simp: redactSelected.simps children_map, auto simp: json_children_def)
  then show ?thesis using True assms by (auto simp: enter_field_def)
next
  case False
  show ?thesis
  proof (cases "ps_index s")
    case None
    then show ?thesis using False assms by (auto simp: redactSelected.simps enter_field_def enter_index_def)
  next
    case (Some n)
    show ?thesis
    proof (cases v)
      case (JArr xs)
      show ?thesis
      proof (cases "array_index xs n")
        case None
        then show ?thesis using False Some JArr assms(2) by (simp add: redactSelected.simps enter_field_def enter_index_def)
      next
        case j: (Some j)
        then have "array_index (xs[j := redactValue ss (xs ! j)]) n = Some j" "j < length xs"
          by (auto simp: array_index_def Let_def split: if_splits)
        then show ?thesis using False Some JArr j assms by (simp add: redactSelected.simps enter_field_def enter_index_def)
      qed
    qed (use False Some assms in \<open>simp_all add: redactSelected.simps enter_field_def enter_index_def\<close>)
  qed
qed

lemma redact_hidden: "set (collectNodes p (redactValue p d)) \<subseteq> {RedactedPlaceholder}"
proof (induction p arbitrary: d)
  case (Cons s ss)
  let ?s = "s\<lparr>ps_field := []\<rparr>"
  have sel: "redactSelected ?s ss v = redactSelected s ss v" for v by (simp add: redactSelected.simps)
  have hid: "set (collectNodes (?s # ss) (redactSelected s ss v)) \<subseteq> {RedactedPlaceholder}" for v
    using redact_selected_hidden [OF Cons.IH, of ?s] by (simp only: sel) simp
  have after: "collectNodes (s # ss) d' = collectNodes (?s # ss) w" if "enter_field (ps_field s) d' = Inr w" for d' w
    using that by (simp add: enter_field_def)
  show ?case
  proof (cases "\<exists>m v. ps_field s \<noteq> [] \<and> d = JObj m \<and> map_of m (ps_field s) = Some v")
    case True
    then obtain m v where m: "ps_field s \<noteq> []" "d = JObj m" "map_of m (ps_field s) = Some v" by blast
    then have "enter_field (ps_field s) (redactValue (s # ss) d) = Inr (redactSelected s ss v)"
      by (simp add: redact_segment enter_field_def update_conv')
    then show ?thesis using hid by (simp only: after)
  next
    case False
    show ?thesis
    proof (cases "ps_field s = []")
      case True
      then have "redactValue (s # ss) d = redactSelected s ss d" "?s = s" by (simp_all add: redact_segment)
      then show ?thesis using hid [of d] by simp
    next
      case ne: False
      then have "redactValue (s # ss) d = d" "\<exists>e. enter_field (ps_field s) d = Inl e"
        using False by (auto simp: redact_segment enter_field_def split: json.splits option.splits)
      then show ?thesis by auto
    qed
  qed
qed simp

lemma masked_trans: "masked b c \<Longrightarrow> masked a b \<Longrightarrow> masked a c"
proof (induction arbitrary: a rule: masked.induct)
  case (elements xs ys)
  obtain zs where z: "a = JArr zs" "list_all2 masked zs xs" using masked_arr [OF elements.prems] by blast
  have "list_all2 masked zs ys" using z(2) elements.IH by (auto simp: list_all2_conv_all_nth)
  then show ?case unfolding z(1) by (rule masked.elements)
next
  case (fields m m')
  obtain k where k: "a = JObj k" "map fst k = map fst m" "list_all2 masked (map snd k) (map snd m)" using masked_obj [OF fields.prems] by blast
  have "list_all2 masked (map snd k) (map snd m')" using k(3) fields.IH by (auto simp: list_all2_conv_all_nth)
  then show ?case unfolding k(1) using k(2) fields.hyps by (intro masked.fields) simp
qed (auto intro: masked.placeholder)

lemma fold_redact:
  "masked d (fold redactValue ps d) \<and> (\<forall>p \<in> set ps. set (collectNodes p (fold redactValue ps d)) \<subseteq> {RedactedPlaceholder})"
proof (induction ps arbitrary: d)
  case (Cons p ps)
  note IH = Cons.IH [of "redactValue p d"]
  have "masked d (fold redactValue ps (redactValue p d))" using masked_trans IH redact_masked by blast
  moreover have "set (collectNodes p (fold redactValue ps (redactValue p d))) \<subseteq> {RedactedPlaceholder}"
    using masked_trans_nodes [OF redact_hidden] IH by blast
  ultimately show ?case using IH by simp
qed (simp add: masked.same)

text \<open>Extraction without a wildcard finds a value exactly when it is the only node collected.\<close>

lemma extract_collect: "\<not> hasWildcard segs \<Longrightarrow> collectNodes segs d = (case extract_single segs d of Inl _ \<Rightarrow> [] | Inr v \<Rightarrow> [v])"
proof (induction segs arbitrary: d)
  case (Cons s ss)
  then show ?case by (cases "enter_field (ps_field s) d"; cases "enter_index (ps_index s) (projr (enter_field (ps_field s) d))") (auto simp: hasWildcard_def)
qed simp

lemma parse_paths_all: "parse_paths ps = Inr jps \<Longrightarrow> length jps = length ps \<and> (\<forall>i < length ps. NewJSONPath (ps ! i) = Inr (jps ! i))"
proof (induction ps arbitrary: jps)
  case (Cons p ps)
  then show ?case by (auto simp: bind_res_Inr_iff nth_Cons split: nat.splits)
qed simp

lemma redacted_body:
  assumes "paths \<noteq> []" "RedactResult unmarshal marshal body paths = Inr out"
  shows "\<exists>d d'. unmarshal body = Some d \<and> out = marshal d' \<and> masked d d' \<and>
      (\<forall>p \<in> set paths. \<exists>segs. NewJSONPath p = Inr segs \<and> set (collectNodes segs d') \<subseteq> {RedactedPlaceholder} \<and>
        (\<forall>v. \<not> hasWildcard segs \<and> Extract segs d' = Inr v \<longrightarrow> v = RedactedPlaceholder))"
proof -
  obtain jps d where j: "parse_paths paths = Inr jps" "unmarshal body = Some d" "out = marshal (fold redactValue jps d)"
    using assms by (auto simp: RedactResult_def split: sum.splits option.splits)
  have "\<exists>segs. NewJSONPath p = Inr segs \<and> set (collectNodes segs (fold redactValue jps d)) \<subseteq> {RedactedPlaceholder} \<and>
      (\<forall>v. \<not> hasWildcard segs \<and> Extract segs (fold redactValue jps d) = Inr v \<longrightarrow> v = RedactedPlaceholder)" if p: "p \<in> set paths" for p
  proof -
    obtain i where i: "i < length paths" "p = paths ! i" using p by (auto simp: in_set_conv_nth)
    then have s: "NewJSONPath p = Inr (jps ! i)" "jps ! i \<in> set jps" using parse_paths_all [OF j(1)] by auto
    have c: "set (collectNodes (jps ! i) (fold redactValue jps d)) \<subseteq> {RedactedPlaceholder}" using fold_redact s(2) by blast
    then have "\<forall>v. \<not> hasWildcard (jps ! i) \<and> Extract (jps ! i) (fold redactValue jps d) = Inr v \<longrightarrow> v = RedactedPlaceholder"
      using extract_collect [of "jps ! i" "fold redactValue jps d"] by (auto simp: Extract_def)
    then show ?thesis using s(1) c by blast
  qed
  then show ?thesis using j(2,3) fold_redact by blast
qed

text \<open>A response that is returned although paths are to be redacted has been decoded, and is encoded from a value
  that differs from the decoded one only by placeholders, in which every value that any of the paths
  selects is the placeholder, with and without wildcards. If a path or the body cannot be parsed,
  the call fails and nothing is returned.\<close>

theorem redaction_complete:
  assumes "paths \<noteq> []"
  shows "(\<forall>out. RedactResult unmarshal marshal body paths = Inr out \<longrightarrow>
      (\<exists>d d'. unmarshal body = Some d \<and> out = marshal d' \<and> masked d d' \<and>
        (\<forall>p \<in> set paths. \<exists>segs. NewJSONPath p = Inr segs \<and> set (collectNodes segs d') \<subseteq> {RedactedPlaceholder} \<and>
          (\<forall>v. \<not> hasWildcard segs \<and> Extract segs d' = Inr v \<longrightarrow> v = RedactedPlaceholder)))) \<and>
    ((\<exists>p \<in> set paths. \<exists>e. NewJSONPath p = Inl e) \<or> unmarshal body = None \<longrightarrow> (\<exists>e. RedactResult unmarshal marshal body paths = Inl e))"
proof (intro conjI allI impI)
  fix out assume "RedactResult unmarshal marshal body paths = Inr out"
  from redacted_body [OF assms this]
  show "\<exists>d d'. unmarshal body = Some d \<and> out = marshal d' \<and> masked d d' \<and>
      (\<forall>p \<in> set paths. \<exists>segs. NewJSONPath p = Inr segs \<and> set (collectNodes segs d') \<subseteq> {RedactedPlaceholder} \<and>
        (\<forall>v. \<not> hasWildcard segs \<and> Extract segs d' = Inr v \<longrightarrow> v = RedactedPlaceholder))" .
next
  assume bad: "(\<exists>p \<in> set paths. \<exists>e. NewJSONPath p = Inl e) \<or> unmarshal body = None"
  show "\<exists>e. RedactResult unmarshal marshal body paths = Inl e"
  proof (cases "parse_paths paths")
    case (Inr jps)
    then have "unmarshal body = None" using bad parse_paths_all [OF Inr] by (auto simp: in_set_conv_nth)
    then show ?thesis using assms Inr by (simp add: RedactResult_def)
  qed (simp add: RedactResult_def assms)
qed

theorem redaction_complete_witness:
  "\<exists>segs. NewJSONPath ''$.k'' = Inr segs \<and>
     RedactResult (\<lambda>_. Some (JObj [(''k'', JNum ''1'')])) (\<lambda>d. if d = JObj [(''k'', RedactedPlaceholder)] then ''ok'' else ''leak'') ''{}'' [''$.k''] = Inr ''ok'' \<and>
     set (collectNodes segs (JObj [(''k'', RedactedPlaceholder)])) \<subseteq> {RedactedPlaceholder}"
proof -
  have p: "NewJSONPath ''$.k'' = Inr [\<lparr>ps_field = ''k'', ps_index = None, ps_wildcard = False\<rparr>]"
    by (simp add: NewJSONPath_def has_prefix_def parseSegment_def)
  have r: "RedactResult (\<lambda>_. Some (JObj [(''k'', JNum ''1'')])) (\<lambda>d. if d = JObj [(''k'', RedactedPlaceholder)] then ''ok'' else ''leak'') ''{}'' [''$.k''] = Inr ''ok''"
    using p by (simp add: RedactResult_def redact_segment redactSelected.simps)
  have "''ok'' \<noteq> ''leak''" by simp
  then show ?thesis using redaction_complete [of "[''$.k'']" "\<lambda>_. Some (JObj [(''k'', JNum ''1'')])" "\<lambda>d. if d = JObj [(''k'', RedactedPlaceholder)] then ''ok'' else ''leak''" "''{}''"] r p
    by (auto split: if_splits)
qed

end
