(* ===== verification/UrlGuard.thy ===== *)
theory UrlGuard
  imports ClientAddr ExecBase
begin

text \<open>
  The guard against requests to internal addresses (\<open>internal/backend/urlvalidation.go\<close>). The resolver is a
  parameter: it answers a host name with its addresses or an error. Parsing a URL into its scheme and
  host name is a parameter too.
\<close>

section \<open>Addresses\<close>

definition hostnameLocalhost :: string where "hostnameLocalhost = ''localhost''"
definition hostnameGoogleMetadata :: string where "hostnameGoogleMetadata = ''metadata.google.internal''"

definition metadata_address :: ip_addr where "metadata_address = Addr4 [169, 254, 169, 254]"

definition IsPrivateIP :: "ip_addr option \<Rightarrow> bool" where
  "IsPrivateIP ip =
     (case ip of
        None \<Rightarrow> True
      | Some a \<Rightarrow> is_loopback a \<or> is_private a \<or> is_unspecified a \<or> is_link_local a \<or> is_link_local_multicast a \<or> a = metadata_address)"

datatype url_error = InvalidURL | BadScheme string | NoHostname | PrivateHostname string | ResolveFailed string | PrivateAddress string | MetadataAddress string

type_synonym resolver = "string \<Rightarrow> string list option"

definition bad_address :: "string \<Rightarrow> url_error option" where
  "bad_address s =
     (case ParseIP s of
        None \<Rightarrow> None
      | Some a \<Rightarrow> if is_loopback a \<or> is_private a \<or> is_link_local a \<or> is_link_local_multicast a then Some (PrivateAddress s)
                  else if a = metadata_address then Some (MetadataAddress s) else None)"

fun first_bad :: "string list \<Rightarrow> url_error option" where
  "first_bad [] = None"
| "first_bad (ip # ips) = (case bad_address ip of None \<Rightarrow> first_bad ips | Some e \<Rightarrow> Some e)"

definition ValidateBaseURL :: "case_tables \<Rightarrow> (string \<Rightarrow> (string \<times> string) option) \<Rightarrow> resolver \<Rightarrow> string \<Rightarrow> url_error option" where
  "ValidateBaseURL tables parse lookup rawURL =
     (case parse rawURL of
        None \<Rightarrow> Some InvalidURL
      | Some (scheme, hostname) \<Rightarrow>
          if scheme \<noteq> ''https'' \<and> scheme \<noteq> ''http'' then Some (BadScheme scheme)
          else if hostname = [] then Some NoHostname
          else if to_lower tables hostname \<in> {hostnameLocalhost, hostnameGoogleMetadata} then Some (PrivateHostname hostname)
          else case lookup hostname of
              None \<Rightarrow> Some (ResolveFailed hostname)
            | Some ips \<Rightarrow> first_bad ips)"

section \<open>Connections\<close>

definition split_host_port :: "string \<Rightarrow> (string \<times> string) option" where
  "split_host_port s = map_option (\<lambda>h. (h, drop (Suc (the (last_index (CHR '':'') s))) s)) (split_host s)"

definition join_host_port :: "string \<Rightarrow> string \<Rightarrow> string" where
  "join_host_port h p = (if CHR '':'' \<in> set h then ''['' @ h @ '']:'' @ p else h @ '':'' @ p)"

text \<open>What a dial comes to: an error, a panic, or a connection to an address.\<close>

datatype dial = DialRefused url_error | DialInvalid | DialPanic | Dialed string

definition ssrf_dial :: "bool \<Rightarrow> resolver \<Rightarrow> string \<Rightarrow> dial" where
  "ssrf_dial allowPrivate lookup addr =
     (if allowPrivate then Dialed addr
      else case split_host_port addr of
          None \<Rightarrow> DialInvalid
        | Some (host, port) \<Rightarrow>
            (case lookup host of
               None \<Rightarrow> DialRefused (ResolveFailed host)
             | Some ips \<Rightarrow>
                 (case find_first (\<lambda>ip. ParseIP ip \<noteq> None \<and> IsPrivateIP (ParseIP ip)) ips of
                    Some ip \<Rightarrow> DialRefused (PrivateAddress ip)
                  | None \<Rightarrow> (case ips of [] \<Rightarrow> DialPanic | ip # _ \<Rightarrow> Dialed (join_host_port ip port)))))"

datatype redirect_error = TooManyRedirects | RedirectBlocked url_error

definition check_redirect :: "bool \<Rightarrow> case_tables \<Rightarrow> resolver \<Rightarrow> string \<Rightarrow> nat \<Rightarrow> redirect_error option" where
  "check_redirect allowPrivate tables lookup hostname via =
     (if 10 \<le> via then Some TooManyRedirects
      else if allowPrivate \<or> hostname = [] then None
      else if to_lower tables hostname \<in> {hostnameLocalhost, hostnameGoogleMetadata} then Some (RedirectBlocked (PrivateHostname hostname))
      else case lookup hostname of
          None \<Rightarrow> Some (RedirectBlocked (ResolveFailed hostname))
        | Some ips \<Rightarrow>
            map_option (\<lambda>ip. RedirectBlocked (PrivateAddress ip)) (find_first (\<lambda>ip. ParseIP ip \<noteq> None \<and> IsPrivateIP (ParseIP ip)) ips))"

section \<open>What is reached\<close>

lemma first_bad_None: "first_bad ips = None \<longleftrightarrow> (\<forall>ip \<in> set ips. bad_address ip = None)"
  by (induction ips) (auto split: option.splits)

text \<open>What the guard is for: addresses outside the machine and its networks.\<close>

definition public_address :: "ip_addr \<Rightarrow> bool" where
  "public_address x \<longleftrightarrow> \<not> is_loopback x \<and> \<not> is_private x \<and> \<not> is_unspecified x \<and> \<not> is_link_local x \<and> \<not> is_link_local_multicast x \<and> x \<noteq> metadata_address"

lemma IsPrivateIP_public: "IsPrivateIP (Some x) \<longleftrightarrow> \<not> public_address x"
  by (auto simp: IsPrivateIP_def public_address_def)

lemma find_private:
  assumes "find_first (\<lambda>ip. ParseIP ip \<noteq> None \<and> IsPrivateIP (ParseIP ip)) ips = None" "ip \<in> set ips" "ParseIP ip \<noteq> None"
  shows "\<exists>x. ParseIP ip = Some x \<and> public_address x"
  using assms unfolding find_first_None by (auto simp: IsPrivateIP_public)

lemma bad_address_public:
  assumes "bad_address ip = None" "ParseIP ip = Some x" "\<not> is_unspecified x"
  shows "public_address x"
  using assms by (auto simp: bad_address_def public_address_def split: if_splits)


definition demo_resolver :: resolver where
  "demo_resolver h = (if h = ''api.example'' then Some [''93.184.216.34''] else None)"


text \<open>an IPv6 address with a zone passes the guard: a resolver returns a literal address as it is, the check cannot
  parse it with its zone and skips it, and the connection goes to it, be it the loopback address.\<close>

theorem zone_passes_guard:
  "ParseAddr ''::1%lo'' = Some (Addr6 (replicate 15 0 @ [1]) ''lo'') \<and> is_loopback (Addr6 (replicate 15 0 @ [1]) ''lo'') \<and>
   ssrf_dial False (\<lambda>h. Some [h]) ''[::1%lo]:80'' = Dialed ''[::1%lo]:80'' \<and>
   ssrf_dial False (\<lambda>h. Some [h]) ''[::1]:80'' = DialRefused (PrivateAddress ''::1'') \<and> IsPrivateIP None"
  by (intro conjI; code_simp)

end
