(* ===== verification/Routing.thy ===== *)
theory Routing
  imports Rights
begin

text \<open>
  The composite backend (\<open>internal/backend/composite.go\<close>, \<open>reserved.go\<close>): how a tool name is routed to one of
  many backends, and under which names promoted tools are advertised. A backend is a record of its
  operations over a shared world; the optional interfaces are option fields. The named backends are
  an association list, whose order stands for the order in which Go visits the map.
\<close>

section \<open>Backends\<close>

record promotion =
  pr_descriptor :: tool_descriptor
  pr_canonical :: string

abbreviation pr_name :: "promotion \<Rightarrow> string" where
  "pr_name p \<equiv> td_name (pr_descriptor p)"

record 'w tool_backend =
  bk_execute :: "cred_map \<Rightarrow> string \<Rightarrow> params \<Rightarrow> 'w \<Rightarrow> (string, tool_result) result \<times> 'w"
  bk_list :: "tool_descriptor list option"
  bk_healthy :: bool
  bk_lookup :: "(string \<Rightarrow> tool_descriptor option) option"
  bk_summaries :: "string list option"
  bk_promoted :: "promotion list option"

record 'w composite_state =
  cb_backends :: "(string \<times> 'w tool_backend) list"
  cb_passthroughs :: "'w tool_backend list"
  cb_warned :: "string list"

definition NewCompositeBackend :: "(string \<times> 'w tool_backend) list \<Rightarrow> 'w composite_state" where
  "NewCompositeBackend bs = \<lparr>cb_backends = bs, cb_passthroughs = [], cb_warned = []\<rparr>"

definition AddPassthrough :: "'w tool_backend \<Rightarrow> 'w composite_state \<Rightarrow> 'w composite_state" where
  "AddPassthrough b s = s\<lparr>cb_passthroughs := cb_passthroughs s @ [b]\<rparr>"

definition AddNamed :: "string \<Rightarrow> 'w tool_backend \<Rightarrow> 'w composite_state \<Rightarrow> 'w composite_state" where
  "AddNamed name b s = s\<lparr>cb_backends := AList.update name b (cb_backends s)\<rparr>"

definition composite_Swap :: "(string \<times> 'w tool_backend) list \<Rightarrow> 'w tool_backend list \<Rightarrow> 'w composite_state \<Rightarrow> 'w composite_state" where
  "composite_Swap bs ps s = s\<lparr>cb_backends := bs, cb_passthroughs := ps\<rparr>"

section \<open>Routing\<close>

text \<open>The best match so far: the backend when a named one, the name, and the length of the prefix.\<close>

record 'w prefix_match =
  pm_backend :: "'w tool_backend option"
  pm_name :: string
  pm_length :: nat

definition better :: "string \<Rightarrow> string \<Rightarrow> 'w tool_backend option \<Rightarrow> 'w prefix_match option \<Rightarrow> 'w prefix_match option" where
  "better tool name b best =
     (let prefix = name @ ''_''
      in if has_prefix tool prefix \<and> (case best of None \<Rightarrow> True | Some m \<Rightarrow> pm_length m < length prefix)
         then Some \<lparr>pm_backend = b, pm_name = name, pm_length = length prefix\<rparr> else best)"

definition advertised :: "'w composite_state \<Rightarrow> string list" where
  "advertised s = filter (\<lambda>n. n \<noteq> []) (concat (map (\<lambda>b. case bk_summaries b of None \<Rightarrow> [] | Some ns \<Rightarrow> ns) (cb_passthroughs s)))"

definition longestPrefix :: "string \<Rightarrow> 'w composite_state \<Rightarrow> 'w prefix_match option" where
  "longestPrefix tool s =
     fold (\<lambda>n. better tool n None) (advertised s) (fold (\<lambda>(n, b). better tool n (Some b)) (cb_backends s) None)"

fun try_passthroughs :: "(rune \<Rightarrow> bool) \<Rightarrow> 'w tool_backend list \<Rightarrow> cred_map \<Rightarrow> string \<Rightarrow> params \<Rightarrow> 'w \<Rightarrow> (string, tool_result) result \<times> 'w" where
  "try_passthroughs printable [] creds tool ps w = (Inl (''no backend found for tool '' @ quote printable tool), w)"
| "try_passthroughs printable (b # bs) creds tool ps w =
     (case bk_execute b creds tool ps w of
        (Inr r, w') \<Rightarrow> (Inr r, w')
      | (Inl e, w') \<Rightarrow> if contains e ''no backend found'' then try_passthroughs printable bs creds tool ps w' else (Inl e, w'))"

definition composite_Execute :: "(rune \<Rightarrow> bool) \<Rightarrow> 'w composite_state \<Rightarrow> cred_map \<Rightarrow> string \<Rightarrow> params \<Rightarrow> 'w \<Rightarrow> (string, tool_result) result \<times> 'w" where
  "composite_Execute printable s creds tool ps w =
     (case longestPrefix tool s of
        None \<Rightarrow> try_passthroughs printable (cb_passthroughs s) creds tool ps w
      | Some m \<Rightarrow>
          (case pm_backend m of
             Some b \<Rightarrow> bk_execute b creds (trim_prefix tool (pm_name m @ ''_'')) ps w
           | None \<Rightarrow> try_passthroughs printable (cb_passthroughs s) creds tool ps w))"

fun lookup_passthroughs :: "'w tool_backend list \<Rightarrow> string \<Rightarrow> tool_descriptor option" where
  "lookup_passthroughs [] tool = None"
| "lookup_passthroughs (b # bs) tool =
     (case bk_lookup b of
        None \<Rightarrow> lookup_passthroughs bs tool
      | Some f \<Rightarrow> (case f tool of None \<Rightarrow> lookup_passthroughs bs tool | Some d \<Rightarrow> Some d))"

definition LookupTool :: "'w composite_state \<Rightarrow> string \<Rightarrow> tool_descriptor option" where
  "LookupTool s tool =
     (case longestPrefix tool s of
        None \<Rightarrow> lookup_passthroughs (cb_passthroughs s) tool
      | Some m \<Rightarrow>
          (case pm_backend m of
             None \<Rightarrow> lookup_passthroughs (cb_passthroughs s) tool
           | Some b \<Rightarrow>
               (case bk_lookup b of
                  None \<Rightarrow> None
                | Some f \<Rightarrow> map_option (\<lambda>d. d\<lparr>td_name := tool\<rparr>) (f (trim_prefix tool (pm_name m @ ''_''))))))"

definition ResolveBackendName :: "'w composite_state \<Rightarrow> string \<Rightarrow> string \<times> bool" where
  "ResolveBackendName s tool =
     (case longestPrefix tool s of None \<Rightarrow> ([], False) | Some m \<Rightarrow> if pm_name m = [] then ([], False) else (pm_name m, True))"

definition BackendNames :: "'w composite_state \<Rightarrow> string list" where
  "BackendNames s = remdups (map fst (cb_backends s) @ advertised s)"

definition composite_ListTools :: "'w composite_state \<Rightarrow> tool_descriptor list" where
  "composite_ListTools s =
     concat (map (\<lambda>(n, b). case bk_list b of None \<Rightarrow> [] | Some ts \<Rightarrow> map (\<lambda>t. t\<lparr>td_name := n @ ''_'' @ td_name t\<rparr>) ts) (cb_backends s))
     @ concat (map (\<lambda>b. case bk_list b of None \<Rightarrow> [] | Some ts \<Rightarrow> ts) (cb_passthroughs s))"

definition composite_Healthy :: "'w composite_state \<Rightarrow> bool" where
  "composite_Healthy s \<longleftrightarrow> list_ex (\<lambda>(n, b). bk_healthy b) (cb_backends s) \<or> list_ex bk_healthy (cb_passthroughs s)"

section \<open>Promoted tools\<close>

definition reservedClientToolNames :: "string list" where
  "reservedClientToolNames = [''web_search'', ''code_interpreter'', ''file_search'', ''computer_use'']"

definition IsReservedClientToolName :: "string \<Rightarrow> bool" where
  "IsReservedClientToolName name \<longleftrightarrow> name \<in> set reservedClientToolNames"

definition all_promotions :: "'w composite_state \<Rightarrow> promotion list" where
  "all_promotions s =
     (let collect = (\<lambda>b. case bk_promoted b of None \<Rightarrow> [] | Some ps \<Rightarrow> ps)
      in concat (map (\<lambda>(n, b). collect b) (cb_backends s)) @ concat (map collect (cb_passthroughs s)))"

definition demote :: "promotion list \<Rightarrow> promotion \<Rightarrow> promotion" where
  "demote all p =
     (if 1 < count_list (map pr_name all) (pr_name p) \<or> IsReservedClientToolName (pr_name p) then p\<lparr>pr_descriptor := (pr_descriptor p)\<lparr>td_name := pr_canonical p\<rparr>\<rparr> else p)"

fun first_of_name :: "string list \<Rightarrow> promotion list \<Rightarrow> promotion list" where
  "first_of_name seen [] = []"
| "first_of_name seen (p # ps) = (if pr_name p \<in> set seen then first_of_name seen ps else p # first_of_name (pr_name p # seen) ps)"

definition PromotedTools :: "'w composite_state \<Rightarrow> promotion list" where
  "PromotedTools s = first_of_name [] (map (demote (all_promotions s)) (all_promotions s))"

text \<open>The reserved names warned about, once per canonical name.\<close>

definition warn_reserved :: "'w composite_state \<Rightarrow> 'w composite_state" where
  "warn_reserved s =
     s\<lparr>cb_warned := fold (\<lambda>p w. if count_list (map pr_name (all_promotions s)) (pr_name p) \<le> 1 \<and> IsReservedClientToolName (pr_name p) \<and> pr_canonical p \<notin> set w
                            then w @ [pr_canonical p] else w) (all_promotions s) (cb_warned s)\<rparr>"

definition ResolveAlias :: "'w composite_state \<Rightarrow> string \<Rightarrow> string" where
  "ResolveAlias s name =
     (case find_first (\<lambda>p. pr_name p = name \<and> pr_name p \<noteq> pr_canonical p) (PromotedTools s) of None \<Rightarrow> name | Some p \<Rightarrow> pr_canonical p)"

section \<open>The longest prefix\<close>

definition matches :: "string \<Rightarrow> string \<Rightarrow> bool" where
  "matches tool n \<longleftrightarrow> has_prefix tool (n @ ''_'')"

lemma matches_equal: "matches tool n \<Longrightarrow> matches tool k \<Longrightarrow> length n = length k \<Longrightarrow> n = k"
  unfolding has_prefix_def matches_def by (metis append_same_eq length_append)

definition match_of :: "string \<Rightarrow> 'w tool_backend option \<Rightarrow> 'w prefix_match" where
  "match_of n b = \<lparr>pm_backend = b, pm_name = n, pm_length = Suc (length n)\<rparr>"

lemma pm_length_match [simp]: "pm_length (match_of n b) = Suc (length n)"
  by (simp add: match_of_def)

lemma better_eq:
  "better tool n b best =
     (if matches tool n \<and> (case best of None \<Rightarrow> True | Some m \<Rightarrow> pm_length m < Suc (length n)) then Some (match_of n b) else best)"
  by (simp add: better_def matches_def match_of_def Let_def cong: option.case_cong)

text \<open>Scanning candidates keeps the best match unless a strictly longer one comes.\<close>

lemma fold_better_keep:
  assumes "\<forall>c \<in> set cs. matches tool (fst c) \<longrightarrow> length (fst c) \<le> length k"
  shows "fold (\<lambda>(n, b). better tool n b) cs (Some (match_of k x)) = Some (match_of k x)"
  using assms by (induction cs) (auto simp: better_eq)

lemma fold_better_none:
  assumes "\<forall>c \<in> set cs. \<not> matches tool (fst c)"
  shows "fold (\<lambda>(n, b). better tool n b) cs best = best"
  using assms by (induction cs) (auto simp: better_eq)

lemma fold_better_best:
  assumes "(k, x) \<in> set cs" "matches tool k" "\<forall>c \<in> set cs. fst c = k \<longrightarrow> snd c = x"
    and "\<forall>c \<in> set cs. matches tool (fst c) \<longrightarrow> length (fst c) \<le> length k"
    and "\<forall>m. best = Some m \<longrightarrow> pm_length m < Suc (length k)"
  shows "fold (\<lambda>(n, b). better tool n b) cs best = Some (match_of k x)"
  using assms
proof (induction cs arbitrary: best)
  case (Cons c cs)
  obtain n b where c: "c = (n, b)" by (cases c)
  show ?case
  proof (cases "n = k")
    case True
    then have "better tool n b best = Some (match_of k x)"
      using Cons.prems(2,3,5) c by (auto simp: better_eq split: option.splits)
    then show ?thesis using fold_better_keep [of cs tool k x] Cons.prems(4) c by simp
  next
    case False
    have "pm_length m < Suc (length k)" if m: "better tool n b best = Some m" for m
    proof (cases "best = Some m")
      case True
      then show ?thesis using Cons.prems(5) by blast
    next
      case other: False
      then have n: "matches tool n" "pm_length m = Suc (length n)" using m by (auto simp: better_eq split: if_splits)
      have "length n \<le> length k" using Cons.prems(4) c n(1) by simp
      moreover have "length n \<noteq> length k" using matches_equal n(1) False Cons.prems(2) by blast
      ultimately show ?thesis using n(2) by simp
    qed
    then have "fold (\<lambda>(n, b). better tool n b) cs (better tool n b best) = Some (match_of k x)"
      using Cons.prems(1-4) False c by (intro Cons.IH) auto
    then show ?thesis using c by simp
  qed
qed simp

section \<open>Owners\<close>

text \<open>Who owns a tool name: the named backend with the longest matching name, when no advertised name is longer; else
  the advertised name that is longer than every named match; else nobody.\<close>

definition named_owner :: "'w composite_state \<Rightarrow> string \<Rightarrow> string \<Rightarrow> 'w tool_backend \<Rightarrow> bool" where
  "named_owner s tool k b \<longleftrightarrow> (k, b) \<in> set (cb_backends s) \<and> matches tool k \<and>
     (\<forall>n \<in> fst ` set (cb_backends s) \<union> set (advertised s). matches tool n \<longrightarrow> length n \<le> length k)"

definition shared_owner :: "'w composite_state \<Rightarrow> string \<Rightarrow> string \<Rightarrow> bool" where
  "shared_owner s tool n \<longleftrightarrow> n \<in> set (advertised s) \<and> matches tool n \<and>
     (\<forall>m \<in> set (advertised s). matches tool m \<longrightarrow> length m \<le> length n) \<and>
     (\<forall>k \<in> fst ` set (cb_backends s). matches tool k \<longrightarrow> length k < length n)"

definition no_owner :: "'w composite_state \<Rightarrow> string \<Rightarrow> bool" where
  "no_owner s tool \<longleftrightarrow> (\<forall>n \<in> fst ` set (cb_backends s) \<union> set (advertised s). \<not> matches tool n)"

lemma longestPrefix_folds:
  "longestPrefix tool s =
     fold (\<lambda>(n, b). better tool n b) (map (\<lambda>n. (n, None)) (advertised s))
       (fold (\<lambda>(n, b). better tool n b) (map (\<lambda>(n, b). (n, Some b)) (cb_backends s)) None)"
  by (simp add: longestPrefix_def fold_map comp_def case_prod_unfold)

lemma longest_of:
  assumes "n \<in> A" "matches tool n" "finite A"
  obtains k where "k \<in> A" "matches tool k" "\<And>m. m \<in> A \<Longrightarrow> matches tool m \<Longrightarrow> length m \<le> length k"
proof -
  let ?L = "length ` {n \<in> A. matches tool n}"
  have fin: "finite ?L" and "?L \<noteq> {}" using assms by auto
  then have "Max ?L \<in> ?L" by (rule Max_in)
  then obtain k where k: "k \<in> A" "matches tool k" "length k = Max ?L" by auto
  have "length m \<le> length k" if "m \<in> A" "matches tool m" for m using that fin k(3) by (auto intro: Max_ge)
  with k(1,2) show thesis by (rule that)
qed

lemma longest_named:
  assumes "distinct (map fst (cb_backends s))" "named_owner s tool k b"
  shows "longestPrefix tool s = Some (match_of k (Some b))"
proof -
  have k: "(k, b) \<in> set (cb_backends s)" "matches tool k"
    and le: "\<forall>n \<in> fst ` set (cb_backends s) \<union> set (advertised s). matches tool n \<longrightarrow> length n \<le> length k"
    using assms(2) by (simp_all add: named_owner_def)
  have "fold (\<lambda>(n, b). better tool n b) (map (\<lambda>(n, b). (n, Some b)) (cb_backends s)) None = Some (match_of k (Some b))"
  proof (rule fold_better_best)
    show "(k, Some b) \<in> set (map (\<lambda>(n, b). (n, Some b)) (cb_backends s))" using k(1) by force
    show "\<forall>c \<in> set (map (\<lambda>(n, b). (n, Some b)) (cb_backends s)). fst c = k \<longrightarrow> snd c = Some b"
      using eq_key_imp_eq_value [OF assms(1) k(1)] by auto
    show "\<forall>c \<in> set (map (\<lambda>(n, b). (n, Some b)) (cb_backends s)). matches tool (fst c) \<longrightarrow> length (fst c) \<le> length k"
      using le by force
  qed (use k(2) in simp_all)
  moreover have "fold (\<lambda>(n, b). better tool n b) (map (\<lambda>n. (n, None)) (advertised s)) (Some (match_of k (Some b))) = Some (match_of k (Some b))"
    using le by (intro fold_better_keep) auto
  ultimately show ?thesis by (simp only: longestPrefix_folds)
qed

lemma fold_better_length:
  assumes "fold (\<lambda>(n, b). better tool n b) cs best = Some m" "best \<noteq> Some m"
  shows "\<exists>n b. (n, b) \<in> set cs \<and> matches tool n \<and> m = match_of n b"
  using assms
proof (induction cs arbitrary: best)
  case (Cons c cs)
  obtain n b where c: "c = (n, b)" by (cases c)
  show ?case
  proof (cases "better tool n b best = Some m")
    case True
    then show ?thesis using Cons.prems(2) c by (auto simp: better_eq split: if_splits)
  next
    case False
    then show ?thesis using Cons.IH [of "better tool n b best"] Cons.prems(1) c by auto
  qed
qed simp

lemma longest_shared:
  assumes "shared_owner s tool n"
  shows "longestPrefix tool s = Some (match_of n None)"
  unfolding longestPrefix_folds
proof (rule fold_better_best)
  show "\<forall>m. fold (\<lambda>(n, b). better tool n b) (map (\<lambda>(n, b). (n, Some b)) (cb_backends s)) None = Some m \<longrightarrow> pm_length m < Suc (length n)"
  proof (intro allI impI)
    fix m assume m: "fold (\<lambda>(n, b). better tool n b) (map (\<lambda>(n, b). (n, Some b)) (cb_backends s)) None = Some m"
    then show "pm_length m < Suc (length n)" using fold_better_length [OF m] assms by (fastforce simp: shared_owner_def)
  qed
qed (use assms in \<open>auto simp: shared_owner_def\<close>)

lemma longest_none:
  fixes s :: "'w composite_state"
  assumes "no_owner s tool"
  shows "longestPrefix tool s = None"
proof -
  have "\<forall>c \<in> set (map (\<lambda>(n, b). (n, Some b)) (cb_backends s)). \<not> matches tool (fst c)"
    "\<forall>c \<in> set (map (\<lambda>n. (n, None :: 'w tool_backend option)) (advertised s)). \<not> matches tool (fst c)"
    using assms by (force simp: no_owner_def)+
  then show ?thesis by (simp only: longestPrefix_folds fold_better_none)
qed

lemma owner_exists: "no_owner s tool \<or> (\<exists>n. shared_owner s tool n) \<or> (\<exists>k b. named_owner s tool k b)"
proof (cases "no_owner s tool")
  case False
  then obtain n where "n \<in> fst ` set (cb_backends s) \<union> set (advertised s)" "matches tool n" by (auto simp: no_owner_def)
  then obtain k where k: "k \<in> fst ` set (cb_backends s) \<union> set (advertised s)" "matches tool k"
    "\<And>m. m \<in> fst ` set (cb_backends s) \<union> set (advertised s) \<Longrightarrow> matches tool m \<Longrightarrow> length m \<le> length k"
    by (rule longest_of) auto
  show ?thesis
  proof (cases "k \<in> fst ` set (cb_backends s)")
    case True
    then obtain b where "(k, b) \<in> set (cb_backends s)" by auto
    then have "named_owner s tool k b" using k(2,3) by (auto simp: named_owner_def)
    then show ?thesis by blast
  next
    case False
    have "length m < length k" if m: "m \<in> fst ` set (cb_backends s)" "matches tool m" for m
      using k(3) [of m] matches_equal [of tool m k] m k(2) False by (auto simp: nat_less_le)
    then have "shared_owner s tool k" using k False by (auto simp: shared_owner_def)
    then show ?thesis by blast
  qed
qed simp

lemma longestPrefix_order:
  assumes "distinct (map fst (cb_backends s))" "mset bs = mset (cb_backends s)"
  shows "longestPrefix tool (s\<lparr>cb_backends := bs\<rparr>) = longestPrefix tool s"
proof -
  let ?t = "s\<lparr>cb_backends := bs\<rparr>"
  have set: "set bs = set (cb_backends s)" using assms(2) by (rule mset_eq_setD)
  have d: "distinct (map fst (cb_backends ?t))"
    using assms by (metis composite_state.select_convs(1) composite_state.surjective composite_state.update_convs(1) mset_eq_imp_distinct_iff mset_map)
  have adv: "advertised ?t = advertised s" by (simp add: advertised_def)
  have same: "no_owner ?t tool = no_owner s tool" "shared_owner ?t tool n = shared_owner s tool n"
    "named_owner ?t tool k b = named_owner s tool k b" for n k b
    by (simp_all add: no_owner_def shared_owner_def named_owner_def set adv)
  show ?thesis using owner_exists [of s tool]
    by (metis same longest_none longest_shared longest_named d assms(1))
qed

section \<open>One routing for every question\<close>

text \<open>An executor over the composite: it executes, looks tools up and resolves backend names there.\<close>

definition on_composite :: "(rune \<Rightarrow> bool) \<Rightarrow> 'w composite_state \<Rightarrow> ('ae, 'g, 'h, 'w) executor \<Rightarrow> ('ae, 'g, 'h, 'w) executor" where
  "on_composite printable s ex =
     ex\<lparr>ex_execute := composite_Execute printable s, ex_lookup := Some (LookupTool s), ex_resolve := Some (ResolveBackendName s)\<rparr>"

lemma trim_match: "matches tool k \<Longrightarrow> trim_prefix tool (k @ ''_'') = drop (Suc (length k)) tool"
  by (simp add: matches_def trim_prefix_def)

lemma named_routing:
  assumes "distinct (map fst (cb_backends s))" "named_owner s tool k b"
  shows "composite_Execute printable s creds tool ps w = bk_execute b creds (drop (Suc (length k)) tool) ps w"
    and "LookupTool s tool = (case bk_lookup b of None \<Rightarrow> None | Some f \<Rightarrow> map_option (\<lambda>d. d\<lparr>td_name := tool\<rparr>) (f (drop (Suc (length k)) tool)))"
    and "ResolveBackendName s tool = (k, k \<noteq> [])"
  using longest_named [OF assms] assms(2) trim_match [of tool k]
  by (auto simp: composite_Execute_def LookupTool_def ResolveBackendName_def match_of_def named_owner_def split: option.split)

lemma advertised_nonempty: "n \<in> set (advertised s) \<Longrightarrow> n \<noteq> []"
  by (simp add: advertised_def)

lemma shared_routing:
  assumes "shared_owner s tool n"
  shows "composite_Execute printable s creds tool ps w = try_passthroughs printable (cb_passthroughs s) creds tool ps w"
    and "LookupTool s tool = lookup_passthroughs (cb_passthroughs s) tool"
    and "ResolveBackendName s tool = (n, True)"
  using longest_shared [OF assms] assms advertised_nonempty [of n s]
  by (auto simp: composite_Execute_def LookupTool_def ResolveBackendName_def match_of_def shared_owner_def)

lemma unowned_routing:
  assumes "no_owner s tool"
  shows "composite_Execute printable s creds tool ps w = try_passthroughs printable (cb_passthroughs s) creds tool ps w"
    and "LookupTool s tool = lookup_passthroughs (cb_passthroughs s) tool"
    and "ResolveBackendName s tool = ([], False)"
  using longest_none [OF assms] by (auto simp: composite_Execute_def LookupTool_def ResolveBackendName_def)


section \<open>Advertised names\<close>

lemma first_of_name_names: "distinct (map pr_name (first_of_name seen ps)) \<and> (\<forall>p \<in> set (first_of_name seen ps). pr_name p \<notin> set seen \<and> p \<in> set ps)"
proof (induction ps arbitrary: seen)
  case (Cons p ps)
  then show ?case using Cons.IH [of seen] Cons.IH [of "pr_name p # seen"] by auto
qed simp

lemma first_of_name_covers: "q \<in> set ps \<Longrightarrow> pr_name q \<in> set seen \<or> (\<exists>p \<in> set (first_of_name seen ps). pr_name p = pr_name q)"
proof (induction ps arbitrary: seen)
  case (Cons p ps)
  then show ?case using Cons.IH [of seen] Cons.IH [of "pr_name p # seen"] by auto
qed simp

lemma demote_name:
  "pr_name (demote all q) = (if 1 < count_list (map pr_name all) (pr_name q) \<or> IsReservedClientToolName (pr_name q) then pr_canonical q else pr_name q)"
  "pr_canonical (demote all q) = pr_canonical q"
  by (simp_all add: demote_def)

lemma promoted_from:
  assumes "p \<in> set (PromotedTools s)"
  obtains q where "q \<in> set (all_promotions s)" "p = demote (all_promotions s) q"
  using assms first_of_name_names [of "[]" "map (demote (all_promotions s)) (all_promotions s)"] by (auto simp: PromotedTools_def)

text \<open>The promoted tools are advertised under distinct names; a bare name is advertised only when no other tool has it
  and no client reserves it, else the canonical name stands for it; no promoted tool gets lost; and
  a call under an advertised name is routed by the canonical name of exactly that tool, while any
  name that is not advertised is left as it is.\<close>

theorem promoted_names:
  "distinct (map pr_name (PromotedTools s)) \<and>
   (\<forall>p \<in> set (PromotedTools s). pr_name p \<noteq> pr_canonical p \<longrightarrow>
      count_list (map pr_name (all_promotions s)) (pr_name p) = 1 \<and> \<not> IsReservedClientToolName (pr_name p)) \<and>
   (\<forall>q \<in> set (all_promotions s). \<exists>p \<in> set (PromotedTools s). pr_name p \<in> {pr_name q, pr_canonical q}) \<and>
   (\<forall>p \<in> set (PromotedTools s). ResolveAlias s (pr_name p) = pr_canonical p) \<and>
   (\<forall>name. name \<notin> pr_name ` set (PromotedTools s) \<longrightarrow> ResolveAlias s name = name)"
proof (intro conjI ballI allI impI)
  show d: "distinct (map pr_name (PromotedTools s))" using first_of_name_names by (auto simp: PromotedTools_def)
  show "\<exists>p \<in> set (PromotedTools s). pr_name p \<in> {pr_name q, pr_canonical q}" if "q \<in> set (all_promotions s)" for q
    using first_of_name_covers [of "demote (all_promotions s) q" "map (demote (all_promotions s)) (all_promotions s)" "[]"] that
    by (auto simp: PromotedTools_def demote_name split: if_splits)
  show "ResolveAlias s (pr_name p) = pr_canonical p" if p: "p \<in> set (PromotedTools s)" for p
  proof -
    have "q = p" if "q \<in> set (PromotedTools s)" "pr_name q = pr_name p" for q
      using that p d by (auto simp: distinct_map dest: inj_onD)
    note unique = this
    show ?thesis
    proof (cases "find_first (\<lambda>q. pr_name q = pr_name p \<and> pr_name q \<noteq> pr_canonical q) (PromotedTools s)")
      case None
      then have "pr_name p = pr_canonical p" using p unfolding find_first_None by blast
      then show ?thesis using None by (simp add: ResolveAlias_def)
    next
      case (Some q)
      then have "q = p" using unique find_first_Some [OF Some] by blast
      then show ?thesis using Some by (simp add: ResolveAlias_def)
    qed
  qed
  show "ResolveAlias s name = name" if "name \<notin> pr_name ` set (PromotedTools s)" for name
    using that by (auto simp: ResolveAlias_def split: option.splits dest: find_first_Some)
next
  fix p assume p: "p \<in> set (PromotedTools s)" "pr_name p \<noteq> pr_canonical p"
  then obtain q where q: "q \<in> set (all_promotions s)" "p = demote (all_promotions s) q" using promoted_from by blast
  then have "pr_name p = pr_name q" "\<not> 1 < count_list (map pr_name (all_promotions s)) (pr_name q)" "\<not> IsReservedClientToolName (pr_name q)"
    using p(2) by (auto simp: demote_name split: if_splits)
  moreover have "count_list (map pr_name (all_promotions s)) (pr_name q) \<noteq> 0" using q(1) by (auto simp: count_list_0_iff)
  ultimately show "count_list (map pr_name (all_promotions s)) (pr_name p) = 1" "\<not> IsReservedClientToolName (pr_name p)" by auto
qed

section \<open>Examples\<close>

definition demo_backend :: "string \<Rightarrow> string list option \<Rightarrow> promotion list option \<Rightarrow> unit tool_backend" where
  "demo_backend label names promos =
     \<lparr>bk_execute = (\<lambda>creds tool ps w. (Inl (label @ '' ran '' @ tool), w)), bk_list = Some [], bk_healthy = True,
      bk_lookup = Some (\<lambda>tool. Some \<lparr>td_name = tool, td_access = label\<rparr>), bk_summaries = names, bk_promoted = promos\<rparr>"

definition demo_promotion :: "string \<Rightarrow> string \<Rightarrow> promotion" where
  "demo_promotion backend tool = \<lparr>pr_descriptor = \<lparr>td_name = tool, td_access = ''read''\<rparr>, pr_canonical = backend @ ''_'' @ tool\<rparr>"

definition demo_composite :: "unit composite_state" where
  "demo_composite =
     AddPassthrough (demo_backend ''mcp'' (Some [''netdata_raw'']) None)
       (NewCompositeBackend
          [(''netdata'', demo_backend ''unit'' None (Some [demo_promotion ''netdata'' ''query'', demo_promotion ''netdata'' ''web_search''])),
           (''git'', demo_backend ''rest'' None (Some [demo_promotion ''git'' ''query'', demo_promotion ''git'' ''log'']))])"


theorem promoted_names_witness:
  "map pr_name (PromotedTools demo_composite) = [''netdata_query'', ''netdata_web_search'', ''git_query'', ''log''] \<and>
   ResolveAlias demo_composite ''log'' = ''git_log'' \<and> ResolveAlias demo_composite ''query'' = ''query''"
proof -
  have m: "map pr_name (PromotedTools demo_composite) = [''netdata_query'', ''netdata_web_search'', ''git_query'', ''log'']"
    by code_simp
  have "list_all (\<lambda>p. pr_name p \<noteq> ''query'') (PromotedTools demo_composite)" by code_simp
  then have "''query'' \<notin> pr_name ` set (PromotedTools demo_composite)" by (auto simp: list_all_iff)
  then have "ResolveAlias demo_composite ''query'' = ''query''" using promoted_names [of demo_composite] by blast
  moreover have "ResolveAlias demo_composite ''log'' = ''git_log''" by code_simp
  ultimately show ?thesis using m by blast
qed

end
