(* ===== verification/BlobStore.thy ===== *)
theory BlobStore
  imports Durations "HOL-Library.AList"
begin

text \<open>
  The blob store (\<open>internal/blob/store.go\<close>, \<open>quota.go\<close>, \<open>handle.go\<close>): files with an expiry, the quota they
  count against and the handles that name them. The state is the store's struct and the files of its
  directory, keyed by path. What the operating system decides is a parameter: the random id, how many
  bytes a write puts on disk, whether a file can be removed. \<open>used\<close> and \<open>usedBy\<close> are \<open>int64\<close>: sums wrap.
\<close>

section \<open>State\<close>

definition wrap64 :: "int \<Rightarrow> int" where
  "wrap64 x = (x + 2 ^ 63) mod 2 ^ 64 - 2 ^ 63"

lemma wrap64_id: "- (2 ^ 63) \<le> x \<Longrightarrow> x < 2 ^ 63 \<Longrightarrow> wrap64 x = x"
  by (simp add: wrap64_def)

record quota =
  MaxTotalBytes :: int
  MaxBytesPerUser :: int

record blob_entry =
  be_path :: string
  be_content_type :: string
  be_size :: int
  be_filename :: string
  be_owner :: string
  be_expires_at :: time

record blob_info =
  bi_id :: string
  bi_content_type :: string
  bi_size :: int
  bi_filename :: string
  bi_expires_at :: time

record blob_store =
  bl_dir :: string
  bl_base_url :: string
  bl_blobs :: "(string \<times> blob_entry) list"
  bl_quota :: quota
  bl_used :: int
  bl_used_by :: "(string \<times> int) list"
  bl_files :: "(string \<times> string) list"

definition file_base :: "string \<Rightarrow> string" where
  "file_base path = rev (takeWhile (\<lambda>c. c \<noteq> CHR ''/'') (rev path))"

definition entry_info :: "blob_entry \<Rightarrow> string \<Rightarrow> blob_info" where
  "entry_info e i =
     \<lparr>bi_id = i, bi_content_type = be_content_type e, bi_size = be_size e,
      bi_filename = (if be_filename e = [] then file_base (be_path e) else be_filename e), bi_expires_at = be_expires_at e\<rparr>"

datatype blob_error =
    QuotaTotal int int | QuotaUser int int
  | BlobNotFound string | NoFile string | RemoveFailed string
  | CreateFailed | WriteFailed | DirFailed

definition is_quota_error :: "blob_error \<Rightarrow> bool" where
  "is_quota_error e = (case e of QuotaTotal _ _ \<Rightarrow> True | QuotaUser _ _ \<Rightarrow> True | _ \<Rightarrow> False)"

section \<open>Quota\<close>

definition SetQuota :: "quota \<Rightarrow> blob_store \<Rightarrow> blob_store" where
  "SetQuota q s = s\<lparr>bl_quota := q\<rparr>"

definition used_by :: "blob_store \<Rightarrow> string \<Rightarrow> int" where
  "used_by s owner = (case map_of (bl_used_by s) owner of None \<Rightarrow> 0 | Some v \<Rightarrow> v)"

definition Usage :: "string \<Rightarrow> blob_store \<Rightarrow> int \<times> int" where
  "Usage owner s = (bl_used s, used_by s owner)"

definition fitsLocked :: "string \<Rightarrow> int \<Rightarrow> int \<Rightarrow> blob_store \<Rightarrow> blob_error option" where
  "fitsLocked owner pending n s =
     (let total = MaxTotalBytes (bl_quota s); user = MaxBytesPerUser (bl_quota s)
      in if total > 0 \<and> wrap64 (bl_used s + n) > total then Some (QuotaTotal total (wrap64 (bl_used s - pending)))
         else if user > 0 \<and> owner \<noteq> [] \<and> wrap64 (used_by s owner + n) > user then Some (QuotaUser user (wrap64 (used_by s owner - pending)))
         else None)"

definition CheckQuota :: "string \<Rightarrow> int \<Rightarrow> blob_store \<Rightarrow> blob_error option" where
  "CheckQuota owner n s = fitsLocked owner 0 n s"

definition addLocked :: "string \<Rightarrow> int \<Rightarrow> blob_store \<Rightarrow> blob_store" where
  "addLocked owner n s =
     (let s1 = s\<lparr>bl_used := wrap64 (bl_used s + n)\<rparr>
      in if owner = [] then s1
         else (let v = wrap64 (used_by s owner + n)
               in if v > 0 then s1\<lparr>bl_used_by := AList.update owner v (bl_used_by s)\<rparr>
                  else s1\<lparr>bl_used_by := AList.delete owner (bl_used_by s)\<rparr>))"

definition reserve :: "string \<Rightarrow> int \<Rightarrow> int \<Rightarrow> blob_store \<Rightarrow> (blob_error, blob_store) result" where
  "reserve owner pending n s =
     (case fitsLocked owner pending n s of Some e \<Rightarrow> Inl e | None \<Rightarrow> Inr (addLocked owner n s))"

definition release_bytes :: "string \<Rightarrow> int \<Rightarrow> blob_store \<Rightarrow> blob_store" where
  "release_bytes owner n s = addLocked owner (- n) s"

section \<open>Writing a blob\<close>

text \<open>A \<open>PutOwned\<close> in progress: the arguments it needs later, its file and its \<open>quotaWriter\<close>. \<open>wr_chunk\<close> is the chunk
  between its reservation and the return of the write to the file.\<close>

record blob_writer =
  wr_id :: string
  wr_path :: string
  wr_content_type :: string
  wr_filename :: string
  wr_owner :: string
  wr_reserved :: int
  wr_chunk :: "string option"

definition start_put :: "(string \<Rightarrow> string) \<Rightarrow> string \<Rightarrow> string \<Rightarrow> string \<Rightarrow> string \<Rightarrow> blob_store \<Rightarrow> blob_writer \<times> blob_store" where
  "start_put extensionForType i contentType filename owner s =
     (let path = bl_dir s @ ''/'' @ i @ extensionForType contentType
      in (\<lparr>wr_id = i, wr_path = path, wr_content_type = contentType, wr_filename = filename, wr_owner = owner, wr_reserved = 0, wr_chunk = None\<rparr>,
          s\<lparr>bl_files := AList.update path [] (bl_files s)\<rparr>))"

text \<open>The two halves of \<open>quotaWriter.Write\<close>: the reservation, and the write of \<open>n\<close> bytes of the chunk.\<close>

definition write_reserve :: "string \<Rightarrow> blob_writer \<Rightarrow> blob_store \<Rightarrow> (blob_error, blob_writer \<times> blob_store) result" where
  "write_reserve p w s =
     (case reserve (wr_owner w) (wr_reserved w) (int (length p)) s of
        Inl e \<Rightarrow> Inl e
      | Inr s' \<Rightarrow> Inr (w\<lparr>wr_chunk := Some p\<rparr>, s'))"

definition file_content :: "blob_store \<Rightarrow> string \<Rightarrow> string" where
  "file_content s path = (case map_of (bl_files s) path of None \<Rightarrow> [] | Some c \<Rightarrow> c)"

definition write_done :: "nat \<Rightarrow> blob_writer \<Rightarrow> blob_store \<Rightarrow> blob_writer \<times> blob_store" where
  "write_done n w s =
     (case wr_chunk w of
        None \<Rightarrow> (w, s)
      | Some p \<Rightarrow>
          (let s1 = s\<lparr>bl_files := AList.update (wr_path w) (file_content s (wr_path w) @ take n p) (bl_files s)\<rparr>;
               s2 = (if n < length p then release_bytes (wr_owner w) (int (length p - n)) s1 else s1)
           in (w\<lparr>wr_reserved := wr_reserved w + int n, wr_chunk := None\<rparr>, s2)))"

definition remove_file :: "(string \<Rightarrow> bool) \<Rightarrow> string \<Rightarrow> blob_store \<Rightarrow> blob_store" where
  "remove_file removable path s = (if removable path then s\<lparr>bl_files := AList.delete path (bl_files s)\<rparr> else s)"

definition abort_put :: "(string \<Rightarrow> bool) \<Rightarrow> blob_writer \<Rightarrow> blob_store \<Rightarrow> blob_store" where
  "abort_put removable w s = remove_file removable (wr_path w) (release_bytes (wr_owner w) (wr_reserved w) s)"

definition finish_put :: "time \<Rightarrow> duration \<Rightarrow> blob_writer \<Rightarrow> blob_store \<Rightarrow> blob_store" where
  "finish_put now ttl w s =
     s\<lparr>bl_blobs := AList.update (wr_id w)
         \<lparr>be_path = wr_path w, be_content_type = wr_content_type w, be_size = wr_reserved w, be_filename = wr_filename w,
          be_owner = wr_owner w, be_expires_at = now + ttl\<rparr> (bl_blobs s)\<rparr>"

text \<open>What \<open>io.Copy\<close> meets, one after the other: a chunk of which the disk takes \<open>n\<close> bytes (an error or a short write when
  they are fewer), or an error of the reader; the end of the list is the end of the body.\<close>

datatype body_event = Chunk string nat | ReadError

fun copy_body :: "body_event list \<Rightarrow> blob_writer \<Rightarrow> blob_store \<Rightarrow> (blob_error option \<times> blob_writer) \<times> blob_store" where
  "copy_body [] w s = ((None, w), s)"
| "copy_body (ReadError # es) w s = ((Some WriteFailed, w), s)"
| "copy_body (Chunk p n # es) w s =
     (case write_reserve p w s of
        Inl e \<Rightarrow> ((Some e, w), s)
      | Inr (w1, s1) \<Rightarrow>
          (let (w2, s2) = write_done n w1 s1 in if n < length p then ((Some WriteFailed, w2), s2) else copy_body es w2 s2))"

definition PutOwned :: "(string \<Rightarrow> string) \<Rightarrow> (string \<Rightarrow> bool) \<Rightarrow> bool \<Rightarrow> string \<Rightarrow> time \<Rightarrow> body_event list \<Rightarrow> string \<Rightarrow> string \<Rightarrow> string \<Rightarrow> duration \<Rightarrow>
    blob_store \<Rightarrow> (blob_error, string \<times> int) result \<times> blob_store" where
  "PutOwned extensionForType removable created i now body contentType filename owner ttl s =
     (if \<not> created then (Inl CreateFailed, s)
      else (let (w, s1) = start_put extensionForType i contentType filename owner s
            in case copy_body body w s1 of
                 ((Some e, w'), s2) \<Rightarrow> (Inl e, abort_put removable w' s2)
               | ((None, w'), s2) \<Rightarrow> (Inr (i, wr_reserved w'), finish_put now ttl w' s2)))"

section \<open>Reading and deleting\<close>

definition blob_URL :: "string \<Rightarrow> blob_store \<Rightarrow> string" where
  "blob_URL i s = bl_base_url s @ ''/blobs/'' @ i"

definition live_entry :: "time \<Rightarrow> string \<Rightarrow> blob_store \<Rightarrow> blob_entry option" where
  "live_entry now i s = (case map_of (bl_blobs s) i of None \<Rightarrow> None | Some e \<Rightarrow> if now > be_expires_at e then None else Some e)"

definition blob_Stat :: "time \<Rightarrow> string \<Rightarrow> blob_store \<Rightarrow> (blob_error, blob_info) result" where
  "blob_Stat now i s = (case live_entry now i s of None \<Rightarrow> Inl (BlobNotFound i) | Some e \<Rightarrow> Inr (entry_info e i))"

definition blob_Open :: "time \<Rightarrow> string \<Rightarrow> blob_store \<Rightarrow> (blob_error, string \<times> blob_info) result" where
  "blob_Open now i s =
     (case live_entry now i s of
        None \<Rightarrow> Inl (BlobNotFound i)
      | Some e \<Rightarrow> (case map_of (bl_files s) (be_path e) of None \<Rightarrow> Inl (NoFile i) | Some c \<Rightarrow> Inr (c, entry_info e i)))"

definition drop_entry :: "string \<Rightarrow> blob_entry \<Rightarrow> blob_store \<Rightarrow> blob_store" where
  "drop_entry i e s = addLocked (be_owner e) (- be_size e) (s\<lparr>bl_blobs := AList.delete i (bl_blobs s)\<rparr>)"

definition blob_Delete :: "(string \<Rightarrow> bool) \<Rightarrow> string \<Rightarrow> blob_store \<Rightarrow> blob_error option \<times> blob_store" where
  "blob_Delete removable i s =
     (case map_of (bl_blobs s) i of
        None \<Rightarrow> (Some (BlobNotFound i), s)
      | Some e \<Rightarrow> (if removable (be_path e) then None else Some (RemoveFailed i), remove_file removable (be_path e) (drop_entry i e s)))"

fun remove_each :: "(string \<Rightarrow> bool) \<Rightarrow> time \<Rightarrow> (string \<times> blob_entry) list \<Rightarrow> blob_store \<Rightarrow> blob_store" where
  "remove_each removable now [] s = s"
| "remove_each removable now ((i, e) # es) s =
     remove_each removable now es
       (if now > be_expires_at e then drop_entry i e (remove_file removable (be_path e) s) else s)"

definition removeExpired :: "(string \<Rightarrow> bool) \<Rightarrow> time \<Rightarrow> blob_store \<Rightarrow> blob_store" where
  "removeExpired removable now s = remove_each removable now (bl_blobs s) s"

datatype http_response = HttpError nat | NoContent | HeadOk blob_entry | FileOk blob_entry

definition blob_ServeHTTP :: "(string \<Rightarrow> bool) \<Rightarrow> time \<Rightarrow> string \<Rightarrow> string \<Rightarrow> blob_store \<Rightarrow> http_response \<times> blob_store" where
  "blob_ServeHTTP removable now meth path s =
     (if meth \<notin> {''GET'', ''HEAD'', ''DELETE''} then (HttpError 405, s)
      else (let i = trim_prefix path ''/blobs/''
            in if i = [] \<or> contains i ''/'' then (HttpError 404, s)
               else if meth = ''DELETE''
               then (case blob_Delete removable i s of (Some _, s') \<Rightarrow> (HttpError 404, s') | (None, s') \<Rightarrow> (NoContent, s'))
               else (case live_entry now i s of
                       None \<Rightarrow> (HttpError 404, s)
                     | Some e \<Rightarrow> (if meth = ''HEAD'' then HeadOk e else FileOk e, s))))"

section \<open>A new store\<close>

definition blob_ext_char :: "char \<Rightarrow> bool" where
  "blob_ext_char c \<longleftrightarrow> (CHR ''A'' \<le> c \<and> c \<le> CHR ''Z'') \<or> (CHR ''a'' \<le> c \<and> c \<le> CHR ''z'') \<or> is_digit c \<or> c \<in> set ''._+-''"

definition hex_char :: "char \<Rightarrow> bool" where
  "hex_char c \<longleftrightarrow> is_digit c \<or> (CHR ''a'' \<le> c \<and> c \<le> CHR ''f'')"

definition blobFileName :: "string \<Rightarrow> bool" where
  "blobFileName name \<longleftrightarrow> 32 \<le> length name \<and> list_all hex_char (take 32 name) \<and>
     (case drop 32 name of [] \<Rightarrow> True | c # ext \<Rightarrow> c = CHR ''.'' \<and> ext \<noteq> [] \<and> list_all blob_ext_char ext)"

definition removeLeftovers :: "(string \<Rightarrow> bool) \<Rightarrow> blob_store \<Rightarrow> blob_store" where
  "removeLeftovers removable s =
     s\<lparr>bl_files := filter (\<lambda>(path, c). \<not> (blobFileName (file_base path) \<and> removable path)) (bl_files s)\<rparr>"

definition NewStore :: "(string \<Rightarrow> bool) \<Rightarrow> bool \<Rightarrow> string \<Rightarrow> string \<Rightarrow> (string \<times> string) list \<Rightarrow> (blob_error, blob_store) result" where
  "NewStore removable made dir baseURL files =
     (if \<not> made then Inl DirFailed
      else Inr (removeLeftovers removable
        \<lparr>bl_dir = dir, bl_base_url = rev (dropWhile (\<lambda>c. c = CHR ''/'') (rev baseURL)), bl_blobs = [], bl_quota = \<lparr>MaxTotalBytes = 0, MaxBytesPerUser = 0\<rparr>,
         bl_used = 0, bl_used_by = [], bl_files = files\<rparr>))"

section \<open>Handles\<close>

definition HandleScheme :: string where "HandleScheme = ''tm-blob''"
definition handlePrefix :: string where "handlePrefix = HandleScheme @ ''://''"

definition blob_fragments :: "string list" where "blob_fragments = [[], ''base64'', ''dataurl'', ''url'']"

definition Handle :: "string \<Rightarrow> string" where "Handle i = handlePrefix @ i"

definition IsHandle :: "string \<Rightarrow> bool" where "IsHandle s = has_prefix s handlePrefix"

datatype handle_error = InvalidBlobID | UnknownFragment string

text \<open>\<open>None\<close>: no handle at all; \<open>Some (Inl _)\<close>: a broken handle.\<close>

definition ParseHandle :: "string \<Rightarrow> (handle_error, string \<times> string) result option" where
  "ParseHandle s =
     (if \<not> has_prefix s handlePrefix then None
      else (let rest = trim_prefix s handlePrefix;
                (i, fragment) = (case index_of rest ''#'' of None \<Rightarrow> (rest, []) | Some k \<Rightarrow> (take k rest, drop (Suc k) rest))
            in if i = [] \<or> list_ex (\<lambda>c. c \<in> set ''/?#%'' \<or> c = CHR 0x5C) i then Some (Inl InvalidBlobID)
               else if fragment \<in> set blob_fragments then Some (Inr (i, fragment)) else Some (Inl (UnknownFragment fragment))))"

section \<open>Uploads over HTTP\<close>

definition uploadFormOverhead :: int where "uploadFormOverhead = 2 ^ 20"

record upload_limits =
  ul_max_bytes :: int
  ul_default_ttl :: duration
  ul_max_ttl :: duration

definition DefaultUploadLimits :: upload_limits where
  "DefaultUploadLimits = \<lparr>ul_max_bytes = 100 * 2 ^ 20, ul_default_ttl = 3600 * 10 ^ 9, ul_max_ttl = 24 * 3600 * 10 ^ 9\<rparr>"

text \<open>The form as \<open>ParseMultipartForm\<close> leaves it: the body was cut off by the size limit, is no form, or has the part of
  the field \<open>file\<close>, if any, and the value of the field \<open>ttl\<close>.\<close>

record upload_part =
  up_size :: int
  up_content_type :: string
  up_filename :: string
  up_body :: "body_event list"

datatype upload_form = FormTooLarge | FormInvalid | Form "upload_part option" string

record upload_result =
  ur_file_id :: string
  ur_handle :: string
  ur_url :: string
  ur_expires :: time
  ur_size :: int
  ur_content_type :: string

definition upload_ttl :: "(nat \<Rightarrow> nat \<Rightarrow> nat \<Rightarrow> nat) \<Rightarrow> upload_limits \<Rightarrow> string \<Rightarrow> duration option" where
  "upload_ttl fr limits v =
     (if v = [] then Some (ul_default_ttl limits)
      else case ParseDuration fr v of
          None \<Rightarrow> None
        | Some d \<Rightarrow> if d \<le> 0 then None else Some (if d > ul_max_ttl limits then ul_max_ttl limits else d))"

text \<open>The response is a status or, with status 201, the result; \<open>now\<close> is the time the blob is indexed, \<open>later\<close> the time of
  the \<open>Stat\<close> after it.\<close>

definition HandleUpload :: "(nat \<Rightarrow> nat \<Rightarrow> nat \<Rightarrow> nat) \<Rightarrow> (string \<Rightarrow> string) \<Rightarrow> (string \<Rightarrow> bool) \<Rightarrow> bool \<Rightarrow> string \<Rightarrow> time \<Rightarrow> time \<Rightarrow> string \<Rightarrow> int \<Rightarrow>
    upload_form \<Rightarrow> upload_limits \<Rightarrow> string \<Rightarrow> blob_store \<Rightarrow> (nat, upload_result) result \<times> blob_store" where
  "HandleUpload fr ext removable created i now later meth content_length form limits owner s =
     (if meth \<noteq> ''POST'' then (Inl 405, s)
      else if content_length - uploadFormOverhead > 0 \<and> CheckQuota owner (content_length - uploadFormOverhead) s \<noteq> None then (Inl 507, s)
      else case form of
          FormTooLarge \<Rightarrow> (Inl 413, s)
        | FormInvalid \<Rightarrow> (Inl 400, s)
        | Form None ttl \<Rightarrow> (Inl 400, s)
        | Form (Some part) ttl \<Rightarrow>
            if up_size part > ul_max_bytes limits then (Inl 413, s)
            else if CheckQuota owner (up_size part) s \<noteq> None then (Inl 507, s)
            else (let ct = (if up_content_type part = [] then ''application/octet-stream'' else up_content_type part)
                  in case upload_ttl fr limits ttl of
                       None \<Rightarrow> (Inl 400, s)
                     | Some d \<Rightarrow>
                         (case PutOwned ext removable created i now (up_body part) ct (up_filename part) owner d s of
                            (Inl e, s') \<Rightarrow> (Inl (if is_quota_error e then 507 else 500), s')
                          | (Inr (j, n), s') \<Rightarrow>
                              (case blob_Stat later j s' of
                                 Inl _ \<Rightarrow> (Inl 500, s')
                               | Inr info \<Rightarrow>
                                   (Inr \<lparr>ur_file_id = j, ur_handle = Handle j, ur_url = blob_URL j s', ur_expires = bi_expires_at info,
                                         ur_size = n, ur_content_type = ct\<rparr>, s')))))"

end
