(* ===== verification/BlobQuota.thy ===== *)
theory BlobQuota
  imports BlobStore "HOL-Library.Multiset"
begin

text \<open>
  What the quota of the blob store promises while requests run side by side. A step is one critical
  section of the store's mutex or one write to a file; writers in progress are part of the state. The
  bytes that are accounted for form a multiset of claims, an owner and a number each: one per stored
  blob and one per writer.
\<close>

section \<open>Claims\<close>

definition claimed :: "(string \<times> int) multiset \<Rightarrow> int" where
  "claimed c = sum_mset (image_mset snd c)"

definition claimed_by :: "string \<Rightarrow> (string \<times> int) multiset \<Rightarrow> int" where
  "claimed_by owner c = sum_mset (image_mset snd (filter_mset (\<lambda>x. fst x = owner) c))"

lemma claimed_add [simp]: "claimed (add_mset x c) = snd x + claimed c"
  by (simp add: claimed_def)

lemma claimed_by_add [simp]: "claimed_by o' (add_mset x c) = (if fst x = o' then snd x else 0) + claimed_by o' c"
  by (simp add: claimed_by_def)

lemma claimed_bounds: "\<forall>x \<in># c. 0 \<le> snd x \<Longrightarrow> 0 \<le> claimed_by o' c \<and> claimed_by o' c \<le> claimed c"
  by (induction c) (auto simp: claimed_def claimed_by_def)

text \<open>The counters of the store agree with the claims.\<close>

definition counted :: "blob_store \<Rightarrow> (string \<times> int) multiset \<Rightarrow> bool" where
  "counted s c \<longleftrightarrow> bl_used s = claimed c \<and> (\<forall>o'. o' \<noteq> [] \<longrightarrow> used_by s o' = claimed_by o' c) \<and>
     (\<forall>x \<in># c. 0 \<le> snd x) \<and> claimed c < 2 ^ 63 \<and> [] \<notin> fst ` set (bl_used_by s) \<and>
     distinct (map fst (bl_used_by s)) \<and> (\<forall>x \<in> set (bl_used_by s). 0 < snd x)"

lemma used_by_addLocked:
  "used_by (addLocked owner n s) o' =
     (if owner \<noteq> [] \<and> o' = owner then max 0 (wrap64 (used_by s owner + n)) else used_by s o')"
  by (auto simp: addLocked_def used_by_def update_conv' delete_conv' Let_def)

lemma addLocked_fields [simp]:
  "bl_used (addLocked owner n s) = wrap64 (bl_used s + n)" "bl_quota (addLocked owner n s) = bl_quota s"
  "bl_blobs (addLocked owner n s) = bl_blobs s" "bl_files (addLocked owner n s) = bl_files s" "bl_dir (addLocked owner n s) = bl_dir s"
  by (simp_all add: addLocked_def Let_def)

lemma addLocked_keys:
  assumes "[] \<notin> fst ` set (bl_used_by s)" "distinct (map fst (bl_used_by s))" "\<forall>x \<in> set (bl_used_by s). 0 < snd x"
  shows "[] \<notin> fst ` set (bl_used_by (addLocked owner n s)) \<and> distinct (map fst (bl_used_by (addLocked owner n s))) \<and>
     (\<forall>x \<in> set (bl_used_by (addLocked owner n s)). 0 < snd x)"
  using assms
  by (auto simp: addLocked_def Let_def set_update_distinct distinct_update set_delete_alist distinct_delete_keys)

text \<open>A claim grows or shrinks: the one lemma behind reservations, releases and deletions.\<close>

lemma counted_change:
  assumes "counted s (add_mset (owner, a) c)" "0 \<le> a + n" "claimed c + a + n < 2 ^ 63"
  shows "counted (addLocked owner n s) (add_mset (owner, a + n) c)"
proof -
  have s: "bl_used s = a + claimed c" "owner \<noteq> [] \<Longrightarrow> used_by s owner = a + claimed_by owner c"
    "\<And>o'. o' \<noteq> [] \<Longrightarrow> o' \<noteq> owner \<Longrightarrow> used_by s o' = claimed_by o' c" "\<forall>x \<in># c. 0 \<le> snd x" "0 \<le> a"
    using assms(1) by (auto simp: counted_def)
  have b: "0 \<le> claimed_by owner c" "claimed_by owner c \<le> claimed c" using claimed_bounds [OF s(4)] by blast+
  have "wrap64 (bl_used s + n) = a + n + claimed c" using assms(2,3) s(1) b by (subst wrap64_id) linarith+
  moreover have "wrap64 (used_by s owner + n) = a + n + claimed_by owner c" if "owner \<noteq> []"
    using that assms(2,3) s(2) b by (subst wrap64_id) linarith+
  ultimately show ?thesis
    using assms s b addLocked_keys [of s owner n] by (auto simp: counted_def used_by_addLocked)
qed

lemma counted_zero [simp]: "counted s (add_mset (owner, 0) c) \<longleftrightarrow> counted s c"
  by (auto simp: counted_def)

lemma counted_release:
  assumes "counted s (add_mset (owner, a) c)"
  shows "counted (release_bytes owner a s) c"
proof -
  have "claimed c < 2 ^ 63" using assms by (auto simp: counted_def)
  then show ?thesis using counted_change [OF assms, of "- a"] by (simp add: release_bytes_def)
qed

lemma counted_cong:
  "bl_used s' = bl_used s \<Longrightarrow> bl_used_by s' = bl_used_by s \<Longrightarrow> counted s' c = counted s c"
  by (simp add: counted_def used_by_def)

lemma counted_files [simp]: "counted (s\<lparr>bl_files := fs\<rparr>) c = counted s c"
  "counted (s\<lparr>bl_blobs := bs\<rparr>) c = counted s c" "counted (s\<lparr>bl_quota := q\<rparr>) c = counted s c"
  by (rule counted_cong; simp)+

lemma counted_remove_file [simp]: "counted (remove_file removable path s) c = counted s c"
  by (simp add: remove_file_def)

section \<open>Steps\<close>

type_synonym blob_world = "blob_store \<times> blob_writer list"

definition writer_claim :: "blob_writer \<Rightarrow> string \<times> int" where
  "writer_claim w = (wr_owner w, wr_reserved w + (case wr_chunk w of None \<Rightarrow> 0 | Some p \<Rightarrow> int (length p)))"

definition claims :: "blob_world \<Rightarrow> (string \<times> int) multiset" where
  "claims W = image_mset (\<lambda>(i, e). (be_owner e, be_size e)) (mset (bl_blobs (fst W))) + image_mset writer_claim (mset (snd W))"

text \<open>The bytes of all blobs together stay below \<open>2^63\<close>, which no disk holds.\<close>

inductive blob_step :: "(string \<Rightarrow> string) \<Rightarrow> blob_world \<Rightarrow> blob_world \<Rightarrow> bool" for ext where
  Start: "i \<notin> fst ` set (bl_blobs s) \<Longrightarrow> i \<notin> wr_id ` set ws \<Longrightarrow> start_put ext i ct fn owner s = (w, s') \<Longrightarrow>
    blob_step ext (s, ws) (s', w # ws)"
| Reserved: "w \<in> set ws \<Longrightarrow> wr_chunk w = None \<Longrightarrow> claimed (claims (s, ws)) + int (length p) < 2 ^ 63 \<Longrightarrow>
    write_reserve p w s = Inr (w', s') \<Longrightarrow> blob_step ext (s, ws) (s', w' # remove1 w ws)"
| Refused: "w \<in> set ws \<Longrightarrow> wr_chunk w = None \<Longrightarrow> write_reserve p w s = Inl e \<Longrightarrow>
    blob_step ext (s, ws) (abort_put removable w s, remove1 w ws)"
| Written: "w \<in> set ws \<Longrightarrow> wr_chunk w = Some p \<Longrightarrow> n \<le> length p \<Longrightarrow> write_done n w s = (w', s') \<Longrightarrow>
    blob_step ext (s, ws) (s', w' # remove1 w ws)"
| Aborted: "w \<in> set ws \<Longrightarrow> wr_chunk w = None \<Longrightarrow> blob_step ext (s, ws) (abort_put removable w s, remove1 w ws)"
| Finished: "w \<in> set ws \<Longrightarrow> wr_chunk w = None \<Longrightarrow> blob_step ext (s, ws) (finish_put now ttl w s, remove1 w ws)"
| Deleted: "blob_Delete removable i s = (e, s') \<Longrightarrow> blob_step ext (s, ws) (s', ws)"
| Expired: "blob_step ext (s, ws) (removeExpired removable now s, ws)"

inductive blob_reach :: "(string \<Rightarrow> string) \<Rightarrow> blob_world \<Rightarrow> bool" for ext where
  New: "NewStore removable made dir url files = Inr s \<Longrightarrow> blob_reach ext (s, [])"
| Step: "blob_reach ext W \<Longrightarrow> blob_step ext W W' \<Longrightarrow> blob_reach ext W'"
| Quota: "blob_reach ext (s, ws) \<Longrightarrow> blob_reach ext (SetQuota q s, ws)"

definition world_ok :: "blob_world \<Rightarrow> bool" where
  "world_ok W \<longleftrightarrow> counted (fst W) (claims W) \<and> distinct (map fst (bl_blobs (fst W)) @ map wr_id (snd W)) \<and>
     (\<forall>w \<in> set (snd W). 0 \<le> wr_reserved w)"

lemma claims_writer:
  "w \<in> set ws \<Longrightarrow> claims (s, ws) = add_mset (writer_claim w) (claims (s, remove1 w ws))"
proof -
  assume "w \<in> set ws"
  then have "mset ws = add_mset w (mset (remove1 w ws))" by simp
  then show ?thesis by (simp only: claims_def fst_conv snd_conv image_mset_add_mset union_mset_add_mset_right)
qed

lemma claims_Cons [simp]: "claims (s, w # ws) = add_mset (writer_claim w) (claims (s, ws))"
  by (simp add: claims_def)

lemma claims_cong: "bl_blobs s' = bl_blobs s \<Longrightarrow> claims (s', ws) = claims (s, ws)"
  by (simp add: claims_def)

lemma mset_delete:
  "distinct (map fst m) \<Longrightarrow> map_of m i = Some e \<Longrightarrow> mset m = add_mset (i, e) (mset (AList.delete i m))"
proof (induction m)
  case (Cons x m)
  obtain k v where x: "x = (k, v)" by (cases x)
  show ?case
  proof (cases "k = i")
    case True
    then have "AList.delete i m = m" using Cons.prems(1) x by (intro delete_id) simp
    then show ?thesis using True Cons.prems(2) x by simp
  next
    case False
    then show ?thesis using Cons x by simp
  qed
qed simp

lemma claims_blob:
  assumes "distinct (map fst (bl_blobs s))" "map_of (bl_blobs s) i = Some e"
  shows "claims (s, ws) = add_mset (be_owner e, be_size e) (claims (s\<lparr>bl_blobs := AList.delete i (bl_blobs s)\<rparr>, ws))"
  using mset_delete [OF assms] by (simp add: claims_def)

section \<open>Every step keeps the count\<close>

lemma counted_start: "start_put ext i ct fn owner s = (w, s') \<Longrightarrow> counted s' c = counted s c \<and> bl_blobs s' = bl_blobs s \<and> bl_quota s' = bl_quota s \<and>
    writer_claim w = (owner, 0) \<and> wr_id w = i \<and> wr_owner w = owner \<and> wr_reserved w = 0 \<and> wr_chunk w = None"
  by (auto simp: start_put_def writer_claim_def Let_def)

lemma counted_reserve:
  assumes "counted s (add_mset (writer_claim w) c)" "wr_chunk w = None" "write_reserve p w s = Inr (w', s')"
    "claimed c + wr_reserved w + int (length p) < 2 ^ 63"
  shows "counted s' (add_mset (writer_claim w') c)" "bl_blobs s' = bl_blobs s" "wr_id w' = wr_id w"
  using assms counted_change [of s "wr_owner w" "wr_reserved w" c "int (length p)"]
  by (auto simp: write_reserve_def reserve_def writer_claim_def counted_def split: option.splits)

lemma counted_written:
  assumes "counted s (add_mset (writer_claim w) c)" "wr_chunk w = Some p" "write_done n w s = (w', s')" "n \<le> length p" "0 \<le> wr_reserved w"
  shows "counted s' (add_mset (writer_claim w') c)" "bl_blobs s' = bl_blobs s" "wr_id w' = wr_id w"
    "wr_reserved w' = wr_reserved w + int n"
proof -
  let ?s1 = "s\<lparr>bl_files := AList.update (wr_path w) (file_content s (wr_path w) @ take n p) (bl_files s)\<rparr>"
  have w': "w' = w\<lparr>wr_reserved := wr_reserved w + int n, wr_chunk := None\<rparr>"
    and s': "s' = (if n < length p then release_bytes (wr_owner w) (int (length p - n)) ?s1 else ?s1)"
    using assms(2,3) by (auto simp: write_done_def Let_def)
  have c: "counted ?s1 (add_mset (wr_owner w, wr_reserved w + int (length p)) c)" using assms(1,2) by (simp add: writer_claim_def)
  then have "claimed c + (wr_reserved w + int (length p)) < 2 ^ 63" by (auto simp: counted_def)
  then have "counted (addLocked (wr_owner w) (- int (length p - n)) ?s1) (add_mset (wr_owner w, wr_reserved w + int n) c)"
    using counted_change [OF c, of "- int (length p - n)"] assms(4,5) by (simp add: of_nat_diff)
  then show "counted s' (add_mset (writer_claim w') c)"
    using c assms(4) by (cases "n = length p") (auto simp: s' w' writer_claim_def release_bytes_def)
  show "bl_blobs s' = bl_blobs s" "wr_id w' = wr_id w" "wr_reserved w' = wr_reserved w + int n"
    by (auto simp: s' w' release_bytes_def)
qed

lemma counted_abort:
  assumes "counted s (add_mset (writer_claim w) c)" "wr_chunk w = None"
  shows "counted (abort_put removable w s) c" "bl_blobs (abort_put removable w s) = bl_blobs s"
  using counted_release [of s "wr_owner w" "wr_reserved w" c] assms
  by (auto simp: abort_put_def writer_claim_def remove_file_def release_bytes_def)

lemma counted_drop:
  assumes "world_ok (s, ws)" "map_of (bl_blobs s) i = Some e"
  shows "world_ok (drop_entry i e s, ws)"
proof -
  let ?s = "s\<lparr>bl_blobs := AList.delete i (bl_blobs s)\<rparr>"
  have "counted ?s (add_mset (be_owner e, be_size e) (claims (?s, ws)))"
    using assms claims_blob [OF _ assms(2), of ws] by (simp add: world_ok_def)
  then have "counted (drop_entry i e s) (claims (?s, ws))" using counted_release by (simp add: drop_entry_def release_bytes_def)
  moreover have "claims (drop_entry i e s, ws) = claims (?s, ws)" by (rule claims_cong) (simp add: drop_entry_def)
  ultimately show ?thesis using assms(1)
    by (auto simp: world_ok_def drop_entry_def distinct_delete_keys set_delete_alist)
qed

lemma world_ok_remove_file [simp]: "world_ok (remove_file removable path s, ws) = world_ok (s, ws)"
  by (simp add: world_ok_def claims_def remove_file_def)

lemma world_ok_Delete: "world_ok (s, ws) \<Longrightarrow> blob_Delete removable i s = (e, s') \<Longrightarrow> world_ok (s', ws)"
  by (auto simp: blob_Delete_def counted_drop split: option.splits)

definition shrunk :: "(string \<times> int) multiset \<Rightarrow> (string \<times> int) multiset \<Rightarrow> bool" where
  "shrunk c' c \<longleftrightarrow> claimed c' \<le> claimed c \<and> (\<forall>o'. claimed_by o' c' \<le> claimed_by o' c)"

lemma shrunk_refl [simp]: "shrunk c c"
  by (simp add: shrunk_def)

lemma shrunk_trans: "shrunk c1 c2 \<Longrightarrow> shrunk c2 c3 \<Longrightarrow> shrunk c1 c3"
  by (auto simp: shrunk_def intro: order_trans)

lemma shrunk_less: "fst x = fst y \<Longrightarrow> snd x \<le> snd y \<Longrightarrow> shrunk (add_mset x c) (add_mset y c)"
  by (auto simp: shrunk_def)

lemma shrunk_removed: "0 \<le> snd x \<Longrightarrow> shrunk c (add_mset x c)"
  by (auto simp: shrunk_def)

lemma drop_shrinks:
  assumes "world_ok (s, ws)" "map_of (bl_blobs s) i = Some e"
  shows "shrunk (claims (drop_entry i e s, ws)) (claims (s, ws))"
proof -
  have c: "claims (s, ws) = add_mset (be_owner e, be_size e) (claims (drop_entry i e s, ws))"
    using claims_blob [OF _ assms(2), of ws] assms(1) claims_cong [of "drop_entry i e s" "s\<lparr>bl_blobs := AList.delete i (bl_blobs s)\<rparr>" ws]
    by (simp add: world_ok_def drop_entry_def)
  moreover have "0 \<le> be_size e" using assms(1) unfolding world_ok_def fst_conv c by (simp add: counted_def)
  ultimately show ?thesis by (simp add: shrunk_removed)
qed

text \<open>The range over the map visits each entry once; an entry not yet visited is still there.\<close>

lemma remove_each_keeps:
  assumes "world_ok (s, ws)" "\<forall>(i, e) \<in> set es. map_of (bl_blobs s) i = Some e" "distinct (map fst es)"
  shows "world_ok (remove_each removable now es s, ws) \<and> shrunk (claims (remove_each removable now es s, ws)) (claims (s, ws)) \<and>
    bl_quota (remove_each removable now es s) = bl_quota s"
  using assms
proof (induction es arbitrary: s)
  case (Cons x es)
  obtain i e where x: "x = (i, e)" by (cases x)
  let ?r = "remove_file removable (be_path e) s" and ?s = "drop_entry i e (remove_file removable (be_path e) s)"
  have r: "bl_blobs ?r = bl_blobs s" "bl_quota ?r = bl_quota s" "world_ok (?r, ws)"
    using Cons.prems(1) world_ok_remove_file [of removable "be_path e" s ws] by (simp_all add: remove_file_def)
  have e: "map_of (bl_blobs ?r) i = Some e" using Cons.prems(2) x r(1) by simp
  have ok: "world_ok (?s, ws)" by (rule counted_drop [OF r(3) e])
  have sh: "shrunk (claims (?s, ws)) (claims (s, ws))" using drop_shrinks [OF r(3) e] claims_cong [OF r(1), of ws] by simp
  have q: "bl_quota ?s = bl_quota s" using r(2) by (simp add: drop_entry_def)
  have "bl_blobs ?s = AList.delete i (bl_blobs s)" using r(1) by (simp add: drop_entry_def)
  then have "\<forall>(j, e') \<in> set es. map_of (bl_blobs ?s) j = Some e'"
    using Cons.prems(2,3) x by (force simp: delete_conv')
  then show ?case using Cons.IH [OF ok] Cons.IH [OF Cons.prems(1)] Cons.prems x sh q by (auto dest: shrunk_trans)
qed simp

lemma expired_keeps:
  assumes "world_ok (s, ws)"
  shows "world_ok (removeExpired removable now s, ws)" "shrunk (claims (removeExpired removable now s, ws)) (claims (s, ws))"
    "bl_quota (removeExpired removable now s) = bl_quota s"
  using remove_each_keeps [OF assms, of "bl_blobs s"] assms unfolding removeExpired_def by (auto simp: world_ok_def)

text \<open>The accounting is exact in every reachable state.\<close>

lemma writer_of: "world_ok (s, ws) \<Longrightarrow> w \<in> set ws \<Longrightarrow> counted s (add_mset (writer_claim w) (claims (s, remove1 w ws))) \<and> 0 \<le> wr_reserved w"
  by (simp add: world_ok_def claims_writer)

lemma remove1_writers:
  assumes "world_ok (s, ws)" "w \<in> set ws"
  shows "distinct (map wr_id (remove1 w ws))" "wr_id w \<notin> wr_id ` set (remove1 w ws)" "wr_id w \<notin> fst ` set (bl_blobs s)"
    "fst ` set (bl_blobs s) \<inter> wr_id ` set (remove1 w ws) = {}" "\<forall>v \<in> set (remove1 w ws). 0 \<le> wr_reserved v"
proof -
  have d: "distinct ws" "inj_on wr_id (set ws)" and dis: "fst ` set (bl_blobs s) \<inter> wr_id ` set ws = {}" and r: "\<forall>v \<in> set ws. 0 \<le> wr_reserved v"
    using assms(1) by (auto simp: world_ok_def distinct_map)
  have sub: "set (remove1 w ws) = set ws - {w}" using d(1) by simp
  show "distinct (map wr_id (remove1 w ws))" using d sub by (auto simp: distinct_map inj_on_def)
  show "wr_id w \<notin> wr_id ` set (remove1 w ws)" using d(2) assms(2) by (auto simp: sub dest: inj_onD)
  show "wr_id w \<notin> fst ` set (bl_blobs s)" using dis assms(2) by blast
  show "fst ` set (bl_blobs s) \<inter> wr_id ` set (remove1 w ws) = {}" using dis by (auto simp: sub)
  show "\<forall>v \<in> set (remove1 w ws). 0 \<le> wr_reserved v" using r by (simp add: sub)
qed

lemma world_ok_writers:
  assumes "world_ok (s, ws)" "w \<in> set ws" "counted s' (claims (s', remove1 w ws))" "bl_blobs s' = bl_blobs s"
  shows "world_ok (s', remove1 w ws)"
  using remove1_writers [OF assms(1,2)] assms(1,3,4) by (simp add: world_ok_def)

lemma world_ok_replace:
  assumes "world_ok (s, ws)" "w \<in> set ws" "counted s' (add_mset (writer_claim w') (claims (s, remove1 w ws)))" "bl_blobs s' = bl_blobs s"
    "wr_id w' = wr_id w" "0 \<le> wr_reserved w'"
  shows "world_ok (s', w' # remove1 w ws)"
  using remove1_writers [OF assms(1,2)] assms claims_cong [OF assms(4), of "remove1 w ws"] by (simp add: world_ok_def)

lemma world_ok_finish:
  assumes "world_ok (s, ws)" "w \<in> set ws" "wr_chunk w = None"
  shows "world_ok (finish_put now ttl w s, remove1 w ws)"
proof -
  note ids = remove1_writers [OF assms(1,2)]
  obtain e where e: "bl_blobs (finish_put now ttl w s) = bl_blobs s @ [(wr_id w, e)]" "(be_owner e, be_size e) = writer_claim w"
    using ids(3) assms(3) by (auto simp: finish_put_def writer_claim_def update_fresh)
  then have "claims (finish_put now ttl w s, remove1 w ws) = claims (s, ws)"
    using claims_writer [OF assms(2), of s] by (simp add: claims_def)
  moreover have "counted (finish_put now ttl w s) (claims (s, ws))" using assms(1) by (simp add: world_ok_def finish_put_def)
  ultimately show ?thesis using assms(1) ids e(1) by (simp add: world_ok_def)
qed

lemma world_ok_step: "blob_step ext W W' \<Longrightarrow> world_ok W \<Longrightarrow> world_ok W'"
proof (induction rule: blob_step.induct)
  case (Start i s ws ct fn owner w s')
  then show ?case using counted_start [OF Start(3)] claims_cong [of s' s ws] by (auto simp: world_ok_def)
next
  case (Reserved w ws s p w' s')
  have c: "counted s (add_mset (writer_claim w) (claims (s, remove1 w ws)))" "0 \<le> wr_reserved w" using writer_of Reserved by blast+
  have "claimed (claims (s, remove1 w ws)) + wr_reserved w + int (length p) < 2 ^ 63"
    using Reserved(2,3) claims_writer [OF Reserved(1), of s] by (simp add: writer_claim_def)
  note r = counted_reserve [OF c(1) Reserved(2,4) this]
  have "wr_reserved w' = wr_reserved w" using Reserved(4) by (auto simp: write_reserve_def split: sum.splits)
  then show ?case using r c(2) by (intro world_ok_replace [OF Reserved(5,1)]) simp_all
next
  case (Written w ws p n s w' s')
  have c: "counted s (add_mset (writer_claim w) (claims (s, remove1 w ws)))" "0 \<le> wr_reserved w" using writer_of Written by blast+
  note r = counted_written [OF c(1) Written(2,4,3) c(2)]
  show ?case using r c(2) by (intro world_ok_replace [OF Written(5,1)]) simp_all
next
  case (Refused w ws p s e removable)
  then show ?case using writer_of [OF Refused(4,1)] counted_abort [of s w "claims (s, remove1 w ws)" removable]
      claims_cong [of "abort_put removable w s" s "remove1 w ws"] by (intro world_ok_writers [OF Refused(4,1)]) simp_all
next
  case (Aborted w ws s removable)
  then show ?case using writer_of [OF Aborted(3,1)] counted_abort [of s w "claims (s, remove1 w ws)" removable]
      claims_cong [of "abort_put removable w s" s "remove1 w ws"] by (intro world_ok_writers [OF Aborted(3,1)]) simp_all
next
  case (Finished w ws now ttl s)
  then show ?case using world_ok_finish by blast
next
  case (Deleted removable i s e s' ws)
  then show ?case using world_ok_Delete by blast
next
  case (Expired s ws removable now)
  then show ?case by (rule expired_keeps)
qed

lemma world_ok_reach: "blob_reach ext W \<Longrightarrow> world_ok W"
proof (induction rule: blob_reach.induct)
  case (New removable made dir url files s)
  then show ?case
    by (auto simp: NewStore_def removeLeftovers_def world_ok_def claims_def counted_def claimed_def claimed_by_def used_by_def split: if_splits)
next
  case (Step W W')
  then show ?case using world_ok_step by blast
next
  case (Quota s ws q)
  then show ?case by (simp add: SetQuota_def world_ok_def claims_def)
qed

section \<open>The quota\<close>

definition within_quota :: "blob_store \<Rightarrow> bool" where
  "within_quota s \<longleftrightarrow> (0 < MaxTotalBytes (bl_quota s) \<longrightarrow> bl_used s \<le> MaxTotalBytes (bl_quota s)) \<and>
     (0 < MaxBytesPerUser (bl_quota s) \<longrightarrow> (\<forall>o'. o' \<noteq> [] \<longrightarrow> used_by s o' \<le> MaxBytesPerUser (bl_quota s)))"

lemma within_shrunk:
  assumes "within_quota s" "counted s c" "counted s' c'" "shrunk c' c" "bl_quota s' = bl_quota s"
  shows "within_quota s'"
  using assms by (fastforce simp: within_quota_def counted_def shrunk_def intro: order_trans)

text \<open>Only a reservation adds, and what it adds fits.\<close>

lemma reserve_within:
  assumes "within_quota s" "counted s (add_mset (wr_owner w, a) c)" "claimed c + a + int (length p) < 2 ^ 63" "write_reserve p w s = Inr (w', s')"
  shows "within_quota s' \<and> bl_quota s' = bl_quota s"
proof -
  let ?n = "int (length p)" and ?o = "wr_owner w"
  have s': "s' = addLocked ?o ?n s" and fits: "fitsLocked ?o (wr_reserved w) ?n s = None"
    using assms(4) by (auto simp: write_reserve_def reserve_def split: option.splits)
  have nn: "\<forall>x \<in># c. 0 \<le> snd x" "0 \<le> a" using assms(2) by (auto simp: counted_def)
  have b: "0 \<le> claimed_by ?o c" "claimed_by ?o c \<le> claimed c" using claimed_bounds [OF nn(1)] by blast+
  have u: "bl_used s = a + claimed c" "?o \<noteq> [] \<Longrightarrow> used_by s ?o = a + claimed_by ?o c" using assms(2) by (auto simp: counted_def)
  have w1: "wrap64 (bl_used s + ?n) = bl_used s + ?n" using u(1) nn b assms(3) by (intro wrap64_id) linarith+
  have w2: "wrap64 (used_by s ?o + ?n) = used_by s ?o + ?n" if "?o \<noteq> []"
    using u(2) that nn b assms(3) by (intro wrap64_id) linarith+
  have "0 \<le> used_by s ?o + ?n" if "?o \<noteq> []" using u(2) that nn b by simp
  then show ?thesis using assms(1) fits w1 w2 s'
    by (auto simp: within_quota_def fitsLocked_def used_by_addLocked Let_def split: if_splits)
qed

lemma step_within:
  assumes "blob_step ext W W'" "world_ok W" "within_quota (fst W)"
  shows "within_quota (fst W') \<and> bl_quota (fst W') = bl_quota (fst W)"
proof -
  have c: "counted (fst W) (claims W)" "counted (fst W') (claims W')"
    using assms(2) world_ok_step [OF assms(1,2)] by (simp_all add: world_ok_def)
  have sh: "within_quota (fst W') \<and> bl_quota (fst W') = bl_quota (fst W)" if "shrunk (claims W') (claims W)" "bl_quota (fst W') = bl_quota (fst W)"
    using within_shrunk [OF assms(3) c that] that(2) by blast
  show ?thesis using assms(1)
  proof (cases rule: blob_step.cases)
    case (Start i s ws ct fn owner w s')
    then show ?thesis using counted_start [OF Start(5)] claims_cong [of s' s ws] by (intro sh) (simp_all add: shrunk_def)
  next
    case (Reserved w ws s p w' s')
    have w: "claims W = add_mset (wr_owner w, wr_reserved w) (claims (s, remove1 w ws))"
      using claims_writer [OF Reserved(3), of s] Reserved(1,4) by (simp add: writer_claim_def)
    show ?thesis
      using reserve_within [of s w "wr_reserved w" "claims (s, remove1 w ws)" p w' s'] assms(3) c(1) w Reserved by simp
  next
    case (Written w ws p n s w' s')
    have "fst (writer_claim w') = fst (writer_claim w)" "snd (writer_claim w') \<le> snd (writer_claim w)" "bl_blobs s' = bl_blobs s" "bl_quota s' = bl_quota s"
      using Written by (auto simp: write_done_def writer_claim_def release_bytes_def Let_def)
    then show ?thesis using Written(1,2) claims_writer [OF Written(3), of s] claims_cong [of s' s "remove1 w ws"]
      by (intro sh) (simp_all add: shrunk_less)
  next
    case (Refused w ws p s e removable)
    have "0 \<le> snd (writer_claim w)" using writer_of [of s ws w] assms(2) Refused(1,3) by (auto simp: counted_def)
    moreover have "bl_blobs (abort_put removable w s) = bl_blobs s" "bl_quota (abort_put removable w s) = bl_quota s"
      by (simp_all add: abort_put_def remove_file_def release_bytes_def)
    ultimately show ?thesis using Refused(1,2) claims_writer [OF Refused(3), of s] claims_cong [of "abort_put removable w s" s "remove1 w ws"]
      by (intro sh) (simp_all add: shrunk_removed)
  next
    case (Aborted w ws s removable)
    have "0 \<le> snd (writer_claim w)" using writer_of [of s ws w] assms(2) Aborted(1,3) by (auto simp: counted_def)
    moreover have "bl_blobs (abort_put removable w s) = bl_blobs s" "bl_quota (abort_put removable w s) = bl_quota s"
      by (simp_all add: abort_put_def remove_file_def release_bytes_def)
    ultimately show ?thesis using Aborted(1,2) claims_writer [OF Aborted(3), of s] claims_cong [of "abort_put removable w s" s "remove1 w ws"]
      by (intro sh) (simp_all add: shrunk_removed)
  next
    case (Finished w ws now ttl s)
    then show ?thesis using assms(3) by (simp add: finish_put_def within_quota_def used_by_def)
  next
    case (Deleted removable i s e s' ws)
    show ?thesis
    proof (cases "map_of (bl_blobs s) i")
      case None
      then show ?thesis using Deleted assms(3) by (simp add: blob_Delete_def)
    next
      case (Some b)
      then have s': "s' = remove_file removable (be_path b) (drop_entry i b s)" using Deleted(3) by (simp add: blob_Delete_def)
      have "shrunk (claims W') (claims W)"
        using drop_shrinks [of s ws i b] assms(2) Some Deleted(1,2) claims_cong [of s' "drop_entry i b s" ws] by (simp add: s' remove_file_def)
      then show ?thesis using Deleted(1,2) by (intro sh) (simp_all add: s' remove_file_def drop_entry_def)
    qed
  next
    case (Expired s ws removable now)
    then show ?thesis using expired_keeps [of s ws removable now] assms(2) by (intro sh) simp_all
  qed
qed

lemma run_within:
  assumes "(blob_step ext)\<^sup>*\<^sup>* W W'" "world_ok W" "within_quota (fst W)"
  shows "world_ok W' \<and> within_quota (fst W') \<and> bl_quota (fst W') = bl_quota (fst W)"
  using assms
proof (induction rule: rtranclp_induct)
  case (step V V')
  then show ?case using step_within [OF step(2)] world_ok_step [OF step(2)] by simp
qed simp

end
