(* ===== verification/BlobProps.thy ===== *)
theory BlobProps
  imports BlobQuota
begin

text \<open>
  The properties of the blob store: the quota holds whatever runs side by side, an upload is stored as a
  whole or leaves no trace, and handles are read back as they were made.
\<close>

section \<open>Quota\<close>

lemma claimed_claims:
  "claimed (claims (s, ws)) = sum_list (map (be_size \<circ> snd) (bl_blobs s)) + sum_list (map (snd \<circ> writer_claim) ws)"
  "claimed_by o' (claims (s, ws)) =
     sum_list (map (be_size \<circ> snd) (filter (\<lambda>x. be_owner (snd x) = o') (bl_blobs s))) +
     sum_list (map (snd \<circ> writer_claim) (filter (\<lambda>w. wr_owner w = o') ws))"
proof -
  have b: "claimed (image_mset (\<lambda>(i, e). (be_owner e, be_size e)) (mset bs)) = sum_list (map (be_size \<circ> snd) bs)"
    "claimed_by o' (image_mset (\<lambda>(i, e). (be_owner e, be_size e)) (mset bs)) = sum_list (map (be_size \<circ> snd) (filter (\<lambda>x. be_owner (snd x) = o') bs))" for bs
    by (induction bs) (auto simp: claimed_def claimed_by_def)
  have w: "claimed (image_mset writer_claim (mset ws)) = sum_list (map (snd \<circ> writer_claim) ws)"
    "claimed_by o' (image_mset writer_claim (mset ws)) = sum_list (map (snd \<circ> writer_claim) (filter (\<lambda>w. wr_owner w = o') ws))"
    by (induction ws) (auto simp: claimed_def claimed_by_def writer_claim_def)
  show "claimed (claims (s, ws)) = sum_list (map (be_size \<circ> snd) (bl_blobs s)) + sum_list (map (snd \<circ> writer_claim) ws)"
    using b(1) [of "bl_blobs s"] w(1) by (simp add: claims_def claimed_def)
  show "claimed_by o' (claims (s, ws)) =
     sum_list (map (be_size \<circ> snd) (filter (\<lambda>x. be_owner (snd x) = o') (bl_blobs s))) +
     sum_list (map (snd \<circ> writer_claim) (filter (\<lambda>w. wr_owner w = o') ws))"
    using b(2) [of "bl_blobs s"] w(2) by (simp add: claims_def claimed_by_def)
qed

text \<open>C9: however uploads, deletions and expiry interleave, the store's counters are exactly the bytes of the blobs and of
  the uploads in progress, in total and per owner, and from a state within the quota, until the quota
  is changed, these bytes never exceed the total limit or the limit of a user.\<close>

theorem quota_enforced:
  assumes "blob_reach ext W" "(blob_step ext)\<^sup>*\<^sup>* W (s, ws)" "within_quota (fst W)"
  shows "bl_used s = sum_list (map (be_size \<circ> snd) (bl_blobs s)) + sum_list (map (snd \<circ> writer_claim) ws) \<and>
    (\<forall>owner. owner \<noteq> [] \<longrightarrow> used_by s owner =
       sum_list (map (be_size \<circ> snd) (filter (\<lambda>x. be_owner (snd x) = owner) (bl_blobs s))) +
       sum_list (map (snd \<circ> writer_claim) (filter (\<lambda>w. wr_owner w = owner) ws))) \<and>
    bl_quota s = bl_quota (fst W) \<and>
    (0 < MaxTotalBytes (bl_quota s) \<longrightarrow> bl_used s \<le> MaxTotalBytes (bl_quota s)) \<and>
    (0 < MaxBytesPerUser (bl_quota s) \<longrightarrow> (\<forall>owner. owner \<noteq> [] \<longrightarrow> used_by s owner \<le> MaxBytesPerUser (bl_quota s)))"
  using run_within [OF assms(2) world_ok_reach [OF assms(1)] assms(3)]
  by (auto simp: world_ok_def counted_def claimed_claims within_quota_def)

section \<open>Uploads\<close>

definition valid_body :: "body_event list \<Rightarrow> bool" where
  "valid_body body \<longleftrightarrow> (\<forall>p n. Chunk p n \<in> set body \<longrightarrow> n \<le> length p)"

definition body_bytes :: "body_event list \<Rightarrow> string" where
  "body_bytes body = concat (map (\<lambda>e. case e of Chunk p n \<Rightarrow> p | ReadError \<Rightarrow> []) body)"

lemma body_simps [simp]:
  "body_bytes [] = []" "body_bytes (Chunk p n # es) = p @ body_bytes es" "body_bytes (ReadError # es) = body_bytes es"
  "valid_body (Chunk p n # es) \<longleftrightarrow> n \<le> length p \<and> valid_body es" "valid_body (ReadError # es) \<longleftrightarrow> valid_body es" "valid_body []"
  by (auto simp: body_bytes_def valid_body_def)

lemma write_reserve_fields:
  assumes "write_reserve p w s = Inr (w', s')"
  shows "w' = w\<lparr>wr_chunk := Some p\<rparr>" "bl_files s' = bl_files s" "bl_blobs s' = bl_blobs s"
  using assms by (auto simp: write_reserve_def reserve_def split: option.splits)

lemma write_done_fields:
  assumes "write_done n w s = (w', s')" "wr_chunk w = Some p"
  shows "w' = w\<lparr>wr_reserved := wr_reserved w + int n, wr_chunk := None\<rparr>" "bl_blobs s' = bl_blobs s"
    "bl_files s' = AList.update (wr_path w) (file_content s (wr_path w) @ take n p) (bl_files s)"
  using assms by (auto simp: write_done_def release_bytes_def Let_def)

lemma copy_body_counted:
  assumes "copy_body es w s = ((r, w'), s')" "counted s (add_mset (wr_owner w, wr_reserved w) c)" "0 \<le> wr_reserved w" "wr_chunk w = None"
    "valid_body es" "claimed c + wr_reserved w + int (length (body_bytes es)) < 2 ^ 63"
  shows "counted s' (add_mset (wr_owner w, wr_reserved w') c) \<and> wr_chunk w' = None \<and> wr_owner w' = wr_owner w"
  using assms
proof (induction es w s rule: copy_body.induct)
  case (3 p n es w s)
  show ?case
  proof (cases "write_reserve p w s")
    case (Inl e)
    then show ?thesis using 3 by auto
  next
    case (Inr ws1)
    obtain w1 s1 where ws1: "ws1 = (w1, s1)" by (cases ws1)
    obtain w2 s2 where d: "write_done n w1 s1 = (w2, s2)" by (cases "write_done n w1 s1")
    note f1 = write_reserve_fields [OF Inr [unfolded ws1]]
    have ch: "wr_chunk w1 = Some p" "wr_reserved w1 = wr_reserved w" "wr_owner w1 = wr_owner w" using f1(1) by simp_all
    have "counted s1 (add_mset (writer_claim w1) c)"
      using counted_reserve(1) [of s w c p w1 s1] 3(3,5,7) Inr ws1 by (simp add: writer_claim_def)
    from counted_written(1) [OF this ch(1) d] have c2: "counted s2 (add_mset (writer_claim w2) c)"
      using 3(4,6) ch(2) by simp
    note f2 = write_done_fields [OF d ch(1)]
    show ?thesis
    proof (cases "n < length p")
      case True
      then show ?thesis using 3(2) Inr ws1 d c2 f2(1) ch by (auto simp: writer_claim_def)
    next
      case False
      then have "copy_body es w2 s2 = ((r, w'), s')" using 3(2) Inr ws1 d by simp
      then show ?thesis using 3(1) [OF Inr ws1 [symmetric] d [symmetric] refl False] c2 3(4,6,7) f2(1) ch False d ws1
        by (auto simp: writer_claim_def)
    qed
  qed
qed auto

lemma copy_body_files:
  assumes "copy_body es w s = ((r, w'), s')"
  shows "wr_path w' = wr_path w \<and> wr_id w' = wr_id w \<and> wr_content_type w' = wr_content_type w \<and> wr_filename w' = wr_filename w \<and>
    bl_blobs s' = bl_blobs s \<and> (\<forall>q. q \<noteq> wr_path w \<longrightarrow> map_of (bl_files s') q = map_of (bl_files s) q)"
  using assms
proof (induction es w s rule: copy_body.induct)
  case (3 p n es w s)
  show ?case
  proof (cases "write_reserve p w s")
    case (Inl e)
    then show ?thesis using 3 by auto
  next
    case (Inr ws1)
    obtain w1 s1 where ws1: "ws1 = (w1, s1)" by (cases ws1)
    obtain w2 s2 where d: "write_done n w1 s1 = (w2, s2)" by (cases "write_done n w1 s1")
    note f1 = write_reserve_fields [OF Inr [unfolded ws1]]
    have ch: "wr_chunk w1 = Some p" using f1(1) by simp
    note f2 = write_done_fields [OF d ch]
    show ?thesis
    proof (cases "n < length p")
      case True
      then show ?thesis using 3(2) Inr ws1 d f1 f2 by (auto simp: update_conv')
    next
      case False
      then have "copy_body es w2 s2 = ((r, w'), s')" using 3(2) Inr ws1 d by simp
      then show ?thesis using 3(1) [OF Inr ws1 [symmetric] d [symmetric] refl False] f1 f2 by (simp add: update_conv' d)
    qed
  qed
qed auto

lemma copy_body_complete:
  assumes "copy_body es w s = ((None, w'), s')" "valid_body es" "map_of (bl_files s) (wr_path w) = Some old"
  shows "map_of (bl_files s') (wr_path w) = Some (old @ body_bytes es) \<and> wr_reserved w' = wr_reserved w + int (length (body_bytes es))"
  using assms
proof (induction es w s arbitrary: old rule: copy_body.induct)
  case (3 p n es w s)
  then obtain w1 s1 where r: "write_reserve p w s = Inr (w1, s1)" by (auto split: sum.splits)
  obtain w2 s2 where d: "write_done n w1 s1 = (w2, s2)" by (cases "write_done n w1 s1")
  have n: "n = length p" "copy_body es w2 s2 = ((None, w'), s')" using 3(2,3) r d by (auto split: if_splits)
  note f1 = write_reserve_fields [OF r]
  have ch: "wr_chunk w1 = Some p" using f1(1) by simp
  note f2 = write_done_fields [OF d ch]
  have "map_of (bl_files s2) (wr_path w2) = Some (old @ p)"
    using f1 f2 3(4) n(1) by (simp add: update_conv' file_content_def)
  then show ?case using 3(1) [OF r refl d [symmetric] refl, of "old @ p"] n 3(3) f1 f2 by simp
qed auto

text \<open>C16: an upload is stored as a whole or not at all. When it succeeds, the blob is served with exactly the bytes of the
  body until it expires and never after, and its size is added to the count; when it fails, for the
  quota, the disk or the client, the index and the counters are as before and its file is gone as
  far as it can be removed. Other blobs and files are not touched in either case.\<close>

theorem put_all_or_nothing:
  assumes "counted s c" "i \<notin> fst ` set (bl_blobs s)" "valid_body body" "claimed c + int (length (body_bytes body)) < 2 ^ 63"
    and "PutOwned ext removable True i now body ct fn owner ttl s = (r, s')"
  shows "(case r of
       Inr (j, n) \<Rightarrow> j = i \<and> n = int (length (body_bytes body)) \<and> bl_used s' = bl_used s + n \<and>
         (\<forall>t. blob_Open t i s' =
            (if t > now + ttl then Inl (BlobNotFound i)
             else Inr (body_bytes body, \<lparr>bi_id = i, bi_content_type = ct, bi_size = n,
               bi_filename = (if fn = [] then file_base (bl_dir s @ ''/'' @ i @ ext ct) else fn), bi_expires_at = now + ttl\<rparr>)))
     | Inl e \<Rightarrow> bl_blobs s' = bl_blobs s \<and> bl_used s' = bl_used s \<and> (\<forall>o'. o' \<noteq> [] \<longrightarrow> used_by s' o' = used_by s o') \<and>
         (removable (bl_dir s @ ''/'' @ i @ ext ct) \<longrightarrow> map_of (bl_files s') (bl_dir s @ ''/'' @ i @ ext ct) = None)) \<and>
    (\<forall>j. j \<noteq> i \<longrightarrow> map_of (bl_blobs s') j = map_of (bl_blobs s) j) \<and>
    (\<forall>q. q \<noteq> bl_dir s @ ''/'' @ i @ ext ct \<longrightarrow> map_of (bl_files s') q = map_of (bl_files s) q)"
proof -
  let ?path = "bl_dir s @ ''/'' @ i @ ext ct"
  obtain w s1 where st: "start_put ext i ct fn owner s = (w, s1)" by (cases "start_put ext i ct fn owner s")
  have w: "wr_id w = i" "wr_path w = ?path" "wr_content_type w = ct" "wr_filename w = fn" "wr_owner w = owner" "wr_reserved w = 0" "wr_chunk w = None"
    and f1: "bl_files s1 = AList.update ?path [] (bl_files s)" "bl_blobs s1 = bl_blobs s"
    using st by (auto simp: start_put_def Let_def)
  obtain e w' s2 where cp: "copy_body body w s1 = ((e, w'), s2)" by (metis surj_pair)
  have "counted s1 (add_mset (wr_owner w, wr_reserved w) c)" using counted_start [OF st] assms(1) w by simp
  from copy_body_counted [OF cp this] have c2: "counted s2 (add_mset (owner, wr_reserved w') c)" "wr_chunk w' = None" "wr_owner w' = owner"
    using w assms(3,4) by simp_all
  note fl = copy_body_files [OF cp]
  have other: "\<forall>q. q \<noteq> ?path \<longrightarrow> map_of (bl_files s2) q = map_of (bl_files s) q" "bl_blobs s2 = bl_blobs s"
    using fl f1 w(2) by (auto simp: update_conv')
  show ?thesis
  proof (cases e)
    case None
    have full: "map_of (bl_files s2) ?path = Some (body_bytes body)" "wr_reserved w' = int (length (body_bytes body))"
      using copy_body_complete [of body w s1 w' s2 "[]"] cp None assms(3) w f1(1) by (simp_all add: update_conv')
    have "bl_used s2 = bl_used s + int (length (body_bytes body))" using c2(1) assms(1) full(2) by (simp add: counted_def)
    moreover have "r = Inr (i, wr_reserved w')" "s' = finish_put now ttl w' s2" using assms(5) st cp None by (auto simp: PutOwned_def)
    ultimately show ?thesis using full fl other w
      by (auto simp: finish_put_def blob_Open_def live_entry_def entry_info_def update_conv' split: if_splits)
  next
    case (Some err)
    then have r: "r = Inl err" "s' = abort_put removable w' s2" using assms(5) st cp by (auto simp: PutOwned_def)
    have "counted s' c" using counted_abort(1) [of s2 w' c removable] c2 r(2) by (simp add: writer_claim_def)
    then show ?thesis using assms(1) r other fl w(2)
      by (auto simp: counted_def abort_put_def remove_file_def release_bytes_def delete_conv')
  qed
qed

section \<open>Handles\<close>

definition blob_id_ok :: "string \<Rightarrow> bool" where
  "blob_id_ok i \<longleftrightarrow> i \<noteq> [] \<and> list_all (\<lambda>c. c \<notin> set ''/?#%'' \<and> c \<noteq> CHR 0x5C) i"

lemma has_prefix_append [simp]: "has_prefix (p @ s) p" "trim_prefix (p @ s) p = s"
  by (simp_all add: has_prefix_def trim_prefix_def)

lemma index_of_hash: "CHR ''#'' \<notin> set i \<Longrightarrow> index_of (i @ CHR ''#'' # f) ''#'' = Some (length i)"
  by (induction i) (auto simp: has_prefix_def)

lemma index_of_no_hash: "CHR ''#'' \<notin> set i \<Longrightarrow> index_of i ''#'' = None"
  by (induction i) (auto simp: has_prefix_def)

lemma blob_id_ok_facts: "blob_id_ok i \<Longrightarrow> CHR ''#'' \<notin> set i \<and> i \<noteq> [] \<and> \<not> list_ex (\<lambda>c. c \<in> set ''/?#%'' \<or> c = CHR 0x5C) i"
  by (auto simp: blob_id_ok_def list_all_iff list_ex_iff)

lemma ParseHandle_plain: "blob_id_ok i \<Longrightarrow> ParseHandle (Handle i) = Some (Inr (i, []))"
  using blob_id_ok_facts [of i] by (simp add: ParseHandle_def Handle_def index_of_no_hash blob_fragments_def)

lemma ParseHandle_fragment:
  assumes "blob_id_ok i"
  shows "ParseHandle (Handle i @ ''#'' @ f) = (if f \<in> set blob_fragments then Some (Inr (i, f)) else Some (Inl (UnknownFragment f)))"
  using blob_id_ok_facts [OF assms] by (simp add: ParseHandle_def Handle_def index_of_hash)

text \<open>The check ahead of an upload adds in 64 bits: with anything stored, a size near the largest \<open>int64\<close> passes it.\<close>

lemma CheckQuota_wraps:
  assumes "0 < bl_used s" "bl_used s < 2 ^ 63" "0 < MaxTotalBytes (bl_quota s)" "MaxBytesPerUser (bl_quota s) = 0"
  shows "CheckQuota owner (2 ^ 63 - 1) s = None"
proof -
  have "bl_used s + (2 ^ 63 - 1) + 2 ^ 63 = (bl_used s - 1) + 2 ^ 64" by simp
  then have "(bl_used s + (2 ^ 63 - 1) + 2 ^ 63) mod 2 ^ 64 = (bl_used s - 1) mod 2 ^ 64" by (simp only: mod_add_self2)
  also have "\<dots> = bl_used s - 1" using assms(1,2) by (intro mod_pos_pos_trivial) simp_all
  finally have "(bl_used s + (2 ^ 63 - 1) + 2 ^ 63) mod 2 ^ 64 = bl_used s - 1" .
  then have "wrap64 (bl_used s + (2 ^ 63 - 1)) < 0" using assms(1,2) by (simp only: wrap64_def)
  then show ?thesis using assms by (simp add: CheckQuota_def fitsLocked_def Let_def)
qed

text \<open>A file that was uploaded can be opened through the handle of the answer, with its bytes, until the expiry of the
  answer, which is at most the longest lifetime away.\<close>

lemma uploaded_file_readable:
  assumes "counted s c" "i \<notin> fst ` set (bl_blobs s)" "blob_id_ok i" "valid_body (up_body part)" "claimed c + int (length (body_bytes (up_body part))) < 2 ^ 63"
    and "HandleUpload fr ext removable True i now later meth cl (Form (Some part) v) limits owner s = (Inr res, s')"
    and "ul_default_ttl limits \<le> ul_max_ttl limits"
  shows "\<exists>j. ParseHandle (ur_handle res) = Some (Inr (j, [])) \<and> ur_expires res \<le> now + ul_max_ttl limits \<and>
    (\<forall>t \<le> ur_expires res. \<exists>info. blob_Open t j s' = Inr (body_bytes (up_body part), info))"
proof -
  from assms(6) obtain d ct j n where d: "upload_ttl fr limits v = Some d" and p: "PutOwned ext removable True i now (up_body part) ct (up_filename part) owner d s = (Inr (j, n), s')"
    and st: "\<exists>info. blob_Stat later j s' = Inr info \<and> ur_expires res = bi_expires_at info" and hd: "ur_handle res = Handle j"
    by (fastforce simp: HandleUpload_def Let_def split: if_splits option.splits sum.splits prod.splits)
  note r = put_all_or_nothing [OF assms(1,2,4,5) p]
  have j: "j = i" using r by simp
  have open_t: "blob_Open t i s' = (if t > now + d then Inl (BlobNotFound i)
      else Inr (body_bytes (up_body part), \<lparr>bi_id = i, bi_content_type = ct, bi_size = n,
        bi_filename = (if up_filename part = [] then file_base (bl_dir s @ ''/'' @ i @ ext ct) else up_filename part), bi_expires_at = now + d\<rparr>))" for t
    using r by simp
  have "ur_expires res = now + d"
    using st open_t [of later] j by (auto simp: blob_Stat_def blob_Open_def split: option.splits if_splits)
  moreover have "d \<le> ul_max_ttl limits" using d assms(7) by (auto simp: upload_ttl_def split: if_splits option.splits)
  ultimately show ?thesis using open_t ParseHandle_plain [OF assms(3)] hd j by auto
qed

section \<open>Examples\<close>

definition demo_blobs :: blob_store where
  "demo_blobs =
     \<lparr>bl_dir = ''/data'', bl_base_url = ''http://h'', bl_blobs = [], bl_quota = \<lparr>MaxTotalBytes = 5, MaxBytesPerUser = 4\<rparr>,
      bl_used = 0, bl_used_by = [], bl_files = []\<rparr>"

definition demo_writer :: blob_writer where
  "demo_writer = \<lparr>wr_id = ''a1'', wr_path = ''/data/a1.bin'', wr_content_type = [], wr_filename = [], wr_owner = ''ann'', wr_reserved = 0, wr_chunk = None\<rparr>"

theorem quota_enforced_witness:
  "\<exists>s ws. (blob_step (\<lambda>_. ''.bin''))\<^sup>*\<^sup>* (demo_blobs, []) (s, ws) \<and> length ws = 1 \<and> bl_used s = 3 \<and> used_by s ''ann'' \<le> 4"
proof -
  let ?ext = "\<lambda>_::string. ''.bin''"
  let ?new = "demo_blobs\<lparr>bl_quota := \<lparr>MaxTotalBytes = 0, MaxBytesPerUser = 0\<rparr>\<rparr>"
  have "NewStore (\<lambda>_. True) True ''/data'' ''http://h'' [] = Inr ?new" by (simp add: NewStore_def removeLeftovers_def demo_blobs_def)
  from blob_reach.Quota [OF blob_reach.New [OF this], of ?ext "\<lparr>MaxTotalBytes = 5, MaxBytesPerUser = 4\<rparr>"]
  have reach: "blob_reach ?ext (demo_blobs, [])" by (simp add: SetQuota_def demo_blobs_def)
  let ?s1 = "demo_blobs\<lparr>bl_files := [(''/data/a1.bin'', [])]\<rparr>"
  have s1: "blob_step ?ext (demo_blobs, []) (?s1, [demo_writer])"
    by (rule blob_step.Start [where i = "''a1''" and ct = "[]" and fn = "[]" and owner = "''ann''"])
       (simp_all add: demo_blobs_def demo_writer_def start_put_def Let_def)
  let ?w = "demo_writer\<lparr>wr_chunk := Some ''xyz''\<rparr>" and ?s2 = "?s1\<lparr>bl_used := 3, bl_used_by := [(''ann'', 3)]\<rparr>"
  have "write_reserve ''xyz'' demo_writer ?s1 = Inr (?w, ?s2)" by code_simp
  then have s2: "blob_step ?ext (?s1, [demo_writer]) (?s2, ?w # remove1 demo_writer [demo_writer])"
    by (intro blob_step.Reserved [where p = "''xyz''"])
       (simp_all add: demo_writer_def demo_blobs_def claims_def claimed_def writer_claim_def)
  have run: "(blob_step ?ext)\<^sup>*\<^sup>* (demo_blobs, []) (?s2, [?w])" using s1 s2 by simp
  have "within_quota (fst (demo_blobs, []))" by (simp add: within_quota_def demo_blobs_def used_by_def)
  from quota_enforced [OF reach run this] have "used_by ?s2 ''ann'' \<le> 4"
    by (elim conjE) (simp add: demo_blobs_def)
  then show ?thesis using run by (intro exI [of _ ?s2] exI [of _ "[?w]"]) simp
qed

theorem put_all_or_nothing_witness:
  "(\<exists>s'. PutOwned (\<lambda>_. ''.bin'') (\<lambda>_. True) True ''a1'' 100 [Chunk ''ab'' 2, Chunk ''c'' 1] [] [] ''ann'' 60 demo_blobs = (Inr (''a1'', 3), s') \<and>
     (\<exists>info. blob_Open 160 ''a1'' s' = Inr (''abc'', info))) \<and>
   (\<exists>s'. PutOwned (\<lambda>_. ''.bin'') (\<lambda>_. True) True ''a1'' 100 [Chunk ''ab'' 2, Chunk ''cde'' 3] [] [] ''ann'' 60 demo_blobs = (Inl (QuotaUser 4 0), s') \<and>
     bl_used s' = 0)"
proof -
  have c: "counted demo_blobs {#}" by (simp add: counted_def demo_blobs_def claimed_def claimed_by_def used_by_def)
  have fresh: "''a1'' \<notin> fst ` set (bl_blobs demo_blobs)" by (simp add: demo_blobs_def)
  let ?p = "\<lambda>b. PutOwned (\<lambda>_. ''.bin'') (\<lambda>_. True) True ''a1'' 100 b [] [] ''ann'' 60 demo_blobs"
  let ?b1 = "[Chunk ''ab'' 2, Chunk ''c'' 1]" and ?b2 = "[Chunk ''ab'' 2, Chunk ''cde'' 3]"
  have r: "fst (?p ?b1) = Inr (''a1'', 3)" "fst (?p ?b2) = Inl (QuotaUser 4 0)" by code_simp+
  obtain s1 where p1: "?p ?b1 = (Inr (''a1'', 3), s1)" using r(1) by (metis prod.collapse)
  obtain s2 where p2: "?p ?b2 = (Inl (QuotaUser 4 0), s2)" using r(2) by (metis prod.collapse)
  have l: "claimed {#} + int (length (body_bytes ?b1)) < 2 ^ 63" "claimed {#} + int (length (body_bytes ?b2)) < 2 ^ 63" by (simp_all add: claimed_def)
  have v: "valid_body ?b1" "valid_body ?b2" by simp_all
  have "\<exists>info. blob_Open 160 ''a1'' s1 = Inr (''abc'', info)"
    using put_all_or_nothing [OF c fresh v(1) l(1) p1] by simp
  moreover have "bl_used s2 = 0" using put_all_or_nothing [OF c fresh v(2) l(2) p2] by (simp add: demo_blobs_def)
  ultimately show ?thesis using p1 p2 by blast
qed

end
