(* ===== verification/RestErrors.thy ===== *)
theory RestErrors
  imports Executor JsonPath BlobStore
begin

text \<open>
  Errors and retries of REST calls (\<open>internal/dadl/errors.go\<close>, \<open>idempotency.go\<close>): the semantic code of a response, which
  responses are retried, the retry loop and its delays, and which tools may be retried at all. A Go
  error is a value of \<open>rest_error\<close>; \<open>fmt.Sprintf("%v")\<close> of a decoded value and JSON decoding are parameters.
\<close>

section \<open>API errors\<close>

record api_error =
  er_code :: string
  er_status :: int
  er_message :: string
  er_provider :: string

definition api_error_text :: "api_error \<Rightarrow> string" where
  "api_error_text e =
     ''['' @ er_code e @ ''] HTTP '' @ itoa_int (er_status e) @ '': '' @ er_message e @
     (if er_provider e \<noteq> [] then '' (provider_code='' @ er_provider e @ '')'' else [])"

text \<open>The errors a call can end in: an API error, a rejected parameter list (which unwraps to an API error), any other error,
  and an error wrapped with \<open>%w\<close> behind a prefix.\<close>

datatype rest_error = ErrApi api_error | ErrParam string | ErrText string | ErrWrap string rest_error

fun error_text :: "rest_error \<Rightarrow> string" where
  "error_text (ErrApi e) = api_error_text e"
| "error_text (ErrParam s) = s"
| "error_text (ErrText s) = s"
| "error_text (ErrWrap p e) = p @ '': '' @ error_text e"

text \<open>\<open>errors.As\<close> to an API error.\<close>

fun as_api_error :: "rest_error \<Rightarrow> api_error option" where
  "as_api_error (ErrApi e) = Some e"
| "as_api_error (ErrParam s) = Some \<lparr>er_code = ''invalid_input'', er_status = 400, er_message = s, er_provider = []\<rparr>"
| "as_api_error (ErrText s) = None"
| "as_api_error (ErrWrap p e) = as_api_error e"

definition DefaultSemanticCode :: "int \<Rightarrow> string" where
  "DefaultSemanticCode status =
     (if status = 400 \<or> status = 422 then ''invalid_input''
      else if status = 401 then ''unauthorized''
      else if status = 403 then ''forbidden''
      else if status = 404 \<or> status = 410 then ''not_found''
      else if status = 409 then ''conflict''
      else if status = 408 then ''timeout''
      else if status = 429 then ''rate_limited''
      else if status = 500 then ''internal''
      else if status = 502 \<or> status = 503 \<or> status = 504 then ''unavailable''
      else if 400 \<le> status \<and> status < 500 then ''client_error''
      else if 500 \<le> status \<and> status < 600 then ''server_error''
      else ''unexpected_status'')"

record retry_strategy =
  ry_max_retries :: int
  ry_backoff :: string
  ry_initial_delay :: string

record error_config =
  ec_message_path :: string
  ec_code_path :: string
  ec_retry_on :: "int list"
  ec_terminal :: "int list"
  ec_retry_strategy :: "retry_strategy option"
  ec_map :: "(int \<times> string) list"

definition semanticCode :: "error_config \<Rightarrow> int \<Rightarrow> string" where
  "semanticCode cfg status = (case map_of (ec_map cfg) status of Some c \<Rightarrow> c | None \<Rightarrow> DefaultSemanticCode status)"

definition maxErrorMessageLen :: nat where "maxErrorMessageLen = 1024"

definition truncateMessage :: "string \<Rightarrow> string" where
  "truncateMessage s = (if length s > maxErrorMessageLen then take maxErrorMessageLen s @ ''... (truncated)'' else s)"

definition extractPathValue :: "(string \<Rightarrow> json option) \<Rightarrow> string \<Rightarrow> string \<Rightarrow> json option" where
  "extractPathValue unmarshal body path =
     (case NewJSONPath path of
        Inl _ \<Rightarrow> None
      | Inr jp \<Rightarrow> (case unmarshal body of None \<Rightarrow> None | Some d \<Rightarrow> (case Extract jp d of Inl _ \<Rightarrow> None | Inr v \<Rightarrow> Some v)))"

definition extractMessage :: "(string \<Rightarrow> json option) \<Rightarrow> (json \<Rightarrow> string) \<Rightarrow> error_config \<Rightarrow> string \<Rightarrow> string" where
  "extractMessage unmarshal fmt_v cfg body =
     (if body = [] \<or> ec_message_path cfg = [] then ''(no message)''
      else case extractPathValue unmarshal body (ec_message_path cfg) of
          None \<Rightarrow> truncateMessage body
        | Some v \<Rightarrow> truncateMessage (fmt_v v))"

definition extractProviderCode :: "(string \<Rightarrow> json option) \<Rightarrow> (json \<Rightarrow> string) \<Rightarrow> error_config \<Rightarrow> string \<Rightarrow> string" where
  "extractProviderCode unmarshal fmt_v cfg body =
     (if body = [] \<or> ec_code_path cfg = [] then []
      else case extractPathValue unmarshal body (ec_code_path cfg) of
          None \<Rightarrow> []
        | Some v \<Rightarrow> if v = JNull then [] else truncateMessage (fmt_v v))"

definition CheckResponse :: "(string \<Rightarrow> json option) \<Rightarrow> (json \<Rightarrow> string) \<Rightarrow> error_config \<Rightarrow> int \<Rightarrow> string \<Rightarrow> api_error option \<times> bool" where
  "CheckResponse unmarshal fmt_v cfg status body =
     (if 200 \<le> status \<and> status < 300 then (None, False)
      else (let e = \<lparr>er_code = semanticCode cfg status, er_status = status, er_message = extractMessage unmarshal fmt_v cfg body,
                     er_provider = extractProviderCode unmarshal fmt_v cfg body\<rparr>
            in if status \<in> set (ec_retry_on cfg) then (Some e, True)
               else if status \<in> set (ec_terminal cfg) then (Some e, False)
               else (Some e, 500 \<le> status \<or> status < 400)))"

section \<open>Retries\<close>

text \<open>\<open>time.Duration(math.Pow(2, k))\<close>: exact below \<open>2^63\<close>; what the conversion of a larger float gives is up to the platform.\<close>

definition float_pow2 :: "(nat \<Rightarrow> int) \<Rightarrow> nat \<Rightarrow> int" where
  "float_pow2 over k = (if k < 63 then 2 ^ k else over k)"

definition calcDelay :: "(nat \<Rightarrow> int) \<Rightarrow> retry_strategy \<Rightarrow> nat \<Rightarrow> duration \<Rightarrow> duration" where
  "calcDelay over r attempt initial =
     (if ry_backoff r = ''linear'' then wrap64 (initial * int attempt)
      else if ry_backoff r = ''fixed'' then initial
      else wrap64 (initial * float_pow2 over (attempt - 1)))"

definition parseDelayOrDefault :: "(nat \<Rightarrow> nat \<Rightarrow> nat \<Rightarrow> nat) \<Rightarrow> string \<Rightarrow> duration \<Rightarrow> duration" where
  "parseDelayOrDefault fr s fallback = (if s = [] then fallback else case ParseDuration fr s of None \<Rightarrow> fallback | Some d \<Rightarrow> d)"

definition max_retries :: "retry_strategy \<Rightarrow> nat" where
  "max_retries r = (if ry_max_retries r \<le> 0 then 3 else nat (ry_max_retries r))"

text \<open>The loop of \<open>Retryer.Do\<close> from one attempt on; \<open>left\<close> attempts may follow. \<open>wait\<close> sleeps for a delay, or answers with the
  error of a context that ended; the loop has an error to report whenever it comes to its end.\<close>

fun retry_from :: "(nat \<Rightarrow> int) \<Rightarrow> retry_strategy \<Rightarrow> duration \<Rightarrow> (duration \<Rightarrow> 's \<Rightarrow> string option \<times> 's) \<Rightarrow>
    ('s \<Rightarrow> (rest_error, 'r) result \<times> 's) \<Rightarrow> nat \<Rightarrow> nat \<Rightarrow> rest_error \<Rightarrow> 's \<Rightarrow> (rest_error, 'r) result \<times> 's" where
  "retry_from over r initial wait fn attempt 0 lastErr s =
     (Inl (ErrWrap (''max retries ('' @ itoa_int (int (max_retries r)) @ '') exceeded'') lastErr), s)"
| "retry_from over r initial wait fn attempt (Suc left) lastErr s =
     (let (cancelled, s1) = (if attempt = 0 then (None, s) else wait (calcDelay over r attempt initial) s)
      in case cancelled of
           Some e \<Rightarrow> (Inl (ErrText e), s1)
         | None \<Rightarrow>
             (case fn s1 of
                (Inr x, s2) \<Rightarrow> (Inr x, s2)
              | (Inl e, s2) \<Rightarrow> retry_from over r initial wait fn (Suc attempt) left e s2))"

definition retry_Do :: "(nat \<Rightarrow> int) \<Rightarrow> (nat \<Rightarrow> nat \<Rightarrow> nat \<Rightarrow> nat) \<Rightarrow> retry_strategy \<Rightarrow> (duration \<Rightarrow> 's \<Rightarrow> string option \<times> 's) \<Rightarrow>
    ('s \<Rightarrow> (rest_error, 'r) result \<times> 's) \<Rightarrow> 's \<Rightarrow> (rest_error, 'r) result \<times> 's" where
  "retry_Do over fr r wait fn s =
     retry_from over r (parseDelayOrDefault fr (ry_initial_delay r) 1000000000) wait fn 0 (Suc (max_retries r)) (ErrText []) s"

section \<open>Retry safety\<close>

record idempotency_config =
  ip_header :: string
  ip_generate :: string

definition generateUUIDv4 :: string where "generateUUIDv4 = ''uuid_v4''"

text \<open>\<open>uuid\<close> draws a fresh key.\<close>

definition NewIdempotencyKey :: "(rune \<Rightarrow> bool) \<Rightarrow> ('w \<Rightarrow> string \<times> 'w) \<Rightarrow> idempotency_config \<Rightarrow> 'w \<Rightarrow> (string, string) result \<times> 'w" where
  "NewIdempotencyKey printable uuid cfg w =
     (if ip_generate cfg \<in> {[], generateUUIDv4} then (let (k, w') = uuid w in (Inr k, w'))
      else (Inl (''unknown idempotency generator '' @ quote printable (ip_generate cfg)), w))"

definition MethodSafeToRetry :: "case_tables \<Rightarrow> string \<Rightarrow> bool" where
  "MethodSafeToRetry tables meth \<longleftrightarrow> to_upper tables meth \<in> {''GET'', ''HEAD'', ''PUT'', ''DELETE''}"

section \<open>Facts\<close>

lemma CheckResponse_None: "fst (CheckResponse unmarshal fmt_v cfg status body) = None \<longleftrightarrow> 200 \<le> status \<and> status < 300"
  by (simp add: CheckResponse_def Let_def)

lemma DefaultSemanticCode_nonempty: "DefaultSemanticCode status \<noteq> []"
  by (simp add: DefaultSemanticCode_def)

text \<open>The message passed on is bounded.\<close>

lemma truncateMessage_length: "length (truncateMessage s) \<le> maxErrorMessageLen + 15"
  by (simp add: truncateMessage_def)

text \<open>Without overflow the exponential delays double from the initial one.\<close>

lemma calcDelay_exponential:
  assumes "ry_backoff r = ''exponential''" "0 < attempt" "0 \<le> initial" "initial * 2 ^ (attempt - 1) < 2 ^ 63" "0 < initial"
  shows "calcDelay over r attempt initial = initial * 2 ^ (attempt - 1)"
proof -
  have "attempt - 1 < 63"
  proof (rule ccontr)
    assume "\<not> attempt - 1 < 63"
    then have "(2::int) ^ 63 \<le> 2 ^ (attempt - 1)" by (intro power_increasing) auto
    also have "\<dots> \<le> initial * 2 ^ (attempt - 1)" using assms(5) by (simp add: mult_le_cancel_right1)
    finally show False using assms(4) by linarith
  qed
  moreover have "wrap64 (initial * 2 ^ (attempt - 1)) = initial * 2 ^ (attempt - 1)"
    using assms(3,4) by (intro wrap64_id) (auto intro: order_trans [of _ 0])
  ultimately show ?thesis using assms(1) by (simp add: calcDelay_def float_pow2_def)
qed

text \<open>The number of calls of the function in a run of the loop, read off a log that every call extends by one entry and the
  wait leaves alone.\<close>

lemma retry_from_log:
  assumes "\<And>s. log (snd (fn s)) = log s @ [x s]" "\<And>d s. log (snd (wait d s)) = log s"
  shows "\<exists>xs. log (snd (retry_from over r initial wait fn attempt left lastErr s)) = log s @ xs \<and> length xs \<le> left"
proof (induction left arbitrary: attempt lastErr s)
  case (Suc left)
  obtain c s1 where c: "(if attempt = 0 then (None, s) else wait (calcDelay over r attempt initial) s) = (c, s1)" by (metis surj_pair)
  then have l1: "log s1 = log s" using assms(2) [of "calcDelay over r attempt initial" s] by (auto split: if_splits)
  obtain y s2 where y: "fn s1 = (y, s2)" by (cases "fn s1")
  then have l2: "log s2 = log s @ [x s1]" using assms(1) [of s1] l1 by simp
  show ?case
  proof (cases c)
    case None
    show ?thesis
    proof (cases y)
      case (Inl e)
      obtain xs where "log (snd (retry_from over r initial wait fn (Suc attempt) left e s2)) = log s2 @ xs" "length xs \<le> left" using Suc.IH by blast
      then show ?thesis using c None y Inl l2 by (simp add: Let_def)
    next
      case (Inr v)
      then show ?thesis using c None y l2 by (simp add: Let_def)
    qed
  next
    case (Some e)
    then show ?thesis using c l1 by (simp add: Let_def)
  qed
qed simp

end
