(* ===== verification/ParamCheck.thy ===== *)
theory ParamCheck
  imports ToolRefs RestErrors
begin

text \<open>
  The check of a call's arguments against the declared parameters of a tool (\<open>internal/dadl/paramcheck.go\<close>). Maps are
  association lists with distinct keys.
\<close>

section \<open>The check\<close>

record param_def =
  pd_type :: string
  pd_in :: string
  pd_required :: bool
  pd_default :: "json option"

definition maxDeclaredParamsListed :: nat where "maxDeclaredParamsListed = 40"

record param_error =
  pe_tool :: string
  pe_unknown :: "string list"
  pe_missing :: "string list"
  pe_suggestions :: "(string \<times> string) list"
  pe_declared :: "string list"

definition paramSupplied :: "string \<Rightarrow> param_def \<Rightarrow> (string \<times> json) list \<Rightarrow> bool" where
  "paramSupplied name def params =
     (pd_default def \<noteq> None \<or> (case map_of params name of None \<Rightarrow> False | Some v \<Rightarrow> v \<noteq> JNull \<or> pd_in def = ''body''))"

definition describe_param :: "string \<times> param_def \<Rightarrow> string" where
  "describe_param = (\<lambda>(name, def).
     let attrs = (if pd_type def \<noteq> [] then [pd_type def] else []) @ (if pd_in def \<noteq> [] then [''in: '' @ pd_in def] else []) @
                 (if pd_required def \<or> pd_in def = ''path'' then [''required''] else [])
     in if attrs = [] then name else name @ '' ('' @ join attrs '', '' @ '')'')"

definition describeParams :: "(string \<times> param_def) list \<Rightarrow> string list \<Rightarrow> string list" where
  "describeParams declared names = map (\<lambda>n. describe_param (n, the (map_of declared n))) names"

section \<open>Suggestions\<close>

definition normalizeParamName :: "case_tables \<Rightarrow> string \<Rightarrow> string" where
  "normalizeParamName tables name =
     of_runes (filter (\<lambda>r. r \<notin> {95, 45, 46, 32}) (runes (to_lower tables name)))"

definition editDistance :: "string \<Rightarrow> string \<Rightarrow> nat" where
  "editDistance a b =
     (if a = b then 0
      else let ra = runes a; rb = runes b
           in if ra = [] then length rb else if rb = [] then length ra
              else lev_rows ra rb 1 [0..<Suc (length rb)] ! length rb)"

definition abs_diff :: "nat \<Rightarrow> nat \<Rightarrow> nat" where
  "abs_diff a b = (if a < b then b - a else a - b)"

text \<open>The first pass: an equal name ends it, else the containing or contained name whose length differs least, the first of
  equals; the empty name stands for none, as in the code.\<close>

fun contained_best :: "case_tables \<Rightarrow> string \<Rightarrow> string list \<Rightarrow> string \<times> nat \<Rightarrow> string" where
  "contained_best tables target [] (best, diff) = best"
| "contained_best tables target (name # names) (best, diff) =
     (let candidate = normalizeParamName tables name
      in if candidate = target then name
         else if contains candidate target \<or> contains target candidate
         then (let d = abs_diff (length candidate) (length target)
               in contained_best tables target names (if best = [] \<or> d < diff then (name, d) else (best, diff)))
         else contained_best tables target names (best, diff))"

fun nearest :: "case_tables \<Rightarrow> string \<Rightarrow> nat \<Rightarrow> string list \<Rightarrow> string \<times> nat \<Rightarrow> string" where
  "nearest tables target budget [] (best, dist) = best"
| "nearest tables target budget (name # names) (best, dist) =
     (let d = editDistance target (normalizeParamName tables name)
      in nearest tables target budget names (if d \<le> budget \<and> d < dist then (name, d) else (best, dist)))"

definition suggestParam :: "case_tables \<Rightarrow> string \<Rightarrow> string list \<Rightarrow> string" where
  "suggestParam tables unknown declared =
     (let target = normalizeParamName tables unknown
      in if target = [] then []
         else let c = contained_best tables target declared ([], 0)
              in if c \<noteq> [] then c
                 else let budget = max 1 (length target div 3) in nearest tables target budget declared ([], budget + 1))"

section \<open>Rejections\<close>

definition ValidateParams :: "case_tables \<Rightarrow> string \<Rightarrow> (string \<times> param_def) list \<Rightarrow> (string \<times> json) list \<Rightarrow> param_error option" where
  "ValidateParams tables toolName declared params =
     (let unknown = filter (\<lambda>n. map_of declared n = None) (map fst params);
          missing = map fst (filter (\<lambda>(n, def). (pd_required def \<or> pd_in def = ''path'') \<and> \<not> paramSupplied n def params) declared)
      in if unknown = [] \<and> missing = [] then None
         else let names = sort (map fst declared); u = sort unknown
              in Some \<lparr>pe_tool = toolName, pe_unknown = u, pe_missing = sort missing,
                       pe_suggestions = filter (\<lambda>(n, s). s \<noteq> []) (map (\<lambda>n. (n, suggestParam tables n names)) u),
                       pe_declared = describeParams declared names\<rparr>)"

definition param_error_text :: "(rune \<Rightarrow> bool) \<Rightarrow> param_error \<Rightarrow> string" where
  "param_error_text printable e =
     (let parts = map (\<lambda>n. ''unknown parameter '' @ quote printable n @
                         (case map_of (pe_suggestions e) n of None \<Rightarrow> [] | Some s \<Rightarrow> '' (did you mean '' @ quote printable s @ ''?)'')) (pe_unknown e)
                  @ map (\<lambda>n. ''missing required parameter '' @ quote printable n) (pe_missing e);
          msg = ''tool '' @ quote printable (pe_tool e) @ '': '' @ join parts ''; '';
          n = length (pe_declared e)
      in if pe_declared e = [] then msg @ ''; this tool declares no parameters''
         else msg @ ''; declared parameters: '' @ join (take maxDeclaredParamsListed (pe_declared e)) '', '' @
              (if n > maxDeclaredParamsListed then '' and '' @ itoa (n - maxDeclaredParamsListed) @ '' more'' else []))"

section \<open>Facts\<close>

text \<open>A call is accepted exactly when every argument is declared and every required parameter, those in the path included,
  has a value or a default.\<close>

lemma ValidateParams_None:
  "ValidateParams tables t declared params = None \<longleftrightarrow>
     (\<forall>n v. (n, v) \<in> set params \<longrightarrow> map_of declared n \<noteq> None) \<and>
     (\<forall>n def. (n, def) \<in> set declared \<longrightarrow> pd_required def \<or> pd_in def = ''path'' \<longrightarrow> paramSupplied n def params)"
proof -
  have u: "filter (\<lambda>n. map_of declared n = None) (map fst params) = [] \<longleftrightarrow> (\<forall>n v. (n, v) \<in> set params \<longrightarrow> map_of declared n \<noteq> None)"
    by (fastforce simp: filter_empty_conv)
  have "filter (\<lambda>(n, def). (pd_required def \<or> pd_in def = ''path'') \<and> \<not> paramSupplied n def params) declared = [] \<longleftrightarrow>
      (\<forall>n def. (n, def) \<in> set declared \<longrightarrow> pd_required def \<or> pd_in def = ''path'' \<longrightarrow> paramSupplied n def params)"
    by (fastforce simp: filter_empty_conv)
  then show ?thesis using u by (simp add: ValidateParams_def Let_def)
qed

text \<open>A rejection names every fault, and suggests only declared names.\<close>

lemma ValidateParams_Some:
  assumes "ValidateParams tables t declared params = Some e"
  shows "set (pe_unknown e) = {n \<in> fst ` set params. map_of declared n = None}"
    "set (pe_missing e) = {n. \<exists>def. (n, def) \<in> set declared \<and> (pd_required def \<or> pd_in def = ''path'') \<and> \<not> paramSupplied n def params}"
  using assms by (force simp: ValidateParams_def Let_def split: if_splits)+

lemma contained_best_declared: "contained_best tables target names (b, d) \<in> insert b (set names)"
  by (induction names arbitrary: b d) (fastforce simp: Let_def)+

lemma nearest_declared: "nearest tables target budget names (b, d) \<in> insert b (set names)"
  by (induction names arbitrary: b d) (fastforce simp: Let_def)+

lemma suggestParam_declared: "suggestParam tables unknown declared \<noteq> [] \<Longrightarrow> suggestParam tables unknown declared \<in> set declared"
  using contained_best_declared [of tables "normalizeParamName tables unknown" declared "[]" 0]
    nearest_declared [of tables "normalizeParamName tables unknown" _ declared "[]"]
  by (fastforce simp: suggestParam_def Let_def split: if_splits)

text \<open>The distance of the code is the least number of edits between the letters of two names.\<close>

lemma editDistance_edits: "align (runes a) (runes b) (editDistance a b) \<and> (\<forall>n. align (runes a) (runes b) n \<longrightarrow> editDistance a b \<le> n)"
proof -
  have "editDistance a b = lev (runes a) (runes b)"
    by (auto simp: editDistance_def Let_def lev_rows_lev lev_self simp del: upt_Suc One_nat_def)
  then show ?thesis by (simp add: align_lev lev_least)
qed

end
