(* ===== verification/RestPages.thy ===== *)
theory RestPages
  imports RestErrors
begin

text \<open>
  Pagination of REST calls (\<open>internal/dadl/pagination.go\<close>): the query parameters of the next page from the response of the
  last one. Query parameters are an association list; \<open>header\<close> reads a response header (\<open>http.Header.Get\<close>).
\<close>

record pagination_config =
  pg_strategy :: string
  pg_cursor_param :: string
  pg_limit_param :: string
  pg_limit_default :: int
  pg_offset_param :: string
  pg_page_param :: string
  pg_next_cursor :: string
  pg_has_more :: string
  pg_total_pages_header :: string
  pg_behavior :: string
  pg_max_pages :: int

text \<open>The value of \<open>strconv.Atoi\<close> when its error is dropped: on a syntax error 0, out of range the nearest \<open>int\<close>.\<close>

definition atoi_value :: "string \<Rightarrow> int" where
  "atoi_value s =
     (let neg = (s \<noteq> [] \<and> hd s = CHR ''-''); ds = (if s \<noteq> [] \<and> hd s \<in> {CHR ''-'', CHR ''+''} then tl s else s);
          v = (if neg then - digits_value ds else digits_value ds)
      in if ds = [] \<or> \<not> list_all is_digit ds then 0 else max (- (2 ^ 63)) (min (2 ^ 63 - 1) v))"

definition nextCursor :: "(string \<Rightarrow> json option) \<Rightarrow> (json \<Rightarrow> string) \<Rightarrow> pagination_config \<Rightarrow> string \<Rightarrow> (string \<times> string) list \<Rightarrow> (string \<times> string) list option" where
  "nextCursor unmarshal fmt_v cfg body current =
     (case unmarshal body of
        None \<Rightarrow> None
      | Some d \<Rightarrow>
          if pg_has_more cfg \<noteq> [] \<and> (case NewJSONPath (pg_has_more cfg) of Inl _ \<Rightarrow> False | Inr jp \<Rightarrow> Extract jp d = Inr (JBool False)) then None
          else if pg_next_cursor cfg = [] then None
          else (case NewJSONPath (pg_next_cursor cfg) of
                  Inl _ \<Rightarrow> None
                | Inr jp \<Rightarrow>
                    (case Extract jp d of
                       Inl _ \<Rightarrow> None
                     | Inr v \<Rightarrow>
                         let cursor = fmt_v v
                         in if cursor = [] \<or> cursor = ''<nil>'' then None
                            else Some (AList.update (pg_cursor_param cfg) cursor current))))"

definition nextOffset :: "(string \<Rightarrow> json option) \<Rightarrow> pagination_config \<Rightarrow> string \<Rightarrow> (string \<times> string) list \<Rightarrow> (string \<times> string) list option" where
  "nextOffset unmarshal cfg body current =
     (let offset = (case map_of current (pg_offset_param cfg) of None \<Rightarrow> 0 | Some v \<Rightarrow> atoi_value v);
          default = (if pg_limit_default cfg = 0 then 50 else pg_limit_default cfg);
          limit = (case map_of current (pg_limit_param cfg) of None \<Rightarrow> default | Some v \<Rightarrow> (case atoi v of None \<Rightarrow> default | Some n \<Rightarrow> n))
      in case unmarshal body of
           None \<Rightarrow> None
         | Some d \<Rightarrow>
             if (case d of JArr xs \<Rightarrow> int (length xs) < limit | _ \<Rightarrow> False) then None
             else (let next = AList.update (pg_offset_param cfg) (itoa_int (wrap64 (offset + limit))) current
                   in Some (if pg_limit_param cfg \<noteq> [] then AList.update (pg_limit_param cfg) (itoa_int limit) next else next)))"

definition nextPage :: "(string \<Rightarrow> string) \<Rightarrow> pagination_config \<Rightarrow> (string \<times> string) list \<Rightarrow> (string \<times> string) list option" where
  "nextPage header cfg current =
     (let page = (case map_of current (pg_page_param cfg) of None \<Rightarrow> 1 | Some v \<Rightarrow> atoi_value v);
          total = (if pg_total_pages_header cfg = [] then [] else header (pg_total_pages_header cfg))
      in if total \<noteq> [] \<and> (case atoi total of None \<Rightarrow> False | Some t \<Rightarrow> page \<ge> t) then None
         else Some (AList.update (pg_page_param cfg) (itoa_int (wrap64 (page + 1))) current))"

fun link_target :: "string list \<Rightarrow> (string \<times> string) list option" where
  "link_target [] = None"
| "link_target (p # ps) =
     (let part = trim_space p
      in if \<not> contains part (''rel='' @ [CHR 0x22] @ ''next'' @ [CHR 0x22]) then link_target ps
         else case (index_of part ''<'', index_of part ''>'') of
             (Some i, Some j) \<Rightarrow> if i < j then Some [(''_url'', take (j - Suc i) (drop (Suc i) part))] else link_target ps
           | _ \<Rightarrow> link_target ps)"

definition nextLinkHeader :: "(string \<Rightarrow> string) \<Rightarrow> (string \<times> string) list option" where
  "nextLinkHeader header = (let link = header ''Link'' in if link = [] then None else link_target (split_char (CHR '','') link))"

definition NextPageParams :: "(string \<Rightarrow> json option) \<Rightarrow> (json \<Rightarrow> string) \<Rightarrow> pagination_config \<Rightarrow> int \<Rightarrow> (string \<Rightarrow> string) \<Rightarrow> string \<Rightarrow>
    (string \<times> string) list \<Rightarrow> (string \<times> string) list option" where
  "NextPageParams unmarshal fmt_v cfg status header body current =
     (if status < 200 \<or> 300 \<le> status then None
      else if pg_strategy cfg = ''cursor'' then nextCursor unmarshal fmt_v cfg body current
      else if pg_strategy cfg = ''offset'' then nextOffset unmarshal cfg body current
      else if pg_strategy cfg = ''page'' then nextPage header cfg current
      else if pg_strategy cfg = ''link_header'' then nextLinkHeader header
      else None)"

end
