(* ===== verification/RestCall.thy ===== *)
theory RestCall
  imports ParamCheck RestPages
begin

text \<open>
  One call of a REST tool (\<open>internal/backend/restadapter.go\<close>, \<open>blobhandle.go\<close>): the check of the arguments, blob handles,
  the request with its idempotency key, retries, re-authentication, pagination, transformation and
  redaction. What lies outside is a field of the adapter: building a request, sending it, drawing a
  key, logging in again, sleeping, JSON and jq, composites and binary responses. The state is theirs
  together with the list of the requests that were sent, each with the status it was answered with.
\<close>

section \<open>Data\<close>

type_synonym args = "(string \<times> json) list"

record response_config =
  rp_type :: string
  rp_result_path :: string
  rp_transform :: string
  rp_redact :: "string list"
  rp_binary :: bool
  rp_streaming :: bool
  rp_stream_handling :: string

record rest_tool =
  rt_method :: string
  rt_params :: "(string \<times> param_def) list"
  rt_response :: "response_config option"
  rt_pagination_none :: bool
  rt_errors :: "error_config option"
  rt_idempotency :: "idempotency_config option"
  rt_retry_unsafe :: bool

text \<open>A response with the bytes its body holds, or the error that ended reading them.\<close>

record http_response =
  hr_status :: int
  hr_header :: "string \<Rightarrow> string"
  hr_body :: "(string, string) result"

record ('w, 'q) rest_adapter =
  ra_name :: string
  ra_tables :: case_tables
  ra_printable :: "rune \<Rightarrow> bool"
  ra_include :: "string list option"
  ra_synthetic_health :: bool
  ra_tools :: "(string \<times> rest_tool) list"
  ra_composites :: "(string \<times> (string \<times> param_def) list) list"
  ra_default_errors :: "error_config option"
  ra_default_response :: "response_config option"
  ra_default_pagination :: "pagination_config option"
  ra_file_broker :: bool
  ra_build :: "rest_tool \<Rightarrow> args \<Rightarrow> 'w \<Rightarrow> (string, 'q) result \<times> 'w"
  ra_send :: "'q \<Rightarrow> (string \<times> string) option \<Rightarrow> 'w \<Rightarrow> (string, http_response) result \<times> 'w"
  ra_uuid :: "'w \<Rightarrow> string \<times> 'w"
  ra_reauth :: "'w \<Rightarrow> bool \<times> 'w"
  ra_wait :: "duration \<Rightarrow> 'w \<Rightarrow> string option \<times> 'w"
  ra_blobs :: "'w \<Rightarrow> (blob_store \<times> time) option"
  ra_os_error :: "string \<Rightarrow> string"
  ra_base64 :: "string \<Rightarrow> string"
  ra_unmarshal :: "string \<Rightarrow> json option"
  ra_marshal :: "json \<Rightarrow> string"
  ra_marshal_raw :: "json list \<Rightarrow> string"
  ra_format :: "json \<Rightarrow> string"
  ra_scalar :: "json \<Rightarrow> string"
  ra_jq :: "string \<Rightarrow> string \<Rightarrow> (string, string) result"
  ra_result_text :: "result_error \<Rightarrow> string"
  ra_overflow :: "nat \<Rightarrow> int"
  ra_fraction :: "nat \<Rightarrow> nat \<Rightarrow> nat \<Rightarrow> nat"
  ra_health_tool :: "args \<Rightarrow> 'w \<Rightarrow> (string, tool_result) result \<times> 'w"
  ra_composite :: "string \<Rightarrow> args \<Rightarrow> 'w \<Rightarrow> (string, tool_result) result \<times> 'w"
  ra_stream :: "rest_tool \<Rightarrow> args \<Rightarrow> 'w \<Rightarrow> (string, tool_result) result \<times> 'w"
  ra_binary :: "http_response \<Rightarrow> string \<Rightarrow> response_config \<Rightarrow> 'w \<Rightarrow> (string, tool_result) result \<times> 'w"

record sent_request =
  sr_args :: args
  sr_key :: string
  sr_status :: "int option"

record 'w rest_state =
  rs_world :: 'w
  rs_sent :: "sent_request list"

definition in_world :: "('w \<Rightarrow> 'a \<times> 'w) \<Rightarrow> 'w rest_state \<Rightarrow> 'a \<times> 'w rest_state" where
  "in_world f st = (let (x, w) = f (rs_world st) in (x, st\<lparr>rs_world := w\<rparr>))"

definition CanAutoRetry :: "case_tables \<Rightarrow> rest_tool \<Rightarrow> bool" where
  "CanAutoRetry tables tool \<longleftrightarrow> MethodSafeToRetry tables (rt_method tool) \<or> rt_idempotency tool \<noteq> None \<or> rt_retry_unsafe tool"

section \<open>Effective settings\<close>

definition included :: "('w, 'q) rest_adapter \<Rightarrow> string \<Rightarrow> bool" where
  "included a name = (case ra_include a of None \<Rightarrow> True | Some ns \<Rightarrow> name \<in> set ns)"

definition effectiveErrorConfig :: "('w, 'q) rest_adapter \<Rightarrow> rest_tool \<Rightarrow> error_config option" where
  "effectiveErrorConfig a tool = (case rt_errors tool of None \<Rightarrow> ra_default_errors a | Some c \<Rightarrow> Some c)"

definition effectivePaginationConfig :: "('w, 'q) rest_adapter \<Rightarrow> rest_tool \<Rightarrow> pagination_config option" where
  "effectivePaginationConfig a tool = (if rt_pagination_none tool then None else ra_default_pagination a)"

definition effectiveResponseConfig :: "('w, 'q) rest_adapter \<Rightarrow> rest_tool \<Rightarrow> response_config option" where
  "effectiveResponseConfig a tool = (case rt_response tool of None \<Rightarrow> ra_default_response a | Some c \<Rightarrow> Some c)"

fun add_unseen :: "string list \<Rightarrow> string list \<Rightarrow> string list" where
  "add_unseen paths [] = paths"
| "add_unseen paths (p # ps) = add_unseen (if p \<in> set paths then paths else paths @ [p]) ps"

definition effectiveRedactPaths :: "('w, 'q) rest_adapter \<Rightarrow> rest_tool \<Rightarrow> string list" where
  "effectiveRedactPaths a tool =
     (let redact = (\<lambda>rc. case rc of None \<Rightarrow> [] | Some c \<Rightarrow> rp_redact c)
      in add_unseen (add_unseen [] (redact (ra_default_response a))) (redact (rt_response tool)))"

definition isBinaryResponse :: "response_config option \<Rightarrow> bool" where
  "isBinaryResponse rc = (case rc of None \<Rightarrow> False | Some c \<Rightarrow> rp_binary c \<or> rp_type c = ''file_url'')"

section \<open>Results\<close>

definition textContent :: "string \<Rightarrow> json" where
  "textContent t = JObj [(''type'', JStr ''text''), (''text'', JStr t)]"

definition error_result :: "string \<Rightarrow> tool_result" where
  "error_result t = \<lparr>tr_content = Some [textContent t], tr_is_error = True, tr_metadata = None\<rparr>"

definition apiErrorResult :: "rest_error \<Rightarrow> tool_result" where
  "apiErrorResult err =
     (error_result (''Error: '' @ error_text err))\<lparr>tr_metadata :=
        map_option (\<lambda>e. [(''error_code'', JStr (er_code e)), (''statusCode'', JNum (itoa_int (er_status e))), (''error_message'', JStr (er_message e))] @
                        (if er_provider e \<noteq> [] then [(''provider_code'', JStr (er_provider e))] else [])) (as_api_error err)\<rparr>"

definition em_dash :: string where "em_dash = [CHR '' '', CHR 0xE2, CHR 0x80, CHR 0x94, CHR '' '']"

definition apiErrorResultNote :: "rest_error \<Rightarrow> string \<Rightarrow> tool_result" where
  "apiErrorResultNote err note =
     (apiErrorResult err)\<lparr>tr_content := Some [textContent (''Error: '' @ error_text err @ em_dash @ note)]\<rparr>"

definition retry_suppressed :: string where
  "retry_suppressed = ''automatic retry suppressed: non-idempotent write without idempotency or retry_unsafe (DADL spec 8)''"

section \<open>Blob handles\<close>

definition maxResponseBytes :: int where "maxResponseBytes = 10 * 1024 * 1024"
definition maxStreamingBytes :: int where "maxStreamingBytes = 100 * 1024 * 1024"
definition maxInlineBlobBytes :: int where "maxInlineBlobBytes = maxResponseBytes"

text \<open>The texts of the errors of the store; the operating system's own text is a parameter.\<close>

definition blob_error_text :: "(rune \<Rightarrow> bool) \<Rightarrow> (string \<Rightarrow> string) \<Rightarrow> string \<Rightarrow> blob_error \<Rightarrow> string" where
  "blob_error_text printable os_error i e =
     (case e of NoFile _ \<Rightarrow> ''open blob '' @ quote printable i @ '': '' @ os_error i
      | _ \<Rightarrow> ''blob '' @ quote printable i @ '' not found or expired'')"

definition materializeBlobHandle :: "(rune \<Rightarrow> bool) \<Rightarrow> (string \<Rightarrow> string) \<Rightarrow> (string \<Rightarrow> string) \<Rightarrow> (blob_store \<times> time) option \<Rightarrow> string \<Rightarrow> (string, string) result" where
  "materializeBlobHandle printable os_error base64 blobs handle =
     (let q = quote printable handle
      in case ParseHandle handle of
           Some (Inl InvalidBlobID) \<Rightarrow> Inl (''malformed blob handle '' @ q @ '': invalid blob ID'')
         | Some (Inl (UnknownFragment f)) \<Rightarrow>
             Inl (''malformed blob handle '' @ q @ '': unknown fragment '' @ quote printable f @ '' (use #base64, #dataurl, or #url)'')
         | None \<Rightarrow> Inl (''blob handle '' @ q @ '' needs an explicit format fragment in this position'' @ em_dash @
                         ''append #base64, #dataurl, or #url (bare handles are only valid in file_url parameters)'')
         | Some (Inr (i, fragment)) \<Rightarrow>
             if fragment = [] then
               Inl (''blob handle '' @ q @ '' needs an explicit format fragment in this position'' @ em_dash @
                    ''append #base64, #dataurl, or #url (bare handles are only valid in file_url parameters)'')
             else (case blobs of
                     None \<Rightarrow> Inl (''blob handle '' @ q @ '': this server has no file broker configured'')
                   | Some (s, now) \<Rightarrow>
                       if fragment = ''url''
                       then (case blob_Stat now i s of Inl e \<Rightarrow> Inl (blob_error_text printable os_error i e) | Inr _ \<Rightarrow> Inr (blob_URL i s))
                       else (case blob_Open now i s of
                               Inl e \<Rightarrow> Inl (blob_error_text printable os_error i e)
                             | Inr (data, info) \<Rightarrow>
                                 if bi_size info > maxInlineBlobBytes
                                 then Inl (''blob '' @ quote printable i @ '' is '' @ itoa_int (bi_size info) @ '' bytes'' @ em_dash @ ''too large for inline #'' @
                                      fragment @ '' substitution (limit '' @ itoa_int maxInlineBlobBytes @ ''); use #url instead'')
                                 else if fragment = ''base64'' then Inr (base64 data)
                                 else Inr (''data:'' @ bi_content_type info @ '';base64,'' @ base64 data))))"

fun map_result :: "('a \<Rightarrow> ('e, 'b) result) \<Rightarrow> 'a list \<Rightarrow> ('e, 'b list) result" where
  "map_result f [] = Inr []"
| "map_result f (x # xs) = bind_res (f x) (\<lambda>y. bind_res (map_result f xs) (\<lambda>ys. Inr (y # ys)))"

lemma map_result_cong [fundef_cong]:
  "xs = ys \<Longrightarrow> (\<And>x. x \<in> set ys \<Longrightarrow> f x = g x) \<Longrightarrow> map_result f xs = map_result g ys"
proof (induction ys arbitrary: xs)
  case (Cons y ys)
  then show ?case by (auto intro!: arg_cong2 [where f = bind_res] ext)
qed simp

fun substituteBlobValue :: "(string \<Rightarrow> (string, string) result) \<Rightarrow> json \<Rightarrow> (string, json) result" where
  "substituteBlobValue mat (JStr s) = (if IsHandle s then bind_res (mat s) (\<lambda>t. Inr (JStr t)) else Inr (JStr s))"
| "substituteBlobValue mat (JObj m) =
     bind_res (map_result (\<lambda>kv. bind_res (substituteBlobValue mat (snd kv)) (\<lambda>v. Inr (fst kv, v))) m) (\<lambda>m'. Inr (JObj m'))"
| "substituteBlobValue mat (JArr xs) = bind_res (map_result (substituteBlobValue mat) xs) (\<lambda>ys. Inr (JArr ys))"
| "substituteBlobValue mat JNull = Inr JNull"
| "substituteBlobValue mat (JBool b) = Inr (JBool b)"
| "substituteBlobValue mat (JNum n) = Inr (JNum n)"

definition substituteBlobHandles :: "(string \<Rightarrow> (string, string) result) \<Rightarrow> (string \<times> param_def) list \<Rightarrow> args \<Rightarrow> (string \<times> string, args) result" where
  "substituteBlobHandles mat declared params =
     map_result (\<lambda>(name, v).
        if (case map_of declared name of None \<Rightarrow> False | Some def \<Rightarrow> pd_type def = ''file_url'') then Inr (name, v)
        else (case substituteBlobValue mat v of Inl e \<Rightarrow> Inl (name, e) | Inr v' \<Rightarrow> Inr (name, v'))) params"

section \<open>Requests\<close>

text \<open>\<open>doRequest\<close>: the response and its body, cut at the limit of the tool.\<close>

definition doRequest :: "('w, 'q) rest_adapter \<Rightarrow> rest_tool \<Rightarrow> args \<Rightarrow> string \<Rightarrow> 'w rest_state \<Rightarrow> (string, http_response \<times> string) result \<times> 'w rest_state" where
  "doRequest a tool params idemKey st =
     (case in_world (ra_build a tool params) st of
        (Inl e, st1) \<Rightarrow> (Inl e, st1)
      | (Inr q, st1) \<Rightarrow>
          (let header = (case rt_idempotency tool of None \<Rightarrow> None | Some c \<Rightarrow> if idemKey \<noteq> [] then Some (ip_header c, idemKey) else None);
               (r, st') = in_world (ra_send a q header) st1;
               st2 = st'\<lparr>rs_sent := rs_sent st' @ [\<lparr>sr_args = params, sr_key = idemKey, sr_status = (case r of Inl _ \<Rightarrow> None | Inr resp \<Rightarrow> Some (hr_status resp))\<rparr>]\<rparr>;
               binary = isBinaryResponse (effectiveResponseConfig a tool);
               limit = (if binary then maxStreamingBytes else maxResponseBytes)
           in case r of
                Inl e \<Rightarrow> (Inl (''http request: '' @ e), st2)
              | Inr resp \<Rightarrow>
                  (case hr_body resp of
                     Inl e \<Rightarrow> (Inl (''read response: '' @ e), st2)
                   | Inr body \<Rightarrow>
                       if int (length body) \<le> limit then (Inr (resp, body), st2)
                       else if binary then (Inl (''binary response exceeds the '' @ itoa_int limit @ '' byte limit'' @ em_dash @ ''enable response.streaming to pipe it to the file broker''), st2)
                       else (Inr (resp, take (nat limit) body), st2))))"

section \<open>Retries and logging in again\<close>

definition check_response :: "('w, 'q) rest_adapter \<Rightarrow> error_config \<Rightarrow> http_response \<Rightarrow> string \<Rightarrow> api_error option \<times> bool" where
  "check_response a cfg resp body = CheckResponse (ra_unmarshal a) (ra_format a) cfg (hr_status resp) body"

text \<open>The function the retryer calls: a response that is an error for good ends the retries without the new body.\<close>

definition attempt_request :: "('w, 'q) rest_adapter \<Rightarrow> error_config \<Rightarrow> rest_tool \<Rightarrow> args \<Rightarrow> string \<Rightarrow> 'w rest_state \<Rightarrow>
    (rest_error, http_response \<times> string option) result \<times> 'w rest_state" where
  "attempt_request a cfg tool params idemKey st =
     (case doRequest a tool params idemKey st of
        (Inl e, st1) \<Rightarrow> (Inl (ErrText e), st1)
      | (Inr (r, b), st1) \<Rightarrow>
          (case check_response a cfg r b of
             (Some e, True) \<Rightarrow> (Inl (ErrApi e), st1)
           | (Some e, False) \<Rightarrow> (Inr (r, None), st1)
           | (None, _) \<Rightarrow> (Inr (r, Some b), st1)))"

definition retry_request :: "('w, 'q) rest_adapter \<Rightarrow> error_config \<Rightarrow> retry_strategy \<Rightarrow> rest_tool \<Rightarrow> args \<Rightarrow> string \<Rightarrow> 'w rest_state \<Rightarrow>
    (rest_error, http_response \<times> string option) result \<times> 'w rest_state" where
  "retry_request a cfg strategy tool params idemKey st =
     retry_Do (ra_overflow a) (ra_fraction a) strategy (\<lambda>d. in_world (ra_wait a d)) (attempt_request a cfg tool params idemKey) st"

text \<open>The check after the retries, with one more request when the session could be renewed.\<close>

definition recheck :: "('w, 'q) rest_adapter \<Rightarrow> error_config \<Rightarrow> rest_tool \<Rightarrow> args \<Rightarrow> string \<Rightarrow> http_response \<Rightarrow> string \<Rightarrow> 'w rest_state \<Rightarrow>
    (tool_result, http_response \<times> string) result \<times> 'w rest_state" where
  "recheck a cfg tool params idemKey resp body st =
     (case fst (check_response a cfg resp body) of
        None \<Rightarrow> (Inr (resp, body), st)
      | Some e \<Rightarrow>
          if hr_status resp \<noteq> 401 then (Inl (apiErrorResult (ErrApi e)), st)
          else (case in_world (ra_reauth a) st of
                  (False, st1) \<Rightarrow> (Inl (apiErrorResult (ErrApi e)), st1)
                | (True, st1) \<Rightarrow>
                    (case doRequest a tool params idemKey st1 of
                       (Inl err, st2) \<Rightarrow> (Inl (error_result (''Error after re-auth: '' @ err)), st2)
                     | (Inr (r, b), st2) \<Rightarrow>
                         (case fst (check_response a cfg r b) of
                            None \<Rightarrow> (Inr (r, b), st2)
                          | Some e2 \<Rightarrow> (Inl (apiErrorResult (ErrApi e2)), st2)))))"

definition handle_errors :: "('w, 'q) rest_adapter \<Rightarrow> rest_tool \<Rightarrow> args \<Rightarrow> string \<Rightarrow> http_response \<Rightarrow> string \<Rightarrow> 'w rest_state \<Rightarrow>
    (tool_result, http_response \<times> string) result \<times> 'w rest_state" where
  "handle_errors a tool params idemKey resp body st =
     (case effectiveErrorConfig a tool of
        None \<Rightarrow>
          if 400 \<le> hr_status resp
          then (let code = DefaultSemanticCode (hr_status resp)
                in (Inl \<lparr>tr_content = Some [textContent (''['' @ code @ ''] HTTP '' @ itoa_int (hr_status resp) @ '': '' @ body)], tr_is_error = True,
                         tr_metadata = Some [(''error_code'', JStr code), (''statusCode'', JNum (itoa_int (hr_status resp)))]\<rparr>, st))
          else (Inr (resp, body), st)
      | Some cfg \<Rightarrow>
          (case check_response a cfg resp body of
             (None, _) \<Rightarrow> (Inr (resp, body), st)
           | (Some e, retryable) \<Rightarrow>
               if retryable \<and> \<not> CanAutoRetry (ra_tables a) tool then (Inl (apiErrorResultNote (ErrApi e) retry_suppressed), st)
               else (case (if retryable then ec_retry_strategy cfg else None) of
                       None \<Rightarrow> recheck a cfg tool params idemKey resp body st
                     | Some strategy \<Rightarrow>
                         (case retry_request a cfg strategy tool params idemKey st of
                            (Inl err, st1) \<Rightarrow> (Inl (apiErrorResult err), st1)
                          | (Inr (r, b), st1) \<Rightarrow> recheck a cfg tool params idemKey r (case b of None \<Rightarrow> body | Some b' \<Rightarrow> b') st1))))"

section \<open>Pages\<close>

definition page_items :: "('w, 'q) rest_adapter \<Rightarrow> string \<Rightarrow> json list option" where
  "page_items a body = (case ra_unmarshal a body of Some (JArr xs) \<Rightarrow> Some xs | Some JNull \<Rightarrow> Some [] | _ \<Rightarrow> None)"

text \<open>A slice nothing was appended to is nil and encoded as null.\<close>

definition marshallResults :: "('w, 'q) rest_adapter \<Rightarrow> json list \<Rightarrow> string" where
  "marshallResults a items = (if items = [] then ''null'' else ra_marshal_raw a items)"

definition next_args :: "args \<Rightarrow> (string \<times> string) list \<Rightarrow> args" where
  "next_args params nextParams = fold (\<lambda>(k, v) ps. if k = ''_url'' then ps else AList.update k (JStr v) ps) nextParams params"

definition page_key :: "('w, 'q) rest_adapter \<Rightarrow> rest_tool \<Rightarrow> 'w rest_state \<Rightarrow> (string, string) result \<times> 'w rest_state" where
  "page_key a tool st =
     (case rt_idempotency tool of
        None \<Rightarrow> (Inr [], st)
      | Some c \<Rightarrow> in_world (NewIdempotencyKey (ra_printable a) (ra_uuid a) c) st)"

fun more_pages :: "('w, 'q) rest_adapter \<Rightarrow> rest_tool \<Rightarrow> args \<Rightarrow> pagination_config \<Rightarrow> nat \<Rightarrow> http_response \<Rightarrow> string \<Rightarrow> (string \<times> string) list \<Rightarrow>
    json list \<Rightarrow> 'w rest_state \<Rightarrow> json list \<times> 'w rest_state" where
  "more_pages a tool params cfg 0 resp body current items st = (items, st)"
| "more_pages a tool params cfg (Suc left) resp body current items st =
     (case NextPageParams (ra_unmarshal a) (ra_format a) cfg (hr_status resp) (hr_header resp) body current of
        None \<Rightarrow> (items, st)
      | Some nextParams \<Rightarrow>
          (case page_key a tool st of
             (Inl _, st1) \<Rightarrow> (items, st1)
           | (Inr key, st1) \<Rightarrow>
               (case doRequest a tool (next_args params nextParams) key st1 of
                  (Inl _, st2) \<Rightarrow> (items, st2)
                | (Inr (r, b), st2) \<Rightarrow>
                    if 400 \<le> hr_status r then (items, st2)
                    else (case page_items a b of
                            None \<Rightarrow> (items, st2)
                          | Some xs \<Rightarrow> more_pages a tool params cfg left r b nextParams (items @ xs) st2))))"

definition max_pages :: "pagination_config \<Rightarrow> nat" where
  "max_pages cfg = (let n = (if pg_max_pages cfg = 0 then 20 else pg_max_pages cfg) in nat (min 50 n))"

definition paginateResults :: "('w, 'q) rest_adapter \<Rightarrow> rest_tool \<Rightarrow> args \<Rightarrow> http_response \<Rightarrow> string \<Rightarrow> pagination_config \<Rightarrow> 'w rest_state \<Rightarrow>
    string \<times> 'w rest_state" where
  "paginateResults a tool params resp body cfg st =
     (let current = map (\<lambda>(n, v). (n, ra_scalar a v)) (filter (\<lambda>(n, v). map_option pd_in (map_of (rt_params tool) n) = Some ''query'') params)
      in case page_items a body of
           None \<Rightarrow> (body, st)
         | Some items \<Rightarrow>
             (let (all, st1) = more_pages a tool params cfg (max_pages cfg - 1) resp body current items st in (marshallResults a all, st1)))"

section \<open>The call\<close>

definition transformResponse :: "('w, 'q) rest_adapter \<Rightarrow> rest_tool \<Rightarrow> string \<Rightarrow> (string, string) result \<times> string" where
  "transformResponse a tool body =
     (case effectiveResponseConfig a tool of
        None \<Rightarrow> (Inr body, body)
      | Some rc \<Rightarrow>
          (case (if rp_result_path rc = [] then Inr body else ExtractResult (ra_unmarshal a) (ra_marshal a) body (rp_result_path rc)) of
             Inl e \<Rightarrow> (Inl (''extract result_path: '' @ ra_result_text a e), body)
           | Inr b1 \<Rightarrow>
               (case (if rp_transform rc = [] then Inr b1 else ra_jq a b1 (rp_transform rc)) of
                  Inl e \<Rightarrow> (Inl (''apply transform: '' @ e), b1)
                | Inr b2 \<Rightarrow> (Inr b2, b2))))"

definition rest_result :: "('w, 'q) rest_adapter \<Rightarrow> int \<Rightarrow> string \<Rightarrow> tool_result" where
  "rest_result a status body =
     \<lparr>tr_content = Some [textContent body], tr_is_error = False,
      tr_metadata = Some [(''backend'', JStr (ra_name a)), (''transport'', JStr ''rest''), (''statusCode'', JNum (itoa_int status))]\<rparr>"

text \<open>Transformation, then redaction; with paths to redact, an error of either refuses the output.\<close>

definition finish_body :: "('w, 'q) rest_adapter \<Rightarrow> rest_tool \<Rightarrow> int \<Rightarrow> string \<Rightarrow> tool_result" where
  "finish_body a tool status body =
     (let (t, plain) = transformResponse a tool body; paths = effectiveRedactPaths a tool
      in if paths = [] then rest_result a status plain
         else case t of
             Inl e \<Rightarrow> error_result (''Error: response transformation failed on a tool with response.redact; refusing unredacted output: '' @ e)
           | Inr b \<Rightarrow>
               (case RedactResult (ra_unmarshal a) (ra_marshal a) b paths of
                  Inl e \<Rightarrow> error_result (''Error: response redaction failed: '' @ ra_result_text a e)
                | Inr red \<Rightarrow> rest_result a status red))"

definition call_tool :: "('w, 'q) rest_adapter \<Rightarrow> string \<Rightarrow> rest_tool \<Rightarrow> args \<Rightarrow> 'w rest_state \<Rightarrow> (string, tool_result) result \<times> 'w rest_state" where
  "call_tool a toolName tool params st =
     (let failed = (\<lambda>e. ''execute REST tool '' @ quote (ra_printable a) toolName @ '': '' @ e)
      in case page_key a tool st of
           (Inl e, st1) \<Rightarrow> (Inl (failed e), st1)
         | (Inr idemKey, st1) \<Rightarrow>
             (case doRequest a tool params idemKey st1 of
                (Inl e, st2) \<Rightarrow> (Inl (failed e), st2)
              | (Inr (resp, body), st2) \<Rightarrow>
                  (case handle_errors a tool params idemKey resp body st2 of
                     (Inl res, st3) \<Rightarrow> (Inr res, st3)
                   | (Inr (r, b), st3) \<Rightarrow>
                       if isBinaryResponse (effectiveResponseConfig a tool)
                       then in_world (ra_binary a r b (the (effectiveResponseConfig a tool))) st3
                       else (let (b4, st4) = (case effectivePaginationConfig a tool of
                                 None \<Rightarrow> (b, st3)
                               | Some cfg \<Rightarrow> if pg_behavior cfg = ''auto'' then paginateResults a tool params r b cfg st3 else (b, st3))
                             in (Inr (finish_body a tool (hr_status r) b4), st4)))))"

definition rest_Execute :: "('w, 'q) rest_adapter \<Rightarrow> string \<Rightarrow> args \<Rightarrow> 'w rest_state \<Rightarrow> (string, tool_result) result \<times> 'w rest_state" where
  "rest_Execute a toolName params st =
     (let not_found = ''tool '' @ quote (ra_printable a) toolName @ '' not found in REST backend '' @ quote (ra_printable a) (ra_name a);
          rejected = (\<lambda>e. apiErrorResult (ErrParam (param_error_text (ra_printable a) e)))
      in if \<not> included a toolName then (Inl not_found, st)
         else if ra_synthetic_health a \<and> toolName = ''health'' then in_world (ra_health_tool a params) st
         else case map_of (ra_composites a) toolName of
             Some declared \<Rightarrow>
               (case ValidateParams (ra_tables a) toolName declared params of
                  Some e \<Rightarrow> (Inr (rejected e), st)
                | None \<Rightarrow> in_world (ra_composite a toolName params) st)
           | None \<Rightarrow>
               (case map_of (ra_tools a) toolName of
                  None \<Rightarrow> (Inl not_found, st)
                | Some tool \<Rightarrow>
                    (case ValidateParams (ra_tables a) toolName (rt_params tool) params of
                       Some e \<Rightarrow> (Inr (rejected e), st)
                     | None \<Rightarrow>
                         (case substituteBlobHandles (materializeBlobHandle (ra_printable a) (ra_os_error a) (ra_base64 a) (ra_blobs a (rs_world st))) (rt_params tool) params of
                            Inl (name, e) \<Rightarrow> (Inr (error_result (''Error: parameter '' @ quote (ra_printable a) name @ '': '' @ e)), st)
                          | Inr params' \<Rightarrow>
                              (case effectiveResponseConfig a tool of
                                 None \<Rightarrow> call_tool a toolName tool params' st
                               | Some rc \<Rightarrow>
                                   if isBinaryResponse (Some rc) \<and> rp_streaming rc \<and> rp_stream_handling rc = ''collect'' \<and> ra_file_broker a
                                   then in_world (ra_stream a tool params') st
                                   else call_tool a toolName tool params' st)))))"

end
