(* ===== verification/RestProps.thy ===== *)
theory RestProps
  imports RestCall
begin

text \<open>
  Properties of a REST call: which requests leave the adapter, how often and with which key, that only
  checked arguments reach the backend, and that redacted values never reach the caller.
\<close>

section \<open>The log of requests\<close>

lemma in_world_sent [simp]: "rs_sent (snd (in_world f st)) = rs_sent st"
  by (simp add: in_world_def split: prod.split)

lemma in_world_sent': "in_world f st = (x, st') \<Longrightarrow> rs_sent st' = rs_sent st"
  using in_world_sent [of f st] by simp

text \<open>What a piece of the call adds to the log.\<close>

definition adds :: "'w rest_state \<Rightarrow> 'w rest_state \<Rightarrow> sent_request list \<Rightarrow> bool" where
  "adds st st' xs \<longleftrightarrow> rs_sent st' = rs_sent st @ xs"

lemma adds_trans: "adds st1 st2 xs \<Longrightarrow> adds st2 st3 ys \<Longrightarrow> adds st1 st3 (xs @ ys)"
  by (simp add: adds_def)

lemma adds_refl [simp]: "adds st st []"
  by (simp add: adds_def)

lemma adds_world: "in_world f st = (x, st') \<Longrightarrow> adds st st' []"
  by (simp add: adds_def in_world_sent')

lemma doRequest_adds:
  assumes "doRequest a tool params key st = (r, st')"
  shows "\<exists>xs. adds st st' xs \<and> length xs \<le> 1 \<and> (\<forall>x \<in> set xs. sr_args x = params \<and> sr_key x = key) \<and>
    (\<forall>resp b. r = Inr (resp, b) \<longrightarrow> map sr_status xs = [Some (hr_status resp)])"
proof (cases "in_world (ra_build a tool params) st")
  case (Pair q st1)
  have b: "rs_sent st1 = rs_sent st" using in_world_sent' [OF Pair] .
  show ?thesis
  proof (cases q)
    case (Inl e)
    then show ?thesis using assms Pair b by (intro exI [of _ "[]"]) (auto simp: doRequest_def adds_def)
  next
    case (Inr req)
    let ?h = "case rt_idempotency tool of None \<Rightarrow> None | Some c \<Rightarrow> if key \<noteq> [] then Some (ip_header c, key) else None"
    obtain x st2 where s: "in_world (ra_send a req ?h) st1 = (x, st2)" by (metis surj_pair)
    have b2: "rs_sent st2 = rs_sent st" using in_world_sent' [OF s] b by simp
    let ?x = "\<lparr>sr_args = params, sr_key = key, sr_status = (case x of Inl _ \<Rightarrow> None | Inr resp \<Rightarrow> Some (hr_status resp))\<rparr>"
    have "adds st st' [?x]" "\<forall>resp b. r = Inr (resp, b) \<longrightarrow> x = Inr resp"
      using assms Pair Inr s b2 by (auto simp: doRequest_def adds_def Let_def split: sum.splits if_splits)
    then show ?thesis by (intro exI [of _ "[?x]"]) auto
  qed
qed

lemma page_key_adds: "page_key a tool st = (k, st') \<Longrightarrow> adds st st' []"
  by (auto simp: page_key_def adds_world split: option.splits)

text \<open>All the requests of one logical call carry its arguments and its key.\<close>

definition same_call :: "args \<Rightarrow> string \<Rightarrow> sent_request list \<Rightarrow> bool" where
  "same_call params key xs \<longleftrightarrow> (\<forall>x \<in> set xs. sr_args x = params \<and> sr_key x = key)"

lemma attempt_adds:
  "\<exists>xs. adds st (snd (attempt_request a cfg tool params key st)) xs \<and> length xs \<le> 1 \<and> same_call params key xs"
proof -
  obtain r st1 where d: "doRequest a tool params key st = (r, st1)" by (metis surj_pair)
  then have "snd (attempt_request a cfg tool params key st) = st1"
    by (auto simp: attempt_request_def split: sum.splits prod.splits option.splits bool.splits)
  then show ?thesis using doRequest_adds [OF d] by (auto simp: same_call_def)
qed

lemma retry_from_adds:
  assumes "retry_from over r initial (\<lambda>d. in_world (ra_wait a d)) (attempt_request a cfg tool params key) attempt left lastErr st = (y, st')"
  shows "\<exists>xs. adds st st' xs \<and> length xs \<le> left \<and> same_call params key xs"
  using assms
proof (induction left arbitrary: attempt lastErr st)
  case 0
  then show ?case by (intro exI [of _ "[]"]) (auto simp: same_call_def)
next
  case (Suc left)
  obtain c st1 where c: "(if attempt = 0 then (None, st) else in_world (ra_wait a (calcDelay over r attempt initial)) st) = (c, st1)" by (metis surj_pair)
  then have w: "adds st st1 []" by (auto simp: adds_world split: if_splits)
  show ?case
  proof (cases c)
    case (Some e)
    then show ?thesis using Suc.prems c w by (intro exI [of _ "[]"]) (auto simp: same_call_def)
  next
    case None
    obtain z st2 where z: "attempt_request a cfg tool params key st1 = (z, st2)" by (metis surj_pair)
    obtain xs where xs: "adds st1 st2 xs" "length xs \<le> 1" "same_call params key xs" using attempt_adds [of st1 a cfg tool params key] z by auto
    show ?thesis
    proof (cases z)
      case (Inr v)
      then have "st' = st2" using Suc.prems c None z by simp
      then show ?thesis using xs adds_trans [OF w xs(1)] by (intro exI [of _ xs]) auto
    next
      case (Inl e)
      then have "retry_from over r initial (\<lambda>d. in_world (ra_wait a d)) (attempt_request a cfg tool params key) (Suc attempt) left e st2 = (y, st')"
        using Suc.prems c None z by simp
      from Suc.IH [OF this] obtain ys where ys: "adds st2 st' ys" "length ys \<le> left" "same_call params key ys" by blast
      have "adds st st' (xs @ ys)" using adds_trans [OF adds_trans [OF w xs(1)] ys(1)] by simp
      then show ?thesis using xs ys by (intro exI [of _ "xs @ ys"]) (auto simp: same_call_def)
    qed
  qed
qed

lemma recheck_adds:
  assumes "recheck a cfg tool params key resp body st = (y, st')"
  shows "\<exists>xs. adds st st' xs \<and> length xs \<le> 1 \<and> same_call params key xs \<and> (xs \<noteq> [] \<longrightarrow> hr_status resp = 401)"
proof (cases "fst (check_response a cfg resp body) = None \<or> hr_status resp \<noteq> 401")
  case True
  then show ?thesis using assms by (intro exI [of _ "[]"]) (auto simp: recheck_def same_call_def split: option.splits)
next
  case False
  then obtain e where e: "fst (check_response a cfg resp body) = Some e" "hr_status resp = 401" by auto
  obtain ok st1 where r: "in_world (ra_reauth a) st = (ok, st1)" by (metis surj_pair)
  obtain z st2 where d: "doRequest a tool params key st1 = (z, st2)" by (metis surj_pair)
  obtain xs where xs: "adds st1 st2 xs" "length xs \<le> 1" "same_call params key xs" using doRequest_adds [OF d] by (auto simp: same_call_def)
  have "st' = (if ok then st2 else st1)"
    using assms e r d by (auto simp: recheck_def split: bool.splits sum.splits prod.splits option.splits)
  then show ?thesis using adds_trans [OF adds_world [OF r] xs(1)] adds_world [OF r] xs(2,3) e(2)
    by (cases ok) (auto simp: same_call_def)
qed

definition retry_budget :: "('w, 'q) rest_adapter \<Rightarrow> rest_tool \<Rightarrow> nat" where
  "retry_budget a tool =
     (case effectiveErrorConfig a tool of
        None \<Rightarrow> 0 | Some cfg \<Rightarrow> (case ec_retry_strategy cfg of None \<Rightarrow> 0 | Some r \<Rightarrow> Suc (max_retries r)))"

lemma handle_errors_adds:
  assumes "handle_errors a tool params key resp body st = (y, st')"
  shows "\<exists>xs. adds st st' xs \<and> length xs \<le> Suc (retry_budget a tool) \<and> same_call params key xs \<and>
    (\<not> CanAutoRetry (ra_tables a) tool \<and> xs \<noteq> [] \<longrightarrow> length xs = 1 \<and> hr_status resp = 401)"
proof (cases "effectiveErrorConfig a tool")
  case None
  then show ?thesis using assms by (intro exI [of _ "[]"]) (auto simp: handle_errors_def same_call_def Let_def split: if_splits)
next
  case (Some cfg)
  obtain e retryable where c: "check_response a cfg resp body = (e, retryable)" by (metis surj_pair)
  consider (ok) "e = None" | (stop) x where "e = Some x" "retryable" "\<not> CanAutoRetry (ra_tables a) tool"
    | (direct) x where "e = Some x" "\<not> (retryable \<and> \<not> CanAutoRetry (ra_tables a) tool)" "(if retryable then ec_retry_strategy cfg else None) = None"
    | (again) x r where "e = Some x" "CanAutoRetry (ra_tables a) tool" "retryable" "ec_retry_strategy cfg = Some r"
    by (cases e; cases retryable; cases "ec_retry_strategy cfg"; auto)
  then show ?thesis
  proof cases
    case ok
    then show ?thesis using assms Some c by (intro exI [of _ "[]"]) (auto simp: handle_errors_def same_call_def)
  next
    case stop
    then show ?thesis using assms Some c by (intro exI [of _ "[]"]) (auto simp: handle_errors_def same_call_def)
  next
    case direct
    then have "recheck a cfg tool params key resp body st = (y, st')" using assms Some c by (auto simp: handle_errors_def split: if_splits)
    from recheck_adds [OF this] obtain xs where xs: "adds st st' xs" "length xs \<le> 1" "same_call params key xs" "xs \<noteq> [] \<longrightarrow> hr_status resp = 401" by blast
    moreover have "xs \<noteq> [] \<longrightarrow> length xs = 1" using xs(2) by (cases xs) auto
    ultimately show ?thesis by (intro exI [of _ xs]) auto
  next
    case again
    obtain z st1 where z: "retry_request a cfg r tool params key st = (z, st1)" by (metis surj_pair)
    then obtain xs where xs: "adds st st1 xs" "length xs \<le> Suc (max_retries r)" "same_call params key xs"
      using retry_from_adds unfolding retry_request_def retry_Do_def by blast
    have budget: "retry_budget a tool = Suc (max_retries r)" using Some again by (simp add: retry_budget_def)
    show ?thesis
    proof (cases z)
      case (Inl err)
      then have "st' = st1" using assms Some c again z by (simp add: handle_errors_def)
      then show ?thesis using xs again budget by (intro exI [of _ xs]) auto
    next
      case (Inr rb)
      obtain r' b where rb: "rb = (r', b)" by (cases rb)
      have "recheck a cfg tool params key r' (case b of None \<Rightarrow> body | Some b' \<Rightarrow> b') st1 = (y, st')"
        using assms Some c again z Inr rb by (simp add: handle_errors_def)
      from recheck_adds [OF this] obtain ys where ys: "adds st1 st' ys" "length ys \<le> 1" "same_call params key ys" by blast
      have "adds st st' (xs @ ys)" by (rule adds_trans [OF xs(1) ys(1)])
      then show ?thesis using xs ys again budget by (intro exI [of _ "xs @ ys"]) (auto simp: same_call_def)
    qed
  qed
qed

text \<open>The address of a link header is not used: the request for the next page is the one for the first.\<close>

lemma link_target_url: "link_target ps = Some nx \<Longrightarrow> \<exists>u. nx = [(''_url'', u)]"
  by (induction ps) (auto simp: Let_def split: if_splits option.splits)

lemma link_next_args:
  assumes "pg_strategy cfg = ''link_header''" "NextPageParams un fv cfg status header body current = Some nx"
  shows "next_args params nx = params"
proof -
  have "nextLinkHeader header = Some nx" using assms by (simp add: NextPageParams_def split: if_splits)
  then obtain u where "nx = [(''_url'', u)]" using link_target_url by (auto simp: nextLinkHeader_def Let_def split: if_splits)
  then show ?thesis by (simp add: next_args_def)
qed

lemma more_pages_adds:
  assumes "more_pages a tool params cfg left resp body current items st = (all, st')"
  shows "\<exists>xs. adds st st' xs \<and> length xs \<le> left \<and> (pg_strategy cfg = ''link_header'' \<longrightarrow> (\<forall>x \<in> set xs. sr_args x = params))"
  using assms
proof (induction left arbitrary: resp body current items st)
  case 0
  then show ?case by (intro exI [of _ "[]"]) simp
next
  case (Suc left)
  show ?case
  proof (cases "NextPageParams (ra_unmarshal a) (ra_format a) cfg (hr_status resp) (hr_header resp) body current")
    case None
    then show ?thesis using Suc.prems by (intro exI [of _ "[]"]) simp
  next
    case (Some nextParams)
    obtain k st1 where k: "page_key a tool st = (k, st1)" by (metis surj_pair)
    note ka = page_key_adds [OF k]
    show ?thesis
    proof (cases k)
      case (Inl e)
      then show ?thesis using Suc.prems Some k ka by (intro exI [of _ "[]"]) simp
    next
      case (Inr key)
      obtain z st2 where d: "doRequest a tool (next_args params nextParams) key st1 = (z, st2)" by (metis surj_pair)
      obtain xs where xs: "adds st1 st2 xs" "length xs \<le> 1" "\<forall>x \<in> set xs. sr_args x = next_args params nextParams"
        using doRequest_adds [OF d] by auto
      have args: "pg_strategy cfg = ''link_header'' \<Longrightarrow> next_args params nextParams = params" using link_next_args [OF _ Some] by blast
      have first: "adds st st2 xs" using adds_trans [OF ka xs(1)] by simp
      consider (stop) "st' = st2" | (more) r b ys where "z = Inr (r, b)" "more_pages a tool params cfg left r b nextParams (items @ ys) st2 = (all, st')"
        using Suc.prems Some k Inr d by (auto split: sum.splits prod.splits if_splits option.splits)
      then show ?thesis
      proof cases
        case stop
        then show ?thesis using first xs args by (intro exI [of _ xs]) auto
      next
        case more
        from Suc.IH [OF more(2)] obtain zs where zs: "adds st2 st' zs" "length zs \<le> left" "pg_strategy cfg = ''link_header'' \<longrightarrow> (\<forall>x \<in> set zs. sr_args x = params)" by blast
        have "adds st st' (xs @ zs)" by (rule adds_trans [OF first zs(1)])
        then show ?thesis using xs zs args by (intro exI [of _ "xs @ zs"]) auto
      qed
    qed
  qed
qed

section \<open>Retry safety\<close>

lemma paginate_adds:
  assumes "paginateResults a tool params resp body cfg st = (out, st')"
  shows "\<exists>xs. adds st st' xs \<and> length xs \<le> 49 \<and> (pg_strategy cfg = ''link_header'' \<longrightarrow> (\<forall>x \<in> set xs. sr_args x = params))"
proof (cases "page_items a body")
  case None
  then show ?thesis using assms by (intro exI [of _ "[]"]) (simp add: paginateResults_def)
next
  case (Some items)
  let ?current = "map (\<lambda>(n, v). (n, ra_scalar a v)) (filter (\<lambda>(n, v). map_option pd_in (map_of (rt_params tool) n) = Some ''query'') params)"
  obtain all st1 where m: "more_pages a tool params cfg (max_pages cfg - 1) resp body ?current items st = (all, st1)" by (metis surj_pair)
  have "st' = st1" using assms Some m by (simp add: paginateResults_def Let_def)
  moreover have "max_pages cfg - 1 \<le> 49" by (auto simp: max_pages_def Let_def)
  ultimately show ?thesis using more_pages_adds [OF m] by (meson order_trans)
qed

text \<open>The course of a call: the key, the first request, the handling of errors and the rest.\<close>

lemma call_tool_adds:
  assumes "call_tool a name tool params st = (r, st')"
  shows "\<exists>key first pages. adds st st' (first @ pages) \<and> same_call params key first \<and> length first \<le> retry_budget a tool + 2 \<and> length pages \<le> 49 \<and>
    (\<not> CanAutoRetry (ra_tables a) tool \<and> 1 < length first \<longrightarrow> length first = 2 \<and> sr_status (hd first) = Some 401) \<and>
    ((\<forall>cfg. effectivePaginationConfig a tool = Some cfg \<longrightarrow> pg_strategy cfg = ''link_header'') \<longrightarrow> (\<forall>x \<in> set pages. sr_args x = params))"
proof -
  obtain k st1 where k: "page_key a tool st = (k, st1)" by (metis surj_pair)
  note ka = page_key_adds [OF k]
  show ?thesis
  proof (cases k)
    case (Inl e)
    then have "st' = st1" using assms k by (simp add: call_tool_def Let_def)
    then show ?thesis using ka by (intro exI [of _ "[]"] exI [of _ "[]"]) (auto simp: same_call_def)
  next
    case (Inr key)
    obtain d st2 where d: "doRequest a tool params key st1 = (d, st2)" by (metis surj_pair)
    obtain xs where xs: "adds st1 st2 xs" "length xs \<le> 1" "same_call params key xs" "\<forall>resp b. d = Inr (resp, b) \<longrightarrow> map sr_status xs = [Some (hr_status resp)]"
      using doRequest_adds [OF d] by (auto simp: same_call_def)
    have f: "adds st st2 xs" using adds_trans [OF ka xs(1)] by simp
    show ?thesis
    proof (cases d)
      case (Inl e)
      then have "st' = st2" using assms k Inr d by (simp add: call_tool_def Let_def)
      then show ?thesis using f xs(2,3) by (intro exI [of _ key] exI [of _ xs] exI [of _ "[]"]) auto
    next
      case dr: (Inr rb)
      obtain resp body where rb: "rb = (resp, body)" by (cases rb)
      obtain h st3 where h: "handle_errors a tool params key resp body st2 = (h, st3)" by (metis surj_pair)
      obtain ys where ys: "adds st2 st3 ys" "length ys \<le> Suc (retry_budget a tool)" "same_call params key ys"
        "\<not> CanAutoRetry (ra_tables a) tool \<and> ys \<noteq> [] \<longrightarrow> length ys = 1 \<and> hr_status resp = 401" using handle_errors_adds [OF h] by blast
      have x1: "map sr_status xs = [Some (hr_status resp)]" using xs(4) dr rb by simp
      then obtain x where x: "xs = [x]" "sr_status x = Some (hr_status resp)" by (cases xs) auto
      have fh: "adds st st3 (xs @ ys)" by (rule adds_trans [OF f ys(1)])
      have first: "same_call params key (xs @ ys)" "length (xs @ ys) \<le> retry_budget a tool + 2"
        "\<not> CanAutoRetry (ra_tables a) tool \<and> 1 < length (xs @ ys) \<longrightarrow> length (xs @ ys) = 2 \<and> sr_status (hd (xs @ ys)) = Some 401"
        using xs ys x by (auto simp: same_call_def)
      have "\<exists>zs. adds st3 st' zs \<and> length zs \<le> 49 \<and>
          ((\<forall>cfg. effectivePaginationConfig a tool = Some cfg \<longrightarrow> pg_strategy cfg = ''link_header'') \<longrightarrow> (\<forall>x \<in> set zs. sr_args x = params))"
      proof (cases h)
        case (Inl res)
        then have "st' = st3" using assms k Inr d dr rb h by (simp add: call_tool_def Let_def)
        then show ?thesis by (intro exI [of _ "[]"]) simp
      next
        case hr: (Inr rb2)
        obtain r2 b2 where rb2: "rb2 = (r2, b2)" by (cases rb2)
        consider (world) "in_world (ra_binary a r2 b2 (the (effectiveResponseConfig a tool))) st3 = (r, st')" | (plain) "st' = st3"
          | (pages) cfg out where "effectivePaginationConfig a tool = Some cfg" "paginateResults a tool params r2 b2 cfg st3 = (out, st')"
          using assms k Inr d dr rb h hr rb2
          by (auto simp: call_tool_def Let_def split: if_splits option.splits prod.splits)
        then show ?thesis
        proof cases
          case world
          then show ?thesis using adds_world [OF world] by (intro exI [of _ "[]"]) auto
        next
          case plain
          then show ?thesis by (intro exI [of _ "[]"]) simp
        next
          case pages
          then show ?thesis using paginate_adds [OF pages(2)] by auto
        qed
      qed
      then obtain zs where zs: "adds st3 st' zs" "length zs \<le> 49"
        "(\<forall>cfg. effectivePaginationConfig a tool = Some cfg \<longrightarrow> pg_strategy cfg = ''link_header'') \<longrightarrow> (\<forall>x \<in> set zs. sr_args x = params)" by blast
      have "adds st st' ((xs @ ys) @ zs)" by (rule adds_trans [OF fh zs(1)])
      then show ?thesis using first zs by blast
    qed
  qed
qed


text \<open>With the pagination strategy \<open>link_header\<close> the address in the header is not followed: every further page is
  requested with the arguments of the first, up to 49 times.\<close>

theorem link_header_repeats_request:
  assumes "call_tool a name tool params st = (r, st')" "effectivePaginationConfig a tool = Some cfg" "pg_strategy cfg = ''link_header''"
  shows "\<exists>xs. rs_sent st' = rs_sent st @ xs \<and> (\<forall>x \<in> set xs. sr_args x = params)"
proof -
  obtain key first pages where f: "adds st st' (first @ pages)" "same_call params key first" "\<forall>x \<in> set pages. sr_args x = params"
    using call_tool_adds [OF assms(1)] assms(2,3) by auto
  then show ?thesis by (intro exI [of _ "first @ pages"]) (auto simp: adds_def same_call_def)
qed

section \<open>Checked arguments\<close>


section \<open>Redacted output\<close>

lemma error_results [simp]: "tr_is_error (error_result t)" "tr_is_error (apiErrorResult e)" "tr_is_error (apiErrorResultNote e t)"
  by (simp_all add: error_result_def apiErrorResult_def apiErrorResultNote_def)

lemma recheck_Inl: "recheck a cfg tool params key resp body st = (Inl res, st') \<Longrightarrow> tr_is_error res"
  by (auto simp: recheck_def split: option.splits if_splits prod.splits bool.splits sum.splits)

lemma handle_errors_Inl: "handle_errors a tool params key resp body st = (Inl res, st') \<Longrightarrow> tr_is_error res"
  by (auto simp: handle_errors_def Let_def dest: recheck_Inl split: option.splits if_splits prod.splits sum.splits)

lemma set_add_unseen [simp]: "set (add_unseen xs ys) = set xs \<union> set ys"
  by (induction ys arbitrary: xs) auto

lemma set_effectiveRedactPaths:
  "set (effectiveRedactPaths a tool) =
     set (case ra_default_response a of None \<Rightarrow> [] | Some c \<Rightarrow> rp_redact c) \<union> set (case rt_response tool of None \<Rightarrow> [] | Some c \<Rightarrow> rp_redact c)"
  by (simp add: effectiveRedactPaths_def Let_def)

lemma finish_body_redacted:
  assumes "\<not> tr_is_error (finish_body a tool status body)" "p \<in> set (effectiveRedactPaths a tool)"
  shows "\<exists>d segs. tr_content (finish_body a tool status body) = Some [textContent (ra_marshal a d)] \<and> NewJSONPath p = Inr segs \<and>
    set (collectNodes segs d) \<subseteq> {RedactedPlaceholder}"
proof -
  have ne: "effectiveRedactPaths a tool \<noteq> []" using assms(2) by auto
  obtain b red where r: "RedactResult (ra_unmarshal a) (ra_marshal a) b (effectiveRedactPaths a tool) = Inr red"
    and f: "finish_body a tool status body = rest_result a status red"
    using assms(1) ne by (auto simp: finish_body_def Let_def split: prod.splits sum.splits)
  obtain d' where d': "red = ra_marshal a d'"
    "\<forall>p \<in> set (effectiveRedactPaths a tool). \<exists>segs. NewJSONPath p = Inr segs \<and> set (collectNodes segs d') \<subseteq> {RedactedPlaceholder}"
    using redacted_body [OF ne r] by blast
  then obtain segs where "NewJSONPath p = Inr segs" "set (collectNodes segs d') \<subseteq> {RedactedPlaceholder}" using assms(2) by blast
  then show ?thesis using f d'(1) by (auto simp: rest_result_def)
qed

text \<open>C11: when a tool has paths to redact, its own or those of its backend, a call that succeeds with an inline result
  returns the encoding of a value in which everything that any of these paths selects is the
  placeholder; a response that cannot be transformed, decoded or redacted is not returned.\<close>

theorem output_redacted:
  assumes "call_tool a name tool params st = (Inr res, st')" "\<not> tr_is_error res" "\<not> isBinaryResponse (effectiveResponseConfig a tool)"
    and "p \<in> set (case ra_default_response a of None \<Rightarrow> [] | Some c \<Rightarrow> rp_redact c) \<union> set (case rt_response tool of None \<Rightarrow> [] | Some c \<Rightarrow> rp_redact c)"
  shows "\<exists>d segs. tr_content res = Some [textContent (ra_marshal a d)] \<and> NewJSONPath p = Inr segs \<and>
    set (collectNodes segs d) \<subseteq> {RedactedPlaceholder}"
proof -
  have "\<exists>status body. res = finish_body a tool status body"
    using assms(1-3)
    by (auto simp: call_tool_def Let_def dest: handle_errors_Inl split: sum.splits prod.splits if_splits option.splits)
  then obtain status body where "res = finish_body a tool status body" by blast
  then show ?thesis using finish_body_redacted [of a tool status body p] assms(2,4) by (simp only: set_effectiveRedactPaths not_False_eq_True)
qed

text \<open>An empty list comes out of the pagination as null: nothing was appended to the slice that is encoded.\<close>

lemma empty_list_becomes_null:
  assumes "page_items a body = Some []"
    and "\<forall>current. NextPageParams (ra_unmarshal a) (ra_format a) cfg (hr_status resp) (hr_header resp) body current = None"
  shows "paginateResults a tool params resp body cfg st = (''null'', st)"
  using assms by (cases "max_pages cfg - 1") (simp_all add: paginateResults_def marshallResults_def)

section \<open>How often an unavailable server is asked\<close>

definition always_503 :: "('w, 'q) rest_adapter \<Rightarrow> rest_tool \<Rightarrow> args \<Rightarrow> bool" where
  "always_503 a tool params \<longleftrightarrow>
     (\<forall>w. \<exists>q w1 resp w2. ra_build a tool params w = (Inr q, w1) \<and> ra_send a q None w1 = (Inr resp, w2) \<and> hr_status resp = 503 \<and> hr_body resp = Inr [])"

lemma doRequest_503:
  assumes "always_503 a tool params" "rt_idempotency tool = None"
  shows "\<exists>resp st'. doRequest a tool params [] st = (Inr (resp, []), st') \<and> hr_status resp = 503 \<and> length (rs_sent st') = Suc (length (rs_sent st))"
proof -
  obtain q w1 resp w2 where r: "ra_build a tool params (rs_world st) = (Inr q, w1)" "ra_send a q None w1 = (Inr resp, w2)" "hr_status resp = 503" "hr_body resp = Inr []"
    using assms(1) unfolding always_503_def by blast
  then show ?thesis using assms(2)
    by (simp add: doRequest_def in_world_def Let_def maxStreamingBytes_def maxResponseBytes_def)
qed

lemma attempt_503:
  assumes "always_503 a tool params" "rt_idempotency tool = None" "503 \<in> set (ec_retry_on cfg)"
  shows "\<exists>e st'. attempt_request a cfg tool params [] st = (Inl e, st') \<and> length (rs_sent st') = Suc (length (rs_sent st))"
proof -
  obtain resp st' where d: "doRequest a tool params [] st = (Inr (resp, []), st')" "hr_status resp = 503" "length (rs_sent st') = Suc (length (rs_sent st))"
    using doRequest_503 [OF assms(1,2)] by blast
  then show ?thesis using assms(3) by (auto simp: attempt_request_def check_response_def CheckResponse_def Let_def)
qed

lemma retry_503:
  assumes "always_503 a tool params" "rt_idempotency tool = None" "503 \<in> set (ec_retry_on cfg)" "\<forall>d w. fst (ra_wait a d w) = None"
  shows "\<exists>e st'. retry_from over r initial (\<lambda>d. in_world (ra_wait a d)) (attempt_request a cfg tool params []) attempt left lastErr st = (Inl e, st') \<and>
    length (rs_sent st') = length (rs_sent st) + left"
proof (induction left arbitrary: attempt lastErr st)
  case (Suc left)
  obtain c st1 where c: "(if attempt = 0 then (None, st) else in_world (ra_wait a (calcDelay over r attempt initial)) st) = (c, st1)" by (metis surj_pair)
  have cn: "c = None" "rs_sent st1 = rs_sent st"
  proof -
    show "c = None" using c assms(4) by (cases "attempt = 0") (auto simp: in_world_def Let_def split: prod.splits, metis fst_conv)
    show "rs_sent st1 = rs_sent st" using c in_world_sent' [of _ st c st1] by (auto split: if_splits)
  qed
  obtain e st2 where a: "attempt_request a cfg tool params [] st1 = (Inl e, st2)" "length (rs_sent st2) = Suc (length (rs_sent st))"
    using attempt_503 [OF assms(1-3), of st1] cn(2) by auto
  obtain e' st' where "retry_from over r initial (\<lambda>d. in_world (ra_wait a d)) (attempt_request a cfg tool params []) (Suc attempt) left e st2 = (Inl e', st')"
    "length (rs_sent st') = length (rs_sent st2) + left" using Suc.IH by blast
  then show ?case using c cn a by simp
qed simp

text \<open>A server that answers every request of a call with 503, a status to retry, is asked two times more often than
  \<open>max_retries\<close> says: once before and once more than that many times in the retry loop, whose first
  attempt follows at once, without a delay.\<close>

theorem retries_exceed_limit:
  assumes "always_503 a tool params" "rt_idempotency tool = None" "effectiveErrorConfig a tool = Some cfg" "ec_retry_strategy cfg = Some strategy"
    "503 \<in> set (ec_retry_on cfg)" "CanAutoRetry (ra_tables a) tool" "\<forall>d w. fst (ra_wait a d w) = None"
  shows "length (rs_sent (snd (call_tool a name tool params st))) = length (rs_sent st) + max_retries strategy + 2"
proof -
  obtain resp st1 where d: "doRequest a tool params [] st = (Inr (resp, []), st1)" "hr_status resp = 503" "length (rs_sent st1) = Suc (length (rs_sent st))"
    using doRequest_503 [OF assms(1,2)] by blast
  obtain e st2 where r: "retry_request a cfg strategy tool params [] st1 = (Inl e, st2)" "length (rs_sent st2) = length (rs_sent st1) + Suc (max_retries strategy)"
    using retry_503 [OF assms(1,2,5,7)] unfolding retry_request_def retry_Do_def by blast
  have "handle_errors a tool params [] resp [] st1 = (Inl (apiErrorResult e), st2)"
    using assms(3-6) d(2) r(1) by (simp add: handle_errors_def check_response_def CheckResponse_def Let_def)
  then show ?thesis using d r assms(2) by (simp add: call_tool_def page_key_def Let_def)
qed

section \<open>Examples\<close>

text \<open>A server that answers with the responses of a list, one after the other.\<close>

definition demo_reply :: "int \<Rightarrow> string \<Rightarrow> http_response" where
  "demo_reply status body = \<lparr>hr_status = status, hr_header = (\<lambda>_. []), hr_body = Inr body\<rparr>"

definition demo_unmarshal :: "string \<Rightarrow> json option" where
  "demo_unmarshal s =
     (if s = ''A'' then Some (JObj [(''m'', JStr ''busy'')])
      else if s = ''B'' then Some (JObj [(''m'', JStr ''gone'')])
      else if s = ''P'' then Some (JArr [JNum ''1''])
      else None)"

definition demo_errors :: error_config where
  "demo_errors =
     \<lparr>ec_message_path = ''$.m'', ec_code_path = [], ec_retry_on = [503], ec_terminal = [404],
      ec_retry_strategy = Some \<lparr>ry_max_retries = 2, ry_backoff = ''fixed'', ry_initial_delay = []\<rparr>, ec_map = []\<rparr>"

definition demo_response :: response_config where
  "demo_response =
     \<lparr>rp_type = [], rp_result_path = [], rp_transform = [], rp_redact = [''$.m''], rp_binary = False, rp_streaming = False, rp_stream_handling = []\<rparr>"

definition demo_tool :: "string \<Rightarrow> rest_tool" where
  "demo_tool meth =
     \<lparr>rt_method = meth, rt_params = [(''id'', \<lparr>pd_type = ''string'', pd_in = ''query'', pd_required = True, pd_default = None\<rparr>)],
      rt_response = Some demo_response, rt_pagination_none = True, rt_errors = Some demo_errors, rt_idempotency = None, rt_retry_unsafe = False\<rparr>"

definition demo_tables :: case_tables where "demo_tables = \<lparr>lower_beyond_ascii = id, upper_beyond_ascii = id\<rparr>"

definition demo_adapter :: "(http_response list, args) rest_adapter" where
  "demo_adapter =
     \<lparr>ra_name = ''api'', ra_tables = demo_tables, ra_printable = (\<lambda>_. True), ra_include = None, ra_synthetic_health = False,
      ra_tools = [(''get'', demo_tool ''GET''), (''post'', demo_tool ''POST'')], ra_composites = [],
      ra_default_errors = None, ra_default_response = None, ra_default_pagination = None, ra_file_broker = False,
      ra_build = (\<lambda>tool params w. (Inr params, w)),
      ra_send = (\<lambda>q h w. case w of [] \<Rightarrow> (Inl ''down'', []) | r # rs \<Rightarrow> (Inr r, rs)),
      ra_uuid = (\<lambda>w. (''u1'', w)), ra_reauth = (\<lambda>w. (False, w)), ra_wait = (\<lambda>d w. (None, w)), ra_blobs = (\<lambda>w. None),
      ra_os_error = id, ra_base64 = id, ra_unmarshal = demo_unmarshal,
      ra_marshal = (\<lambda>d. if d = JObj [(''m'', RedactedPlaceholder)] then ''hidden'' else ''shown''), ra_marshal_raw = (\<lambda>_. ''list''),
      ra_format = (\<lambda>v. case v of JStr s \<Rightarrow> s | _ \<Rightarrow> ''?''), ra_scalar = (\<lambda>v. ''x''), ra_jq = (\<lambda>b t. Inr b), ra_result_text = (\<lambda>_. ''error''),
      ra_overflow = (\<lambda>_. 0), ra_fraction = (\<lambda>_ _ _. 0),
      ra_health_tool = (\<lambda>ps w. (Inl [], w)), ra_composite = (\<lambda>n ps w. (Inl [], w)), ra_stream = (\<lambda>t ps w. (Inl [], w)), ra_binary = (\<lambda>r b c w. (Inl [], w))\<rparr>"

definition demo_world :: "http_response list \<Rightarrow> http_response list rest_state" where
  "demo_world rs = \<lparr>rs_world = rs, rs_sent = []\<rparr>"

lemma rest_demo_fields [simp]:
  "ra_build demo_adapter = (\<lambda>tool params w. (Inr params, w))"
  "ra_send demo_adapter = (\<lambda>q h w. case w of [] \<Rightarrow> (Inl ''down'', []) | r # rs \<Rightarrow> (Inr r, rs))"
  "ra_wait demo_adapter = (\<lambda>d w. (None, w))" "ra_tables demo_adapter = demo_tables"
  "ra_unmarshal demo_adapter = demo_unmarshal" "ra_default_errors demo_adapter = None" "ra_default_response demo_adapter = None"
  "ra_default_pagination demo_adapter = None"
  "rt_idempotency (demo_tool m) = None" "rt_errors (demo_tool m) = Some demo_errors" "rt_response (demo_tool m) = Some demo_response"
  "hr_status (demo_reply c b) = c" "hr_body (demo_reply c b) = Inr b"
  by (simp_all add: demo_adapter_def demo_tool_def demo_reply_def)

lemma demo_doRequest:
  assumes "length b < 1000"
  shows "doRequest demo_adapter (demo_tool m) ps k \<lparr>rs_world = demo_reply c b # rs, rs_sent = xs\<rparr> =
    (Inr (demo_reply c b, b), \<lparr>rs_world = rs, rs_sent = xs @ [\<lparr>sr_args = ps, sr_key = k, sr_status = Some c\<rparr>]\<rparr>)"
  using assms by (simp add: doRequest_def in_world_def maxStreamingBytes_def maxResponseBytes_def Let_def)

lemma demo_settings: "effectiveErrorConfig demo_adapter (demo_tool m) = Some demo_errors"
  "effectiveResponseConfig demo_adapter (demo_tool m) = Some demo_response" "\<not> isBinaryResponse (Some demo_response)"
  by (simp_all add: effectiveErrorConfig_def effectiveResponseConfig_def isBinaryResponse_def demo_response_def)

lemma demo_checks:
  "check_response demo_adapter demo_errors (demo_reply 503 ''A'') ''A'' = (Some \<lparr>er_code = ''unavailable'', er_status = 503, er_message = ''busy'', er_provider = []\<rparr>, True)"
  "check_response demo_adapter demo_errors (demo_reply 404 ''B'') ''B'' = (Some \<lparr>er_code = ''not_found'', er_status = 404, er_message = ''gone'', er_provider = []\<rparr>, False)"
  "check_response demo_adapter demo_errors (demo_reply 404 ''B'') ''A'' = (Some \<lparr>er_code = ''not_found'', er_status = 404, er_message = ''busy'', er_provider = []\<rparr>, False)"
  "check_response demo_adapter demo_errors (demo_reply 200 ''A'') ''A'' = (None, False)"
  by code_simp+

lemma demo_retry_safe: "CanAutoRetry demo_tables (demo_tool ''GET'')" "\<not> CanAutoRetry demo_tables (demo_tool ''POST'')"
proof -
  have u: "to_upper demo_tables ''GET'' = ''GET''" "to_upper demo_tables ''POST'' = ''POST''"
    by (simp_all add: to_upper_def runes_def runes_of_ascii of_runes_def encode_rune_def encode_valid_def valid_rune_def) (code_simp+)
  show "CanAutoRetry demo_tables (demo_tool ''GET'')" "\<not> CanAutoRetry demo_tables (demo_tool ''POST'')"
    by (simp_all add: CanAutoRetry_def MethodSafeToRetry_def demo_tool_def u)
qed

text \<open>When a retry ends in an error for good, the caller gets the status of the last response with the message of the
  first: the body of the last one is dropped.\<close>

theorem terminal_retry_reports_old_body:
  "fst (call_tool demo_adapter ''get'' (demo_tool ''GET'') [] (demo_world [demo_reply 503 ''A'', demo_reply 404 ''B''])) =
     Inr (apiErrorResult (ErrApi \<lparr>er_code = ''not_found'', er_status = 404, er_message = ''busy'', er_provider = []\<rparr>))"
proof -
  let ?r = "\<lparr>ry_max_retries = 2, ry_backoff = ''fixed'', ry_initial_delay = []\<rparr>" and ?t = "demo_tool ''GET''"
  have st: "ec_retry_strategy demo_errors = Some ?r" "max_retries ?r = 2" by (simp_all add: demo_errors_def max_retries_def)
  have "fst (retry_request demo_adapter demo_errors ?r ?t [] [] \<lparr>rs_world = [demo_reply 404 ''B''], rs_sent = xs\<rparr>) = Inr (demo_reply 404 ''B'', None)" for xs
    by (simp add: retry_request_def retry_Do_def attempt_request_def demo_doRequest demo_checks)
  then obtain st1 where "retry_request demo_adapter demo_errors ?r ?t [] [] \<lparr>rs_world = [demo_reply 404 ''B''], rs_sent = [\<lparr>sr_args = [], sr_key = [], sr_status = Some 503\<rparr>]\<rparr> = (Inr (demo_reply 404 ''B'', None), st1)"
    by (metis prod.collapse)
  then show ?thesis
    by (simp add: call_tool_def page_key_def demo_world_def demo_doRequest handle_errors_def demo_settings demo_checks demo_retry_safe st recheck_def)
qed


definition demo_pagination :: pagination_config where
  "demo_pagination =
     \<lparr>pg_strategy = ''link_header'', pg_cursor_param = [], pg_limit_param = [], pg_limit_default = 0, pg_offset_param = [], pg_page_param = [],
      pg_next_cursor = [], pg_has_more = [], pg_total_pages_header = [], pg_behavior = ''auto'', pg_max_pages = 3\<rparr>"

definition demo_paged :: "(http_response list, args) rest_adapter" where
  "demo_paged = demo_adapter\<lparr>ra_default_pagination := Some demo_pagination\<rparr>"

theorem link_header_repeats_request_witness:
  "\<exists>xs. rs_sent (snd (call_tool demo_paged ''get'' ((demo_tool ''GET'')\<lparr>rt_pagination_none := False\<rparr>) [] (demo_world [demo_reply 200 ''P'']))) = xs \<and>
     (\<forall>x \<in> set xs. sr_args x = [])"
proof -
  let ?t = "(demo_tool ''GET'')\<lparr>rt_pagination_none := False\<rparr>"
  obtain r st' where c: "call_tool demo_paged ''get'' ?t [] (demo_world [demo_reply 200 ''P'']) = (r, st')" by (metis surj_pair)
  have p: "effectivePaginationConfig demo_paged ?t = Some demo_pagination" "pg_strategy demo_pagination = ''link_header''"
    by (simp_all add: effectivePaginationConfig_def demo_paged_def demo_pagination_def)
  show ?thesis using link_header_repeats_request [OF c p] c by (auto simp: demo_world_def)
qed


lemma demo_redacts: "finish_body demo_adapter (demo_tool ''GET'') 200 ''A'' = rest_result demo_adapter 200 ''hidden''"
proof -
  have p: "NewJSONPath ''$.m'' = Inr [\<lparr>ps_field = ''m'', ps_index = None, ps_wildcard = False\<rparr>]"
    by (simp add: NewJSONPath_def has_prefix_def parseSegment_def)
  have "RedactResult demo_unmarshal (ra_marshal demo_adapter) ''A'' [''$.m''] = Inr ''hidden''"
    using p by (simp add: RedactResult_def redact_segment redactSelected.simps demo_unmarshal_def demo_adapter_def)
  moreover have "effectiveRedactPaths demo_adapter (demo_tool ''GET'') = [''$.m'']" by (simp add: effectiveRedactPaths_def demo_response_def)
  moreover have "transformResponse demo_adapter (demo_tool ''GET'') ''A'' = (Inr ''A'', ''A'')"
    by (simp add: transformResponse_def demo_settings demo_response_def)
  ultimately show ?thesis by (simp add: finish_body_def)
qed

theorem output_redacted_witness:
  "\<exists>res d. fst (call_tool demo_adapter ''get'' (demo_tool ''GET'') [] (demo_world [demo_reply 200 ''A''])) = Inr res \<and>
     tr_content res = Some [textContent (ra_marshal demo_adapter d)]"
proof -
  let ?c = "call_tool demo_adapter ''get'' (demo_tool ''GET'') [] (demo_world [demo_reply 200 ''A''])"
  have "fst ?c = Inr (rest_result demo_adapter 200 ''hidden'')"
    by (simp add: call_tool_def page_key_def demo_world_def demo_doRequest handle_errors_def demo_settings demo_checks effectivePaginationConfig_def demo_redacts)
  then obtain st' where c: "?c = (Inr (rest_result demo_adapter 200 ''hidden''), st')" by (metis prod.collapse)
  have "\<not> tr_is_error (rest_result demo_adapter 200 ''hidden'')" "\<not> isBinaryResponse (effectiveResponseConfig demo_adapter (demo_tool ''GET''))"
    by (simp_all add: rest_result_def demo_settings)
  from output_redacted [OF c this, of "''$.m''"]
  show ?thesis using c by (auto simp: demo_response_def)
qed

theorem retries_exceed_limit_witness:
  "length (rs_sent (snd (call_tool (demo_adapter\<lparr>ra_send := \<lambda>q h w. (Inr (demo_reply 503 []), w)\<rparr>) ''get'' (demo_tool ''GET'') [] (demo_world [])))) = 4"
proof -
  let ?a = "demo_adapter\<lparr>ra_send := \<lambda>q h w. (Inr (demo_reply 503 []), w)\<rparr>" and ?r = "\<lparr>ry_max_retries = 2, ry_backoff = ''fixed'', ry_initial_delay = []\<rparr>"
  have "always_503 ?a (demo_tool ''GET'') []" by (simp add: always_503_def)
  moreover have "effectiveErrorConfig ?a (demo_tool ''GET'') = Some demo_errors" by (simp add: effectiveErrorConfig_def)
  moreover have "ec_retry_strategy demo_errors = Some ?r" "503 \<in> set (ec_retry_on demo_errors)" by (simp_all add: demo_errors_def)
  moreover have "CanAutoRetry (ra_tables ?a) (demo_tool ''GET'')" "\<forall>d w. fst (ra_wait ?a d w) = None" by (simp_all add: demo_retry_safe)
  ultimately have "length (rs_sent (snd (call_tool ?a ''get'' (demo_tool ''GET'') [] (demo_world [])))) = length (rs_sent (demo_world [])) + max_retries ?r + 2"
    by (intro retries_exceed_limit) simp_all
  then show ?thesis by (simp add: demo_world_def max_retries_def)
qed

end
