(* ===== verification/Coerce.thy ===== *)
theory Coerce
  imports Rights
begin

text \<open>
  The coercion of tool arguments to their declared types (\<open>internal/tsdef/coerce.go\<close>). Arguments are decoded JSON, so a
  number is a \<open>float64\<close>. How a value other than a string is printed with \<open>%v\<close>, which strings
  \<open>strconv.ParseFloat\<close> reads, which numbers are zero and the simple case folding of runes are parameters.
\<close>

section \<open>Definitions\<close>

record coerce_param =
  cp_name :: string
  cp_kind :: string
  cp_required :: bool
  cp_enum :: "string list"

record coerce_ops =
  co_format :: "json \<Rightarrow> string"
  co_parse_float :: "string \<Rightarrow> string option"
  co_is_zero :: "string \<Rightarrow> bool"
  co_fold :: "rune \<Rightarrow> rune"
  co_tables :: case_tables
  co_printable :: "rune \<Rightarrow> bool"

type_synonym coercer = "(string \<times> coerce_param list) list"

definition NewCoercer :: "(string \<times> coerce_param list) list \<Rightarrow> coercer" where
  "NewCoercer defs = fold (\<lambda>(n, ps). AList.update n ps) defs []"

definition AddDef :: "string \<Rightarrow> coerce_param list \<Rightarrow> coercer \<Rightarrow> coercer" where
  "AddDef name ps c = AList.update name ps c"

definition format_v :: "coerce_ops \<Rightarrow> json \<Rightarrow> string" where
  "format_v ops v = (case v of JStr s \<Rightarrow> s | _ \<Rightarrow> co_format ops v)"

definition equal_fold :: "coerce_ops \<Rightarrow> string \<Rightarrow> string \<Rightarrow> bool" where
  "equal_fold ops s t \<longleftrightarrow> map (co_fold ops) (runes s) = map (co_fold ops) (runes t)"

definition coerceToNumber :: "coerce_ops \<Rightarrow> json \<Rightarrow> (string, json) result" where
  "coerceToNumber ops v =
     (case v of
        JNum n \<Rightarrow> Inr (JNum n)
      | JStr s \<Rightarrow> (case co_parse_float ops s of None \<Rightarrow> Inl (''cannot coerce '' @ quote (co_printable ops) s @ '' to number'') | Some n \<Rightarrow> Inr (JNum n))
      | JBool b \<Rightarrow> Inr (JNum (if b then ''1'' else ''0''))
      | _ \<Rightarrow> Inr v)"

definition coerceToBoolean :: "coerce_ops \<Rightarrow> json \<Rightarrow> (string, json) result" where
  "coerceToBoolean ops v =
     (case v of
        JBool b \<Rightarrow> Inr (JBool b)
      | JStr s \<Rightarrow>
          (let l = to_lower (co_tables ops) s
           in if l \<in> {''true'', ''1'', ''yes''} then Inr (JBool True)
              else if l \<in> {''false'', ''0'', ''no''} then Inr (JBool False)
              else Inl (''cannot coerce '' @ quote (co_printable ops) s @ '' to boolean''))
      | JNum n \<Rightarrow> Inr (JBool (\<not> co_is_zero ops n))
      | _ \<Rightarrow> Inr v)"

definition coerceToString :: "coerce_ops \<Rightarrow> json \<Rightarrow> json" where
  "coerceToString ops v = JStr (format_v ops v)"

definition coerceToArray :: "json \<Rightarrow> json" where
  "coerceToArray v = (case v of JArr xs \<Rightarrow> JArr xs | _ \<Rightarrow> JArr [v])"

definition coerceValue :: "coerce_ops \<Rightarrow> json \<Rightarrow> coerce_param \<Rightarrow> (string, json) result" where
  "coerceValue ops v p =
     (if cp_enum p \<noteq> [] then
        (case find_first (\<lambda>e. equal_fold ops (format_v ops v) e) (cp_enum p) of Some e \<Rightarrow> Inr (JStr e) | None \<Rightarrow> Inr v)
      else if cp_kind p = ''number'' then coerceToNumber ops v
      else if cp_kind p = ''boolean'' then coerceToBoolean ops v
      else if cp_kind p = ''string'' then Inr (coerceToString ops v)
      else if cp_kind p = ''array'' then Inr (coerceToArray v)
      else Inr v)"

text \<open>The loop over the declared parameters, with the map it builds.\<close>

fun coerce_params :: "coerce_ops \<Rightarrow> string \<Rightarrow> (string \<times> json) list \<Rightarrow> coerce_param list \<Rightarrow> (string \<times> json) list \<Rightarrow> (string, (string \<times> json) list) result" where
  "coerce_params ops tool params [] acc = Inr acc"
| "coerce_params ops tool params (p # ps) acc =
     (case map_of params (cp_name p) of
        None \<Rightarrow>
          if cp_required p then Inl (''missing required parameter '' @ quote (co_printable ops) (cp_name p) @ '' for tool '' @ quote (co_printable ops) tool)
          else coerce_params ops tool params ps acc
      | Some v \<Rightarrow>
          (case coerceValue ops v p of
             Inl e \<Rightarrow> Inl (''parameter '' @ quote (co_printable ops) (cp_name p) @ '': '' @ e)
           | Inr v' \<Rightarrow> coerce_params ops tool params ps (AList.update (cp_name p) v' acc)))"

definition Coerce :: "coerce_ops \<Rightarrow> coercer \<Rightarrow> string \<Rightarrow> (string \<times> json) list \<Rightarrow> (string, (string \<times> json) list) result" where
  "Coerce ops c tool params =
     (case map_of c tool of
        None \<Rightarrow> Inr params
      | Some ps \<Rightarrow>
          bind_res (coerce_params ops tool params ps []) (\<lambda>res.
            let unknown = sort (filter (\<lambda>k. k \<notin> cp_name ` set ps) (map fst params));
                quoteAll = map (quote (co_printable ops))
            in if unknown = [] then Inr res
               else Inl (''unknown parameter(s) '' @ join (quoteAll unknown) '', '' @ '' for tool '' @ quote (co_printable ops) tool @
                         ''; declared parameters: '' @ join (quoteAll (sort (map cp_name ps))) '', '')))"

section \<open>Types\<close>

text \<open>What a value of a declared kind is; null, lists and objects pass where a number or a truth value is expected.\<close>

definition composite_json :: "json \<Rightarrow> bool" where
  "composite_json v = (case v of JNull \<Rightarrow> True | JArr _ \<Rightarrow> True | JObj _ \<Rightarrow> True | _ \<Rightarrow> False)"

definition of_kind :: "coerce_param \<Rightarrow> json \<Rightarrow> bool" where
  "of_kind p v =
     (if cp_enum p \<noteq> [] then True
      else if cp_kind p = ''number'' then (\<exists>n. v = JNum n) \<or> composite_json v
      else if cp_kind p = ''boolean'' then (\<exists>b. v = JBool b) \<or> composite_json v
      else if cp_kind p = ''string'' then (\<exists>s. v = JStr s)
      else if cp_kind p = ''array'' then (\<exists>xs. v = JArr xs)
      else True)"

lemma coerceValue_kind: "coerceValue ops v p = Inr v' \<Longrightarrow> of_kind p v'"
  by (cases v) (auto simp: coerceValue_def of_kind_def coerceToNumber_def coerceToBoolean_def coerceToString_def coerceToArray_def composite_json_def Let_def
      split: if_splits option.splits)

text \<open>A coerced value is a fixed point; the entry of an enumeration that is chosen is chosen again.\<close>

lemma coerceValue_idem:
  assumes "coerceValue ops v p = Inr v'"
  shows "coerceValue ops v' p = Inr v'"
proof (cases "cp_enum p = []")
  case True
  then show ?thesis using assms
    by (cases v) (auto simp: coerceValue_def coerceToNumber_def coerceToBoolean_def coerceToString_def coerceToArray_def format_v_def Let_def
        split: if_splits option.splits)
next
  case False
  show ?thesis
  proof (cases "find_first (\<lambda>e. equal_fold ops (format_v ops v) e) (cp_enum p)")
    case None
    then show ?thesis using assms False by (simp add: coerceValue_def)
  next
    case (Some e)
    then have "v' = JStr e" "equal_fold ops (format_v ops v) e" using assms False find_first_Some [OF Some] by (auto simp: coerceValue_def)
    then have "(\<lambda>x. equal_fold ops (format_v ops v') x) = (\<lambda>x. equal_fold ops (format_v ops v) x)"
      by (auto simp: equal_fold_def format_v_def)
    then show ?thesis using Some False \<open>v' = JStr e\<close> by (simp add: coerceValue_def)
  qed
qed

section \<open>Calls\<close>

lemma sort_Nil_iff [simp]: "sort xs = [] \<longleftrightarrow> xs = []"
  by (metis set_empty set_sort)

text \<open>The result lists the parameters that were given, in the order of their declaration.\<close>

lemma coerce_params_list:
  assumes "coerce_params ops tool params ps acc = Inr res" "distinct (map cp_name ps)" "cp_name ` set ps \<inter> fst ` set acc = {}"
  shows "\<exists>kvs. res = acc @ kvs \<and> map fst kvs = filter (\<lambda>n. n \<in> fst ` set params) (map cp_name ps) \<and>
    (\<forall>p \<in> set ps. \<forall>v. (cp_name p, v) \<in> set kvs \<longrightarrow> (\<exists>u. map_of params (cp_name p) = Some u \<and> coerceValue ops u p = Inr v)) \<and>
    (\<forall>p \<in> set ps. cp_required p \<longrightarrow> cp_name p \<in> fst ` set params)"
  using assms
proof (induction ps arbitrary: acc)
  case (Cons p ps)
  show ?case
  proof (cases "map_of params (cp_name p)")
    case None
    then have n1: "cp_name p \<notin> fst ` set params" by (simp add: map_of_eq_None_iff)
    have "\<not> cp_required p \<and> coerce_params ops tool params ps acc = Inr res"
      using Cons.prems(1) unfolding coerce_params.simps None option.case by (auto split: if_splits)
    note n = n1 conjunct1 [OF this] conjunct2 [OF this]
    obtain kvs where kvs: "res = acc @ kvs" "map fst kvs = filter (\<lambda>n. n \<in> fst ` set params) (map cp_name ps)"
      "\<forall>p \<in> set ps. \<forall>v. (cp_name p, v) \<in> set kvs \<longrightarrow> (\<exists>u. map_of params (cp_name p) = Some u \<and> coerceValue ops u p = Inr v)"
      "\<forall>p \<in> set ps. cp_required p \<longrightarrow> cp_name p \<in> fst ` set params"
      using Cons.IH [OF n(3)] Cons.prems(2,3) by auto
    have "set (map fst kvs) \<subseteq> fst ` set params" unfolding kvs(2) by auto
    then have "cp_name p \<notin> fst ` set kvs" using n(1) by auto
    then have "(cp_name p, v) \<notin> set kvs" for v by force
    then show ?thesis using kvs n by (intro exI [of _ kvs]) auto
  next
    case (Some u)
    obtain v where v: "coerceValue ops u p = Inr v" "coerce_params ops tool params ps (AList.update (cp_name p) v acc) = Inr res"
      using Cons.prems(1) Some by (auto split: sum.splits)
    have up: "AList.update (cp_name p) v acc = acc @ [(cp_name p, v)]" using Cons.prems(3) by (intro update_fresh) auto
    have "cp_name ` set ps \<inter> fst ` set (acc @ [(cp_name p, v)]) = {}" using Cons.prems(2,3) by auto
    then obtain kvs where kvs: "res = (acc @ [(cp_name p, v)]) @ kvs" "map fst kvs = filter (\<lambda>n. n \<in> fst ` set params) (map cp_name ps)"
      "\<forall>p \<in> set ps. \<forall>v. (cp_name p, v) \<in> set kvs \<longrightarrow> (\<exists>u. map_of params (cp_name p) = Some u \<and> coerceValue ops u p = Inr v)"
      "\<forall>p \<in> set ps. cp_required p \<longrightarrow> cp_name p \<in> fst ` set params"
      using Cons.IH [OF v(2) [unfolded up]] Cons.prems(2) by auto
    have "cp_name p \<notin> fst ` set kvs" using kvs(2) Cons.prems(2) by (metis (no_types, lifting) distinct.simps(2) filter_is_subset list.set_map list.simps(9) subsetD)
    then have fresh: "(cp_name p, v') \<notin> set kvs" for v' by force
    have neq: "q \<in> set ps \<Longrightarrow> cp_name q \<noteq> cp_name p" for q using Cons.prems(2) by (auto simp: image_iff)
    have "cp_name p \<in> fst ` set params" using Some by (metis map_of_eq_None_iff option.distinct(1))
    then show ?thesis using kvs v(1) Some fresh neq by (intro exI [of _ "(cp_name p, v) # kvs"]) auto
  qed
qed auto

lemma coerce_params_fixed:
  assumes "distinct (map cp_name ps)" "cp_name ` set ps \<inter> fst ` set acc = {}"
    and "\<forall>p \<in> set ps. case map_of params (cp_name p) of None \<Rightarrow> \<not> cp_required p | Some v \<Rightarrow> coerceValue ops v p = Inr v"
  shows "coerce_params ops tool params ps acc = Inr (acc @ concat (map (\<lambda>p. case map_of params (cp_name p) of None \<Rightarrow> [] | Some v \<Rightarrow> [(cp_name p, v)]) ps))"
  using assms
proof (induction ps arbitrary: acc)
  case (Cons p ps)
  show ?case
  proof (cases "map_of params (cp_name p)")
    case None
    then show ?thesis using Cons by simp
  next
    case (Some v)
    have up: "AList.update (cp_name p) v acc = acc @ [(cp_name p, v)]" using Cons.prems(2) by (intro update_fresh) auto
    have "coerce_params ops tool params ps (acc @ [(cp_name p, v)]) =
        Inr ((acc @ [(cp_name p, v)]) @ concat (map (\<lambda>p. case map_of params (cp_name p) of None \<Rightarrow> [] | Some v \<Rightarrow> [(cp_name p, v)]) ps))"
      using Cons.prems by (intro Cons.IH) auto
    then show ?thesis using Some Cons.prems(3) up by simp
  qed
qed simp

lemma concat_lookup:
  assumes "map fst kvs = filter P names" "distinct names"
  shows "concat (map (\<lambda>n. case map_of kvs n of None \<Rightarrow> [] | Some v \<Rightarrow> [(n, v)]) names) = kvs"
  using assms
proof (induction names arbitrary: kvs)
  case (Cons n names)
  show ?case
  proof (cases "P n")
    case True
    then obtain v kvs' where kvs: "kvs = (n, v) # kvs'" "map fst kvs' = filter P names" using Cons.prems(1) by (cases kvs) auto
    have "map (\<lambda>m. case map_of kvs m of None \<Rightarrow> [] | Some v \<Rightarrow> [(m, v)]) names = map (\<lambda>m. case map_of kvs' m of None \<Rightarrow> [] | Some v \<Rightarrow> [(m, v)]) names"
      using Cons.prems(2) kvs(1) by (intro map_cong refl) auto
    then have "concat (map (\<lambda>m. case map_of kvs m of None \<Rightarrow> [] | Some v \<Rightarrow> [(m, v)]) names) = kvs'"
      using Cons.IH [OF kvs(2)] Cons.prems(2) by (simp only: distinct.simps)
    moreover have "(case map_of kvs n of None \<Rightarrow> [] | Some v \<Rightarrow> [(n, v)]) = [(n, v)]" using kvs(1) by simp
    ultimately show ?thesis by (simp only: list.map concat.simps append.simps kvs(1))
  next
    case False
    have "n \<notin> set (map fst kvs)" unfolding Cons.prems(1) using False by simp
    then have "map_of kvs n = None" by (simp add: map_of_eq_None_iff)
    moreover have "map fst kvs = filter P names" using Cons.prems(1) False by simp
    ultimately show ?thesis using Cons.IH [of kvs] Cons.prems(2) by simp
  qed
qed simp


section \<open>Example\<close>

definition demo_ops :: coerce_ops where
  "demo_ops = \<lparr>co_format = (\<lambda>_. ''x''), co_parse_float = (\<lambda>s. if s = ''5'' then Some ''5'' else None), co_is_zero = (\<lambda>n. n = ''0''), co_fold = id,
     co_tables = \<lparr>lower_beyond_ascii = id, upper_beyond_ascii = id\<rparr>, co_printable = (\<lambda>_. True)\<rparr>"

definition demo_coercer :: coercer where
  "demo_coercer = NewCoercer [(''t'', [\<lparr>cp_name = ''n'', cp_kind = ''number'', cp_required = True, cp_enum = []\<rparr>,
     \<lparr>cp_name = ''xs'', cp_kind = ''array'', cp_required = False, cp_enum = []\<rparr>])]"


end
