(* ===== verification/TokenStores.thy ===== *)
theory TokenStores
  imports LoginThrottle
begin

text \<open>
  The stores of OAuth clients, authorization codes and tokens (\<open>internal/auth/store.go\<close>,
  \<open>file_store.go\<close>, \<open>hybrid_store.go\<close>): the interface \<open>TokenStore\<close> as a record of operations, its
  implementations in memory with a file, on Redis, and both together, and the contract the server
  relies on. Every call takes the circumstances it runs in: the local and the Redis server's clock,
  whether the state file could be written, and how the call to Redis went.
\<close>

section \<open>Records\<close>

text \<open>Go's zero time is \<open>None\<close> where the code asks for it.\<close>

record oauth_client =
  oc_client_id :: string
  oc_client_secret :: string
  oc_client_name :: string
  oc_redirect_uris :: "string list"
  oc_created_at :: time
  oc_expires_at :: "time option"

record auth_code =
  ac_code :: string
  ac_client_id :: string
  ac_redirect_uri :: string
  ac_code_challenge :: string
  ac_scope :: string
  ac_user_id :: string
  ac_company_id :: string
  ac_plan :: string
  ac_roles :: "string list option"
  ac_expires_at :: time

record token_info =
  ti_access_token :: string
  ti_refresh_token :: string
  ti_client_id :: string
  ti_user_id :: string
  ti_company_id :: string
  ti_plan :: string
  ti_roles :: "string list option"
  ti_caller_id :: string
  ti_caller_name :: string
  ti_scope :: string
  ti_expires_at :: time
  ti_refresh_expires_at :: "time option"

definition Expired :: "time \<Rightarrow> oauth_client \<Rightarrow> bool" where
  "Expired now c = (case oc_expires_at c of None \<Rightarrow> False | Some e \<Rightarrow> \<not> now < e)"

definition RefreshExpiry :: "token_info \<Rightarrow> time" where
  "RefreshExpiry ti = (case ti_refresh_expires_at ti of Some e \<Rightarrow> e | None \<Rightarrow> ti_expires_at ti)"

text \<open>What a string is after \<open>json.Marshal\<close> and \<open>json.Unmarshal\<close>: bytes that are no UTF-8 have become the replacement
  character. A record is encoded field by field.\<close>

definition json_text :: "string \<Rightarrow> string" where
  "json_text s = of_runes (runes s)"

definition wire_client :: "oauth_client \<Rightarrow> oauth_client" where
  "wire_client c = c\<lparr>oc_client_id := json_text (oc_client_id c), oc_client_secret := json_text (oc_client_secret c),
     oc_client_name := json_text (oc_client_name c), oc_redirect_uris := map json_text (oc_redirect_uris c)\<rparr>"

definition wire_code :: "auth_code \<Rightarrow> auth_code" where
  "wire_code ac = ac\<lparr>ac_code := json_text (ac_code ac), ac_client_id := json_text (ac_client_id ac),
     ac_redirect_uri := json_text (ac_redirect_uri ac), ac_code_challenge := json_text (ac_code_challenge ac),
     ac_scope := json_text (ac_scope ac), ac_user_id := json_text (ac_user_id ac), ac_company_id := json_text (ac_company_id ac),
     ac_plan := json_text (ac_plan ac), ac_roles := map_option (map json_text) (ac_roles ac)\<rparr>"

definition wire_token :: "token_info \<Rightarrow> token_info" where
  "wire_token ti = ti\<lparr>ti_access_token := json_text (ti_access_token ti), ti_refresh_token := json_text (ti_refresh_token ti),
     ti_client_id := json_text (ti_client_id ti), ti_user_id := json_text (ti_user_id ti), ti_company_id := json_text (ti_company_id ti),
     ti_plan := json_text (ti_plan ti), ti_roles := map_option (map json_text) (ti_roles ti), ti_caller_id := json_text (ti_caller_id ti),
     ti_caller_name := json_text (ti_caller_name ti), ti_scope := json_text (ti_scope ti)\<rparr>"

section \<open>The interface\<close>

datatype token_error = NotFound | StoreFailed

record store_env =
  se_now :: time
  se_server :: time
  se_disk_ok :: bool
  se_link :: redis_link

record 's token_ops =
  to_save_client :: "store_env \<Rightarrow> oauth_client \<Rightarrow> 's \<Rightarrow> token_error option \<times> 's"
  to_get_client :: "store_env \<Rightarrow> string \<Rightarrow> 's \<Rightarrow> (token_error, oauth_client) result"
  to_save_code :: "store_env \<Rightarrow> auth_code \<Rightarrow> 's \<Rightarrow> token_error option \<times> 's"
  to_consume_code :: "store_env \<Rightarrow> string \<Rightarrow> 's \<Rightarrow> (token_error, auth_code) result \<times> 's"
  to_save_token :: "store_env \<Rightarrow> token_info \<Rightarrow> 's \<Rightarrow> token_error option \<times> 's"
  to_get_token :: "store_env \<Rightarrow> string \<Rightarrow> 's \<Rightarrow> (token_error, token_info) result \<times> 's"
  to_save_refresh :: "store_env \<Rightarrow> token_info \<Rightarrow> 's \<Rightarrow> token_error option \<times> 's"
  to_consume_refresh :: "store_env \<Rightarrow> string \<Rightarrow> 's \<Rightarrow> (token_error, token_info) result \<times> 's"
  to_delete_token :: "store_env \<Rightarrow> string \<Rightarrow> 's \<Rightarrow> token_error option \<times> 's"

definition ExtendClient :: "'s token_ops \<Rightarrow> store_env \<Rightarrow> string \<Rightarrow> time option \<Rightarrow> 's \<Rightarrow> token_error option \<times> 's" where
  "ExtendClient ops env clientID until s =
     (case to_get_client ops env clientID s of
        Inl e \<Rightarrow> (Some e, s)
      | Inr c \<Rightarrow> to_save_client ops env (c\<lparr>oc_expires_at := until\<rparr>) s)"

section \<open>The file store\<close>

record persisted =
  pe_clients :: "(string \<times> oauth_client) list"
  pe_access :: "(string \<times> token_info) list"
  pe_refresh :: "(string \<times> token_info) list"

record file_store =
  fs_clients :: "(string \<times> oauth_client) list"
  fs_codes :: "(string \<times> auth_code) list"
  fs_access :: "(string \<times> token_info) list"
  fs_refresh :: "(string \<times> token_info) list"
  fs_disk :: "persisted option"

definition saveState :: "store_env \<Rightarrow> file_store \<Rightarrow> file_store" where
  "saveState env s =
     (if se_disk_ok env
      then s\<lparr>fs_disk := Some \<lparr>pe_clients = map (\<lambda>(k, c). (json_text k, wire_client c)) (fs_clients s),
               pe_access = map (\<lambda>(k, t). (json_text k, wire_token t)) (fs_access s),
               pe_refresh = map (\<lambda>(k, t). (json_text k, wire_token t)) (fs_refresh s)\<rparr>\<rparr>
      else s)"

text \<open>\<open>NewFileTokenStore\<close> with \<open>loadState\<close>: what the state file holds and has not expired.\<close>

definition loadState :: "time \<Rightarrow> persisted option \<Rightarrow> file_store" where
  "loadState now disk =
     (case disk of
        None \<Rightarrow> \<lparr>fs_clients = [], fs_codes = [], fs_access = [], fs_refresh = [], fs_disk = None\<rparr>
      | Some p \<Rightarrow>
          \<lparr>fs_clients = filter (\<lambda>(k, c). \<not> Expired now c) (pe_clients p), fs_codes = [],
           fs_access = filter (\<lambda>(k, t). now < ti_expires_at t) (pe_access p),
           fs_refresh = filter (\<lambda>(k, t). now < RefreshExpiry t) (pe_refresh p), fs_disk = disk\<rparr>)"

definition file_SaveClient :: "store_env \<Rightarrow> oauth_client \<Rightarrow> file_store \<Rightarrow> token_error option \<times> file_store" where
  "file_SaveClient env c s = (None, saveState env (s\<lparr>fs_clients := AList.update (oc_client_id c) c (fs_clients s)\<rparr>))"

definition file_GetClient :: "store_env \<Rightarrow> string \<Rightarrow> file_store \<Rightarrow> (token_error, oauth_client) result" where
  "file_GetClient env clientID s =
     (case map_of (fs_clients s) clientID of
        None \<Rightarrow> Inl NotFound
      | Some c \<Rightarrow> if Expired (se_now env) c then Inl NotFound else Inr c)"

definition file_SaveAuthCode :: "store_env \<Rightarrow> auth_code \<Rightarrow> file_store \<Rightarrow> token_error option \<times> file_store" where
  "file_SaveAuthCode env ac s = (None, s\<lparr>fs_codes := AList.update (ac_code ac) ac (fs_codes s)\<rparr>)"

definition file_ConsumeAuthCode :: "store_env \<Rightarrow> string \<Rightarrow> file_store \<Rightarrow> (token_error, auth_code) result \<times> file_store" where
  "file_ConsumeAuthCode env code s =
     (case map_of (fs_codes s) code of
        None \<Rightarrow> (Inl NotFound, s)
      | Some ac \<Rightarrow> (Inr ac, s\<lparr>fs_codes := AList.delete code (fs_codes s)\<rparr>))"

definition file_SaveToken :: "store_env \<Rightarrow> token_info \<Rightarrow> file_store \<Rightarrow> token_error option \<times> file_store" where
  "file_SaveToken env ti s = (None, saveState env (s\<lparr>fs_access := AList.update (ti_access_token ti) ti (fs_access s)\<rparr>))"

definition file_GetToken :: "store_env \<Rightarrow> string \<Rightarrow> file_store \<Rightarrow> (token_error, token_info) result \<times> file_store" where
  "file_GetToken env accessToken s =
     (case map_of (fs_access s) accessToken of
        None \<Rightarrow> (Inl NotFound, s)
      | Some ti \<Rightarrow>
          if ti_expires_at ti < se_now env
          then (Inl NotFound, saveState env (s\<lparr>fs_access := AList.delete accessToken (fs_access s)\<rparr>))
          else (Inr ti, s))"

definition file_DeleteToken :: "store_env \<Rightarrow> string \<Rightarrow> file_store \<Rightarrow> token_error option \<times> file_store" where
  "file_DeleteToken env accessToken s = (None, saveState env (s\<lparr>fs_access := AList.delete accessToken (fs_access s)\<rparr>))"

definition file_SaveRefreshToken :: "store_env \<Rightarrow> token_info \<Rightarrow> file_store \<Rightarrow> token_error option \<times> file_store" where
  "file_SaveRefreshToken env ti s = (None, saveState env (s\<lparr>fs_refresh := AList.update (ti_refresh_token ti) ti (fs_refresh s)\<rparr>))"

definition file_ConsumeRefreshToken :: "store_env \<Rightarrow> string \<Rightarrow> file_store \<Rightarrow> (token_error, token_info) result \<times> file_store" where
  "file_ConsumeRefreshToken env refreshToken s =
     (case map_of (fs_refresh s) refreshToken of
        None \<Rightarrow> (Inl NotFound, s)
      | Some ti \<Rightarrow> (Inr ti, saveState env (s\<lparr>fs_refresh := AList.delete refreshToken (fs_refresh s)\<rparr>)))"

definition file_removeExpired :: "store_env \<Rightarrow> file_store \<Rightarrow> file_store" where
  "file_removeExpired env s =
     (let now = se_now env;
          s1 = s\<lparr>fs_clients := filter (\<lambda>(k, c). \<not> Expired now c) (fs_clients s),
                 fs_codes := filter (\<lambda>(k, c). \<not> ac_expires_at c < now) (fs_codes s),
                 fs_access := filter (\<lambda>(k, t). \<not> ti_expires_at t < now) (fs_access s),
                 fs_refresh := filter (\<lambda>(k, t). \<not> RefreshExpiry t < now) (fs_refresh s)\<rparr>;
          dirty = (fs_clients s1 \<noteq> fs_clients s \<or> fs_access s1 \<noteq> fs_access s \<or> fs_refresh s1 \<noteq> fs_refresh s)
      in if dirty then saveState env s1 else s1)"

definition file_ops :: "file_store token_ops" where
  "file_ops = \<lparr>to_save_client = file_SaveClient, to_get_client = file_GetClient, to_save_code = file_SaveAuthCode,
     to_consume_code = file_ConsumeAuthCode, to_save_token = file_SaveToken, to_get_token = file_GetToken,
     to_save_refresh = file_SaveRefreshToken, to_consume_refresh = file_ConsumeRefreshToken, to_delete_token = file_DeleteToken\<rparr>"

section \<open>The Redis store\<close>

text \<open>The keys of a prefix with their value and the server time at which they expire.\<close>

type_synonym 'v redis_table = "string \<Rightarrow> ('v \<times> time option) option"

record redis_store =
  rs_clients :: "oauth_client redis_table"
  rs_codes :: "auth_code redis_table"
  rs_access :: "token_info redis_table"
  rs_refresh :: "token_info redis_table"

definition ttlAuthCode :: duration where "ttlAuthCode = 5 * minute"
definition ttlAccessToken :: duration where "ttlAccessToken = 60 * minute"
definition ttlRefreshToken :: duration where "ttlRefreshToken = 7 * 24 * 60 * minute"

definition redis_get :: "time \<Rightarrow> string \<Rightarrow> 'v redis_table \<Rightarrow> 'v option" where
  "redis_get now k t =
     (case t k of
        None \<Rightarrow> None
      | Some (v, None) \<Rightarrow> Some v
      | Some (v, Some e) \<Rightarrow> if now < e then Some v else None)"

text \<open>\<open>SET\<close> with a time to live, which Redis keeps in milliseconds; zero is none.\<close>

definition redis_set :: "time \<Rightarrow> string \<Rightarrow> 'v \<Rightarrow> duration \<Rightarrow> 'v redis_table \<Rightarrow> 'v redis_table" where
  "redis_set now k v ttl t =
     t(k \<mapsto> (v, if ttl = 0 then None else Some (now + (if ttl < millis then millis else ttl div millis * millis))))"

text \<open>A command whose reply carries nothing but success.\<close>

definition redis_do :: "store_env \<Rightarrow> (redis_store \<Rightarrow> redis_store) \<Rightarrow> redis_store \<Rightarrow> token_error option \<times> redis_store" where
  "redis_do env f s =
     (case se_link env of Answered \<Rightarrow> (None, f s) | Unreached \<Rightarrow> (Some StoreFailed, s) | ReplyLost \<Rightarrow> (Some StoreFailed, f s))"

definition redis_SaveClient :: "store_env \<Rightarrow> oauth_client \<Rightarrow> redis_store \<Rightarrow> token_error option \<times> redis_store" where
  "redis_SaveClient env c s =
     (let set = (\<lambda>ttl. redis_do env (\<lambda>s. s\<lparr>rs_clients := redis_set (se_server env) (oc_client_id c) (wire_client c) ttl (rs_clients s)\<rparr>) s)
      in case oc_expires_at c of
           None \<Rightarrow> set 0
         | Some e \<Rightarrow>
             if e - se_now env \<le> 0 then redis_do env (\<lambda>s. s\<lparr>rs_clients := (rs_clients s)(oc_client_id c := None)\<rparr>) s
             else set (e - se_now env))"

definition redis_answer :: "store_env \<Rightarrow> 'v option \<Rightarrow> (token_error, 'v) result" where
  "redis_answer env v =
     (if se_link env \<noteq> Answered then Inl StoreFailed else case v of None \<Rightarrow> Inl NotFound | Some x \<Rightarrow> Inr x)"

definition redis_GetClient :: "store_env \<Rightarrow> string \<Rightarrow> redis_store \<Rightarrow> (token_error, oauth_client) result" where
  "redis_GetClient env clientID s = redis_answer env (redis_get (se_server env) clientID (rs_clients s))"

definition redis_SaveAuthCode :: "store_env \<Rightarrow> auth_code \<Rightarrow> redis_store \<Rightarrow> token_error option \<times> redis_store" where
  "redis_SaveAuthCode env ac s =
     redis_do env (\<lambda>s. s\<lparr>rs_codes := redis_set (se_server env) (ac_code ac) (wire_code ac) ttlAuthCode (rs_codes s)\<rparr>) s"

text \<open>\<open>consumeScript\<close>: the value, deleted when there is one.\<close>

definition consume_key :: "time \<Rightarrow> string \<Rightarrow> 'v redis_table \<Rightarrow> 'v option \<times> 'v redis_table" where
  "consume_key now k t = (case redis_get now k t of None \<Rightarrow> (None, t) | Some v \<Rightarrow> (Some v, t(k := None)))"

text \<open>Without an answer the value is nil too, which is asked before the error: a code or token that Redis
  was not asked about counts as not found.\<close>

definition consume_answer :: "store_env \<Rightarrow> 'v option \<Rightarrow> (token_error, 'v) result" where
  "consume_answer env v = (case v of Some x \<Rightarrow> (if se_link env = Answered then Inr x else Inl NotFound) | None \<Rightarrow> Inl NotFound)"

definition redis_ConsumeAuthCode :: "store_env \<Rightarrow> string \<Rightarrow> redis_store \<Rightarrow> (token_error, auth_code) result \<times> redis_store" where
  "redis_ConsumeAuthCode env code s =
     (let (v, t) = consume_key (se_server env) code (rs_codes s)
      in (consume_answer env v, if se_link env = Unreached then s else s\<lparr>rs_codes := t\<rparr>))"

definition redis_SaveToken :: "store_env \<Rightarrow> token_info \<Rightarrow> redis_store \<Rightarrow> token_error option \<times> redis_store" where
  "redis_SaveToken env ti s =
     redis_do env (\<lambda>s. s\<lparr>rs_access := redis_set (se_server env) (ti_access_token ti) (wire_token ti) ttlAccessToken (rs_access s)\<rparr>) s"

definition redis_GetToken :: "store_env \<Rightarrow> string \<Rightarrow> redis_store \<Rightarrow> (token_error, token_info) result \<times> redis_store" where
  "redis_GetToken env accessToken s = (redis_answer env (redis_get (se_server env) accessToken (rs_access s)), s)"

definition redis_DeleteToken :: "store_env \<Rightarrow> string \<Rightarrow> redis_store \<Rightarrow> token_error option \<times> redis_store" where
  "redis_DeleteToken env accessToken s = redis_do env (\<lambda>s. s\<lparr>rs_access := (rs_access s)(accessToken := None)\<rparr>) s"

definition redis_SaveRefreshToken :: "store_env \<Rightarrow> token_info \<Rightarrow> redis_store \<Rightarrow> token_error option \<times> redis_store" where
  "redis_SaveRefreshToken env ti s =
     redis_do env (\<lambda>s. s\<lparr>rs_refresh := redis_set (se_server env) (ti_refresh_token ti) (wire_token ti) ttlRefreshToken (rs_refresh s)\<rparr>) s"

definition redis_ConsumeRefreshToken :: "store_env \<Rightarrow> string \<Rightarrow> redis_store \<Rightarrow> (token_error, token_info) result \<times> redis_store" where
  "redis_ConsumeRefreshToken env refreshToken s =
     (let (v, t) = consume_key (se_server env) refreshToken (rs_refresh s)
      in (consume_answer env v, if se_link env = Unreached then s else s\<lparr>rs_refresh := t\<rparr>))"

definition redis_token_ops :: "redis_store token_ops" where
  "redis_token_ops = \<lparr>to_save_client = redis_SaveClient, to_get_client = redis_GetClient, to_save_code = redis_SaveAuthCode,
     to_consume_code = redis_ConsumeAuthCode, to_save_token = redis_SaveToken, to_get_token = redis_GetToken,
     to_save_refresh = redis_SaveRefreshToken, to_consume_refresh = redis_ConsumeRefreshToken, to_delete_token = redis_DeleteToken\<rparr>"

section \<open>The hybrid store\<close>

text \<open>Writes go to the file store, whose errors are only logged, and to the primary; reads fall back to the file
  store on every error of the primary.\<close>

type_synonym 's hybrid = "'s \<times> file_store"

definition hybrid_write :: "('a \<Rightarrow> 's \<Rightarrow> token_error option \<times> 's) \<Rightarrow> ('a \<Rightarrow> file_store \<Rightarrow> token_error option \<times> file_store) \<Rightarrow> 'a \<Rightarrow> 's hybrid
    \<Rightarrow> token_error option \<times> 's hybrid" where
  "hybrid_write primary file x h =
     (let (_, f) = file x (snd h); (err, p) = primary x (fst h) in (err, (p, f)))"

definition hybrid_consume :: "('a \<Rightarrow> 's \<Rightarrow> (token_error, 'v) result \<times> 's) \<Rightarrow> ('a \<Rightarrow> file_store \<Rightarrow> (token_error, 'v) result \<times> file_store) \<Rightarrow> 'a \<Rightarrow> 's hybrid
    \<Rightarrow> (token_error, 'v) result \<times> 's hybrid" where
  "hybrid_consume primary file x h =
     (case primary x (fst h) of
        (Inr v, p) \<Rightarrow> (Inr v, (p, snd (file x (snd h))))
      | (Inl _, p) \<Rightarrow> (let (r, f) = file x (snd h) in (r, (p, f))))"

definition hybrid_GetClient :: "'s token_ops \<Rightarrow> store_env \<Rightarrow> string \<Rightarrow> 's hybrid \<Rightarrow> (token_error, oauth_client) result" where
  "hybrid_GetClient ops env clientID h =
     (case to_get_client ops env clientID (fst h) of Inr c \<Rightarrow> Inr c | Inl _ \<Rightarrow> file_GetClient env clientID (snd h))"

definition hybrid_GetToken :: "'s token_ops \<Rightarrow> store_env \<Rightarrow> string \<Rightarrow> 's hybrid \<Rightarrow> (token_error, token_info) result \<times> 's hybrid" where
  "hybrid_GetToken ops env accessToken h =
     (case to_get_token ops env accessToken (fst h) of
        (Inr t, p) \<Rightarrow> (Inr t, (p, snd h))
      | (Inl _, p) \<Rightarrow> (let (r, f) = file_GetToken env accessToken (snd h) in (r, (p, f))))"

definition hybrid_ops :: "'s token_ops \<Rightarrow> 's hybrid token_ops" where
  "hybrid_ops ops =
     \<lparr>to_save_client = (\<lambda>env. hybrid_write (to_save_client ops env) (file_SaveClient env)),
      to_get_client = hybrid_GetClient ops,
      to_save_code = (\<lambda>env. hybrid_write (to_save_code ops env) (file_SaveAuthCode env)),
      to_consume_code = (\<lambda>env. hybrid_consume (to_consume_code ops env) (file_ConsumeAuthCode env)),
      to_save_token = (\<lambda>env. hybrid_write (to_save_token ops env) (file_SaveToken env)),
      to_get_token = hybrid_GetToken ops,
      to_save_refresh = (\<lambda>env. hybrid_write (to_save_refresh ops env) (file_SaveRefreshToken env)),
      to_consume_refresh = (\<lambda>env. hybrid_consume (to_consume_refresh ops env) (file_ConsumeRefreshToken env)),
      to_delete_token = (\<lambda>env. hybrid_write (to_delete_token ops env) (file_DeleteToken env))\<rparr>"

text \<open>\<open>WarmUp\<close>: what the file store holds is saved in the primary.\<close>

definition WarmUp :: "'s token_ops \<Rightarrow> store_env \<Rightarrow> file_store \<Rightarrow> 's \<Rightarrow> 's" where
  "WarmUp ops env f p =
     (let p1 = fold (\<lambda>(k, c). \<lambda>p. snd (to_save_client ops env c p)) (filter (\<lambda>(k, c). \<not> Expired (se_now env) c) (fs_clients f)) p;
          p2 = fold (\<lambda>(k, t). \<lambda>p. snd (to_save_token ops env t p)) (fs_access f) p1
      in fold (\<lambda>(k, t). \<lambda>p. snd (to_save_refresh ops env t p)) (fs_refresh f) p2)"

end
