(* ===== verification/ApiKeys.thy ===== *)
theory ApiKeys
  imports Sha256 Bech32 CompareLimit
begin

text \<open>
  The API keys of \<open>apikeys.yaml\<close> (\<open>internal/auth/apikeys.go\<close>): loading, the index over digests, and
  the verification of a key that is not indexed yet. Requests run \<open>Verify\<close> concurrently, so it is a
  step relation whose steps are its critical sections; the limiters only delay or refuse a step, and
  both are always possible. The bcrypt package is a parameter: its \<open>CompareHashAndPassword\<close> and
  \<open>Cost\<close>. The index key is \<open>HMAC(secret, SHA-256(key))\<close>, computed.
\<close>

section \<open>Entries and the digest of the index\<close>

record api_key_entry =
  ak_key_hash :: string
  ak_key_sha256 :: string
  ak_user_id :: string
  ak_company_id :: string
  ak_plan :: string
  ak_roles :: "string list option"
  ak_caller_id :: string

record bcrypt_ops =
  bc_compare :: "string \<Rightarrow> string \<Rightarrow> bool"
  bc_cost :: "string \<Rightarrow> int option"

type_synonym index_key = "byte list"

definition key_digest :: "case_tables \<Rightarrow> api_key_entry \<Rightarrow> string" where
  "key_digest ct e = to_lower ct (trim_space (ak_key_sha256 e))"

definition grantKeyDomain :: string where
  "grantKeyDomain = ''toolmesh grant key'' @ [CHR 0x00]"

definition GrantKey :: "case_tables \<Rightarrow> api_key_entry \<Rightarrow> string" where
  "GrantKey ct e =
     (let source0 = key_digest ct e;
          source = (if source0 = [] then ak_key_hash e else source0)
      in ''key-'' @ hex_encode (take 8 (sha256 (bytes_of (grantKeyDomain @ source)))))"

text \<open>\<open>hex.DecodeString\<close>: pairs of hexadecimal digits of either case.\<close>

definition hex_nibble :: "char \<Rightarrow> nat option" where
  "hex_nibble c = (let b = byte_of c :: nat in
     if 48 \<le> b \<and> b \<le> 57 then Some (b - 48)
     else if 97 \<le> b \<and> b \<le> 102 then Some (b - 87)
     else if 65 \<le> b \<and> b \<le> 70 then Some (b - 55) else None)"

fun hex_decode :: "string \<Rightarrow> byte list option" where
  "hex_decode [] = Some []"
| "hex_decode [c] = None"
| "hex_decode (c # d # s) =
     (case (hex_nibble c, hex_nibble d, hex_decode s) of
        (Some a, Some b, Some r) \<Rightarrow> Some (of_nat (16 * a + b) # r)
      | _ \<Rightarrow> None)"

text \<open>HMAC-SHA-256 with a key of at most one block, the process secret of 32 bytes.\<close>

definition hmac_pad :: "byte \<Rightarrow> byte list \<Rightarrow> byte list" where
  "hmac_pad b key = map (xor b) (key @ replicate (64 - length key) 0)"

definition hmac_sha256 :: "byte list \<Rightarrow> byte list \<Rightarrow> byte list" where
  "hmac_sha256 key msg = sha256 (hmac_pad 0x5C key @ sha256 (hmac_pad 0x36 key @ msg))"

definition keyed :: "byte list \<Rightarrow> byte list \<Rightarrow> index_key" where
  "keyed secret digest = hmac_sha256 secret digest"

definition indexKeyOf :: "byte list \<Rightarrow> string \<Rightarrow> index_key" where
  "indexKeyOf secret key = keyed secret (sha256 (bytes_of key))"

section \<open>Usable hashes\<close>

definition bcrypt_alphabet :: string where
  "bcrypt_alphabet = ''./ABCDEFGHIJKLMNOPQRSTUVWXYZabcdefghijklmnopqrstuvwxyz0123456789''"

text \<open>Whether \<open>bcryptSalt.DecodeString\<close> succeeds: line breaks are skipped, every other byte is of the
  alphabet, and without padding only a single left-over character is an error.\<close>

definition salt_decodes :: "string \<Rightarrow> bool" where
  "salt_decodes s =
     (let t = filter (\<lambda>c. c \<notin> {CHR 0x0A, CHR 0x0D}) s
      in list_all (\<lambda>c. c \<in> set bcrypt_alphabet) t \<and> length t mod 4 \<noteq> 1)"

definition usableHash :: "bcrypt_ops \<Rightarrow> string \<Rightarrow> bool" where
  "usableHash bc hash =
     (if bc_cost bc hash = None then False
      else if length hash < 7 + 22 then False
      else salt_decodes (take 22 (drop 7 hash)))"

section \<open>Loading\<close>

record api_key_summary =
  ks_indexed :: nat
  ks_bcrypt_only :: nat
  ks_unusable :: "string list"

record api_key_store =
  st_keys :: "api_key_entry list"
  st_summary :: api_key_summary
  st_secret :: "byte list"
  st_index :: "index_key \<Rightarrow> nat option"
  st_unseen :: "nat list"

datatype api_key_error =
    BadDigest nat string
  | DuplicateDigest nat string nat string

definition load_entry :: "case_tables \<Rightarrow> bcrypt_ops \<Rightarrow> nat \<Rightarrow> api_key_entry \<Rightarrow> api_key_store \<Rightarrow> (api_key_error, api_key_store) result" where
  "load_entry ct bc i e st =
     (let digest = key_digest ct e; sm = st_summary st in
      if digest \<noteq> [] then
        (case hex_decode digest of
           None \<Rightarrow> Inl (BadDigest (i + 1) (ak_user_id e))
         | Some raw \<Rightarrow>
             if length raw \<noteq> 32 then Inl (BadDigest (i + 1) (ak_user_id e))
             else (let slot = keyed (st_secret st) raw in
               case st_index st slot of
                 Some other \<Rightarrow> Inl (DuplicateDigest (i + 1) (ak_user_id e) (other + 1) (ak_user_id (st_keys st ! other)))
               | None \<Rightarrow> Inr (st\<lparr>st_index := (st_index st)(slot \<mapsto> i), st_summary := sm\<lparr>ks_indexed := ks_indexed sm + 1\<rparr>\<rparr>)))
      else if usableHash bc (ak_key_hash e) then
        Inr (st\<lparr>st_unseen := st_unseen st @ [i], st_summary := sm\<lparr>ks_bcrypt_only := ks_bcrypt_only sm + 1\<rparr>\<rparr>)
      else Inr (st\<lparr>st_summary := sm\<lparr>ks_unusable := ks_unusable sm @ [ak_user_id e]\<rparr>\<rparr>))"

fun load_entries :: "case_tables \<Rightarrow> bcrypt_ops \<Rightarrow> nat \<Rightarrow> api_key_entry list \<Rightarrow> api_key_store \<Rightarrow> (api_key_error, api_key_store) result" where
  "load_entries ct bc i [] st = Inr st"
| "load_entries ct bc i (e # es) st = bind_res (load_entry ct bc i e st) (load_entries ct bc (i + 1) es)"

definition NewAPIKeyStore :: "case_tables \<Rightarrow> bcrypt_ops \<Rightarrow> byte list \<Rightarrow> api_key_entry list \<Rightarrow> (api_key_error, api_key_store) result" where
  "NewAPIKeyStore ct bc secret es =
     load_entries ct bc 0 es
       \<lparr>st_keys = es, st_summary = \<lparr>ks_indexed = 0, ks_bcrypt_only = 0, ks_unusable = []\<rparr>, st_secret = secret,
        st_index = Map.empty, st_unseen = []\<rparr>"

text \<open>The digests of the file that approvers must not use, with their entries' positions and users.\<close>

fun key_sums :: "case_tables \<Rightarrow> nat \<Rightarrow> api_key_entry list \<Rightarrow> (string \<times> nat \<times> string) list \<Rightarrow> (string \<times> nat \<times> string) list" where
  "key_sums ct i [] out = out"
| "key_sums ct i (e # es) out =
     key_sums ct (i + 1) es (if key_digest ct e = [] then out else AList.update (key_digest ct e) (i + 1, ak_user_id e) out)"

definition KeySHA256Sums :: "case_tables \<Rightarrow> api_key_entry list \<Rightarrow> (string \<times> nat \<times> string) list" where
  "KeySHA256Sums ct es = key_sums ct 0 es []"

section \<open>Finding and verifying a key\<close>

definition lookup :: "index_key \<Rightarrow> api_key_store \<Rightarrow> nat option" where
  "lookup slot st = st_index st slot"

definition Find :: "string \<Rightarrow> api_key_store \<Rightarrow> nat option" where
  "Find key st = lookup (indexKeyOf (st_secret st) key) st"

definition remember :: "nat \<Rightarrow> index_key \<Rightarrow> api_key_store \<Rightarrow> nat option \<times> api_key_store" where
  "remember i slot st =
     (case st_index st slot of
        Some known \<Rightarrow> (Some known, st)
      | None \<Rightarrow>
          if i \<notin> set (st_unseen st) then (None, st)
          else (Some i, st\<lparr>st_unseen := remove1 i (st_unseen st), st_index := (st_index st)(slot \<mapsto> i)\<rparr>))"

text \<open>Where a request is in \<open>Verify\<close>: called; not found in the index; waiting for admission to the scan; at the head
  of the loop of \<open>scan\<close> with the entries it still has to compare; about to compare; with a hash
  that matched; returned. The entries of the queue are positions.\<close>

datatype verify_outcome = Verified nat | NoMatch | NotChecked compare_error

datatype verify_point =
    Called | Missed | Waiting
  | LoopHead "nat list"
  | ToCompare nat "nat list"
  | Matched nat
  | Done verify_outcome

record verify_request =
  vr_key :: string
  vr_point :: verify_point
  vr_compared :: "nat list"

record verify_state =
  vs_store :: api_key_store
  vs_requests :: "verify_request list"

definition request_key :: "api_key_store \<Rightarrow> verify_request \<Rightarrow> index_key" where
  "request_key st r = indexKeyOf (st_secret st) (vr_key r)"

definition goto :: "verify_point \<Rightarrow> verify_request \<Rightarrow> verify_request" where
  "goto p r = r\<lparr>vr_point := p\<rparr>"

text \<open>One step of one request on the shared store. \<open>refusal\<close> is the answer of the limiter when the step is one it may
  refuse: the admission to the scan, and every comparison.\<close>

fun found_or :: "nat option \<Rightarrow> verify_point \<Rightarrow> verify_point" where
  "found_or (Some i) p = Done (Verified i)"
| "found_or None p = p"

definition request_step :: "bcrypt_ops \<Rightarrow> compare_error option \<Rightarrow> verify_request \<Rightarrow> api_key_store \<Rightarrow> verify_request \<times> api_key_store" where
  "request_step bc refusal r st =
     (let slot = request_key st r in
      case vr_point r of
        Called \<Rightarrow> (goto (found_or (lookup slot st) Missed) r, st)
      | Missed \<Rightarrow> (goto (if st_unseen st = [] then Done NoMatch else Waiting) r, st)
      | Waiting \<Rightarrow> (case refusal of Some e \<Rightarrow> (goto (Done (NotChecked e)) r, st) | None \<Rightarrow> (goto (LoopHead (st_unseen st)) r, st))
      | LoopHead todo \<Rightarrow>
          (goto (found_or (lookup slot st) (case todo of [] \<Rightarrow> Done NoMatch | i # rest \<Rightarrow> ToCompare i rest)) r, st)
      | ToCompare i rest \<Rightarrow>
          (case refusal of
             Some e \<Rightarrow> (goto (Done (NotChecked e)) r, st)
           | None \<Rightarrow>
               (goto (if bc_compare bc (ak_key_hash (st_keys st ! i)) (vr_key r) then Matched i else LoopHead rest)
                  (r\<lparr>vr_compared := vr_compared r @ [i]\<rparr>), st))
      | Matched i \<Rightarrow>
          (let (res, st') = remember i slot st
           in (goto (Done (case res of Some k \<Rightarrow> Verified k | None \<Rightarrow> NoMatch)) r, st'))
      | Done out \<Rightarrow> (r, st))"

inductive verify_step :: "bcrypt_ops \<Rightarrow> verify_state \<Rightarrow> verify_state \<Rightarrow> bool" for bc where
  arrive: "verify_step bc s (s\<lparr>vs_requests := vs_requests s @ [\<lparr>vr_key = key, vr_point = Called, vr_compared = []\<rparr>]\<rparr>)"
| advance: "k < length (vs_requests s) \<Longrightarrow> request_step bc refusal (vs_requests s ! k) (vs_store s) = (r, st) \<Longrightarrow>
    verify_step bc s (s\<lparr>vs_requests := (vs_requests s)[k := r], vs_store := st\<rparr>)"

inductive verify_reachable :: "bcrypt_ops \<Rightarrow> api_key_store \<Rightarrow> verify_state \<Rightarrow> bool" for bc st0 where
  start: "verify_reachable bc st0 \<lparr>vs_store = st0, vs_requests = []\<rparr>"
| step: "verify_reachable bc st0 s \<Longrightarrow> verify_step bc s s' \<Longrightarrow> verify_reachable bc st0 s'"

text \<open>\<open>scan\<close> and \<open>Verify\<close> of a request that no other request interrupts. \<open>refuse\<close> is the answer of the limiters: to the admission
  to the scan, and then to each comparison.\<close>

fun scan :: "bcrypt_ops \<Rightarrow> (nat \<Rightarrow> compare_error option) \<Rightarrow> nat \<Rightarrow> string \<Rightarrow> nat list \<Rightarrow> api_key_store \<Rightarrow> (compare_error, nat option) result \<times> api_key_store" where
  "scan bc refuse n key [] st = (Inr (Find key st), st)"
| "scan bc refuse n key (i # rest) st =
     (case Find key st of
        Some k \<Rightarrow> (Inr (Some k), st)
      | None \<Rightarrow>
          (case refuse n of
             Some e \<Rightarrow> (Inl e, st)
           | None \<Rightarrow>
               if bc_compare bc (ak_key_hash (st_keys st ! i)) key
               then (let (r, st') = remember i (indexKeyOf (st_secret st) key) st in (Inr r, st'))
               else scan bc refuse (Suc n) key rest st))"

definition Verify :: "bcrypt_ops \<Rightarrow> (nat \<Rightarrow> compare_error option) \<Rightarrow> string \<Rightarrow> api_key_store \<Rightarrow> (compare_error, nat option) result \<times> api_key_store" where
  "Verify bc refuse key st =
     (case Find key st of
        Some k \<Rightarrow> (Inr (Some k), st)
      | None \<Rightarrow>
          if st_unseen st = [] then (Inr None, st)
          else case refuse 0 of Some e \<Rightarrow> (Inl e, st) | None \<Rightarrow> scan bc refuse 1 key (st_unseen st) st)"

end
