(* ===== verification/Users.thy ===== *)
theory Users
  imports ApiKeys
begin

text \<open>
  The users of \<open>users.yaml\<close> (\<open>internal/auth/users.go\<close>) and the trust classes of callers
  (\<open>internal/config/callerclasses.go\<close>). Where the code ranges over a Go map, the list the model takes
  is the order of that iteration, which the language leaves open.
\<close>

section \<open>Users\<close>

record user_entry =
  us_username :: string
  us_password_hash :: string
  us_company :: string
  us_plan :: string
  us_roles :: "string list option"

record user_store =
  ut_users :: "(string \<times> user_entry) list"
  ut_dummy_hash :: string

definition bcrypt_DefaultCost :: int where "bcrypt_DefaultCost = 10"

fun cost_counts :: "bcrypt_ops \<Rightarrow> user_entry list \<Rightarrow> (int \<times> nat) list \<Rightarrow> (int \<times> nat) list" where
  "cost_counts bc [] counts = counts"
| "cost_counts bc (u # us) counts =
     cost_counts bc us
       (case bc_cost bc (us_password_hash u) of
          None \<Rightarrow> counts
        | Some c \<Rightarrow> AList.update c (case map_of counts c of None \<Rightarrow> 1 | Some n \<Rightarrow> n + 1) counts)"

fun better_cost :: "int \<times> nat \<Rightarrow> int \<times> nat \<Rightarrow> int \<times> nat" where
  "better_cost (cost, n) (best, m) =
     (if n > m \<or> (n = m \<and> cost > best) then (cost, n) else (best, m))"

text \<open>The choice among the counts in the order they are visited.\<close>

definition pick_cost :: "(int \<times> nat) list \<Rightarrow> int" where
  "pick_cost counts = fst (fold better_cost counts (bcrypt_DefaultCost, 0))"

definition dummyHashCost :: "bcrypt_ops \<Rightarrow> user_entry list \<Rightarrow> int" where
  "dummyHashCost bc us = pick_cost (cost_counts bc us [])"

text \<open>\<open>generate\<close> is \<open>newDummyHash\<close> with its randomness: the bcrypt hash of a fresh random secret, or a failure.\<close>

definition NewUserStore :: "bcrypt_ops \<Rightarrow> (int \<Rightarrow> string option) \<Rightarrow> user_entry list \<Rightarrow> user_store option" where
  "NewUserStore bc generate us =
     (case generate (dummyHashCost bc us) of
        None \<Rightarrow> None
      | Some h \<Rightarrow> Some \<lparr>ut_users = fold (\<lambda>u. AList.update (us_username u) u) us [], ut_dummy_hash = h\<rparr>)"

fun new_costs :: "bcrypt_ops \<Rightarrow> (string \<times> user_entry) list \<Rightarrow> int list \<Rightarrow> int list" where
  "new_costs bc [] costs = costs"
| "new_costs bc ((name, u) # us) costs =
     new_costs bc us
       (if \<not> usableHash bc (us_password_hash u) then costs
        else case bc_cost bc (us_password_hash u) of
            None \<Rightarrow> costs
          | Some c \<Rightarrow> if c \<in> set costs then costs else costs @ [c])"

definition HashProblems :: "bcrypt_ops \<Rightarrow> user_store \<Rightarrow> string list \<times> int list" where
  "HashProblems bc s =
     (let unusable = sort (map fst (filter (\<lambda>(name, u). \<not> usableHash bc (us_password_hash u)) (ut_users s)));
          costs = sort (new_costs bc (ut_users s) [])
      in (unusable, if length costs < 2 then [] else costs))"

text \<open>The result, and the hashes bcrypt worked on; \<open>refusal\<close> is the answer of the comparison limiter.\<close>

definition Authenticate :: "bcrypt_ops \<Rightarrow> compare_error option \<Rightarrow> string \<Rightarrow> string \<Rightarrow> user_store \<Rightarrow> (compare_error, user_entry option) result \<times> string list" where
  "Authenticate bc refusal username password s =
     (let u = map_of (ut_users s) username;
          usable = (case u of None \<Rightarrow> False | Some e \<Rightarrow> usableHash bc (us_password_hash e));
          hash = (case u of Some e \<Rightarrow> if usable then us_password_hash e else ut_dummy_hash s | None \<Rightarrow> ut_dummy_hash s)
      in case refusal of
           Some e \<Rightarrow> (Inl e, [])
         | None \<Rightarrow> (if \<not> bc_compare bc hash password \<or> \<not> usable then Inr None else Inr u, [hash]))"

section \<open>Caller classes\<close>

definition CallerClassUntrusted :: string where "CallerClassUntrusted = ''untrusted''"

type_synonym caller_classes = "(string \<times> string list) list"

definition has_suffix :: "string \<Rightarrow> string \<Rightarrow> bool" where
  "has_suffix s suf \<longleftrightarrow> has_prefix (rev s) (rev suf)"

definition matchPattern :: "string \<Rightarrow> string \<Rightarrow> bool" where
  "matchPattern pattern callerID =
     (if has_suffix pattern ''*'' then has_prefix callerID (trim_suffix pattern ''*'') else pattern = callerID)"

fun first_class :: "string \<Rightarrow> caller_classes \<Rightarrow> string" where
  "first_class callerID [] = CallerClassUntrusted"
| "first_class callerID ((cls, patterns) # rest) =
     (if list_ex (\<lambda>p. matchPattern p callerID) patterns then cls else first_class callerID rest)"

text \<open>\<open>Resolve\<close>; no classes is the nil receiver, and the order of the classes is that of the map iteration.\<close>

definition Resolve :: "caller_classes option \<Rightarrow> string \<Rightarrow> string" where
  "Resolve cc callerID =
     (case cc of
        None \<Rightarrow> CallerClassUntrusted
      | Some classes \<Rightarrow> if callerID = [] then CallerClassUntrusted else first_class callerID classes)"

section \<open>The cost of the dummy hash\<close>

text \<open>The fold is a maximum over the pairs (count, cost), so the order of the map does not matter.\<close>

lemma better_cost_max: "prod.swap (better_cost a b) = max (prod.swap a) (prod.swap b)"
  by (cases a; cases b) (auto simp: max_def less_eq_prod_simp)

lemma fold_better_cost: "prod.swap (fold better_cost xs b) = fold max (map prod.swap xs) (prod.swap b)"
  by (induction xs arbitrary: b) (simp_all add: better_cost_max)

lemma pick_cost_Max: "pick_cost counts = snd (Max (insert (0, bcrypt_DefaultCost) (prod.swap ` set counts)))"
proof -
  have "prod.swap (fold better_cost counts (bcrypt_DefaultCost, 0)) = Max (set ((0, bcrypt_DefaultCost) # map prod.swap counts))"
    by (simp only: fold_better_cost Max.set_eq_fold) simp
  then have "snd (prod.swap (fold better_cost counts (bcrypt_DefaultCost, 0))) = snd (Max (insert (0, bcrypt_DefaultCost) (prod.swap ` set counts)))"
    by simp
  then show ?thesis by (simp add: pick_cost_def)
qed

lemma pick_cost_order: "set xs = set ys \<Longrightarrow> pick_cost xs = pick_cost ys"
  by (simp add: pick_cost_Max)

abbreviation cost_count :: "bcrypt_ops \<Rightarrow> user_entry list \<Rightarrow> int \<Rightarrow> nat" where
  "cost_count bc us c \<equiv> length (filter (\<lambda>u. bc_cost bc (us_password_hash u) = Some c) us)"

lemma cost_counts_lookup:
  "map_of (cost_counts bc us counts) c =
     (if cost_count bc us c = 0 then map_of counts c else Some (cost_count bc us c + (case map_of counts c of None \<Rightarrow> 0 | Some n \<Rightarrow> n)))"
  by (induction us arbitrary: counts) (auto simp: update_conv' split: option.splits)

lemma cost_counts_distinct: "distinct (map fst counts) \<Longrightarrow> distinct (map fst (cost_counts bc us counts))"
  by (induction us arbitrary: counts) (auto simp: distinct_update split: option.split)

lemma cost_counts_mem: "(c, n) \<in> set (cost_counts bc us []) \<longleftrightarrow> n = cost_count bc us c \<and> n \<noteq> 0"
proof -
  have "(c, n) \<in> set (cost_counts bc us []) \<longleftrightarrow> map_of (cost_counts bc us []) c = Some n"
    by (rule map_of_eq_Some_iff [symmetric]) (simp add: cost_counts_distinct)
  then show ?thesis by (auto simp: cost_counts_lookup)
qed

text \<open>The cost of the dummy hash is one that most password hashes have, the highest of these, in whatever order the map
  of counts is visited.\<close>

theorem dummy_cost_most_common:
  assumes "mset counts = mset (cost_counts bc us [])" "bc_cost bc (us_password_hash u) = Some c" "u \<in> set us"
  shows "pick_cost counts = dummyHashCost bc us \<and> 0 < cost_count bc us (dummyHashCost bc us) \<and>
    (cost_count bc us c < cost_count bc us (dummyHashCost bc us) \<or>
     cost_count bc us c = cost_count bc us (dummyHashCost bc us) \<and> c \<le> dummyHashCost bc us)"
proof -
  let ?S = "insert (0, bcrypt_DefaultCost) (prod.swap ` set (cost_counts bc us []))"
  let ?m = "Max ?S"
  have "set counts = set (cost_counts bc us [])" using assms(1) by (metis set_mset_mset)
  then have 1: "pick_cost counts = dummyHashCost bc us" unfolding dummyHashCost_def by (rule pick_cost_order)
  have n: "0 < cost_count bc us c" using assms(2,3) by (auto simp: filter_empty_conv)
  then have "(c, cost_count bc us c) \<in> set (cost_counts bc us [])" unfolding cost_counts_mem by simp
  then have "prod.swap (c, cost_count bc us c) \<in> ?S" by (intro insertI2 imageI)
  then have "(cost_count bc us c, c) \<in> ?S" by simp
  then have le: "(cost_count bc us c, c) \<le> ?m" by simp
  have "?m \<in> ?S" by (rule Max_in) auto
  moreover have "?m \<noteq> (0, bcrypt_DefaultCost)" using le n by (auto simp: less_eq_prod_simp)
  ultimately have "?m \<in> prod.swap ` set (cost_counts bc us [])" by blast
  then obtain best n where b: "(best, n) \<in> set (cost_counts bc us [])" "?m = (n, best)" by (metis imageE surj_pair swap_simp)
  have d: "dummyHashCost bc us = best" by (simp only: dummyHashCost_def pick_cost_Max b(2) snd_conv)
  have "n = cost_count bc us best" "0 < cost_count bc us best" using b(1) unfolding cost_counts_mem by auto
  moreover have "cost_count bc us c < n \<or> cost_count bc us c = n \<and> c \<le> best" using le unfolding b(2) less_eq_prod_simp by auto
  ultimately show ?thesis using 1 unfolding d by metis
qed

section \<open>Logging in\<close>

text \<open>a login attempt succeeds exactly for a configured user whose hash bcrypt can use and matches; unless it was
  refused it costs exactly one comparison, whether or not the user exists, and a refused attempt is
  neither accepted nor rejected.\<close>

theorem authenticate_exact:
  "let (out, compared) = Authenticate bc refusal username password s in
     (out = Inr (Some u) \<longleftrightarrow> refusal = None \<and> map_of (ut_users s) username = Some u \<and> usableHash bc (us_password_hash u) \<and>
        bc_compare bc (us_password_hash u) password) \<and>
     length compared = (if refusal = None then 1 else 0) \<and> (isl out \<longleftrightarrow> refusal \<noteq> None) \<and>
     (map_of (ut_users s) username = None \<and> refusal = None \<longrightarrow> compared = [ut_dummy_hash s])"
  by (cases refusal) (auto simp: Authenticate_def Let_def split: option.splits)

section \<open>Resolving a caller\<close>

lemma first_class_cases:
  "first_class callerID classes = cls \<Longrightarrow>
     (\<exists>patterns. (cls, patterns) \<in> set classes \<and> list_ex (\<lambda>p. matchPattern p callerID) patterns) \<or>
     cls = CallerClassUntrusted \<and> (\<forall>(c, patterns) \<in> set classes. \<not> list_ex (\<lambda>p. matchPattern p callerID) patterns)"
  by (induction classes rule: first_class.induct) (auto split: if_splits)

text \<open>A caller in whom patterns of two classes match is in either of them, by the order in which the map of classes is
  visited, and only then: when the matching classes agree, the order does not matter.\<close>

theorem caller_class_order:
  assumes "callerID \<noteq> []"
  shows "(\<exists>order. mset order = mset classes \<and> Resolve (Some order) callerID = cls) \<longleftrightarrow>
     (if list_ex (\<lambda>(c, ps). list_ex (\<lambda>p. matchPattern p callerID) ps) classes
      then list_ex (\<lambda>(c, ps). c = cls \<and> list_ex (\<lambda>p. matchPattern p callerID) ps) classes
      else cls = CallerClassUntrusted)" (is "?l \<longleftrightarrow> ?r")
proof
  assume ?l
  then obtain order where o: "mset order = mset classes" "first_class callerID order = cls" using assms by (auto simp: Resolve_def)
  then have "set order = set classes" by (metis set_mset_mset)
  with first_class_cases [OF o(2)] show ?r by (fastforce simp: list_ex_iff)
next
  assume r: ?r
  show ?l
  proof (cases "list_ex (\<lambda>(c, ps). c = cls \<and> list_ex (\<lambda>p. matchPattern p callerID) ps) classes")
    case True
    then obtain ps where ps: "(cls, ps) \<in> set classes" "list_ex (\<lambda>p. matchPattern p callerID) ps" by (auto simp: list_ex_iff)
    have "mset ((cls, ps) # remove1 (cls, ps) classes) = mset classes" using ps(1) by simp
    moreover have "Resolve (Some ((cls, ps) # remove1 (cls, ps) classes)) callerID = cls" using ps(2) assms by (simp add: Resolve_def)
    ultimately show ?thesis by blast
  next
    case False
    then have "\<not> list_ex (\<lambda>(c, ps). list_ex (\<lambda>p. matchPattern p callerID) ps) classes" "cls = CallerClassUntrusted" using r by (auto split: if_splits)
    then have "first_class callerID classes = cls" using first_class_cases [OF refl, of callerID classes] by (auto simp: list_ex_iff)
    then show ?thesis using assms by (auto simp: Resolve_def)
  qed
qed

section \<open>Witnesses\<close>

definition demo_account :: user_entry where
  "demo_account = \<lparr>us_username = ''ann'', us_password_hash = ''$2a$12$abcdefghijklmnopqrstuv'', us_company = [], us_plan = [], us_roles = None\<rparr>"

theorem dummy_cost_most_common_witness:
  "pick_cost [(12, 1)] = dummyHashCost \<lparr>bc_compare = (\<lambda>h k. False), bc_cost = (\<lambda>h. Some 12)\<rparr> [demo_account]"
  using dummy_cost_most_common [of "[(12, 1)]" "\<lparr>bc_compare = (\<lambda>h k. False), bc_cost = (\<lambda>h. Some 12)\<rparr>" "[demo_account]" demo_account 12] by simp

theorem authenticate_exact_witness:
  "fst (Authenticate \<lparr>bc_compare = (\<lambda>h k. True), bc_cost = (\<lambda>h. Some 12)\<rparr> None ''bob'' ''x'' \<lparr>ut_users = [(''ann'', demo_account)], ut_dummy_hash = ''d''\<rparr>) = Inr None"
  using authenticate_exact [of "\<lparr>bc_compare = (\<lambda>h k. True), bc_cost = (\<lambda>h. Some 12)\<rparr>" None "''bob''" "''x''"
      "\<lparr>ut_users = [(''ann'', demo_account)], ut_dummy_hash = ''d''\<rparr>" demo_account]
  by (simp add: Authenticate_def)

theorem caller_class_order_witness:
  "(\<exists>order. mset order = mset [(''trusted'', [''ci-*'']), (''restricted'', [''ci-bot''])] \<and> Resolve (Some order) ''ci-bot'' = ''restricted'') \<and>
   (\<exists>order. mset order = mset [(''trusted'', [''ci-*'']), (''restricted'', [''ci-bot''])] \<and> Resolve (Some order) ''ci-bot'' = ''trusted'')"
  using caller_class_order [of "''ci-bot''" "[(''trusted'', [''ci-*'']), (''restricted'', [''ci-bot''])]" "''trusted''"]
    caller_class_order [of "''ci-bot''" "[(''trusted'', [''ci-*'']), (''restricted'', [''ci-bot''])]" "''restricted''"]
  by (simp add: matchPattern_def has_suffix_def has_prefix_def trim_suffix_def)

end
