(* ===== verification/OAuthServer.thy ===== *)
theory OAuthServer
  imports TokenStores Users ClientAddr Userctx
begin

text \<open>
  Authentication in the MCP server (\<open>internal/mcp/server.go\<close>): who a bearer credential stands for, and
  the OAuth endpoints that register clients, take passwords, and hand out and refresh tokens. A
  handler takes the request and its circumstances: the clock, the random bytes it reads, and how
  each call to a store, to the throttle and to the limiters goes. Log lines are not modelled; the
  login metric is.
\<close>

section \<open>Server, requests and circumstances\<close>

record ('s, 'r) oauth_server =
  sv_tables :: case_tables
  sv_bcrypt :: bcrypt_ops
  sv_store :: "'s token_ops option"
  sv_users :: "user_store option"
  sv_has_keys :: bool
  sv_throttle :: "'r throttle"
  sv_limiter :: "'r redis_ops option"
  sv_api_key :: string
  sv_auth_user :: string
  sv_auth_password :: string
  sv_auth_plan :: string
  sv_auth_roles :: string
  sv_dcr_client_ttl :: int
  sv_dcr_idle_ttl :: int
  sv_parse_url :: "string \<Rightarrow> (string \<times> string) option"

record ('s, 'r) oauth_state =
  ov_store :: 's
  ov_keys :: api_key_store
  ov_throttle :: "'r throttle_state"
  ov_logins :: "(string \<times> bool) list"

record circumstances =
  ci_now :: "nat \<Rightarrow> time"
  ci_random :: "nat \<Rightarrow> byte list"
  ci_store :: "nat \<Rightarrow> store_env"
  ci_link :: "nat \<Rightarrow> redis_link"
  ci_server_ms :: int
  ci_refuse :: "nat \<Rightarrow> compare_error option"
  ci_classes :: "caller_classes option"

text \<open>\<open>rq_form\<close> is \<open>FormValue\<close> after \<open>ParseForm\<close>, \<open>None\<close> when that fails; an absent value is empty. \<open>rq_register\<close> is the
  decoded body of a registration.\<close>

record http_request =
  rq_method :: string
  rq_authorization :: string
  rq_content_type :: string
  rq_forwarded :: string
  rq_remote :: string
  rq_query :: "string \<Rightarrow> string"
  rq_form :: "(string \<Rightarrow> string) option"
  rq_register :: "(string list \<times> string) option"

record login_form =
  lf_client_id :: string
  lf_redirect_uri :: string
  lf_state :: string
  lf_code_challenge :: string
  lf_scope :: string
  lf_error :: string

datatype oauth_response =
    PlainError nat
  | JsonError nat string string
  | LoginPage nat login_form "nat option"
  | Found string
  | Created string string "string list"
  | TokenReply string string string

definition loginMethodPassword :: string where "loginMethodPassword = ''password''"
definition loginMethodOAuthCode :: string where "loginMethodOAuthCode = ''oauth_code''"
definition loginMethodOAuthRefresh :: string where "loginMethodOAuthRefresh = ''oauth_refresh''"
definition loginMethodAPIKey :: string where "loginMethodAPIKey = ''api_key''"
definition loginMethodOAuthBearer :: string where "loginMethodOAuthBearer = ''oauth_bearer''"
definition loginMethodAnonymous :: string where "loginMethodAnonymous = ''anonymous''"
definition loginReasonUnknownClient :: string where "loginReasonUnknownClient = ''unknown_client''"
definition loginReasonInvalidRedirectURI :: string where "loginReasonInvalidRedirectURI = ''invalid_redirect_uri''"
definition invalidGrantError :: string where "invalidGrantError = ''invalid_grant''"
definition oauthErrInvalidReq :: string where "oauthErrInvalidReq = ''invalid_request''"
definition oauthErrInvalidRedURI :: string where "oauthErrInvalidRedURI = ''invalid_redirect_uri''"
definition oauthErrServerError :: string where "oauthErrServerError = ''server_error''"
definition oauthErrAccessDenied :: string where "oauthErrAccessDenied = ''access_denied''"
definition descPasswordLoginDisabled :: string where "descPasswordLoginDisabled = ''password login is not configured on this server''"
definition descUnknownClient :: string where "descUnknownClient = ''unknown client''"
definition descPKCERequired :: string where "descPKCERequired = ''code_challenge is required (PKCE)''"
definition msgInvalidCredentials :: string where "msgInvalidCredentials = ''Invalid username or password.''"
definition msgLoginBusy :: string where "msgLoginBusy = ''The server is busy. Try again in a moment.''"
definition userAnonymous :: string where "userAnonymous = ''anonymous''"
definition userDefault :: string where "userDefault = ''default''"
definition generatedIDBytes :: nat where "generatedIDBytes = 32"
definition MinDCRClientIdleTTL :: int where "MinDCRClientIdleTTL = 7 * 24 * 60 * 60"

definition RecordLogin :: "string \<Rightarrow> bool \<Rightarrow> ('s, 'r) oauth_state \<Rightarrow> ('s, 'r) oauth_state" where
  "RecordLogin meth success st = st\<lparr>ov_logins := ov_logins st @ [(meth, success)]\<rparr>"

definition generateID :: "circumstances \<Rightarrow> nat \<Rightarrow> string" where
  "generateID ci k = hex_encode (ci_random ci k)"

definition secretsEqual :: "string \<Rightarrow> string \<Rightarrow> bool" where
  "secretsEqual submitted configured =
     (if configured = [] then False else sha256 (bytes_of submitted) = sha256 (bytes_of configured))"

definition AuthRolesList :: "('s, 'r) oauth_server \<Rightarrow> string list option" where
  "AuthRolesList sv = Some (split_char (CHR '','') (sv_auth_roles sv))"

definition passwordLoginConfigured :: "('s, 'r) oauth_server \<Rightarrow> bool" where
  "passwordLoginConfigured sv \<longleftrightarrow> sv_users sv \<noteq> None \<or> sv_auth_password sv \<noteq> []"

definition extractBearer :: "string \<Rightarrow> string" where
  "extractBearer h = (if has_prefix h ''Bearer '' then trim_prefix h ''Bearer '' else [])"

section \<open>Bearer credentials\<close>

definition apiKeyCaller :: "('s, 'r) oauth_server \<Rightarrow> circumstances \<Rightarrow> api_key_entry \<Rightarrow> user_context" where
  "apiKeyCaller sv ci e =
     (let callerID = (if ak_caller_id e = [] then ak_user_id e else ak_caller_id e)
      in \<lparr>uc_user_id = ak_user_id e, uc_company_id = ak_company_id e, uc_roles = ak_roles e, uc_plan = ak_plan e, uc_authenticated = True,
          uc_caller_id = callerID, uc_caller_name = callerID, uc_caller_class = Resolve (ci_classes ci) callerID,
          uc_grant_key = (if ak_caller_id e = [] then GrantKey (sv_tables sv) e else [])\<rparr>)"

definition envKeyCaller :: "('s, 'r) oauth_server \<Rightarrow> circumstances \<Rightarrow> user_context" where
  "envKeyCaller sv ci =
     \<lparr>uc_user_id = sv_auth_user sv, uc_company_id = userDefault, uc_roles = AuthRolesList sv, uc_plan = sv_auth_plan sv, uc_authenticated = True,
      uc_caller_id = sv_auth_user sv, uc_caller_name = [], uc_caller_class = Resolve (ci_classes ci) (sv_auth_user sv), uc_grant_key = []\<rparr>"

definition tokenCaller :: "circumstances \<Rightarrow> token_info \<Rightarrow> user_context" where
  "tokenCaller ci ti =
     (let callerID = (if ti_caller_id ti = [] then ti_client_id ti else ti_caller_id ti)
      in \<lparr>uc_user_id = ti_user_id ti, uc_company_id = ti_company_id ti, uc_roles = ti_roles ti, uc_plan = ti_plan ti, uc_authenticated = True,
          uc_caller_id = callerID, uc_caller_name = ti_caller_name ti, uc_caller_class = Resolve (ci_classes ci) callerID, uc_grant_key = []\<rparr>)"

definition anonymousCaller :: user_context where
  "anonymousCaller = zero_user_context\<lparr>uc_user_id := userAnonymous, uc_caller_id := userAnonymous, uc_caller_class := ''untrusted''\<rparr>"

definition isIssuedTokenShape :: "string \<Rightarrow> bool" where
  "isIssuedTokenShape v =
     (length v = 2 * generatedIDBytes \<and>
      list_all (\<lambda>c. let b = byte_of c :: nat in 48 \<le> b \<and> b \<le> 57 \<or> 97 \<le> b \<and> b \<le> 102) v)"

definition bearerRejected :: "string \<Rightarrow> bool \<Rightarrow> bool \<Rightarrow> bool \<Rightarrow> ('s, 'r) oauth_state \<Rightarrow> ('s, 'r) oauth_state" where
  "bearerRejected bearer checkedAPIKey checkedOAuth expiredToken st =
     (let tokenShaped = (expiredToken \<or> isIssuedTokenShape bearer)
      in if checkedOAuth \<and> (tokenShaped \<or> \<not> checkedAPIKey) then RecordLogin loginMethodOAuthBearer False st
         else if checkedAPIKey then RecordLogin loginMethodAPIKey False st
         else st)"

datatype skipped = StoreUnchecked token_error | KeyUnchecked compare_error

text \<open>What the token store says of the bearer: it stands for a token, is an expired one, is unknown, or could not be looked up.\<close>

datatype token_check = TokenValid token_info | TokenExpired | TokenUnknown | TokenUnchecked token_error | TokenNotAsked

definition check_token :: "('s, 'r) oauth_server \<Rightarrow> circumstances \<Rightarrow> string \<Rightarrow> ('s, 'r) oauth_state \<Rightarrow> token_check \<times> ('s, 'r) oauth_state" where
  "check_token sv ci bearer st =
     (case sv_store sv of
        None \<Rightarrow> (TokenNotAsked, st)
      | Some ops \<Rightarrow>
          if \<not> passwordLoginConfigured sv then (TokenNotAsked, st)
          else (let (res, s) = to_get_token ops (ci_store ci 0) bearer (ov_store st); st1 = st\<lparr>ov_store := s\<rparr>
                in case res of
                     Inr ti \<Rightarrow> (if ci_now ci 0 < ti_expires_at ti then TokenValid ti else TokenExpired, st1)
                   | Inl NotFound \<Rightarrow> (TokenUnknown, st1)
                   | Inl StoreFailed \<Rightarrow> (TokenUnchecked StoreFailed, st1)))"

definition reject :: "string \<Rightarrow> skipped option \<Rightarrow> bool \<Rightarrow> bool \<Rightarrow> bool \<Rightarrow> ('s, 'r) oauth_state \<Rightarrow> (skipped, user_context) result \<times> ('s, 'r) oauth_state" where
  "reject bearer skipped checkedAPIKey checkedOAuth expiredToken st =
     (case skipped of
        Some e \<Rightarrow> (Inl e, st)
      | None \<Rightarrow> (Inr anonymousCaller, bearerRejected bearer checkedAPIKey checkedOAuth expiredToken st))"

definition authenticate :: "('s, 'r) oauth_server \<Rightarrow> circumstances \<Rightarrow> string \<Rightarrow> ('s, 'r) oauth_state \<Rightarrow> (skipped, user_context) result \<times> ('s, 'r) oauth_state" where
  "authenticate sv ci header st =
     (let bearer = extractBearer header; checkedAPIKey = (sv_has_keys sv \<or> sv_api_key sv \<noteq> [])
      in if bearer = [] then (Inr anonymousCaller, RecordLogin loginMethodAnonymous False st)
         else case (if sv_has_keys sv then Find bearer (ov_keys st) else None) of
           Some i \<Rightarrow> (Inr (apiKeyCaller sv ci (st_keys (ov_keys st) ! i)), RecordLogin loginMethodAPIKey True st)
         | None \<Rightarrow>
             if sv_api_key sv \<noteq> [] \<and> \<not> sv_has_keys sv \<and> secretsEqual bearer (sv_api_key sv)
             then (Inr (envKeyCaller sv ci), RecordLogin loginMethodAPIKey True st)
             else (let (check, st1) = check_token sv ci bearer st;
                       checkedOAuth = (check = TokenExpired \<or> check = TokenUnknown); expired = (check = TokenExpired);
                       skipped = (case check of TokenUnchecked e \<Rightarrow> Some (StoreUnchecked e) | _ \<Rightarrow> None)
                   in case check of
                        TokenValid ti \<Rightarrow> (Inr (tokenCaller ci ti), RecordLogin loginMethodOAuthBearer True st1)
                      | _ \<Rightarrow>
                          if sv_has_keys sv \<and> \<not> expired
                          then (case Verify (sv_bcrypt sv) (ci_refuse ci) bearer (ov_keys st1) of
                                  (Inl e, ks) \<Rightarrow> reject bearer (Some (KeyUnchecked e)) checkedAPIKey checkedOAuth expired (st1\<lparr>ov_keys := ks\<rparr>)
                                | (Inr (Some i), ks) \<Rightarrow> (Inr (apiKeyCaller sv ci (st_keys ks ! i)), RecordLogin loginMethodAPIKey True (st1\<lparr>ov_keys := ks\<rparr>))
                                | (Inr None, ks) \<Rightarrow> reject bearer skipped checkedAPIKey checkedOAuth expired (st1\<lparr>ov_keys := ks\<rparr>))
                          else reject bearer skipped checkedAPIKey checkedOAuth expired st1))"

section \<open>Registration\<close>

definition redirect_uri_error :: "('s, 'r) oauth_server \<Rightarrow> string \<Rightarrow> string option" where
  "redirect_uri_error sv uri =
     (case sv_parse_url sv uri of
        None \<Rightarrow> Some (''malformed URI: '' @ uri)
      | Some (scheme, hostname) \<Rightarrow>
          if scheme = ''http'' \<and> (hostname = ''localhost'' \<or> hostname = ''127.0.0.1'' \<or> hostname = ''::1'') then None
          else if scheme \<noteq> ''https'' then Some (''redirect_uri must use https scheme: '' @ uri)
          else None)"

definition limiter_denies :: "('s, 'r) oauth_server \<Rightarrow> circumstances \<Rightarrow> http_request \<Rightarrow> ('s, 'r) oauth_state \<Rightarrow> bool \<times> ('s, 'r) oauth_state" where
  "limiter_denies sv ci rq st =
     (case sv_limiter sv of
        None \<Rightarrow> (False, st)
      | Some ops \<Rightarrow>
          (let (allowed, r) = dcr_Allow ops (ci_link ci 0) (ci_server_ms ci) (ClientIP (rq_forwarded rq) (rq_remote rq)) (ts_redis (ov_throttle st))
           in (allowed = Some False, st\<lparr>ov_throttle := (ov_throttle st)\<lparr>ts_redis := r\<rparr>\<rparr>)))"

definition handleRegister :: "('s, 'r) oauth_server \<Rightarrow> circumstances \<Rightarrow> http_request \<Rightarrow> ('s, 'r) oauth_state \<Rightarrow> oauth_response \<times> ('s, 'r) oauth_state" where
  "handleRegister sv ci rq st =
     (if rq_method rq \<noteq> ''POST'' then (PlainError 405, st)
      else let (denied, st1) = limiter_denies sv ci rq st
           in if denied then (JsonError 429 ''too_many_requests'' [], st1)
              else if \<not> has_prefix (rq_content_type rq) ''application/json''
              then (JsonError 400 oauthErrInvalidReq ''Content-Type must be application/json'', st1)
              else case rq_register rq of
                  None \<Rightarrow> (JsonError 400 oauthErrInvalidReq [], st1)
                | Some (uris, name) \<Rightarrow>
                    (case List.map_filter (redirect_uri_error sv) uris of
                       d # _ \<Rightarrow> (JsonError 400 oauthErrInvalidRedURI d, st1)
                     | [] \<Rightarrow>
                         (let now = ci_now ci 0;
                              c = \<lparr>oc_client_id = generateID ci 0, oc_client_secret = generateID ci 1, oc_client_name = name, oc_redirect_uris = uris,
                                   oc_created_at = now,
                                   oc_expires_at = (if sv_dcr_client_ttl sv > 0 then Some (now + sv_dcr_client_ttl sv * second) else None)\<rparr>;
                              reply = Created (oc_client_id c) (oc_client_secret c) uris
                          in case sv_store sv of
                               None \<Rightarrow> (reply, st1)
                             | Some ops \<Rightarrow>
                                 (let (err, s) = to_save_client ops (ci_store ci 0) c (ov_store st1)
                                  in (if err = None then reply else JsonError 500 oauthErrServerError [], st1\<lparr>ov_store := s\<rparr>)))))"

section \<open>The password login\<close>

text \<open>The empty reason means that the pair is valid.\<close>

definition validateClientRedirect :: "('s, 'r) oauth_server \<Rightarrow> circumstances \<Rightarrow> string \<Rightarrow> string \<Rightarrow> ('s, 'r) oauth_state \<Rightarrow> string" where
  "validateClientRedirect sv ci clientID redirectURI st =
     (case sv_store sv of
        None \<Rightarrow> []
      | Some ops \<Rightarrow>
          (case to_get_client ops (ci_store ci 0) clientID (ov_store st) of
             Inl _ \<Rightarrow> loginReasonUnknownClient
           | Inr c \<Rightarrow> if redirectURI \<in> set (oc_redirect_uris c) then [] else loginReasonInvalidRedirectURI))"

definition retryAfterSeconds :: "duration \<Rightarrow> int" where
  "retryAfterSeconds d = max ((d + second - 1) div second) 1"

definition humanWait :: "int \<Rightarrow> string" where
  "humanWait seconds = (let minutes = (seconds + 59) div 60 in if minutes \<le> 1 then ''a minute'' else itoa (nat minutes) @ '' minutes'')"

text \<open>The user, company, plan and roles a login stands for.\<close>

type_synonym identity = "string \<times> string \<times> string \<times> string list option"

definition check_password :: "('s, 'r) oauth_server \<Rightarrow> circumstances \<Rightarrow> string \<Rightarrow> string \<Rightarrow> (compare_error, identity option) result" where
  "check_password sv ci username password =
     (case sv_users sv of
        Some us \<Rightarrow>
          (case fst (Authenticate (sv_bcrypt sv) (ci_refuse ci 0) username password us) of
             Inl e \<Rightarrow> Inl e
           | Inr None \<Rightarrow> Inr None
           | Inr (Some u) \<Rightarrow> Inr (Some (us_username u, us_company u, us_plan u, us_roles u)))
      | None \<Rightarrow>
          if \<not> secretsEqual password (sv_auth_password sv) then Inr None
          else Inr (Some (sv_auth_user sv, ''default'', sv_auth_plan sv, AuthRolesList sv)))"

definition new_auth_code :: "circumstances \<Rightarrow> login_form \<Rightarrow> identity \<Rightarrow> auth_code" where
  "new_auth_code ci form who =
     (case who of (user, company, plan, roles) \<Rightarrow>
        \<lparr>ac_code = generateID ci 0, ac_client_id = lf_client_id form, ac_redirect_uri = lf_redirect_uri form,
         ac_code_challenge = lf_code_challenge form, ac_scope = lf_scope form, ac_user_id = user, ac_company_id = company,
         ac_plan = plan, ac_roles = roles, ac_expires_at = ci_now ci 2 + 5 * minute\<rparr>)"

definition redirect_location :: "login_form \<Rightarrow> string \<Rightarrow> string" where
  "redirect_location form code =
     lf_redirect_uri form @ (if contains (lf_redirect_uri form) ''?'' then ''&'' else ''?'') @ ''code='' @ query_escape code @
     ''&state='' @ query_escape (lf_state form)"

definition authorize_get :: "('s, 'r) oauth_server \<Rightarrow> circumstances \<Rightarrow> http_request \<Rightarrow> ('s, 'r) oauth_state \<Rightarrow> oauth_response" where
  "authorize_get sv ci rq st =
     (let q = rq_query rq; reason = validateClientRedirect sv ci (q ''client_id'') (q ''redirect_uri'') st
      in if q ''code_challenge'' = [] then JsonError 400 oauthErrInvalidReq descPKCERequired
         else if q ''code_challenge_method'' \<noteq> [] \<and> q ''code_challenge_method'' \<noteq> ''S256''
         then JsonError 400 oauthErrInvalidReq ''only S256 code_challenge_method is supported''
         else if reason = loginReasonUnknownClient then JsonError 400 oauthErrInvalidReq descUnknownClient
         else if reason = loginReasonInvalidRedirectURI then JsonError 400 oauthErrInvalidRedURI []
         else if \<not> passwordLoginConfigured sv then JsonError 403 oauthErrAccessDenied descPasswordLoginDisabled
         else LoginPage 200 \<lparr>lf_client_id = q ''client_id'', lf_redirect_uri = q ''redirect_uri'', lf_state = q ''state'',
                             lf_code_challenge = q ''code_challenge'', lf_scope = q ''scope'', lf_error = []\<rparr> None)"

definition form_of :: "(string \<Rightarrow> string) \<Rightarrow> login_form" where
  "form_of f = \<lparr>lf_client_id = f ''client_id'', lf_redirect_uri = f ''redirect_uri'', lf_state = f ''state'',
     lf_code_challenge = f ''code_challenge'', lf_scope = f ''scope'', lf_error = []\<rparr>"

text \<open>The end of a login: the password was right.\<close>

definition issue_code :: "('s, 'r) oauth_server \<Rightarrow> circumstances \<Rightarrow> login_form \<Rightarrow> login_attempt \<Rightarrow> identity \<Rightarrow> ('s, 'r) oauth_state
    \<Rightarrow> oauth_response \<times> ('s, 'r) oauth_state" where
  "issue_code sv ci form attempt who st =
     (let st1 = st\<lparr>ov_throttle := Success (sv_throttle sv) (ci_link ci 1) (ci_now ci 1) (ci_server_ms ci) attempt (ov_throttle st)\<rparr>;
          ac = new_auth_code ci form who;
          done_with = (\<lambda>st. (Found (redirect_location form (ac_code ac)), RecordLogin loginMethodPassword True st))
      in case sv_store sv of
           None \<Rightarrow> done_with st1
         | Some ops \<Rightarrow>
             (let (err, s) = to_save_code ops (ci_store ci 1) ac (ov_store st1); st2 = st1\<lparr>ov_store := s\<rparr>
              in if err \<noteq> None then (PlainError 500, st2) else done_with st2))"

definition authorize_post :: "('s, 'r) oauth_server \<Rightarrow> circumstances \<Rightarrow> http_request \<Rightarrow> ('s, 'r) oauth_state \<Rightarrow> oauth_response \<times> ('s, 'r) oauth_state" where
  "authorize_post sv ci rq st =
     (case rq_form rq of
        None \<Rightarrow> (PlainError 400, st)
      | Some f \<Rightarrow>
          (let form = form_of f; username = f ''username''; reason = validateClientRedirect sv ci (lf_client_id form) (lf_redirect_uri form) st
           in if lf_code_challenge form = [] then (JsonError 400 oauthErrInvalidReq descPKCERequired, st)
              else if reason = loginReasonUnknownClient then (JsonError 400 oauthErrInvalidRedURI descUnknownClient, st)
              else if reason = loginReasonInvalidRedirectURI then (JsonError 400 oauthErrInvalidRedURI [], st)
              else if \<not> passwordLoginConfigured sv then (JsonError 403 oauthErrAccessDenied descPasswordLoginDisabled, st)
              else let account = (if sv_users sv = None then sv_auth_user sv else username);
                       (attempt, th) = Acquire (sv_throttle sv) (ci_link ci 0) (ci_now ci 0) (ci_server_ms ci) account
                                         (ClientIP (rq_forwarded rq) (rq_remote rq)) (ov_throttle st);
                       st1 = st\<lparr>ov_throttle := th\<rparr>
                   in if \<not> la_allowed attempt
                      then (let wait = retryAfterSeconds (la_retry attempt)
                            in (LoginPage 429 (form\<lparr>lf_error := ''Too many failed login attempts. Try again in '' @ humanWait wait @ ''.''\<rparr>) (Some (nat wait)),
                                RecordLogin loginMethodPassword False st1))
                      else case check_password sv ci username (f ''password'') of
                          Inl e \<Rightarrow>
                            (LoginPage 503 (form\<lparr>lf_error := msgLoginBusy\<rparr>) (Some 1),
                             st1\<lparr>ov_throttle := Cancel (sv_throttle sv) (ci_link ci 1) (ci_now ci 1) (ci_server_ms ci) attempt (ov_throttle st1)\<rparr>)
                        | Inr None \<Rightarrow>
                            (LoginPage 401 (form\<lparr>lf_error := msgInvalidCredentials\<rparr>) None, RecordLogin loginMethodPassword False st1)
                        | Inr (Some who) \<Rightarrow> issue_code sv ci form attempt who st1))"

definition handleAuthorize :: "('s, 'r) oauth_server \<Rightarrow> circumstances \<Rightarrow> http_request \<Rightarrow> ('s, 'r) oauth_state \<Rightarrow> oauth_response \<times> ('s, 'r) oauth_state" where
  "handleAuthorize sv ci rq st =
     (if rq_method rq = ''GET'' then (authorize_get sv ci rq st, st)
      else if rq_method rq = ''POST'' then authorize_post sv ci rq st
      else (PlainError 405, st))"

section \<open>Tokens\<close>

text \<open>\<open>base64.RawURLEncoding\<close>.\<close>

definition base64_url_char :: "nat \<Rightarrow> char" where
  "base64_url_char n = ''ABCDEFGHIJKLMNOPQRSTUVWXYZabcdefghijklmnopqrstuvwxyz0123456789-_'' ! n"

fun base64_raw_url :: "byte list \<Rightarrow> string" where
  "base64_raw_url [] = []"
| "base64_raw_url [a] = map base64_url_char [unat a div 4, unat a mod 4 * 16]"
| "base64_raw_url [a, b] = map base64_url_char [unat a div 4, unat a mod 4 * 16 + unat b div 16, unat b mod 16 * 4]"
| "base64_raw_url (a # b # c # r) =
     map base64_url_char [unat a div 4, unat a mod 4 * 16 + unat b div 16, unat b mod 16 * 4 + unat c div 64, unat c mod 64] @ base64_raw_url r"

definition pkce_challenge :: "string \<Rightarrow> string" where
  "pkce_challenge verifier = base64_raw_url (sha256 (bytes_of verifier))"

definition extendClient :: "('s, 'r) oauth_server \<Rightarrow> circumstances \<Rightarrow> 's token_ops \<Rightarrow> string \<Rightarrow> ('s, 'r) oauth_state \<Rightarrow> ('s, 'r) oauth_state" where
  "extendClient sv ci ops clientID st =
     (let until = (if sv_dcr_idle_ttl sv > 0 then Some (ci_now ci 2 + max (sv_dcr_idle_ttl sv) MinDCRClientIdleTTL * second) else None)
      in st\<lparr>ov_store := snd (ExtendClient ops (ci_store ci 4) clientID until (ov_store st))\<rparr>)"

definition token_of_code :: "circumstances \<Rightarrow> auth_code \<Rightarrow> string \<Rightarrow> token_info" where
  "token_of_code ci ac callerName =
     \<lparr>ti_access_token = generateID ci 0, ti_refresh_token = generateID ci 1, ti_client_id = ac_client_id ac, ti_user_id = ac_user_id ac,
      ti_company_id = ac_company_id ac, ti_plan = ac_plan ac, ti_roles = ac_roles ac, ti_caller_id = ac_client_id ac, ti_caller_name = callerName,
      ti_scope = ac_scope ac, ti_expires_at = ci_now ci 1 + 60 * minute, ti_refresh_expires_at = Some (ci_now ci 1 + 7 * 24 * 60 * minute)\<rparr>"

definition token_of_token :: "circumstances \<Rightarrow> token_info \<Rightarrow> token_info" where
  "token_of_token ci old =
     old\<lparr>ti_access_token := generateID ci 0, ti_refresh_token := generateID ci 1, ti_expires_at := ci_now ci 1 + 60 * minute,
        ti_refresh_expires_at := Some (ci_now ci 1 + 7 * 24 * 60 * minute)\<rparr>"

text \<open>The common end of both grants: save the two tokens, extend the client, answer.\<close>

definition issue_token :: "('s, 'r) oauth_server \<Rightarrow> circumstances \<Rightarrow> 's token_ops \<Rightarrow> string \<Rightarrow> token_info \<Rightarrow> ('s, 'r) oauth_state
    \<Rightarrow> oauth_response \<times> ('s, 'r) oauth_state" where
  "issue_token sv ci ops meth ti st =
     (let (err, s) = to_save_token ops (ci_store ci 2) ti (ov_store st)
      in if err \<noteq> None then (JsonError 500 oauthErrServerError [], st\<lparr>ov_store := s\<rparr>)
         else let (err2, s2) = to_save_refresh ops (ci_store ci 3) ti s
              in if err2 \<noteq> None then (JsonError 500 oauthErrServerError [], st\<lparr>ov_store := s2\<rparr>)
                 else (TokenReply (ti_access_token ti) (ti_refresh_token ti) (ti_scope ti),
                       RecordLogin meth True (extendClient sv ci ops (ti_client_id ti) (st\<lparr>ov_store := s2\<rparr>))))"

definition grant_failed :: "string \<Rightarrow> string \<Rightarrow> ('s, 'r) oauth_state \<Rightarrow> oauth_response \<times> ('s, 'r) oauth_state" where
  "grant_failed meth description st = (JsonError 400 invalidGrantError description, RecordLogin meth False st)"

definition handleAuthorizationCodeGrant :: "('s, 'r) oauth_server \<Rightarrow> circumstances \<Rightarrow> (string \<Rightarrow> string) \<Rightarrow> ('s, 'r) oauth_state
    \<Rightarrow> oauth_response \<times> ('s, 'r) oauth_state" where
  "handleAuthorizationCodeGrant sv ci f st =
     (case sv_store sv of
        None \<Rightarrow> (JsonError 400 invalidGrantError [], st)
      | Some ops \<Rightarrow>
          if \<not> passwordLoginConfigured sv then grant_failed loginMethodOAuthCode [] st
          else (case to_consume_code ops (ci_store ci 0) (f ''code'') (ov_store st) of
                  (Inl _, s) \<Rightarrow> grant_failed loginMethodOAuthCode [] (st\<lparr>ov_store := s\<rparr>)
                | (Inr ac, s) \<Rightarrow>
                    (let st1 = st\<lparr>ov_store := s\<rparr>; clientID = f ''client_id''; verifier = f ''code_verifier''
                     in if ac_expires_at ac < ci_now ci 0 then grant_failed loginMethodOAuthCode [] st1
                        else if clientID = [] \<or> clientID \<noteq> ac_client_id ac then grant_failed loginMethodOAuthCode [] st1
                        else if ac_code_challenge ac = [] \<or> verifier = [] then grant_failed loginMethodOAuthCode ''PKCE verification failed'' st1
                        else if pkce_challenge verifier \<noteq> ac_code_challenge ac then grant_failed loginMethodOAuthCode ''PKCE verification failed'' st1
                        else let name = (case to_get_client ops (ci_store ci 1) (ac_client_id ac) s of Inr c \<Rightarrow> oc_client_name c | Inl _ \<Rightarrow> [])
                             in issue_token sv ci ops loginMethodOAuthCode (token_of_code ci ac name) st1)))"

definition handleRefreshTokenGrant :: "('s, 'r) oauth_server \<Rightarrow> circumstances \<Rightarrow> (string \<Rightarrow> string) \<Rightarrow> ('s, 'r) oauth_state
    \<Rightarrow> oauth_response \<times> ('s, 'r) oauth_state" where
  "handleRefreshTokenGrant sv ci f st =
     (case sv_store sv of
        None \<Rightarrow> (JsonError 400 invalidGrantError [], st)
      | Some ops \<Rightarrow>
          if \<not> passwordLoginConfigured sv then grant_failed loginMethodOAuthRefresh [] st
          else (case to_consume_refresh ops (ci_store ci 0) (f ''refresh_token'') (ov_store st) of
                  (Inl _, s) \<Rightarrow> grant_failed loginMethodOAuthRefresh [] (st\<lparr>ov_store := s\<rparr>)
                | (Inr old, s) \<Rightarrow>
                    (let clientID = f ''client_id''
                     in if clientID = [] \<or> clientID \<noteq> ti_client_id old then grant_failed loginMethodOAuthRefresh [] (st\<lparr>ov_store := s\<rparr>)
                        else issue_token sv ci ops loginMethodOAuthRefresh (token_of_token ci old)
                               (st\<lparr>ov_store := snd (to_delete_token ops (ci_store ci 1) (ti_access_token old) s)\<rparr>))))"

definition handleToken :: "('s, 'r) oauth_server \<Rightarrow> circumstances \<Rightarrow> http_request \<Rightarrow> ('s, 'r) oauth_state \<Rightarrow> oauth_response \<times> ('s, 'r) oauth_state" where
  "handleToken sv ci rq st =
     (if rq_method rq \<noteq> ''POST'' then (PlainError 405, st)
      else case rq_form rq of
          None \<Rightarrow> (JsonError 400 oauthErrInvalidReq [], st)
        | Some f \<Rightarrow>
            if f ''grant_type'' = ''authorization_code'' then handleAuthorizationCodeGrant sv ci f st
            else if f ''grant_type'' = ''refresh_token'' then handleRefreshTokenGrant sv ci f st
            else (JsonError 400 ''unsupported_grant_type'' [], st))"

section \<open>Runs of the server\<close>

datatype endpoint = AtRegister | AtAuthorize | AtToken | AtResource

record exchange =
  ex_endpoint :: endpoint
  ex_circumstances :: circumstances
  ex_request :: http_request
  ex_response :: "oauth_response option"

text \<open>A request to a protected resource only authenticates here; what follows is the rest of the server.\<close>

fun serve :: "('s, 'r) oauth_server \<Rightarrow> endpoint \<Rightarrow> circumstances \<Rightarrow> http_request \<Rightarrow> ('s, 'r) oauth_state \<Rightarrow> oauth_response option \<times> ('s, 'r) oauth_state" where
  "serve sv AtRegister ci rq st = (let (r, st') = handleRegister sv ci rq st in (Some r, st'))"
| "serve sv AtAuthorize ci rq st = (let (r, st') = handleAuthorize sv ci rq st in (Some r, st'))"
| "serve sv AtToken ci rq st = (let (r, st') = handleToken sv ci rq st in (Some r, st'))"
| "serve sv AtResource ci rq st = (None, snd (authenticate sv ci (rq_authorization rq) st))"

text \<open>The requests served so far, the latest first. Between requests the store may forget what it holds (expiry, \<open>removeExpired\<close>).\<close>

inductive oauth_run :: "('s, 'r) oauth_server \<Rightarrow> ('s \<Rightarrow> 's \<Rightarrow> bool) \<Rightarrow> ('s, 'r) oauth_state \<Rightarrow> exchange list \<Rightarrow> ('s, 'r) oauth_state \<Rightarrow> bool"
  for sv forgets st0 where
  start: "oauth_run sv forgets st0 [] st0"
| request: "oauth_run sv forgets st0 h st \<Longrightarrow> serve sv ep ci rq st = (r, st') \<Longrightarrow>
    oauth_run sv forgets st0 (\<lparr>ex_endpoint = ep, ex_circumstances = ci, ex_request = rq, ex_response = r\<rparr> # h) st'"
| forget: "oauth_run sv forgets st0 h st \<Longrightarrow> forgets (ov_store st) s \<Longrightarrow> oauth_run sv forgets st0 h (st\<lparr>ov_store := s\<rparr>)"

end
