(* ===== verification/TokenContract.thy ===== *)
theory TokenContract
  imports TokenStores
begin

text \<open>
  What the OAuth server relies on of a token store: nothing is found that was not saved, and what was
  consumed is gone. The file store and the Redis store keep this contract; the hybrid store keeps
  only the first half of it.
\<close>

section \<open>The contract\<close>

record holdings =
  h_clients :: "(string \<times> oauth_client) set"
  h_codes :: "(string \<times> auth_code) set"
  h_access :: "(string \<times> token_info) set"
  h_refresh :: "(string \<times> token_info) set"

definition within :: "holdings \<Rightarrow> holdings \<Rightarrow> bool" where
  "within a b \<longleftrightarrow> h_clients a \<subseteq> h_clients b \<and> h_codes a \<subseteq> h_codes b \<and> h_access a \<subseteq> h_access b \<and> h_refresh a \<subseteq> h_refresh b"

definition joined :: "holdings \<Rightarrow> holdings \<Rightarrow> holdings" where
  "joined a b = \<lparr>h_clients = h_clients a \<union> h_clients b, h_codes = h_codes a \<union> h_codes b, h_access = h_access a \<union> h_access b,
     h_refresh = h_refresh a \<union> h_refresh b\<rparr>"

text \<open>A saved record is held as it is or as its JSON encoding left it.\<close>

definition with_client :: "oauth_client \<Rightarrow> holdings \<Rightarrow> holdings" where
  "with_client c h = h\<lparr>h_clients := h_clients h \<union> {(oc_client_id c, x) | x. x = c \<or> x = wire_client c}\<rparr>"

definition with_code :: "auth_code \<Rightarrow> holdings \<Rightarrow> holdings" where
  "with_code ac h = h\<lparr>h_codes := h_codes h \<union> {(ac_code ac, x) | x. x = ac \<or> x = wire_code ac}\<rparr>"

definition with_access :: "token_info \<Rightarrow> holdings \<Rightarrow> holdings" where
  "with_access ti h = h\<lparr>h_access := h_access h \<union> {(ti_access_token ti, x) | x. x = ti \<or> x = wire_token ti}\<rparr>"

definition with_refresh :: "token_info \<Rightarrow> holdings \<Rightarrow> holdings" where
  "with_refresh ti h = h\<lparr>h_refresh := h_refresh h \<union> {(ti_refresh_token ti, x) | x. x = ti \<or> x = wire_token ti}\<rparr>"

lemmas holding_defs = within_def joined_def with_client_def with_code_def with_access_def with_refresh_def

lemma within_refl [simp]: "within h h"
  by (simp add: within_def)

lemma within_trans: "within a b \<Longrightarrow> within b c \<Longrightarrow> within a c"
  by (auto simp: within_def)

locale token_store =
  fixes ops :: "'s token_ops" and held :: "'s \<Rightarrow> holdings"
  assumes save_client: "to_save_client ops env c s = (err, s') \<Longrightarrow> within (held s') (with_client c (held s))"
    and get_client: "to_get_client ops env k s = Inr c \<Longrightarrow> (k, c) \<in> h_clients (held s)"
    and save_code: "to_save_code ops env ac s = (err, s') \<Longrightarrow> within (held s') (with_code ac (held s))"
    and consume_code: "to_consume_code ops env k s = (res, s') \<Longrightarrow> within (held s') (held s) \<and> (\<forall>ac. res = Inr ac \<longrightarrow> (k, ac) \<in> h_codes (held s))"
    and save_token: "to_save_token ops env ti s = (err, s') \<Longrightarrow> within (held s') (with_access ti (held s))"
    and get_token: "to_get_token ops env k s = (rest, s') \<Longrightarrow> within (held s') (held s) \<and> (\<forall>ti. rest = Inr ti \<longrightarrow> (k, ti) \<in> h_access (held s))"
    and save_refresh: "to_save_refresh ops env ti s = (err, s') \<Longrightarrow> within (held s') (with_refresh ti (held s))"
    and consume_refresh: "to_consume_refresh ops env k s = (rest, s') \<Longrightarrow> within (held s') (held s) \<and> (\<forall>ti. rest = Inr ti \<longrightarrow> (k, ti) \<in> h_refresh (held s))"
    and delete_token: "to_delete_token ops env k s = (err, s') \<Longrightarrow> within (held s') (held s)"
begin

lemma extend_client:
  assumes "ExtendClient ops env k until s = (err, s')"
  shows "h_codes (held s') \<subseteq> h_codes (held s) \<and> h_access (held s') \<subseteq> h_access (held s) \<and> h_refresh (held s') \<subseteq> h_refresh (held s)"
  using assms save_client by (auto simp: ExtendClient_def holding_defs split: sum.splits)

end

locale single_use_store = token_store +
  assumes code_once: "to_consume_code ops env k s = (Inr ac, s') \<Longrightarrow> (k, x) \<notin> h_codes (held s')"
    and refresh_once: "to_consume_refresh ops env k s = (Inr ti, s') \<Longrightarrow> (k, y) \<notin> h_refresh (held s')"

section \<open>The file store\<close>

definition file_held :: "file_store \<Rightarrow> holdings" where
  "file_held s = \<lparr>h_clients = {(k, c). map_of (fs_clients s) k = Some c}, h_codes = {(k, c). map_of (fs_codes s) k = Some c},
     h_access = {(k, t). map_of (fs_access s) k = Some t}, h_refresh = {(k, t). map_of (fs_refresh s) k = Some t}\<rparr>"

lemma saveState_fields [simp]:
  "fs_clients (saveState env s) = fs_clients s" "fs_codes (saveState env s) = fs_codes s"
  "fs_access (saveState env s) = fs_access s" "fs_refresh (saveState env s) = fs_refresh s"
  by (simp_all add: saveState_def)

lemmas file_defs = file_ops_def file_SaveClient_def file_GetClient_def file_SaveAuthCode_def file_ConsumeAuthCode_def file_SaveToken_def
  file_GetToken_def file_DeleteToken_def file_SaveRefreshToken_def file_ConsumeRefreshToken_def

interpretation fstore: single_use_store file_ops file_held
  by unfold_locales (auto simp: file_defs file_held_def holding_defs update_conv' delete_conv' split: option.splits if_splits)

section \<open>The Redis store\<close>

definition redis_held :: "redis_store \<Rightarrow> holdings" where
  "redis_held s = \<lparr>h_clients = {(k, c). \<exists>e. rs_clients s k = Some (c, e)}, h_codes = {(k, c). \<exists>e. rs_codes s k = Some (c, e)},
     h_access = {(k, t). \<exists>e. rs_access s k = Some (t, e)}, h_refresh = {(k, t). \<exists>e. rs_refresh s k = Some (t, e)}\<rparr>"

lemmas redis_defs = redis_token_ops_def redis_SaveClient_def redis_GetClient_def redis_SaveAuthCode_def redis_ConsumeAuthCode_def
  redis_SaveToken_def redis_GetToken_def redis_DeleteToken_def redis_SaveRefreshToken_def redis_ConsumeRefreshToken_def
  redis_do_def redis_answer_def consume_answer_def consume_key_def redis_set_def

lemma redis_get_Some: "redis_get now k t = Some v \<Longrightarrow> \<exists>e. t k = Some (v, e)"
  by (auto simp: redis_get_def split: option.splits if_splits)

interpretation rstore: single_use_store redis_token_ops redis_held
  by unfold_locales
    (auto simp: redis_defs redis_held_def holding_defs Let_def split: option.splits if_splits redis_link.splits dest!: redis_get_Some)

section \<open>The hybrid store\<close>

definition hybrid_held :: "('s \<Rightarrow> holdings) \<Rightarrow> 's hybrid \<Rightarrow> holdings" where
  "hybrid_held held h = joined (held (fst h)) (file_held (snd h))"

text \<open>What a write, and what a read or a consumption, does to the two halves.\<close>

lemma hybrid_writeE:
  assumes "hybrid_write P F x h = (err, h')"
  obtains p f e where "P x (fst h) = (err, p)" "F x (snd h) = (e, f)" "h' = (p, f)"
  using assms by (auto simp: hybrid_write_def split: prod.splits)

definition hybrid_read :: "('a \<Rightarrow> 's \<Rightarrow> (token_error, 'v) result \<times> 's) \<Rightarrow> ('a \<Rightarrow> file_store \<Rightarrow> (token_error, 'v) result \<times> file_store) \<Rightarrow> 'a \<Rightarrow> 's hybrid
    \<Rightarrow> (token_error, 'v) result \<times> 's hybrid" where
  "hybrid_read primary file x h =
     (case primary x (fst h) of
        (Inr v, p) \<Rightarrow> (Inr v, (p, snd h))
      | (Inl _, p) \<Rightarrow> (let (r, f) = file x (snd h) in (r, (p, f))))"

lemma hybrid_GetToken_read: "hybrid_GetToken ops env = hybrid_read (to_get_token ops env) (file_GetToken env)"
  by (simp add: hybrid_GetToken_def hybrid_read_def fun_eq_iff)

lemma hybrid_readE:
  assumes "hybrid_read P F x h = (res, h') \<or> hybrid_consume P F x h = (res, h')"
  obtains r p r2 f where "P x (fst h) = (r, p)" "F x (snd h) = (r2, f)" "fst h' = p" "snd h' \<in> {f, snd h}" "res \<in> {r, r2}"
  using assms by (cases "P x (fst h)"; cases "F x (snd h)") (auto simp: hybrid_read_def hybrid_consume_def split: sum.splits)

context token_store
begin

lemma hybrid_store: "token_store (hybrid_ops ops) (hybrid_held held)"
proof
  fix env c h err h'
  assume "to_save_client (hybrid_ops ops) env c h = (err, h')"
  then obtain p f e where parts: "to_save_client ops env c (fst h) = (err, p)" "to_save_client file_ops env c (snd h) = (e, f)" "h' = (p, f)"
    by (auto simp: hybrid_ops_def file_ops_def elim: hybrid_writeE)
  show "within (hybrid_held held h') (with_client c (hybrid_held held h))"
    using save_client [OF parts(1)] fstore.save_client [OF parts(2)] by (auto simp: parts(3) hybrid_held_def holding_defs)
next
  fix env k h c
  assume "to_get_client (hybrid_ops ops) env k h = Inr c"
  then show "(k, c) \<in> h_clients (hybrid_held held h)"
    using get_client [of env k "fst h"] fstore.get_client [of env k "snd h"]
    by (auto simp: hybrid_ops_def hybrid_GetClient_def file_ops_def hybrid_held_def joined_def split: sum.splits)
next
  fix env ac h err h'
  assume "to_save_code (hybrid_ops ops) env ac h = (err, h')"
  then obtain p f e where parts: "to_save_code ops env ac (fst h) = (err, p)" "to_save_code file_ops env ac (snd h) = (e, f)" "h' = (p, f)"
    by (auto simp: hybrid_ops_def file_ops_def elim: hybrid_writeE)
  show "within (hybrid_held held h') (with_code ac (hybrid_held held h))"
    using save_code [OF parts(1)] fstore.save_code [OF parts(2)] by (auto simp: parts(3) hybrid_held_def holding_defs)
next
  fix env k h res h'
  assume "to_consume_code (hybrid_ops ops) env k h = (res, h')"
  then obtain r p r2 f where parts: "to_consume_code ops env k (fst h) = (r, p)" "to_consume_code file_ops env k (snd h) = (r2, f)"
    "fst h' = p" "snd h' \<in> {f, snd h}" "res \<in> {r, r2}"
    by (auto simp: hybrid_ops_def file_ops_def hybrid_GetToken_read elim: hybrid_readE [OF disjI1] hybrid_readE [OF disjI2])
  show "within (hybrid_held held h') (hybrid_held held h) \<and> (\<forall>ac. res = Inr ac \<longrightarrow> (k, ac) \<in> h_codes (hybrid_held held h))"
    using consume_code [OF parts(1)] fstore.consume_code [OF parts(2)] parts(3,4,5) by (auto simp: hybrid_held_def holding_defs)
next
  fix env ti h err h'
  assume "to_save_token (hybrid_ops ops) env ti h = (err, h')"
  then obtain p f e where parts: "to_save_token ops env ti (fst h) = (err, p)" "to_save_token file_ops env ti (snd h) = (e, f)" "h' = (p, f)"
    by (auto simp: hybrid_ops_def file_ops_def elim: hybrid_writeE)
  show "within (hybrid_held held h') (with_access ti (hybrid_held held h))"
    using save_token [OF parts(1)] fstore.save_token [OF parts(2)] by (auto simp: parts(3) hybrid_held_def holding_defs)
next
  fix env k h res h'
  assume "to_get_token (hybrid_ops ops) env k h = (res, h')"
  then obtain r p r2 f where parts: "to_get_token ops env k (fst h) = (r, p)" "to_get_token file_ops env k (snd h) = (r2, f)"
    "fst h' = p" "snd h' \<in> {f, snd h}" "res \<in> {r, r2}"
    by (auto simp: hybrid_ops_def file_ops_def hybrid_GetToken_read elim: hybrid_readE [OF disjI1] hybrid_readE [OF disjI2])
  show "within (hybrid_held held h') (hybrid_held held h) \<and> (\<forall>ti. res = Inr ti \<longrightarrow> (k, ti) \<in> h_access (hybrid_held held h))"
    using get_token [OF parts(1)] fstore.get_token [OF parts(2)] parts(3,4,5) by (auto simp: hybrid_held_def holding_defs)
next
  fix env ti h err h'
  assume "to_save_refresh (hybrid_ops ops) env ti h = (err, h')"
  then obtain p f e where parts: "to_save_refresh ops env ti (fst h) = (err, p)" "to_save_refresh file_ops env ti (snd h) = (e, f)" "h' = (p, f)"
    by (auto simp: hybrid_ops_def file_ops_def elim: hybrid_writeE)
  show "within (hybrid_held held h') (with_refresh ti (hybrid_held held h))"
    using save_refresh [OF parts(1)] fstore.save_refresh [OF parts(2)] by (auto simp: parts(3) hybrid_held_def holding_defs)
next
  fix env k h res h'
  assume "to_consume_refresh (hybrid_ops ops) env k h = (res, h')"
  then obtain r p r2 f where parts: "to_consume_refresh ops env k (fst h) = (r, p)" "to_consume_refresh file_ops env k (snd h) = (r2, f)"
    "fst h' = p" "snd h' \<in> {f, snd h}" "res \<in> {r, r2}"
    by (auto simp: hybrid_ops_def file_ops_def hybrid_GetToken_read elim: hybrid_readE [OF disjI1] hybrid_readE [OF disjI2])
  show "within (hybrid_held held h') (hybrid_held held h) \<and> (\<forall>ti. res = Inr ti \<longrightarrow> (k, ti) \<in> h_refresh (hybrid_held held h))"
    using consume_refresh [OF parts(1)] fstore.consume_refresh [OF parts(2)] parts(3,4,5) by (auto simp: hybrid_held_def holding_defs)
next
  fix env k h err h'
  assume "to_delete_token (hybrid_ops ops) env k h = (err, h')"
  then obtain p f e where parts: "to_delete_token ops env k (fst h) = (err, p)" "to_delete_token file_ops env k (snd h) = (e, f)" "h' = (p, f)"
    by (auto simp: hybrid_ops_def file_ops_def elim: hybrid_writeE)
  show "within (hybrid_held held h') (hybrid_held held h)"
    using delete_token [OF parts(1)] fstore.delete_token [OF parts(2)] by (auto simp: parts(3) hybrid_held_def holding_defs)
qed

end

interpretation hstore: token_store "hybrid_ops redis_token_ops" "hybrid_held redis_held"
  by (rule rstore.hybrid_store)

section \<open>Consuming once\<close>

abbreviation hybrid_redis :: "redis_store hybrid token_ops" where
  "hybrid_redis \<equiv> hybrid_ops redis_token_ops"

lemma redis_get_later: "redis_get t k tab = None \<Longrightarrow> t \<le> t' \<Longrightarrow> redis_get t' k tab = None"
  by (auto simp: redis_get_def split: option.splits if_splits)

lemma consume_key_gone: "t \<le> t' \<Longrightarrow> redis_get t' k (snd (consume_key t k tab)) = None"
  by (auto simp: consume_key_def redis_get_later split: option.splits) (simp add: redis_get_def)

text \<open>While Redis answers, the hybrid store hands out an authorization code or a refresh token once: whoever asks after
  that, in whatever circumstances, does not get it.\<close>

theorem hybrid_consumes_once:
  assumes "se_link env = Answered" "se_server env \<le> se_server env'"
  shows "(to_consume_code hybrid_redis env k h = (Inr ac, h') \<longrightarrow> isl (fst (to_consume_code hybrid_redis env' k h'))) \<and>
    (to_consume_refresh hybrid_redis env k h = (Inr ti, h') \<longrightarrow> isl (fst (to_consume_refresh hybrid_redis env' k h')))"
proof (intro conjI impI)
  assume "to_consume_code hybrid_redis env k h = (Inr ac, h')"
  then have "rs_codes (fst h') = snd (consume_key (se_server env) k (rs_codes (fst h)))" "map_of (fs_codes (snd h')) k = None"
    using assms(1) by (auto simp: hybrid_ops_def hybrid_consume_def redis_token_ops_def redis_ConsumeAuthCode_def file_ConsumeAuthCode_def
        delete_conv' Let_def split: prod.splits sum.splits option.splits)
  then show "isl (fst (to_consume_code hybrid_redis env' k h'))"
    using consume_key_gone [OF assms(2), of k "rs_codes (fst h)"]
    by (auto simp: hybrid_ops_def hybrid_consume_def redis_token_ops_def redis_ConsumeAuthCode_def file_ConsumeAuthCode_def
        consume_key_def [of "se_server env'"] redis_answer_def consume_answer_def Let_def split: prod.splits sum.splits option.splits if_splits)
next
  assume "to_consume_refresh hybrid_redis env k h = (Inr ti, h')"
  then have "rs_refresh (fst h') = snd (consume_key (se_server env) k (rs_refresh (fst h)))" "map_of (fs_refresh (snd h')) k = None"
    using assms(1) by (auto simp: hybrid_ops_def hybrid_consume_def redis_token_ops_def redis_ConsumeRefreshToken_def file_ConsumeRefreshToken_def
        delete_conv' Let_def split: prod.splits sum.splits option.splits)
  then show "isl (fst (to_consume_refresh hybrid_redis env' k h'))"
    using consume_key_gone [OF assms(2), of k "rs_refresh (fst h)"]
    by (auto simp: hybrid_ops_def hybrid_consume_def redis_token_ops_def redis_ConsumeRefreshToken_def file_ConsumeRefreshToken_def
        consume_key_def [of "se_server env'"] redis_answer_def consume_answer_def Let_def split: prod.splits sum.splits option.splits if_splits)
qed

text \<open>A refresh token that was consumed while Redis was unreachable can be consumed a second time when Redis is back: the file
  store forgot it, Redis did not.\<close>

theorem outage_refresh_reuse:
  assumes "to_save_refresh hybrid_redis env0 ti h = (None, h1)"
    and "se_link env1 = Unreached" "se_link env2 = Answered" "se_server env2 < se_server env0 + ttlRefreshToken"
  shows "\<exists>h2 h3. to_consume_refresh hybrid_redis env1 (ti_refresh_token ti) h1 = (Inr ti, h2) \<and>
    to_consume_refresh hybrid_redis env2 (ti_refresh_token ti) h2 = (Inr (wire_token ti), h3)"
proof -
  let ?k = "ti_refresh_token ti"
  have h1: "map_of (fs_refresh (snd h1)) ?k = Some ti" "redis_get (se_server env2) ?k (rs_refresh (fst h1)) = Some (wire_token ti)"
    using assms(1,4) by (auto simp: hybrid_ops_def hybrid_write_def redis_token_ops_def redis_SaveRefreshToken_def redis_do_def redis_set_def
        file_SaveRefreshToken_def update_conv' redis_get_def ttlRefreshToken_def minute_def second_def millis_def split: redis_link.splits)
  have "redis_ConsumeRefreshToken env1 ?k (fst h1) = (Inl NotFound, fst h1)"
    using assms(2) by (cases "consume_key (se_server env1) ?k (rs_refresh (fst h1))")
      (simp add: redis_ConsumeRefreshToken_def consume_answer_def split: option.splits)
  then obtain h2 where h2: "to_consume_refresh hybrid_redis env1 ?k h1 = (Inr ti, h2)" "fst h2 = fst h1"
    using h1(1) by (auto simp: hybrid_ops_def hybrid_consume_def redis_token_ops_def file_ConsumeRefreshToken_def Let_def split: prod.splits)
  obtain h3 where "to_consume_refresh hybrid_redis env2 ?k h2 = (Inr (wire_token ti), h3)"
    using h1(2) h2(2) assms(3) by (auto simp: hybrid_ops_def hybrid_consume_def redis_token_ops_def redis_ConsumeRefreshToken_def redis_answer_def consume_answer_def
        consume_key_def Let_def split: prod.splits)
  with h2(1) show ?thesis by blast
qed

section \<open>Two requests for one code\<close>

text \<open>\<open>hybrid_consume\<close> takes the two stores one after the other, each under its own lock.\<close>

datatype 'v consume_point = AtPrimary | AtFile "(token_error, 'v) result" | Consumed "(token_error, 'v) result"

fun consume_step :: "store_env \<Rightarrow> string \<Rightarrow> auth_code consume_point \<Rightarrow> redis_store hybrid \<Rightarrow> auth_code consume_point \<times> redis_store hybrid" where
  "consume_step env code AtPrimary (p, f) = (let (r, p') = redis_ConsumeAuthCode env code p in (AtFile r, (p', f)))"
| "consume_step env code (AtFile r) (p, f) =
     (let (r2, f') = file_ConsumeAuthCode env code f in (Consumed (case r of Inr v \<Rightarrow> Inr v | Inl _ \<Rightarrow> r2), (p, f')))"
| "consume_step env code (Consumed r) h = (Consumed r, h)"

text \<open>The requests run in the order a schedule of their numbers gives.\<close>

fun consume_schedule :: "store_env \<Rightarrow> string \<Rightarrow> nat list \<Rightarrow> auth_code consume_point list \<Rightarrow> redis_store hybrid \<Rightarrow> auth_code consume_point list" where
  "consume_schedule env code [] ps h = ps"
| "consume_schedule env code (i # is) ps h =
     (let (p, h') = consume_step env code (ps ! i) h in consume_schedule env code is (ps[i := p]) h')"

lemma consume_alone: "consume_schedule env code [0, 0] [AtPrimary] h = [Consumed (fst (to_consume_code hybrid_redis env code h))]"
  by (cases h) (auto simp: hybrid_ops_def hybrid_consume_def redis_token_ops_def split: prod.splits sum.splits)

text \<open>C37: one after the other, two requests with the same code get it once; interleaved, the second may find it in the file
  store after the first took it from Redis, and both get it.\<close>

theorem code_race:
  assumes "to_save_code hybrid_redis env0 ac h0 = (None, h)" "se_link env = Answered" "se_server env < se_server env0 + ttlAuthCode"
  shows "consume_schedule env (ac_code ac) [0, 0, 1, 1] [AtPrimary, AtPrimary] h = [Consumed (Inr (wire_code ac)), Consumed (Inl NotFound)] \<and>
    consume_schedule env (ac_code ac) [0, 1, 1, 0] [AtPrimary, AtPrimary] h = [Consumed (Inr (wire_code ac)), Consumed (Inr ac)]"
proof -
  obtain p f where h: "h = (p, f)" by (cases h)
  have "map_of (fs_codes f) (ac_code ac) = Some ac" "redis_get (se_server env) (ac_code ac) (rs_codes p) = Some (wire_code ac)"
    using assms(1,3) by (auto simp: h hybrid_ops_def hybrid_write_def redis_token_ops_def redis_SaveAuthCode_def redis_do_def redis_set_def
        file_SaveAuthCode_def update_conv' redis_get_def ttlAuthCode_def minute_def second_def millis_def split: redis_link.splits)
  then show ?thesis using assms(2)
    by (auto simp: h redis_ConsumeAuthCode_def redis_answer_def consume_answer_def consume_key_def file_ConsumeAuthCode_def delete_conv' redis_get_def)
qed

section \<open>Expiry of refresh tokens\<close>

lemma save_refresh_Answered:
  "se_link env = Answered \<Longrightarrow> rs_refresh (snd (to_save_refresh redis_token_ops env t p)) =
     (rs_refresh p)(ti_refresh_token t \<mapsto> (wire_token t, Some (se_server env + ttlRefreshToken)))"
  by (simp add: redis_token_ops_def redis_SaveRefreshToken_def redis_do_def redis_set_def ttlRefreshToken_def minute_def second_def millis_def)

lemma fold_save_refresh:
  assumes "se_link env = Answered" "distinct (map fst xs)" "list_all (\<lambda>(k, t). ti_refresh_token t = k) xs"
  shows "rs_refresh (fold (\<lambda>(k, t). \<lambda>p. snd (to_save_refresh redis_token_ops env t p)) xs p) k =
    (case map_of xs k of Some t \<Rightarrow> Some (wire_token t, Some (se_server env + ttlRefreshToken)) | None \<Rightarrow> rs_refresh p k)"
  using assms(2,3)
  by (induction xs arbitrary: p) (auto simp: save_refresh_Answered [OF assms(1)] split: option.splits dest: map_of_SomeD, force)

text \<open>no store looks at the expiry of a refresh token it consumes, and \<open>WarmUp\<close> gives a token it copies to Redis a new full
  lifetime there: after a restart a refresh token is accepted past its expiry.\<close>

theorem warmup_prolongs_refresh:
  assumes "map_of (fs_refresh f) k = Some ti" "distinct (map fst (fs_refresh f))"
    and "list_all (\<lambda>(k, t). ti_refresh_token t = k) (fs_refresh f)"
    and "se_link env = Answered" "se_link env' = Answered" "se_server env' < se_server env + ttlRefreshToken"
  shows "fst (redis_ConsumeRefreshToken env' k (WarmUp redis_token_ops env f p)) = Inr (wire_token ti)"
  using assms(1,5,6) fold_save_refresh [OF assms(4,2,3)]
  by (simp add: WarmUp_def Let_def redis_ConsumeRefreshToken_def consume_key_def redis_get_def redis_answer_def consume_answer_def split_def)

section \<open>Witnesses\<close>

definition demo_token :: token_info where
  "demo_token = \<lparr>ti_access_token = ''a'', ti_refresh_token = ''r'', ti_client_id = ''c'', ti_user_id = ''ann'', ti_company_id = [], ti_plan = [],
     ti_roles = None, ti_caller_id = ''c'', ti_caller_name = [], ti_scope = [], ti_expires_at = 10, ti_refresh_expires_at = Some 100\<rparr>"

definition demo_code :: auth_code where
  "demo_code = \<lparr>ac_code = ''x'', ac_client_id = ''c'', ac_redirect_uri = [], ac_code_challenge = [], ac_scope = [], ac_user_id = ''ann'',
     ac_company_id = [], ac_plan = [], ac_roles = None, ac_expires_at = 100\<rparr>"

definition demo_token_env :: "time \<Rightarrow> redis_link \<Rightarrow> store_env" where
  "demo_token_env t link = \<lparr>se_now = t, se_server = t, se_disk_ok = True, se_link = link\<rparr>"

definition demo_hybrid :: "redis_store hybrid" where
  "demo_hybrid = (\<lparr>rs_clients = Map.empty, rs_codes = Map.empty, rs_access = Map.empty, rs_refresh = Map.empty\<rparr>, loadState 0 None)"

lemma demo_token_fields: "ti_refresh_token demo_token = ''r''" "ac_code demo_code = ''x''"
  by (simp_all add: demo_token_def demo_code_def)

lemma demo_token_env_fields [simp]: "se_now (demo_token_env t l) = t" "se_server (demo_token_env t l) = t" "se_link (demo_token_env t l) = l"
  by (simp_all add: demo_token_env_def)

lemma demo_save_refresh: "fst (to_save_refresh hybrid_redis (demo_token_env 0 Answered) demo_token demo_hybrid) = None"
  and demo_save_code: "fst (to_save_code hybrid_redis (demo_token_env 0 Answered) demo_code demo_hybrid) = None"
  by (simp_all add: hybrid_ops_def hybrid_write_def redis_token_ops_def redis_SaveRefreshToken_def redis_SaveAuthCode_def redis_do_def
      file_SaveRefreshToken_def file_SaveAuthCode_def)

theorem outage_refresh_reuse_witness:
  "\<exists>h1 h2 h3. to_consume_refresh hybrid_redis (demo_token_env 1 Unreached) ''r'' h1 = (Inr demo_token, h2) \<and>
     to_consume_refresh hybrid_redis (demo_token_env 2 Answered) ''r'' h2 = (Inr (wire_token demo_token), h3)"
proof -
  obtain h1 where "to_save_refresh hybrid_redis (demo_token_env 0 Answered) demo_token demo_hybrid = (None, h1)"
    using demo_save_refresh by (metis prod.collapse)
  from outage_refresh_reuse [OF this, of "demo_token_env 1 Unreached" "demo_token_env 2 Answered"] show ?thesis
    by (cases h1) (simp add: ttlRefreshToken_def minute_def second_def demo_token_fields, blast)
qed

theorem code_race_witness:
  "\<exists>h. consume_schedule (demo_token_env 1 Answered) ''x'' [0, 1, 1, 0] [AtPrimary, AtPrimary] h = [Consumed (Inr (wire_code demo_code)), Consumed (Inr demo_code)]"
  using code_race [of "demo_token_env 0 Answered" demo_code demo_hybrid _ "demo_token_env 1 Answered"] demo_save_code
  by (cases "to_save_code hybrid_redis (demo_token_env 0 Answered) demo_code demo_hybrid")
    (auto simp: ttlAuthCode_def minute_def second_def demo_code_def)

theorem hybrid_consumes_once_witness:
  "\<exists>ac h h'. to_consume_code hybrid_redis (demo_token_env 1 Answered) ''x'' h = (Inr ac, h') \<and>
     isl (fst (to_consume_code hybrid_redis (demo_token_env 2 Unreached) ''x'' h'))"
proof -
  let ?h = "(fst demo_hybrid, (snd demo_hybrid)\<lparr>fs_codes := [(''x'', demo_code)]\<rparr>)"
  obtain h' where h': "to_consume_code hybrid_redis (demo_token_env 1 Answered) ''x'' ?h = (Inr demo_code, h')"
    by (simp add: hybrid_ops_def hybrid_consume_def redis_token_ops_def redis_ConsumeAuthCode_def redis_answer_def consume_answer_def consume_key_def redis_get_def
        file_ConsumeAuthCode_def demo_hybrid_def)
  with hybrid_consumes_once [of "demo_token_env 1 Answered" "demo_token_env 2 Unreached" "''x''" ?h demo_code h' demo_token] show ?thesis
    by (intro exI [of _ demo_code] exI [of _ ?h] exI [of _ h']) simp
qed

text \<open>A token that expired at 100 is accepted an hour later, after a restart at 50.\<close>

theorem warmup_prolongs_refresh_witness:
  "RefreshExpiry demo_token = 100 \<and> fst (redis_ConsumeRefreshToken (demo_token_env (60 * minute) Answered) ''r''
     (WarmUp redis_token_ops (demo_token_env 50 Answered) ((snd demo_hybrid)\<lparr>fs_refresh := [(''r'', demo_token)]\<rparr>) (fst demo_hybrid))) = Inr (wire_token demo_token)"
proof -
  have "fst (redis_ConsumeRefreshToken (demo_token_env (60 * minute) Answered) ''r''
     (WarmUp redis_token_ops (demo_token_env 50 Answered) ((snd demo_hybrid)\<lparr>fs_refresh := [(''r'', demo_token)]\<rparr>) (fst demo_hybrid))) = Inr (wire_token demo_token)"
    by (rule warmup_prolongs_refresh) (simp_all add: ttlRefreshToken_def minute_def second_def, simp add: demo_token_def)
  then show ?thesis by (simp add: RefreshExpiry_def demo_token_def)
qed

end
