(* ===== verification/ApiKeyProps.thy ===== *)
theory ApiKeyProps
  imports ApiKeys
begin

text \<open>
  What the key store guarantees under any interleaving of requests: who is accepted, who is turned
  away, what a request costs, and that the answers of the index never change.
\<close>

section \<open>The loaded store\<close>

text \<open>An entry found by its digest, and an entry that only bcrypt can find.\<close>

definition digest_entry :: "case_tables \<Rightarrow> api_key_entry \<Rightarrow> bool" where
  "digest_entry ct e \<longleftrightarrow> key_digest ct e \<noteq> []"

definition bcrypt_entry :: "case_tables \<Rightarrow> bcrypt_ops \<Rightarrow> api_key_entry \<Rightarrow> bool" where
  "bcrypt_entry ct bc e \<longleftrightarrow> key_digest ct e = [] \<and> usableHash bc (ak_key_hash e)"

definition file_slot :: "case_tables \<Rightarrow> api_key_store \<Rightarrow> index_key \<Rightarrow> nat \<Rightarrow> bool" where
  "file_slot ct st slot i \<longleftrightarrow> digest_entry ct (st_keys st ! i) \<and>
     (\<exists>raw. hex_decode (key_digest ct (st_keys st ! i)) = Some raw \<and> length raw = 32 \<and> slot = keyed (st_secret st) raw)"

definition loaded :: "case_tables \<Rightarrow> bcrypt_ops \<Rightarrow> nat \<Rightarrow> api_key_store \<Rightarrow> bool" where
  "loaded ct bc n st \<longleftrightarrow>
     (\<forall>slot i. st_index st slot = Some i \<longrightarrow> i < n \<and> file_slot ct st slot i) \<and>
     (\<forall>i < n. digest_entry ct (st_keys st ! i) \<longrightarrow> (\<exists>slot. st_index st slot = Some i)) \<and>
     st_unseen st = filter (\<lambda>i. bcrypt_entry ct bc (st_keys st ! i)) [0..<n]"

lemma load_entry_loaded:
  assumes "loaded ct bc n st" "load_entry ct bc n (st_keys st ! n) st = Inr st'"
  shows "loaded ct bc (Suc n) st' \<and> st_keys st' = st_keys st \<and> st_secret st' = st_secret st"
proof (cases "digest_entry ct (st_keys st ! n)")
  case True
  with assms(2) obtain raw where r: "hex_decode (key_digest ct (st_keys st ! n)) = Some raw" "length raw = 32"
    "st_index st (keyed (st_secret st) raw) = None" and
    st': "st' = st\<lparr>st_index := (st_index st)(keyed (st_secret st) raw \<mapsto> n),
                   st_summary := (st_summary st)\<lparr>ks_indexed := ks_indexed (st_summary st) + 1\<rparr>\<rparr>"
    by (auto simp: load_entry_def digest_entry_def Let_def split: option.splits if_splits)
  have "\<not> bcrypt_entry ct bc (st_keys st ! n)" using True by (simp add: digest_entry_def bcrypt_entry_def)
  moreover have "file_slot ct st (keyed (st_secret st) raw) n" using True r by (auto simp: file_slot_def)
  moreover have "file_slot ct st' = file_slot ct st" by (simp add: st' file_slot_def fun_eq_iff)
  moreover have "\<exists>slot. st_index st' slot = Some i" if i: "i < Suc n" "digest_entry ct (st_keys st ! i)" for i
  proof (cases "i = n")
    case False
    then obtain slot where "st_index st slot = Some i" using i assms(1) unfolding loaded_def less_Suc_eq by blast
    moreover have "slot \<noteq> keyed (st_secret st) raw" using calculation r(3) by auto
    ultimately show ?thesis by (auto simp: st')
  qed (auto simp: st')
  ultimately show ?thesis using assms(1) by (auto simp: loaded_def st' less_Suc_eq)
next
  case False
  then have st': "st_index st' = st_index st" "st_keys st' = st_keys st" "st_secret st' = st_secret st"
    "st_unseen st' = st_unseen st @ (if bcrypt_entry ct bc (st_keys st ! n) then [n] else [])"
    using assms(2) by (auto simp: load_entry_def digest_entry_def bcrypt_entry_def Let_def split: if_splits)
  have "file_slot ct st' = file_slot ct st" by (simp add: st' file_slot_def fun_eq_iff)
  then show ?thesis using assms(1) False by (auto simp: loaded_def st' less_Suc_eq)
qed

lemma load_entries_loaded:
  "loaded ct bc n st \<Longrightarrow> drop n (st_keys st) = es \<Longrightarrow> n \<le> length (st_keys st) \<Longrightarrow> load_entries ct bc n es st = Inr st' \<Longrightarrow>
   loaded ct bc (length (st_keys st)) st' \<and> st_keys st' = st_keys st \<and> st_secret st' = st_secret st"
proof (induction es arbitrary: n st)
  case Nil
  then show ?case by simp
next
  case (Cons e es)
  from Cons.prems(2) have n: "n < length (st_keys st)" by (metis drop_all list.distinct(1) not_less)
  then have e: "st_keys st ! n = e" "drop (Suc n) (st_keys st) = es" using Cons.prems(2) by (simp_all add: Cons_nth_drop_Suc [symmetric])
  from Cons.prems(4) obtain st1 where st1: "load_entry ct bc n e st = Inr st1" "load_entries ct bc (n + 1) es st1 = Inr st'"
    by (auto simp: bind_res_Inr_iff)
  then have l: "loaded ct bc (Suc n) st1" "st_keys st1 = st_keys st" "st_secret st1 = st_secret st"
    using load_entry_loaded Cons.prems(1) e by blast+
  then show ?case using Cons.IH [of "Suc n" st1] st1(2) e(2) n by simp
qed

lemma new_store_loaded:
  assumes "NewAPIKeyStore ct bc secret es = Inr st"
  shows "loaded ct bc (length es) st" "st_keys st = es" "st_secret st = secret"
proof -
  let ?st = "\<lparr>st_keys = es, st_summary = \<lparr>ks_indexed = 0, ks_bcrypt_only = 0, ks_unusable = []\<rparr>, st_secret = secret,
        st_index = Map.empty, st_unseen = []\<rparr>"
  have "loaded ct bc 0 ?st" by (simp add: loaded_def)
  then show "loaded ct bc (length es) st" "st_keys st = es" "st_secret st = secret"
    using load_entries_loaded [of ct bc 0 ?st es st] assms by (simp_all add: NewAPIKeyStore_def)
qed

section \<open>The store under concurrent requests\<close>

text \<open>Everything a request can do to the store: it grows, and keeps what it has.\<close>

definition grows :: "api_key_store \<Rightarrow> api_key_store \<Rightarrow> bool" where
  "grows st st' \<longleftrightarrow> st_keys st' = st_keys st \<and> st_secret st' = st_secret st \<and> st_index st \<subseteq>\<^sub>m st_index st' \<and>
     set (st_unseen st') \<subseteq> set (st_unseen st)"

lemma grows_refl [simp]: "grows st st"
  by (simp add: grows_def)

lemma grows_trans: "grows a b \<Longrightarrow> grows b c \<Longrightarrow> grows a c"
  by (auto simp: grows_def intro: map_le_trans)

lemma grows_index: "grows st st' \<Longrightarrow> st_index st slot = Some i \<Longrightarrow> st_index st' slot = Some i"
  by (auto simp: grows_def map_le_def) (metis domI)

abbreviation hash_match :: "bcrypt_ops \<Rightarrow> api_key_store \<Rightarrow> nat \<Rightarrow> string \<Rightarrow> bool" where
  "hash_match bc st i key \<equiv> bc_compare bc (ak_key_hash (st_keys st ! i)) key"

text \<open>What one request knows, relative to the store as it was loaded.\<close>

definition scan_ok :: "bcrypt_ops \<Rightarrow> api_key_store \<Rightarrow> api_key_store \<Rightarrow> verify_request \<Rightarrow> nat list \<Rightarrow> bool" where
  "scan_ok bc st0 st r todo \<longleftrightarrow>
     set todo \<subseteq> set (st_unseen st0) \<and> distinct (vr_compared r @ todo) \<and> st_index st0 (request_key st0 r) = None \<and>
     (\<forall>i \<in> set (st_unseen st0). hash_match bc st0 i (vr_key r) \<longrightarrow> i \<in> set todo \<or> i \<notin> set (st_unseen st))"

definition request_ok :: "bcrypt_ops \<Rightarrow> api_key_store \<Rightarrow> api_key_store \<Rightarrow> verify_request \<Rightarrow> bool" where
  "request_ok bc st0 st r \<longleftrightarrow> set (vr_compared r) \<subseteq> set (st_unseen st0) \<and> distinct (vr_compared r) \<and>
     (case vr_point r of
        Called \<Rightarrow> vr_compared r = []
      | Missed \<Rightarrow> vr_compared r = [] \<and> st_index st0 (request_key st0 r) = None
      | Waiting \<Rightarrow> vr_compared r = [] \<and> st_index st0 (request_key st0 r) = None
      | LoopHead todo \<Rightarrow> scan_ok bc st0 st r todo
      | ToCompare i rest \<Rightarrow> scan_ok bc st0 st r (i # rest)
      | Matched i \<Rightarrow> i \<in> set (st_unseen st0) \<and> hash_match bc st0 i (vr_key r) \<and> st_index st0 (request_key st0 r) = None
      | Done (Verified i) \<Rightarrow> st_index st (request_key st0 r) = Some i
      | Done NoMatch \<Rightarrow> st_index st0 (request_key st0 r) = None \<and>
          ((\<exists>i \<in> set (st_unseen st0). hash_match bc st0 i (vr_key r)) \<longrightarrow>
           (\<exists>i \<in> set (st_unseen st0). hash_match bc st0 i (vr_key r) \<and> i \<notin> set (st_unseen st)))
      | Done (NotChecked e) \<Rightarrow> True)"

lemma scan_ok_grows: "grows st st' \<Longrightarrow> scan_ok bc st0 st r todo \<Longrightarrow> scan_ok bc st0 st' r todo"
  by (auto simp: scan_ok_def grows_def)

lemma request_ok_grows: "grows st st' \<Longrightarrow> request_ok bc st0 st r \<Longrightarrow> request_ok bc st0 st' r"
  by (cases "vr_point r")
    (auto simp: request_ok_def scan_ok_grows grows_index split: verify_outcome.splits, (auto simp: grows_def)+)

text \<open>What the store itself keeps: every entry of the index is from the file or was bound by a request whose key
  its hash matches, an entry that left the unseen list is bound, and to one key only.\<close>

definition store_ok :: "bcrypt_ops \<Rightarrow> api_key_store \<Rightarrow> verify_state \<Rightarrow> bool" where
  "store_ok bc st0 s \<longleftrightarrow> (let st = vs_store s in
     grows st0 st \<and> distinct (st_unseen st) \<and>
     (\<forall>slot i. st_index st slot = Some i \<longrightarrow> st_index st0 slot = Some i \<or>
        i \<in> set (st_unseen st0) \<and> i \<notin> set (st_unseen st) \<and>
        (\<exists>r \<in> set (vs_requests s). slot = request_key st0 r \<and> hash_match bc st0 i (vr_key r))) \<and>
     (\<forall>i \<in> set (st_unseen st0) - set (st_unseen st). \<exists>!slot. st_index st slot = Some i))"

definition keys_ok :: "bcrypt_ops \<Rightarrow> api_key_store \<Rightarrow> verify_state \<Rightarrow> bool" where
  "keys_ok bc st0 s \<longleftrightarrow> store_ok bc st0 s \<and> (\<forall>r \<in> set (vs_requests s). request_ok bc st0 (vs_store s) r)"

lemma goto_fields [simp]:
  "vr_key (goto p r) = vr_key r" "vr_compared (goto p r) = vr_compared r" "vr_point (goto p r) = p"
  "request_key st (goto p r) = request_key st r" "scan_ok bc st0 st (goto p r) = scan_ok bc st0 st r"
  by (simp_all add: goto_def request_key_def scan_ok_def fun_eq_iff)

lemma request_key_grows: "grows st0 st \<Longrightarrow> request_key st r = request_key st0 r"
  by (simp add: grows_def request_key_def)

lemma found_or_ok:
  assumes "grows st0 st" "request_ok bc st0 st (goto p r)"
  shows "request_ok bc st0 st (goto (found_or (lookup (request_key st r) st) p) r)"
  using assms by (cases "lookup (request_key st r) st") (auto simp: request_ok_def lookup_def request_key_grows)

lemma not_indexed_before: "grows st0 st \<Longrightarrow> st_index st slot = None \<Longrightarrow> st_index st0 slot = None"
  using grows_index [of st0 st slot] by (cases "st_index st0 slot") auto

lemma remember_grows: "grows st (snd (remember i slot st))"
  by (auto simp: remember_def grows_def map_le_def split: option.splits dest: set_remove1_subset [THEN subsetD])

lemma request_step_grows: "request_step bc refusal r st = (r', st') \<Longrightarrow> grows st st'"
  using remember_grows [of st _ "request_key st r"]
  by (cases "vr_point r") (auto simp: request_step_def Let_def split: option.splits prod.splits, (metis snd_conv)+)

lemma matched_result_ok:
  assumes "grows st0 st" "request_ok bc st0 st r" "vr_point r = Matched i" "distinct (st_unseen st)"
    "remember i (request_key st r) st = (res, st')"
  shows "request_ok bc st0 st' (goto (Done (case res of Some k \<Rightarrow> Verified k | None \<Rightarrow> NoMatch)) r)"
proof (cases "st_index st (request_key st r)")
  case None
  with assms show ?thesis
    by (auto simp: request_ok_def remember_def request_key_grows split: if_splits)
next
  case (Some k)
  then have "res = Some k" "st' = st" using assms(5) by (simp_all add: remember_def)
  then show ?thesis using assms(1,2) Some by (simp add: request_ok_def request_key_grows)
qed

lemma request_step_ok:
  assumes "grows st0 st" "request_ok bc st0 st r" "distinct (st_unseen st)" "request_step bc refusal r st = (r', st')"
  shows "request_ok bc st0 st' r'"
proof (cases "vr_point r")
  case Called
  then show ?thesis using assms
    by (cases "lookup (request_key st r) st")
      (auto simp: request_step_def Let_def request_ok_def lookup_def request_key_grows dest: not_indexed_before)
next
  case Missed
  then show ?thesis using assms by (auto simp: request_step_def Let_def request_ok_def)
next
  case Waiting
  then show ?thesis using assms
    by (auto simp: request_step_def Let_def request_ok_def scan_ok_def grows_def split: option.splits)
next
  case (LoopHead todo)
  then show ?thesis using assms
    by (cases "lookup (request_key st r) st")
      (auto simp: request_step_def Let_def request_ok_def lookup_def request_key_grows scan_ok_def split: list.splits, blast)
next
  case (ToCompare i rest)
  then show ?thesis using assms
    by (auto simp: request_step_def Let_def request_ok_def scan_ok_def request_key_def grows_def goto_def split: option.splits if_splits)
next
  case (Matched i)
  then show ?thesis using assms matched_result_ok [OF assms(1,2) Matched assms(3)]
    by (auto simp: request_step_def Let_def split: prod.splits)
next
  case (Done out)
  then show ?thesis using assms by (auto simp: request_step_def Let_def)
qed

text \<open>The one step that changes the store: an unseen entry is bound to the key that matched it.\<close>

lemma request_step_store:
  assumes "request_step bc refusal r st = (r', st')" "st' \<noteq> st"
  obtains i where "vr_point r = Matched i" "st_index st (request_key st r) = None" "i \<in> set (st_unseen st)"
    "st' = st\<lparr>st_unseen := remove1 i (st_unseen st), st_index := (st_index st)(request_key st r \<mapsto> i)\<rparr>"
  using assms
  by (cases "vr_point r") (auto simp: request_step_def Let_def remember_def split: option.splits prod.splits if_splits)

lemma request_step_key: "request_step bc refusal r st = (r', st') \<Longrightarrow> vr_key r' = vr_key r"
  by (cases "vr_point r") (auto simp: request_step_def Let_def split: option.splits prod.splits)

lemma bind_store_ok:
  assumes s: "store_ok bc st0 s" and r: "r \<in> set (vs_requests s)" "vr_point r = Matched i" "request_ok bc st0 (vs_store s) r"
    and i: "st_index (vs_store s) (request_key st0 r) = None" "i \<in> set (st_unseen (vs_store s))"
    and st': "st' = (vs_store s)\<lparr>st_unseen := remove1 i (st_unseen (vs_store s)),
                st_index := (st_index (vs_store s))(request_key st0 r \<mapsto> i)\<rparr>"
    and g: "grows st0 st'"
    and disj: "\<And>slot j. st_index st0 slot = Some j \<Longrightarrow> j \<notin> set (st_unseen st0)"
  shows "store_ok bc st0 (s\<lparr>vs_store := st'\<rparr>)"
proof -
  let ?st = "vs_store s" and ?slot = "request_key st0 r"
  have d: "distinct (st_unseen ?st)" and
    old: "\<And>slot j. st_index ?st slot = Some j \<Longrightarrow> st_index st0 slot = Some j \<or> j \<in> set (st_unseen st0) \<and> j \<notin> set (st_unseen ?st) \<and>
      (\<exists>r \<in> set (vs_requests s). slot = request_key st0 r \<and> hash_match bc st0 j (vr_key r))" and
    one: "\<And>j. j \<in> set (st_unseen st0) - set (st_unseen ?st) \<Longrightarrow> \<exists>!slot. st_index ?st slot = Some j"
    using s by (auto simp: store_ok_def Let_def)
  have g0: "grows st0 ?st" using s by (simp add: store_ok_def Let_def)
  have i0: "i \<in> set (st_unseen st0)" "hash_match bc st0 i (vr_key r)" using r(2,3) by (simp_all add: request_ok_def)
  have free: "st_index ?st slot \<noteq> Some i" for slot using old [of slot i] disj i(2) i0(1) by blast
  have unseen: "set (st_unseen st') = set (st_unseen ?st) - {i}" using d by (simp add: st')
  have "st_index st0 slot = Some j \<or> j \<in> set (st_unseen st0) \<and> j \<notin> set (st_unseen st') \<and>
      (\<exists>r \<in> set (vs_requests s). slot = request_key st0 r \<and> hash_match bc st0 j (vr_key r))"
    if j: "st_index st' slot = Some j" for slot j
    using old [of slot j] j i0 r(1) unseen by (cases "slot = ?slot") (auto simp: st')
  moreover have "\<exists>!slot. st_index st' slot = Some j" if j: "j \<in> set (st_unseen st0) - set (st_unseen st')" for j
  proof (cases "j = i")
    case True
    then show ?thesis using free by (intro ex1I [of _ ?slot]) (auto simp: st' split: if_splits)
  next
    case False
    then have "\<exists>!slot. st_index ?st slot = Some j" using one [of j] j unseen by auto
    then show ?thesis using False i(1) by (auto simp: st' split: if_splits) (metis option.distinct(1))+
  qed
  moreover have "distinct (st_unseen st')" using d by (simp add: st')
  ultimately show ?thesis using g by (auto simp: store_ok_def Let_def)
qed

lemma verify_step_ok:
  assumes "keys_ok bc st0 s" "verify_step bc s s'" and disj: "\<And>slot j. st_index st0 slot = Some j \<Longrightarrow> j \<notin> set (st_unseen st0)"
  shows "keys_ok bc st0 s'"
  using assms(2)
proof cases
  case (arrive key)
  moreover have "request_ok bc st0 (vs_store s) \<lparr>vr_key = key, vr_point = Called, vr_compared = []\<rparr>" by (simp add: request_ok_def)
  ultimately show ?thesis using assms(1) unfolding keys_ok_def store_ok_def Let_def by auto
next
  case (advance k refusal r' st')
  let ?st = "vs_store s" and ?r = "vs_requests s ! k"
  have mem: "?r \<in> set (vs_requests s)" using advance by simp
  have g0: "grows st0 ?st" and d: "distinct (st_unseen ?st)" and rok: "request_ok bc st0 ?st ?r"
    using assms(1) mem by (auto simp: keys_ok_def store_ok_def Let_def)
  have g: "grows ?st st'" using advance(3) by (rule request_step_grows)
  have "store_ok bc st0 (s\<lparr>vs_store := st'\<rparr>)"
  proof (cases "st' = ?st")
    case True
    then show ?thesis using assms(1) by (simp add: keys_ok_def store_ok_def)
  next
    case False
    then obtain i where i: "vr_point ?r = Matched i" "st_index ?st (request_key st0 ?r) = None" "i \<in> set (st_unseen ?st)"
      "st' = ?st\<lparr>st_unseen := remove1 i (st_unseen ?st), st_index := (st_index ?st)(request_key st0 ?r \<mapsto> i)\<rparr>"
      using request_step_store [OF advance(3)] request_key_grows [OF g0] by metis
    show ?thesis
      by (rule bind_store_ok [OF _ mem i(1) rok i(2,3,4) grows_trans [OF g0 g] disj]) (use assms(1) in \<open>simp_all add: keys_ok_def\<close>)
  qed
  moreover have "\<exists>r2 \<in> set ((vs_requests s)[k := r']). request_key st0 r2 = request_key st0 r \<and> vr_key r2 = vr_key r"
    if r: "r \<in> set (vs_requests s)" for r
  proof -
    obtain n where n: "n < length (vs_requests s)" "vs_requests s ! n = r" using r by (auto simp: in_set_conv_nth)
    have "vr_key ((vs_requests s)[k := r'] ! n) = vr_key r"
      using n request_step_key [OF advance(3)] advance(2) by (cases "n = k") auto
    then show ?thesis using n by (intro bexI [of _ "(vs_requests s)[k := r'] ! n"]) (auto simp: request_key_def intro!: nth_mem)
  qed
  ultimately have "store_ok bc st0 s'"
    unfolding advance(1) store_ok_def Let_def by simp metis
  moreover have "request_ok bc st0 st' r" if "r \<in> set ((vs_requests s)[k := r'])" for r
    using set_update_subset_insert [THEN subsetD, OF that] request_step_ok [OF g0 rok d advance(3)] request_ok_grows [OF g] assms(1)
    by (auto simp: keys_ok_def)
  ultimately show ?thesis unfolding keys_ok_def by (simp add: advance(1))
qed

lemma loaded_disjoint: "loaded ct bc n st \<Longrightarrow> st_index st slot = Some j \<Longrightarrow> j \<notin> set (st_unseen st)"
  by (auto simp: loaded_def file_slot_def digest_entry_def bcrypt_entry_def)

lemma loaded_slot:
  assumes "loaded ct bc n st" "st_index st slot = Some i" "hex_decode (key_digest ct (st_keys st ! i)) = Some raw"
  shows "slot = keyed (st_secret st) raw"
  using assms unfolding loaded_def file_slot_def by (metis option.inject)

lemma verify_reachable_ok:
  assumes "verify_reachable bc st0 s" "loaded ct bc n st0"
  shows "keys_ok bc st0 s"
  using assms(1)
proof induction
  case start
  then show ?case using assms(2) by (simp add: keys_ok_def store_ok_def Let_def loaded_def)
next
  case (step s s')
  then show ?case using verify_step_ok loaded_disjoint [OF assms(2)] by blast
qed

section \<open>Who is accepted and who is not\<close>

text \<open>A key belongs to an entry when the entry's digest is the key's, or the entry has only a hash and bcrypt matches it.\<close>

definition credential :: "case_tables \<Rightarrow> bcrypt_ops \<Rightarrow> api_key_entry \<Rightarrow> string \<Rightarrow> bool" where
  "credential ct bc e key \<longleftrightarrow>
     (if digest_entry ct e then hex_decode (key_digest ct e) = Some (sha256 (bytes_of key))
      else bcrypt_entry ct bc e \<and> bc_compare bc (ak_key_hash e) key)"

text \<open>A collision of the index: another digest of the file, or another presented key, has the index key of this one.\<close>

definition collision :: "case_tables \<Rightarrow> verify_state \<Rightarrow> string \<Rightarrow> bool" where
  "collision ct s key \<longleftrightarrow> (let st = vs_store s; slot = indexKeyOf (st_secret st) key in
     list_ex (\<lambda>e. case hex_decode (key_digest ct e) of
         Some raw \<Rightarrow> raw \<noteq> sha256 (bytes_of key) \<and> keyed (st_secret st) raw = slot
       | None \<Rightarrow> False) (st_keys st) \<or>
     list_ex (\<lambda>r. vr_key r \<noteq> key \<and> request_key st r = slot) (vs_requests s))"

lemma indexed_credential:
  assumes new: "NewAPIKeyStore ct bc secret es = Inr st0" and s: "keys_ok bc st0 s"
    and i: "Find key (vs_store s) = Some i"
  shows "i < length es \<and> (credential ct bc (es ! i) key \<or> collision ct s key)"
proof -
  note l = new_store_loaded [OF new]
  have st: "st_keys (vs_store s) = es" "st_secret (vs_store s) = secret" using s l by (simp_all add: keys_ok_def store_ok_def Let_def grows_def)
  let ?slot = "indexKeyOf secret key"
  have "st_index st0 ?slot = Some i \<or> i \<in> set (st_unseen st0) \<and> (\<exists>r \<in> set (vs_requests s). ?slot = request_key st0 r \<and> hash_match bc st0 i (vr_key r))"
    using s i by (auto simp: keys_ok_def store_ok_def Let_def Find_def lookup_def st)
  then show ?thesis
  proof
    assume "st_index st0 ?slot = Some i"
    then have "i < length es" "file_slot ct st0 ?slot i" using l(1) by (auto simp: loaded_def)
    then show ?thesis using l(2,3)
      by (auto simp: file_slot_def credential_def collision_def Let_def st list_ex_iff intro!: bexI [of _ "es ! i"])
  next
    assume "i \<in> set (st_unseen st0) \<and> (\<exists>r \<in> set (vs_requests s). ?slot = request_key st0 r \<and> hash_match bc st0 i (vr_key r))"
    then obtain r where r: "i < length es" "bcrypt_entry ct bc (es ! i)" "r \<in> set (vs_requests s)" "?slot = indexKeyOf secret (vr_key r)"
      "bc_compare bc (ak_key_hash (es ! i)) (vr_key r)"
      using l by (auto simp: loaded_def request_key_def)
    then show ?thesis
      by (cases "vr_key r = key")
        (auto simp: credential_def digest_entry_def bcrypt_entry_def collision_def Let_def st list_ex_iff request_key_def)
  qed
qed

text \<open>C8: whatever requests run at the same time, a key is accepted only as the entry it belongs to: the entry that carries
  the key's SHA-256, or an entry whose bcrypt hash matched the key, unless two digests or keys in use
  collide in the index. What \<open>Verify\<close> accepts, \<open>Find\<close> finds as well.\<close>

theorem key_accepted_by_credential:
  assumes "NewAPIKeyStore ct bc secret es = Inr st0" "verify_reachable bc st0 s"
    and "Find key (vs_store s) = Some i \<or> (\<exists>r \<in> set (vs_requests s). vr_key r = key \<and> vr_point r = Done (Verified i))"
  shows "Find key (vs_store s) = Some i \<and> i < length es \<and> (credential ct bc (es ! i) key \<or> collision ct s key)"
proof -
  have s: "keys_ok bc st0 s" using assms(2) new_store_loaded(1) [OF assms(1)] by (rule verify_reachable_ok)
  then have sec: "st_secret (vs_store s) = st_secret st0" by (simp add: keys_ok_def store_ok_def Let_def grows_def)
  have f: "st_index (vs_store s) (indexKeyOf (st_secret st0) (vr_key r)) = Some i" if "r \<in> set (vs_requests s)" "vr_point r = Done (Verified i)" for r
    using s that by (force simp: keys_ok_def request_ok_def request_key_def)
  then have "Find key (vs_store s) = Some i" using assms(3) sec by (auto simp: Find_def lookup_def)
  with indexed_credential [OF assms(1) s] show ?thesis by blast
qed

text \<open>A key that \<open>Verify\<close> rejects has its digest in no entry of the file, and when a bcrypt hash matches it, then such an
  entry had been bound to a key before.\<close>

theorem key_rejected:
  assumes "NewAPIKeyStore ct bc secret es = Inr st0" "verify_reachable bc st0 s"
    and "r \<in> set (vs_requests s)" "vr_point r = Done NoMatch" "i < length es" "credential ct bc (es ! i) (vr_key r)"
  shows "\<exists>j < length es. bcrypt_entry ct bc (es ! j) \<and> credential ct bc (es ! j) (vr_key r) \<and>
    (\<exists>slot. st_index (vs_store s) slot = Some j)"
proof -
  note l = new_store_loaded [OF assms(1)]
  have s: "keys_ok bc st0 s" using assms(2) l(1) by (rule verify_reachable_ok)
  then have request_okD: "request_ok bc st0 (vs_store s) r" using assms(3) by (simp add: keys_ok_def)
  have r: "st_index st0 (indexKeyOf secret (vr_key r)) = None"
    "(\<exists>i \<in> set (st_unseen st0). hash_match bc st0 i (vr_key r)) \<longrightarrow>
     (\<exists>i \<in> set (st_unseen st0). hash_match bc st0 i (vr_key r) \<and> i \<notin> set (st_unseen (vs_store s)))"
    using request_okD assms(3,4) l(3) by (simp_all add: request_ok_def request_key_def)
  have "\<not> digest_entry ct (es ! i)"
  proof
    assume d: "digest_entry ct (es ! i)"
    then obtain slot where "st_index st0 slot = Some i" using l assms(5) by (auto simp: loaded_def)
    moreover from this have "slot = keyed secret (sha256 (bytes_of (vr_key r)))"
      using l d assms(6) loaded_slot [OF l(1)] by (simp add: credential_def)
    ultimately show False using r(1) by (simp add: indexKeyOf_def)
  qed
  then have "i \<in> set (st_unseen st0)" "hash_match bc st0 i (vr_key r)" using l assms(5,6) by (auto simp: loaded_def credential_def split: if_splits)
  with r(2) obtain j where j: "j \<in> set (st_unseen st0)" "hash_match bc st0 j (vr_key r)" "j \<notin> set (st_unseen (vs_store s))" by blast
  moreover from this have "\<exists>slot. st_index (vs_store s) slot = Some j" using s by (auto simp: keys_ok_def store_ok_def Let_def)
  moreover from j(1) have "j < length es" "bcrypt_entry ct bc (es ! j)" using l by (auto simp: loaded_def)
  ultimately show ?thesis using l(2) by (auto simp: credential_def digest_entry_def bcrypt_entry_def)
qed

lemma bound_once:
  assumes "NewAPIKeyStore ct bc secret es = Inr st0" "keys_ok bc st0 s"
    and a: "st_index (vs_store s) slot = Some i" "st_index (vs_store s) slot' = Some i"
  shows "slot = slot'"
proof -
  have old: "\<And>slot. st_index (vs_store s) slot = Some i \<Longrightarrow> st_index st0 slot = Some i \<or> i \<in> set (st_unseen st0) - set (st_unseen (vs_store s))"
    and one: "\<And>j. j \<in> set (st_unseen st0) - set (st_unseen (vs_store s)) \<Longrightarrow> \<exists>!slot. st_index (vs_store s) slot = Some j"
    using assms(2) by (auto simp: keys_ok_def store_ok_def Let_def)
  show ?thesis
  proof (cases "i \<in> set (st_unseen st0) - set (st_unseen (vs_store s))")
    case True
    then show ?thesis using one [OF True] a by blast
  next
    case False
    then have f: "st_index st0 slot = Some i" "st_index st0 slot' = Some i" using old a by auto
    then obtain raw where "hex_decode (key_digest ct (st_keys st0 ! i)) = Some raw"
      using new_store_loaded(1) [OF assms(1)] unfolding loaded_def file_slot_def by blast
    then show ?thesis using f loaded_slot [OF new_store_loaded(1) [OF assms(1)]] by metis
  qed
qed

lemma unseen_count: "length (filter (\<lambda>i. P (es ! i)) [0..<length es]) = length (filter P es)"
proof -
  have "filter P es = filter P (map ((!) es) [0..<length es])" by (simp add: map_nth)
  then show ?thesis by (simp add: filter_map comp_def)
qed

text \<open>a request compares every bcrypt-only entry at most once and no other entry, whatever runs beside it, and an
  entry is bound to one key at most.\<close>

theorem verify_cost:
  assumes "NewAPIKeyStore ct bc secret es = Inr st0" "verify_reachable bc st0 s" "r \<in> set (vs_requests s)"
  shows "distinct (vr_compared r) \<and> length (vr_compared r) \<le> length (filter (bcrypt_entry ct bc) es) \<and>
      (\<forall>i \<in> set (vr_compared r). i < length es \<and> bcrypt_entry ct bc (es ! i)) \<and>
      (\<forall>slot slot' i. st_index (vs_store s) slot = Some i \<longrightarrow> st_index (vs_store s) slot' = Some i \<longrightarrow> slot = slot')"
proof -
  note l = new_store_loaded [OF assms(1)]
  have s: "keys_ok bc st0 s" using assms(2) l(1) by (rule verify_reachable_ok)
  have u: "st_unseen st0 = filter (\<lambda>i. bcrypt_entry ct bc (es ! i)) [0..<length es]" using l by (simp add: loaded_def)
  have c: "set (vr_compared r) \<subseteq> set (st_unseen st0)" "distinct (vr_compared r)" using s assms(3) by (auto simp: keys_ok_def request_ok_def)
  moreover have "distinct (st_unseen st0)" by (simp add: u)
  ultimately have "length (vr_compared r) \<le> length (st_unseen st0)" by (metis card_mono distinct_card finite_set)
  then have "length (vr_compared r) \<le> length (filter (bcrypt_entry ct bc) es)" using unseen_count [of "bcrypt_entry ct bc" es] u by simp
  then show ?thesis using c u bound_once [OF assms(1) s] by auto
qed

section \<open>A request that runs alone\<close>

text \<open>Without other requests the scan stops at the first entry, in file order, whose hash matches.\<close>

lemma scan_first:
  assumes "Find key st = None" "set todo \<subseteq> set (st_unseen st)"
  shows "scan bc (\<lambda>_. None) n key todo st =
    (case find_first (\<lambda>i. hash_match bc st i key) todo of
       None \<Rightarrow> (Inr None, st)
     | Some i \<Rightarrow> (Inr (Some i), st\<lparr>st_unseen := remove1 i (st_unseen st), st_index := (st_index st)(indexKeyOf (st_secret st) key \<mapsto> i)\<rparr>))"
  using assms(2) by (induction todo arbitrary: n) (use assms(1) in \<open>auto simp: remember_def Find_def lookup_def\<close>)

text \<open>Alone and refused nothing, \<open>Verify\<close> answers with the entry of the index or else the first unseen entry, in file order,
  whose hash matches; afterwards the key is in the index and another \<open>Verify\<close> finds it without a comparison.\<close>

theorem verify_alone:
  "let (res, st') = Verify bc (\<lambda>_. None) key st in
     res = Inr (case Find key st of Some i \<Rightarrow> Some i | None \<Rightarrow> find_first (\<lambda>i. hash_match bc st i key) (st_unseen st)) \<and>
     (\<forall>i. res = Inr (Some i) \<longrightarrow> Find key st' = Some i \<and> Verify bc refuse key st' = (Inr (Some i), st'))"
proof (cases "Find key st")
  case None
  note first = scan_first [OF None order_refl, of bc]
  show ?thesis
  proof (cases "find_first (\<lambda>i. hash_match bc st i key) (st_unseen st)")
    case None
    then show ?thesis using \<open>Find key st = None\<close> first by (auto simp: Verify_def)
  next
    case (Some i)
    then have "st_unseen st \<noteq> []" by auto
    then show ?thesis using \<open>Find key st = None\<close> first Some by (auto simp: Verify_def Find_def lookup_def)
  qed
qed (simp add: Verify_def)

lemma scan_accepts:
  "scan bc refuse n key todo st = (Inr (Some i), st') \<Longrightarrow> Find key st' = Some i \<and> st_keys st' = st_keys st \<and>
     (Find key st = Some i \<or> i \<in> set todo \<and> hash_match bc st i key)"
  by (induction todo arbitrary: n) (auto simp: remember_def Find_def lookup_def split: option.splits if_splits prod.splits)

lemma verify_accepts:
  "Verify bc refuse key st = (Inr (Some i), st') \<Longrightarrow> Find key st' = Some i \<and> st_keys st' = st_keys st \<and>
     (Find key st = Some i \<or> i \<in> set (st_unseen st) \<and> hash_match bc st i key)"
  using scan_accepts by (force simp: Verify_def split: option.splits if_splits)

text \<open>The steps of a request that no other request interrupts and no limiter refuses lead to the answer of \<open>Verify\<close>.\<close>

fun run_alone :: "nat \<Rightarrow> bcrypt_ops \<Rightarrow> verify_request \<Rightarrow> api_key_store \<Rightarrow> verify_request \<times> api_key_store" where
  "run_alone 0 bc r st = (r, st)"
| "run_alone (Suc n) bc r st = (let (r', st') = request_step bc None r st in run_alone n bc r' st')"

abbreviation answer_of :: "(compare_error, nat option) result \<Rightarrow> verify_outcome" where
  "answer_of res \<equiv> (case res of Inr (Some i) \<Rightarrow> Verified i | Inr None \<Rightarrow> NoMatch | Inl e \<Rightarrow> NotChecked e)"

lemma run_done: "vr_point r = Done out \<Longrightarrow> run_alone n bc r st = (r, st)"
  by (induction n) (simp_all add: request_step_def Let_def)

lemma run_key: "vr_key (fst (run_alone n bc r st)) = vr_key r"
proof (induction n arbitrary: r st)
  case (Suc n)
  obtain r1 st1 where "request_step bc None r st = (r1, st1)" by (cases "request_step bc None r st")
  then show ?case using Suc.IH [of r1 st1] request_step_key by simp
qed simp

lemma run_scan:
  assumes "2 * length todo + 2 \<le> n" "vr_point r = LoopHead todo"
  shows "vr_point (fst (run_alone n bc r st)) = Done (answer_of (fst (scan bc (\<lambda>_. None) k (vr_key r) todo st))) \<and>
         snd (run_alone n bc r st) = snd (scan bc (\<lambda>_. None) k (vr_key r) todo st)"
  using assms
proof (induction todo arbitrary: n r k)
  case Nil
  then obtain m where "n = Suc m" by (cases n) auto
  then show ?case using Nil
    by (cases "Find (vr_key r) st") (auto simp: request_step_def Let_def Find_def lookup_def request_key_def run_done)
next
  case (Cons i rest)
  define m where "m = n - 3"
  then have n: "n = Suc (Suc (Suc m))" and m: "2 * length rest + 2 \<le> Suc m" using Cons.prems(1) by auto
  show ?case
  proof (cases "Find (vr_key r) st")
    case (Some k)
    then show ?thesis using Cons.prems by (auto simp: n request_step_def Let_def Find_def lookup_def request_key_def run_done)
  next
    case None
    then have two: "run_alone n bc r st = run_alone (Suc m) bc
      (goto (if hash_match bc st i (vr_key r) then Matched i else LoopHead rest) (r\<lparr>vr_point := ToCompare i rest, vr_compared := vr_compared r @ [i]\<rparr>)) st"
      using Cons.prems(2) by (simp add: n request_step_def Let_def Find_def lookup_def request_key_def goto_def)
    show ?thesis
    proof (cases "hash_match bc st i (vr_key r)")
      case True
      then show ?thesis using two None
        by (auto simp: request_step_def Let_def request_key_def goto_def run_done split: prod.splits option.splits)
    next
      case False
      let ?r = "r\<lparr>vr_compared := vr_compared r @ [i], vr_point := LoopHead rest\<rparr>"
      have "run_alone n bc r st = run_alone (Suc m) bc ?r st" using two False by (simp only: goto_def if_False) simp
      then show ?thesis using False None Cons.IH [OF m, of ?r] by (simp del: run_alone.simps)
    qed
  qed
qed

lemma verify_runs:
  assumes "2 * length (st_unseen st) + 5 \<le> n"
  shows "let out = run_alone n bc \<lparr>vr_key = key, vr_point = Called, vr_compared = []\<rparr> st in
    vr_point (fst out) = Done (answer_of (fst (Verify bc (\<lambda>_. None) key st))) \<and> snd out = snd (Verify bc (\<lambda>_. None) key st)"
proof -
  define m where "m = n - 3"
  then have n: "n = Suc (Suc (Suc m))" and m: "2 * length (st_unseen st) + 2 \<le> m" using assms by auto
  show ?thesis
  proof (cases "Find key st = None \<and> st_unseen st \<noteq> []")
    case True
    let ?r = "\<lparr>vr_key = key, vr_point = LoopHead (st_unseen st), vr_compared = []\<rparr>"
    have "run_alone n bc \<lparr>vr_key = key, vr_point = Called, vr_compared = []\<rparr> st = run_alone m bc ?r st"
      using True by (simp add: n request_step_def Let_def Find_def lookup_def request_key_def goto_def)
    then show ?thesis using True run_scan [OF m, of ?r bc st 1] by (simp add: Verify_def Let_def)
  next
    case False
    then show ?thesis
      by (cases "Find key st") (auto simp: n Verify_def request_step_def Let_def Find_def lookup_def request_key_def goto_def run_done)
  qed
qed

section \<open>The first use of a key by two requests\<close>

lemma reach_arrive:
  "verify_reachable bc st0 \<lparr>vs_store = st, vs_requests = rs\<rparr> \<Longrightarrow>
   verify_reachable bc st0 \<lparr>vs_store = st, vs_requests = rs @ [\<lparr>vr_key = key, vr_point = Called, vr_compared = []\<rparr>]\<rparr>"
  using verify_reachable.step verify_step.arrive [of bc "\<lparr>vs_store = st, vs_requests = rs\<rparr>" key] by simp

lemma reach_advance:
  "verify_reachable bc st0 \<lparr>vs_store = st, vs_requests = rs\<rparr> \<Longrightarrow> k < length rs \<Longrightarrow> request_step bc None (rs ! k) st = (r, st') \<Longrightarrow>
   verify_reachable bc st0 \<lparr>vs_store = st', vs_requests = rs[k := r]\<rparr>"
  using verify_reachable.step verify_step.advance [of k "\<lparr>vs_store = st, vs_requests = rs\<rparr>" bc None r st'] by simp

lemma reach_run:
  "verify_reachable bc st0 \<lparr>vs_store = st, vs_requests = rs\<rparr> \<Longrightarrow> k < length rs \<Longrightarrow> run_alone n bc (rs ! k) st = (r, st') \<Longrightarrow>
   verify_reachable bc st0 \<lparr>vs_store = st', vs_requests = rs[k := r]\<rparr>"
proof (induction n arbitrary: rs st)
  case 0
  then show ?case by auto
next
  case (Suc n)
  obtain r1 st1 where one: "request_step bc None (rs ! k) st = (r1, st1)" by (cases "request_step bc None (rs ! k) st")
  from reach_advance [OF Suc.prems(1,2) one] Suc.IH [of st1 "rs[k := r1]"] Suc.prems one show ?case by simp
qed

lemma race_reachable:
  assumes "st_unseen st0 = [i]" "Find key st0 = None" "hash_match bc st0 i key"
  obtains s where "verify_reachable bc st0 s" "map vr_key (vs_requests s) = [key, key]"
    "map vr_point (vs_requests s) = [Done NoMatch, Done (Verified i)]" "Find key (vs_store s) = Some i"
proof -
  let ?r = "\<lambda>p. \<lparr>vr_key = key, vr_point = p, vr_compared = []\<rparr>"
  have "verify_reachable bc st0 \<lparr>vs_store = st0, vs_requests = [?r Called, ?r Called]\<rparr>"
    using reach_arrive [OF reach_arrive [OF verify_reachable.start]] by simp
  then have "verify_reachable bc st0 \<lparr>vs_store = st0, vs_requests = [?r Missed, ?r Called]\<rparr>"
    using assms(2) by (rule_tac reach_advance [of bc st0 st0 "[?r Called, ?r Called]" 0, simplified])
      (auto simp: request_step_def Let_def Find_def lookup_def request_key_def goto_def)
  moreover obtain r st where run: "run_alone 7 bc (?r Called) st0 = (r, st)" by (cases "run_alone 7 bc (?r Called) st0")
  ultimately have "verify_reachable bc st0 \<lparr>vs_store = st, vs_requests = [?r Missed, r]\<rparr>"
    using reach_run [of bc st0 st0 "[?r Missed, ?r Called]" 1 7 r st] by simp
  moreover have v: "Verify bc (\<lambda>_. None) key st0 = (Inr (Some i), st)" "vr_point r = Done (Verified i)"
    using verify_runs [of st0 7 bc key] run assms scan_first [OF assms(2) order_refl, of bc 1] by (auto simp: Verify_def Let_def)
  moreover have "st_unseen st = []" using v(1) assms by (auto simp: Verify_def remember_def Find_def lookup_def split: option.splits)
  moreover have "vr_key r = key" using run_key [of 7 bc "?r Called" st0] run by simp
  moreover have "request_step bc None (?r Missed) st = (?r (Done NoMatch), st)"
    using \<open>st_unseen st = []\<close> by (simp add: request_step_def Let_def goto_def)
  ultimately have "verify_reachable bc st0 \<lparr>vs_store = st, vs_requests = [?r (Done NoMatch), r]\<rparr>"
    using reach_advance [of bc st0 st "[?r Missed, r]" 0] by simp
  moreover have "Find key st = Some i" using verify_accepts [OF v(1)] by simp
  ultimately show thesis using v(2) \<open>vr_key r = key\<close> by (intro that [of "\<lparr>vs_store = st, vs_requests = [?r (Done NoMatch), r]\<rparr>"]) simp_all
qed

text \<open>When the last unseen entry's key is presented for the first time by two requests at once, one of them may be
  rejected although its key is valid and in the index by then: \<open>Verify\<close> asks the index before it sees
  that no unseen entry is left, and not again.\<close>

theorem first_use_race:
  assumes "st_unseen st0 = [i]" "Find key st0 = None" "bc_compare bc (ak_key_hash (st_keys st0 ! i)) key"
  shows "\<exists>s. verify_reachable bc st0 s \<and> map vr_key (vs_requests s) = [key, key] \<and>
    map vr_point (vs_requests s) = [Done NoMatch, Done (Verified i)] \<and> Find key (vs_store s) = Some i"
  using race_reachable [OF assms] by metis

section \<open>A key file\<close>

definition demo_entries :: "api_key_entry list" where
  "demo_entries = [\<lparr>ak_key_hash = ''$2a$10$abcdefghijklmnopqrstuv'', ak_key_sha256 = [], ak_user_id = ''ann'', ak_company_id = [],
     ak_plan = [], ak_roles = None, ak_caller_id = []\<rparr>]"

definition demo_bcrypt :: bcrypt_ops where
  "demo_bcrypt = \<lparr>bc_compare = (\<lambda>h k. k = ''secret''), bc_cost = (\<lambda>h. Some 10)\<rparr>"

definition demo_case :: case_tables where
  "demo_case = \<lparr>lower_beyond_ascii = id, upper_beyond_ascii = id\<rparr>"

definition demo_key_store :: api_key_store where
  "demo_key_store = \<lparr>st_keys = demo_entries, st_summary = \<lparr>ks_indexed = 0, ks_bcrypt_only = 1, ks_unusable = []\<rparr>, st_secret = [],
     st_index = Map.empty, st_unseen = [0]\<rparr>"

lemma no_digest: "ak_key_sha256 e = [] \<Longrightarrow> key_digest ct e = []"
  by (simp add: key_digest_def trim_space_def trim_list_def to_lower_def runes_def of_runes_def)

lemma demo_usable: "usableHash demo_bcrypt (ak_key_hash (demo_entries ! 0))"
  by (simp add: usableHash_def demo_bcrypt_def demo_entries_def salt_decodes_def bcrypt_alphabet_def Let_def)

lemma demo_loads: "NewAPIKeyStore demo_case demo_bcrypt [] demo_entries = Inr demo_key_store"
  using demo_usable no_digest [of "demo_entries ! 0" demo_case]
  by (simp add: NewAPIKeyStore_def load_entry_def Let_def demo_entries_def demo_key_store_def)

lemma demo_credential: "credential demo_case demo_bcrypt (demo_entries ! 0) ''secret''" "bcrypt_entry demo_case demo_bcrypt (demo_entries ! 0)"
  using demo_usable no_digest [of "demo_entries ! 0" demo_case]
  by (simp_all add: credential_def digest_entry_def bcrypt_entry_def demo_entries_def demo_bcrypt_def)

theorem first_use_race_witness:
  "\<exists>s. verify_reachable demo_bcrypt demo_key_store s \<and> map vr_key (vs_requests s) = [''secret'', ''secret''] \<and>
     map vr_point (vs_requests s) = [Done NoMatch, Done (Verified 0)] \<and> Find ''secret'' (vs_store s) = Some 0"
  by (rule first_use_race) (simp_all add: demo_key_store_def Find_def lookup_def demo_bcrypt_def)

lemma demo_race:
  obtains s where "verify_reachable demo_bcrypt demo_key_store s" "map vr_key (vs_requests s) = [''secret'', ''secret'']"
    "map vr_point (vs_requests s) = [Done NoMatch, Done (Verified 0)]" "Find ''secret'' (vs_store s) = Some 0"
  by (rule race_reachable [of demo_key_store 0 "''secret''" demo_bcrypt]) (simp_all add: demo_key_store_def Find_def lookup_def demo_bcrypt_def)

theorem key_accepted_by_credential_witness:
  "\<exists>s. verify_reachable demo_bcrypt demo_key_store s \<and> Find ''secret'' (vs_store s) = Some 0 \<and>
     (credential demo_case demo_bcrypt (demo_entries ! 0) ''secret'' \<or> collision demo_case s ''secret'')"
  using key_accepted_by_credential [OF demo_loads, of _ "''secret''" 0] demo_race by metis

theorem key_rejected_witness:
  "\<exists>s. verify_reachable demo_bcrypt demo_key_store s \<and> (\<exists>slot. st_index (vs_store s) slot = Some 0)"
proof -
  obtain s where s: "verify_reachable demo_bcrypt demo_key_store s" "map vr_key (vs_requests s) = [''secret'', ''secret'']"
    "map vr_point (vs_requests s) = [Done NoMatch, Done (Verified 0)]" by (rule demo_race)
  then obtain r r' where r: "vs_requests s = [r, r']" "vr_key r = ''secret''" "vr_point r = Done NoMatch" by auto
  from key_rejected [OF demo_loads s(1), of r 0] have "\<exists>j < length demo_entries. \<exists>slot. st_index (vs_store s) slot = Some j"
    using r demo_credential by (auto simp: demo_entries_def)
  then show ?thesis using s(1) by (auto simp: demo_entries_def)
qed

theorem verify_cost_witness:
  "\<exists>s r. verify_reachable demo_bcrypt demo_key_store s \<and> r \<in> set (vs_requests s) \<and> length (vr_compared r) \<le> 1"
proof -
  obtain s where s: "verify_reachable demo_bcrypt demo_key_store s" "map vr_key (vs_requests s) = [''secret'', ''secret'']" by (rule demo_race)
  then obtain r r' where r: "vs_requests s = [r, r']" by auto
  have "length (filter (bcrypt_entry demo_case demo_bcrypt) demo_entries) \<le> length demo_entries" by (rule length_filter_le)
  moreover have "length demo_entries = 1" by (simp add: demo_entries_def)
  moreover have "length (vr_compared r) \<le> length (filter (bcrypt_entry demo_case demo_bcrypt) demo_entries)"
    using verify_cost [OF demo_loads s(1), of r] r by simp
  ultimately have "length (vr_compared r) \<le> 1" by simp
  then show ?thesis using s(1) r by (intro exI [of _ s] exI [of _ r]) simp
qed

end
