(* ===== verification/OAuthProps.thy ===== *)
theory OAuthProps
  imports OAuthServer TokenContract ApiKeyProps
begin

text \<open>
  Where an access token comes from. In every run of the server whose store held nothing at the start,
  a token stands for a password login at the authorization endpoint whose code was redeemed at the
  token endpoint by the same client with the PKCE verifier of the login's challenge.
\<close>

section \<open>Logins and redemptions of a run\<close>

text \<open>The authorization code of a request that logged in with the right password. The answer is a redirect with the code,
  or an error when the store reported one.\<close>

definition login_code :: "('s, 'r) oauth_server \<Rightarrow> exchange \<Rightarrow> auth_code option" where
  "login_code sv x =
     (if ex_endpoint x = AtAuthorize \<and> rq_method (ex_request x) = ''POST'' \<and>
         (case ex_response x of Some (Found _) \<Rightarrow> True | Some (PlainError n) \<Rightarrow> n = 500 | _ \<Rightarrow> False)
      then (case rq_form (ex_request x) of
              None \<Rightarrow> None
            | Some f \<Rightarrow>
                (case check_password sv (ex_circumstances x) (f ''username'') (f ''password'') of
                   Inr (Some who) \<Rightarrow> Some (new_auth_code (ex_circumstances x) (form_of f) who)
                 | _ \<Rightarrow> None))
      else None)"

text \<open>A request that redeems a code: of its client, with a verifier of its challenge.\<close>

definition redeems :: "auth_code \<Rightarrow> exchange \<Rightarrow> bool" where
  "redeems ac x \<longleftrightarrow> ex_endpoint x = AtToken \<and> rq_method (ex_request x) = ''POST'' \<and>
     (case rq_form (ex_request x) of
        None \<Rightarrow> False
      | Some f \<Rightarrow> f ''grant_type'' = ''authorization_code'' \<and> f ''code'' = ac_code ac \<and>
          f ''client_id'' \<noteq> [] \<and> json_text (f ''client_id'') = json_text (ac_client_id ac) \<and>
          f ''code_verifier'' \<noteq> [] \<and> json_text (pkce_challenge (f ''code_verifier'')) = json_text (ac_code_challenge ac))"

definition id_of_code :: "auth_code \<Rightarrow> string \<times> string \<times> string \<times> string \<times> string list option" where
  "id_of_code ac = (json_text (ac_client_id ac), json_text (ac_user_id ac), json_text (ac_company_id ac), json_text (ac_plan ac),
     map_option (map json_text) (ac_roles ac))"

definition id_of_token :: "token_info \<Rightarrow> string \<times> string \<times> string \<times> string \<times> string list option" where
  "id_of_token ti = (json_text (ti_client_id ti), json_text (ti_user_id ti), json_text (ti_company_id ti), json_text (ti_plan ti),
     map_option (map json_text) (ti_roles ti))"

definition token_from :: "('s, 'r) oauth_server \<Rightarrow> exchange list \<Rightarrow> token_info \<Rightarrow> bool" where
  "token_from sv h ti \<longleftrightarrow> (\<exists>x \<in> set h. \<exists>y \<in> set h. \<exists>ac. login_code sv x = Some ac \<and> redeems ac y \<and> id_of_token ti = id_of_code ac \<and>
     json_text (ti_caller_id ti) = json_text (ac_client_id ac))"

definition code_from :: "('s, 'r) oauth_server \<Rightarrow> exchange list \<Rightarrow> string \<Rightarrow> auth_code \<Rightarrow> bool" where
  "code_from sv h k ac \<longleftrightarrow> (\<exists>x \<in> set h. \<exists>ac0. login_code sv x = Some ac0 \<and> k = ac_code ac0 \<and> wire_code ac = wire_code ac0)"

definition provenance :: "('s, 'r) oauth_server \<Rightarrow> exchange list \<Rightarrow> holdings \<Rightarrow> bool" where
  "provenance sv h held \<longleftrightarrow> (\<forall>(k, ac) \<in> h_codes held. code_from sv h k ac) \<and>
     (\<forall>(k, ti) \<in> h_access held \<union> h_refresh held. token_from sv h ti)"

lemma json_text_idem [simp]: "json_text (json_text s) = json_text s"
  by (simp add: json_text_def runes_valid)

lemma wire_idem [simp]: "wire_code (wire_code ac) = wire_code ac" "wire_token (wire_token ti) = wire_token ti"
  by (simp_all add: wire_code_def wire_token_def option.map_comp comp_def)

lemma wire_code_eqD:
  assumes "wire_code a = wire_code b"
  shows "id_of_code a = id_of_code b" "json_text (ac_client_id a) = json_text (ac_client_id b)"
    "json_text (ac_code_challenge a) = json_text (ac_code_challenge b)" "json_text (ac_code a) = json_text (ac_code b)"
proof -
  have "ac_client_id (wire_code a) = ac_client_id (wire_code b)" "ac_user_id (wire_code a) = ac_user_id (wire_code b)"
    "ac_company_id (wire_code a) = ac_company_id (wire_code b)" "ac_plan (wire_code a) = ac_plan (wire_code b)"
    "ac_roles (wire_code a) = ac_roles (wire_code b)" "ac_code_challenge (wire_code a) = ac_code_challenge (wire_code b)"
    "ac_code (wire_code a) = ac_code (wire_code b)"
    by (simp_all add: assms)
  then show "id_of_code a = id_of_code b" "json_text (ac_client_id a) = json_text (ac_client_id b)"
    "json_text (ac_code_challenge a) = json_text (ac_code_challenge b)" "json_text (ac_code a) = json_text (ac_code b)"
    by (simp_all add: wire_code_def id_of_code_def)
qed

lemma wire_token_id [simp]: "id_of_token (wire_token ti) = id_of_token ti" "json_text (ti_caller_id (wire_token ti)) = json_text (ti_caller_id ti)"
  by (simp_all add: wire_token_def id_of_token_def option.map_comp comp_def)

lemma token_from_wire: "token_from sv h (wire_token ti) = token_from sv h ti"
  by (simp add: token_from_def)

lemma token_from_mono: "token_from sv h ti \<Longrightarrow> set h \<subseteq> set h' \<Longrightarrow> token_from sv h' ti"
  unfolding token_from_def by blast

lemma code_from_mono: "code_from sv h k ac \<Longrightarrow> set h \<subseteq> set h' \<Longrightarrow> code_from sv h' k ac"
  unfolding code_from_def by blast

lemma provenance_mono: "provenance sv h held \<Longrightarrow> set h \<subseteq> set h' \<Longrightarrow> provenance sv h' held"
  unfolding provenance_def using token_from_mono [of sv h _ h'] code_from_mono [of sv h _ _ h'] by blast

text \<open>The store gained at most these.\<close>

definition gained :: "(string \<times> auth_code) set \<Rightarrow> token_info set \<Rightarrow> holdings \<Rightarrow> holdings \<Rightarrow> bool" where
  "gained C T a b \<longleftrightarrow> h_codes b \<subseteq> h_codes a \<union> C \<and> h_access b \<subseteq> h_access a \<union> UNIV \<times> T \<and> h_refresh b \<subseteq> h_refresh a \<union> UNIV \<times> T"

lemma gained_trans: "gained C T a b \<Longrightarrow> gained C' T' b c \<Longrightarrow> gained (C \<union> C') (T \<union> T') a c"
  unfolding gained_def by blast

lemma gained_quiet [trans]: "gained {} {} a b \<Longrightarrow> gained C T b c \<Longrightarrow> gained C T a c"
  unfolding gained_def by blast

lemma gained_refl [simp]: "gained C T a a"
  by (auto simp: gained_def)

lemma within_gained: "within b a \<Longrightarrow> gained {} {} a b"
  by (auto simp: gained_def within_def)

lemma provenance_gained:
  assumes "provenance sv h a" "gained C T a b" "\<forall>(k, ac) \<in> C. code_from sv h k ac" "\<forall>ti \<in> T. token_from sv h ti"
  shows "provenance sv h b"
  using assms unfolding provenance_def gained_def by blast

section \<open>What the handlers save\<close>

context token_store
begin

lemma register_quiet:
  assumes "sv_store sv = Some ops" "handleRegister sv ci rq st = (r, st')"
  shows "gained {} {} (held (ov_store st)) (held (ov_store st'))"
proof -
  have lim: "ov_store (snd (limiter_denies sv ci rq st)) = ov_store st"
    by (auto simp: limiter_denies_def split: option.splits prod.splits)
  have "ov_store st' = ov_store st \<or> (\<exists>c err. to_save_client ops (ci_store ci 0) c (ov_store st) = (err, ov_store st'))"
    using assms lim by (auto simp: handleRegister_def Let_def split: if_splits option.splits prod.splits list.splits)
  then show ?thesis
  proof
    assume "\<exists>c err. to_save_client ops (ci_store ci 0) c (ov_store st) = (err, ov_store st')"
    then obtain c err where "to_save_client ops (ci_store ci 0) c (ov_store st) = (err, ov_store st')" by blast
    from save_client [OF this] show ?thesis by (auto simp: gained_def holding_defs)
  qed simp
qed

lemma authorize_gains:
  assumes "sv_store sv = Some ops" "handleAuthorize sv ci rq st = (r, st')"
  shows "ov_store st' = ov_store st \<or> (\<exists>ac. login_code sv \<lparr>ex_endpoint = AtAuthorize, ex_circumstances = ci, ex_request = rq, ex_response = Some r\<rparr> = Some ac \<and>
    gained {(ac_code ac, x) | x. x = ac \<or> x = wire_code ac} {} (held (ov_store st)) (held (ov_store st')))"
proof (cases "ov_store st' = ov_store st")
  case False
  then obtain f who attempt st1 where "rq_form rq = Some f" "rq_method rq = ''POST''"
    and pw: "check_password sv ci (f ''username'') (f ''password'') = Inr (Some who)" and
    issue: "issue_code sv ci (form_of f) attempt who st1 = (r, st')" and st1: "ov_store st1 = ov_store st"
    using assms(2)
    by (auto simp: handleAuthorize_def authorize_post_def Let_def RecordLogin_def split: if_splits option.splits sum.splits prod.splits)
  obtain err where save: "to_save_code ops (ci_store ci 1) (new_auth_code ci (form_of f) who) (ov_store st) = (err, ov_store st')"
    and r: "r = PlainError 500 \<or> (\<exists>l. r = Found l)"
    using issue assms(1) st1 by (auto simp: issue_code_def Let_def RecordLogin_def split: prod.splits if_splits)
  let ?ac = "new_auth_code ci (form_of f) who"
  have "login_code sv \<lparr>ex_endpoint = AtAuthorize, ex_circumstances = ci, ex_request = rq, ex_response = Some r\<rparr> = Some ?ac"
    using \<open>rq_form rq = Some f\<close> \<open>rq_method rq = ''POST''\<close> pw r by (auto simp: login_code_def)
  moreover have "gained {(ac_code ?ac, x) | x. x = ?ac \<or> x = wire_code ?ac} {} (held (ov_store st)) (held (ov_store st'))"
    using save_code [OF save] by (auto simp: gained_def holding_defs)
  ultimately show ?thesis by blast
qed simp

lemma issue_gains:
  assumes "issue_token sv ci ops meth ti st = (r, st')"
  shows "gained {} {ti, wire_token ti} (held (ov_store st)) (held (ov_store st'))"
proof -
  obtain err s where s: "to_save_token ops (ci_store ci 2) ti (ov_store st) = (err, s)" by (cases "to_save_token ops (ci_store ci 2) ti (ov_store st)")
  obtain err2 s2 where s2: "to_save_refresh ops (ci_store ci 3) ti s = (err2, s2)" by (cases "to_save_refresh ops (ci_store ci 3) ti s")
  obtain err3 s3 where s3: "ExtendClient ops (ci_store ci 4) (ti_client_id ti)
      (if sv_dcr_idle_ttl sv > 0 then Some (ci_now ci 2 + max (sv_dcr_idle_ttl sv) MinDCRClientIdleTTL * second) else None) s2 = (err3, s3)"
    by (meson surj_pair)
  have "ov_store st' \<in> {s, s2, s3}"
    using assms s s2 s3 by (auto simp: issue_token_def extendClient_def RecordLogin_def Let_def split: if_splits)
  moreover have 1: "gained {} {ti, wire_token ti} (held (ov_store st)) (held s)" using save_token [OF s] by (auto simp: gained_def holding_defs)
  moreover have 2: "gained {} {ti, wire_token ti} (held s) (held s2)" using save_refresh [OF s2] by (auto simp: gained_def holding_defs)
  moreover have 3: "gained {} {} (held s2) (held s3)" using extend_client [OF s3] by (auto simp: gained_def)
  ultimately show ?thesis using gained_trans [OF 1 2] gained_trans [OF gained_trans [OF 1 2] 3] by auto
qed

lemma code_grant_gains:
  assumes "sv_store sv = Some ops" "handleAuthorizationCodeGrant sv ci f st = (r, st')"
  shows "gained {} {} (held (ov_store st)) (held (ov_store st')) \<or>
    (\<exists>ac name. (f ''code'', ac) \<in> h_codes (held (ov_store st)) \<and> f ''client_id'' = ac_client_id ac \<and> f ''client_id'' \<noteq> [] \<and> f ''code_verifier'' \<noteq> [] \<and>
       pkce_challenge (f ''code_verifier'') = ac_code_challenge ac \<and>
       gained {} {token_of_code ci ac name, wire_token (token_of_code ci ac name)} (held (ov_store st)) (held (ov_store st')))"
proof -
  obtain res s where c: "to_consume_code ops (ci_store ci 0) (f ''code'') (ov_store st) = (res, s)" by (meson surj_pair)
  note law = consume_code [OF c]
  have quiet: "gained {} {} (held (ov_store st)) (held s)" using law within_gained by blast
  consider "ov_store st' \<in> {ov_store st, s}"
    | ac name where "res = Inr ac" "f ''client_id'' \<noteq> []" "f ''client_id'' = ac_client_id ac" "f ''code_verifier'' \<noteq> []"
      "pkce_challenge (f ''code_verifier'') = ac_code_challenge ac"
      "issue_token sv ci ops loginMethodOAuthCode (token_of_code ci ac name) (st\<lparr>ov_store := s\<rparr>) = (r, st')"
    using assms c
    by (cases res) (auto simp: handleAuthorizationCodeGrant_def grant_failed_def RecordLogin_def Let_def split: if_splits)
  then show ?thesis
  proof cases
    case 1
    then show ?thesis using quiet by auto
  next
    case (2 ac name)
    from gained_quiet [OF quiet] issue_gains [OF 2(6)]
    have "gained {} {token_of_code ci ac name, wire_token (token_of_code ci ac name)} (held (ov_store st)) (held (ov_store st'))" by simp
    then show ?thesis using 2 law by blast
  qed
qed

lemma refresh_grant_gains:
  assumes "sv_store sv = Some ops" "handleRefreshTokenGrant sv ci f st = (r, st')"
  shows "gained {} {} (held (ov_store st)) (held (ov_store st')) \<or>
    (\<exists>old. (f ''refresh_token'', old) \<in> h_refresh (held (ov_store st)) \<and>
       gained {} {token_of_token ci old, wire_token (token_of_token ci old)} (held (ov_store st)) (held (ov_store st')))"
proof -
  obtain res s where c: "to_consume_refresh ops (ci_store ci 0) (f ''refresh_token'') (ov_store st) = (res, s)" by (meson surj_pair)
  note law = consume_refresh [OF c]
  have quiet: "gained {} {} (held (ov_store st)) (held s)" using law within_gained by blast
  consider "ov_store st' \<in> {ov_store st, s}"
    | old where "res = Inr old" "issue_token sv ci ops loginMethodOAuthRefresh (token_of_token ci old)
        (st\<lparr>ov_store := snd (to_delete_token ops (ci_store ci 1) (ti_access_token old) s)\<rparr>) = (r, st')"
    using assms c
    by (cases res) (auto simp: handleRefreshTokenGrant_def grant_failed_def RecordLogin_def Let_def split: if_splits)
  then show ?thesis
  proof cases
    case 1
    then show ?thesis using quiet by auto
  next
    case (2 old)
    obtain err d where d: "to_delete_token ops (ci_store ci 1) (ti_access_token old) s = (err, d)" by (meson surj_pair)
    have "gained {} {} (held (ov_store st)) (held d)" using gained_quiet [OF quiet within_gained [OF delete_token [OF d]]] .
    from gained_quiet [OF this] issue_gains [OF 2(2)] d
    have "gained {} {token_of_token ci old, wire_token (token_of_token ci old)} (held (ov_store st)) (held (ov_store st'))" by simp
    then show ?thesis using 2(1) law by blast
  qed
qed

lemma token_of_old: "token_from sv h old \<Longrightarrow> token_from sv h (token_of_token ci old)"
  by (simp add: token_from_def token_of_token_def id_of_token_def)

lemma token_of_redeemed:
  assumes "code_from sv h k ac" "y \<in> set h" "k = f ''code''"
    and "ex_endpoint y = AtToken" "rq_method (ex_request y) = ''POST''" "rq_form (ex_request y) = Some f" "f ''grant_type'' = ''authorization_code''"
    and "f ''client_id'' \<noteq> []" "f ''client_id'' = ac_client_id ac" "f ''code_verifier'' \<noteq> []" "pkce_challenge (f ''code_verifier'') = ac_code_challenge ac"
  shows "token_from sv h (token_of_code ci ac name)"
proof -
  obtain x ac0 where x: "x \<in> set h" "login_code sv x = Some ac0" "k = ac_code ac0" "wire_code ac = wire_code ac0" using assms(1) by (auto simp: code_from_def)
  note same = wire_code_eqD [OF x(4)]
  have "redeems ac0 y" using assms(3-) x(3) same by (simp add: redeems_def)
  moreover have "id_of_token (token_of_code ci ac name) = id_of_code ac0" using same(1) by (simp add: id_of_token_def id_of_code_def token_of_code_def)
  moreover have "json_text (ti_caller_id (token_of_code ci ac name)) = json_text (ac_client_id ac0)" using same(2) by (simp add: token_of_code_def)
  ultimately show ?thesis using x(1,2) assms(2) unfolding token_from_def by blast
qed

lemma check_token_quiet:
  assumes "sv_store sv = Some ops" "check_token sv ci bearer st = (check, st')"
  shows "within (held (ov_store st')) (held (ov_store st)) \<and> ov_keys st' = ov_keys st \<and>
    (\<forall>ti. check = TokenValid ti \<longrightarrow> fst (to_get_token ops (ci_store ci 0) bearer (ov_store st)) = Inr ti \<and>
       (bearer, ti) \<in> h_access (held (ov_store st)) \<and> ci_now ci 0 < ti_expires_at ti \<and> passwordLoginConfigured sv)"
proof (cases "passwordLoginConfigured sv")
  case True
  obtain res s where g: "to_get_token ops (ci_store ci 0) bearer (ov_store st) = (res, s)" by (meson surj_pair)
  from get_token [OF g] show ?thesis using assms g True
    by (auto simp: check_token_def Let_def split: sum.splits if_splits token_error.splits)
qed (use assms in \<open>auto simp: check_token_def\<close>)

lemma reject_store: "ov_store (snd (reject b e a c d st)) = ov_store st"
  by (auto simp: reject_def bearerRejected_def RecordLogin_def Let_def split: option.splits)

lemma authenticate_quiet:
  assumes "sv_store sv = Some ops"
  shows "gained {} {} (held (ov_store st)) (held (ov_store (snd (authenticate sv ci header st))))"
proof -
  obtain check st1 where c: "check_token sv ci (extractBearer header) st = (check, st1)" by (meson surj_pair)
  note law = check_token_quiet [OF assms c]
  have "ov_store (snd (authenticate sv ci header st)) \<in> {ov_store st, ov_store st1}"
    using c by (auto simp: authenticate_def Let_def RecordLogin_def reject_store split: option.splits token_check.splits prod.splits sum.splits)
  then show ?thesis using law within_gained by auto
qed

lemma token_endpoint_provenance:
  assumes sv: "sv_store sv = Some ops" and t: "handleToken sv ci rq st = (r, st')" and old: "provenance sv h (held (ov_store st))"
    and y: "y = \<lparr>ex_endpoint = AtToken, ex_circumstances = ci, ex_request = rq, ex_response = Some r\<rparr>"
  shows "provenance sv (y # h) (held (ov_store st'))"
proof -
  have new: "provenance sv (y # h) (held (ov_store st))" using old by (rule provenance_mono) auto
  note keep = provenance_gained [OF new]
  consider "ov_store st' = ov_store st"
    | f where "rq_method rq = ''POST''" "rq_form rq = Some f" "f ''grant_type'' = ''authorization_code''" "handleAuthorizationCodeGrant sv ci f st = (r, st')"
    | f where "handleRefreshTokenGrant sv ci f st = (r, st')"
    using t by (auto simp: handleToken_def split: if_splits option.splits)
  then show ?thesis
  proof cases
    case 1
    then show ?thesis using new by simp
  next
    case (2 f)
    from code_grant_gains [OF sv 2(4)] show ?thesis
    proof
      assume "gained {} {} (held (ov_store st)) (held (ov_store st'))"
      from keep [OF this] show ?thesis by simp
    next
      assume "\<exists>ac name. (f ''code'', ac) \<in> h_codes (held (ov_store st)) \<and> f ''client_id'' = ac_client_id ac \<and> f ''client_id'' \<noteq> [] \<and>
        f ''code_verifier'' \<noteq> [] \<and> pkce_challenge (f ''code_verifier'') = ac_code_challenge ac \<and>
        gained {} {token_of_code ci ac name, wire_token (token_of_code ci ac name)} (held (ov_store st)) (held (ov_store st'))"
      then obtain ac name where a: "(f ''code'', ac) \<in> h_codes (held (ov_store st))" "f ''client_id'' = ac_client_id ac" "f ''client_id'' \<noteq> []"
        "f ''code_verifier'' \<noteq> []" "pkce_challenge (f ''code_verifier'') = ac_code_challenge ac"
        "gained {} {token_of_code ci ac name, wire_token (token_of_code ci ac name)} (held (ov_store st)) (held (ov_store st'))" by blast
      have "code_from sv (y # h) (f ''code'') ac" using new a(1) by (auto simp: provenance_def)
      then have "token_from sv (y # h) (token_of_code ci ac name)"
        by (rule token_of_redeemed [where y = y and f = f]) (use 2 a y in simp_all)
      then show ?thesis using keep [OF a(6)] by (simp add: token_from_wire)
    qed
  next
    case (3 f)
    from refresh_grant_gains [OF sv 3] show ?thesis
    proof
      assume "gained {} {} (held (ov_store st)) (held (ov_store st'))"
      from keep [OF this] show ?thesis by simp
    next
      assume "\<exists>old. (f ''refresh_token'', old) \<in> h_refresh (held (ov_store st)) \<and>
        gained {} {token_of_token ci old, wire_token (token_of_token ci old)} (held (ov_store st)) (held (ov_store st'))"
      then obtain old where a: "(f ''refresh_token'', old) \<in> h_refresh (held (ov_store st))"
        "gained {} {token_of_token ci old, wire_token (token_of_token ci old)} (held (ov_store st)) (held (ov_store st'))" by blast
      then have "token_from sv (y # h) old" using new by (auto simp: provenance_def)
      then show ?thesis using keep [OF a(2)] token_of_old [of sv "y # h" old ci] by (simp add: token_from_wire)
    qed
  qed
qed

lemma run_provenance:
  assumes "oauth_run sv (\<lambda>s s'. within (held s') (held s)) st0 h st" "sv_store sv = Some ops"
    and "h_codes (held (ov_store st0)) = {}" "h_access (held (ov_store st0)) = {}" "h_refresh (held (ov_store st0)) = {}"
  shows "provenance sv h (held (ov_store st))"
  using assms(1)
proof induction
  case start
  then show ?case using assms(3-) by (simp add: provenance_def)
next
  case (request h st ep ci rq r st')
  let ?x = "\<lparr>ex_endpoint = ep, ex_circumstances = ci, ex_request = rq, ex_response = r\<rparr>"
  have new: "provenance sv (?x # h) (held (ov_store st))" using request.IH by (rule provenance_mono) auto
  note quiet = provenance_gained [OF new, of "{}" "{}"]
  show ?case
  proof (cases ep)
    case AtRegister
    with request(2) obtain r1 where "handleRegister sv ci rq st = (r1, st')" by (auto split: prod.splits)
    from quiet [OF register_quiet [OF assms(2) this]] show ?thesis by simp
  next
    case AtAuthorize
    with request(2) obtain r1 where r1: "handleAuthorize sv ci rq st = (r1, st')" "r = Some r1" by (auto split: prod.splits)
    from authorize_gains [OF assms(2) r1(1)] show ?thesis
    proof
      assume "ov_store st' = ov_store st"
      then show ?thesis using new by simp
    next
      assume "\<exists>ac. login_code sv \<lparr>ex_endpoint = AtAuthorize, ex_circumstances = ci, ex_request = rq, ex_response = Some r1\<rparr> = Some ac \<and>
        gained {(ac_code ac, x) | x. x = ac \<or> x = wire_code ac} {} (held (ov_store st)) (held (ov_store st'))"
      then obtain ac where ac: "login_code sv ?x = Some ac"
        "gained {(ac_code ac, x) | x. x = ac \<or> x = wire_code ac} {} (held (ov_store st)) (held (ov_store st'))"
        using r1(2) AtAuthorize by auto
      show ?thesis by (rule provenance_gained [OF new ac(2)]) (use ac(1) in \<open>auto simp: code_from_def\<close>)
    qed
  next
    case AtToken
    with request(2) obtain r1 where "handleToken sv ci rq st = (r1, st')" "r = Some r1" by (auto split: prod.splits)
    then show ?thesis using token_endpoint_provenance [OF assms(2) _ request.IH] AtToken by simp
  next
    case AtResource
    with request(2) have "st' = snd (authenticate sv ci (rq_authorization rq) st)" by simp
    then show ?thesis using quiet [OF authenticate_quiet [OF assms(2), of st ci "rq_authorization rq"]] by simp
  qed
next
  case (forget h st s)
  then show ?case using provenance_gained [OF forget.IH within_gained] by simp
qed

text \<open>Who is authenticated, and why.\<close>

lemma authenticated_how:
  assumes "sv_store sv = Some ops" "authenticate sv ci header st = (Inr uc, st')" "uc_authenticated uc"
  shows "(\<exists>i. sv_has_keys sv \<and> uc = apiKeyCaller sv ci (st_keys (ov_keys st) ! i) \<and>
      (Find (extractBearer header) (ov_keys st) = Some i \<or> i \<in> set (st_unseen (ov_keys st)) \<and> hash_match (sv_bcrypt sv) (ov_keys st) i (extractBearer header))) \<or>
    \<not> sv_has_keys sv \<and> sv_api_key sv \<noteq> [] \<and> secretsEqual (extractBearer header) (sv_api_key sv) \<and> uc = envKeyCaller sv ci \<or>
    (\<exists>ti. passwordLoginConfigured sv \<and> fst (to_get_token ops (ci_store ci 0) (extractBearer header) (ov_store st)) = Inr ti \<and>
       (extractBearer header, ti) \<in> h_access (held (ov_store st)) \<and> ci_now ci 0 < ti_expires_at ti \<and> uc = tokenCaller ci ti)"
proof -
  let ?b = "extractBearer header"
  have anon: "\<not> uc_authenticated anonymousCaller" by (simp add: anonymousCaller_def zero_user_context_def)
  obtain check st1 where c: "check_token sv ci ?b st = (check, st1)" by (meson surj_pair)
  note law = check_token_quiet [OF assms(1) c]
  obtain res ks where v: "Verify (sv_bcrypt sv) (ci_refuse ci) ?b (ov_keys st) = (res, ks)" by (meson surj_pair)
  consider i where "sv_has_keys sv" "Find ?b (ov_keys st) = Some i" "uc = apiKeyCaller sv ci (st_keys (ov_keys st) ! i)"
    | "\<not> sv_has_keys sv" "sv_api_key sv \<noteq> []" "secretsEqual ?b (sv_api_key sv)" "uc = envKeyCaller sv ci"
    | ti where "check = TokenValid ti" "uc = tokenCaller ci ti"
    | i where "sv_has_keys sv" "res = Inr (Some i)" "uc = apiKeyCaller sv ci (st_keys ks ! i)"
    using assms(2,3) c v law anon
    by (auto simp: authenticate_def Let_def reject_def split: if_splits option.splits token_check.splits sum.splits)
  then show ?thesis
  proof cases
    case (4 i)
    then show ?thesis using verify_accepts [of "sv_bcrypt sv" "ci_refuse ci" ?b "ov_keys st" i ks] v by auto
  qed (use law in auto)
qed

end

section \<open>A code is redeemed once\<close>

definition redeemed :: "string \<Rightarrow> exchange \<Rightarrow> bool" where
  "redeemed k x \<longleftrightarrow> ex_endpoint x = AtToken \<and> rq_method (ex_request x) = ''POST'' \<and>
     (case rq_form (ex_request x) of None \<Rightarrow> False | Some f \<Rightarrow> f ''grant_type'' = ''authorization_code'' \<and> f ''code'' = k) \<and>
     (case ex_response x of Some (TokenReply _ _ _) \<Rightarrow> True | _ \<Rightarrow> False)"

definition issued :: "('s, 'r) oauth_server \<Rightarrow> string \<Rightarrow> exchange \<Rightarrow> bool" where
  "issued sv k x \<longleftrightarrow> (case login_code sv x of Some ac \<Rightarrow> ac_code ac = k | None \<Rightarrow> False)"

abbreviation holds_code :: "string \<Rightarrow> holdings \<Rightarrow> nat" where
  "holds_code k hl \<equiv> (if k \<in> fst ` h_codes hl then 1 else 0)"

lemma gained_codes: "gained {} T a b \<Longrightarrow> holds_code k b \<le> holds_code k a"
  by (force simp: gained_def)

context single_use_store
begin

lemma code_grant_once:
  assumes "sv_store sv = Some ops" "handleAuthorizationCodeGrant sv ci f st = (TokenReply a b c, st')"
  shows "f ''code'' \<in> fst ` h_codes (held (ov_store st)) \<and> f ''code'' \<notin> fst ` h_codes (held (ov_store st'))"
proof -
  obtain res s where c: "to_consume_code ops (ci_store ci 0) (f ''code'') (ov_store st) = (res, s)" by (meson surj_pair)
  obtain ac name where ac: "res = Inr ac"
    "issue_token sv ci ops loginMethodOAuthCode (token_of_code ci ac name) (st\<lparr>ov_store := s\<rparr>) = (TokenReply a b c, st')"
    using assms c by (cases res) (auto simp: handleAuthorizationCodeGrant_def grant_failed_def Let_def split: if_splits)
  have "(f ''code'', x) \<notin> h_codes (held s)" for x using code_once c ac(1) by blast
  then have "f ''code'' \<notin> fst ` h_codes (held (ov_store st'))" using issue_gains [OF ac(2)] by (force simp: gained_def)
  moreover have "f ''code'' \<in> fst ` h_codes (held (ov_store st))" using consume_code [OF c] ac(1) by force
  ultimately show ?thesis by blast
qed

lemma token_endpoint_once:
  assumes "sv_store sv = Some ops" "handleToken sv ci rq st = (r, st')"
  shows "(if redeemed k \<lparr>ex_endpoint = AtToken, ex_circumstances = ci, ex_request = rq, ex_response = Some r\<rparr> then 1 else 0) +
    holds_code k (held (ov_store st')) \<le> holds_code k (held (ov_store st))"
proof (cases "redeemed k \<lparr>ex_endpoint = AtToken, ex_circumstances = ci, ex_request = rq, ex_response = Some r\<rparr>")
  case True
  then obtain f a b c where "handleAuthorizationCodeGrant sv ci f st = (TokenReply a b c, st')" "f ''code'' = k"
    using assms(2) by (auto simp: redeemed_def handleToken_def split: option.splits oauth_response.splits)
  then show ?thesis using True code_grant_once [OF assms(1), of ci f st a b c st'] by auto
next
  case False
  consider "ov_store st' = ov_store st" | f where "handleAuthorizationCodeGrant sv ci f st = (r, st')" | f where "handleRefreshTokenGrant sv ci f st = (r, st')"
    using assms(2) by (auto simp: handleToken_def split: if_splits option.splits)
  then have "holds_code k (held (ov_store st')) \<le> holds_code k (held (ov_store st))"
  proof cases
    case (2 f)
    then show ?thesis using code_grant_gains [OF assms(1) 2] gained_codes by blast
  next
    case (3 f)
    then show ?thesis using refresh_grant_gains [OF assms(1) 3] gained_codes by blast
  qed simp
  then show ?thesis using False by simp
qed

lemma run_once:
  assumes "oauth_run sv (\<lambda>s s'. within (held s') (held s)) st0 h st" "sv_store sv = Some ops" "h_codes (held (ov_store st0)) = {}"
  shows "length (filter (redeemed k) h) + holds_code k (held (ov_store st)) \<le> length (filter (issued sv k) h)"
  using assms(1)
proof induction
  case start
  then show ?case using assms(3) by simp
next
  case (request h st ep ci rq r st')
  let ?x = "\<lparr>ex_endpoint = ep, ex_circumstances = ci, ex_request = rq, ex_response = r\<rparr>"
  have "(if redeemed k ?x then 1 else 0) + holds_code k (held (ov_store st')) \<le> holds_code k (held (ov_store st)) + (if issued sv k ?x then 1 else 0)"
  proof (cases ep)
    case AtRegister
    with request(2) obtain r1 where "handleRegister sv ci rq st = (r1, st')" by (auto split: prod.splits)
    from gained_codes [OF register_quiet [OF assms(2) this], of k] AtRegister show ?thesis by (simp add: redeemed_def)
  next
    case AtAuthorize
    with request(2) obtain r1 where r1: "handleAuthorize sv ci rq st = (r1, st')" "r = Some r1" by (auto split: prod.splits)
    from authorize_gains [OF assms(2) r1(1)] AtAuthorize r1(2) show ?thesis
      by (auto simp: redeemed_def issued_def gained_def)
  next
    case AtToken
    with request(2) obtain r1 where "handleToken sv ci rq st = (r1, st')" "r = Some r1" by (auto split: prod.splits)
    then show ?thesis using token_endpoint_once [OF assms(2), of ci rq st r1 st' k] AtToken by simp
  next
    case AtResource
    with request(2) have "st' = snd (authenticate sv ci (rq_authorization rq) st)" by simp
    then show ?thesis using gained_codes [OF authenticate_quiet [OF assms(2), of st ci "rq_authorization rq"], of k] AtResource by (simp add: redeemed_def)
  qed
  moreover have "length (filter (redeemed k) (?x # h)) = (if redeemed k ?x then 1 else 0) + length (filter (redeemed k) h)"
    "length (filter (issued sv k) (?x # h)) = (if issued sv k ?x then 1 else 0) + length (filter (issued sv k) h)" by simp_all
  ultimately show ?case using request.IH by linarith
next
  case (forget h st s)
  then show ?case using gained_codes [OF within_gained [OF forget.hyps(2)], of k] by simp
qed

end

section \<open>The deployed stores\<close>

abbreviation forgets_hybrid :: "redis_store hybrid \<Rightarrow> redis_store hybrid \<Rightarrow> bool" where
  "forgets_hybrid s s' \<equiv> within (hybrid_held redis_held s') (hybrid_held redis_held s)"

abbreviation forgets_file :: "file_store \<Rightarrow> file_store \<Rightarrow> bool" where
  "forgets_file s s' \<equiv> within (file_held s') (file_held s)"

text \<open>The sweep of the file store only forgets, given that its maps have every key once.\<close>

definition distinct_keys :: "file_store \<Rightarrow> bool" where
  "distinct_keys s \<longleftrightarrow> distinct (map fst (fs_clients s)) \<and> distinct (map fst (fs_codes s)) \<and> distinct (map fst (fs_access s)) \<and>
     distinct (map fst (fs_refresh s))"

lemma map_of_filter_subset: "distinct (map fst xs) \<Longrightarrow> map_of (filter P xs) k = Some v \<Longrightarrow> map_of xs k = Some v"
  by (metis filter_is_subset map_of_SomeD map_of_is_SomeI subsetD)

lemma sweep_forgets: "distinct_keys s \<Longrightarrow> forgets_file s (file_removeExpired env s)"
  by (auto simp: within_def file_held_def file_removeExpired_def Let_def distinct_keys_def dest!: map_of_SomeD)

text \<open>C6: whoever is authenticated presented a key of the key file, the configured API key, or an access
  token that the store holds under exactly the presented value and that has not expired; the caller
  is the one of that token, and with Redis and the file store together, in every run that started
  without tokens and through every outage of Redis, that token goes back to a password login as the
  same user and client whose code was redeemed with the client's id and the PKCE verifier.\<close>

theorem token_provenance:
  assumes "oauth_run sv forgets_hybrid st0 h st" "sv_store sv = Some hybrid_redis"
    and "h_codes (hybrid_held redis_held (ov_store st0)) = {}" "h_access (hybrid_held redis_held (ov_store st0)) = {}"
    "h_refresh (hybrid_held redis_held (ov_store st0)) = {}"
    and "authenticate sv ci header st = (Inr uc, st')" "uc_authenticated uc"
  shows "(\<exists>i. sv_has_keys sv \<and> uc = apiKeyCaller sv ci (st_keys (ov_keys st) ! i) \<and>
      (Find (extractBearer header) (ov_keys st) = Some i \<or>
       i \<in> set (st_unseen (ov_keys st)) \<and> bc_compare (sv_bcrypt sv) (ak_key_hash (st_keys (ov_keys st) ! i)) (extractBearer header))) \<or>
    \<not> sv_has_keys sv \<and> sv_api_key sv \<noteq> [] \<and> secretsEqual (extractBearer header) (sv_api_key sv) \<and> uc = envKeyCaller sv ci \<or>
    (\<exists>ti. passwordLoginConfigured sv \<and>
       fst (to_get_token hybrid_redis (ci_store ci 0) (extractBearer header) (ov_store st)) = Inr ti \<and>
       (extractBearer header, ti) \<in> h_access (hybrid_held redis_held (ov_store st)) \<and>
       ci_now ci 0 < ti_expires_at ti \<and> uc = tokenCaller ci ti \<and> token_from sv h ti)"
  using hstore.authenticated_how [OF assms(2,6,7)] hstore.run_provenance [OF assms(1-5)] unfolding provenance_def by blast

text \<open>C36: with the file store, a code is redeemed for tokens at most as often as a login issued it, in every run.\<close>

theorem code_redeemed_once:
  assumes "oauth_run sv forgets_file st0 h st" "sv_store sv = Some file_ops" "fs_codes (ov_store st0) = []"
  shows "length (filter (redeemed k) h) \<le> length (filter (issued sv k) h)"
  using fstore.run_once [OF assms(1,2), of k] assms(3) by (simp add: file_held_def)

section \<open>A login\<close>

definition demo_server :: "'s token_ops \<Rightarrow> ('s, unit) oauth_server" where
  "demo_server ops = \<lparr>sv_tables = demo_case, sv_bcrypt = demo_bcrypt, sv_store = Some ops, sv_users = None, sv_has_keys = False,
     sv_throttle = \<lparr>th_config = \<lparr>tc_per_user_ip = 0, tc_per_user = 0, tc_per_ip = 0, tc_window = 0, tc_namespace = []\<rparr>, th_redis = None\<rparr>,
     sv_limiter = None, sv_api_key = [], sv_auth_user = ''ann'', sv_auth_password = ''pw'', sv_auth_plan = [], sv_auth_roles = [],
     sv_dcr_client_ttl = 0, sv_dcr_idle_ttl = 0, sv_parse_url = (\<lambda>_. None)\<rparr>"

definition demo_client :: oauth_client where
  "demo_client = \<lparr>oc_client_id = ''app'', oc_client_secret = [], oc_client_name = [], oc_redirect_uris = [''u''], oc_created_at = 0, oc_expires_at = None\<rparr>"

definition demo_files :: file_store where
  "demo_files = \<lparr>fs_clients = [(''app'', demo_client)], fs_codes = [], fs_access = [], fs_refresh = [], fs_disk = None\<rparr>"

definition demo_oauth_state :: "'s \<Rightarrow> ('s, unit) oauth_state" where
  "demo_oauth_state s = \<lparr>ov_store = s, ov_keys = demo_key_store, ov_throttle = \<lparr>ts_local = newLocalLoginCounters 0, ts_redis = (), ts_warned = []\<rparr>, ov_logins = []\<rparr>"

abbreviation demo_hybrid0 :: "redis_store hybrid" where
  "demo_hybrid0 \<equiv> (fst demo_hybrid, demo_files)"

text \<open>Redis is reached for writes only.\<close>

definition demo_ci :: "nat \<Rightarrow> circumstances" where
  "demo_ci n = \<lparr>ci_now = (\<lambda>_. int n), ci_random = (\<lambda>i. [of_nat (2 * n + i)]),
     ci_store = (\<lambda>i. \<lparr>se_now = int n, se_server = int n, se_disk_ok = False, se_link = (if i = n \<or> i = 3 then Answered else Unreached)\<rparr>),
     ci_link = (\<lambda>_. Answered), ci_server_ms = 0, ci_refuse = (\<lambda>_. None), ci_classes = None\<rparr>"

definition demo_form_request :: "(string \<times> string) list \<Rightarrow> http_request" where
  "demo_form_request f = \<lparr>rq_method = ''POST'', rq_authorization = [], rq_content_type = [], rq_forwarded = [], rq_remote = [], rq_query = (\<lambda>_. []),
     rq_form = Some (\<lambda>k. case map_of f k of Some v \<Rightarrow> v | None \<Rightarrow> []), rq_register = None\<rparr>"

definition demo_login :: http_request where
  "demo_login = demo_form_request [(''client_id'', ''app''), (''redirect_uri'', ''u''), (''code_challenge'', pkce_challenge ''v''), (''username'', ''ann''), (''password'', ''pw'')]"

definition demo_redeem :: http_request where
  "demo_redeem = demo_form_request [(''grant_type'', ''authorization_code''), (''code'', ''02''), (''client_id'', ''app''), (''code_verifier'', ''v'')]"

lemma challenge_nonempty: "pkce_challenge v \<noteq> []"
proof -
  have "base64_raw_url bs \<noteq> []" if "bs \<noteq> []" for bs using that by (cases bs rule: base64_raw_url.cases) auto
  moreover have "sha256 (bytes_of v) \<noteq> []" using length_sha256 [of "bytes_of v"] by auto
  ultimately show ?thesis by (simp add: pkce_challenge_def)
qed

definition demo_form :: login_form where
  "demo_form = \<lparr>lf_client_id = ''app'', lf_redirect_uri = ''u'', lf_state = [], lf_code_challenge = pkce_challenge ''v'', lf_scope = [], lf_error = []\<rparr>"

definition demo_issued :: auth_code where
  "demo_issued = new_auth_code (demo_ci 1) demo_form (''ann'', ''default'', [], Some [[]])"

definition demo_tokens :: token_info where
  "demo_tokens = token_of_code (demo_ci 2) demo_issued []"

lemma demo_ids: "generateID (demo_ci 1) 0 = ''02''" "generateID (demo_ci 2) 0 = ''04''" "generateID (demo_ci 2) 1 = ''05''"
  by (simp_all add: generateID_def demo_ci_def hex_encode_def hex_digit_def char_of_def bit_0)

lemma demo_server_fields [simp]:
  "sv_store (demo_server ops) = Some ops" "sv_users (demo_server ops) = None" "sv_has_keys (demo_server ops) = False" "sv_api_key (demo_server ops) = []"
  "passwordLoginConfigured (demo_server ops)" "sv_auth_user (demo_server ops) = ''ann''"
  "Acquire (sv_throttle (demo_server ops)) l n m a i t = (\<lparr>la_allowed = True, la_scope = [], la_retry = 0, la_counters = [], la_shared = False\<rparr>, t)"
  "check_password (demo_server ops) ci u ''pw'' = Inr (Some (''ann'', ''default'', [], Some [[]]))"
  by (simp_all add: demo_server_def passwordLoginConfigured_def Acquire_def counters_def check_password_def secretsEqual_def AuthRolesList_def)

lemma demo_login_fields: "rq_method demo_login = ''POST''" "rq_form demo_login = Some (\<lambda>k. case map_of [(''client_id'', ''app''), (''redirect_uri'', ''u''),
    (''code_challenge'', pkce_challenge ''v''), (''username'', ''ann''), (''password'', ''pw'')] k of Some v \<Rightarrow> v | None \<Rightarrow> [])"
  "rq_method demo_redeem = ''POST''" "rq_form demo_redeem = Some (\<lambda>k. case map_of [(''grant_type'', ''authorization_code''), (''code'', ''02''),
    (''client_id'', ''app''), (''code_verifier'', ''v'')] k of Some v \<Rightarrow> v | None \<Rightarrow> [])"
  by (simp_all add: demo_login_def demo_redeem_def demo_form_request_def)

lemma demo_login_serves:
  assumes "to_get_client ops (ci_store (demo_ci 1) 0) ''app'' s = Inr demo_client" "to_save_code ops (ci_store (demo_ci 1) 1) demo_issued s = (None, s1)"
  shows "\<exists>l st. serve (demo_server ops) AtAuthorize (demo_ci 1) demo_login (demo_oauth_state s) = (Some (Found l), st) \<and> ov_store st = s1"
  using assms challenge_nonempty
  by (simp add: handleAuthorize_def authorize_post_def demo_login_fields form_of_def Let_def validateClientRedirect_def demo_client_def
      demo_oauth_state_def issue_code_def Success_def release_def demo_issued_def demo_form_def RecordLogin_def
      loginReasonUnknownClient_def loginReasonInvalidRedirectURI_def)

lemma demo_issued_code: "ac_code demo_issued = ''02''"
  using demo_ids(1) by (simp add: demo_issued_def new_auth_code_def)

lemma demo_issued_fields: "ac_client_id demo_issued = ''app''" "ac_code_challenge demo_issued = pkce_challenge ''v''" "ac_expires_at demo_issued = 1 + 5 * minute"
  "ti_access_token demo_tokens = ''04''" "ti_client_id demo_tokens = ''app''" "ti_expires_at demo_tokens = 2 + 60 * minute"
  by (simp_all add: demo_issued_def new_auth_code_def demo_form_def demo_ci_def demo_tokens_def token_of_code_def generateID_def hex_encode_def hex_digit_def char_of_def bit_0)

lemma demo_redeem_serves:
  assumes "to_consume_code ops (ci_store (demo_ci 2) 0) ''02'' (ov_store st) = (Inr demo_issued, s2)"
    and "to_get_client ops (ci_store (demo_ci 2) 1) ''app'' s2 = Inr demo_client"
    and "to_save_token ops (ci_store (demo_ci 2) 2) demo_tokens s2 = (None, s3)" "to_save_refresh ops (ci_store (demo_ci 2) 3) demo_tokens s3 = (None, s4)"
  shows "\<exists>a r c st'. serve (demo_server ops) AtToken (demo_ci 2) demo_redeem st = (Some (TokenReply a r c), st') \<and>
    ov_store st' = snd (ExtendClient ops (ci_store (demo_ci 2) 4) ''app'' None s4)"
proof -
  have d: "sv_dcr_idle_ttl (demo_server ops) = 0" "oc_client_name demo_client = []" "ci_now (demo_ci 2) 0 = 2"
    by (simp_all add: demo_server_def demo_client_def demo_ci_def)
  show ?thesis using assms challenge_nonempty
    by (simp add: handleToken_def handleAuthorizationCodeGrant_def demo_login_fields Let_def demo_issued_fields d minute_def second_def
        issue_token_def demo_tokens_def [symmetric] extendClient_def RecordLogin_def)
qed

text \<open>The run of the login and the redemption over a store that carries out these operations.\<close>

lemma demo_run:
  assumes "to_get_client ops (ci_store (demo_ci 1) 0) ''app'' s = Inr demo_client" "to_save_code ops (ci_store (demo_ci 1) 1) demo_issued s = (None, s1)"
    and "to_consume_code ops (ci_store (demo_ci 2) 0) ''02'' s1 = (Inr demo_issued, s2)" "to_get_client ops (ci_store (demo_ci 2) 1) ''app'' s2 = Inr demo_client"
    and "to_save_token ops (ci_store (demo_ci 2) 2) demo_tokens s2 = (None, s3)" "to_save_refresh ops (ci_store (demo_ci 2) 3) demo_tokens s3 = (None, s4)"
  obtains l a r c st where "oauth_run (demo_server ops) F (demo_oauth_state s)
      [\<lparr>ex_endpoint = AtToken, ex_circumstances = demo_ci 2, ex_request = demo_redeem, ex_response = Some (TokenReply a r c)\<rparr>,
       \<lparr>ex_endpoint = AtAuthorize, ex_circumstances = demo_ci 1, ex_request = demo_login, ex_response = Some (Found l)\<rparr>] st"
    "ov_store st = snd (ExtendClient ops (ci_store (demo_ci 2) 4) ''app'' None s4)"
proof -
  obtain l st1 where 1: "serve (demo_server ops) AtAuthorize (demo_ci 1) demo_login (demo_oauth_state s) = (Some (Found l), st1)" "ov_store st1 = s1"
    using demo_login_serves [OF assms(1,2)] by blast
  obtain a r c st2 where 2: "serve (demo_server ops) AtToken (demo_ci 2) demo_redeem st1 = (Some (TokenReply a r c), st2)"
    "ov_store st2 = snd (ExtendClient ops (ci_store (demo_ci 2) 4) ''app'' None s4)"
    using demo_redeem_serves [of ops st1 s2 s3 s4] assms(3-) 1(2) by auto
  show ?thesis
    by (rule that [OF oauth_run.request [OF oauth_run.request [OF oauth_run.start 1(1)] 2(1)] 2(2)])
qed

theorem code_redeemed_once_witness:
  "\<exists>h st. oauth_run (demo_server file_ops) forgets_file (demo_oauth_state demo_files) h st \<and> length h = 2 \<and>
     length (filter (redeemed ''02'') h) = 1 \<and> length (filter (issued (demo_server file_ops) ''02'') h) = 1"
proof -
  have env: "se_now (ci_store (demo_ci n) i) = int n" "se_disk_ok (ci_store (demo_ci n) i) = False" for n i by (simp_all add: demo_ci_def)
  obtain l a r c st where run: "oauth_run (demo_server file_ops) forgets_file (demo_oauth_state demo_files)
      [\<lparr>ex_endpoint = AtToken, ex_circumstances = demo_ci 2, ex_request = demo_redeem, ex_response = Some (TokenReply a r c)\<rparr>,
       \<lparr>ex_endpoint = AtAuthorize, ex_circumstances = demo_ci 1, ex_request = demo_login, ex_response = Some (Found l)\<rparr>] st" (is "oauth_run _ _ _ ?h _")
    by (rule demo_run [of file_ops demo_files "demo_files\<lparr>fs_codes := [(''02'', demo_issued)]\<rparr>" demo_files])
      (simp_all add: file_defs demo_files_def Expired_def demo_client_def saveState_def env demo_issued_code)
  have "redeemed ''02'' (?h ! 0)" "\<not> redeemed ''02'' (?h ! 1)" "\<not> issued (demo_server file_ops) ''02'' (?h ! 0)"
    by (simp_all add: redeemed_def issued_def login_code_def demo_login_fields)
  then have "length (filter (redeemed ''02'') ?h) = 1" "length (filter (issued (demo_server file_ops) ''02'') ?h) \<le> 1" by simp_all
  moreover have "length (filter (redeemed ''02'') ?h) \<le> length (filter (issued (demo_server file_ops) ''02'') ?h)"
    by (rule code_redeemed_once [OF run]) (simp_all add: demo_oauth_state_def demo_files_def)
  ultimately have "length (filter (issued (demo_server file_ops) ''02'') ?h) = 1" by linarith
  then show ?thesis using run \<open>length (filter (redeemed ''02'') ?h) = 1\<close> by (intro exI [of _ ?h] exI [of _ st]) simp
qed

text \<open>The same over the hybrid store, with Redis reached for writes only, and a request with the new access token.\<close>

lemma hybrid_reached_write:
  assumes "se_link env = Answered"
  shows "to_save_code hybrid_redis env ac (p, f) = (None, (snd (redis_SaveAuthCode env ac p), snd (file_SaveAuthCode env ac f)))"
    and "to_save_token hybrid_redis env ti (p, f) = (None, (snd (redis_SaveToken env ti p), snd (file_SaveToken env ti f)))"
    and "to_save_refresh hybrid_redis env ti (p, f) = (None, (snd (redis_SaveRefreshToken env ti p), snd (file_SaveRefreshToken env ti f)))"
  using assms by (simp_all add: hybrid_ops_def hybrid_write_def redis_token_ops_def redis_SaveAuthCode_def redis_SaveToken_def redis_SaveRefreshToken_def
      redis_do_def file_SaveAuthCode_def file_SaveToken_def file_SaveRefreshToken_def)

lemma hybrid_unreached_read:
  assumes "se_link env = Unreached"
  shows "to_get_client hybrid_redis env k (p, f) = file_GetClient env k f"
    and "to_consume_code hybrid_redis env k (p, f) = (fst (file_ConsumeAuthCode env k f), (p, snd (file_ConsumeAuthCode env k f)))"
    and "to_get_token hybrid_redis env k (p, f) = (fst (file_GetToken env k f), (p, snd (file_GetToken env k f)))"
    and "snd (to_save_client hybrid_redis env c (p, f)) = (p, snd (file_SaveClient env c f))"
  using assms by (simp_all add: hybrid_ops_def hybrid_GetClient_def hybrid_consume_def hybrid_GetToken_def hybrid_write_def redis_token_ops_def
      redis_GetClient_def redis_ConsumeAuthCode_def redis_GetToken_def redis_SaveClient_def redis_answer_def consume_answer_def redis_do_def Let_def
      split: prod.splits sum.splits option.splits)

theorem token_provenance_witness:
  "\<exists>h st uc st' ti. oauth_run (demo_server hybrid_redis) forgets_hybrid (demo_oauth_state demo_hybrid0) h st \<and>
     authenticate (demo_server hybrid_redis) (demo_ci 9) ''Bearer 04'' st = (Inr uc, st') \<and> uc_user_id uc = ''ann'' \<and>
     uc = tokenCaller (demo_ci 9) ti \<and> token_from (demo_server hybrid_redis) h ti"
proof -
  have env: "se_now (ci_store (demo_ci n) i) = int n" "se_disk_ok (ci_store (demo_ci n) i) = False"
    "se_link (ci_store (demo_ci n) i) = (if i = n \<or> i = 3 then Answered else Unreached)" for n i by (simp_all add: demo_ci_def)
  let ?p1 = "snd (redis_SaveAuthCode (ci_store (demo_ci 1) 1) demo_issued (fst demo_hybrid))"
  let ?p2 = "snd (redis_SaveToken (ci_store (demo_ci 2) 2) demo_tokens ?p1)"
  let ?p3 = "snd (redis_SaveRefreshToken (ci_store (demo_ci 2) 3) demo_tokens ?p2)"
  let ?f3 = "demo_files\<lparr>fs_access := [(''04'', demo_tokens)]\<rparr>"
  let ?f4 = "?f3\<lparr>fs_refresh := [(ti_refresh_token demo_tokens, demo_tokens)]\<rparr>"
  have r1: "to_get_client hybrid_redis (ci_store (demo_ci 1) 0) ''app'' demo_hybrid0 = Inr demo_client"
    using env(3) [of 1 0] by (subst hybrid_unreached_read) (simp_all add: env file_GetClient_def demo_files_def Expired_def demo_client_def)
  have r2: "to_save_code hybrid_redis (ci_store (demo_ci 1) 1) demo_issued demo_hybrid0 = (None, (?p1, demo_files\<lparr>fs_codes := [(''02'', demo_issued)]\<rparr>))"
    using env(3) [of 1 1] by (subst hybrid_reached_write) (simp_all add: file_SaveAuthCode_def demo_files_def demo_issued_code)
  obtain l a r c st where run: "oauth_run (demo_server hybrid_redis) forgets_hybrid (demo_oauth_state demo_hybrid0)
      [\<lparr>ex_endpoint = AtToken, ex_circumstances = demo_ci 2, ex_request = demo_redeem, ex_response = Some (TokenReply a r c)\<rparr>,
       \<lparr>ex_endpoint = AtAuthorize, ex_circumstances = demo_ci 1, ex_request = demo_login, ex_response = Some (Found l)\<rparr>] st" (is "oauth_run _ _ _ ?h _")
    and st: "ov_store st = snd (ExtendClient hybrid_redis (ci_store (demo_ci 2) 4) ''app'' None (?p3, ?f4))"
    by (rule demo_run [OF r1 r2, where ?s2.0 = "(?p1, demo_files)" and ?s3.0 = "(?p2, ?f3)" and ?s4.0 = "(?p3, ?f4)"])
      (simp_all add: hybrid_reached_write hybrid_unreached_read env file_defs demo_files_def Expired_def demo_client_def saveState_def demo_issued_code demo_issued_fields)
  have "fs_access (snd (ov_store st)) = [(''04'', demo_tokens)]"
    by (simp add: st ExtendClient_def hybrid_unreached_read env file_defs demo_files_def Expired_def demo_client_def saveState_def)
  then have "to_get_token hybrid_redis (ci_store (demo_ci 9) 0) ''04'' (ov_store st) = (Inr demo_tokens, ov_store st)"
    by (cases "ov_store st") (simp add: hybrid_unreached_read env file_GetToken_def demo_issued_fields minute_def second_def)
  moreover have "extractBearer ''Bearer 04'' = ''04''" by (simp add: extractBearer_def has_prefix_def trim_prefix_def)
  moreover have "ci_now (demo_ci 9) 0 = 9" by (simp add: demo_ci_def)
  ultimately have auth: "\<exists>st'. authenticate (demo_server hybrid_redis) (demo_ci 9) ''Bearer 04'' st = (Inr (tokenCaller (demo_ci 9) demo_tokens), st')"
    by (simp add: authenticate_def Let_def check_token_def demo_issued_fields minute_def second_def)
  have user: "uc_authenticated (tokenCaller (demo_ci 9) demo_tokens)" "uc_user_id (tokenCaller (demo_ci 9) demo_tokens) = ''ann''"
    by (simp_all add: tokenCaller_def Let_def demo_tokens_def token_of_code_def demo_issued_def new_auth_code_def)
  obtain st' where st': "authenticate (demo_server hybrid_redis) (demo_ci 9) ''Bearer 04'' st = (Inr (tokenCaller (demo_ci 9) demo_tokens), st')" using auth by blast
  have "\<not> secretsEqual b (sv_api_key (demo_server hybrid_redis))" for b by (simp add: secretsEqual_def)
  with token_provenance [OF run _ _ _ _ st' user(1)]
  have "\<exists>ti. tokenCaller (demo_ci 9) demo_tokens = tokenCaller (demo_ci 9) ti \<and> token_from (demo_server hybrid_redis) ?h ti"
    by (auto simp: demo_oauth_state_def hybrid_held_def joined_def redis_held_def file_held_def demo_hybrid_def demo_files_def)
  then show ?thesis using run st' user(2) by metis
qed

end
