(* ===== verification/Health.thy ===== *)
theory Health
  imports Complex_Main Durations "HOL-Library.Multiset"
begin

text \<open>
  The health monitor (\<open>internal/health/monitor.go\<close>, \<open>settings.go\<close>) and the expiry timestamps it is given
  (\<open>ParseExpiry\<close> of \<open>internal/dadl/health.go\<close>). A zero \<open>time.Time\<close> is the first instant of the year one. The gauges the
  monitor sets and the lines it logs are fields of its state. A double is the rational number it denotes or one of the three
  special values; parsing one, multiplying two and converting one that does not fit are parameters.
\<close>

definition zero_time :: time where "zero_time = - 62135596800 * 1000000000"

abbreviation IsZero :: "time \<Rightarrow> bool" where "IsZero t \<equiv> t = zero_time"

section \<open>Expiry timestamps\<close>

datatype go_float = Finite rat | NaN | PosInf | NegInf

record float_ops =
  fo_parse :: "string \<Rightarrow> go_float option"
  fo_mul :: "rat \<Rightarrow> rat \<Rightarrow> rat"
  fo_of_int :: "int \<Rightarrow> rat"
  fo_overflow :: "go_float \<Rightarrow> int"
  fo_layout :: "string \<Rightarrow> string \<Rightarrow> time option"
  fo_fraction :: "nat \<Rightarrow> nat \<Rightarrow> nat \<Rightarrow> nat"

definition truncate_rat :: "rat \<Rightarrow> int" where
  "truncate_rat q = (if q < 0 then - \<lfloor>- q\<rfloor> else \<lfloor>q\<rfloor>)"

text \<open>\<open>int64(n)\<close>.\<close>

definition to_int64 :: "float_ops \<Rightarrow> go_float \<Rightarrow> int" where
  "to_int64 fo n =
     (case n of Finite q \<Rightarrow> (let i = truncate_rat q in if - (2 ^ 63) \<le> i \<and> i < 2 ^ 63 then i else fo_overflow fo n)
      | _ \<Rightarrow> fo_overflow fo n)"

definition epochMillisThreshold :: rat where "epochMillisThreshold = 1000000000000"

definition epochTime :: "float_ops \<Rightarrow> go_float \<Rightarrow> time option" where
  "epochTime fo n =
     (case n of
        Finite q \<Rightarrow>
          if q \<le> 0 then None
          else if epochMillisThreshold \<le> q then Some (to_int64 fo n * 1000000)
          else Some (\<lfloor>q\<rfloor> * 1000000000 + to_int64 fo (Finite (fo_mul fo (q - of_int \<lfloor>q\<rfloor>) 1000000000)))
      | _ \<Rightarrow> None)"

definition expiryLayouts :: "string list" where
  "expiryLayouts =
     [''2006-01-02T15:04:05.999999999Z07:00'', ''2006-01-02 15:04:05Z07:00'', ''2006-01-02T15:04:05'',
      ''2006-01-02 15:04:05'', ''2006-01-02T15:04'', ''2006-01-02'']"

fun first_layout :: "float_ops \<Rightarrow> string \<Rightarrow> string list \<Rightarrow> time option" where
  "first_layout fo s [] = None"
| "first_layout fo s (l # ls) = (case fo_layout fo l s of Some t \<Rightarrow> Some t | None \<Rightarrow> first_layout fo s ls)"

text \<open>The dynamic types \<open>ParseExpiry\<close> tells apart: times, the numbers, strings, and anything else.\<close>

datatype expiry_value = ExTime time | ExFloat go_float | ExInt int | ExNumber string | ExString string | ExOther

definition ParseExpiry :: "float_ops \<Rightarrow> expiry_value \<Rightarrow> time option" where
  "ParseExpiry fo v =
     (case v of
        ExTime t \<Rightarrow> if IsZero t then None else Some t
      | ExFloat n \<Rightarrow> epochTime fo n
      | ExInt i \<Rightarrow> epochTime fo (Finite (fo_of_int fo i))
      | ExNumber s \<Rightarrow> (case fo_parse fo s of None \<Rightarrow> None | Some n \<Rightarrow> epochTime fo n)
      | ExString t \<Rightarrow>
          (let s = trim_space t in
           if s = [] then None
           else case fo_parse fo s of Some n \<Rightarrow> epochTime fo n | None \<Rightarrow> first_layout fo s expiryLayouts)
      | ExOther \<Rightarrow> None)"

section \<open>Settings\<close>

definition DefaultInterval :: duration where "DefaultInterval = 15 * minute"
definition DefaultWarnBefore :: duration where "DefaultWarnBefore = 7 * 24 * hour"
definition MinInterval :: duration where "MinInterval = 30 * second"

record health_policy =
  hp_Interval :: duration
  hp_DegradeAfter :: int
  hp_WarnBefore :: duration

definition degradeAfter :: "health_policy \<Rightarrow> int" where
  "degradeAfter p = (if hp_DegradeAfter p < 1 then 1 else hp_DegradeAfter p)"

record health_settings =
  hs_Enabled :: bool
  hs_Policy :: health_policy
  hs_AuthExpiresAt :: time

record health_check_config =
  hk_Enabled :: "bool option"
  hk_Interval :: string
  hk_DegradeAfter :: int
  hk_WarnBefore :: string
  hk_AuthExpiresAt :: string

datatype settings_error =
  BadInterval string | ShortInterval string | NegativeDegradeAfter int | BadWarnBefore string
  | NegativeWarnBefore string | BadAuthExpiresAt string

text \<open>\<open>ParseDuration\<close> of the health package: a number of days, or a Go duration.\<close>

definition health_ParseDuration :: "float_ops \<Rightarrow> string \<Rightarrow> duration option" where
  "health_ParseDuration fo s0 =
     (let s = trim_space s0 in
      if s \<noteq> [] \<and> last s = CHR ''d'' then
        (case fo_parse fo (butlast s) of
           None \<Rightarrow> None
         | Some (Finite n) \<Rightarrow> Some (to_int64 fo (Finite (fo_mul fo n (of_int (24 * hour)))))
         | Some n \<Rightarrow> Some (fo_overflow fo n))
      else ParseDuration (fo_fraction fo) s)"

definition default_settings :: health_settings where
  "default_settings =
     \<lparr>hs_Enabled = True,
      hs_Policy = \<lparr>hp_Interval = DefaultInterval, hp_DegradeAfter = 1, hp_WarnBefore = DefaultWarnBefore\<rparr>,
      hs_AuthExpiresAt = zero_time\<rparr>"

definition parse_interval :: "float_ops \<Rightarrow> string \<Rightarrow> settings_error list \<times> duration" where
  "parse_interval fo s =
     (if s = [] then ([], DefaultInterval)
      else case health_ParseDuration fo s of
          None \<Rightarrow> ([BadInterval s], DefaultInterval)
        | Some d \<Rightarrow> if d = 0 then ([], 0)
                   else if d < MinInterval then ([ShortInterval s], DefaultInterval)
                   else ([], d))"

definition parse_degrade_after :: "int \<Rightarrow> settings_error list \<times> int" where
  "parse_degrade_after n = (if n < 0 then ([NegativeDegradeAfter n], 1) else if n > 0 then ([], n) else ([], 1))"

definition parse_warn_before :: "float_ops \<Rightarrow> string \<Rightarrow> settings_error list \<times> duration" where
  "parse_warn_before fo s =
     (if s = [] then ([], DefaultWarnBefore)
      else case health_ParseDuration fo s of
          None \<Rightarrow> ([BadWarnBefore s], DefaultWarnBefore)
        | Some d \<Rightarrow> if d < 0 then ([NegativeWarnBefore s], DefaultWarnBefore) else ([], d))"

definition parse_auth_expires :: "float_ops \<Rightarrow> string \<Rightarrow> settings_error list \<times> time" where
  "parse_auth_expires fo s =
     (if s = [] then ([], zero_time)
      else case ParseExpiry fo (ExString s) of None \<Rightarrow> ([BadAuthExpiresAt s], zero_time) | Some t \<Rightarrow> ([], t))"

definition ParseSettings :: "float_ops \<Rightarrow> health_check_config option \<Rightarrow> health_settings \<times> settings_error list" where
  "ParseSettings fo c =
     (case c of
        None \<Rightarrow> (default_settings, [])
      | Some c \<Rightarrow>
          (let (e1, interval) = parse_interval fo (hk_Interval c);
               (e2, after) = parse_degrade_after (hk_DegradeAfter c);
               (e3, warn) = parse_warn_before fo (hk_WarnBefore c);
               (e4, expires) = parse_auth_expires fo (hk_AuthExpiresAt c)
           in (\<lparr>hs_Enabled = (case hk_Enabled c of Some b \<Rightarrow> b | None \<Rightarrow> True),
                hs_Policy = \<lparr>hp_Interval = interval, hp_DegradeAfter = after, hp_WarnBefore = warn\<rparr>,
                hs_AuthExpiresAt = expires\<rparr>, e1 @ e2 @ e3 @ e4)))"

text \<open>Whatever the block says, the policy is usable: polling is off or not faster than every thirty seconds, at least one
  failure is needed to degrade, and the warning window is not negative. The lists of errors only name fields that kept their
  default.\<close>

lemma interval_usable:
  "parse_interval fo s = (es, d) \<Longrightarrow> (d = 0 \<or> MinInterval \<le> d) \<and> (es \<noteq> [] \<longrightarrow> d = DefaultInterval)"
  by (auto simp: parse_interval_def DefaultInterval_def MinInterval_def second_def minute_def
      split: if_splits option.splits)

lemma degrade_usable: "parse_degrade_after n = (es, k) \<Longrightarrow> 1 \<le> k \<and> (es \<noteq> [] \<longrightarrow> k = 1)"
  by (auto simp: parse_degrade_after_def split: if_splits)

lemma warn_usable: "parse_warn_before fo s = (es, d) \<Longrightarrow> 0 \<le> d \<and> (es \<noteq> [] \<longrightarrow> d = DefaultWarnBefore)"
  by (auto simp: parse_warn_before_def DefaultWarnBefore_def hour_def split: if_splits option.splits)

definition usable_policy :: "health_policy \<Rightarrow> bool" where
  "usable_policy p \<longleftrightarrow>
     (hp_Interval p = 0 \<or> MinInterval \<le> hp_Interval p) \<and> 1 \<le> hp_DegradeAfter p \<and> 0 \<le> hp_WarnBefore p"

theorem settings_usable: "usable_policy (hs_Policy (fst (ParseSettings fo c)))"
proof (cases c)
  case None
  then show ?thesis
    by (simp add: ParseSettings_def default_settings_def usable_policy_def DefaultInterval_def MinInterval_def
        DefaultWarnBefore_def second_def minute_def hour_def)
next
  case (Some k)
  obtain e1 i e2 n e3 w e4 t where "parse_interval fo (hk_Interval k) = (e1, i)"
      "parse_degrade_after (hk_DegradeAfter k) = (e2, n)" "parse_warn_before fo (hk_WarnBefore k) = (e3, w)"
      "parse_auth_expires fo (hk_AuthExpiresAt k) = (e4, t)"
    by fastforce
  then show ?thesis
    using Some interval_usable [of fo "hk_Interval k"] degrade_usable [of "hk_DegradeAfter k"]
      warn_usable [of fo "hk_WarnBefore k"]
    by (simp add: ParseSettings_def usable_policy_def)
qed

end
