(* ===== verification/Monitor.thy ===== *)
theory Monitor
  imports Health
begin

text \<open>
  The monitor itself (\<open>internal/health/monitor.go\<close>): what it records of each check result, the status it derives from that,
  the report of \<open>/health\<close>, and the concurrent checks of a generation of targets. The states, policies and gauges are
  association lists; their order is the iteration order of the Go maps.
\<close>

section \<open>Data\<close>

definition StatusOK :: string where "StatusOK = ''ok''"
definition StatusWarning :: string where "StatusWarning = ''warning''"
definition StatusDegraded :: string where "StatusDegraded = ''degraded''"
definition maxConcurrentChecks :: nat where "maxConcurrentChecks = 8"

lemmas status_names = StatusOK_def StatusWarning_def StatusDegraded_def

record health_result =
  hl_OK :: bool
  hl_HTTPStatus :: int
  hl_ErrorCode :: string
  hl_Latency :: duration
  hl_CheckedAt :: time
  hl_AuthExpiresAt :: time
  hl_Error :: string
  hl_Reason :: string

definition no_health_result :: health_result where
  "no_health_result = \<lparr>hl_OK = False, hl_HTTPStatus = 0, hl_ErrorCode = [], hl_Latency = 0, hl_CheckedAt = zero_time,
     hl_AuthExpiresAt = zero_time, hl_Error = [], hl_Reason = []\<rparr>"

record mon_state =
  mn_last :: health_result
  mn_failures :: nat
  mn_failingSince :: time
  mn_authExpiresAt :: time
  mn_status :: string

record health_gauges =
  hg_up :: bool
  hg_degraded :: bool
  hg_expiry :: "time option"

datatype health_log =
  LogFailing string time nat string | LogRecovered string duration | LogFailed string nat int string
  | LogPassed string duration | LogExpires string time

record monitor =
  mo_policies :: "(string \<times> health_policy) list"
  mo_states :: "(string \<times> mon_state) list"
  mo_gauges :: "(string \<times> health_gauges) list"
  mo_log :: "health_log list"

definition NewMonitor :: monitor where
  "NewMonitor = \<lparr>mo_policies = [], mo_states = [], mo_gauges = [], mo_log = []\<rparr>"

record backend_status =
  bs_Status :: string
  bs_Reason :: string
  bs_CheckedAt :: string
  bs_FailingSince :: string
  bs_AuthExpiresAt :: string

section \<open>Operations\<close>

definition evaluate_state :: "mon_state \<Rightarrow> health_policy \<Rightarrow> time \<Rightarrow> backend_status" where
  "evaluate_state st policy now =
     (let expires = (if IsZero (mn_authExpiresAt st) then [] else format_rfc3339 (mn_authExpiresAt st));
          bs = \<lparr>bs_Status = StatusOK, bs_Reason = [], bs_CheckedAt = format_rfc3339 (hl_CheckedAt (mn_last st)),
                bs_FailingSince = [], bs_AuthExpiresAt = expires\<rparr>
      in if degradeAfter policy \<le> int (mn_failures st) then
           (let since = format_rfc3339 (mn_failingSince st)
            in bs\<lparr>bs_Status := StatusDegraded, bs_FailingSince := since,
                  bs_Reason := ''health check failing since '' @ since @ '' ('' @ itoa (mn_failures st) @
                               '' consecutive): '' @ hl_Reason (mn_last st)\<rparr>)
         else if \<not> IsZero (mn_authExpiresAt st) \<and> mn_authExpiresAt st - hp_WarnBefore policy \<le> now then
           bs\<lparr>bs_Status := StatusWarning,
              bs_Reason := ''credential '' @ (if mn_authExpiresAt st \<le> now then ''expired'' else ''expires'') @ '' at '' @ expires @
                (if mn_failures st > 0 then ''; last check failed: '' @ hl_Reason (mn_last st) else [])\<rparr>
         else bs)"

definition logResult :: "string \<Rightarrow> mon_state \<Rightarrow> health_policy \<Rightarrow> string \<Rightarrow> health_result \<Rightarrow> health_log list" where
  "logResult name st policy status res =
     [if status = StatusDegraded \<and> mn_status st \<noteq> StatusDegraded
        then LogFailing name (mn_failingSince st) (mn_failures st) (hl_Reason res)
      else if status \<noteq> StatusDegraded \<and> mn_status st = StatusDegraded then LogRecovered name (hl_Latency res)
      else if \<not> hl_OK res then LogFailed name (mn_failures st) (degradeAfter policy) (hl_Reason res)
      else LogPassed name (hl_Latency res)] @
     (if status = StatusWarning \<and> mn_status st \<noteq> StatusWarning then [LogExpires name (mn_authExpiresAt st)] else [])"

definition fresh_state :: mon_state where
  "fresh_state = \<lparr>mn_last = no_health_result, mn_failures = 0, mn_failingSince = zero_time, mn_authExpiresAt = zero_time,
     mn_status = StatusOK\<rparr>"

text \<open>How a result changes the state of its backend, up to the status.\<close>

definition absorb :: "mon_state \<Rightarrow> health_result \<Rightarrow> mon_state" where
  "absorb st res =
     (let st = st\<lparr>mn_last := res, mn_authExpiresAt := hl_AuthExpiresAt res\<rparr>
      in if hl_OK res then st\<lparr>mn_failures := 0, mn_failingSince := zero_time\<rparr>
         else (let st = (if mn_failures st = 0 then st\<lparr>mn_failingSince := hl_CheckedAt res\<rparr> else st)
               in st\<lparr>mn_failures := Suc (mn_failures st)\<rparr>))"

definition SetBackendHealth :: "string \<Rightarrow> bool \<Rightarrow> bool \<Rightarrow> (string \<times> health_gauges) list \<Rightarrow> (string \<times> health_gauges) list" where
  "SetBackendHealth name up degraded gs =
     AList.update name \<lparr>hg_up = up, hg_degraded = degraded,
        hg_expiry = (case map_of gs name of None \<Rightarrow> None | Some g \<Rightarrow> hg_expiry g)\<rparr> gs"

definition SetBackendAuthExpiry :: "string \<Rightarrow> time \<Rightarrow> (string \<times> health_gauges) list \<Rightarrow> (string \<times> health_gauges) list" where
  "SetBackendAuthExpiry name expires gs =
     (case map_of gs name of
        None \<Rightarrow> gs
      | Some g \<Rightarrow> AList.update name (g\<lparr>hg_expiry := (if IsZero expires then None else Some (expires div second))\<rparr>) gs)"

definition Observe :: "string \<Rightarrow> health_result \<Rightarrow> time \<Rightarrow> monitor \<Rightarrow> monitor" where
  "Observe name res now m =
     (case map_of (mo_policies m) name of
        None \<Rightarrow> m
      | Some policy \<Rightarrow>
          (let st = absorb (case map_of (mo_states m) name of Some st \<Rightarrow> st | None \<Rightarrow> fresh_state) res;
               status = bs_Status (evaluate_state st policy now)
           in m\<lparr>mo_states := AList.update name (st\<lparr>mn_status := status\<rparr>) (mo_states m),
                mo_gauges := SetBackendAuthExpiry name (mn_authExpiresAt st)
                               (SetBackendHealth name (hl_OK res) (status = StatusDegraded) (mo_gauges m)),
                mo_log := mo_log m @ logResult name st policy status res\<rparr>))"

definition target_policies :: "(string \<times> health_policy) list \<Rightarrow> (string \<times> health_policy) list" where
  "target_policies targets = foldl (\<lambda>ps (name, p). AList.update name p ps) [] targets"

text \<open>The part of \<open>Replace\<close> under the lock; the checks it starts are steps of the system below.\<close>

definition monitor_Replace :: "(string \<times> health_policy) list \<Rightarrow> monitor \<Rightarrow> monitor" where
  "monitor_Replace targets m =
     (let policies = target_policies targets;
          keep = (\<lambda>name. map_of policies name \<noteq> None);
          gone = filter (\<lambda>name. \<not> keep name) (map fst (mo_states m))
      in m\<lparr>mo_policies := policies,
           mo_states := filter (\<lambda>(name, _). keep name) (mo_states m),
           mo_gauges := filter (\<lambda>(name, _). name \<notin> set gone) (mo_gauges m)\<rparr>)"

record health_report =
  rep_Status :: string
  rep_Backends :: "(string \<times> backend_status) list"

definition zero_policy :: health_policy where
  "zero_policy = \<lparr>hp_Interval = 0, hp_DegradeAfter = 0, hp_WarnBefore = 0\<rparr>"

definition report_step :: "(string \<times> health_policy) list \<Rightarrow> time \<Rightarrow> health_report \<Rightarrow> string \<times> mon_state \<Rightarrow> health_report" where
  "report_step policies now rep nst =
     (case nst of (name, st) \<Rightarrow>
        let bs = evaluate_state st (case map_of policies name of Some p \<Rightarrow> p | None \<Rightarrow> zero_policy) now
        in if bs_Status bs = StatusOK then rep
           else \<lparr>rep_Status = (if bs_Status bs = StatusDegraded \<or> rep_Status rep = StatusOK then bs_Status bs else rep_Status rep),
                 rep_Backends = AList.update name bs (rep_Backends rep)\<rparr>)"

definition monitor_Report :: "monitor option \<Rightarrow> time \<Rightarrow> health_report" where
  "monitor_Report m now =
     (case m of
        None \<Rightarrow> \<lparr>rep_Status = StatusOK, rep_Backends = []\<rparr>
      | Some m \<Rightarrow> foldl (report_step (mo_policies m) now) \<lparr>rep_Status = StatusOK, rep_Backends = []\<rparr> (mo_states m))"

section \<open>Events and the history\<close>

datatype mon_event = Replaced "(string \<times> health_policy) list" | Observed string health_result time

fun mon_step :: "monitor \<Rightarrow> mon_event \<Rightarrow> monitor" where
  "mon_step m (Replaced ts) = monitor_Replace ts m"
| "mon_step m (Observed n r t) = Observe n r t m"

definition mon_run :: "mon_event list \<Rightarrow> monitor" where
  "mon_run evs = foldl mon_step NewMonitor evs"

text \<open>What the monitor is to know: the policies of the latest targets, and for each backend the results since it is watched.\<close>

type_synonym watch_spec = "(string \<rightharpoonup> health_policy) \<times> (string \<Rightarrow> health_result list)"

fun spec_step :: "watch_spec \<Rightarrow> mon_event \<Rightarrow> watch_spec" where
  "spec_step (ps, h) (Replaced ts) = (let ps' = map_of (rev ts) in (ps', \<lambda>n. if ps' n = None then [] else h n))"
| "spec_step (ps, h) (Observed n r t) = (ps, if ps n = None then h else h(n := h n @ [r]))"

definition spec_run :: "mon_event list \<Rightarrow> watch_spec" where
  "spec_run evs = foldl spec_step (Map.empty, \<lambda>_. []) evs"

definition streak :: "health_result list \<Rightarrow> health_result list" where
  "streak h = takeWhile (\<lambda>r. \<not> hl_OK r) (rev h)"

definition summary :: "health_result list \<Rightarrow> string \<Rightarrow> mon_state" where
  "summary h status =
     \<lparr>mn_last = last h, mn_failures = length (streak h),
      mn_failingSince = (if streak h = [] then zero_time else hl_CheckedAt (last (streak h))),
      mn_authExpiresAt = hl_AuthExpiresAt (last h), mn_status = status\<rparr>"

lemma streak_snoc: "streak (h @ [r]) = (if hl_OK r then [] else r # streak h)"
  by (simp add: streak_def)

lemma streak_Nil [simp]: "streak [] = []"
  by (simp add: streak_def)

lemma absorb_summary: "absorb (summary h s) r = summary (h @ [r]) s"
  by (auto simp: absorb_def summary_def streak_snoc Let_def)

lemma absorb_fresh: "absorb fresh_state r = summary [r] StatusOK"
  using streak_snoc [of "[]" r] by (auto simp: absorb_def fresh_state_def summary_def Let_def)

lemma summary_status [simp]: "(summary h s)\<lparr>mn_status := s'\<rparr> = summary h s'"
  by (simp add: summary_def)

definition recorded_as :: "mon_state option \<Rightarrow> health_result list \<Rightarrow> bool" where
  "recorded_as st h = (if h = [] then st = None else \<exists>s. st = Some (summary h s))"

definition represents :: "monitor \<Rightarrow> watch_spec \<Rightarrow> bool" where
  "represents m w \<longleftrightarrow>
     map_of (mo_policies m) = fst w \<and> distinct (map fst (mo_states m)) \<and>
     (\<forall>n. recorded_as (map_of (mo_states m) n) (snd w n) \<and> (snd w n \<noteq> [] \<longrightarrow> fst w n \<noteq> None))"

lemma recorded_Nil [simp]: "recorded_as None []"
  by (simp add: recorded_as_def)

lemma recorded_absorb:
  assumes "recorded_as x h"
  obtains s where "absorb (case x of Some st \<Rightarrow> st | None \<Rightarrow> fresh_state) r = summary (h @ [r]) s"
  using assms absorb_fresh absorb_summary by (cases "h = []") (fastforce simp: recorded_as_def)+

lemma map_of_updates: "map_of (foldl (\<lambda>ps (n, p). AList.update n p ps) ps ts) = map_of ps ++ map_of (rev ts)"
  by (induction ts arbitrary: ps) (auto simp: update_conv' map_add_upd_left fun_eq_iff map_add_def split: option.splits)

lemma map_of_target_policies: "map_of (target_policies ts) = map_of (rev ts)"
  by (simp add: target_policies_def map_of_updates)

lemma map_of_filter_keys: "map_of (filter (\<lambda>(n, _). P n) m) n = (if P n then map_of m n else None)"
  by (induction m) auto

lemma represents_Replace: "represents m w \<Longrightarrow> represents (monitor_Replace ts m) (spec_step w (Replaced ts))"
  by (cases w) (simp add: represents_def monitor_Replace_def Let_def map_of_target_policies map_of_filter_keys
      distinct_filter_keys)

lemma represents_Observe:
  assumes "represents m w"
  shows "represents (Observe n r t m) (spec_step w (Observed n r t))"
proof (cases w)
  case (Pair ps h)
  show ?thesis
  proof (cases "ps n")
    case None
    then show ?thesis using assms Pair by (simp add: represents_def Observe_def)
  next
    case (Some p)
    from assms Pair have "recorded_as (map_of (mo_states m) n) (h n)" by (simp add: represents_def)
    from recorded_absorb [OF this, of r] obtain s
      where s: "absorb (case map_of (mo_states m) n of Some st \<Rightarrow> st | None \<Rightarrow> fresh_state) r = summary (h n @ [r]) s" .
    have p: "map_of (mo_policies m) n = Some p" using assms Pair Some by (simp add: represents_def)
    then show ?thesis using assms Pair Some s
      by (auto simp: represents_def Observe_def Let_def distinct_update update_conv' recorded_as_def [of _ "_ @ _"])
  qed
qed

theorem monitor_history: "represents (mon_run evs) (spec_run evs)"
proof (induction evs rule: rev_induct)
  case Nil
  then show ?case by (simp add: represents_def mon_run_def spec_run_def NewMonitor_def)
next
  case (snoc e evs)
  then show ?case
    using represents_Replace represents_Observe by (cases e) (auto simp: mon_run_def spec_run_def)
qed

section \<open>The report\<close>

text \<open>A backend fails when its latest results, as many as its policy asks for, all failed; it expires when the expiry of its
  latest result lies inside the warning window.\<close>

definition failing :: "watch_spec \<Rightarrow> string \<Rightarrow> bool" where
  "failing w n = (case fst w n of None \<Rightarrow> False | Some p \<Rightarrow> degradeAfter p \<le> int (length (streak (snd w n))))"

definition expiring :: "watch_spec \<Rightarrow> time \<Rightarrow> string \<Rightarrow> bool" where
  "expiring w now n =
     (case fst w n of
        None \<Rightarrow> False
      | Some p \<Rightarrow> snd w n \<noteq> [] \<and> \<not> IsZero (hl_AuthExpiresAt (last (snd w n))) \<and>
                 hl_AuthExpiresAt (last (snd w n)) - hp_WarnBefore p \<le> now)"

definition entry :: "watch_spec \<Rightarrow> time \<Rightarrow> string \<Rightarrow> backend_status" where
  "entry w now n = evaluate_state (summary (snd w n) StatusOK) (the (fst w n)) now"

lemma evaluate_status:
  "bs_Status (evaluate_state st p now) =
     (if degradeAfter p \<le> int (mn_failures st) then StatusDegraded
      else if \<not> IsZero (mn_authExpiresAt st) \<and> mn_authExpiresAt st - hp_WarnBefore p \<le> now then StatusWarning
      else StatusOK)"
  by (simp add: evaluate_state_def Let_def)

lemma evaluate_cases: "bs_Status (evaluate_state st p now) \<in> {StatusOK, StatusWarning, StatusDegraded}"
  by (simp add: evaluate_status)

lemma evaluate_summary: "evaluate_state (summary h s) p now = evaluate_state (summary h StatusOK) p now"
  by (simp add: evaluate_state_def summary_def Let_def)

lemma status_distinct [simp]:
  "StatusOK \<noteq> StatusWarning" "StatusOK \<noteq> StatusDegraded" "StatusWarning \<noteq> StatusDegraded"
  "StatusWarning \<noteq> StatusOK" "StatusDegraded \<noteq> StatusOK" "StatusDegraded \<noteq> StatusWarning"
  by (simp_all add: status_names)

text \<open>The fold of \<open>Report\<close>, over a list whose entries are those of the specification.\<close>

definition policy_of :: "(string \<times> health_policy) list \<Rightarrow> string \<Rightarrow> health_policy" where
  "policy_of ps n = (case map_of ps n of Some p \<Rightarrow> p | None \<Rightarrow> zero_policy)"

abbreviation ev :: "(string \<times> health_policy) list \<Rightarrow> time \<Rightarrow> string \<times> mon_state \<Rightarrow> backend_status" where
  "ev ps now x \<equiv> evaluate_state (snd x) (policy_of ps (fst x)) now"

lemma report_step_simp:
  "report_step ps now rep x =
     (if bs_Status (ev ps now x) = StatusOK then rep
      else \<lparr>rep_Status = (if bs_Status (ev ps now x) = StatusDegraded \<or> rep_Status rep = StatusOK
                          then bs_Status (ev ps now x) else rep_Status rep),
            rep_Backends = AList.update (fst x) (ev ps now x) (rep_Backends rep)\<rparr>)"
  by (cases x) (simp add: report_step_def policy_of_def Let_def)

lemma report_status_fold:
  "rep_Status rep \<in> {StatusOK, StatusWarning, StatusDegraded} \<Longrightarrow>
   rep_Status (foldl (report_step ps now) rep sts) =
     (if rep_Status rep = StatusDegraded \<or> (\<exists>x \<in> set sts. bs_Status (ev ps now x) = StatusDegraded) then StatusDegraded
      else if rep_Status rep = StatusWarning \<or> (\<exists>x \<in> set sts. bs_Status (ev ps now x) = StatusWarning) then StatusWarning
      else StatusOK)"
proof (induction sts arbitrary: rep)
  case (Cons x sts)
  consider "bs_Status (ev ps now x) = StatusOK" | "bs_Status (ev ps now x) = StatusWarning"
    | "bs_Status (ev ps now x) = StatusDegraded" using evaluate_cases by blast
  moreover have "rep_Status (report_step ps now rep x) \<in> {StatusOK, StatusWarning, StatusDegraded}"
    using Cons.prems by (auto simp: report_step_simp evaluate_status)
  note Cons.IH [OF this]
  ultimately show ?case using Cons.prems by cases (auto simp: report_step_simp)
qed auto

lemma report_backends_fold:
  "distinct (map fst sts) \<Longrightarrow>
   map_of (rep_Backends (foldl (report_step ps now) rep sts)) n =
     (case map_of sts n of
        Some st \<Rightarrow> if bs_Status (ev ps now (n, st)) = StatusOK then map_of (rep_Backends rep) n else Some (ev ps now (n, st))
      | None \<Rightarrow> map_of (rep_Backends rep) n)"
proof (induction sts arbitrary: rep)
  case (Cons x sts)
  then have "fst x = n \<Longrightarrow> map_of sts n = None" by (auto simp: map_of_eq_None_iff)
  then show ?case using Cons
    by (cases x) (auto simp: report_step_simp update_conv' split: option.splits)
qed simp

lemma failing_not_empty: "failing w n \<Longrightarrow> snd w n \<noteq> []"
  by (auto simp: failing_def degradeAfter_def split: option.splits if_splits)

lemma entry_status:
  assumes "represents m w" and "map_of (mo_states m) n = Some st"
  shows "ev (mo_policies m) now (n, st) = entry w now n"
    and "bs_Status (entry w now n) = (if failing w n then StatusDegraded else if expiring w now n then StatusWarning else StatusOK)"
proof -
  have r: "recorded_as (Some st) (snd w n)" and ps: "map_of (mo_policies m) = fst w"
    and p: "snd w n \<noteq> [] \<longrightarrow> fst w n \<noteq> None"
    using assms by (auto simp: represents_def simp flip: assms(2))
  then obtain s p where s: "st = summary (snd w n) s" "snd w n \<noteq> []" "fst w n = Some p"
    by (auto simp: recorded_as_def split: if_splits)
  show "ev (mo_policies m) now (n, st) = entry w now n"
    using s ps evaluate_summary [of "snd w n" s] by (simp add: entry_def policy_of_def)
  show "bs_Status (entry w now n) = (if failing w n then StatusDegraded else if expiring w now n then StatusWarning else StatusOK)"
    using s by (simp add: entry_def evaluate_status failing_def expiring_def summary_def)
qed

lemma unwatched_ok:
  assumes "represents m w" and "map_of (mo_states m) n = None"
  shows "\<not> failing w n" "\<not> expiring w now n"
proof -
  have "snd w n = []" using assms by (fastforce simp: represents_def recorded_as_def split: if_splits)
  then show "\<not> failing w n" "\<not> expiring w now n"
    using failing_not_empty [of w n] by (auto simp: expiring_def split: option.splits)
qed

lemma Report_represents:
  assumes "represents m w" and "mset sts = mset (mo_states m)"
  shows "rep_Status (monitor_Report (Some (m\<lparr>mo_states := sts\<rparr>)) now) = (if \<exists>n. failing w n then StatusDegraded else if \<exists>n. expiring w now n then StatusWarning else StatusOK)"
    and "map_of (rep_Backends (monitor_Report (Some (m\<lparr>mo_states := sts\<rparr>)) now)) n = (if failing w n \<or> expiring w now n then Some (entry w now n) else None)"
proof -
  have d: "distinct (map fst (mo_states m))" using assms(1) by (simp add: represents_def)
  have sets: "set sts = set (mo_states m)" using assms(2) by (metis set_mset_mset)
  have ds: "distinct (map fst sts)" using d assms(2) by (metis mset_map mset_eq_imp_distinct_iff)
  have same: "map_of sts = map_of (mo_states m)" using d ds sets by (metis map_of_inject_set)
  have member: "(n, st) \<in> set sts \<longleftrightarrow> map_of (mo_states m) n = Some st" for n st using sets d by simp
  have ev: "bs_Status (ev (mo_policies m) now x) =
      (if failing w (fst x) then StatusDegraded else if expiring w now (fst x) then StatusWarning else StatusOK)"
    if "x \<in> set sts" for x
    using that member [of "fst x" "snd x"] entry_status [OF assms(1), of "fst x" "snd x" now] by simp
  have watched: "\<exists>x \<in> set sts. fst x = n" if "failing w n \<or> expiring w now n" for n
    using that unwatched_ok [OF assms(1)] member by (metis fst_conv not_Some_eq)
  show "rep_Status (monitor_Report (Some (m\<lparr>mo_states := sts\<rparr>)) now) = (if \<exists>n. failing w n then StatusDegraded else if \<exists>n. expiring w now n then StatusWarning else StatusOK)"
    unfolding monitor_Report_def using ev watched
    by (simp add: report_status_fold) metis
  show "map_of (rep_Backends (monitor_Report (Some (m\<lparr>mo_states := sts\<rparr>)) now)) n = (if failing w n \<or> expiring w now n then Some (entry w now n) else None)"
    unfolding monitor_Report_def
    using ds same entry_status [OF assms(1), of n] unwatched_ok [OF assms(1), of n]
    by (simp add: report_backends_fold split: option.splits)
qed

end
