(* ===== verification/MonitorProps.thy ===== *)
theory MonitorProps
  imports Monitor
begin

text \<open>
  The monitor with the goroutines that check its targets (\<open>Replace\<close>, \<open>run\<close>, \<open>check\<close>, \<open>Stop\<close>). Each goroutine belongs to the
  generation of the \<open>Replace\<close> that started it, whose context the next \<open>Replace\<close> or \<open>Stop\<close> cancels. A check waits for one of
  eight slots, runs, is dropped when its context has ended, and is recorded otherwise; the test of the context and the
  recording are two steps, as they are in the code. Results of the health tool arrive at any time.
\<close>

datatype check_phase = Waiting | Checking | Answered health_result | Recording health_result | Resting | Ended

record watcher =
  wa_gen :: nat
  wa_name :: string
  wa_policy :: health_policy
  wa_phase :: check_phase

record system =
  sy_monitor :: monitor
  sy_gen :: nat
  sy_live :: bool
  sy_watchers :: "watcher list"
  sy_trace :: "mon_event list"

definition initial_system :: system where
  "initial_system = \<lparr>sy_monitor = NewMonitor, sy_gen = 0, sy_live = False, sy_watchers = [], sy_trace = []\<rparr>"

definition ctx_live :: "system \<Rightarrow> watcher \<Rightarrow> bool" where
  "ctx_live s w \<longleftrightarrow> sy_live s \<and> wa_gen w = sy_gen s"

definition active_checks :: "system \<Rightarrow> nat" where
  "active_checks s = length (filter (\<lambda>w. wa_phase w = Checking) (sy_watchers s))"

definition after_check :: "watcher \<Rightarrow> check_phase" where
  "after_check w = (if hp_Interval (wa_policy w) \<le> 0 then Ended else Resting)"

definition enter :: "nat \<Rightarrow> check_phase \<Rightarrow> system \<Rightarrow> system" where
  "enter i ph s = s\<lparr>sy_watchers := (sy_watchers s)[i := (sy_watchers s ! i)\<lparr>wa_phase := ph\<rparr>]\<rparr>"

definition observe_sys :: "string \<Rightarrow> health_result \<Rightarrow> time \<Rightarrow> system \<Rightarrow> system" where
  "observe_sys n r t s = s\<lparr>sy_monitor := Observe n r t (sy_monitor s), sy_trace := sy_trace s @ [Observed n r t]\<rparr>"

definition replace_sys :: "(string \<times> health_policy) list \<Rightarrow> system \<Rightarrow> system" where
  "replace_sys ts s =
     s\<lparr>sy_monitor := monitor_Replace ts (sy_monitor s), sy_gen := Suc (sy_gen s), sy_live := True,
       sy_watchers := sy_watchers s @
         map (\<lambda>(n, p). \<lparr>wa_gen = Suc (sy_gen s), wa_name = n, wa_policy = p, wa_phase = Waiting\<rparr>) ts,
       sy_trace := sy_trace s @ [Replaced ts]\<rparr>"

inductive sys_step :: "system \<Rightarrow> system \<Rightarrow> bool" where
  replace: "sys_step s (replace_sys ts s)"
| stop: "sys_step s (s\<lparr>sy_live := False\<rparr>)"
| acquire: "i < length (sy_watchers s) \<Longrightarrow> wa_phase (sy_watchers s ! i) = Waiting \<Longrightarrow> active_checks s < maxConcurrentChecks \<Longrightarrow>
    sys_step s (enter i Checking s)"
| give_up: "i < length (sy_watchers s) \<Longrightarrow> wa_phase (sy_watchers s ! i) = Waiting \<Longrightarrow> \<not> ctx_live s (sy_watchers s ! i) \<Longrightarrow>
    sys_step s (enter i (after_check (sy_watchers s ! i)) s)"
| answer: "i < length (sy_watchers s) \<Longrightarrow> wa_phase (sy_watchers s ! i) = Checking \<Longrightarrow> sys_step s (enter i (Answered r) s)"
| dropped: "i < length (sy_watchers s) \<Longrightarrow> wa_phase (sy_watchers s ! i) = Answered r \<Longrightarrow> \<not> ctx_live s (sy_watchers s ! i) \<Longrightarrow>
    sys_step s (enter i (after_check (sy_watchers s ! i)) s)"
| kept: "i < length (sy_watchers s) \<Longrightarrow> wa_phase (sy_watchers s ! i) = Answered r \<Longrightarrow> ctx_live s (sy_watchers s ! i) \<Longrightarrow>
    sys_step s (enter i (Recording r) s)"
| record_result: "i < length (sy_watchers s) \<Longrightarrow> wa_phase (sy_watchers s ! i) = Recording r \<Longrightarrow>
    sys_step s (enter i (after_check (sy_watchers s ! i)) (observe_sys (wa_name (sy_watchers s ! i)) r t s))"
| tick: "i < length (sy_watchers s) \<Longrightarrow> wa_phase (sy_watchers s ! i) = Resting \<Longrightarrow> sys_step s (enter i Waiting s)"
| finish: "i < length (sy_watchers s) \<Longrightarrow> wa_phase (sy_watchers s ! i) = Resting \<Longrightarrow> \<not> ctx_live s (sy_watchers s ! i) \<Longrightarrow>
    sys_step s (enter i Ended s)"
| on_demand: "sys_step s (observe_sys n r t s)"

definition reachable_sys :: "system \<Rightarrow> bool" where
  "reachable_sys s = sys_step\<^sup>*\<^sup>* initial_system s"

section \<open>The traces of the system are runs of the monitor\<close>

lemma enter_fields [simp]:
  "sy_monitor (enter i ph s) = sy_monitor s" "sy_trace (enter i ph s) = sy_trace s"
  by (simp_all add: enter_def)

lemma mon_run_snoc: "mon_run (evs @ [e]) = mon_step (mon_run evs) e"
  by (simp add: mon_run_def)

lemma step_trace: "sys_step s s' \<Longrightarrow> sy_monitor s = mon_run (sy_trace s) \<Longrightarrow> sy_monitor s' = mon_run (sy_trace s')"
  by (induction rule: sys_step.induct) (simp_all add: replace_sys_def observe_sys_def mon_run_snoc)

lemma reachable_trace: "reachable_sys s \<Longrightarrow> sy_monitor s = mon_run (sy_trace s)"
  unfolding reachable_sys_def
  by (induction rule: rtranclp_induct) (simp add: initial_system_def mon_run_def, erule (1) step_trace)

section \<open>At most eight checks at once\<close>

lemma length_filter_update:
  "i < length xs \<Longrightarrow>
   length (filter P (xs[i := x])) + (if P (xs ! i) then 1 else 0) = length (filter P xs) + (if P x then 1 else 0)"
proof (induction xs arbitrary: i)
  case (Cons y ys)
  then show ?case by (cases i) auto
qed simp

lemma active_enter:
  "i < length (sy_watchers s) \<Longrightarrow>
   active_checks (enter i ph s) + (if wa_phase (sy_watchers s ! i) = Checking then 1 else 0) =
   active_checks s + (if ph = Checking then 1 else 0)"
  using length_filter_update [of i "sy_watchers s" "\<lambda>w. wa_phase w = Checking"] by (simp add: active_checks_def enter_def)

lemma active_le: "i < length (sy_watchers s) \<Longrightarrow> ph \<noteq> Checking \<Longrightarrow> active_checks (enter i ph s) \<le> active_checks s"
  using active_enter [of i s ph] by (simp split: if_splits)

lemma after_check_not_checking [simp]: "after_check w \<noteq> Checking"
  by (simp add: after_check_def)

lemma step_bounded: "sys_step s s' \<Longrightarrow> active_checks s \<le> maxConcurrentChecks \<Longrightarrow> active_checks s' \<le> maxConcurrentChecks"
proof (induction rule: sys_step.induct)
  case (acquire i s)
  then show ?case using active_enter [of i s Checking] by simp
next
  case (replace s ts)
  then show ?case by (simp add: active_checks_def replace_sys_def filter_map comp_def case_prod_beta)
next
  case (record_result i s r t)
  have "active_checks (observe_sys n r t s) = active_checks s" "sy_watchers (observe_sys n r t s) = sy_watchers s" for n
    by (simp_all add: active_checks_def observe_sys_def)
  then show ?case using record_result active_le [of i "observe_sys (wa_name (sy_watchers s ! i)) r t s"]
    by (metis after_check_not_checking order_trans)
next
  case (on_demand s n r t)
  then show ?case by (simp add: active_checks_def observe_sys_def)
qed (auto simp: active_checks_def [of "_\<lparr>sy_live := False\<rparr>"] active_checks_def [symmetric] intro: order_trans [OF active_le])

section \<open>Gauges\<close>

text \<open>Every backend with a recorded result has its gauges, and no other: they show the latest result.\<close>

definition gauges_match :: "monitor \<Rightarrow> bool" where
  "gauges_match m \<longleftrightarrow>
     (\<forall>n. map_of (mo_gauges m) n =
        map_option (\<lambda>st. \<lparr>hg_up = hl_OK (mn_last st), hg_degraded = (mn_status st = StatusDegraded),
          hg_expiry = (if IsZero (mn_authExpiresAt st) then None else Some (mn_authExpiresAt st div second))\<rparr>)
        (map_of (mo_states m) n))"

lemma absorb_last [simp]: "mn_last (absorb st r) = r" "mn_authExpiresAt (absorb st r) = hl_AuthExpiresAt r"
  by (simp_all add: absorb_def Let_def)

lemma gauges_Observe: "gauges_match m \<Longrightarrow> gauges_match (Observe n r t m)"
  by (auto simp: gauges_match_def Observe_def Let_def SetBackendHealth_def SetBackendAuthExpiry_def update_conv'
      split: option.splits)

lemma gauges_Replace: "gauges_match m \<Longrightarrow> gauges_match (monitor_Replace ts m)"
proof -
  assume g: "gauges_match m"
  have "map_of (mo_gauges m) n = None" if "map_of (mo_states m) n = None" for n
    using g that by (simp add: gauges_match_def)
  then show ?thesis using g
    by (auto simp: gauges_match_def monitor_Replace_def Let_def map_of_filter_keys map_of_eq_None_iff [symmetric]
        simp flip: map_of_eq_None_iff)
qed

lemma gauges_run: "gauges_match (mon_run evs)"
proof (induction evs rule: rev_induct)
  case Nil
  then show ?case by (simp add: gauges_match_def mon_run_def NewMonitor_def)
next
  case (snoc e evs)
  then show ?case by (cases e) (simp_all add: mon_run_snoc gauges_Observe gauges_Replace)
qed

section \<open>A sample run\<close>

text \<open>One backend, polled every minute and degraded after one failure; its first check fails.\<close>

definition sample_policy :: health_policy where
  "sample_policy = \<lparr>hp_Interval = minute, hp_DegradeAfter = 1, hp_WarnBefore = hour\<rparr>"

definition sample_failure :: health_result where
  "sample_failure = no_health_result\<lparr>hl_HTTPStatus := 401, hl_CheckedAt := 0, hl_Reason := ''unauthorized (HTTP 401)''\<rparr>"

definition sample_start :: system where
  "sample_start = replace_sys [(''crm'', sample_policy)] initial_system"

definition sample_recording :: system where
  "sample_recording = enter 0 (Recording sample_failure) (enter 0 (Answered sample_failure) (enter 0 Checking sample_start))"

definition sample_system :: system where
  "sample_system = enter 0 (after_check (sy_watchers sample_recording ! 0))
     (observe_sys (wa_name (sy_watchers sample_recording ! 0)) sample_failure 5 sample_recording)"

lemmas sample_defs = sample_start_def sample_recording_def sample_policy_def replace_sys_def initial_system_def enter_def

lemma sample_reachable: "reachable_sys sample_system"
proof -
  let ?a = "enter 0 Checking sample_start" and ?b = "enter 0 (Answered sample_failure) (enter 0 Checking sample_start)"
  have "sys_step initial_system sample_start" unfolding sample_start_def by (rule replace)
  moreover have "sys_step sample_start ?a"
    by (rule acquire) (simp_all add: sample_defs active_checks_def maxConcurrentChecks_def)
  moreover have "sys_step ?a ?b" by (rule answer) (simp_all add: sample_defs)
  moreover have "sys_step ?b sample_recording" unfolding sample_recording_def
    by (rule kept) (simp_all add: sample_defs ctx_live_def)
  moreover have "sys_step sample_recording sample_system" unfolding sample_system_def
    by (rule sys_step.record_result) (simp_all add: sample_defs)
  ultimately show ?thesis unfolding reachable_sys_def by (meson converse_rtranclp_into_rtranclp rtranclp.rtrancl_refl)
qed

lemma sample_monitor:
  "sy_trace sample_system = [Replaced [(''crm'', sample_policy)], Observed ''crm'' sample_failure 5]"
  "map_of (mo_gauges (sy_monitor sample_system)) ''crm'' = Some \<lparr>hg_up = False, hg_degraded = True, hg_expiry = None\<rparr>"
  by (simp_all add: sample_system_def sample_defs observe_sys_def monitor_Replace_def NewMonitor_def target_policies_def
      Observe_def absorb_def fresh_state_def sample_failure_def no_health_result_def evaluate_status degradeAfter_def
      SetBackendHealth_def SetBackendAuthExpiry_def Let_def)

lemma sample_failing: "failing (spec_run (sy_trace sample_system)) ''crm''"
  by (simp add: sample_monitor spec_run_def failing_def streak_def sample_policy_def sample_failure_def no_health_result_def
      degradeAfter_def)

section \<open>Properties\<close>

text \<open>C22: In every reachable state of the monitor with its concurrent checks, at most eight checks run at once, state
  is kept only for watched backends, and the exported gauges are exactly those of the backends with a recorded result, and
  show it.\<close>

theorem monitor_consistent:
  assumes "reachable_sys s"
  shows "active_checks s \<le> maxConcurrentChecks \<and> gauges_match (sy_monitor s) \<and>
    fst ` set (mo_states (sy_monitor s)) \<subseteq> fst ` set (mo_policies (sy_monitor s))"
proof (intro conjI)
  show "active_checks s \<le> maxConcurrentChecks"
    using assms unfolding reachable_sys_def
    by (induction rule: rtranclp_induct) (simp add: initial_system_def active_checks_def, erule (1) step_bounded)
  have m: "sy_monitor s = mon_run (sy_trace s)" by (rule reachable_trace [OF assms])
  then show "gauges_match (sy_monitor s)" by (simp add: gauges_run)
  show "fst ` set (mo_states (sy_monitor s)) \<subseteq> fst ` set (mo_policies (sy_monitor s))"
  proof
    fix n assume "n \<in> fst ` set (mo_states (sy_monitor s))"
    then have "map_of (mo_states (sy_monitor s)) n \<noteq> None" by (simp add: map_of_eq_None_iff)
    then have "map_of (mo_policies (sy_monitor s)) n \<noteq> None"
      using monitor_history [of "sy_trace s"] unfolding m
      by (fastforce simp: represents_def recorded_as_def split: if_splits)
    then show "n \<in> fst ` set (mo_policies (sy_monitor s))" by (simp add: map_of_eq_None_iff)
  qed
qed

theorem monitor_consistent_witness:
  "reachable_sys sample_system \<and> active_checks sample_system \<le> maxConcurrentChecks \<and> gauges_match (sy_monitor sample_system) \<and>
   map_of (mo_gauges (sy_monitor sample_system)) ''crm'' = Some \<lparr>hg_up = False, hg_degraded = True, hg_expiry = None\<rparr>"
  using monitor_consistent [OF sample_reachable] sample_reachable sample_monitor(2) by blast

text \<open>C20: The report of \<open>/health\<close> is what the history of results says, whatever the order in which the Go map
  is iterated: it is degraded when some watched backend failed as often in a row as its policy asks for, else warning when
  the latest result of some watched backend says that its credential expires within the warning window, else ok; and it
  lists exactly those backends.\<close>

theorem health_report_exact:
  assumes "reachable_sys s" and "mset sts = mset (mo_states (sy_monitor s))"
  shows "rep_Status (monitor_Report (Some ((sy_monitor s)\<lparr>mo_states := sts\<rparr>)) now) =
      (if \<exists>n. failing (spec_run (sy_trace s)) n then StatusDegraded
       else if \<exists>n. expiring (spec_run (sy_trace s)) now n then StatusWarning else StatusOK) \<and>
    (\<forall>n. map_of (rep_Backends (monitor_Report (Some ((sy_monitor s)\<lparr>mo_states := sts\<rparr>)) now)) n =
      (if failing (spec_run (sy_trace s)) n \<or> expiring (spec_run (sy_trace s)) now n
       then Some (entry (spec_run (sy_trace s)) now n) else None))"
proof -
  have "represents (sy_monitor s) (spec_run (sy_trace s))"
    using monitor_history reachable_trace [OF assms(1)] by simp
  then show ?thesis using Report_represents assms(2) by blast
qed

theorem health_report_exact_witness:
  "reachable_sys sample_system \<and> rep_Status (monitor_Report (Some (sy_monitor sample_system)) 9) = StatusDegraded \<and>
   map_of (rep_Backends (monitor_Report (Some (sy_monitor sample_system)) 9)) ''crm'' =
     Some (entry (spec_run (sy_trace sample_system)) 9 ''crm'')"
  using health_report_exact [OF sample_reachable refl, of 9] sample_failing sample_reachable by auto

end
