(* ===== verification/RestPath.thy ===== *)
theory RestPath
  imports RestCall ClientAddr "HOL-Library.Multiset"
begin

text \<open>
  The URL of a REST request (\<open>buildPath\<close>, \<open>buildQuery\<close>, \<open>joinURL\<close> and \<open>formatScalarParam\<close> of
  \<open>internal/backend/restadapter.go\<close>), with the functions of Go's \<open>net/url\<close> and \<open>strings\<close> they call. The decimal form of
  a JSON number and \<open>fmt.Sprintf("%v")\<close> of a composite value are parameters, as are \<open>url.Parse\<close> and \<open>URL.String\<close>.
\<close>

record http_tool = rest_tool +
  ht_path :: string
  ht_content_type :: string
  ht_nest_body_keys :: "bool option"
  ht_max_body_size :: string

record scalar_format =
  sf_number :: "string \<Rightarrow> string"
  sf_composite :: "json \<Rightarrow> string"

definition formatScalarParam :: "scalar_format \<Rightarrow> json \<Rightarrow> string" where
  "formatScalarParam sf v =
     (case v of JStr s \<Rightarrow> s | JBool b \<Rightarrow> if b then ''true'' else ''false'' | JNum n \<Rightarrow> sf_number sf n | _ \<Rightarrow> sf_composite sf v)"

section \<open>Path and query\<close>

text \<open>\<open>url.PathEscape\<close> and \<open>strings.ReplaceAll\<close> of a non-empty string.\<close>

definition path_kept :: "char \<Rightarrow> bool" where
  "path_kept c \<longleftrightarrow> query_unreserved c \<or> c \<in> set ''$&+:=@''"

definition path_escape :: "string \<Rightarrow> string" where
  "path_escape s = concat (map (\<lambda>c. if path_kept c then [c] else percent_byte c) s)"

function replace_all :: "string \<Rightarrow> string \<Rightarrow> string \<Rightarrow> string" where
  "replace_all old new [] = []"
| "replace_all old new (c # s) =
     (if old \<noteq> [] \<and> has_prefix (c # s) old then new @ replace_all old new (drop (length old - 1) s)
      else c # replace_all old new s)"
  by pat_completeness auto
termination by (relation "measure (\<lambda>(old, new, s). length s)") auto

datatype request_error =
  MissingPathParam string | EmptyPathParam string | MissingHeaderParam string | EmptyHeaderParam string | UrlError string
  | BodyTooLarge string string | BodyError string | AuthError string

fun substitute_params :: "scalar_format \<Rightarrow> args \<Rightarrow> (string \<times> param_def) list \<Rightarrow> string \<Rightarrow> (request_error, string) result" where
  "substitute_params sf params [] path = Inr path"
| "substitute_params sf params ((name, def) # ds) path =
     (if pd_in def \<noteq> ''path'' then substitute_params sf params ds path
      else case map_of params name of
          None \<Rightarrow> Inl (MissingPathParam name)
        | Some val \<Rightarrow>
            if val = JNull then Inl (MissingPathParam name)
            else let str = formatScalarParam sf val
                 in if str = [] then Inl (EmptyPathParam name)
                    else substitute_params sf params ds (replace_all (''{'' @ name @ ''}'') (path_escape str) path))"

definition buildPath :: "scalar_format \<Rightarrow> http_tool \<Rightarrow> args \<Rightarrow> (request_error, string) result" where
  "buildPath sf tool params = substitute_params sf params (rt_params tool) (ht_path tool)"

text \<open>The value a query or header parameter is sent with: the argument, else the default.\<close>

definition supplied_value :: "args \<Rightarrow> string \<times> param_def \<Rightarrow> json option" where
  "supplied_value params nd =
     (case map_of params (fst nd) of Some v \<Rightarrow> if v = JNull then pd_default (snd nd) else Some v | None \<Rightarrow> pd_default (snd nd))"

definition query_part :: "scalar_format \<Rightarrow> args \<Rightarrow> string \<times> param_def \<Rightarrow> string list" where
  "query_part sf params nd =
     (if pd_in (snd nd) \<noteq> ''query'' then []
      else case supplied_value params nd of
          None \<Rightarrow> []
        | Some v \<Rightarrow> [query_escape (fst nd) @ ''='' @ query_escape (formatScalarParam sf v)])"

definition buildQuery :: "scalar_format \<Rightarrow> http_tool \<Rightarrow> args \<Rightarrow> string" where
  "buildQuery sf tool params = join (sort (concat (map (query_part sf params) (rt_params tool)))) ''&''"

section \<open>Joining with the base URL\<close>

text \<open>\<open>resolvePath\<close> of \<open>net/url\<close>; \<open>dst\<close> is what is written after the leading slash.\<close>

definition last_slash :: "string \<Rightarrow> nat option" where
  "last_slash s = (if CHR ''/'' \<in> set s then Some (length s - 1 - length (takeWhile (\<lambda>c. c \<noteq> CHR ''/'') (rev s))) else None)"

fun resolve_elems :: "string list \<Rightarrow> string \<times> bool \<Rightarrow> string \<times> bool" where
  "resolve_elems [] st = st"
| "resolve_elems (e # es) (dst, first) =
     (if e = ''.'' then resolve_elems es (dst, False)
      else if e = ''..'' then
        resolve_elems es (case last_slash dst of None \<Rightarrow> ([], True) | Some i \<Rightarrow> (take i dst, first))
      else resolve_elems es ((if first then dst else dst @ ''/'') @ e, False))"

definition resolve_path :: "string \<Rightarrow> string \<Rightarrow> string" where
  "resolve_path base ref =
     (let full = (if ref = [] then base
                  else if hd ref \<noteq> CHR ''/'' then (case last_slash base of None \<Rightarrow> ref | Some i \<Rightarrow> take (Suc i) base @ ref)
                  else ref);
          elems = split_char (CHR ''/'') full;
          dst = fst (resolve_elems elems ([], True)) @ (if last elems \<in> {''.'', ''..''} then ''/'' else []);
          r = CHR ''/'' # dst
      in if full = [] then [] else if dst \<noteq> [] \<and> hd dst = CHR ''/'' then tl r else r)"

record go_url =
  gu_scheme :: string
  gu_opaque :: string
  gu_authority :: string
  gu_path :: string
  gu_force_query :: bool
  gu_query :: string
  gu_fragment :: string

record url_lib =
  ul_parse :: "string \<Rightarrow> (string, go_url) result"
  ul_string :: "go_url \<Rightarrow> string"

text \<open>\<open>ResolveReference\<close> of a hierarchical base.\<close>

definition ResolveReference :: "go_url \<Rightarrow> go_url \<Rightarrow> go_url" where
  "ResolveReference u ref =
     (if gu_scheme ref \<noteq> [] \<or> gu_authority ref \<noteq> [] then
        ref\<lparr>gu_scheme := (if gu_scheme ref = [] then gu_scheme u else gu_scheme ref),
            gu_path := resolve_path (gu_path ref) []\<rparr>
      else ref\<lparr>gu_scheme := gu_scheme u, gu_authority := gu_authority u,
               gu_query := (if gu_path ref = [] \<and> \<not> gu_force_query ref \<and> gu_query ref = [] then gu_query u else gu_query ref),
               gu_fragment := (if gu_path ref = [] \<and> \<not> gu_force_query ref \<and> gu_query ref = [] \<and> gu_fragment ref = []
                               then gu_fragment u
                               else gu_fragment ref),
               gu_path := resolve_path (gu_path u) (gu_path ref)\<rparr>)"

definition with_slash :: "string \<Rightarrow> string" where
  "with_slash p = (if p \<noteq> [] \<and> last p = CHR ''/'' then p else p @ ''/'')"

definition joinURL :: "url_lib \<Rightarrow> string \<Rightarrow> string \<Rightarrow> (request_error, string) result" where
  "joinURL ul baseURL toolPath =
     (case ul_parse ul toolPath of
        Inl e \<Rightarrow> Inl (UrlError e)
      | Inr ref \<Rightarrow>
          if gu_scheme ref \<noteq> [] then Inr (ul_string ul ref)
          else (case ul_parse ul baseURL of
                  Inl e \<Rightarrow> Inl (UrlError e)
                | Inr base \<Rightarrow>
                    (case ul_parse ul (trim_prefix toolPath ''/'') of
                       Inl e \<Rightarrow> Inl (UrlError e)
                     | Inr rel \<Rightarrow>
                         Inr (ul_string ul (ResolveReference (base\<lparr>gu_path := with_slash (gu_path base)\<rparr>) rel)))))"

section \<open>Arguments stay inside their segment\<close>

lemma path_escape_excludes:
  assumes "c \<in> set (path_escape s)"
  shows "c \<notin> set ''/?#{} ''"
proof -
  obtain d where d: "c \<in> set (if path_kept d then [d] else percent_byte d)"
    using assms unfolding path_escape_def set_concat set_map by blast
  show ?thesis
  proof (cases "path_kept d")
    case True
    then show ?thesis using d by (auto simp: path_kept_def query_unreserved_def Let_def)
  next
    case False
    then have "c = CHR ''%'' \<or> c = hex_upper (byte_of d div 16) \<or> c = hex_upper (byte_of d mod 16)"
      using d by (simp add: percent_byte_def)
    moreover have "byte_of d div 16 < (16::nat)" "byte_of d mod 16 < (16::nat)"
      using byte_less_256 [of d] by (simp_all add: less_mult_imp_div_less)
    ultimately obtain k where "c = CHR ''%'' \<or> (k < 16 \<and> c = hex_upper k)" by blast
    moreover have "hex_upper k \<notin> set ''/?#{} ''" if "k < 16" for k :: nat
    proof -
      have "k \<in> set [0..<16]" using that by simp
      then show ?thesis by (auto simp: upt_rec hex_upper_def char_of_def bit_0)
    qed
    ultimately show ?thesis by auto
  qed
qed

lemma count_replace_all:
  "c \<notin> set old \<Longrightarrow> c \<notin> set new \<Longrightarrow> count_list (replace_all old new s) c = count_list s c"
proof (induction old new s rule: replace_all.induct)
  case (2 old new d s)
  show ?case
  proof (cases "old \<noteq> [] \<and> has_prefix (d # s) old")
    case True
    then obtain rest where r: "d # s = old @ rest" "old \<noteq> []" by (metis has_prefix_def append_take_drop_id)
    then have "drop (length old - 1) s = rest" by (cases old) auto
    moreover have "count_list (d # s) c = count_list rest c" using r(1) 2(3) by (simp only: r(1)) (simp add: count_list_append)
    ultimately show ?thesis using True 2 by (simp add: count_list_append)
  next
    case False
    then show ?thesis using 2 by auto
  qed
qed simp

lemma substitute_count:
  "substitute_params sf params ds path = Inr p \<Longrightarrow> c \<in> set ''/?#'' \<Longrightarrow>
   (\<And>n d. (n, d) \<in> set ds \<Longrightarrow> pd_in d = ''path'' \<Longrightarrow> c \<notin> set n) \<Longrightarrow> count_list p c = count_list path c"
proof (induction sf params ds path rule: substitute_params.induct)
  case (2 sf params name def ds path)
  show ?case
  proof (cases "pd_in def = ''path''")
    case True
    then obtain v where v: "map_of params name = Some v" "v \<noteq> JNull" "formatScalarParam sf v \<noteq> []"
      and s: "substitute_params sf params ds (replace_all (''{'' @ name @ ''}'') (path_escape (formatScalarParam sf v)) path) = Inr p"
      using 2(3) by (auto simp: Let_def split: option.splits if_splits)
    have n: "c \<notin> set (''{'' @ name @ ''}'')" using 2(4) 2(5) [of name "def"] True by auto
    have e: "c \<notin> set (path_escape (formatScalarParam sf v))" using path_escape_excludes [of c] 2(4) by auto
    show ?thesis
      using 2(2) [OF _ v(1,2) refl v(3) s 2(4)] True 2(5) count_replace_all [OF n e] by auto
  next
    case False
    then show ?thesis using 2 by auto
  qed
qed simp

section \<open>Dot segments\<close>

definition dot_free :: "string \<Rightarrow> bool" where
  "dot_free s \<longleftrightarrow> (\<forall>e \<in> set (split_char (CHR ''/'') s). e \<noteq> ''.'' \<and> e \<noteq> ''..'')"

lemma join_Cons: "es \<noteq> [] \<Longrightarrow> join (e # es) sep = e @ sep @ join es sep"
  by (cases es) auto

lemma join_split_char: "join (split_char c s) [c] = s"
proof (induction s)
  case (Cons d s)
  obtain e es where "split_char c s = e # es" using split_char_nonempty by (metis neq_Nil_conv)
  then show ?case using Cons by (cases es) auto
qed simp

lemma concat_segments: "es \<noteq> [] \<Longrightarrow> concat (map (\<lambda>e. CHR ''/'' # e) es) = CHR ''/'' # join es ''/''"
  by (induction es rule: induct_list012) auto

lemma resolve_elems_append: "resolve_elems (xs @ ys) st = resolve_elems ys (resolve_elems xs st)"
  by (induction xs st rule: resolve_elems.induct) auto

lemma resolve_plain:
  "(\<forall>e \<in> set es. e \<noteq> ''.'' \<and> e \<noteq> ''..'') \<Longrightarrow>
   resolve_elems es (dst, False) = (dst @ concat (map (\<lambda>e. CHR ''/'' # e) es), False)"
  by (induction es arbitrary: dst) auto

lemma resolve_dot_free: "dot_free s \<Longrightarrow> resolve_elems (split_char (CHR ''/'') s) ([], True) = (s, False)"
proof -
  assume d: "dot_free s"
  obtain e es where e: "split_char (CHR ''/'') s = e # es" using split_char_nonempty by (metis neq_Nil_conv)
  have "e @ concat (map (\<lambda>e. CHR ''/'' # e) es) = s"
    using join_split_char [of "CHR ''/''" s] e concat_segments [of es] by (cases es) auto
  then show ?thesis using d e resolve_plain [of es e] by (simp add: dot_free_def)
qed

lemma resolve_dot_free_tail:
  "dot_free s \<Longrightarrow> resolve_elems (split_char (CHR ''/'') s) (dst, False) = (dst @ CHR ''/'' # s, False)"
  using resolve_plain [of "split_char (CHR ''/'') s" dst] concat_segments [OF split_char_nonempty, of "CHR ''/''" s]
  by (simp add: dot_free_def join_split_char)

lemma dot_free_append: "dot_free (a @ CHR ''/'' # b) \<longleftrightarrow> dot_free a \<and> dot_free b"
  by (auto simp: dot_free_def split_char_append)

lemma last_slash_append: "CHR ''/'' \<notin> set seg \<Longrightarrow> last_slash (a @ CHR ''/'' # seg) = Some (length a)"
proof -
  assume "CHR ''/'' \<notin> set seg"
  then have "takeWhile (\<lambda>c. c \<noteq> CHR ''/'') (rev seg @ CHR ''/'' # rev a) = rev seg"
    by (subst takeWhile_append2) auto
  then show ?thesis by (simp add: last_slash_def)
qed

lemma split_char_none: "c \<notin> set s \<Longrightarrow> split_char c s = [s]"
  by (induction s) auto

lemma resolve_path_join:
  assumes "hd (b @ ''/'') = CHR ''/''" and "ref = [] \<or> hd ref \<noteq> CHR ''/''"
  shows "resolve_path (b @ ''/'') ref =
    (let elems = split_char (CHR ''/'') (b @ CHR ''/'' # ref);
         dst = fst (resolve_elems elems ([], True)) @ (if last elems \<in> {''.'', ''..''} then ''/'' else [])
     in if dst \<noteq> [] \<and> hd dst = CHR ''/'' then dst else CHR ''/'' # dst)"
  using assms(2) last_slash_append [of "[]" b] by (auto simp: resolve_path_def Let_def)

lemma hd_split_slash: "hd (b @ ''/'') = CHR ''/'' \<Longrightarrow> hd (b @ CHR ''/'' # s) = CHR ''/''"
  by (cases b) auto

lemma last_split_append: "last (split_char c (a @ c # b)) = last (split_char c b)"
  by (simp add: split_char_append split_char_nonempty)

lemma dot_free_last: "dot_free s \<Longrightarrow> last (split_char (CHR ''/'') s) \<notin> {''.'', ''..''}"
  using last_in_set [OF split_char_nonempty, of "CHR ''/''" s] by (auto simp: dot_free_def)

text \<open>Without dot segments the tool path is appended to the base path.\<close>

lemma resolve_path_dot_free:
  assumes "hd (b @ ''/'') = CHR ''/''" and "ref = [] \<or> hd ref \<noteq> CHR ''/''" and "dot_free b" and "dot_free ref"
  shows "resolve_path (b @ ''/'') ref = b @ ''/'' @ ref"
  using resolve_path_join [OF assms(1,2)] resolve_dot_free [of "b @ CHR ''/'' # ref"] dot_free_append [of b ref] assms
    dot_free_last [OF assms(4)] hd_split_slash [OF assms(1)]
  by (simp add: Let_def last_split_append)

text \<open>A segment \<open>..\<close> removes the one before it.\<close>

lemma resolve_path_dotdot:
  assumes "hd (b @ ''/'') = CHR ''/''" and "dot_free b" and "dot_free seg" and "CHR ''/'' \<notin> set seg" and "seg \<noteq> []"
    and "dot_free rest"
  shows "resolve_path (b @ ''/'') (seg @ ''/../'' @ rest) = b @ ''/'' @ rest"
proof -
  let ?s = "CHR ''/''"
  have elems: "split_char ?s (b @ ?s # seg @ ''/../'' @ rest) = split_char ?s b @ [seg, ''..''] @ split_char ?s rest"
    using split_char_append [of ?s b "seg @ ''/../'' @ rest"] split_line [OF assms(4), of "''../'' @ rest"]
      split_line [of ?s "''..''" rest] by simp
  have seg: "seg \<noteq> ''.''" "seg \<noteq> ''..''" using assms(3) split_char_none [OF assms(4)] by (simp_all add: dot_free_def)
  have "resolve_elems (split_char ?s b @ [seg, ''..''] @ split_char ?s rest) ([], True) = (b @ ?s # rest, False)"
    using seg last_slash_append [OF assms(4), of b] resolve_dot_free_tail [OF assms(6), of b]
    by (simp add: resolve_elems_append resolve_dot_free [OF assms(2)])
  moreover have "hd seg \<noteq> ?s" using assms(4,5) by (cases seg) auto
  ultimately show ?thesis
    using resolve_path_join [OF assms(1), of "seg @ ''/../'' @ rest"] elems assms(5) dot_free_last [OF assms(6)]
      hd_split_slash [OF assms(1)] by (simp add: Let_def split_char_nonempty)
qed

section \<open>Properties\<close>

text \<open>A tool with one path parameter, and a parser for the paths of the witnesses.\<close>

definition sample_tool :: http_tool where
  "sample_tool = \<lparr>rt_method = ''DELETE'', rt_params = [(''id'', \<lparr>pd_type = ''string'', pd_in = ''path'', pd_required = True, pd_default = None\<rparr>)],
     rt_response = None, rt_pagination_none = False, rt_errors = None, rt_idempotency = None, rt_retry_unsafe = False,
     ht_path = ''/users/{id}/keys'', ht_content_type = [], ht_nest_body_keys = None, ht_max_body_size = []\<rparr>"

definition sample_format :: scalar_format where
  "sample_format = \<lparr>sf_number = id, sf_composite = (\<lambda>_. ''?'')\<rparr>"

definition path_url :: "string \<Rightarrow> go_url" where
  "path_url p = \<lparr>gu_scheme = [], gu_opaque = [], gu_authority = [], gu_path = p, gu_force_query = False, gu_query = [], gu_fragment = []\<rparr>"

definition sample_urls :: url_lib where
  "sample_urls = \<lparr>ul_parse = (\<lambda>s. if s = ''https://api.example.com/v4''
       then Inr ((path_url ''/v4'')\<lparr>gu_scheme := ''https'', gu_authority := ''api.example.com''\<rparr>) else Inr (path_url s)),
     ul_string = (\<lambda>u. gu_scheme u @ ''://'' @ gu_authority u @ gu_path u)\<rparr>"

text \<open>The query does not depend on the order in which the parameter map is iterated.\<close>

theorem query_order_free:
  assumes "mset (rt_params tool) = mset (rt_params tool')"
  shows "buildQuery sf tool params = buildQuery sf tool' params"
proof -
  have "mset (concat (map f xs)) = mset (concat (map f ys))" if "mset xs = mset ys"
    for f :: "string \<times> param_def \<Rightarrow> string list" and xs ys
    using that by (metis mset_concat mset_map map_map sum_mset_sum_list)
  then have "sort (concat (map (query_part sf params) (rt_params tool))) = sort (concat (map (query_part sf params) (rt_params tool')))"
    using assms by (metis sorted_list_of_multiset_mset)
  then show ?thesis by (simp add: buildQuery_def)
qed



lemma replace_all_absent: "old \<noteq> [] \<Longrightarrow> hd old \<notin> set s \<Longrightarrow> replace_all old new s = s"
proof (induction s)
  case (Cons c s)
  then have "\<not> has_prefix (c # s) old" by (cases old) (auto simp: has_prefix_def)
  then show ?case using Cons by simp
qed simp

lemma replace_all_once:
  assumes "old \<noteq> []" and "hd old \<notin> set pre" and "hd old \<notin> set post"
  shows "replace_all old new (pre @ old @ post) = pre @ new @ post"
  using assms(2)
proof (induction pre)
  case Nil
  obtain o1 os where "old = o1 # os" using assms(1) by (cases old) auto
  then show ?case using replace_all_absent [OF assms(1,3)] by (simp add: has_prefix_def)
next
  case (Cons c pre)
  then have "\<not> has_prefix ((c # pre) @ old @ post) old" using assms(1) by (cases old) (auto simp: has_prefix_def)
  then show ?case using Cons by simp
qed

text \<open>C38: The value \<open>..\<close> of a path parameter is not escaped, and the resolution against the base URL removes the
  segment before it: the request goes to another endpoint of the API, with the credential of the backend. The hypotheses on
  the parser say that it reads a plain path as a path.\<close>

theorem dotdot_reaches_other_endpoint:
  assumes "ht_path tool = ''/'' @ seg @ ''/{'' @ n @ ''}/'' @ rest" and "rt_params tool = [(n, def)]" and "pd_in def = ''path''"
    and "set seg \<inter> set ''/{'' = {}" and "CHR ''{'' \<notin> set rest" and "dot_free seg" and "seg \<noteq> []" and "dot_free rest"
    and "ul_parse ul (''/'' @ seg @ ''/../'' @ rest) = Inr (path_url (''/'' @ seg @ ''/../'' @ rest))"
    and "ul_parse ul (seg @ ''/../'' @ rest) = Inr (path_url (seg @ ''/../'' @ rest))"
    and "ul_parse ul baseURL = Inr base" and "with_slash (gu_path base) = b @ ''/''" and "hd (b @ ''/'') = CHR ''/''" and "dot_free b"
  shows "bind_res (buildPath sf tool [(n, JStr ''..'')]) (joinURL ul baseURL) =
    Inr (ul_string ul (base\<lparr>gu_path := b @ ''/'' @ rest, gu_opaque := [], gu_force_query := False, gu_query := [],
      gu_fragment := []\<rparr>))"
proof -
  have esc: "path_escape ''..'' = ''..''" by (simp add: path_escape_def path_kept_def query_unreserved_def)
  have "replace_all (''{'' @ n @ ''}'') ''..'' ((''/'' @ seg @ ''/'') @ (''{'' @ n @ ''}'') @ ''/'' @ rest) = (''/'' @ seg @ ''/'') @ ''..'' @ ''/'' @ rest"
    by (rule replace_all_once) (use assms(4,5) in auto)
  then have p: "buildPath sf tool [(n, JStr ''..'')] = Inr (''/'' @ seg @ ''/../'' @ rest)"
    using assms(1-3) by (simp add: buildPath_def formatScalarParam_def esc)
  have r: "resolve_path (b @ ''/'') (seg @ ''/../'' @ rest) = b @ ''/'' @ rest"
    by (rule resolve_path_dotdot) (use assms in auto)
  have t: "trim_prefix (''/'' @ seg @ ''/../'' @ rest) ''/'' = seg @ ''/../'' @ rest"
    by (simp add: trim_prefix_def has_prefix_def)
  show ?thesis
    using p r assms(7,9-12) t by (cases base) (simp add: joinURL_def ResolveReference_def path_url_def)
qed

theorem dotdot_reaches_other_endpoint_witness:
  "bind_res (buildPath sample_format sample_tool [(''id'', JStr ''..'')]) (joinURL sample_urls ''https://api.example.com/v4'') =
   Inr ''https://api.example.com/v4/keys''"
  using dotdot_reaches_other_endpoint [of sample_tool "''users''" "''id''" "''keys''"
      "\<lparr>pd_type = ''string'', pd_in = ''path'', pd_required = True, pd_default = None\<rparr>" sample_urls "''https://api.example.com/v4''"
      "(path_url ''/v4'')\<lparr>gu_scheme := ''https'', gu_authority := ''api.example.com''\<rparr>" "''/v4''" sample_format]
  by (simp add: sample_tool_def sample_urls_def path_url_def with_slash_def dot_free_def)

end
