(* ===== verification/RestBody.thy ===== *)
theory RestBody
  imports RestPath
begin

text \<open>
  The body of a REST request (\<open>buildBody\<close>, \<open>nestDottedKeys\<close>, \<open>insertNested\<close>, \<open>buildFormEncoded\<close>, \<open>flattenFormValues\<close>,
  \<open>checkBodySize\<close> of \<open>internal/backend/restadapter.go\<close>, \<open>FormatByteSize\<close> of \<open>internal/dadl/bytesize.go\<close>). Go maps are
  references: \<open>insertNested\<close> writes into the objects it finds, which are the caller's arguments and the tool's declared
  defaults, so building a body returns both as they are afterwards.
\<close>

section \<open>Nesting\<close>

fun insertNested :: "(string \<times> json) list \<Rightarrow> string list \<Rightarrow> json \<Rightarrow> (string \<times> json) list option" where
  "insertNested root [] val = None"
| "insertNested root [leaf] val = (if map_of root leaf = None then Some (AList.update leaf val root) else None)"
| "insertNested root (p # q # ps) val =
     (case map_of root p of
        None \<Rightarrow> map_option (\<lambda>m. AList.update p (JObj m) root) (insertNested [] (q # ps) val)
      | Some (JObj m) \<Rightarrow> map_option (\<lambda>m'. AList.update p (JObj m') root) (insertNested m (q # ps) val)
      | Some _ \<Rightarrow> None)"

abbreviation dotted :: "string \<Rightarrow> bool" where "dotted k \<equiv> CHR ''.'' \<in> set k"

definition nest_step :: "(string \<times> json) list \<Rightarrow> string \<times> json \<Rightarrow> (string \<times> json) list" where
  "nest_step out kv =
     (case insertNested out (split_char (CHR ''.'') (fst kv)) (snd kv) of
        Some out' \<Rightarrow> out' | None \<Rightarrow> AList.update (fst kv) (snd kv) out)"

definition nestDottedKeys :: "(string \<times> json) list \<Rightarrow> (string \<times> json) list" where
  "nestDottedKeys flat =
     foldl nest_step (filter (\<lambda>kv. \<not> dotted (fst kv)) flat) (filter (\<lambda>kv. dotted (fst kv)) flat)"

fun lookup_path :: "(string \<times> json) list \<Rightarrow> string list \<Rightarrow> json option" where
  "lookup_path root [] = None"
| "lookup_path root [p] = map_of root p"
| "lookup_path root (p # q # ps) = (case map_of root p of Some (JObj m) \<Rightarrow> lookup_path m (q # ps) | _ \<Rightarrow> None)"

section \<open>The body\<close>

record rest_defaults =
  rd_base_url :: string
  rd_headers :: "(string \<times> string) list"
  rd_content_type :: string
  rd_nest_body_keys :: bool
  rd_max_body_sizes :: "(string \<times> int) list"

definition effectiveNestBodyKeys :: "rest_defaults \<Rightarrow> http_tool \<Rightarrow> bool" where
  "effectiveNestBodyKeys rd tool = (case ht_nest_body_keys tool of Some b \<Rightarrow> b | None \<Rightarrow> rd_nest_body_keys rd)"

definition effectiveContentType :: "rest_defaults \<Rightarrow> http_tool \<Rightarrow> string" where
  "effectiveContentType rd tool = (if ht_content_type tool \<noteq> [] then ht_content_type tool else rd_content_type rd)"

definition maxUploadBytes :: int where "maxUploadBytes = 100 * 1024 * 1024"

definition effectiveMaxBodySize :: "rest_defaults \<Rightarrow> http_tool \<Rightarrow> int" where
  "effectiveMaxBodySize rd tool =
     (if ht_max_body_size tool = [] then maxUploadBytes
      else case map_of (rd_max_body_sizes rd) (ht_max_body_size tool) of Some l \<Rightarrow> l | None \<Rightarrow> maxUploadBytes)"

definition body_entry :: "args \<Rightarrow> string \<times> param_def \<Rightarrow> (string \<times> json) list" where
  "body_entry params nd =
     (if pd_in (snd nd) \<noteq> ''body'' then []
      else case map_of params (fst nd) of
          Some v \<Rightarrow> [(fst nd, v)]
        | None \<Rightarrow> (case pd_default (snd nd) of Some d \<Rightarrow> [(fst nd, d)] | None \<Rightarrow> []))"

definition flat_body :: "http_tool \<Rightarrow> args \<Rightarrow> (string \<times> json) list" where
  "flat_body tool params = concat (map (body_entry params) (rt_params tool))"

text \<open>What the object a parameter was given as holds once the nested body is built: it sits in the body itself.\<close>

definition final_value :: "(string \<times> json) list \<Rightarrow> string \<Rightarrow> json \<Rightarrow> json" where
  "final_value out k v =
     (case map_of out k of
        Some w \<Rightarrow> w
      | None \<Rightarrow> (case lookup_path out (split_char (CHR ''.'') k) of Some w \<Rightarrow> w | None \<Rightarrow> v))"

definition body_params :: "http_tool \<Rightarrow> string set" where
  "body_params tool = {n \<in> fst ` set (rt_params tool). map_option pd_in (map_of (rt_params tool) n) = Some ''body''}"

definition written_args :: "http_tool \<Rightarrow> args \<Rightarrow> (string \<times> json) list \<Rightarrow> args" where
  "written_args tool params out = map (\<lambda>(n, v). (n, if n \<in> body_params tool then final_value out n v else v)) params"

definition written_defaults :: "http_tool \<Rightarrow> args \<Rightarrow> (string \<times> json) list \<Rightarrow> http_tool" where
  "written_defaults tool params out =
     tool\<lparr>rt_params := map (\<lambda>(n, d). (n, if pd_in d = ''body'' \<and> map_of params n = None
         then d\<lparr>pd_default := map_option (final_value out n) (pd_default d)\<rparr> else d)) (rt_params tool)\<rparr>"

definition buildBody :: "rest_defaults \<Rightarrow> http_tool \<Rightarrow> args \<Rightarrow> (string \<times> json) list option \<times> http_tool \<times> args" where
  "buildBody rd tool params =
     (let body = flat_body tool params
      in if body = [] then (None, tool, params)
         else if effectiveNestBodyKeys rd tool then
           (let out = nestDottedKeys body in (Some out, written_defaults tool params out, written_args tool params out))
         else (Some body, tool, params))"

section \<open>Form encoding and size\<close>

text \<open>The calls of \<open>vals.Set\<close>, in order.\<close>

fun flattenFormValues :: "scalar_format \<Rightarrow> string \<Rightarrow> json \<Rightarrow> (string \<times> string) list"
  and form_fields :: "scalar_format \<Rightarrow> string \<Rightarrow> (string \<times> json) list \<Rightarrow> (string \<times> string) list"
  and form_items :: "scalar_format \<Rightarrow> string \<Rightarrow> nat \<Rightarrow> json list \<Rightarrow> (string \<times> string) list" where
  "flattenFormValues sf prefix (JObj m) = form_fields sf prefix m"
| "flattenFormValues sf prefix (JArr xs) = form_items sf prefix 0 xs"
| "flattenFormValues sf prefix JNull = []"
| "flattenFormValues sf prefix (JBool b) = [(prefix, formatScalarParam sf (JBool b))]"
| "flattenFormValues sf prefix (JNum n) = [(prefix, formatScalarParam sf (JNum n))]"
| "flattenFormValues sf prefix (JStr t) = [(prefix, formatScalarParam sf (JStr t))]"
| "form_fields sf prefix [] = []"
| "form_fields sf prefix ((k, c) # m) =
     flattenFormValues sf (if prefix \<noteq> [] then prefix @ ''['' @ k @ '']'' else k) c @ form_fields sf prefix m"
| "form_items sf prefix i [] = []"
| "form_items sf prefix i (c # xs) = flattenFormValues sf (prefix @ ''['' @ itoa i @ '']'') c @ form_items sf prefix (Suc i) xs"

definition encode_values :: "(string \<times> string) list \<Rightarrow> string" where
  "encode_values vals = join (map (\<lambda>(k, v). query_escape k @ ''='' @ query_escape v) (sort_key fst vals)) ''&''"

definition buildFormEncoded :: "scalar_format \<Rightarrow> (string \<times> json) list \<Rightarrow> string" where
  "buildFormEncoded sf body =
     encode_values (foldl (\<lambda>vals (k, v). AList.update k v vals) [] (flattenFormValues sf [] (JObj body)))"

definition FormatByteSize :: "int \<Rightarrow> string" where
  "FormatByteSize n =
     (if 1073741824 \<le> n \<and> n mod 1073741824 = 0 then itoa_int (n div 1073741824) @ ''GB''
      else if 1048576 \<le> n \<and> n mod 1048576 = 0 then itoa_int (n div 1048576) @ ''MB''
      else if 1024 \<le> n \<and> n mod 1024 = 0 then itoa_int (n div 1024) @ ''KB''
      else itoa_int n @ '' bytes'')"

definition checkBodySize :: "int \<Rightarrow> int \<Rightarrow> request_error option" where
  "checkBodySize n limit = (if n \<le> limit then None else Some (BodyTooLarge (FormatByteSize n) (FormatByteSize limit)))"

section \<open>Nothing is lost by nesting\<close>

text \<open>A value extends another when it is the same, or an object that has all its fields, with values that extend them.\<close>

inductive extends :: "json \<Rightarrow> json \<Rightarrow> bool" where
  same: "extends v v"
| more: "(\<And>k x. map_of m k = Some x \<Longrightarrow> \<exists>y. map_of m' k = Some y \<and> extends x y) \<Longrightarrow> extends (JObj m) (JObj m')"

inductive_cases extends_JObjE: "extends (JObj m) w"

lemma extends_field:
  "extends (JObj m) w \<Longrightarrow> map_of m k = Some x \<Longrightarrow> \<exists>m' y. w = JObj m' \<and> map_of m' k = Some y \<and> extends x y"
  by (erule extends_JObjE) (auto intro: extends.same)

lemma extends_trans: "extends a b \<Longrightarrow> extends b c \<Longrightarrow> extends a c"
proof (induction arbitrary: c rule: extends.induct)
  case (more m m')
  from more.prems show ?case
  proof (rule extends_JObjE)
    assume c: "c = JObj m'"
    have "extends (JObj m) (JObj m')" by (rule extends.more) (use more.IH in blast)
    then show ?thesis by (simp add: c)
  next
    fix m''
    assume c: "c = JObj m''" and sub: "\<And>k x. map_of m' k = Some x \<Longrightarrow> \<exists>y. map_of m'' k = Some y \<and> extends x y"
    have "extends (JObj m) (JObj m'')" by (rule extends.more) (use more.IH sub in blast)
    then show ?thesis by (simp add: c)
  qed
qed

lemma extends_update:
  "(\<And>x. map_of m k = Some x \<Longrightarrow> extends x v) \<Longrightarrow> extends (JObj m) (JObj (AList.update k v m))"
  by (rule extends.more) (auto simp: update_conv' intro: extends.same)

lemma keys_update: "fst ` set (AList.update k v m) = insert k (fst ` set m)"
  by (induction m) auto

lemma insertNested_extends:
  "insertNested root ps val = Some root' \<Longrightarrow>
   extends (JObj root) (JObj root') \<and> lookup_path root' ps = Some val \<and> fst ` set root' = insert (hd ps) (fst ` set root)"
proof (induction root ps val arbitrary: root' rule: insertNested.induct)
  case (2 root leaf val)
  then have r: "map_of root leaf = None" "root' = AList.update leaf val root" by (simp_all split: if_splits)
  then have "extends (JObj root) (JObj root')" by (auto intro: extends_update)
  then show ?case using r by (simp add: update_conv' keys_update)
next
  case (3 root p q ps val)
  show ?case
  proof (cases "map_of root p")
    case None
    then obtain m where "insertNested [] (q # ps) val = Some m" "root' = AList.update p (JObj m) root" using 3(3) by auto
    moreover from this have "extends (JObj root) (JObj root')" using None by (auto intro: extends_update)
    ultimately show ?thesis using None 3(1) [OF None, of m] by (simp add: update_conv' keys_update)
  next
    case (Some j)
    then obtain m m' where j: "j = JObj m" "insertNested m (q # ps) val = Some m'" "root' = AList.update p (JObj m') root"
      using 3(3) by (auto split: json.splits)
    have IH: "extends (JObj m) (JObj m')" "lookup_path m' (q # ps) = Some val" using 3(2) [OF Some j(1,2)] by auto
    have "extends (JObj root) (JObj root')" unfolding j(3) by (rule extends_update) (use Some j(1) IH(1) in simp)
    then show ?thesis using j(3) IH(2) by (simp add: update_conv' keys_update)
  qed
qed simp

lemma lookup_extends:
  "lookup_path r ps = Some v \<Longrightarrow> extends (JObj r) (JObj r') \<Longrightarrow> \<exists>w. lookup_path r' ps = Some w \<and> extends v w"
proof (induction r ps arbitrary: r' rule: lookup_path.induct)
  case (2 root p)
  then show ?case using extends_field by fastforce
next
  case (3 root p q ps)
  then obtain m where m: "map_of root p = Some (JObj m)" "lookup_path m (q # ps) = Some v"
    by (auto split: option.splits json.splits)
  from extends_field [OF 3(3) m(1)] obtain y where y: "map_of r' p = Some y" "extends (JObj m) y" by auto
  then obtain m' where "y = JObj m'" by (auto elim: extends_JObjE)
  then show ?case using 3(1) [OF m(1) refl m(2)] y by auto
qed simp

definition present :: "(string \<times> json) list \<Rightarrow> string \<Rightarrow> json \<Rightarrow> bool" where
  "present out k v \<longleftrightarrow> (\<exists>w. (lookup_path out (split_char (CHR ''.'') k) = Some w \<or> map_of out k = Some w) \<and> extends v w)"

lemma present_extends:
  assumes "present out k v" and "extends (JObj out) (JObj out')"
  shows "present out' k v"
proof -
  obtain w where w: "lookup_path out (split_char (CHR ''.'') k) = Some w \<or> map_of out k = Some w" "extends v w"
    using assms(1) by (auto simp: present_def)
  then obtain w' where "lookup_path out' (split_char (CHR ''.'') k) = Some w' \<or> map_of out' k = Some w'" "extends w w'"
    using lookup_extends [OF _ assms(2)] extends_field [OF assms(2)] by blast
  then show ?thesis using w(2) extends_trans by (auto simp: present_def)
qed

lemma hd_split_no_dot: "\<not> dotted (hd (split_char (CHR ''.'') k))"
proof (induction k)
  case (Cons c k)
  then show ?case using split_char_nonempty [of "CHR ''.''" k] by (cases "split_char (CHR ''.'') k") auto
qed simp

lemma nest_step_cases:
  assumes "map_of out k = None"
  shows "extends (JObj out) (JObj (nest_step out (k, v))) \<and> present (nest_step out (k, v)) k v \<and>
    (\<exists>k1. fst ` set (nest_step out (k, v)) = insert k1 (fst ` set out) \<and> (k1 = k \<or> \<not> dotted k1))"
proof (cases "insertNested out (split_char (CHR ''.'') k) v")
  case None
  then have step: "nest_step out (k, v) = AList.update k v out" by (simp add: nest_step_def)
  have "map_of (AList.update k v out) k = Some v" by (simp add: update_conv')
  then have "present (AList.update k v out) k v" unfolding present_def using extends.same by blast
  moreover have "extends (JObj out) (JObj (AList.update k v out))" by (rule extends_update) (simp add: assms)
  ultimately show ?thesis unfolding step by (auto simp: keys_update)
next
  case (Some out')
  then have step: "nest_step out (k, v) = out'" by (simp add: nest_step_def)
  note e = insertNested_extends [OF Some]
  then have "present out' k v" unfolding present_def using extends.same by blast
  then show ?thesis unfolding step using e hd_split_no_dot by blast
qed

lemma nest_fold:
  "distinct (map fst kvs) \<Longrightarrow> (\<And>k v. (k, v) \<in> set kvs \<Longrightarrow> dotted k \<and> map_of out k = None) \<Longrightarrow>
   extends (JObj out) (JObj (foldl nest_step out kvs)) \<and> (\<forall>k v. (k, v) \<in> set kvs \<longrightarrow> present (foldl nest_step out kvs) k v)"
proof (induction kvs arbitrary: out)
  case Nil
  then show ?case by (simp add: extends.same)
next
  case (Cons kv kvs)
  obtain k v where kv: "kv = (k, v)" by (cases kv)
  have "map_of out k = None" using Cons.prems(2) kv by auto
  note step = nest_step_cases [OF this, of v, folded kv]
  have fresh: "dotted k' \<and> map_of (nest_step out kv) k' = None" if "(k', v') \<in> set kvs" for k' v'
  proof -
    have "k' \<noteq> k" using Cons.prems(1) kv that by (force simp: image_iff)
    moreover have "dotted k'" "k' \<notin> fst ` set out" using Cons.prems(2) [of k' v'] that by (auto simp: map_of_eq_None_iff)
    ultimately show ?thesis using step by (auto simp: map_of_eq_None_iff)
  qed
  have IH: "extends (JObj (nest_step out kv)) (JObj (foldl nest_step (nest_step out kv) kvs)) \<and>
      (\<forall>k v. (k, v) \<in> set kvs \<longrightarrow> present (foldl nest_step (nest_step out kv) kvs) k v)"
    using Cons.IH [of "nest_step out kv"] Cons.prems(1) fresh by auto
  then have "extends (JObj (nest_step out kv)) (JObj (foldl nest_step (nest_step out kv) kvs))" by blast
  then have "extends (JObj out) (JObj (foldl nest_step out (kv # kvs)))" "present (foldl nest_step out (kv # kvs)) k v"
    using step extends_trans present_extends by auto
  then show ?case using IH kv by auto
qed

text \<open>Nesting dotted keys drops nothing: every field of the flat body is found in the nested one, at the place
  its name describes or under its literal name, with its value, to which later keys may have added fields.\<close>

theorem nest_loses_nothing:
  assumes "distinct (map fst flat)" and "(k, v) \<in> set flat"
  shows "\<exists>w. (lookup_path (nestDottedKeys flat) (split_char (CHR ''.'') k) = Some w \<or> map_of (nestDottedKeys flat) k = Some w) \<and>
    extends v w"
proof -
  let ?plain = "filter (\<lambda>kv. \<not> dotted (fst kv)) flat" and ?dotted = "filter (\<lambda>kv. dotted (fst kv)) flat"
  have d: "distinct (map fst ?dotted)" "distinct (map fst ?plain)" using assms(1) by (simp_all add: distinct_filter_keys)
  have none: "dotted k' \<and> map_of ?plain k' = None" if "(k', v') \<in> set ?dotted" for k' v'
    using that by (auto simp: map_of_eq_None_iff)
  have fold: "extends (JObj ?plain) (JObj (foldl nest_step ?plain ?dotted))"
    "\<forall>k v. (k, v) \<in> set ?dotted \<longrightarrow> present (foldl nest_step ?plain ?dotted) k v"
    using nest_fold [of ?dotted ?plain] d(1) none by blast+
  show ?thesis
  proof (cases "dotted k")
    case True
    then have "present (nestDottedKeys flat) k v" using fold(2) assms(2) unfolding nestDottedKeys_def by simp
    then show ?thesis by (simp add: present_def)
  next
    case False
    then have "map_of ?plain k = Some v" using d(2) assms(2) by simp
    then have "present ?plain k v" unfolding present_def using extends.same by blast
    then have "present (nestDottedKeys flat) k v" using present_extends fold(1) unfolding nestDottedKeys_def by blast
    then show ?thesis by (simp add: present_def)
  qed
qed

theorem nest_loses_nothing_witness:
  "lookup_path (nestDottedKeys [(''gw.mon'', JNum ''1''), (''gw'', JObj [])]) [''gw'', ''mon''] = Some (JNum ''1'') \<and>
   (\<exists>w. (lookup_path (nestDottedKeys [(''gw.mon'', JNum ''1''), (''gw'', JObj [])]) (split_char (CHR ''.'') ''gw'') = Some w \<or>
         map_of (nestDottedKeys [(''gw.mon'', JNum ''1''), (''gw'', JObj [])]) ''gw'' = Some w) \<and> extends (JObj []) w)"
  using nest_loses_nothing [of "[(''gw.mon'', JNum ''1''), (''gw'', JObj [])]" "''gw''" "JObj []"]
  by (simp add: nestDottedKeys_def nest_step_def)

section \<open>Objects shared with the caller and the tool\<close>

lemma split_two: "\<not> dotted g \<Longrightarrow> \<not> dotted m \<Longrightarrow> split_char (CHR ''.'') (g @ ''.'' @ m) = [g, m]"
  using split_line [of "CHR ''.''" g m] split_char_none [of "CHR ''.''" m] by simp

lemma nest_two:
  assumes "\<not> dotted g" and "\<not> dotted m" and "map_of d m = None"
  shows "nestDottedKeys [(g, JObj d), (g @ ''.'' @ m, v)] = [(g, JObj (AList.update m v d))]"
  using assms split_two [OF assms(1,2)] by (simp add: nestDottedKeys_def nest_step_def)

lemma nest_collision:
  assumes "\<not> dotted g" and "\<not> dotted m" and "map_of d m \<noteq> None"
  shows "nestDottedKeys [(g, JObj d), (g @ ''.'' @ m, v)] = [(g, JObj d), (g @ ''.'' @ m, v)]"
proof -
  have "g \<noteq> g @ ''.'' @ m" by (metis append_self_conv list.distinct(1) append_is_Nil_conv)
  then show ?thesis using assms split_two [OF assms(1,2)] by (auto simp: nestDottedKeys_def nest_step_def)
qed

text \<open>C40: When dotted keys are nested, a call's argument is written into the declared default of the tool: a
  parameter whose default is an object, and a dotted one that names a field of it. The next call, which gives neither, sends
  the argument of the call before it.\<close>

theorem argument_leaks_into_default:
  assumes "rt_params tool = [(g, dg), (g @ ''.'' @ m, dm)]" and "pd_in dg = ''body''" and "pd_in dm = ''body''"
    and "pd_default dg = Some (JObj d)" and "pd_default dm = None" and "effectiveNestBodyKeys rd tool"
    and "\<not> dotted g" and "\<not> dotted m" and "map_of d m = None"
  shows "fst (buildBody rd tool []) = Some [(g, JObj d)] \<and>
    (let (body, tool', params') = buildBody rd tool [(g @ ''.'' @ m, v)]
     in body = Some [(g, JObj (AList.update m v d))] \<and> fst (buildBody rd tool' []) = Some [(g, JObj (AList.update m v d))])"
proof -
  have flat: "flat_body tool [] = [(g, JObj d)]" "flat_body tool [(g @ ''.'' @ m, v)] = [(g, JObj d), (g @ ''.'' @ m, v)]"
    using assms(1-5) by (simp_all add: flat_body_def body_entry_def)
  have plain: "nestDottedKeys [(g, x)] = [(g, x)]" for x using assms(7) by (simp add: nestDottedKeys_def)
  let ?out = "[(g, JObj (AList.update m v d))]"
  let ?tool' = "written_defaults tool [(g @ ''.'' @ m, v)] ?out"
  have f: "final_value ?out g (JObj d) = JObj (AList.update m v d)" by (simp add: final_value_def)
  have "flat_body ?tool' [] = [(g, JObj (AList.update m v d))]"
    using assms(1-5) f by (simp add: flat_body_def body_entry_def written_defaults_def)
  moreover have "effectiveNestBodyKeys rd ?tool'" using assms(6) by (simp add: effectiveNestBodyKeys_def written_defaults_def)
  ultimately show ?thesis using flat plain nest_two [OF assms(7-9)] assms(6) by (simp add: buildBody_def Let_def)
qed

definition gateway_tool :: http_tool where
  "gateway_tool = sample_tool\<lparr>rt_params :=
     [(''gw'', \<lparr>pd_type = ''object'', pd_in = ''body'', pd_required = False, pd_default = Some (JObj [(''name'', JStr ''wan'')])\<rparr>),
      (''gw.mon'', \<lparr>pd_type = ''string'', pd_in = ''body'', pd_required = False, pd_default = None\<rparr>)],
     ht_nest_body_keys := Some True\<rparr>"

definition no_defaults :: rest_defaults where
  "no_defaults = \<lparr>rd_base_url = [], rd_headers = [], rd_content_type = [], rd_nest_body_keys = False, rd_max_body_sizes = []\<rparr>"

theorem argument_leaks_into_default_witness:
  "fst (buildBody no_defaults gateway_tool []) = Some [(''gw'', JObj [(''name'', JStr ''wan'')])] \<and>
   fst (buildBody no_defaults (fst (snd (buildBody no_defaults gateway_tool [(''gw.mon'', JStr ''10.0.0.1'')]))) []) =
     Some [(''gw'', JObj [(''name'', JStr ''wan''), (''mon'', JStr ''10.0.0.1'')])]"
  using argument_leaks_into_default [of gateway_tool "''gw''"
      "\<lparr>pd_type = ''object'', pd_in = ''body'', pd_required = False, pd_default = Some (JObj [(''name'', JStr ''wan'')])\<rparr>" "''mon''"
      "\<lparr>pd_type = ''string'', pd_in = ''body'', pd_required = False, pd_default = None\<rparr>" "[(''name'', JStr ''wan'')]" no_defaults
      "JStr ''10.0.0.1''"]
  by (simp add: gateway_tool_def effectiveNestBodyKeys_def case_prod_beta)

text \<open>Which of two dotted keys in conflict is nested depends on the order of the map.\<close>

lemma nesting_depends_on_order:
  "nestDottedKeys [(''a.b'', JNum ''1''), (''a.b.c'', JNum ''2'')] = [(''a'', JObj [(''b'', JNum ''1'')]), (''a.b.c'', JNum ''2'')]"
  "nestDottedKeys [(''a.b.c'', JNum ''2''), (''a.b'', JNum ''1'')] = [(''a'', JObj [(''b'', JObj [(''c'', JNum ''2'')])]), (''a.b'', JNum ''1'')]"
  by (simp_all add: nestDottedKeys_def nest_step_def)

text \<open>A retry of one call, or its next page, sends another body: the object given for \<open>g\<close> has the field already, so the
  dotted key is kept as well.\<close>

theorem retry_sends_other_body:
  assumes "rt_params tool = [(g, dg), (g @ ''.'' @ m, dm)]" and "pd_in dg = ''body''" and "pd_in dm = ''body''"
    and "effectiveNestBodyKeys rd tool" and "\<not> dotted g" and "\<not> dotted m" and "map_of d m = None"
  shows "let (body, tool', params') = buildBody rd tool [(g, JObj d), (g @ ''.'' @ m, v)]
    in body = Some [(g, JObj (AList.update m v d))] \<and>
       fst (buildBody rd tool' params') = Some [(g, JObj (AList.update m v d)), (g @ ''.'' @ m, v)]"
proof -
  let ?n = "g @ ''.'' @ m" and ?out = "[(g, JObj (AList.update m v d))]"
  have flat: "flat_body tool [(g, JObj d), (?n, v)] = [(g, JObj d), (?n, v)]"
    using assms(1-3) by (simp add: flat_body_def body_entry_def)
  have b: "g \<in> body_params tool" "?n \<in> body_params tool"
    using assms(1-3) by (auto simp: body_params_def)
  have f: "final_value ?out g (JObj d) = JObj (AList.update m v d)" "final_value ?out ?n v = v"
    using split_two [OF assms(5,6)] by (simp_all add: final_value_def update_conv')
  have p: "written_args tool [(g, JObj d), (?n, v)] ?out = [(g, JObj (AList.update m v d)), (?n, v)]"
    using b f by (simp add: written_args_def)
  have t: "written_defaults tool [(g, JObj d), (?n, v)] ?out = tool"
    using assms(1) by (cases tool) (simp add: written_defaults_def)
  have "flat_body tool [(g, JObj (AList.update m v d)), (?n, v)] = [(g, JObj (AList.update m v d)), (?n, v)]"
    using assms(1-3) by (simp add: flat_body_def body_entry_def)
  then show ?thesis
    using flat p t nest_two [OF assms(5-7), of v] nest_collision [OF assms(5,6), of "AList.update m v d" v] assms(4)
    by (simp add: buildBody_def Let_def update_conv')
qed

end
