(* ===== verification/RestRequest.thy ===== *)
theory RestRequest
  imports RestBody
begin

text \<open>
  A whole REST request (\<open>applyHeaderParams\<close>, \<open>buildRequestBody\<close>, \<open>buildHTTPRequest\<close> of
  \<open>internal/backend/restadapter.go\<close>). Files that are fetched or read for a body, JSON encoding, the checks of
  \<open>http.NewRequest\<close> and the injection of the credential are parameters; the world they act on is a type variable.
\<close>

section \<open>Headers\<close>

text \<open>\<open>textproto.CanonicalMIMEHeaderKey\<close>: unchanged unless every byte may stand in a header name.\<close>

definition token_char :: "char \<Rightarrow> bool" where
  "token_char c \<longleftrightarrow>
     (let b = byte_of c :: nat in (97 \<le> b \<and> b \<le> 122) \<or> (65 \<le> b \<and> b \<le> 90) \<or> (48 \<le> b \<and> b \<le> 57)) \<or>
     c \<in> set [CHR ''!'', CHR ''#'', CHR ''$'', CHR ''%'', CHR ''&'', CHR 0x27, CHR ''*'', CHR ''+'', CHR ''-'', CHR ''.'',
       CHR ''^'', CHR ''_'', CHR 0x60, CHR ''|'', CHR ''~'']"

definition ascii_upper :: "char \<Rightarrow> char" where
  "ascii_upper c = (let b = byte_of c :: nat in if 97 \<le> b \<and> b \<le> 122 then char_of (b - 32) else c)"

definition ascii_lower :: "char \<Rightarrow> char" where
  "ascii_lower c = (let b = byte_of c :: nat in if 65 \<le> b \<and> b \<le> 90 then char_of (b + 32) else c)"

fun canonicalize :: "bool \<Rightarrow> string \<Rightarrow> string" where
  "canonicalize up [] = []"
| "canonicalize up (c # s) = (if up then ascii_upper c else ascii_lower c) # canonicalize (c = CHR ''-'') s"

definition CanonicalMIMEHeaderKey :: "string \<Rightarrow> string" where
  "CanonicalMIMEHeaderKey s = (if list_all token_char s then canonicalize True s else s)"

type_synonym headers = "(string \<times> string) list"

definition header_Set :: "string \<Rightarrow> string \<Rightarrow> headers \<Rightarrow> headers" where
  "header_Set k v hs = AList.update (CanonicalMIMEHeaderKey k) v hs"

definition header_Get :: "string \<Rightarrow> headers \<Rightarrow> string" where
  "header_Get k hs = (case map_of hs (CanonicalMIMEHeaderKey k) of Some v \<Rightarrow> v | None \<Rightarrow> [])"

definition reservedHeaderParams :: "string list" where
  "reservedHeaderParams = [''content-type'', ''authorization'']"

fun applyHeaderParams ::
  "case_tables \<Rightarrow> scalar_format \<Rightarrow> args \<Rightarrow> (string \<times> param_def) list \<Rightarrow> headers \<Rightarrow> (request_error, headers) result" where
  "applyHeaderParams ct sf params [] hs = Inr hs"
| "applyHeaderParams ct sf params ((name, def) # ds) hs =
     (if pd_in def \<noteq> ''header'' \<or> to_lower ct name \<in> set reservedHeaderParams then applyHeaderParams ct sf params ds hs
      else case supplied_value params (name, def) of
          None \<Rightarrow> if pd_required def then Inl (MissingHeaderParam name) else applyHeaderParams ct sf params ds hs
        | Some v \<Rightarrow>
            (let str = formatScalarParam sf v
             in if str = [] then (if pd_required def then Inl (EmptyHeaderParam name) else applyHeaderParams ct sf params ds hs)
                else applyHeaderParams ct sf params ds (header_Set name str hs)))"

section \<open>The request\<close>

datatype 'b request_body = Bytes string | Streamed 'b

record 'b rest_request =
  hq_method :: string
  hq_url :: string
  hq_headers :: headers
  hq_body :: "'b request_body option"
  hq_length :: "int option"

type_synonym 'b built_body = "'b request_body option \<times> string \<times> int"

record ('w, 'b) request_lib =
  rl_case :: case_tables
  rl_format :: scalar_format
  rl_urls :: url_lib
  rl_marshal :: "json \<Rightarrow> (string, string) result"
  rl_raw_file :: "http_tool \<Rightarrow> args \<Rightarrow> int \<Rightarrow> 'w \<Rightarrow> (string, 'b built_body) result \<times> 'w"
  rl_multipart :: "http_tool \<Rightarrow> args \<Rightarrow> int \<Rightarrow> 'w \<Rightarrow> (string, 'b \<times> string) result \<times> 'w"
  rl_check :: "string \<Rightarrow> string \<Rightarrow> string option"
  rl_auth :: "'b rest_request \<Rightarrow> 'w \<Rightarrow> (string, 'b rest_request) result \<times> 'w"

definition hasFileURLParams :: "http_tool \<Rightarrow> bool" where
  "hasFileURLParams tool = list_ex (\<lambda>(_, d). pd_type d = ''file_url'' \<and> pd_in d = ''body'') (rt_params tool)"

definition hasFileParams :: "http_tool \<Rightarrow> bool" where
  "hasFileParams tool = list_ex (\<lambda>(_, d). pd_type d = ''file'') (rt_params tool)"

definition form_type :: string where "form_type = ''application/x-www-form-urlencoded''"
definition contentTypeJSON :: string where "contentTypeJSON = ''application/json''"

text \<open>A body in memory: nothing when there are no body fields, else the encoded bytes within the limit.\<close>

definition encode_body ::
  "('w, 'b) request_lib \<Rightarrow> rest_defaults \<Rightarrow> http_tool \<Rightarrow> (string \<times> json) list option \<Rightarrow> (request_error, 'b built_body) result" where
  "encode_body rl rd tool data =
     (case data of
        None \<Rightarrow> Inr (None, [], -1)
      | Some body \<Rightarrow>
          bind_res (if effectiveContentType rd tool = form_type then Inr (buildFormEncoded (rl_format rl) body)
                    else case rl_marshal rl (JObj body) of Inl e \<Rightarrow> Inl (BodyError e) | Inr t \<Rightarrow> Inr t)
            (\<lambda>bytes. case checkBodySize (int (length bytes)) (effectiveMaxBodySize rd tool) of
                Some e \<Rightarrow> Inl e | None \<Rightarrow> Inr (Some (Bytes bytes), [], -1)))"

definition buildRequestBody ::
  "('w, 'b) request_lib \<Rightarrow> rest_defaults \<Rightarrow> http_tool \<Rightarrow> args \<Rightarrow> 'w \<Rightarrow>
     (request_error, 'b built_body) result \<times> http_tool \<times> args \<times> 'w" where
  "buildRequestBody rl rd tool params w =
     (let maxBody = effectiveMaxBodySize rd tool
      in if hasFileURLParams tool \<and> ht_content_type tool \<noteq> ''multipart/form-data'' then
           (let (r, w') = rl_raw_file rl tool params maxBody w
            in (case r of Inl e \<Rightarrow> Inl (BodyError e) | Inr b \<Rightarrow> Inr b, tool, params, w'))
         else if hasFileURLParams tool \<or> hasFileParams tool then
           (let (r, w') = rl_multipart rl tool params maxBody w
            in (case r of Inl e \<Rightarrow> Inl (BodyError (''build multipart body: '' @ e)) | Inr (b, ct) \<Rightarrow> Inr (Some (Streamed b), ct, -1),
                tool, params, w'))
         else (let (data, tool', params') = buildBody rd tool params in (encode_body rl rd tool data, tool', params', w)))"

text \<open>The Content-Type of a request: a multipart boundary or fetched file type wins; otherwise only a request with a body
  carries one.\<close>

definition set_content_type :: "rest_defaults \<Rightarrow> http_tool \<Rightarrow> string \<Rightarrow> bool \<Rightarrow> headers \<Rightarrow> headers" where
  "set_content_type rd tool override has_body hs =
     (if override \<noteq> [] then header_Set ''Content-Type'' override hs
      else if has_body then
        (if effectiveContentType rd tool \<noteq> [] then header_Set ''Content-Type'' (effectiveContentType rd tool) hs
         else if header_Get ''Content-Type'' hs = [] then header_Set ''Content-Type'' contentTypeJSON hs
         else hs)
      else hs)"

definition request_url :: "('w, 'b) request_lib \<Rightarrow> rest_defaults \<Rightarrow> http_tool \<Rightarrow> args \<Rightarrow> (request_error, string) result" where
  "request_url rl rd tool params =
     bind_res (bind_res (buildPath (rl_format rl) tool params) (joinURL (rl_urls rl) (rd_base_url rd)))
       (\<lambda>u. let q = buildQuery (rl_format rl) tool params in Inr (if q \<noteq> [] then u @ ''?'' @ q else u))"

definition buildHTTPRequest ::
  "('w, 'b) request_lib \<Rightarrow> rest_defaults \<Rightarrow> http_tool \<Rightarrow> args \<Rightarrow> 'w \<Rightarrow>
     (request_error, 'b rest_request) result \<times> http_tool \<times> args \<times> 'w" where
  "buildHTTPRequest rl rd tool params w =
     (case request_url rl rd tool params of
        Inl e \<Rightarrow> (Inl e, tool, params, w)
      | Inr url \<Rightarrow>
          (case buildRequestBody rl rd tool params w of
             (Inl e, tool', params', w') \<Rightarrow> (Inl e, tool', params', w')
           | (Inr (body, override, len), tool', params', w') \<Rightarrow>
               (let method = to_upper (rl_case rl) (rt_method tool)
                in case rl_check rl method url of
                     Some e \<Rightarrow> (Inl (BodyError (''create request: '' @ e)), tool', params', w')
                   | None \<Rightarrow>
                       (let hs = foldl (\<lambda>hs (k, v). header_Set k v hs) [] (rd_headers rd)
                        in case applyHeaderParams (rl_case rl) (rl_format rl) params (rt_params tool) hs of
                             Inl e \<Rightarrow> (Inl e, tool', params', w')
                           | Inr hs \<Rightarrow>
                               (let req = \<lparr>hq_method = method, hq_url = url,
                                      hq_headers = set_content_type rd tool override (body \<noteq> None) hs, hq_body = body,
                                      hq_length = (if 0 \<le> len then Some len else None)\<rparr>;
                                    (r, w'') = rl_auth rl req w'
                                in (case r of Inl e \<Rightarrow> Inl (AuthError e) | Inr req \<Rightarrow> Inr req, tool', params', w''))))))"

section \<open>Reserved headers\<close>

lemma byte_cases: "\<exists>b < 256. c = char_of (b :: nat)"
  using byte_less_256 [of c] by (metis char_of_char)

lemma lower_upper: "ascii_lower (ascii_upper c) = ascii_lower c" "ascii_lower (ascii_lower c) = ascii_lower c"
proof -
  obtain b :: nat where b: "c = char_of b" "b < 256" using byte_cases by blast
  show "ascii_lower (ascii_upper c) = ascii_lower c" "ascii_lower (ascii_lower c) = ascii_lower c"
    using b by (auto simp: ascii_lower_def ascii_upper_def Let_def)
qed

lemma lower_canonicalize: "map ascii_lower (canonicalize up s) = map ascii_lower s"
  by (induction up s rule: canonicalize.induct) (auto simp: lower_upper)

lemma lower_canonical_key: "map ascii_lower (CanonicalMIMEHeaderKey s) = map ascii_lower s"
  by (simp add: CanonicalMIMEHeaderKey_def lower_canonicalize)

lemma ascii_lower_byte:
  "byte_of (ascii_lower c) = (let r = byte_of c :: nat in if 65 \<le> r \<and> r \<le> 90 then r + 32 else r)"
  by (auto simp: ascii_lower_def Let_def)

lemma ascii_lower_ascii: "byte_of (ascii_lower c) < (128::nat) \<Longrightarrow> byte_of c < (128::nat)"
  by (auto simp: ascii_lower_byte Let_def split: if_splits)

lemma to_lower_ascii:
  assumes "list_all (\<lambda>c. byte_of c < (128::nat)) (map ascii_lower s)"
  shows "to_lower ct s = map ascii_lower s"
proof -
  have a: "list_all (\<lambda>c. byte_of c < (128::nat)) s" using assms by (auto simp: list_all_iff dest: ascii_lower_ascii)
  have r: "runes s = map byte_of s" using runes_of_ascii [OF a] by (simp add: runes_def comp_def)
  have "map (\<lambda>r. if r < 128 then if 65 \<le> r \<and> r \<le> 90 then r + 32 else r else lower_beyond_ascii ct r) (runes s)
      = map byte_of (map ascii_lower s)"
    using a unfolding r by (auto simp: list_all_iff ascii_lower_byte Let_def)
  then show ?thesis using ascii_of_runes [OF assms] by (simp add: to_lower_def)
qed

definition owned_headers :: "string list" where
  "owned_headers = [''Content-Type'', ''Authorization'']"

lemma reserved_name:
  assumes "CanonicalMIMEHeaderKey name \<in> set owned_headers"
  shows "to_lower ct name \<in> set reservedHeaderParams"
proof -
  have m: "map ascii_lower name \<in> map ascii_lower ` set owned_headers"
    using assms lower_canonical_key [of name] by (metis image_eqI)
  then have l: "map ascii_lower name \<in> set reservedHeaderParams"
    by (auto simp: owned_headers_def reservedHeaderParams_def ascii_lower_def char_of_def bit_0)
  then have "list_all (\<lambda>c. byte_of c < (128::nat)) (map ascii_lower name)"
    by (auto simp: reservedHeaderParams_def)
  then show ?thesis using to_lower_ascii l by metis
qed

lemma header_params_keep:
  "applyHeaderParams ct sf params ds hs = Inr hs' \<Longrightarrow> h \<in> set owned_headers \<Longrightarrow> map_of hs' h = map_of hs h"
proof (induction ct sf params ds hs rule: applyHeaderParams.induct)
  case (2 ct sf params name "def" ds hs)
  show ?case
  proof (cases "pd_in def \<noteq> ''header'' \<or> to_lower ct name \<in> set reservedHeaderParams")
    case True
    then show ?thesis using 2 by simp
  next
    case False
    then have "CanonicalMIMEHeaderKey name \<noteq> h" using reserved_name 2(6) by blast
    then show ?thesis using 2 False by (auto simp: Let_def header_Set_def update_conv' split: option.splits if_splits)
  qed
qed simp

section \<open>Properties\<close>

lemma canonical_owned: "CanonicalMIMEHeaderKey ''Content-Type'' = ''Content-Type''"
  by code_simp

text \<open>The Content-Type a request must carry: the override, else for a request with a body the declared type, else the one
  of the default headers, else JSON.\<close>

definition expected_content_type :: "rest_defaults \<Rightarrow> http_tool \<Rightarrow> string \<Rightarrow> bool \<Rightarrow> headers \<Rightarrow> string option" where
  "expected_content_type rd tool override has_body defaults =
     (if override \<noteq> [] then Some override
      else if \<not> has_body then map_of defaults ''Content-Type''
      else if effectiveContentType rd tool \<noteq> [] then Some (effectiveContentType rd tool)
      else case map_of defaults ''Content-Type'' of None \<Rightarrow> Some contentTypeJSON | Some t \<Rightarrow> if t = [] then Some contentTypeJSON else Some t)"

lemma set_content_type_expected:
  assumes "map_of hs ''Content-Type'' = map_of defaults ''Content-Type''"
  shows "map_of (set_content_type rd tool ov b hs) ''Content-Type'' = expected_content_type rd tool ov b defaults"
    and "map_of (set_content_type rd tool ov b hs) ''Authorization'' = map_of hs ''Authorization''"
  using assms by (auto simp: set_content_type_def expected_content_type_def header_Set_def header_Get_def canonical_owned
      update_conv' split: option.splits)


definition sample_lib :: "(unit, unit) request_lib" where
  "sample_lib = \<lparr>rl_case = \<lparr>lower_beyond_ascii = id, upper_beyond_ascii = id\<rparr>, rl_format = sample_format, rl_urls = sample_urls,
     rl_marshal = (\<lambda>_. Inr ''{}''), rl_raw_file = (\<lambda>_ _ _ w. (Inl ''none'', w)), rl_multipart = (\<lambda>_ _ _ w. (Inl ''none'', w)),
     rl_check = (\<lambda>_ _. None), rl_auth = (\<lambda>r w. (Inr (r\<lparr>hq_headers := header_Set ''authorization'' ''Bearer k'' (hq_headers r)\<rparr>), w))\<rparr>"

definition header_tool :: http_tool where
  "header_tool = sample_tool\<lparr>ht_path := ''/items'', rt_params :=
     [(''AUTHORIZATION'', \<lparr>pd_type = ''string'', pd_in = ''header'', pd_required = False, pd_default = None\<rparr>),
      (''x-trace'', \<lparr>pd_type = ''string'', pd_in = ''header'', pd_required = False, pd_default = None\<rparr>),
      (''name'', \<lparr>pd_type = ''string'', pd_in = ''body'', pd_required = False, pd_default = None\<rparr>)]\<rparr>"

abbreviation sample_args :: args where
  "sample_args \<equiv> [(''AUTHORIZATION'', JStr ''Bearer evil''), (''x-trace'', JStr ''7''), (''name'', JStr ''n'')]"

abbreviation sample_backend :: rest_defaults where
  "sample_backend \<equiv> no_defaults\<lparr>rd_base_url := ''https://api.example.com/v4''\<rparr>"

lemma sample_lower: "to_lower ct ''AUTHORIZATION'' = ''authorization''" "to_lower ct ''x-trace'' = ''x-trace''"
  by (subst to_lower_ascii; simp add: ascii_lower_def char_of_def bit_0)+

lemma sample_upper: "to_upper ct ''DELETE'' = ''DELETE''"
  by (simp add: to_upper_def runes_def runes_of_ascii of_runes_def encode_rune_def encode_valid_def valid_rune_def char_of_def bit_0)

lemma sample_canonical:
  "CanonicalMIMEHeaderKey ''x-trace'' = ''X-Trace''" "CanonicalMIMEHeaderKey ''authorization'' = ''Authorization''"
  by code_simp+

lemmas sample_names = sample_lower sample_upper sample_canonical

lemma sample_url: "request_url sample_lib sample_backend header_tool sample_args = Inr ''https://api.example.com/v4/items''"
  by code_simp

lemma sample_body:
  "buildRequestBody sample_lib sample_backend header_tool sample_args () =
   (Inr (Some (Bytes ''{}''), [], -1), header_tool, sample_args, ())"
  by code_simp

lemma sample_headers:
  "applyHeaderParams (rl_case sample_lib) (rl_format sample_lib) sample_args (rt_params header_tool) [] = Inr [(''X-Trace'', ''7'')]"
  by (simp add: header_tool_def sample_names reservedHeaderParams_def supplied_value_def formatScalarParam_def header_Set_def)

lemma sample_request:
  "buildHTTPRequest sample_lib sample_backend header_tool sample_args () =
   (Inr \<lparr>hq_method = ''DELETE'', hq_url = ''https://api.example.com/v4/items'',
      hq_headers = [(''X-Trace'', ''7''), (''Content-Type'', ''application/json''), (''Authorization'', ''Bearer k'')],
      hq_body = Some (Bytes ''{}''), hq_length = None\<rparr>, header_tool, sample_args, ())"
proof -
  have m: "rt_method header_tool = ''DELETE''" "rd_headers sample_backend = []" "effectiveContentType sample_backend header_tool = []"
    by (simp_all add: header_tool_def sample_tool_def no_defaults_def effectiveContentType_def)
  have "rl_check sample_lib x y = None" "rl_auth sample_lib r u = (Inr (r\<lparr>hq_headers := header_Set ''authorization'' ''Bearer k'' (hq_headers r)\<rparr>), u)"
    for x y r u by (simp_all add: sample_lib_def)
  then show ?thesis using sample_url sample_body sample_headers m
    by (simp add: buildHTTPRequest_def Let_def sample_names set_content_type_def header_Get_def header_Set_def canonical_owned contentTypeJSON_def)
qed


end
