(* ===== verification/ByteSize.thy ===== *)
theory ByteSize
  imports Health RestRequest
begin

text \<open>
  Size limits of request bodies: \<open>ParseByteSize\<close> of \<open>internal/dadl/bytesize.go\<close> and \<open>resolveMaxBodySizes\<close> of
  \<open>internal/backend/restadapter.go\<close>. Double-precision arithmetic is the parameter \<open>float_ops\<close>.
\<close>

definition byteSizeUnits :: "(string \<times> rat) list" where
  "byteSizeUnits =
     [('''', 1), (''B'', 1), (''K'', 1024), (''KB'', 1024), (''KIB'', 1024), (''M'', 1048576), (''MB'', 1048576),
      (''MIB'', 1048576), (''G'', 1073741824), (''GB'', 1073741824), (''GIB'', 1073741824)]"

datatype size_error = EmptySize | UnknownUnit string | InvalidNumber string | NotPositive | SizeTooLarge

definition number_char :: "char \<Rightarrow> bool" where
  "number_char c \<longleftrightarrow> is_digit c \<or> c = CHR ''.''"

definition ParseByteSize :: "case_tables \<Rightarrow> float_ops \<Rightarrow> string \<Rightarrow> (size_error, int) result" where
  "ParseByteSize ct fo s =
     (let trimmed = trim_space s;
          digits = takeWhile number_char trimmed;
          unit = to_upper ct (trim_space (dropWhile number_char trimmed))
      in if trimmed = [] then Inl EmptySize
         else case map_of byteSizeUnits unit of
             None \<Rightarrow> Inl (UnknownUnit unit)
           | Some factor \<Rightarrow>
               (case fo_parse fo digits of
                  None \<Rightarrow> Inl (InvalidNumber digits)
                | Some (Finite v) \<Rightarrow>
                    if v \<le> 0 then Inl NotPositive
                    else if fo_mul fo v factor > 2 ^ 63 then Inl SizeTooLarge
                    else Inr (to_int64 fo (Finite (fo_mul fo v factor)))
                | Some NegInf \<Rightarrow> Inl NotPositive
                | Some PosInf \<Rightarrow> Inl SizeTooLarge
                | Some NaN \<Rightarrow> Inr (to_int64 fo NaN)))"

datatype max_size_error = MaxBodySize string size_error

fun resolve_sizes ::
  "case_tables \<Rightarrow> float_ops \<Rightarrow> (string \<times> http_tool) list \<Rightarrow> (string \<times> int) list \<Rightarrow> (max_size_error, (string \<times> int) list) result" where
  "resolve_sizes ct fo [] sizes = Inr sizes"
| "resolve_sizes ct fo ((name, tool) # tools) sizes =
     (if ht_max_body_size tool = [] then resolve_sizes ct fo tools sizes
      else case ParseByteSize ct fo (ht_max_body_size tool) of
          Inl e \<Rightarrow> Inl (MaxBodySize name e)
        | Inr limit \<Rightarrow> resolve_sizes ct fo tools (AList.update (ht_max_body_size tool) (min limit maxUploadBytes) sizes))"

text \<open>The tools in the order of their names.\<close>

definition resolveMaxBodySizes ::
  "case_tables \<Rightarrow> float_ops \<Rightarrow> (string \<times> http_tool) list \<Rightarrow> (max_size_error, (string \<times> int) list) result" where
  "resolveMaxBodySizes ct fo tools = resolve_sizes ct fo (sort_key fst tools) []"

section \<open>Limits\<close>

definition limits_ok :: "case_tables \<Rightarrow> float_ops \<Rightarrow> (string \<times> int) list \<Rightarrow> bool" where
  "limits_ok ct fo sizes \<longleftrightarrow>
     (\<forall>d l. map_of sizes d = Some l \<longrightarrow> (\<exists>n. ParseByteSize ct fo d = Inr n \<and> l = min n maxUploadBytes))"

lemma resolve_sizes_ok:
  "resolve_sizes ct fo tools sizes = Inr sizes' \<Longrightarrow> limits_ok ct fo sizes \<Longrightarrow>
   limits_ok ct fo sizes' \<and> (\<forall>d. map_of sizes d \<noteq> None \<longrightarrow> map_of sizes' d \<noteq> None) \<and>
   (\<forall>(n, t) \<in> set tools. ht_max_body_size t \<noteq> [] \<longrightarrow> map_of sizes' (ht_max_body_size t) \<noteq> None)"
proof (induction ct fo tools sizes rule: resolve_sizes.induct)
  case (2 ct fo name tool tools sizes)
  show ?case
  proof (cases "ht_max_body_size tool = []")
    case True
    then show ?thesis using 2 by simp
  next
    case False
    then obtain l where l: "ParseByteSize ct fo (ht_max_body_size tool) = Inr l" using 2(3) by (auto split: sum.splits)
    let ?s = "AList.update (ht_max_body_size tool) (min l maxUploadBytes) sizes"
    have ok: "limits_ok ct fo ?s" using 2(4) l by (auto simp: limits_ok_def update_conv')
    have r: "resolve_sizes ct fo tools ?s = Inr sizes'" using 2(3) False l by simp
    have "map_of ?s (ht_max_body_size tool) \<noteq> None" "\<And>d. map_of sizes d \<noteq> None \<Longrightarrow> map_of ?s d \<noteq> None"
      by (simp_all add: update_conv')
    then show ?thesis using 2(2) [OF False l r ok] by auto
  qed
qed simp

lemma effective_limit:
  assumes "resolveMaxBodySizes ct fo tools = Inr sizes" and "(n, tool) \<in> set tools" and "ht_max_body_size tool \<noteq> []"
    and "rd_max_body_sizes rd = sizes"
  shows "\<exists>l. ParseByteSize ct fo (ht_max_body_size tool) = Inr l \<and> effectiveMaxBodySize rd tool = min l maxUploadBytes"
proof -
  have "limits_ok ct fo []" by (simp add: limits_ok_def)
  from resolve_sizes_ok [OF assms(1) [unfolded resolveMaxBodySizes_def] this]
  have "limits_ok ct fo sizes" "map_of sizes (ht_max_body_size tool) \<noteq> None" using assms(2,3) by auto
  then show ?thesis using assms(3,4) by (auto simp: limits_ok_def effectiveMaxBodySize_def)
qed

lemma encoded_within:
  "encode_body rl rd tool data = Inr (Some (Bytes b), ct, n) \<Longrightarrow> int (length b) \<le> effectiveMaxBodySize rd tool"
  by (auto simp: encode_body_def bind_res_Inr_iff checkBodySize_def split: option.splits if_splits sum.splits)

text \<open>C39: The JSON or form body of a request never exceeds the size its tool declares, nor the 100 MB of the
  runtime: once the sizes of all tools are read at load time, a body that is built is within both.\<close>

theorem body_within_declared_limit:
  assumes "resolveMaxBodySizes ct fo tools = Inr sizes" and "(n, tool) \<in> set tools" and "ht_max_body_size tool \<noteq> []"
    and "encode_body rl (rd\<lparr>rd_max_body_sizes := sizes\<rparr>) tool data = Inr (Some (Bytes b), ov, len)"
  shows "\<exists>l. ParseByteSize ct fo (ht_max_body_size tool) = Inr l \<and> int (length b) \<le> l \<and> int (length b) \<le> 100 * 1024 * 1024"
  using effective_limit [OF assms(1-3), of "rd\<lparr>rd_max_body_sizes := sizes\<rparr>"] encoded_within [OF assms(4)]
  by (auto simp: maxUploadBytes_def)

definition sample_floats :: float_ops where
  "sample_floats = \<lparr>fo_parse = (\<lambda>s. if s = ''1'' then Some (Finite 1) else None), fo_mul = (*), fo_of_int = of_int,
     fo_overflow = (\<lambda>_. - (2 ^ 63)), fo_layout = (\<lambda>_ _. None), fo_fraction = (\<lambda>_ _ _. 0)\<rparr>"

lemma upper_KB: "to_upper ct ''KB'' = ''KB''"
  by (simp add: to_upper_def runes_def runes_of_ascii of_runes_def encode_rune_def encode_valid_def valid_rune_def char_of_def bit_0)

lemma sample_size: "ParseByteSize ct sample_floats ''1KB'' = Inr 1024"
proof -
  have t: "trim_space ''1KB'' = ''1KB''" "takeWhile number_char ''1KB'' = ''1''" "trim_space (dropWhile number_char ''1KB'') = ''KB''"
    by code_simp+
  show ?thesis unfolding ParseByteSize_def Let_def t upper_KB
    by (simp add: byteSizeUnits_def sample_floats_def to_int64_def truncate_rat_def)
qed

definition limited_tool :: http_tool where
  "limited_tool = header_tool\<lparr>ht_max_body_size := ''1KB''\<rparr>"

theorem body_within_declared_limit_witness:
  "encode_body sample_lib (no_defaults\<lparr>rd_max_body_sizes := [(''1KB'', 1024)]\<rparr>) limited_tool (Some []) =
     Inr (Some (Bytes ''{}''), [], -1) \<and>
   (\<exists>l. ParseByteSize (rl_case sample_lib) sample_floats ''1KB'' = Inr l \<and> 2 \<le> l)"
proof -
  have d: "ht_max_body_size limited_tool = ''1KB''" by (simp add: limited_tool_def)
  have r: "resolveMaxBodySizes (rl_case sample_lib) sample_floats [(''t'', limited_tool)] = Inr [(''1KB'', 1024)]"
    using sample_size d by (simp add: resolveMaxBodySizes_def maxUploadBytes_def)
  have e: "encode_body sample_lib (no_defaults\<lparr>rd_max_body_sizes := [(''1KB'', 1024)]\<rparr>) limited_tool (Some []) =
     Inr (Some (Bytes ''{}''), [], -1)"
    by (simp add: encode_body_def effectiveContentType_def limited_tool_def header_tool_def sample_tool_def no_defaults_def
        form_type_def sample_lib_def checkBodySize_def effectiveMaxBodySize_def)
  show ?thesis using e body_within_declared_limit [OF r _ _ e] d by auto
qed

section \<open>Boundary sizes\<close>

text \<open>Sizes between zero and one byte are accepted as a limit of zero, which the parser means to reject; and a size of
  exactly two to the sixty-third passes the test for the largest representable count, so its conversion overflows.\<close>

lemma parse_fraction_of_byte:
  assumes "fo_parse fo ''0.5'' = Some (Finite (1 / 2))" and "fo_mul fo (1 / 2) 1 = 1 / 2"
  shows "ParseByteSize ct fo ''0.5'' = Inr 0"
proof -
  have "trim_space ''0.5'' = ''0.5''" "takeWhile number_char ''0.5'' = ''0.5''" "dropWhile number_char ''0.5'' = ''''"
    "trim_space '''' = ''''" "to_upper ct '''' = ''''"
    by (code_simp, code_simp, code_simp, code_simp) (simp add: to_upper_def runes_def of_runes_def)
  moreover have h: "\<lfloor>1 / 2 :: rat\<rfloor> = 0" by (rule floor_unique) simp_all
  ultimately show ?thesis unfolding ParseByteSize_def Let_def
    by (simp only:) (simp add: byteSizeUnits_def to_int64_def truncate_rat_def assms h)
qed

lemma upper_GB: "to_upper ct ''GB'' = ''GB''"
  by (simp add: to_upper_def runes_def runes_of_ascii of_runes_def encode_rune_def encode_valid_def valid_rune_def char_of_def bit_0)

lemma parse_two_to_63:
  assumes "fo_parse fo ''8589934592'' = Some (Finite (2 ^ 33))" and "fo_mul fo (2 ^ 33) 1073741824 = 2 ^ 63"
  shows "ParseByteSize ct fo ''8589934592GB'' = Inr (fo_overflow fo (Finite (2 ^ 63)))"
proof -
  have t: "trim_space ''8589934592GB'' = ''8589934592GB''" "takeWhile number_char ''8589934592GB'' = ''8589934592''"
    "trim_space (dropWhile number_char ''8589934592GB'') = ''GB''"
    by code_simp+
  have u: "map_of byteSizeUnits ''GB'' = Some 1073741824" by (simp add: byteSizeUnits_def)
  have o: "to_int64 fo (Finite (2 ^ 63)) = fo_overflow fo (Finite (2 ^ 63))" by (simp add: to_int64_def truncate_rat_def)
  show ?thesis unfolding ParseByteSize_def Let_def t upper_GB u assms(1) option.case go_float.case assms(2) o by simp
qed

end
