(* ===== verification/HealthCheck.thy ===== *)
theory HealthCheck
  imports Monitor ByteSize
begin

text \<open>
  The health check of a REST backend (\<open>internal/backend/health.go\<close>, \<open>internal/dadl/health.go\<close>): the declaration and its
  validation, the request of a check, what a response or a transport failure becomes, and the synthetic health tool. The
  request is built by \<open>buildHTTPRequest\<close>; sending it, the clock and the renewal of a credential are parameters. A Go error
  without a response is described by what \<open>errors.Is\<close> and \<open>errors.As\<close> answer on it.
\<close>

section \<open>The declaration\<close>

record health_config =
  hc_Tool :: string
  hc_Method :: string
  hc_Path :: string
  hc_ExpectStatus :: int
  hc_ExpectPath :: string
  hc_AuthExpiresPath :: string
  hc_Timeout :: string
  hc_Expose :: "bool option"

record backend_def =
  bd_name :: string
  bd_health :: "health_config option"
  bd_tools :: "(string \<times> http_tool) list"
  bd_access :: "(string \<times> string) list"
  bd_composites :: "string list"

definition HealthToolName :: string where "HealthToolName = ''health''"
definition DefaultHealthTimeout :: duration where "DefaultHealthTimeout = 5 * second"
definition MaxHealthTimeout :: duration where "MaxHealthTimeout = 60 * second"

definition CheckTimeout :: "float_ops \<Rightarrow> health_config option \<Rightarrow> duration" where
  "CheckTimeout fo h =
     (case h of
        None \<Rightarrow> DefaultHealthTimeout
      | Some c \<Rightarrow>
          if hc_Timeout c = [] then DefaultHealthTimeout
          else (case ParseDuration (fo_fraction fo) (hc_Timeout c) of
              None \<Rightarrow> DefaultHealthTimeout
            | Some d \<Rightarrow> if d \<le> 0 \<or> d > MaxHealthTimeout then DefaultHealthTimeout else d))"

definition Exposed :: "health_config option \<Rightarrow> bool" where
  "Exposed h = (case h of None \<Rightarrow> False | Some c \<Rightarrow> hc_Expose c \<noteq> Some False)"

definition HasSyntheticHealthTool :: "backend_def \<Rightarrow> bool" where
  "HasSyntheticHealthTool b \<longleftrightarrow>
     Exposed (bd_health b) \<and> map_of (bd_tools b) HealthToolName = None \<and> HealthToolName \<notin> set (bd_composites b)"

definition inline_tool :: "string \<Rightarrow> string \<Rightarrow> http_tool" where
  "inline_tool method path =
     \<lparr>rt_method = method, rt_params = [], rt_response = None, rt_pagination_none = False, rt_errors = None,
      rt_idempotency = None, rt_retry_unsafe = False, ht_path = path, ht_content_type = [], ht_nest_body_keys = None,
      ht_max_body_size = []\<rparr>"

definition HealthToolDef :: "case_tables \<Rightarrow> backend_def \<Rightarrow> http_tool option" where
  "HealthToolDef ct b =
     (case bd_health b of
        None \<Rightarrow> None
      | Some h \<Rightarrow>
          if hc_Tool h \<noteq> [] then map_of (bd_tools b) (hc_Tool h)
          else let method = to_upper ct (hc_Method h)
               in Some (inline_tool (if method = [] then ''GET'' else method) (hc_Path h)))"

definition validMethods :: "string list" where
  "validMethods = [''GET'', ''POST'', ''PUT'', ''PATCH'', ''DELETE'', ''HEAD'']"

datatype health_error =
  ToolAndInline | ToolIsComposite string | NoSuchTool string | ToolNeedsParam string string | ToolWrites string string
  | NoToolNoPath | PathPlaceholder string | BadMethod string | BadExpectStatus int | BadExpectPath path_error
  | BadExpiresPath path_error | BadTimeout string | TimeoutOutOfRange string

definition needs_param :: "http_tool \<Rightarrow> string option" where
  "needs_param tool = map_option fst (find_first (\<lambda>(_, p). pd_required p \<or> pd_in p = ''path'') (rt_params tool))"

definition validate_tool :: "backend_def \<Rightarrow> string \<Rightarrow> health_error option" where
  "validate_tool b name =
     (case map_of (bd_tools b) name of
        None \<Rightarrow> Some (if name \<in> set (bd_composites b) then ToolIsComposite name else NoSuchTool name)
      | Some tool \<Rightarrow>
          (case needs_param tool of
             Some p \<Rightarrow> Some (ToolNeedsParam name p)
           | None \<Rightarrow>
               (case map_of (bd_access b) name of
                  None \<Rightarrow> None
                | Some a \<Rightarrow> if a \<in> {''write'', ''admin'', ''dangerous''} then Some (ToolWrites name a) else None)))"

definition validate_inline :: "case_tables \<Rightarrow> health_config \<Rightarrow> health_error option" where
  "validate_inline ct h =
     (if hc_Path h = [] then Some NoToolNoPath
      else if CHR ''{'' \<in> set (hc_Path h) \<or> CHR ''}'' \<in> set (hc_Path h) then Some (PathPlaceholder (hc_Path h))
      else if hc_Method h \<noteq> [] \<and> to_upper ct (hc_Method h) \<notin> set validMethods then Some (BadMethod (hc_Method h))
      else None)"

definition validate_expectations :: "float_ops \<Rightarrow> health_config \<Rightarrow> health_error option" where
  "validate_expectations fo h =
     (if hc_ExpectStatus h \<noteq> 0 \<and> (hc_ExpectStatus h < 100 \<or> hc_ExpectStatus h > 599) then Some (BadExpectStatus (hc_ExpectStatus h))
      else case (if hc_ExpectPath h = [] then Inr [] else NewJSONPath (hc_ExpectPath h)) of
          Inl e \<Rightarrow> Some (BadExpectPath e)
        | Inr _ \<Rightarrow>
            (case (if hc_AuthExpiresPath h = [] then Inr [] else NewJSONPath (hc_AuthExpiresPath h)) of
               Inl e \<Rightarrow> Some (BadExpiresPath e)
             | Inr _ \<Rightarrow>
                 if hc_Timeout h = [] then None
                 else (case ParseDuration (fo_fraction fo) (hc_Timeout h) of
                         None \<Rightarrow> Some (BadTimeout (hc_Timeout h))
                       | Some d \<Rightarrow> if d \<le> 0 \<or> d > MaxHealthTimeout then Some (TimeoutOutOfRange (hc_Timeout h)) else None)))"

definition validateHealth :: "case_tables \<Rightarrow> float_ops \<Rightarrow> backend_def \<Rightarrow> health_error option" where
  "validateHealth ct fo b =
     (case bd_health b of
        None \<Rightarrow> None
      | Some h \<Rightarrow>
          (case (if hc_Tool h \<noteq> [] \<and> (hc_Method h \<noteq> [] \<or> hc_Path h \<noteq> []) then Some ToolAndInline
                 else if hc_Tool h \<noteq> [] then validate_tool b (hc_Tool h)
                 else validate_inline ct h) of
             Some e \<Rightarrow> Some e
           | None \<Rightarrow> validate_expectations fo h))"

definition healthWarnings :: "backend_def \<Rightarrow> nat" where
  "healthWarnings b = (if \<not> Exposed (bd_health b) \<or> HasSyntheticHealthTool b then 0 else 1)"

section \<open>Values of a response\<close>

definition JSONPathValue :: "(string \<Rightarrow> json option) \<Rightarrow> string \<Rightarrow> string \<Rightarrow> json option" where
  "JSONPathValue unmarshal body path =
     (case extractPathValue unmarshal body path of
        None \<Rightarrow> None
      | Some (JArr nodes) \<Rightarrow>
          (case NewJSONPath path of
             Inr jp \<Rightarrow> if hasWildcard jp then (case nodes of [] \<Rightarrow> None | n # _ \<Rightarrow> Some n) else Some (JArr nodes)
           | Inl _ \<Rightarrow> Some (JArr nodes))
      | Some v \<Rightarrow> Some v)"

definition expiry_of_json :: "float_ops \<Rightarrow> json \<Rightarrow> expiry_value" where
  "expiry_of_json fo v =
     (case v of JStr s \<Rightarrow> ExString s | JNum n \<Rightarrow> (case fo_parse fo n of Some f \<Rightarrow> ExFloat f | None \<Rightarrow> ExOther) | _ \<Rightarrow> ExOther)"

record transport_error =
  te_message :: string
  te_deadline :: bool
  te_dns :: bool
  te_tls :: bool
  te_refused :: bool
  te_net_timeout :: bool

definition classifyTransportError :: "transport_error \<Rightarrow> string" where
  "classifyTransportError e =
     (if te_deadline e then ''timeout''
      else if te_dns e then ''dns_error''
      else if te_tls e then ''tls_error''
      else if te_refused e then ''connection_refused''
      else if te_net_timeout e then ''timeout''
      else ''protocol_error'')"

definition transportErrorMessage :: "transport_error \<Rightarrow> string" where
  "transportErrorMessage e = trim_space (te_message e)"

section \<open>The check\<close>

record ('w, 'b) health_env =
  hv_def :: backend_def
  hv_lib :: "('w, 'b) request_lib"
  hv_defaults :: rest_defaults
  hv_floats :: float_ops
  hv_default_errors :: "error_config option"
  hv_auth_expires :: time
  hv_send :: "duration \<Rightarrow> 'b rest_request \<Rightarrow> 'w \<Rightarrow> (transport_error, int \<times> (transport_error, string) result) result \<times> 'w"
  hv_setup_error :: "request_error \<Rightarrow> transport_error"
  hv_can_reauth :: bool
  hv_reauth :: "'w \<Rightarrow> bool \<times> 'w"
  hv_now :: "'w \<Rightarrow> time"
  hv_unmarshal :: "string \<Rightarrow> json option"
  hv_sprint :: "json \<Rightarrow> string"

definition maxHealthBodyBytes :: nat where "maxHealthBodyBytes = 1048576"
definition maxHealthMessageLen :: nat where "maxHealthMessageLen = 200"

datatype attempt = SetupFailed transport_error | NoResponse transport_error | Response int string bool

text \<open>One exchange. What building the request writes into the shared defaults is passed to the next attempt.\<close>

definition healthAttempt :: "('w, 'b) health_env \<Rightarrow> duration \<Rightarrow> http_tool \<Rightarrow> 'w \<Rightarrow> attempt \<times> http_tool \<times> 'w" where
  "healthAttempt env timeout tool w =
     (case buildHTTPRequest (hv_lib env) (hv_defaults env) tool [] w of
        (Inl e, tool', _, w1) \<Rightarrow> (SetupFailed (hv_setup_error env e), tool', w1)
      | (Inr req, tool', _, w1) \<Rightarrow>
          (case hv_send env timeout req w1 of
             (Inl e, w2) \<Rightarrow> (NoResponse e, tool', w2)
           | (Inr (status, Inl e), w2) \<Rightarrow> (NoResponse (e\<lparr>te_message := ''read response: '' @ te_message e\<rparr>), tool', w2)
           | (Inr (status, Inr body), w2) \<Rightarrow>
               (Response status (take maxHealthBodyBytes body) (length body > maxHealthBodyBytes), tool', w2)))"

definition effective_errors :: "('w, 'b) health_env \<Rightarrow> http_tool \<Rightarrow> error_config option" where
  "effective_errors env tool = (case rt_errors tool of Some c \<Rightarrow> Some c | None \<Rightarrow> hv_default_errors env)"

definition no_error_config :: error_config where
  "no_error_config = \<lparr>ec_message_path = [], ec_code_path = [], ec_retry_on = [], ec_terminal = [], ec_retry_strategy = None, ec_map = []\<rparr>"

definition health_error_config :: "('w, 'b) health_env \<Rightarrow> http_tool \<Rightarrow> error_config" where
  "health_error_config env tool = (case effective_errors env tool of Some c \<Rightarrow> c | None \<Rightarrow> no_error_config)"

definition healthStatusError :: "('w, 'b) health_env \<Rightarrow> http_tool \<Rightarrow> int \<Rightarrow> string \<Rightarrow> int \<Rightarrow> string \<times> string" where
  "healthStatusError env tool status body expect =
     (let cfg = health_error_config env tool;
          api = fst (CheckResponse (hv_unmarshal env) (hv_sprint env) cfg status body);
          code = (case api of Some e \<Rightarrow> er_code e | None \<Rightarrow> ''unexpected_status'');
          provider = (case api of Some e \<Rightarrow> er_provider e | None \<Rightarrow> []);
          message = (if ec_message_path cfg = [] then []
                     else case JSONPathValue (hv_unmarshal env) body (ec_message_path cfg) of
                         None \<Rightarrow> []
                       | Some v \<Rightarrow> if v = JNull then []
                                  else '': '' @ (let m = hv_sprint env v in
                                    if length m > maxHealthMessageLen then take maxHealthMessageLen m @ ''...'' else m))
      in (''['' @ code @ ''] HTTP '' @ itoa_int status @ message @
            (if provider \<noteq> [] then '' (provider_code='' @ provider @ '')'' else []) @
            (if expect \<noteq> 0 then ''; expected HTTP '' @ itoa_int expect else []),
          code @ '' (HTTP '' @ itoa_int status @ '')''))"

definition status_passes :: "health_config \<Rightarrow> int \<Rightarrow> bool" where
  "status_passes h status = (if hc_ExpectStatus h \<noteq> 0 then status = hc_ExpectStatus h else 200 \<le> status \<and> status < 300)"

definition evaluateHealth ::
  "('w, 'b) health_env \<Rightarrow> health_config \<Rightarrow> http_tool \<Rightarrow> int \<Rightarrow> string \<Rightarrow> bool \<Rightarrow> health_result \<Rightarrow> health_result" where
  "evaluateHealth env h tool status body truncated res =
     (let passed = status_passes h status;
          missing = (hc_ExpectPath h \<noteq> [] \<and> JSONPathValue (hv_unmarshal env) body (hc_ExpectPath h) = None);
          res1 = (if \<not> passed then
                    (let (detail, reason) = healthStatusError env tool status body (hc_ExpectStatus h)
                     in res\<lparr>hl_OK := False, hl_Error := detail, hl_Reason := reason\<rparr>)
                  else if missing then
                    res\<lparr>hl_OK := False,
                        hl_Error := ''the response has no value at '' @ hc_ExpectPath h @ '' (expect_path)'' @
                          (if truncated then ''; only the first '' @ itoa maxHealthBodyBytes @ '' bytes were read'' else []),
                        hl_Reason := ''expect_path '' @ hc_ExpectPath h @ '' missing (HTTP '' @ itoa_int status @ '')''\<rparr>
                  else res\<lparr>hl_OK := True\<rparr>)
      in if hc_AuthExpiresPath h = [] then res1
         else case JSONPathValue (hv_unmarshal env) body (hc_AuthExpiresPath h) of
             None \<Rightarrow> res1
           | Some v \<Rightarrow> (case ParseExpiry (hv_floats env) (expiry_of_json (hv_floats env) v) of
                 None \<Rightarrow> res1 | Some t \<Rightarrow> res1\<lparr>hl_AuthExpiresAt := t\<rparr>))"

definition attempt_result ::
  "('w, 'b) health_env \<Rightarrow> health_config \<Rightarrow> http_tool \<Rightarrow> attempt \<Rightarrow> health_result \<Rightarrow> health_result" where
  "attempt_result env h tool ha res =
     (case ha of
        SetupFailed e \<Rightarrow>
          res\<lparr>hl_ErrorCode := classifyTransportError e,
              hl_Error := ''request could not be prepared: '' @ transportErrorMessage e,
              hl_Reason := ''request setup failed ('' @ classifyTransportError e @ '')''\<rparr>
      | NoResponse e \<Rightarrow>
          res\<lparr>hl_ErrorCode := classifyTransportError e, hl_Error := transportErrorMessage e,
              hl_Reason := ''no response ('' @ classifyTransportError e @ '')''\<rparr>
      | Response status body truncated \<Rightarrow> evaluateHealth env h tool status body truncated (res\<lparr>hl_HTTPStatus := status\<rparr>))"

definition no_check_error :: string where "no_check_error = ''the backend declares no health check''"

definition CheckHealth :: "('w, 'b) health_env \<Rightarrow> 'w \<Rightarrow> health_result \<times> 'w" where
  "CheckHealth env w =
     (let start = hv_now env w; res = no_health_result\<lparr>hl_CheckedAt := start\<rparr>
      in case (bd_health (hv_def env), HealthToolDef (rl_case (hv_lib env)) (hv_def env)) of
           (Some h, Some tool) \<Rightarrow>
             (let timeout = CheckTimeout (hv_floats env) (Some h);
                  (at1, tool1, w1) = healthAttempt env timeout tool w;
                  (ha, w2) = (case at1 of
                     Response status _ _ \<Rightarrow>
                       if status = 401 \<and> hv_can_reauth env then
                         (let (renewed, w') = hv_reauth env w1
                          in if renewed then (let (at2, _, w'') = healthAttempt env timeout tool1 w' in (at2, w'')) else (at1, w'))
                       else (at1, w1)
                   | _ \<Rightarrow> (at1, w1));
                  r = attempt_result env h tool ha (res\<lparr>hl_Latency := hv_now env w2 - start\<rparr>)
              in (if IsZero (hl_AuthExpiresAt r) then r\<lparr>hl_AuthExpiresAt := hv_auth_expires env\<rparr> else r, w2))
         | _ \<Rightarrow> (res\<lparr>hl_ErrorCode := ''protocol_error'', hl_Error := no_check_error, hl_Reason := no_check_error\<rparr>, w))"

section \<open>The health tool\<close>

definition health_wire :: "health_result \<Rightarrow> json" where
  "health_wire r =
     JObj ([(''ok'', JBool (hl_OK r))] @
       (if hl_HTTPStatus r \<noteq> 0 then [(''http_status'', JNum (itoa_int (hl_HTTPStatus r)))] else []) @
       (if hl_ErrorCode r \<noteq> [] then [(''error_code'', JStr (hl_ErrorCode r))] else []) @
       [(''latency_ms'', JNum (itoa_int (milliseconds (hl_Latency r)))), (''checked_at'', JStr (format_rfc3339 (hl_CheckedAt r)))] @
       (if IsZero (hl_AuthExpiresAt r) then [] else [(''auth_expires_at'', JStr (format_rfc3339 (hl_AuthExpiresAt r)))]) @
       (if hl_Error r \<noteq> [] then [(''error'', JStr (hl_Error r))] else []))"

text \<open>The result of the tool, and what the observer is told.\<close>

definition executeHealthTool ::
  "('w, 'b) health_env \<Rightarrow> (rune \<Rightarrow> bool) \<Rightarrow> (json \<Rightarrow> string) \<Rightarrow> args \<Rightarrow> 'w \<Rightarrow> tool_result \<times> (string \<times> health_result) option \<times> 'w" where
  "executeHealthTool env printable encode params w =
     (case ValidateParams (rl_case (hv_lib env)) HealthToolName [] params of
        Some e \<Rightarrow> (apiErrorResult (ErrParam (param_error_text printable e)), None, w)
      | None \<Rightarrow>
          (let (res, w1) = CheckHealth env w
           in (\<lparr>tr_content = Some [textContent (encode (health_wire res))], tr_is_error = False,
                tr_metadata = Some ([(''backend'', JStr (bd_name (hv_def env))), (''transport'', JStr ''rest'')] @
                  (if hl_HTTPStatus res \<noteq> 0 then [(''statusCode'', JNum (itoa_int (hl_HTTPStatus res)))] else []))\<rparr>,
               Some (bd_name (hv_def env), res), w1)))"

section \<open>What a check tells\<close>

text \<open>Everything a reason can be, from the configuration, the status and the class of a transport failure.\<close>

definition status_code :: "('w, 'b) health_env \<Rightarrow> http_tool \<Rightarrow> int \<Rightarrow> string" where
  "status_code env tool status =
     (if 200 \<le> status \<and> status < 300 then ''unexpected_status'' else semanticCode (health_error_config env tool) status)"

definition public_reasons :: "('w, 'b) health_env \<Rightarrow> int \<Rightarrow> string \<Rightarrow> string list" where
  "public_reasons env status code =
     (case (bd_health (hv_def env), HealthToolDef (rl_case (hv_lib env)) (hv_def env)) of
        (Some h, Some tool) \<Rightarrow>
          [[], ''no response ('' @ code @ '')'', ''request setup failed ('' @ code @ '')'',
           ''expect_path '' @ hc_ExpectPath h @ '' missing (HTTP '' @ itoa_int status @ '')'',
           status_code env tool status @ '' (HTTP '' @ itoa_int status @ '')'']
      | _ \<Rightarrow> [no_check_error])"

definition transport_codes :: "string list" where
  "transport_codes = [''timeout'', ''dns_error'', ''tls_error'', ''connection_refused'', ''protocol_error'']"

lemma classify_codes: "classifyTransportError e \<in> set transport_codes" "classifyTransportError e \<noteq> []"
  by (simp_all add: classifyTransportError_def transport_codes_def)

lemma healthStatusError_reason:
  "snd (healthStatusError env tool status body expect) = status_code env tool status @ '' (HTTP '' @ itoa_int status @ '')''"
  by (simp add: healthStatusError_def Let_def status_code_def CheckResponse_def)

lemma evaluate_fields:
  "hl_OK (evaluateHealth env h tool status body tr res) \<longleftrightarrow>
     status_passes h status \<and> (hc_ExpectPath h = [] \<or> JSONPathValue (hv_unmarshal env) body (hc_ExpectPath h) \<noteq> None)"
  "hl_Reason (evaluateHealth env h tool status body tr res) =
     (if \<not> status_passes h status then status_code env tool status @ '' (HTTP '' @ itoa_int status @ '')''
      else if hc_ExpectPath h \<noteq> [] \<and> JSONPathValue (hv_unmarshal env) body (hc_ExpectPath h) = None
      then ''expect_path '' @ hc_ExpectPath h @ '' missing (HTTP '' @ itoa_int status @ '')'' else hl_Reason res)"
  "hl_ErrorCode (evaluateHealth env h tool status body tr res) = hl_ErrorCode res"
  "hl_HTTPStatus (evaluateHealth env h tool status body tr res) = hl_HTTPStatus res"
  using healthStatusError_reason [of env tool status body "hc_ExpectStatus h"]
  by (auto simp: evaluateHealth_def Let_def case_prod_beta split: option.splits)

definition told :: "('w, 'b) health_env \<Rightarrow> health_result \<Rightarrow> bool" where
  "told env r \<longleftrightarrow>
     hl_Reason r \<in> set (public_reasons env (hl_HTTPStatus r) (hl_ErrorCode r)) \<and>
     hl_ErrorCode r \<in> set ([] # transport_codes) \<and> (hl_OK r \<longleftrightarrow> hl_Reason r = [])"

lemma attempt_told:
  assumes "bd_health (hv_def env) = Some h" and "HealthToolDef (rl_case (hv_lib env)) (hv_def env) = Some tool"
  shows "told env (attempt_result env h tool ha (no_health_result\<lparr>hl_CheckedAt := c, hl_Latency := l\<rparr>))"
proof (cases ha)
  case (Response status body truncated)
  then show ?thesis using assms
    by (auto simp: told_def attempt_result_def public_reasons_def evaluate_fields no_health_result_def)
qed (use assms classify_codes in \<open>auto simp: told_def attempt_result_def public_reasons_def no_health_result_def\<close>)

lemma told_expiry: "told env (r\<lparr>hl_AuthExpiresAt := t\<rparr>) = told env r"
  by (cases r) (simp add: told_def)

text \<open>C21: The reason of a health result is one of a few strings made of the declaration, the status and the class
  of a transport failure: nothing of a response body is in it, so the unauthenticated report built from it carries none. A
  check passes exactly when its result gives no reason.\<close>

theorem health_reason_carries_no_content:
  "hl_Reason (fst (CheckHealth env w)) \<in>
     set (public_reasons env (hl_HTTPStatus (fst (CheckHealth env w))) (hl_ErrorCode (fst (CheckHealth env w)))) \<and>
   hl_ErrorCode (fst (CheckHealth env w)) \<in> set ([] # transport_codes) \<and>
   (hl_OK (fst (CheckHealth env w)) \<longleftrightarrow> hl_Reason (fst (CheckHealth env w)) = [])"
proof (cases "bd_health (hv_def env) = None \<or> HealthToolDef (rl_case (hv_lib env)) (hv_def env) = None")
  case True
  then show ?thesis
    by (auto simp: CheckHealth_def public_reasons_def transport_codes_def Let_def no_health_result_def no_check_error_def
        split: option.splits)
next
  case False
  then obtain h tool where h: "bd_health (hv_def env) = Some h" "HealthToolDef (rl_case (hv_lib env)) (hv_def env) = Some tool"
    by auto
  obtain ha w2 where c: "fst (CheckHealth env w) =
      (let r = attempt_result env h tool ha (no_health_result\<lparr>hl_CheckedAt := hv_now env w, hl_Latency := hv_now env w2 - hv_now env w\<rparr>)
       in if IsZero (hl_AuthExpiresAt r) then r\<lparr>hl_AuthExpiresAt := hv_auth_expires env\<rparr> else r)"
    using h by (simp add: CheckHealth_def Let_def case_prod_beta)
  have "told env (fst (CheckHealth env w))"
    using attempt_told [OF h, of ha "hv_now env w2 - hv_now env w" "hv_now env w"] unfolding c Let_def by (simp add: told_expiry)
  then show ?thesis by (simp add: told_def)
qed

section \<open>A validated declaration\<close>

lemma no_path_params:
  "(\<And>n d. (n, d) \<in> set ds \<Longrightarrow> pd_in d \<noteq> ''path'') \<Longrightarrow> substitute_params sf params ds path = Inr path"
proof (induction ds)
  case (Cons nd ds)
  then show ?case by (cases nd) auto
qed simp

lemma no_required_headers:
  "\<forall>(n, d) \<in> set ds. \<not> pd_required d \<Longrightarrow> \<exists>hs'. applyHeaderParams ct sf params ds hs = Inr hs'"
proof (induction ds arbitrary: hs)
  case (Cons nd ds)
  obtain n d where nd: "nd = (n, d)" by (cases nd)
  have IH: "\<exists>hs'. applyHeaderParams ct sf params ds hs = Inr hs'" for hs using Cons by simp
  have "\<not> pd_required d" using Cons.prems nd by simp
  then show ?case using IH nd by (auto simp: Let_def split: option.splits)
qed simp

lemma needs_param_None:
  "needs_param tool = None \<Longrightarrow> (n, d) \<in> set (rt_params tool) \<Longrightarrow> \<not> pd_required d \<and> pd_in d \<noteq> ''path''"
  by (auto simp: needs_param_def find_first_None)

lemma validated_tool:
  assumes "validateHealth ct fo b = None" and "bd_health b = Some h"
  shows "\<exists>tool. HealthToolDef ct b = Some tool \<and> needs_param tool = None"
proof (cases "hc_Tool h = []")
  case True
  then show ?thesis using assms(2) by (auto simp: HealthToolDef_def Let_def inline_tool_def needs_param_def)
next
  case False
  then have "validate_tool b (hc_Tool h) = None" using assms by (auto simp: validateHealth_def split: option.splits if_splits)
  then show ?thesis using False assms(2) by (auto simp: HealthToolDef_def validate_tool_def split: option.splits if_splits)
qed

text \<open>A declaration that passes validation can be checked without arguments: it has a request, whose path has no placeholder
  left to fill and whose headers are complete, and a timeout between zero and a minute.\<close>

theorem validated_check_needs_no_arguments:
  assumes "validateHealth ct fo b = None" and "bd_health b = Some h"
  shows "\<exists>tool. HealthToolDef ct b = Some tool \<and> buildPath sf tool [] = Inr (ht_path tool) \<and>
    (\<exists>hs'. applyHeaderParams ct sf [] (rt_params tool) hs = Inr hs') \<and>
    0 < CheckTimeout fo (Some h) \<and> CheckTimeout fo (Some h) \<le> MaxHealthTimeout"
proof -
  obtain tool where t: "HealthToolDef ct b = Some tool" "needs_param tool = None" using validated_tool [OF assms] by blast
  have "buildPath sf tool [] = Inr (ht_path tool)"
    unfolding buildPath_def by (rule no_path_params) (use needs_param_None [OF t(2)] in blast)
  moreover have "\<exists>hs'. applyHeaderParams ct sf [] (rt_params tool) hs = Inr hs'"
    by (rule no_required_headers) (use needs_param_None [OF t(2)] in blast)
  moreover have "0 < CheckTimeout fo (Some h) \<and> CheckTimeout fo (Some h) \<le> MaxHealthTimeout"
    by (auto simp: CheckTimeout_def DefaultHealthTimeout_def MaxHealthTimeout_def second_def split: option.splits)
  ultimately show ?thesis using t(1) by blast
qed

end
