(* ===== verification/Spec2Isabelle.thy ===== *)
theory Spec2Isabelle
  imports ExecEngine Statement ToolRefs LoginOutage CompareLimit ClientAddr JsonPath UrlGuard Routing BlobProps RestProps Coerce OAuthProps
    MonitorProps HealthCheck
begin

text \<open>
  ToolMesh is a gateway between MCP clients and the tools of many backends. A tool call passes, in
  this order, authorization, credential injection, a policy gate, the backend and the gate again,
  and leaves one audit entry. This library models that path and the lifecycle of the kits (bundles
  of rights, requested by a caller and approved by a person) that it depends on.

  \<^bold>\<open>Parts and theories.\<close>

  \<^item> \<open>Prelude\<close>, \<open>GoStrings\<close>: results as sums, lists, Go's strings, runes, UTF-8 and sorting as far as
    the sources use them. \<open>Names\<close>, \<open>Kits\<close>, \<open>Approvers\<close>, \<open>Policy\<close>: \<open>internal/authz\<close>
    (\<open>authz.go\<close>, \<open>kits.go\<close>, \<open>approvers.go\<close>, \<open>grants.go\<close>): ids, kits and their parts, approvers, presets and
    the policy file. \<open>Bech32\<close>: \<open>internal/bip322/bech32.go\<close> and the addresses of \<open>bip322.go\<close>. \<open>Sha256\<close>: the
    hash behind a grant's fingerprint.
  \<^item> \<open>Fga\<close>: the OpenFGA server as a locale (\<open>fga_server\<close>, \<open>fga_reliable\<close>) with the laws its documentation
    gives, interpreted on a tuple store. \<open>Engine\<close>: \<open>internal/authz/embedded.go\<close>. \<open>EngineSpec\<close>,
    \<open>EngineApply\<close>, \<open>EngineOrder\<close>, \<open>EngineBatch\<close>, \<open>EngineProps\<close>: what a policy means in terms of grants, denies
    and kits, and that the tuples written by \<open>ApplyPolicy\<close> and the contextual tuples of \<open>Check\<close>
    decide exactly that; that an interrupted apply never allows more than the old or the new
    rules; that a batch shares only equal decisions.
  \<^item> \<open>Userctx\<close>, \<open>Durations\<close>, \<open>GrantStore\<close>, \<open>GrantText\<close>, \<open>GrantService\<close>, \<open>Statement\<close>: \<open>internal/userctx\<close> and
    \<open>internal/grants\<close> (\<open>grants.go\<close>, \<open>store.go\<close>, \<open>service.go\<close>, \<open>statement.go\<close>). The store interface is the
    locale \<open>grant_store\<close>, interpreted on the memory store; the service's operations are functions of
    the service state. \<open>GrantFacts\<close>, \<open>GrantLifecycle\<close>, \<open>GrantProps\<close>: the step relation of requests,
    approvals, denials, revocations and the passing of time, its invariants, and what follows for a
    kit that is held.
  \<^item> \<open>Trail\<close>: the audit entry (\<open>internal/audit/interface.go\<close>) and JSON values. \<open>RateLimit\<close>, \<open>Directives\<close>,
    \<open>Gate\<close>, \<open>GateProps\<close>, \<open>ToolRefs\<close>: \<open>internal/gate\<close> (\<open>context.go\<close>, \<open>directives.go\<close>, \<open>gate.go\<close>,
    \<open>pipeline.go\<close>, \<open>toolrefs.go\<close>). The JavaScript engine is a parameter: a policy takes the context object
    and returns a refusal or the changed context.
  \<^item> \<open>ExecBase\<close>, \<open>Rights\<close>, \<open>Executor\<close>, \<open>ExecProps\<close>: \<open>internal/executor\<close> (\<open>executor.go\<close>, \<open>rights.go\<close>). Each
    step of \<open>ExecuteTool\<close> is a stage that ends the call or passes it on; backend, authorizer,
    credentials and grants are fields of the executor record. \<open>ExecEngine\<close> puts the executor on the
    embedded engine and the grant service.
  \<^item> \<open>NetAddr\<close>, \<open>ClientAddr\<close>: IP addresses as \<open>net\<close> and \<open>net/netip\<close> parse and classify them, and the address of a
    client (\<open>internal/auth/clientip.go\<close>, \<open>ratelimit.go\<close>). \<open>LoginThrottle\<close>: \<open>internal/auth/loginthrottle.go\<close>, with
    the counters in memory and in Redis. \<open>LoginProps\<close>, \<open>LoginRedis\<close>, \<open>LoginOutage\<close>: the laws of a table of
    windowed counters (locale \<open>window_counters\<close>) and of the Redis commands (\<open>redis_server\<close>), the limit on
    password checks that follows from them for one process and for all replicas, and what holds while
    Redis is away. \<open>CompareLimit\<close>: the limiter of hash comparisons (\<open>comparelimit.go\<close>) as a step relation of
    goroutines.
  \<^item> \<open>ApiKeys\<close>, \<open>ApiKeyProps\<close>: \<open>internal/auth/apikeys.go\<close>. Concurrent requests are a step relation over the index and the
    unseen entries: who is accepted, who is rejected, and what it costs, in every reachable state.
    \<open>Users\<close>: \<open>users.go\<close> and \<open>internal/config/callerclasses.go\<close>. \<open>TokenStores\<close>, \<open>TokenContract\<close>: the stores of OAuth
    clients, codes and tokens (\<open>store.go\<close>, \<open>file_store.go\<close>, \<open>hybrid_store.go\<close>); their contract is the locale
    \<open>token_store\<close>, and \<open>single_use_store\<close> where a consumed code is gone, interpreted on the file store, on
    Redis and on both together. \<open>OAuthServer\<close>, \<open>OAuthProps\<close>: authentication and the OAuth endpoints of
    \<open>internal/mcp/server.go\<close> over any such store, and where an access token comes from in every run.
  \<^item> \<open>Routing\<close>: \<open>internal/backend/composite.go\<close> and \<open>reserved.go\<close>: the longest matching backend name decides where a
    call runs, what is authorized and how the tool is classified; promoted names and aliases.
  \<^item> \<open>JsonPath\<close>, \<open>RestErrors\<close>, \<open>ParamCheck\<close>, \<open>RestPages\<close>, \<open>RestCall\<close>, \<open>RestProps\<close>: a call of a REST tool:
    \<open>internal/dadl\<close> (\<open>jsonpath.go\<close>, \<open>redact.go\<close>, \<open>errors.go\<close>, \<open>idempotency.go\<close>, \<open>paramcheck.go\<close>, \<open>pagination.go\<close>) and
    \<open>Execute\<close> of \<open>internal/backend/restadapter.go\<close> with \<open>blobhandle.go\<close>. The adapter is a record of its settings
    and of what it calls; the state carries the requests that were sent, over which retry safety is
    stated. \<open>RestPath\<close>, \<open>RestBody\<close>, \<open>RestRequest\<close>, \<open>ByteSize\<close>: the request itself, from the template and the
    arguments to URL, headers and body (\<open>buildHTTPRequest\<close>), with the size limits of \<open>bytesize.go\<close>; a body
    shares its objects with the arguments and the declared defaults, so building one returns both.
    \<open>UrlGuard\<close>: \<open>urlvalidation.go\<close>. \<open>Coerce\<close>: \<open>internal/tsdef/coerce.go\<close>.
  \<^item> \<open>BlobStore\<close>, \<open>BlobQuota\<close>, \<open>BlobProps\<close>: \<open>internal/blob\<close>. Uploads run side by side as a step relation whose steps are
    the critical sections of the store; the accounting is an invariant of its reachable states.

  \<^item> \<open>Health\<close>, \<open>Monitor\<close>, \<open>MonitorProps\<close>: \<open>internal/health\<close>: the settings, the state kept of each backend, the report,
    and the concurrent checks as a step relation; the state is shown to represent the history of
    results, from which the report is read off. \<open>HealthCheck\<close>: \<open>internal/backend/health.go\<close> and
    \<open>internal/dadl/health.go\<close>, the check a backend declares, over the request of \<open>RestRequest\<close>.

  \<^bold>\<open>State and errors.\<close> Structs are records and enums datatypes with the names of the source. A
  function that mutates returns the new state; one that fails returns \<open>Inl\<close> of an error datatype.
  Times and durations are integers in nanoseconds. Where Go iterates over a map in no fixed order
  the model takes the order as an argument or proves the result independent of it.

  \<^bold>\<open>Bounds and termination.\<close> No definition of the program uses fuel (\<open>run_alone\<close> of \<open>ApiKeyProps\<close> counts steps,
  and \<open>verify_runs\<close> says how many are enough). Loops over an index recurse with a measure on the
  distance to the end of the input (\<open>ToolRefs\<close>, \<open>GoStrings\<close>); the retry loop and the page loops recurse on the
  attempts and pages left, the bounds the code counts to. The counters of the blob store and the
  delays of the retryer are \<open>int64\<close>: their sums and products go through \<open>wrap64\<close>, and the theorems
  assume that fewer than \<open>2^63\<close> bytes are stored.

  \<^bold>\<open>Not modelled.\<close> The MCP and HTTP surface beyond authentication, configuration and start-up, the parser of DADL files, the
  JavaScript and TypeScript engines behind policies, composites and unit tests, the curve arithmetic
  of signatures, log and SQLite output, and telemetry. They are I/O and wiring around the modelled
  parts, or libraries the sources call. Requests to other servers (OpenFGA, Redis, REST backends), the
  clock, random ids, the disk, JSON text and printing of floats are arguments of the definitions that
  use them; what the proofs need of OpenFGA and Redis is a locale with the documented laws.
\<close>

end
